(* ===== verification/Orkia_Prelude.thy ===== *)
theory Orkia_Prelude
  imports Main "HOL-Library.Word" "HOL-Library.Sublist"
begin

section \<open>Shared vocabulary of the development\<close>

text \<open>
  What every component theory builds on: results, the operations of Rust's \<^verbatim>\<open>str\<close>
  and \<^verbatim>\<open>[T]\<close> the sources call, decimal numerals, shell quoting (a specification
  function), and the lemma collections that carry the component proofs.

  A Rust string is a list of characters. A \<^typ>\<open>char\<close> stands for the Unicode scalar
  values U+0000 to U+00FF; the delimiters and the whitespace the sources look for are
  in that range, and \<open>is_whitespace\<close> is exact on it. Lengths in bytes are only used
  where the source compares them with a value that characters and bytes agree on.
\<close>

named_theorems str_simps \<open>rewriting with the string operations\<close>
named_theorems scan_simps \<open>one-step unfolding of the quote-aware scanners\<close>
named_theorems store_simps \<open>frame and lookup laws of the stores\<close>

subsection \<open>Results\<close>

type_synonym ('e, 'a) result = "'e + 'a"

abbreviation Err :: "'e \<Rightarrow> ('e, 'a) result" where
  "Err \<equiv> Inl"

abbreviation Ok :: "'a \<Rightarrow> ('e, 'a) result" where
  "Ok \<equiv> Inr"

definition is_ok :: "('e, 'a) result \<Rightarrow> bool" where
  "is_ok r = (case r of Inl _ \<Rightarrow> False | Inr _ \<Rightarrow> True)"

lemma is_ok_simps [simp]: "is_ok (Ok a)" "\<not> is_ok (Err e)"
  by (simp_all add: is_ok_def)

lemma is_ok_iff: "is_ok r \<longleftrightarrow> (\<exists>a. r = Ok a)"
  by (cases r) auto

lemma not_is_ok_iff: "\<not> is_ok r \<longleftrightarrow> (\<exists>e. r = Err e)"
  by (cases r) auto

text \<open>The \<^verbatim>\<open>?\<close> operator: go on with the value, or return the error.\<close>

definition and_then :: "('e, 'a) result \<Rightarrow> ('a \<Rightarrow> ('e, 'b) result) \<Rightarrow> ('e, 'b) result" where
  "and_then r f = (case r of Inl e \<Rightarrow> Inl e | Inr a \<Rightarrow> f a)"

lemma and_then_simps [simp]:
  "and_then (Ok a) f = f a" "and_then (Err e) f = Err e"
  by (simp_all add: and_then_def)

lemma and_then_Ok_iff: "and_then r f = Ok b \<longleftrightarrow> (\<exists>a. r = Ok a \<and> f a = Ok b)"
  by (cases r) auto

subsection \<open>Hash maps\<close>

text \<open>
  \<^verbatim>\<open>HashMap\<close> where the sources iterate over one: an association list with distinct keys, in
  the order the iteration happens to have.
\<close>

definition hm_insert :: "'k \<Rightarrow> 'v \<Rightarrow> ('k \<times> 'v) list \<Rightarrow> ('k \<times> 'v) list" where
  "hm_insert k v m = (k, v) # filter (\<lambda>p. fst p \<noteq> k) m"

definition hm_remove :: "'k \<Rightarrow> ('k \<times> 'v) list \<Rightarrow> ('k \<times> 'v) list" where
  "hm_remove k m = filter (\<lambda>p. fst p \<noteq> k) m"

lemma map_of_filter_key: "map_of (filter (\<lambda>p. fst p \<noteq> k) m) = (map_of m)(k := None)"
  by (induction m) (auto simp: fun_eq_iff)

lemma hm_map_of [simp]:
  "map_of (hm_insert k v m) = (map_of m)(k \<mapsto> v)" "map_of (hm_remove k m) = (map_of m)(k := None)"
  by (simp_all add: hm_insert_def hm_remove_def map_of_filter_key)

lemma hm_distinct [simp]:
  "distinct (map fst m) \<Longrightarrow> distinct (map fst (hm_insert k v m))"
  "distinct (map fst m) \<Longrightarrow> distinct (map fst (hm_remove k m))"
  by (auto simp: hm_insert_def hm_remove_def distinct_map_filter)

lemma hm_list_all [simp]:
  "list_all P m \<Longrightarrow> P (k, v) \<Longrightarrow> list_all P (hm_insert k v m)"
  "list_all P m \<Longrightarrow> list_all P (hm_remove k m)"
  by (auto simp: hm_insert_def hm_remove_def list_all_iff)

subsection \<open>JSON values\<close>

text \<open>\<^verbatim>\<open>serde_json::Value\<close>, as far as the sources build and inspect it. An object
  lists its entries in ascending order of their keys, as the library keeps them.\<close>

datatype Json = JNull | JBool bool | JInt int | JStr string | JArr "Json list" | JObj "(string \<times> Json) list"

definition json_get :: "string \<Rightarrow> Json \<Rightarrow> Json option" where
  "json_get k j = (case j of JObj kvs \<Rightarrow> map_of kvs k | _ \<Rightarrow> None)"

definition json_as_str :: "Json \<Rightarrow> string option" where
  "json_as_str j = (case j of JStr s \<Rightarrow> Some s | _ \<Rightarrow> None)"

definition json_as_int :: "Json \<Rightarrow> int option" where
  "json_as_int j = (case j of JInt i \<Rightarrow> if - (2 ^ 63) \<le> i \<and> i < 2 ^ 63 then Some i else None | _ \<Rightarrow> None)"

definition json_as_u64 :: "Json \<Rightarrow> int option" where
  "json_as_u64 j = (case j of JInt i \<Rightarrow> if 0 \<le> i \<and> i < 2 ^ 64 then Some i else None | _ \<Rightarrow> None)"

definition json_as_bool :: "Json \<Rightarrow> bool option" where
  "json_as_bool j = (case j of JBool b \<Rightarrow> Some b | _ \<Rightarrow> None)"

definition json_opt_str :: "string option \<Rightarrow> Json" where
  "json_opt_str s = (case s of None \<Rightarrow> JNull | Some t \<Rightarrow> JStr t)"

subsection \<open>Characters and words\<close>

abbreviation SQ :: char where "SQ \<equiv> CHR 0x27"
abbreviation DQ :: char where "DQ \<equiv> CHR 0x22"
abbreviation BS :: char where "BS \<equiv> CHR 0x5C"
abbreviation NL :: char where "NL \<equiv> CHR 0x0A"

text \<open>Rust's \<^verbatim>\<open>char::is_whitespace\<close> (the White_Space property) on U+0000 to U+00FF.\<close>

definition is_whitespace :: "char \<Rightarrow> bool" where
  "is_whitespace c \<longleftrightarrow>
     c \<in> {CHR 0x09, CHR 0x0A, CHR 0x0B, CHR 0x0C, CHR 0x0D, CHR 0x20, CHR 0x85, CHR 0xA0}"

lemma is_whitespace_simps [simp]:
  "is_whitespace CHR 0x20" "is_whitespace NL"
  "\<not> is_whitespace SQ" "\<not> is_whitespace DQ" "\<not> is_whitespace BS"
  by (simp_all add: is_whitespace_def)

definition trim_start :: "string \<Rightarrow> string" where
  "trim_start s = dropWhile is_whitespace s"

definition trim_end :: "string \<Rightarrow> string" where
  "trim_end s = rev (dropWhile is_whitespace (rev s))"

definition trim :: "string \<Rightarrow> string" where
  "trim s = trim_end (trim_start s)"

fun split_ws :: "string \<Rightarrow> string \<Rightarrow> string list" where
  "split_ws cur [] = (if cur = [] then [] else [cur])"
| "split_ws cur (c # cs) =
     (if is_whitespace c
      then (if cur = [] then split_ws [] cs else cur # split_ws [] cs)
      else split_ws (cur @ [c]) cs)"

definition split_whitespace :: "string \<Rightarrow> string list" where
  "split_whitespace s = split_ws [] s"

fun join :: "string \<Rightarrow> string list \<Rightarrow> string" where
  "join sep [] = []"
| "join sep [w] = w"
| "join sep (w # v # ws) = w @ sep @ join sep (v # ws)"

definition strip_prefix :: "string \<Rightarrow> string \<Rightarrow> string option" where
  "strip_prefix p s = (if prefix p s then Some (drop (length p) s) else None)"

definition strip_suffix :: "string \<Rightarrow> string \<Rightarrow> string option" where
  "strip_suffix p s = (if suffix p s then Some (take (length s - length p) s) else None)"

text \<open>\<^verbatim>\<open>str::find\<close>: the position of the first occurrence.\<close>

fun find_sub :: "string \<Rightarrow> string \<Rightarrow> nat option" where
  "find_sub p [] = (if p = [] then Some 0 else None)"
| "find_sub p (c # cs) =
     (if prefix p (c # cs) then Some 0 else map_option Suc (find_sub p cs))"

definition str_contains :: "string \<Rightarrow> string \<Rightarrow> bool" where
  "str_contains s p \<longleftrightarrow> find_sub p s \<noteq> None"

text \<open>\<^verbatim>\<open>s.split(c)\<close>: the pieces between the occurrences of one character.\<close>

fun split_on :: "char \<Rightarrow> string \<Rightarrow> string list" where
  "split_on d [] = [[]]"
| "split_on d (c # cs) =
     (if c = d then [] # split_on d cs
      else (case split_on d cs of [] \<Rightarrow> [[c]] | p # ps \<Rightarrow> (c # p) # ps))"

text \<open>\<^verbatim>\<open>s.split_once(c)\<close>: what is before and after the first occurrence.\<close>

definition split_once :: "char \<Rightarrow> string \<Rightarrow> (string \<times> string) option" where
  "split_once d s = (if d \<in> set s then Some (takeWhile (\<lambda>c. c \<noteq> d) s, tl (dropWhile (\<lambda>c. c \<noteq> d) s)) else None)"

text \<open>\<^verbatim>\<open>lines\<close> of a string or a reader: a carriage return before the newline goes with it; what follows the
  last newline is a line only when it is not empty.\<close>

definition strip_cr :: "string \<Rightarrow> string" where
  "strip_cr s = (case strip_suffix [CHR 0x0D] s of Some t \<Rightarrow> t | None \<Rightarrow> s)"

definition str_lines :: "string \<Rightarrow> string list" where
  "str_lines s =
     (let ps = split_on NL s
      in map strip_cr (butlast ps) @ (if last ps = [] then [] else [last ps]))"

text \<open>A line file is closed when what comes next starts a new line.\<close>

definition log_closed :: "string \<Rightarrow> bool" where
  "log_closed s \<longleftrightarrow> s = [] \<or> last s = NL"

subsection \<open>Decimal numerals\<close>

definition digit_char :: "nat \<Rightarrow> char" where
  "digit_char d = char_of (48 + d)"

fun show_nat :: "nat \<Rightarrow> string" where
  "show_nat n = (if n < 10 then [digit_char n] else show_nat (n div 10) @ [digit_char (n mod 10)])"

declare show_nat.simps [simp del]

text \<open>\<^verbatim>\<open>{:03}\<close>: zero-padded to three places.\<close>

definition pad3 :: "string \<Rightarrow> string" where
  "pad3 s = replicate (3 - length s) (CHR ''0'') @ s"

definition is_digit :: "char \<Rightarrow> bool" where
  "is_digit c \<longleftrightarrow> 48 \<le> (of_char c :: nat) \<and> (of_char c :: nat) \<le> 57"

definition digit_val :: "char \<Rightarrow> nat" where
  "digit_val c = of_char c - 48"

definition read_nat :: "string \<Rightarrow> nat" where
  "read_nat s = foldl (\<lambda>n c. 10 * n + digit_val c) 0 s"

text \<open>Lower case, for ASCII letters.\<close>

definition to_ascii_lower :: "char \<Rightarrow> char" where
  "to_ascii_lower c = (let n = (of_char c :: nat) in if 65 \<le> n \<and> n \<le> 90 then char_of (n + 32) else c)"

definition to_ascii_lowercase :: "string \<Rightarrow> string" where
  "to_ascii_lowercase s = map to_ascii_lower s"

text \<open>The length of the UTF-8 encoding.\<close>

definition utf8_len :: "string \<Rightarrow> int" where
  "utf8_len s = sum_list (map (\<lambda>c. if (of_char c :: nat) < 128 then 1 else 2) s)"

text \<open>
  \<^verbatim>\<open>str::parse::<u32>\<close>: an optional plus sign, at least one digit, nothing else, and
  a value below 2^32.
\<close>

definition parse_u32 :: "string \<Rightarrow> 32 word option" where
  "parse_u32 s =
     (let ds = (case s of c # cs \<Rightarrow> if c = CHR ''+'' then cs else s | [] \<Rightarrow> s)
      in if ds \<noteq> [] \<and> list_all is_digit ds \<and> int (read_nat ds) < 2 ^ 32
         then Some (of_nat (read_nat ds)) else None)"

text \<open>\<^verbatim>\<open>str::parse::<usize>\<close>.\<close>

definition parse_usize :: "string \<Rightarrow> nat option" where
  "parse_usize s =
     (let ds = (case s of c # cs \<Rightarrow> if c = CHR ''+'' then cs else s | [] \<Rightarrow> s)
      in if ds \<noteq> [] \<and> list_all is_digit ds \<and> int (read_nat ds) < 2 ^ 64 then Some (read_nat ds) else None)"

text \<open>\<^verbatim>\<open>str::parse::<i64>\<close>: an optional sign, at least one digit, and a value that fits; and printing.\<close>

definition parse_i64 :: "string \<Rightarrow> int option" where
  "parse_i64 s =
     (let neg = (case s of c # _ \<Rightarrow> c = CHR ''-'' | [] \<Rightarrow> False);
          ds = (case s of c # cs \<Rightarrow> if c = CHR ''+'' \<or> c = CHR ''-'' then cs else s | [] \<Rightarrow> s);
          n = (if neg then - int (read_nat ds) else int (read_nat ds))
      in if ds \<noteq> [] \<and> list_all is_digit ds \<and> - (2 ^ 63) \<le> n \<and> n < 2 ^ 63 then Some n else None)"

definition show_int :: "int \<Rightarrow> string" where
  "show_int i = (if i < 0 then CHR ''-'' # show_nat (nat (- i)) else show_nat (nat i))"

subsection \<open>Shell quoting\<close>

text \<open>
  The inverse of the scanners: how a caller writes an arbitrary word inside single
  quotes. A single quote closes the string, is given escaped, and opens it again.
\<close>

fun sh_escape :: "string \<Rightarrow> string" where
  "sh_escape [] = []"
| "sh_escape (c # cs) = (if c = SQ then [SQ, BS, SQ, SQ] else [c]) @ sh_escape cs"

definition sh_quote :: "string \<Rightarrow> string" where
  "sh_quote w = SQ # sh_escape w @ [SQ]"

section \<open>Lemmas on the string operations\<close>

lemma trim_Nil [simp]: "trim [] = []"
  by (simp add: trim_def trim_start_def trim_end_def)

lemma trim_empty_iff: "trim s = [] \<longleftrightarrow> list_all is_whitespace s"
proof -
  have "trim_end t = [] \<longleftrightarrow> list_all is_whitespace t" for t
    by (simp add: trim_end_def dropWhile_eq_Nil_conv list_all_iff)
  moreover have "list_all is_whitespace (dropWhile is_whitespace s) \<longleftrightarrow> list_all is_whitespace s"
    by (induction s) auto
  ultimately show ?thesis
    by (simp add: trim_def trim_start_def)
qed

lemma trim_end_snoc_ws [simp]: "is_whitespace c \<Longrightarrow> trim_end (s @ [c]) = trim_end s"
  by (simp add: trim_end_def)

lemma trim_start_Cons_ws [simp]: "is_whitespace c \<Longrightarrow> trim_start (c # s) = trim_start s"
  by (simp add: trim_start_def)

lemma trim_end_trim_end [simp]: "trim_end (trim_end s) = trim_end s"
  by (simp add: trim_end_def dropWhile_idem)

lemma trim_start_trim_end: "trim_start s = s \<Longrightarrow> trim_start (trim_end s) = trim_end s"
proof (cases s)
  case (Cons c cs)
  assume "trim_start s = s"
  then have "\<not> is_whitespace c"
    using Cons length_dropWhile_le [of is_whitespace cs] by (auto simp: trim_start_def split: if_splits)
  then have "trim_end s = c # trim_end cs"
    by (simp add: Cons trim_end_def dropWhile_append)
  with \<open>\<not> is_whitespace c\<close> show ?thesis by (simp add: trim_start_def)
qed (simp add: trim_end_def trim_start_def)

lemma trim_idem [simp]: "trim (trim s) = trim s"
proof -
  have "trim_start (trim_start s) = trim_start s"
    by (simp add: trim_start_def dropWhile_idem)
  then show ?thesis by (simp add: trim_def trim_start_trim_end)
qed

lemma split_ws_words:
  "list_all (\<lambda>c. \<not> is_whitespace c) cur \<Longrightarrow>
   list_all (\<lambda>w. w \<noteq> [] \<and> list_all (\<lambda>c. \<not> is_whitespace c) w) (split_ws cur s)"
  by (induction cur s rule: split_ws.induct) simp_all

lemma split_whitespace_words:
  "w \<in> set (split_whitespace s) \<Longrightarrow> w \<noteq> [] \<and> (\<forall>c \<in> set w. \<not> is_whitespace c)"
  using split_ws_words [of "[]" s] by (simp add: split_whitespace_def list_all_iff)

lemma split_ws_append_word:
  "\<forall>c \<in> set w. \<not> is_whitespace c \<Longrightarrow> split_ws cur (w @ s) = split_ws (cur @ w) s"
  by (induction w arbitrary: cur) auto

text \<open>Splitting undoes joining with one blank, for words that could have come from a split.\<close>

lemma split_whitespace_join:
  assumes "\<forall>w \<in> set ws. w \<noteq> [] \<and> (\<forall>c \<in> set w. \<not> is_whitespace c)"
  shows "split_whitespace (join '' '' ws) = ws"
  using assms
proof (induction "'' ''" ws rule: join.induct)
  case 1
  then show ?case by (simp add: split_whitespace_def)
next
  case (2 w)
  then show ?case
    using split_ws_append_word [of w "[]" "[]"] by (simp add: split_whitespace_def)
next
  case (3 w v ws)
  then have "split_whitespace (join '' '' (v # ws)) = v # ws" by simp
  moreover have "split_ws [] (w @ '' '' @ join '' '' (v # ws))
      = w # split_ws [] (join '' '' (v # ws))"
    using 3(2) by (simp add: split_ws_append_word)
  ultimately show ?case by (simp add: split_whitespace_def)
qed

lemma find_sub_Some_iff:
  "find_sub p s = Some i \<Longrightarrow> i \<le> length s \<and> prefix p (drop i s)"
proof (induction s arbitrary: i)
  case Nil
  then show ?case by (auto split: if_splits)
next
  case (Cons c cs)
  then show ?case by (cases i) (auto split: if_splits)
qed

text \<open>The first occurrence is found where the pattern cannot begin any earlier.\<close>

lemma find_sub_first:
  assumes "\<And>j. j < length a \<Longrightarrow> \<not> prefix p (drop j a @ p @ r)"
  shows "find_sub p (a @ p @ r) = Some (length a)"
  using assms
proof (induction a)
  case Nil
  have "prefix p (p @ r)" by simp
  then show ?case by (cases "p @ r") simp_all
next
  case (Cons c a)
  have "\<not> prefix p (c # a @ p @ r)"
    using Cons.prems [of 0] by simp
  moreover have "find_sub p (a @ p @ r) = Some (length a)"
    using Cons.prems [of "Suc j" for j] by (intro Cons.IH) simp
  ultimately show ?case by simp
qed

lemma sh_escape_append [str_simps]: "sh_escape (a @ b) = sh_escape a @ sh_escape b"
  by (induction a) auto

lemma split_on_neq_Nil [simp]: "split_on d s \<noteq> []"
  by (induction s) (auto split: list.splits)

lemma split_on_no_sep: "d \<notin> set s \<Longrightarrow> split_on d s = [s]"
  by (induction s) auto

lemma split_on_append: "split_on d (a @ d # b) = split_on d a @ split_on d b"
  by (induction a) (auto split: list.splits)

lemma split_on_append_no_sep:
  "d \<notin> set b \<Longrightarrow> split_on d (a @ b) = butlast (split_on d a) @ [last (split_on d a) @ b]"
proof (induction a)
  case (Cons c a)
  then show ?case by (cases "split_on d a") auto
qed (simp add: split_on_no_sep)

section \<open>Lemmas on lines\<close>

lemma strip_cr_id: "\<not> suffix [CHR 0x0D] s \<Longrightarrow> strip_cr s = s"
  by (simp add: strip_cr_def strip_suffix_def)

lemma str_lines_snoc:
  assumes "log_closed c" and "NL \<notin> set line" and "\<not> suffix [CHR 0x0D] line"
  shows "str_lines (c @ line @ [NL]) = str_lines c @ [line]"
proof (cases c rule: rev_cases)
  case Nil
  then show ?thesis
    using split_on_append [of NL line "[]"] assms(2,3)
    by (simp add: str_lines_def split_on_no_sep strip_cr_id)
next
  case (snoc c' x)
  then have c: "c = c' @ NL # []" using assms(1) by (simp add: log_closed_def)
  have "split_on NL (c @ line @ [NL]) = split_on NL c' @ [line, []]"
    using split_on_append [of NL c' "line @ NL # []"] split_on_append [of NL line "[]"] assms(2)
    by (simp add: c split_on_no_sep)
  moreover have "split_on NL c = split_on NL c' @ [[]]"
    using split_on_append [of NL c' "[]"] by (simp add: c)
  ultimately show ?thesis
    using assms(3) by (simp add: str_lines_def Let_def butlast_append strip_cr_id)
qed

lemma str_lines_Nil [simp]: "str_lines [] = []"
  by (simp add: str_lines_def)

section \<open>Lemmas on decimal numerals\<close>

lemma of_char_digit_char: "d < 10 \<Longrightarrow> of_char (digit_char d) = (48 + d :: nat)"
  by (simp add: digit_char_def)

lemma is_digit_digit_char [simp]: "d < 10 \<Longrightarrow> is_digit (digit_char d)"
  by (simp add: is_digit_def of_char_digit_char)

lemma digit_val_digit_char [simp]: "d < 10 \<Longrightarrow> digit_val (digit_char d) = d"
  by (simp add: digit_val_def of_char_digit_char)

lemma read_nat_append_digit [simp]: "read_nat (s @ [c]) = 10 * read_nat s + digit_val c"
  by (simp add: read_nat_def)

lemma show_nat_digits: "show_nat n \<noteq> [] \<and> list_all is_digit (show_nat n)"
proof (induction n rule: show_nat.induct)
  case (1 n)
  then show ?case
    by (cases "n < 10") (auto simp: show_nat.simps [of n])
qed

lemma read_show_nat [simp]: "read_nat (show_nat n) = n"
proof (induction n rule: show_nat.induct)
  case (1 n)
  show ?case
  proof (cases "n < 10")
    case True
    then show ?thesis by (simp add: show_nat.simps [of n] read_nat_def)
  next
    case False
    with 1 show ?thesis by (simp add: show_nat.simps [of n])
  qed
qed

lemma show_nat_inject [simp]: "show_nat m = show_nat n \<longleftrightarrow> m = n"
  by (metis read_show_nat)

lemma digits_are_lines:
  assumes "list_all is_digit s" and "s \<noteq> []"
  shows "trim s \<noteq> []" and "NL \<notin> set s" and "\<not> suffix [CHR 0x0D] s"
proof -
  have d: "is_digit c \<Longrightarrow> \<not> is_whitespace c \<and> c \<noteq> NL \<and> c \<noteq> CHR 0x0D" for c
    by (auto simp: is_digit_def is_whitespace_def)
  then have w: "\<And>c. c \<in> set s \<Longrightarrow> \<not> is_whitespace c" "\<And>c. c \<in> set s \<Longrightarrow> c \<noteq> NL" "\<And>c. c \<in> set s \<Longrightarrow> c \<noteq> CHR 0x0D"
    using assms(1) by (simp_all only: list_all_iff) blast+
  show "trim s \<noteq> []" using w(1) [of "hd s"] assms(2) by (auto simp: trim_empty_iff list_all_iff)
  show "NL \<notin> set s" using w(2) by blast
  show "\<not> suffix [CHR 0x0D] s" using w(3) [of "CHR 0x0D"] by (auto simp: suffix_def)
qed

lemma read_nat_pad3: "read_nat (pad3 s) = read_nat s"
proof -
  have z: "digit_val (CHR ''0'') = 0" by (simp add: digit_val_def)
  have "foldl (\<lambda>n c. 10 * n + digit_val c) 0 (replicate k (CHR ''0'')) = 0" for k
    by (induction k) (simp_all add: z)
  then show ?thesis by (simp add: read_nat_def pad3_def)
qed

lemma pad3_digits: "list_all is_digit s \<Longrightarrow> list_all is_digit (pad3 s)"
  by (auto simp: pad3_def list_all_iff is_digit_def)

lemma parse_u32_pad3_show:
  assumes "n < 2 ^ 32"
  shows "parse_u32 (pad3 (show_nat n)) = Some (of_nat n)"
proof -
  let ?s = "pad3 (show_nat n)"
  have d: "list_all is_digit ?s" and ne: "?s \<noteq> []"
    using show_nat_digits [of n] by (auto simp: pad3_digits) (simp add: pad3_def)
  have "\<not> is_digit (CHR ''+'')" by (simp add: is_digit_def)
  with d ne have "(case ?s of c # cs \<Rightarrow> if c = CHR ''+'' then cs else ?s | [] \<Rightarrow> ?s) = ?s"
    by (cases ?s) auto
  with d ne assms show ?thesis
    by (simp add: parse_u32_def read_nat_pad3)
qed

subsection \<open>Searching past a separator\<close>

lemma find_sub_Cons_other: "p \<noteq> [] \<Longrightarrow> c \<noteq> hd p \<Longrightarrow> find_sub p (c # s) = map_option Suc (find_sub p s)"
  by (cases p) simp_all

lemma find_sub_prefix [simp]: "find_sub p (p @ r) = Some 0"
proof -
  have "prefix p (p @ r)" by simp
  then show ?thesis by (cases "p @ r") simp_all
qed

lemma prefix_across: "x \<notin> set p \<Longrightarrow> prefix p (a @ x # r) \<Longrightarrow> prefix p a"
  by (auto simp: prefix_append prefix_Cons)

text \<open>A pattern without the separator that does not occur before it is looked for after it.\<close>

lemma find_sub_skip:
  assumes "p \<noteq> []" and "x \<notin> set p" and "find_sub p a = None"
  shows "find_sub p (a @ x # r) = map_option (\<lambda>i. length a + 1 + i) (find_sub p r)"
  using assms(3)
proof (induction a)
  case Nil
  then show ?case using assms(1,2) by (cases p) auto
next
  case (Cons c a)
  then have "\<not> prefix p (c # a)" "find_sub p a = None" by (auto split: if_splits)
  then show ?case
    using Cons.IH prefix_across [OF assms(2), of "c # a" r] by (auto simp: option.map_comp o_def)
qed

lemma trim_Cons_ws [simp]: "is_whitespace c \<Longrightarrow> trim (c # s) = trim s"
  by (simp add: trim_def)

lemma trim_snoc_ws [simp]: "is_whitespace c \<Longrightarrow> trim (s @ [c]) = trim s"
proof (cases "list_all is_whitespace s")
  case True
  moreover assume "is_whitespace c"
  ultimately have "trim (s @ [c]) = []" "trim s = []" by (simp_all add: trim_empty_iff)
  then show ?thesis by simp
next
  case False
  moreover assume "is_whitespace c"
  ultimately have "trim_start (s @ [c]) = trim_start s @ [c]"
    by (simp add: trim_start_def dropWhile_append list_all_iff dropWhile_eq_Nil_conv)
  then show ?thesis using \<open>is_whitespace c\<close> by (simp add: trim_def)
qed

end
