(* ===== verification/Cage_Policy.thy ===== *)
theory Cage_Policy
  imports Orkia_Prelude
begin

section \<open>The cage policy and its decision function\<close>

text \<open>
  Models \<^verbatim>\<open>crates/orkia-shell-types/src/policy.rs\<close>: the policy data, the command-line
  scanner \<open>split_segments\<close>, the word splitter \<open>shell_split\<close>, the canonical form of a
  \<^verbatim>\<open>git\<close> invocation and \<open>evaluate_match\<close>, which every mediated command goes through.
  Paths are strings here: the policy only carries the workspace root.
\<close>

subsection \<open>Data\<close>

record WorkspaceScope =
  ws_root :: string

datatype Verdict = Allow | Ask | Deny

datatype Sensitivity = Benign | Sensitive

definition default_sensitivity :: Sensitivity where
  "default_sensitivity = Sensitive"

record Capability =
  cap_name :: string
  cap_matches :: "string list"
  cap_verdict :: Verdict
  cap_sensitivity :: Sensitivity

record ClassCaps =
  cc_read :: bool
  cc_write :: bool
  cc_exec :: bool

definition default_class_caps :: ClassCaps where
  "default_class_caps = \<lparr>cc_read = False, cc_write = False, cc_exec = False\<rparr>"

record Policy =
  default_verdict_of :: Verdict
  caps :: ClassCaps
  workspace :: WorkspaceScope
  capabilities :: "Capability list"

definition default_verdict :: Verdict where
  "default_verdict = Ask"

record Adjustable =
  adj_capability :: "string option"
  adj_rule :: "string option"

datatype PolicyDecision =
    PD_Allow "string option" "string option"
  | PD_Deny "string option" "string option"
  | PD_Ask Adjustable

datatype AskOutcome = Auto | AO_Ask

fun resolve :: "Adjustable \<Rightarrow> AskOutcome \<Rightarrow> Verdict" where
  "resolve a Auto = Allow"
| "resolve a AO_Ask = Deny"

fun pd_capability :: "PolicyDecision \<Rightarrow> string option" where
  "pd_capability (PD_Allow c r) = c"
| "pd_capability (PD_Deny c r) = c"
| "pd_capability (PD_Ask a) = adj_capability a"

fun pd_rule :: "PolicyDecision \<Rightarrow> string option" where
  "pd_rule (PD_Allow c r) = r"
| "pd_rule (PD_Deny c r) = r"
| "pd_rule (PD_Ask a) = adj_rule a"

fun decision_from :: "Verdict \<Rightarrow> string option \<Rightarrow> string option \<Rightarrow> PolicyDecision" where
  "decision_from Allow c r = PD_Allow c r"
| "decision_from Deny c r = PD_Deny c r"
| "decision_from Ask c r = PD_Ask \<lparr>adj_capability = c, adj_rule = r\<rparr>"

fun tier :: "PolicyDecision \<Rightarrow> nat" where
  "tier (PD_Allow c r) = 0"
| "tier (PD_Ask a) = 1"
| "tier (PD_Deny c r) = 2"

subsection \<open>Matching one pattern\<close>

definition normalize :: "string \<Rightarrow> string" where
  "normalize s = join '' '' (split_whitespace s)"

definition pattern_matches :: "string \<Rightarrow> string \<Rightarrow> bool" where
  "pattern_matches pattern normalized_cmd =
     (case strip_suffix ''*'' (trim pattern) of
        Some pre \<Rightarrow> prefix (normalize pre) normalized_cmd
      | None \<Rightarrow> normalized_cmd = normalize pattern)"

subsection \<open>Splitting a command line into simple commands\<close>

text \<open>
  The loop of \<open>split_segments\<close>: the quote flags, the segment being built, the segments
  finished so far and the characters not yet read.
\<close>

fun seg_loop :: "bool \<Rightarrow> bool \<Rightarrow> string \<Rightarrow> string list \<Rightarrow> string \<Rightarrow> string list" where
  "seg_loop in_single in_double cur segs [] = segs @ [cur]"
| "seg_loop in_single in_double cur segs (c # cs) =
     (if in_single then seg_loop (c \<noteq> SQ) in_double (cur @ [c]) segs cs
      else if in_double then
        (if c = BS \<and> cs \<noteq> []
         then seg_loop in_single in_double (cur @ [c, hd cs]) segs (tl cs)
         else seg_loop in_single (c \<noteq> DQ) (cur @ [c]) segs cs)
      else if c = SQ then seg_loop True in_double (cur @ [c]) segs cs
      else if c = DQ then seg_loop in_single True (cur @ [c]) segs cs
      else if c = BS \<and> cs \<noteq> []
        then seg_loop in_single in_double (cur @ [c, hd cs]) segs (tl cs)
      else if c = CHR ''&'' \<and> cs \<noteq> [] \<and> hd cs = CHR ''&''
        then seg_loop in_single in_double [] (segs @ [cur]) (tl cs)
      else if c = CHR ''|'' \<and> cs \<noteq> [] \<and> hd cs = CHR ''|''
        then seg_loop in_single in_double [] (segs @ [cur]) (tl cs)
      else if c \<in> {CHR '';'', CHR ''|'', CHR ''&'', NL}
        then seg_loop in_single in_double [] (segs @ [cur]) cs
      else seg_loop in_single in_double (cur @ [c]) segs cs)"

definition split_segments :: "string \<Rightarrow> string list" where
  "split_segments line =
     filter (\<lambda>s. s \<noteq> []) (map trim (seg_loop False False [] [] line))"

subsection \<open>Words of a simple command\<close>

fun split_loop :: "bool \<Rightarrow> bool \<Rightarrow> bool \<Rightarrow> string \<Rightarrow> string list \<Rightarrow> string \<Rightarrow> string list" where
  "split_loop in_single in_double has cur tokens [] =
     (if has then tokens @ [cur] else tokens)"
| "split_loop in_single in_double has cur tokens (c # cs) =
     (if in_single then
        (if c = SQ then split_loop False in_double has cur tokens cs
         else split_loop in_single in_double has (cur @ [c]) tokens cs)
      else if in_double then
        (if c = BS \<and> cs \<noteq> []
         then split_loop in_single in_double has (cur @ [hd cs]) tokens (tl cs)
         else if c = DQ then split_loop in_single False has cur tokens cs
         else split_loop in_single in_double has (cur @ [c]) tokens cs)
      else if c = SQ then split_loop True in_double True cur tokens cs
      else if c = DQ then split_loop in_single True True cur tokens cs
      else if c = BS \<and> cs \<noteq> []
        then split_loop in_single in_double True (cur @ [hd cs]) tokens (tl cs)
      else if is_whitespace c then
        (if has then split_loop in_single in_double False [] (tokens @ [cur]) cs
         else split_loop in_single in_double has cur tokens cs)
      else split_loop in_single in_double True (cur @ [c]) tokens cs)"

definition shell_split :: "string \<Rightarrow> string list" where
  "shell_split s = split_loop False False False [] [] s"

definition value_taking :: "string list" where
  "value_taking =
     [''-C'', ''-c'', ''--git-dir'', ''--work-tree'', ''--namespace'', ''--super-prefix'']"

function git_loop :: "string list \<Rightarrow> nat \<Rightarrow> nat" where
  "git_loop tokens i =
     (if i < length tokens then
        (if \<not> prefix ''-'' (tokens ! i) then i
         else git_loop tokens (i + (if tokens ! i \<in> set value_taking then 2 else 1)))
      else i)"
  by pat_completeness auto
termination
  by (relation "measure (\<lambda>(tokens, i). length tokens - i)") auto

declare git_loop.simps [simp del]

definition git_subcommand_index :: "string list \<Rightarrow> nat" where
  "git_subcommand_index tokens = git_loop tokens 1"

text \<open>\<^verbatim>\<open>t.rsplit('/').next()\<close>: what follows the last slash.\<close>

definition after_last_slash :: "string \<Rightarrow> string" where
  "after_last_slash t = rev (takeWhile (\<lambda>c. c \<noteq> CHR ''/'') (rev t))"

definition is_git :: "string list \<Rightarrow> bool" where
  "is_git tokens = (case tokens of [] \<Rightarrow> False | t # _ \<Rightarrow> after_last_slash t = ''git'')"

definition canonicalize :: "string \<Rightarrow> string" where
  "canonicalize segment =
     (let tokens = shell_split segment
      in if \<not> is_git tokens then normalize segment
         else let start = git_subcommand_index tokens;
                  rest = drop (min start (length tokens)) tokens
              in normalize (foldl (\<lambda>out t. out @ '' '' @ t) ''git'' rest))"

subsection \<open>The decision\<close>

fun match_caps :: "Verdict \<Rightarrow> Capability list \<Rightarrow> string \<Rightarrow> PolicyDecision" where
  "match_caps d [] cmd = decision_from d None None"
| "match_caps d (cap # cs) cmd =
     (case find (\<lambda>p. pattern_matches p cmd) (cap_matches cap) of
        Some rule \<Rightarrow> decision_from (cap_verdict cap) (Some (cap_name cap)) (Some rule)
      | None \<Rightarrow> match_caps d cs cmd)"

definition match_one :: "Policy \<Rightarrow> string \<Rightarrow> PolicyDecision" where
  "match_one p cmd = match_caps (default_verdict_of p) (capabilities p) cmd"

text \<open>The more restrictive of the decision kept so far and the next one.\<close>

definition pick :: "PolicyDecision option \<Rightarrow> PolicyDecision \<Rightarrow> PolicyDecision" where
  "pick chosen m =
     (case chosen of Some prev \<Rightarrow> if tier prev \<ge> tier m then prev else m | None \<Rightarrow> m)"

fun eval_loop :: "Policy \<Rightarrow> PolicyDecision option \<Rightarrow> string list \<Rightarrow> PolicyDecision option" where
  "eval_loop p chosen [] = chosen"
| "eval_loop p chosen (segment # segs) =
     (let canon = canonicalize segment
      in if canon = [] then eval_loop p chosen segs
         else eval_loop p (Some (pick chosen (match_one p canon))) segs)"

definition evaluate_match :: "Policy \<Rightarrow> string \<Rightarrow> PolicyDecision" where
  "evaluate_match p command_line =
     (case eval_loop p None (split_segments command_line) of
        Some d \<Rightarrow> d
      | None \<Rightarrow> decision_from (default_verdict_of p) None None)"

section \<open>The scanner, one step at a time\<close>

text \<open>
  \<open>seg_step\<close> is the body of the scanning loop with its effect on the segments factored
  out: the new quote flags, how many characters are consumed, and whether the current
  segment is finished. Proofs unfold the loop through it, never through the loop's own
  equations.
\<close>

definition seg_step :: "bool \<Rightarrow> bool \<Rightarrow> char \<Rightarrow> string \<Rightarrow> bool \<times> bool \<times> nat \<times> bool" where
  "seg_step sq dq c cs =
     (if sq then (c \<noteq> SQ, dq, 1, False)
      else if dq then (if c = BS \<and> cs \<noteq> [] then (sq, dq, 2, False) else (sq, c \<noteq> DQ, 1, False))
      else if c = SQ then (True, dq, 1, False)
      else if c = DQ then (sq, True, 1, False)
      else if c = BS \<and> cs \<noteq> [] then (sq, dq, 2, False)
      else if c \<in> {CHR ''&'', CHR ''|''} \<and> cs \<noteq> [] \<and> hd cs = c then (sq, dq, 2, True)
      else if c \<in> {CHR '';'', CHR ''|'', CHR ''&'', NL} then (sq, dq, 1, True)
      else (sq, dq, 1, False))"

lemma seg_step_advance: "seg_step sq dq c cs = (sq', dq', n, f) \<Longrightarrow> n = 1 \<or> n = 2 \<and> cs \<noteq> []"
  by (auto simp: seg_step_def split: if_splits)

lemma seg_loop_step:
  "seg_loop sq dq cur segs (c # cs) =
     (case seg_step sq dq c cs of (sq', dq', n, flush) \<Rightarrow>
        seg_loop sq' dq' (if flush then [] else cur @ take n (c # cs))
          (if flush then segs @ [cur] else segs) (drop n (c # cs)))"
proof (cases cs)
  case Nil
  then show ?thesis by (simp add: seg_step_def)
next
  case (Cons d ds)
  consider "sq" | "\<not> sq" "dq" | "\<not> sq" "\<not> dq" by blast
  then show ?thesis
    by cases (simp_all add: seg_step_def Cons)
qed

declare seg_loop.simps(2) [simp del]

lemma seg_induct [case_names Nil Cons]:
  assumes "\<And>sq dq. P sq dq []"
    and "\<And>sq dq c cs sq' dq' n f.
      seg_step sq dq c cs = (sq', dq', n, f) \<Longrightarrow> P sq' dq' (drop n (c # cs)) \<Longrightarrow> P sq dq (c # cs)"
  shows "P sq dq cs"
proof (induction "length cs" arbitrary: sq dq cs rule: less_induct)
  case less
  show ?case
  proof (cases cs)
    case (Cons c cs')
    obtain sq' dq' n f where st: "seg_step sq dq c cs' = (sq', dq', n, f)"
      by (cases "seg_step sq dq c cs'")
    then have "length (drop n (c # cs')) < length cs"
      using seg_step_advance [OF st] Cons by auto
    with less assms(2) [OF st] Cons show ?thesis by blast
  qed (simp add: assms(1))
qed

lemma seg_loop_segs: "seg_loop sq dq cur (pre @ segs) cs = pre @ seg_loop sq dq cur segs cs"
proof (induction sq dq cs arbitrary: cur segs rule: seg_induct)
  case (Cons sq dq c cs sq' dq' n f)
  from Cons(2) [of "[]" "segs @ [cur]"] Cons(2) show ?case
    by (simp add: seg_loop_step Cons(1) del: seg_loop.simps)
qed simp

function seg_closed :: "bool \<Rightarrow> bool \<Rightarrow> string \<Rightarrow> bool" where
  "seg_closed sq dq [] \<longleftrightarrow> \<not> sq \<and> \<not> dq"
| "seg_closed sq dq (c # cs) \<longleftrightarrow>
     (cs \<noteq> [] \<or> sq \<or> c \<notin> {BS, CHR ''&'', CHR ''|''}) \<and>
     seg_closed (fst (seg_step sq dq c cs)) (fst (snd (seg_step sq dq c cs)))
       (drop (fst (snd (snd (seg_step sq dq c cs)))) (c # cs))"
  by pat_completeness auto
termination
proof (relation "measure (\<lambda>(sq, dq, cs). length cs)")
  fix sq dq c cs
  show "((fst (seg_step sq dq c cs), fst (snd (seg_step sq dq c cs)),
      drop (fst (snd (snd (seg_step sq dq c cs)))) (c # cs)), sq, dq, c # cs)
      \<in> measure (\<lambda>(sq, dq, cs). length cs)"
    using seg_step_advance [of sq dq c cs] by (cases "seg_step sq dq c cs") auto
qed simp

lemma seg_step_append:
  "cs \<noteq> [] \<or> sq \<or> c \<notin> {BS, CHR ''&'', CHR ''|''} \<Longrightarrow>
   seg_step sq dq c (cs @ rest) = seg_step sq dq c cs"
  by (cases cs) (auto simp: seg_step_def)

lemma seg_loop_closed:
  "seg_closed sq dq a \<Longrightarrow>
   \<exists>cur' segs'. \<forall>rest. seg_loop sq dq cur segs (a @ rest) = seg_loop False False cur' segs' rest"
proof (induction sq dq a arbitrary: cur segs rule: seg_induct)
  case (Cons sq dq c cs sq' dq' n f)
  from Cons.prems have nd: "cs \<noteq> [] \<or> sq \<or> c \<notin> {BS, CHR ''&'', CHR ''|''}"
    and cl: "seg_closed sq' dq' (drop n (c # cs))"
    by (simp_all add: Cons(1))
  have n: "n \<le> length (c # cs)" using seg_step_advance [OF Cons(1)] by (cases cs) auto
  have "seg_loop sq dq cur segs ((c # cs) @ rest) =
      seg_loop sq' dq' (if f then [] else cur @ take n (c # cs))
        (if f then segs @ [cur] else segs) (drop n (c # cs) @ rest)" for rest
    using n by (simp add: seg_loop_step seg_step_append [OF nd] Cons(1) del: seg_loop.simps)
      (metis append_Cons drop_append append_Nil2 diff_is_0_eq drop0 n length_Cons take_append take_0)
  with Cons.IH [OF cl] show ?case by metis
qed (auto)

section \<open>Segments\<close>

text \<open>The operators that end a segment. A lone bar or ampersand must not be read as a double one.\<close>


definition seg_op :: "string \<Rightarrow> string \<Rightarrow> bool" where
  "seg_op op b \<longleftrightarrow> op \<in> {''&&'', ''||'', '';'', [NL]} \<or> op \<in> {''|'', ''&''} \<and> \<not> prefix op b"

lemma seg_loop_op:
  "seg_op op b \<Longrightarrow> seg_loop False False cur segs (op @ b) = seg_loop False False [] (segs @ [cur]) b"
  by (cases b) (auto simp: seg_op_def seg_step_def seg_loop_step [of _ _ _ _ "CHR ''&''"]
      seg_loop_step [of _ _ _ _ "CHR ''|''"] seg_loop_step [of _ _ _ _ "CHR '';''"]
      seg_loop_step [of _ _ _ _ NL])

lemma split_segments_op:
  assumes "seg_closed False False a" and "seg_op op b"
  shows "split_segments (a @ op @ b) = split_segments a @ split_segments b"
proof -
  obtain cur segs where
    a: "\<And>rest. seg_loop False False [] [] (a @ rest) = seg_loop False False cur segs rest"
    using seg_loop_closed [OF assms(1), of "[]" "[]"] by blast
  have "seg_loop False False [] [] (a @ op @ b) = seg_loop False False [] (segs @ [cur]) b"
    using a [of "op @ b"] seg_loop_op [OF assms(2)] by simp
  also have "\<dots> = (segs @ [cur]) @ seg_loop False False [] [] b"
    using seg_loop_segs [of False False "[]" "segs @ [cur]" "[]"] by simp
  also have "segs @ [cur] = seg_loop False False [] [] a"
    using a [of "[]"] by simp
  finally show ?thesis by (simp add: split_segments_def)
qed

lemma split_segments_trimmed: "seg \<in> set (split_segments line) \<Longrightarrow> seg \<noteq> [] \<and> trim seg = seg"
  by (auto simp: split_segments_def)

lemma seg_loop_plain:
  "\<forall>c \<in> set s. c \<notin> {SQ, DQ, BS, CHR '';'', CHR ''|'', CHR ''&'', NL} \<Longrightarrow>
   seg_loop False False cur segs s = segs @ [cur @ s]"
  by (induction s arbitrary: cur) (simp_all add: seg_loop_step seg_step_def)

lemma split_segments_plain:
  "\<forall>c \<in> set s. c \<notin> {SQ, DQ, BS, CHR '';'', CHR ''|'', CHR ''&'', NL} \<Longrightarrow> trim s \<noteq> [] \<Longrightarrow>
   split_segments s = [trim s]"
  by (simp add: split_segments_def seg_loop_plain)

section \<open>Combining decisions\<close>

text \<open>
  The contract of the combination: keep the decision of the highest tier, the earliest
  one among equals. What the client needs of a fold of such a choice is proved once.
\<close>

locale worst_first =
  fixes tier :: "'d \<Rightarrow> nat" and pick :: "'d option \<Rightarrow> 'd \<Rightarrow> 'd"
  assumes pick_None: "pick None m = m"
    and pick_Some: "pick (Some prev) m = (if tier m \<le> tier prev then prev else m)"
begin

definition fold_pick :: "'d option \<Rightarrow> 'd list \<Rightarrow> 'd option" where
  "fold_pick ch ms = foldl (\<lambda>c m. Some (pick c m)) ch ms"

lemma fold_pick_simps [simp]:
  "fold_pick ch [] = ch"
  "fold_pick ch (m # ms) = fold_pick (Some (pick ch m)) ms"
  by (simp_all add: fold_pick_def)

lemma fold_pick_Some: "\<exists>d. fold_pick (Some p) ms = Some d \<and> d \<in> set (p # ms) \<and>
     (\<forall>m \<in> set (p # ms). tier m \<le> tier d)"
proof (induction ms arbitrary: p)
  case (Cons m ms)
  from Cons.IH [of "pick (Some p) m"] show ?case
    by (auto simp: pick_Some split: if_splits)
qed simp

lemma fold_pick_None_iff: "fold_pick None ms = None \<longleftrightarrow> ms = []"
proof (cases ms)
  case (Cons m ms')
  then show ?thesis using fold_pick_Some [of "pick None m" ms'] by auto
qed simp

lemma fold_pick_worst:
  "fold_pick None ms = Some d \<Longrightarrow> d \<in> set ms \<and> (\<forall>m \<in> set ms. tier m \<le> tier d)"
proof (cases ms)
  case (Cons m ms')
  moreover assume "fold_pick None ms = Some d"
  ultimately show ?thesis using fold_pick_Some [of m ms'] by (auto simp: pick_None)
qed simp

end

interpretation decision: worst_first tier pick
  by unfold_locales (simp_all add: pick_def)

definition segment_decisions :: "Policy \<Rightarrow> string \<Rightarrow> PolicyDecision list" where
  "segment_decisions p line =
     map (match_one p) (filter (\<lambda>c. c \<noteq> []) (map canonicalize (split_segments line)))"

lemma eval_loop_fold:
  "eval_loop p ch segs =
     decision.fold_pick ch (map (match_one p) (filter (\<lambda>c. c \<noteq> []) (map canonicalize segs)))"
  by (induction segs arbitrary: ch) (simp_all add: Let_def)

lemma evaluate_match_fold:
  "evaluate_match p line =
     (case decision.fold_pick None (segment_decisions p line) of
        Some d \<Rightarrow> d | None \<Rightarrow> decision_from (default_verdict_of p) None None)"
  by (simp add: evaluate_match_def eval_loop_fold segment_decisions_def)

lemma evaluate_match_empty:
  "segment_decisions p line = [] \<Longrightarrow>
   evaluate_match p line = decision_from (default_verdict_of p) None None"
  by (simp add: evaluate_match_fold)

lemma evaluate_match_worst:
  assumes "segment_decisions p line \<noteq> []"
  shows "evaluate_match p line \<in> set (segment_decisions p line)"
    and "\<And>d. d \<in> set (segment_decisions p line) \<Longrightarrow> tier d \<le> tier (evaluate_match p line)"
proof -
  obtain d where d: "decision.fold_pick None (segment_decisions p line) = Some d"
    using assms decision.fold_pick_None_iff by fastforce
  from decision.fold_pick_worst [OF d]
  show "evaluate_match p line \<in> set (segment_decisions p line)"
    and "\<And>d. d \<in> set (segment_decisions p line) \<Longrightarrow> tier d \<le> tier (evaluate_match p line)"
    by (simp_all add: evaluate_match_fold d)
qed

lemma tier_simps: "tier d = 2 \<longleftrightarrow> (\<exists>c r. d = PD_Deny c r)" "tier d = 0 \<longleftrightarrow> (\<exists>c r. d = PD_Allow c r)" "tier d \<le> 2"
  by (cases d; simp)+

section \<open>Words, git invocations and rules\<close>

lemma split_loop_escape:
  "split_loop True False has cur toks (sh_escape w @ SQ # rest) =
   split_loop False False (has \<or> SQ \<in> set w) (cur @ w) toks rest"
  by (induction w arbitrary: has cur) simp_all

lemma split_loop_quote:
  "split_loop False False False [] toks (sh_quote w @ rest) = split_loop False False True w toks rest"
  by (simp add: sh_quote_def split_loop_escape)

lemma split_loop_quoted_words:
  "split_loop False False False [] toks (join '' '' (map sh_quote ws)) = toks @ ws"
proof (induction ws arbitrary: toks)
  case (Cons w ws)
  note IH = Cons.IH
  show ?case
  proof (cases ws)
    case Nil
    then show ?thesis using split_loop_quote [of toks w "[]"] by simp
  next
    case (Cons v vs)
    have "split_loop False False False [] toks (join '' '' (map sh_quote (w # ws))) =
        split_loop False False True w toks ('' '' @ join '' '' (map sh_quote ws))"
      using split_loop_quote [of toks w] by (simp add: Cons)
    also have "\<dots> = split_loop False False False [] (toks @ [w]) (join '' '' (map sh_quote ws))"
      by simp
    finally show ?thesis using IH by simp
  qed
qed simp

lemma shell_split_quoted_words: "shell_split (join '' '' (map sh_quote ws)) = ws"
  by (simp add: shell_split_def split_loop_quoted_words)

fun git_opts :: "string list \<Rightarrow> bool" where
  "git_opts [] = True"
| "git_opts [w] = (prefix ''-'' w \<and> w \<notin> set value_taking)"
| "git_opts (w # v # ws) = (prefix ''-'' w \<and> (if w \<in> set value_taking then git_opts ws else git_opts (v # ws)))"

lemma git_loop_shift: "git_loop (t # ts) (Suc i) = Suc (git_loop ts i)"
proof (induction ts i rule: git_loop.induct)
  case (1 ts i)
  then show ?case
    by (simp add: git_loop.simps [of "t # ts" "Suc i"] git_loop.simps [of ts i])
qed

lemma git_loop_opts:
  "git_opts opts \<Longrightarrow> git_loop (opts @ rest) 0 = length opts + git_loop rest 0"
proof (induction opts rule: git_opts.induct)
  case (2 w)
  then show ?case
    using git_loop_shift [of w rest 0] by (simp add: git_loop.simps [of "w # rest" 0])
next
  case (3 w v ws)
  then show ?case
    using git_loop_shift [of w "v # ws @ rest" 1] git_loop_shift [of v "ws @ rest" 0]
      git_loop_shift [of w "v # ws @ rest" 0]
    by (auto simp: git_loop.simps [of "w # v # ws @ rest" 0] numeral_2_eq_2 split: if_splits)
qed simp

lemma git_subcommand_index_opts:
  assumes "git_opts opts" and "\<not> prefix ''-'' sub"
  shows "git_subcommand_index (prog # opts @ sub # args) = Suc (length opts)"
proof -
  have "git_loop (sub # args) 0 = 0" using assms(2) by (simp add: git_loop.simps)
  then show ?thesis
    using git_loop_opts [OF assms(1), of "sub # args"] git_loop_shift [of prog "opts @ sub # args" 0]
    by (simp add: git_subcommand_index_def)
qed

lemma canonicalize_git:
  "shell_split s = ts \<Longrightarrow> is_git ts \<Longrightarrow>
   canonicalize s = normalize (foldl (\<lambda>out t. out @ '' '' @ t) ''git''
     (drop (min (git_subcommand_index ts) (length ts)) ts))"
  by (simp add: canonicalize_def)

lemma canonicalize_git_options_eq:
  assumes "after_last_slash prog = ''git''" and "git_opts opts" and "\<not> prefix ''-'' sub"
  shows "canonicalize (join '' '' (map sh_quote (prog # opts @ sub # args))) =
         canonicalize (join '' '' (map sh_quote (''git'' # sub # args)))"
proof -
  have "is_git (prog # opts @ sub # args)" and "is_git (''git'' # sub # args)"
    by (simp add: is_git_def assms(1), simp add: is_git_def after_last_slash_def)
  note can = this [THEN canonicalize_git [OF shell_split_quoted_words]]
  have "git_subcommand_index (''git'' # sub # args) = 1"
    using git_subcommand_index_opts [of "[]" sub "''git''" args] assms(3) by simp
  with git_subcommand_index_opts [OF assms(2,3), of prog args] show ?thesis
    unfolding can by simp
qed

lemma normalize_idem [simp]: "normalize (normalize s) = normalize s"
  using split_whitespace_join [of "split_whitespace s"] split_whitespace_words [of _ s]
  by (auto simp: normalize_def)

lemma match_caps_first:
  "match_caps d cs cmd =
     (case find (\<lambda>cap. list_ex (\<lambda>p. pattern_matches p cmd) (cap_matches cap)) cs of
        None \<Rightarrow> decision_from d None None
      | Some cap \<Rightarrow> decision_from (cap_verdict cap) (Some (cap_name cap))
          (find (\<lambda>p. pattern_matches p cmd) (cap_matches cap)))"
proof (induction cs)
  case (Cons cap cs)
  have "find (\<lambda>p. pattern_matches p cmd) (cap_matches cap) = None \<longleftrightarrow>
      \<not> list_ex (\<lambda>p. pattern_matches p cmd) (cap_matches cap)"
    by (auto simp: find_None_iff list_ex_iff)
  with Cons show ?case by (auto split: option.splits)
qed simp

section \<open>Properties of the decision\<close>

text \<open>A policy used at concrete inputs below: pushing is refused, echoing is allowed.\<close>

definition sample_policy :: Policy where
  "sample_policy =
     \<lparr>default_verdict_of = Ask,
      caps = \<lparr>cc_read = True, cc_write = True, cc_exec = True\<rparr>,
      workspace = \<lparr>ws_root = ''/w''\<rparr>,
      capabilities =
        [\<lparr>cap_name = ''git.push'', cap_matches = [''git push*''], cap_verdict = Deny,
          cap_sensitivity = Sensitive\<rparr>,
         \<lparr>cap_name = ''echo'', cap_matches = [''echo*''], cap_verdict = Allow,
          cap_sensitivity = Benign\<rparr>,
         \<lparr>cap_name = ''git.commit'', cap_matches = [''git commit*''], cap_verdict = Ask,
          cap_sensitivity = Benign\<rparr>]\<rparr>"

text \<open>One denied simple command denies the whole command line, whatever the other
  segments are allowed to do.\<close>

lemma policy_deny_wins:
  assumes "seg \<in> set (split_segments line)" and "canonicalize seg \<noteq> []"
    and "match_one p (canonicalize seg) = PD_Deny c r"
  shows "\<exists>c' r'. evaluate_match p line = PD_Deny c' r'"
proof -
  have d: "PD_Deny c r \<in> set (segment_decisions p line)"
    using assms unfolding segment_decisions_def by (force simp: image_iff)
  then have "tier (evaluate_match p line) = 2"
    using evaluate_match_worst(2) [of p line "PD_Deny c r"] tier_simps(3) [of "evaluate_match p line"]
    by (cases "segment_decisions p line") auto
  then show ?thesis by (simp add: tier_simps)
qed

text \<open>C24. The decision on a command line is the decision of one of its segments, and no
  segment has a more restrictive one; a line with no segment gets the policy's default.\<close>

theorem evaluate_match_most_restrictive:
  "if segment_decisions p line = []
   then evaluate_match p line = decision_from (default_verdict_of p) None None
   else evaluate_match p line \<in> set (segment_decisions p line) \<and>
        (\<forall>d \<in> set (segment_decisions p line). tier d \<le> tier (evaluate_match p line))"
  using evaluate_match_worst [of p line] by (simp add: evaluate_match_empty)

theorem evaluate_match_most_restrictive_witness:
  "evaluate_match sample_policy ''echo a ; git commit'' \<in>
     set (segment_decisions sample_policy ''echo a ; git commit'') \<and>
   tier (evaluate_match sample_policy ''echo a ; git commit'') = 1"
proof -
  have ne: "segment_decisions sample_policy ''echo a ; git commit'' \<noteq> []" by code_simp
  have "tier (evaluate_match sample_policy ''echo a ; git commit'') = 1" by code_simp
  then show ?thesis
    using evaluate_match_most_restrictive [of sample_policy "''echo a ; git commit''"] ne by simp
qed

text \<open>Chaining cannot hide a command: for a prefix that ends outside quotes and every
  control operator, the decisions made on the chained line are those of the prefix
  followed by those of the rest.\<close>

lemma chained_decisions:
  assumes "seg_closed False False a" and "seg_op op b"
  shows "segment_decisions p (a @ op @ b) = segment_decisions p a @ segment_decisions p b"
  by (simp add: segment_decisions_def split_segments_op [OF assms])

text \<open>The word splitter recovers exactly the words a caller quoted, whatever characters
  they contain.\<close>

lemma shell_split_quote: "shell_split (join '' '' (map sh_quote ws)) = ws"
  by (rule shell_split_quoted_words)

text \<open>Global options before the git subcommand, and the directory the program is called
  from, do not change the canonical form, so they do not change the rule that fires.\<close>

lemma canonicalize_git_options:
  assumes "after_last_slash prog = ''git''" and "git_opts opts" and "\<not> prefix ''-'' sub"
  shows "canonicalize (join '' '' (map sh_quote (prog # opts @ sub # args))) =
         canonicalize (join '' '' (map sh_quote (''git'' # sub # args)))"
  using assms by (rule canonicalize_git_options_eq)

text \<open>Rules are tried in declaration order: the decision is the one of the first
  capability with a matching pattern, and names that capability and that pattern.\<close>

lemma match_one_first_capability:
  "match_one p cmd =
     (case find (\<lambda>cap. list_ex (\<lambda>q. pattern_matches q cmd) (cap_matches cap)) (capabilities p) of
        None \<Rightarrow> decision_from (default_verdict_of p) None None
      | Some cap \<Rightarrow> decision_from (cap_verdict cap) (Some (cap_name cap))
          (find (\<lambda>q. pattern_matches q cmd) (cap_matches cap)))"
  by (simp add: match_one_def match_caps_first)

text \<open>A command line without quotes, escapes and control operators is one segment,
  command substitutions included: what stands inside a substitution is never matched
  on its own, so a denied command inside one takes the verdict of the outer command.\<close>

lemma substitution_is_one_segment:
  assumes "\<forall>c \<in> set s. c \<notin> {SQ, DQ, BS, CHR '';'', CHR ''|'', CHR ''&'', NL}"
    and "trim s \<noteq> []"
  shows "split_segments s = [trim s]"
  using assms by (rule split_segments_plain)

end
