(* ===== verification/Host_Fs.thy ===== *)
theory Host_Fs
  imports Orkia_Prelude
begin

section \<open>The file system as the stores see it\<close>

text \<open>
  The operations of \<^verbatim>\<open>std::fs\<close> and \<^verbatim>\<open>std::path\<close> that the file-backed stores use. A path is
  the list of its components below the root; a file system maps paths to contents.
  Directories carry no state of their own: creating one only matters when it fails.

  Whether a call succeeds is up to the host. An \<open>Io\<close> value answers that question for
  every call site (the tag) and every kind of call, and says how much of the data
  reached the file when a write fails midway. A theorem quantified over \<open>Io\<close> covers
  every pattern of failures; since no store cleans up after a failed call, it covers a
  crash at that call too.
\<close>

type_synonym path = "string list"
type_synonym fs = "path \<Rightarrow> string option"

datatype IoStep = MkDir | Open | Write | Sync | Rename | Read | Meta | Remove | Encode

record Io =
  io_err :: "string \<Rightarrow> IoStep \<Rightarrow> string option"
  io_part :: "string \<Rightarrow> nat"

definition io_try :: "Io \<Rightarrow> string \<Rightarrow> IoStep \<Rightarrow> (string, unit) result" where
  "io_try io tag s = (case io_err io tag s of None \<Rightarrow> Ok () | Some e \<Rightarrow> Err e)"

definition io_fine :: Io where
  "io_fine = \<lparr>io_err = \<lambda>_ _. None, io_part = \<lambda>_. 0\<rparr>"

lemma io_try_fine [simp]: "io_try io_fine tag s = Ok ()"
  by (simp add: io_try_def io_fine_def)

text \<open>\<^verbatim>\<open>PathBuf::join\<close> with a relative string, which may itself hold separators.\<close>

definition path_comps :: "string \<Rightarrow> string list" where
  "path_comps s = filter (\<lambda>c. c \<noteq> [] \<and> c \<noteq> ''.'') (split_on (CHR ''/'') s)"

definition path_join :: "path \<Rightarrow> string \<Rightarrow> path" where
  "path_join d s = d @ path_comps s"

definition path_parent :: "path \<Rightarrow> path option" where
  "path_parent p = (if p = [] then None else Some (butlast p))"

definition path_string :: "path \<Rightarrow> string" where
  "path_string p = (if p = [] then ''/'' else concat (map (\<lambda>c. CHR ''/'' # c) p))"

text \<open>Opening for writing truncates; a write that fails leaves what had been written.\<close>

definition fs_fill :: "Io \<Rightarrow> string \<Rightarrow> string \<Rightarrow> path \<Rightarrow> string \<Rightarrow> fs \<Rightarrow> fs \<times> (string \<times> string, unit) result" where
  "fs_fill io t_open t_write p c fs =
     (case io_err io t_open Open of
        Some e \<Rightarrow> (fs, Err (t_open, e))
      | None \<Rightarrow>
         (case io_err io t_write Write of
            Some e \<Rightarrow> (fs(p \<mapsto> take (io_part io t_write) c), Err (t_write, e))
          | None \<Rightarrow> (fs(p \<mapsto> c), Ok ())))"

text \<open>
  The durable write all stores share: fill a temporary file, force it to disk, rename
  it over the final path. An error carries the tag of the call that failed.
\<close>

definition fs_replace ::
  "Io \<Rightarrow> string \<Rightarrow> string \<Rightarrow> string \<Rightarrow> string \<Rightarrow> path \<Rightarrow> path \<Rightarrow> string \<Rightarrow> fs \<Rightarrow> fs \<times> (string \<times> string, unit) result" where
  "fs_replace io t_open t_write t_sync t_rename tmp final c fs =
     (case fs_fill io t_open t_write tmp c fs of
        (fs1, Err e) \<Rightarrow> (fs1, Err e)
      | (fs1, Ok _) \<Rightarrow>
         (case io_err io t_sync Sync of
            Some e \<Rightarrow> (fs1, Err (t_sync, e))
          | None \<Rightarrow>
             (case io_err io t_rename Rename of
                Some e \<Rightarrow> (fs1, Err (t_rename, e))
              | None \<Rightarrow> (fs1(tmp := None, final := fs1 tmp), Ok ()))))"

text \<open>Sequencing of calls on the file system: an error stops the sequence where it is.\<close>

definition fs_bind :: "fs \<times> ('e, 'a) result \<Rightarrow> (fs \<Rightarrow> 'a \<Rightarrow> fs \<times> ('e, 'b) result) \<Rightarrow> fs \<times> ('e, 'b) result" where
  "fs_bind m f = (case m of (fs, Inl e) \<Rightarrow> (fs, Inl e) | (fs, Inr a) \<Rightarrow> f fs a)"

definition map_err :: "('e \<Rightarrow> 'f) \<Rightarrow> ('e, 'a) result \<Rightarrow> ('f, 'a) result" where
  "map_err f r = (case r of Inl e \<Rightarrow> Inl (f e) | Inr a \<Rightarrow> Inr a)"

lemma fs_bind_simps [simp]: "fs_bind (fs, Ok a) f = f fs a" "fs_bind (fs, Err e) f = (fs, Err e)"
  by (simp_all add: fs_bind_def)

lemma map_err_simps [simp]: "map_err f (Ok a) = Ok a" "map_err f (Err e) = Err (f e)"
  by (simp_all add: map_err_def)

lemma map_err_Ok_iff [simp]: "map_err f r = Ok a \<longleftrightarrow> r = Ok a"
  by (cases r) simp_all

text \<open>The file name without, respectively its, extension (the part after the last dot).\<close>

definition file_stem :: "string \<Rightarrow> string" where
  "file_stem n =
     (let r = dropWhile (\<lambda>c. c \<noteq> CHR ''.'') (rev n)
      in if r = [] \<or> tl r = [] then n else rev (tl r))"

definition file_extension :: "string \<Rightarrow> string option" where
  "file_extension n =
     (let r = dropWhile (\<lambda>c. c \<noteq> CHR ''.'') (rev n)
      in if r = [] \<or> tl r = [] then None else Some (rev (takeWhile (\<lambda>c. c \<noteq> CHR ''.'') (rev n))))"

definition with_extension :: "path \<Rightarrow> string \<Rightarrow> path" where
  "with_extension p e = butlast p @ [file_stem (last p) @ ''.'' @ e]"

lemma file_stem_ext:
  assumes "CHR ''.'' \<notin> set e" and "s \<noteq> []"
  shows "file_stem (s @ CHR ''.'' # e) = s" and "file_extension (s @ CHR ''.'' # e) = Some e"
proof -
  have n: "c \<noteq> CHR ''.''" if "c \<in> set (rev e)" for c using assms(1) that by auto
  have "dropWhile (\<lambda>c. c \<noteq> CHR ''.'') (rev (s @ CHR ''.'' # e)) = CHR ''.'' # rev s"
    and "takeWhile (\<lambda>c. c \<noteq> CHR ''.'') (rev (s @ CHR ''.'' # e)) = rev e"
    using dropWhile_append2 [of "rev e" "\<lambda>c. c \<noteq> CHR ''.''" "CHR ''.'' # rev s", OF n]
      takeWhile_append2 [of "rev e" "\<lambda>c. c \<noteq> CHR ''.''" "CHR ''.'' # rev s", OF n] by simp_all
  then show "file_stem (s @ CHR ''.'' # e) = s" and "file_extension (s @ CHR ''.'' # e) = Some e"
    using assms(2) by (simp_all add: file_stem_def file_extension_def Let_def)
qed

lemma with_extension_ext:
  "CHR ''.'' \<notin> set e \<Longrightarrow> s \<noteq> [] \<Longrightarrow> with_extension (d @ [s @ CHR ''.'' # e]) e' = d @ [s @ CHR ''.'' # e']"
  by (simp add: with_extension_def file_stem_ext)

subsection \<open>What a durable write can change\<close>

lemma fs_fill_frame [store_simps]: "q \<noteq> p \<Longrightarrow> fst (fs_fill io t_open t_write p c fs) q = fs q"
  by (simp add: fs_fill_def split: option.splits)

lemma fs_fill_Ok [store_simps]:
  "snd (fs_fill io t_open t_write p c fs) = Ok u \<Longrightarrow> fst (fs_fill io t_open t_write p c fs) = fs(p \<mapsto> c)"
  by (auto simp: fs_fill_def split: option.splits)

lemma fs_replace_frame [store_simps]:
  "q \<noteq> tmp \<Longrightarrow> q \<noteq> final \<Longrightarrow> fst (fs_replace io a b c d tmp final s fs) q = fs q"
  using fs_fill_frame [of q tmp io a b s fs]
  by (auto simp: fs_replace_def split: prod.splits sum.splits option.splits)

text \<open>The final path holds the old content or the new one, never a part of either.\<close>

lemma fs_replace_atomic:
  assumes "tmp \<noteq> final"
  shows "case snd (fs_replace io a b c d tmp final s fs) of
           Inl _ \<Rightarrow> fst (fs_replace io a b c d tmp final s fs) final = fs final
         | Inr _ \<Rightarrow> fst (fs_replace io a b c d tmp final s fs) = fs(tmp := None, final \<mapsto> s)"
  using fs_fill_frame [of final tmp io a b s fs] fs_fill_Ok [of io a b tmp s fs] assms
  by (auto simp: fs_replace_def split: prod.splits sum.splits option.splits)

lemma fs_replace_fine [store_simps]:
  "tmp \<noteq> final \<Longrightarrow>
   fs_replace io_fine a b c d tmp final s fs = (fs(tmp := None, final \<mapsto> s), Ok ())"
  by (auto simp: fs_replace_def fs_fill_def io_fine_def)

lemma fs_replace_Err:
  "tmp \<noteq> final \<Longrightarrow> snd (fs_replace io a b c d tmp final s fs) = Err e \<Longrightarrow>
   fst (fs_replace io a b c d tmp final s fs) final = fs final"
  using fs_replace_atomic [of tmp final io a b c d s fs] by simp

lemma fs_replace_Ok:
  "tmp \<noteq> final \<Longrightarrow> snd (fs_replace io a b c d tmp final s fs) = Ok u \<Longrightarrow>
   fst (fs_replace io a b c d tmp final s fs) = fs(tmp := None, final \<mapsto> s)"
  using fs_replace_atomic [of tmp final io a b c d s fs] by simp

subsection \<open>Paths\<close>

lemma path_comps_plain:
  "CHR ''/'' \<notin> set s \<Longrightarrow> s \<noteq> [] \<Longrightarrow> s \<noteq> ''.'' \<Longrightarrow> path_comps s = [s]"
  by (simp add: path_comps_def split_on_no_sep)

lemma path_join_plain:
  "CHR ''/'' \<notin> set s \<Longrightarrow> s \<noteq> [] \<Longrightarrow> s \<noteq> ''.'' \<Longrightarrow> path_join d s = d @ [s]"
  by (simp add: path_join_def path_comps_plain)

lemma path_parent_join [simp]: "path_parent (p @ [c]) = Some p"
  by (simp add: path_parent_def)

end
