(* ===== verification/Trust.thy ===== *)
theory Trust
  imports Cage_Policy Host_Fs
begin

section \<open>Trust: promotions within a policy\<close>

text \<open>
  Models \<^verbatim>\<open>crates/orkia-shell-types/src/trust.rs\<close>: the project scope, the store of human
  unlocks, the store of pending proposals and \<open>apply_trust\<close>, which turns some
  \<^term>\<open>Ask\<close> rules of a policy into \<^term>\<open>Allow\<close> rules before the cage sees it. The scorer
  behind the \<^verbatim>\<open>TrustAdjuster\<close> trait is not part of the repository: it is the argument
  \<open>adjust\<close>, any function from a key and a sensitivity to an \<^typ>\<open>AskOutcome\<close>. The
  JSON encoding of the stores is an argument too. Working directories are absolute.
\<close>

subsection \<open>Scopes and keys\<close>

type_synonym ProjectId = string

function resolve_project_id :: "(path \<Rightarrow> bool) \<Rightarrow> path \<Rightarrow> ProjectId option" where
  "resolve_project_id exists d =
     (if exists (d @ [''.git'']) then Some (path_string d)
      else case path_parent d of None \<Rightarrow> None | Some d' \<Rightarrow> resolve_project_id exists d')"
  by pat_completeness auto
termination
  by (relation "measure (\<lambda>(e, d). length d)") (auto simp: path_parent_def split: if_splits)

declare resolve_project_id.simps [simp del]

record TrustKey =
  tk_agent :: string
  tk_project :: ProjectId
  tk_capability :: string

record TrustScope =
  ts_agent :: string
  ts_project :: "ProjectId option"

definition trusted :: "TrustScope \<Rightarrow> (string \<times> ProjectId) option" where
  "trusted sc =
     (let agent = trim (ts_agent sc)
      in case (agent = [], ts_project sc) of
           (False, Some project) \<Rightarrow> Some (agent, project)
         | _ \<Rightarrow> None)"

type_synonym TrustAdjuster = "TrustKey \<Rightarrow> Sensitivity \<Rightarrow> AskOutcome"

definition noop_adjust :: TrustAdjuster where
  "noop_adjust key s = AO_Ask"

subsection \<open>The unlock store\<close>

record UnlockEntry =
  ue_agent :: string
  ue_project :: string
  ue_capability :: string

type_synonym UnlockStore = "UnlockEntry list"

definition ue_matches :: "TrustKey \<Rightarrow> UnlockEntry \<Rightarrow> bool" where
  "ue_matches key u \<longleftrightarrow>
     ue_agent u = tk_agent key \<and> ue_project u = tk_project key \<and> ue_capability u = tk_capability key"

definition ue_of :: "TrustKey \<Rightarrow> UnlockEntry" where
  "ue_of key = \<lparr>ue_agent = tk_agent key, ue_project = tk_project key, ue_capability = tk_capability key\<rparr>"

definition unlock_empty :: UnlockStore where
  "unlock_empty = []"

definition unlock_load :: "(string \<Rightarrow> UnlockStore option) \<Rightarrow> Io \<Rightarrow> fs \<Rightarrow> path \<Rightarrow> UnlockStore" where
  "unlock_load from_json io fs p =
     (case (io_err io ''unlock_load'' Read, fs p) of
        (None, Some raw) \<Rightarrow> (case from_json raw of Some st \<Rightarrow> st | None \<Rightarrow> unlock_empty)
      | _ \<Rightarrow> unlock_empty)"

definition unlock_has :: "UnlockStore \<Rightarrow> TrustKey \<Rightarrow> bool" where
  "unlock_has st key = list_ex (ue_matches key) st"

definition unlock_record :: "UnlockStore \<Rightarrow> TrustKey \<Rightarrow> UnlockStore" where
  "unlock_record st key = (if \<not> unlock_has st key then st @ [ue_of key] else st)"

definition unlock_remove :: "UnlockStore \<Rightarrow> TrustKey \<Rightarrow> UnlockStore \<times> bool" where
  "unlock_remove st key =
     (let st' = filter (\<lambda>u. \<not> ue_matches key u) st in (st', length st' \<noteq> length st))"

text \<open>The two stores are saved by the same sequence: parent directory, encoding, write.\<close>

definition save_json :: "('s \<Rightarrow> (string, string) result) \<Rightarrow> string \<Rightarrow> Io \<Rightarrow> fs \<Rightarrow> path \<Rightarrow> 's \<Rightarrow> fs \<times> (string, unit) result" where
  "save_json to_json tag io fs p st =
     (case (case path_parent p of Some _ \<Rightarrow> io_try io tag MkDir | None \<Rightarrow> Ok ()) of
        Err e \<Rightarrow> (fs, Err e)
      | Ok _ \<Rightarrow>
         (case to_json st of
            Err e \<Rightarrow> (fs, Err e)
          | Ok raw \<Rightarrow>
             (case fs_fill io tag tag p raw fs of
                (fs', Err (t, e)) \<Rightarrow> (fs', Err e)
              | (fs', Ok u) \<Rightarrow> (fs', Ok u))))"

definition unlock_save :: "(UnlockStore \<Rightarrow> (string, string) result) \<Rightarrow> Io \<Rightarrow> fs \<Rightarrow> path \<Rightarrow> UnlockStore \<Rightarrow> fs \<times> (string, unit) result" where
  "unlock_save to_json io fs p st = save_json to_json ''unlock_save'' io fs p st"

subsection \<open>The store of pending proposals\<close>

record PendingEntry =
  pe_agent :: string
  pe_project :: string
  pe_capability :: string

type_synonym PendingStore = "PendingEntry list"

definition pe_of :: "TrustKey \<Rightarrow> PendingEntry" where
  "pe_of k = \<lparr>pe_agent = tk_agent k, pe_project = tk_project k, pe_capability = tk_capability k\<rparr>"

definition pending_empty :: PendingStore where
  "pending_empty = []"

definition pending_load :: "(string \<Rightarrow> PendingStore option) \<Rightarrow> Io \<Rightarrow> fs \<Rightarrow> path \<Rightarrow> PendingStore" where
  "pending_load from_json io fs p =
     (case (io_err io ''pending_load'' Read, fs p) of
        (None, Some raw) \<Rightarrow> (case from_json raw of Some st \<Rightarrow> st | None \<Rightarrow> pending_empty)
      | _ \<Rightarrow> pending_empty)"

definition update_scope :: "PendingStore \<Rightarrow> string \<Rightarrow> ProjectId \<Rightarrow> TrustKey list \<Rightarrow> PendingStore \<times> bool" where
  "update_scope st agent project keys =
     (let next = filter (\<lambda>e. \<not> (pe_agent e = agent \<and> pe_project e = project)) st @ map pe_of keys;
          changed = (next \<noteq> st)
      in (if changed then next else st, changed))"

definition pending_save :: "(PendingStore \<Rightarrow> (string, string) result) \<Rightarrow> Io \<Rightarrow> fs \<Rightarrow> path \<Rightarrow> PendingStore \<Rightarrow> fs \<times> (string, unit) result" where
  "pending_save to_json io fs p st = save_json to_json ''pending_save'' io fs p st"

definition pending_has :: "PendingStore \<Rightarrow> TrustKey \<Rightarrow> bool" where
  "pending_has st key =
     list_ex (\<lambda>e. pe_agent e = tk_agent key \<and> pe_project e = tk_project key \<and>
       pe_capability e = tk_capability key) st"

subsection \<open>Applying trust to a policy\<close>

definition promote :: "TrustAdjuster \<Rightarrow> UnlockStore \<Rightarrow> TrustKey \<Rightarrow> Sensitivity \<Rightarrow> bool" where
  "promote adjust unlocks key s =
     (case adjust key s of
        AO_Ask \<Rightarrow> False
      | Auto \<Rightarrow> (case s of Benign \<Rightarrow> True | Sensitive \<Rightarrow> unlock_has unlocks key))"

definition adjust_cap :: "string \<Rightarrow> ProjectId \<Rightarrow> TrustAdjuster \<Rightarrow> UnlockStore \<Rightarrow> Capability \<Rightarrow> Capability" where
  "adjust_cap agent project adjust unlocks cap =
     (if cap_verdict cap \<noteq> Ask then cap
      else let key = \<lparr>tk_agent = agent, tk_project = project, tk_capability = cap_name cap\<rparr>
           in if promote adjust unlocks key (cap_sensitivity cap)
              then cap\<lparr>cap_verdict := Allow\<rparr> else cap)"

definition apply_trust :: "Policy \<Rightarrow> TrustScope \<Rightarrow> TrustAdjuster \<Rightarrow> UnlockStore \<Rightarrow> Policy" where
  "apply_trust base sc adjust unlocks =
     (case trusted sc of
        None \<Rightarrow> base
      | Some (agent, project) \<Rightarrow>
          base\<lparr>capabilities := map (adjust_cap agent project adjust unlocks) (capabilities base)\<rparr>)"

section \<open>The contract of a store of grants\<close>

text \<open>
  What the trust layer relies on: a grant is found exactly when it was recorded and not
  removed since, and operations on one key do not disturb another.
\<close>

locale grant_store =
  fixes empty :: 's
    and has :: "'s \<Rightarrow> 'k \<Rightarrow> bool"
    and record_grant :: "'s \<Rightarrow> 'k \<Rightarrow> 's"
    and remove_grant :: "'s \<Rightarrow> 'k \<Rightarrow> 's \<times> bool"
  assumes has_empty: "\<not> has empty k"
    and has_record: "has (record_grant st k) k' \<longleftrightarrow> k' = k \<or> has st k'"
    and has_remove: "has (fst (remove_grant st k)) k' \<longleftrightarrow> k' \<noteq> k \<and> has st k'"
    and remove_flag: "snd (remove_grant st k) \<longleftrightarrow> has st k"
begin

text \<open>A history of grants and revocations, replayed from the empty store.\<close>

fun replay :: "('k + 'k) list \<Rightarrow> 's" where
  "replay [] = empty"
| "replay (Inl k # h) = record_grant (replay h) k"
| "replay (Inr k # h) = fst (remove_grant (replay h) k)"

fun last_is_grant :: "'k \<Rightarrow> ('k + 'k) list \<Rightarrow> bool" where
  "last_is_grant k [] = False"
| "last_is_grant k (Inl k' # h) = (k = k' \<or> last_is_grant k h)"
| "last_is_grant k (Inr k' # h) = (k \<noteq> k' \<and> last_is_grant k h)"

lemma has_replay: "has (replay h) k \<longleftrightarrow> last_is_grant k h"
  by (induction k h rule: last_is_grant.induct) (simp_all add: has_empty has_record has_remove)

lemma record_idem: "has (record_grant (record_grant st k) k) k' \<longleftrightarrow> has (record_grant st k) k'"
  by (auto simp: has_record)

lemma remove_record: "\<not> has st k \<Longrightarrow> has (fst (remove_grant (record_grant st k) k)) k' \<longleftrightarrow> has st k'"
  by (auto simp: has_record has_remove)

end

lemma ue_matches_of [simp]: "ue_matches k' (ue_of k) \<longleftrightarrow> k' = k"
  by (cases k, cases k') (auto simp: ue_matches_def ue_of_def)

lemma ue_matches_unique: "ue_matches k u \<Longrightarrow> ue_matches k' u \<longleftrightarrow> k' = k"
  by (cases k, cases k') (auto simp: ue_matches_def)

lemma filter_length_neq: "length (filter P xs) \<noteq> length xs \<longleftrightarrow> list_ex (\<lambda>x. \<not> P x) xs"
proof
  show "list_ex (\<lambda>x. \<not> P x) xs" if "length (filter P xs) \<noteq> length xs"
    using that by (metis filter_True list_ex_iff)
  show "length (filter P xs) \<noteq> length xs" if "list_ex (\<lambda>x. \<not> P x) xs"
    using that length_filter_less [of _ xs P] by (force simp: list_ex_iff)
qed

interpretation unlock: grant_store unlock_empty unlock_has unlock_record unlock_remove
proof unfold_locales
  fix st :: UnlockStore and k k' :: TrustKey
  show "\<not> unlock_has unlock_empty k" by (simp add: unlock_has_def unlock_empty_def)
  show "unlock_has (unlock_record st k) k' \<longleftrightarrow> k' = k \<or> unlock_has st k'"
    by (auto simp: unlock_record_def unlock_has_def)
  show "unlock_has (fst (unlock_remove st k)) k' \<longleftrightarrow> k' \<noteq> k \<and> unlock_has st k'"
    by (auto simp: unlock_remove_def unlock_has_def list_ex_iff Let_def dest: ue_matches_unique)
  show "snd (unlock_remove st k) \<longleftrightarrow> unlock_has st k"
    by (simp add: unlock_remove_def unlock_has_def filter_length_neq)
qed

section \<open>Promotion, one capability at a time\<close>

text \<open>\<open>promoted\<close> is all that \<open>apply_trust\<close> may do to one rule.\<close>

definition promoted :: "TrustScope \<Rightarrow> TrustAdjuster \<Rightarrow> UnlockStore \<Rightarrow> Capability \<Rightarrow> Capability \<Rightarrow> bool" where
  "promoted sc adjust unlocks c c' \<longleftrightarrow>
     cap_verdict c = Ask \<and> c' = c\<lparr>cap_verdict := Allow\<rparr> \<and>
     (\<exists>project. ts_project sc = Some project \<and> trim (ts_agent sc) \<noteq> [] \<and>
        (let key = \<lparr>tk_agent = trim (ts_agent sc), tk_project = project, tk_capability = cap_name c\<rparr>
         in adjust key (cap_sensitivity c) = Auto \<and>
            (cap_sensitivity c = Benign \<or> unlock_has unlocks key)))"

lemma trusted_Some_iff:
  "trusted sc = Some (a, pr) \<longleftrightarrow> a = trim (ts_agent sc) \<and> a \<noteq> [] \<and> ts_project sc = Some pr"
  by (auto simp: trusted_def Let_def split: option.splits bool.splits)

lemma adjust_cap_cases:
  assumes "trusted sc = Some (agent, project)"
  shows "adjust_cap agent project adjust unlocks c = c \<or>
         promoted sc adjust unlocks c (adjust_cap agent project adjust unlocks c)"
  using assms
  by (auto simp: adjust_cap_def promoted_def promote_def Let_def trusted_Some_iff
      split: AskOutcome.splits Sensitivity.splits)

lemma apply_trust_pointwise:
  "list_all2 (\<lambda>c c'. c' = c \<or> promoted sc adjust unlocks c c')
     (capabilities base) (capabilities (apply_trust base sc adjust unlocks))"
proof (cases "trusted sc")
  case None
  then show ?thesis by (simp add: apply_trust_def list_all2_same)
next
  case (Some ap)
  then obtain a pr where "trusted sc = Some (a, pr)" by (cases ap) auto
  note cases = adjust_cap_cases [OF this, of adjust unlocks]
  show ?thesis
    unfolding apply_trust_def \<open>trusted sc = Some (a, pr)\<close>
    using cases by (simp add: list_all2_map2 list_all2_same)
qed

lemma apply_trust_frame [simp]:
  "default_verdict_of (apply_trust base sc adjust unlocks) = default_verdict_of base"
  "Policy.caps (apply_trust base sc adjust unlocks) = Policy.caps base"
  "workspace (apply_trust base sc adjust unlocks) = workspace base"
  by (simp_all add: apply_trust_def split: option.splits)

text \<open>Promoting rules lowers decisions, and never touches a denial.\<close>

definition eased :: "PolicyDecision \<Rightarrow> PolicyDecision \<Rightarrow> bool" where
  "eased d d' \<longleftrightarrow> d' = d \<or> tier d = 1 \<and> d' = PD_Allow (pd_capability d) (pd_rule d)"

lemma eased_tier: "eased d d' \<Longrightarrow> tier d' \<le> tier d \<and> (tier d' = 2 \<longleftrightarrow> tier d = 2)"
  by (auto simp: eased_def)

lemma match_caps_promoted:
  "list_all2 (\<lambda>c c'. c' = c \<or> promoted sc adjust unlocks c c') cs cs' \<Longrightarrow>
   eased (match_caps d cs cmd) (match_caps d cs' cmd)"
proof (induction rule: list_all2_induct)
  case (Cons c cs c' cs')
  then show ?case
    by (auto simp: promoted_def eased_def split: option.splits)
qed (simp add: eased_def)

lemma segment_decisions_eased:
  "list_all2 eased (segment_decisions base line)
     (segment_decisions (apply_trust base sc adjust unlocks) line)"
  unfolding segment_decisions_def match_one_def
  using match_caps_promoted [OF apply_trust_pointwise]
  by (simp add: list_all2_map1 list_all2_map2 list_all2_same)

lemma worst_tier_eased:
  assumes "list_all2 eased ds ds'" and "d \<in> set ds" and "\<forall>x \<in> set ds. tier x \<le> tier d"
    and "d' \<in> set ds'" and "\<forall>x \<in> set ds'. tier x \<le> tier d'"
  shows "tier d' \<le> tier d \<and> (tier d' = 2 \<longleftrightarrow> tier d = 2)"
proof -
  obtain e where e: "e \<in> set ds" "eased e d'"
    using assms(1,4) by (metis in_set_conv_nth list_all2_conv_all_nth)
  obtain e' where e': "e' \<in> set ds'" "eased d e'"
    using assms(1,2) by (metis in_set_conv_nth list_all2_conv_all_nth)
  have "tier d' \<le> tier d" using eased_tier [OF e(2)] assms(3) e(1) by force
  moreover have "tier d' = 2" if "tier d = 2"
    using eased_tier [OF e'(2)] that assms(5) e'(1) tier_simps(3) [of d'] by force
  moreover have "tier d = 2" if "tier d' = 2"
    using that \<open>tier d' \<le> tier d\<close> tier_simps(3) [of d] by simp
  ultimately show ?thesis by blast
qed

lemma evaluate_match_eased:
  "tier (evaluate_match (apply_trust base sc adjust unlocks) line) \<le> tier (evaluate_match base line) \<and>
   (tier (evaluate_match (apply_trust base sc adjust unlocks) line) = 2 \<longleftrightarrow>
      tier (evaluate_match base line) = 2)"
proof (cases "segment_decisions base line = []")
  case True
  then have "segment_decisions (apply_trust base sc adjust unlocks) line = []"
    using segment_decisions_eased [of base line sc adjust unlocks] by simp
  with True show ?thesis by (simp add: evaluate_match_empty)
next
  case False
  then have "segment_decisions (apply_trust base sc adjust unlocks) line \<noteq> []"
    using segment_decisions_eased [of base line sc adjust unlocks] by auto
  from worst_tier_eased [OF segment_decisions_eased evaluate_match_worst(1) [OF False] _
      evaluate_match_worst(1) [OF this]] evaluate_match_worst(2) [OF False] evaluate_match_worst(2) [OF this]
  show ?thesis by blast
qed

lemma update_scope_pair:
  "update_scope st agent project keys =
     (filter (\<lambda>e. \<not> (pe_agent e = agent \<and> pe_project e = project)) st @ map pe_of keys,
      filter (\<lambda>e. \<not> (pe_agent e = agent \<and> pe_project e = project)) st @ map pe_of keys \<noteq> st)"
  unfolding update_scope_def Let_def by (cases "filter (\<lambda>e. \<not> (pe_agent e = agent \<and> pe_project e = project)) st @ map pe_of keys = st") simp_all

section \<open>Project scopes\<close>

lemma resolve_subdir:
  "\<not> exists (d @ [c] @ [''.git'']) \<Longrightarrow> resolve_project_id exists (d @ [c]) = resolve_project_id exists d"
  by (subst resolve_project_id.simps) simp

lemma resolve_descend:
  "(\<And>k. k < length sub \<Longrightarrow> \<not> exists (d @ take (Suc k) sub @ [''.git''])) \<Longrightarrow>
   resolve_project_id exists (d @ sub) = resolve_project_id exists d"
proof (induction sub rule: rev_induct)
  case (snoc c sub)
  have "\<not> exists ((d @ sub) @ [c] @ [''.git''])"
    using snoc.prems [of "length sub"] by simp
  then have "resolve_project_id exists (d @ sub @ [c]) = resolve_project_id exists (d @ sub)"
    using resolve_subdir [of exists "d @ sub" c] by simp
  also have "\<dots> = resolve_project_id exists d"
    using snoc.prems [of k for k] by (intro snoc.IH) (metis less_SucI length_append_singleton take_append append_Nil2 diff_is_0_eq Suc_leI take_0)
  finally show ?case .
qed simp

lemma resolve_at: "exists (d @ [''.git'']) \<Longrightarrow> resolve_project_id exists d = Some (path_string d)"
  by (simp add: resolve_project_id.simps)

lemma resolve_Some:
  "resolve_project_id exists d = Some p \<Longrightarrow>
   \<exists>r sub. d = r @ sub \<and> p = path_string r \<and> exists (r @ [''.git''])"
proof (induction exists d rule: resolve_project_id.induct)
  case (1 exists d)
  show ?case
  proof (cases "exists (d @ [''.git''])")
    case True
    with "1.prems" show ?thesis by (intro exI [of _ d] exI [of _ "[]"]) (simp add: resolve_at)
  next
    case False
    with "1.prems" obtain d' where d': "path_parent d = Some d'" "resolve_project_id exists d' = Some p"
      by (auto simp: resolve_project_id.simps [of exists d] split: option.splits)
    with "1.IH" [OF False] obtain r sub where "d' = r @ sub" "p = path_string r" "exists (r @ [''.git''])"
      by blast
    moreover have "d = d' @ [last d]" using d'(1) by (auto simp: path_parent_def split: if_splits)
    ultimately show ?thesis by (metis append.assoc)
  qed
qed

section \<open>Properties of the trust layer\<close>

text \<open>A trusted scope, an eager scorer and one key, used at concrete inputs below.\<close>

definition sample_scope :: TrustScope where
  "sample_scope = \<lparr>ts_agent = ''coder'', ts_project = Some ''/w''\<rparr>"

definition eager_adjust :: TrustAdjuster where
  "eager_adjust key s = Auto"

definition asking_policy :: Policy where
  "asking_policy = sample_policy\<lparr>capabilities :=
     [\<lparr>cap_name = ''net'', cap_matches = [''curl*''], cap_verdict = Ask, cap_sensitivity = Sensitive\<rparr>,
      \<lparr>cap_name = ''git.commit'', cap_matches = [''git commit*''], cap_verdict = Ask,
       cap_sensitivity = Benign\<rparr>]\<rparr>"

text \<open>C22. Whatever the scorer answers, applying trust keeps the default verdict, the class
  capabilities and the workspace, keeps the rules in their order, and changes a rule
  only by turning Ask into Allow, for a named agent in a resolved project, when the
  scorer says so and, for a sensitive capability, a human unlock for exactly this
  agent, project and capability is on record.\<close>

theorem apply_trust_promotes_only:
  "default_verdict_of (apply_trust base sc adjust unlocks) = default_verdict_of base \<and>
   Policy.caps (apply_trust base sc adjust unlocks) = Policy.caps base \<and>
   workspace (apply_trust base sc adjust unlocks) = workspace base \<and>
   list_all2 (\<lambda>c c'. c' = c \<or> promoted sc adjust unlocks c c')
     (capabilities base) (capabilities (apply_trust base sc adjust unlocks))"
  by (simp add: apply_trust_pointwise)

text \<open>C23. A command line is denied under the trusted policy exactly when it is denied under
  the base policy, and trust never makes a decision more restrictive.\<close>

theorem trust_keeps_denials:
  "tier (evaluate_match (apply_trust base sc adjust unlocks) line) \<le> tier (evaluate_match base line) \<and>
   ((\<exists>c r. evaluate_match (apply_trust base sc adjust unlocks) line = PD_Deny c r) \<longleftrightarrow>
    (\<exists>c r. evaluate_match base line = PD_Deny c r))"
  using evaluate_match_eased [of base sc adjust unlocks line] by (simp add: tier_simps)

text \<open>Revoking an unlock takes effect at once: a sensitive rule whose key has just been
  removed from the store keeps its base verdict under every scorer.\<close>

lemma revoked_never_promotes:
  assumes "i < length (capabilities base)" and "cap_sensitivity (capabilities base ! i) = Sensitive"
    and "ts_project sc = Some project"
  shows "capabilities (apply_trust base sc adjust
           (fst (unlock_remove st \<lparr>tk_agent = trim (ts_agent sc), tk_project = project,
              tk_capability = cap_name (capabilities base ! i)\<rparr>))) ! i
         = capabilities base ! i"
  using list_all2_nthD [OF apply_trust_pointwise assms(1), of sc adjust
      "fst (unlock_remove st \<lparr>tk_agent = trim (ts_agent sc), tk_project = project,
         tk_capability = cap_name (capabilities base ! i)\<rparr>)"]
  by (auto simp: promoted_def assms unlock.has_remove Let_def)

text \<open>The unlock store answers by its history: after any sequence of recorded and
  revoked grants, a key is unlocked exactly when its last entry is a grant.\<close>

lemma unlock_history: "unlock_has (unlock.replay h) k \<longleftrightarrow> unlock.last_is_grant k h"
  by (rule unlock.has_replay)

text \<open>Recomputing the proposals of one agent in one project replaces that scope's
  entries by the given ones, leaves every other scope's entries in place and order, and
  reports a change exactly when the store changed.\<close>

lemma update_scope_frame:
  assumes "list_all (\<lambda>k. tk_agent k = agent \<and> tk_project k = project) keys"
  shows "filter (\<lambda>e. \<not> (pe_agent e = agent \<and> pe_project e = project)) (fst (update_scope st agent project keys))
           = filter (\<lambda>e. \<not> (pe_agent e = agent \<and> pe_project e = project)) st \<and>
         filter (\<lambda>e. pe_agent e = agent \<and> pe_project e = project) (fst (update_scope st agent project keys))
           = map pe_of keys \<and>
         (snd (update_scope st agent project keys) \<longleftrightarrow> fst (update_scope st agent project keys) \<noteq> st)"
proof -
  have "filter (\<lambda>e. \<not> (pe_agent e = agent \<and> pe_project e = project)) (map pe_of keys) = []"
    and "filter (\<lambda>e. pe_agent e = agent \<and> pe_project e = project) (map pe_of keys) = map pe_of keys"
    using assms by (induction keys) (simp_all add: pe_of_def)
  then show ?thesis
    unfolding update_scope_pair [of st agent project keys] fst_conv snd_conv filter_append
    by simp
qed

text \<open>The trust scope is the nearest enclosing repository: it does not depend on the
  subdirectory one works in, as long as no nested repository lies on the way.\<close>

lemma project_id_stable:
  assumes "exists (d @ [''.git''])"
    and "\<And>k. k < length sub \<Longrightarrow> \<not> exists (d @ take (Suc k) sub @ [''.git''])"
  shows "resolve_project_id exists (d @ sub) = Some (path_string d)"
  using resolve_descend [of sub exists d] resolve_at [of exists d] assms by simp

end
