(* ===== verification/Cage_Shim.thy ===== *)
theory Cage_Shim
  imports Cage_Policy
begin

section \<open>The command shim\<close>

text \<open>
  Models \<^verbatim>\<open>bins/orkia-sh/src\<close>: recovering the command from an agent's shell call
  (\<^verbatim>\<open>decide.rs\<close>), the fail-closed decision core (\<^verbatim>\<open>core.rs\<close>), the audit record
  (\<^verbatim>\<open>verdict.rs\<close> and the envelope of \<^verbatim>\<open>orkia-shell-types/src/journal/types.rs\<close>), the shell
  entry mode (\<^verbatim>\<open>main.rs\<close>) and the hook entry mode (\<^verbatim>\<open>hook.rs\<close>).

  The process environment, the policy file, the TOML and JSON parsers, the journal
  socket and the real shell are fields of a \<open>Host\<close>; a run is the list of its effects
  with the way it ended. Environment variables hold valid text.
\<close>

subsection \<open>Recovering the command\<close>

datatype Extracted = Command string | Unparseable

definition eval_marker :: string where
  "eval_marker = ''eval '' @ [SQ]"

function unwrap_loop :: "string \<Rightarrow> string \<Rightarrow> string option" where
  "unwrap_loop out [] = None"
| "unwrap_loop out (c # cs) =
     (if c = SQ then
        (if prefix [BS, SQ, SQ] cs then unwrap_loop (out @ [SQ]) (drop 3 cs) else Some out)
      else unwrap_loop (out @ [c]) cs)"
  by pat_completeness auto
termination
  by (relation "measure (\<lambda>(out, cs). length cs)") auto

definition unwrap_eval :: "string \<Rightarrow> string option" where
  "unwrap_eval raw =
     (case find_sub eval_marker raw of
        None \<Rightarrow> None
      | Some i \<Rightarrow> unwrap_loop [] (drop (i + length eval_marker) raw))"

definition extract_command :: "string \<Rightarrow> Extracted" where
  "extract_command raw =
     (if str_contains raw eval_marker
      then (case unwrap_eval raw of Some inner \<Rightarrow> Command inner | None \<Rightarrow> Unparseable)
      else Command (trim raw))"

subsection \<open>The audit envelope\<close>

datatype EventType = Hook | Approval | Lifecycle | Shell | Tell | Seal | ScopeChange | KnowledgeAccess

record JournalEnvelope =
  je_event_type :: EventType
  je_timestamp :: string
  je_hub_seq :: "64 word option"
  je_job_id :: "32 word option"
  je_session_id :: "string option"
  je_source :: "string option"
  je_agent :: "string option"
  je_event :: "string option"
  je_tool :: "string option"
  je_target :: "string option"
  je_exit_code :: "int option"
  je_action :: "string option"
  je_risk :: "string option"
  je_description :: "string option"
  je_message :: "string option"
  je_model :: "string option"
  je_prompt :: "string option"
  je_response_path :: "string option"
  je_response_sha256 :: "string option"
  je_response_bytes :: "64 word option"
  je_response_preview :: "string option"
  je_pipeline_id :: "string option"
  je_stage_index :: "32 word option"
  je_extra :: "string \<Rightarrow> Json option"

definition envelope_now :: "string \<Rightarrow> EventType \<Rightarrow> JournalEnvelope" where
  "envelope_now now t =
     \<lparr>je_event_type = t, je_timestamp = now, je_hub_seq = None, je_job_id = None,
      je_session_id = None, je_source = None, je_agent = None, je_event = None, je_tool = None,
      je_target = None, je_exit_code = None, je_action = None, je_risk = None,
      je_description = None, je_message = None, je_model = None, je_prompt = None,
      je_response_path = None, je_response_sha256 = None, je_response_bytes = None,
      je_response_preview = None, je_pipeline_id = None, je_stage_index = None,
      je_extra = \<lambda>_. None\<rparr>"

subsection \<open>Host, effects and outcomes\<close>

datatype WaitStatus = Exited int | Signaled int | StillAlive

datatype SupEvent = SigChld WaitStatus | SigOther nat | SigFailed string

datatype Effect =
    Recorded JournalEnvelope
  | RunShell string "string list" bool
  | Forwarded nat
  | Stderr string
  | Stdout Json

datatype Outcome = ExitCode int | Replaced | ReturnOk | ReturnErr string | StillWaiting

record Host =
  h_env :: "string \<Rightarrow> string option"
  h_read :: "string \<Rightarrow> string option"
  h_toml :: "string \<Rightarrow> Policy option"
  h_json :: "string \<Rightarrow> Json option"
  h_stdin :: "string option"
  h_now :: string
  h_send :: "string \<Rightarrow> JournalEnvelope \<Rightarrow> string option"
  h_exec :: "string \<Rightarrow> string list \<Rightarrow> string option"
  h_spawn :: "string \<Rightarrow> string list \<Rightarrow> string option"
  h_signals :: "SupEvent list"
  h_linux :: bool

abbreviation POLICY_ENV :: string where "POLICY_ENV \<equiv> ''ORKIA_CAGE_POLICY''"
abbreviation CLEARED_ENV :: string where "CLEARED_ENV \<equiv> ''ORKIA_SH_CLEARED''"
abbreviation REAL_SHELL_ENV :: string where "REAL_SHELL_ENV \<equiv> ''ORKIA_SH_REAL''"

subsection \<open>The decision core\<close>

datatype Decision =
    D_Allow string "string option" "string option"
  | D_Deny string "string option" "string option" "string option"
  | D_Ask string "string option" "string option"

definition forced_deny :: "string \<Rightarrow> string \<Rightarrow> Decision" where
  "forced_deny command reason = D_Deny command None None (Some reason)"

definition evaluate :: "string \<Rightarrow> Policy \<Rightarrow> Decision" where
  "evaluate command policy =
     (if \<not> cc_exec (Policy.caps policy) then D_Deny command None None (Some ''exec class disabled'')
      else case evaluate_match policy command of
             PD_Allow capability rule \<Rightarrow> D_Allow command capability rule
           | PD_Deny capability rule \<Rightarrow> D_Deny command capability rule None
           | PD_Ask a \<Rightarrow> D_Ask command (adj_capability a) (adj_rule a))"

definition load_policy :: "Host \<Rightarrow> (string, Policy) result" where
  "load_policy h =
     (case h_env h POLICY_ENV of
        None \<Rightarrow> Err (POLICY_ENV @ '' not set'')
      | Some p \<Rightarrow>
         (case h_read h p of
            None \<Rightarrow> Err (''reading policy '' @ p)
          | Some raw \<Rightarrow>
             (case h_toml h raw of None \<Rightarrow> Err (''parsing policy '' @ p) | Some pol \<Rightarrow> Ok pol)))"

definition decide :: "Host \<Rightarrow> string \<Rightarrow> Decision" where
  "decide h raw_command =
     (case extract_command raw_command of
        Unparseable \<Rightarrow> forced_deny raw_command ''unparseable agent envelope''
      | Command command \<Rightarrow>
         (case load_policy h of
            Ok policy \<Rightarrow> evaluate command policy
          | Err _ \<Rightarrow> forced_deny command ''policy unavailable''))"

subsection \<open>Emitting records\<close>

fun verdict_str :: "Verdict \<Rightarrow> string" where
  "verdict_str Allow = ''allow''"
| "verdict_str Ask = ''ask''"
| "verdict_str Deny = ''deny''"

definition build_envelope :: "string \<Rightarrow> string \<Rightarrow> Verdict \<Rightarrow> string option \<Rightarrow> string option \<Rightarrow> JournalEnvelope" where
  "build_envelope now command verdict capability rule =
     (envelope_now now Hook)\<lparr>je_event := Some ''cage.verdict'', je_source := Some ''generic'',
        je_extra := [''command'' \<mapsto> JStr command, ''verdict'' \<mapsto> JStr (verdict_str verdict),
          ''capability'' \<mapsto> json_opt_str capability, ''rule'' \<mapsto> json_opt_str rule]\<rparr>"

definition build_outcome_envelope :: "string \<Rightarrow> string option \<Rightarrow> bool \<Rightarrow> int option \<Rightarrow> JournalEnvelope" where
  "build_outcome_envelope now capability success exit_code =
     (envelope_now now Hook)\<lparr>je_event := Some ''command.outcome'', je_source := Some ''generic'',
        je_extra :=
          (let extra = [''capability'' \<mapsto> json_opt_str capability, ''success'' \<mapsto> JBool success]
           in case exit_code of Some code \<Rightarrow> extra(''exit_code'' \<mapsto> JInt code) | None \<Rightarrow> extra)\<rparr>"

definition stamp_routing :: "Host \<Rightarrow> JournalEnvelope \<Rightarrow> JournalEnvelope" where
  "stamp_routing h env =
     env\<lparr>je_job_id := Option.bind (h_env h ''ORKIA_JOB_ID'') parse_u32,
         je_agent := h_env h ''ORKIA_AGENT_NAME'',
         je_extra := (case h_env h ''ORKIA_PROJECT_ID'' of
             Some project \<Rightarrow> (je_extra env)(''project'' \<mapsto> JStr project)
           | None \<Rightarrow> je_extra env)\<rparr>"

definition socket_path :: "Host \<Rightarrow> string" where
  "socket_path h =
     (case h_env h ''ORKIA_SOCKET_PATH'' of
        Some p \<Rightarrow> p
      | None \<Rightarrow>
         (case h_env h ''HOME'' of
            Some home \<Rightarrow>
              (if home = [] \<or> last home = CHR ''/'' then home else home @ ''/'') @ ''.orkia/run/orkia.sock''
          | None \<Rightarrow> ''.orkia/run/orkia.sock''))"

definition send :: "Host \<Rightarrow> JournalEnvelope \<Rightarrow> Effect list \<times> (string, unit) result" where
  "send h env =
     (case h_send h (socket_path h) env of
        None \<Rightarrow> ([Recorded env], Ok ())
      | Some e \<Rightarrow> ([], Err e))"

definition emit :: "Host \<Rightarrow> string \<Rightarrow> Verdict \<Rightarrow> string option \<Rightarrow> string option \<Rightarrow> Effect list \<times> (string, unit) result" where
  "emit h command verdict capability rule =
     send h (stamp_routing h (build_envelope (h_now h) command verdict capability rule))"

definition emit_best_effort :: "Host \<Rightarrow> string \<Rightarrow> Verdict \<Rightarrow> string option \<Rightarrow> string option \<Rightarrow> Effect list" where
  "emit_best_effort h command verdict capability rule = fst (emit h command verdict capability rule)"

definition emit_outcome :: "Host \<Rightarrow> string option \<Rightarrow> bool \<Rightarrow> int option \<Rightarrow> Effect list" where
  "emit_outcome h capability success exit_code =
     fst (send h (stamp_routing h (build_outcome_envelope (h_now h) capability success exit_code)))"

subsection \<open>The shell entry mode\<close>

definition is_option_token :: "string \<Rightarrow> bool" where
  "is_option_token arg \<longleftrightarrow> prefix ''-'' arg \<and> length arg > 1"

definition is_command_flag :: "string \<Rightarrow> bool" where
  "is_command_flag arg =
     (case strip_prefix ''-'' arg of
        None \<Rightarrow> False
      | Some flags \<Rightarrow>
          flags \<noteq> [] \<and> \<not> prefix ''-'' flags \<and> suffix ''c'' flags \<and>
          list_all (\<lambda>b. 97 \<le> (of_char b :: nat) \<and> (of_char b :: nat) \<le> 122) flags)"

definition dash_c_command :: "string list \<Rightarrow> string option" where
  "dash_c_command args =
     (case dropWhile (\<lambda>a. \<not> is_command_flag a) args of
        [] \<Rightarrow> None
      | _ # rest \<Rightarrow> find (\<lambda>a. \<not> is_option_token a) rest)"

definition real_shell :: "Host \<Rightarrow> string" where
  "real_shell h = (case h_env h REAL_SHELL_ENV of Some s \<Rightarrow> s | None \<Rightarrow> ''/bin/bash'')"

definition exec_real_shell :: "Host \<Rightarrow> string list \<Rightarrow> bool \<Rightarrow> Effect list \<times> Outcome" where
  "exec_real_shell h args set_cleared =
     (case h_exec h (real_shell h) args of
        None \<Rightarrow> ([RunShell (real_shell h) args set_cleared], Replaced)
      | Some _ \<Rightarrow> ([], ReturnErr (''failed to exec real shell `'' @ real_shell h @ ''`'')))"

text \<open>
  The supervisor consumes the signals as they come; the list is what the process gets
  to see, and running out of it means the child is still running.
\<close>

fun supervise :: "SupEvent list \<Rightarrow> Effect list \<times> ((string, int) result) option" where
  "supervise [] = ([], None)"
| "supervise (SigFailed e # evs) = ([], Some (Err e))"
| "supervise (SigChld (Exited code) # evs) = ([], Some (Ok code))"
| "supervise (SigChld (Signaled s) # evs) = ([], Some (Ok (128 + s)))"
| "supervise (SigChld StillAlive # evs) = supervise evs"
| "supervise (SigOther sig # evs) = (let (es, r) = supervise evs in (Forwarded sig # es, r))"

definition run_supervised :: "Host \<Rightarrow> string list \<Rightarrow> string option \<Rightarrow> Effect list \<times> Outcome" where
  "run_supervised h args capability =
     (case h_spawn h (real_shell h) args of
        Some _ \<Rightarrow> ([], ReturnErr (''failed to spawn real shell `'' @ real_shell h @ ''`''))
      | None \<Rightarrow>
         (case supervise (h_signals h) of
            (es, None) \<Rightarrow> (RunShell (real_shell h) args True # es, StillWaiting)
          | (es, Some (Err e)) \<Rightarrow> (RunShell (real_shell h) args True # es, ReturnErr e)
          | (es, Some (Ok code)) \<Rightarrow>
              (RunShell (real_shell h) args True # es
                 @ emit_outcome h capability (code = 0) (Some code), ExitCode code)))"

fun deny_text :: "string option \<Rightarrow> string option \<Rightarrow> string" where
  "deny_text (Some cap) forced = ''capability: '' @ cap"
| "deny_text None (Some reason) = reason"
| "deny_text None None = ''no matching allow''"

definition deny :: "string \<Rightarrow> string option \<Rightarrow> string option \<Rightarrow> Effect list \<times> Outcome" where
  "deny command capability forced =
     ([Stderr (''DENIED by orkia-cage ('' @ deny_text capability forced @ ''): '' @ command)], ExitCode 126)"

definition mediate :: "Host \<Rightarrow> string list \<Rightarrow> string \<Rightarrow> Effect list \<times> Outcome" where
  "mediate h args raw_command =
     (case decide h raw_command of
        D_Allow command capability rule \<Rightarrow>
          (case emit h command Allow capability rule of
             (es, Err _) \<Rightarrow> (es, ReturnErr ''refusing to run: cage.verdict audit write failed (fail-closed)'')
           | (es, Ok _) \<Rightarrow>
              (let (es', out) = (if h_linux h then run_supervised h args capability
                                 else exec_real_shell h args True)
               in (es @ es', out)))
      | D_Deny command capability rule forced_reason \<Rightarrow>
          (let (es', out) = deny command capability forced_reason
           in (emit_best_effort h command Deny capability rule @ es', out))
      | D_Ask command capability rule \<Rightarrow>
          (let (es', out) = deny command capability None
           in (emit_best_effort h command Ask capability rule @ es', out)))"

subsection \<open>The hook entry mode\<close>

definition mediated_tools :: "string list" where
  "mediated_tools = [''Bash'']"

definition caged :: "Host \<Rightarrow> bool" where
  "caged h \<longleftrightarrow> h_env h POLICY_ENV \<noteq> None"

fun capability_of :: "Decision \<Rightarrow> string option" where
  "capability_of (D_Allow c capability r) = capability"
| "capability_of (D_Deny c capability r f) = capability"
| "capability_of (D_Ask c capability r) = capability"

definition flag_of :: "string \<Rightarrow> Json \<Rightarrow> bool" where
  "flag_of k r = (case Option.bind (json_get k r) json_as_bool of Some b \<Rightarrow> b | None \<Rightarrow> False)"

definition outcome_signal :: "Json option \<Rightarrow> bool \<times> int option" where
  "outcome_signal resp =
     (case resp of
        None \<Rightarrow> (True, None)
      | Some r \<Rightarrow>
         (case Option.bind (json_get ''exit_code'' r) json_as_int of
            Some code \<Rightarrow> (code = 0, Some code)
          | None \<Rightarrow> (\<not> (flag_of ''interrupted'' r \<or> flag_of ''is_error'' r \<or> flag_of ''isError'' r), None)))"

definition deny_reason :: "string option \<Rightarrow> string option \<Rightarrow> string" where
  "deny_reason capability forced = ''DENIED by orkia-cage ('' @ deny_text capability forced @ '')''"

definition emit_decision :: "string \<Rightarrow> string \<Rightarrow> Effect list" where
  "emit_decision decision reason =
     [Stdout (JObj [(''hookSpecificOutput'',
        JObj [(''hookEventName'', JStr ''PreToolUse''), (''permissionDecision'', JStr decision),
              (''permissionDecisionReason'', JStr reason)])])]"

definition act :: "Host \<Rightarrow> Decision \<Rightarrow> Effect list" where
  "act h d =
     (case d of
        D_Allow command capability rule \<Rightarrow>
          (case emit h command Allow capability rule of
             (es, Ok _) \<Rightarrow> es
           | (es, Err e) \<Rightarrow> es @ emit_decision ''deny'' (''audit write failed (fail-closed): '' @ e))
      | D_Deny command capability rule forced_reason \<Rightarrow>
          emit_best_effort h command Deny capability rule
            @ emit_decision ''deny'' (deny_reason capability forced_reason)
      | D_Ask command capability rule \<Rightarrow>
          emit_best_effort h command Ask capability rule
            @ emit_decision ''deny'' (deny_reason capability None))"

definition record_outcome :: "Host \<Rightarrow> string \<Rightarrow> Json \<Rightarrow> Effect list" where
  "record_outcome h command parsed =
     (let capability = capability_of (decide h command);
          (success, exit_code) = outcome_signal (json_get ''tool_response'' parsed)
      in emit_outcome h capability success exit_code)"

definition hook_run :: "Host \<Rightarrow> Effect list \<times> Outcome" where
  "hook_run h =
     (case h_stdin h of
        None \<Rightarrow> ([], ReturnErr ''reading PreToolUse JSON from stdin'')
      | Some input \<Rightarrow>
         (let parsed = (case h_json h input of Some j \<Rightarrow> j | None \<Rightarrow> JNull);
              tool = (case Option.bind (json_get ''tool_name'' parsed) json_as_str of Some t \<Rightarrow> t | None \<Rightarrow> [])
          in if tool \<notin> set mediated_tools then ([], ReturnOk)
             else case Option.bind (Option.bind (json_get ''tool_input'' parsed) (json_get ''command'')) json_as_str of
                    None \<Rightarrow> ([Stderr ''orkia-cage: hook could not read the Bash command; deferring''], ReturnOk)
                  | Some command \<Rightarrow>
                      if \<not> caged h then ([], ReturnOk)
                      else if Option.bind (json_get ''hook_event_name'' parsed) json_as_str = Some ''PostToolUse''
                           then (record_outcome h command parsed, ReturnOk)
                           else (act h (decide h command), ReturnOk)))"

definition sh_main :: "Host \<Rightarrow> string list \<Rightarrow> Effect list \<times> Outcome" where
  "sh_main h args =
     (if args \<noteq> [] \<and> hd args = ''hook'' then hook_run h
      else case dash_c_command args of
             None \<Rightarrow> exec_real_shell h args False
           | Some command \<Rightarrow>
              (if h_env h CLEARED_ENV \<noteq> None then exec_real_shell h args False
               else mediate h args command))"

section \<open>Recovering a wrapped command\<close>

lemma unwrap_loop_escape:
  "\<not> prefix [BS, SQ, SQ] rest \<Longrightarrow> unwrap_loop out (sh_escape w @ SQ # rest) = Some (out @ w)"
  by (induction w arbitrary: out) simp_all

lemma marker_not_earlier:
  assumes "SQ \<notin> set pre" and "j < length pre"
  shows "\<not> prefix eval_marker (drop j pre @ eval_marker @ rest)"
proof
  let ?d = "drop j pre"
  assume "prefix eval_marker (?d @ eval_marker @ rest)"
  then have "(?d @ eval_marker @ rest) ! 5 = SQ"
    by (auto simp: prefix_def eval_marker_def)
  moreover have "length ?d > 0" using assms(2) by simp
  moreover have "?d ! 5 \<noteq> SQ" if "5 < length ?d"
    using assms(1) nth_mem [OF that] by (metis in_set_dropD)
  moreover have "(eval_marker @ rest) ! k \<noteq> SQ" if "k < 5" for k
    using that by (auto simp: eval_marker_def less_Suc_eq numeral_eq_Suc)
  then have "(eval_marker @ rest) ! (5 - length ?d) \<noteq> SQ" if "\<not> 5 < length ?d"
    using \<open>length ?d > 0\<close> by simp
  ultimately show False
    using nth_append [of ?d "eval_marker @ rest" 5] by (cases "5 < length ?d") simp_all
qed

lemma extract_wrapped:
  assumes "SQ \<notin> set pre" and "\<not> prefix [BS, SQ, SQ] rest"
  shows "extract_command (pre @ eval_marker @ sh_escape w @ SQ # rest) = Command w"
proof -
  have "find_sub eval_marker (pre @ eval_marker @ sh_escape w @ SQ # rest) = Some (length pre)"
    using marker_not_earlier [OF assms(1)] by (intro find_sub_first) blast
  then show ?thesis
    by (simp add: extract_command_def str_contains_def unwrap_eval_def unwrap_loop_escape [OF assms(2)])
qed

section \<open>What the two entry modes do with a decision\<close>

definition is_run :: "Effect \<Rightarrow> bool" where
  "is_run e = (case e of RunShell _ _ _ \<Rightarrow> True | _ \<Rightarrow> False)"

definition is_reply :: "Effect \<Rightarrow> bool" where
  "is_reply e = (case e of Stdout _ \<Rightarrow> True | _ \<Rightarrow> False)"

lemma is_run_simps [simp]:
  "is_run (RunShell s a c)" "\<not> is_run (Recorded env)" "\<not> is_run (Forwarded n)"
  "\<not> is_run (Stderr m)" "\<not> is_run (Stdout j)"
  by (simp_all add: is_run_def)

lemma is_reply_simps [simp]:
  "is_reply (Stdout j)" "\<not> is_reply (Recorded env)" "\<not> is_reply (Forwarded n)"
  "\<not> is_reply (Stderr m)" "\<not> is_reply (RunShell s a c)"
  by (simp_all add: is_reply_def)

lemma send_effects [simp]:
  "\<not> list_ex is_run (fst (send h env))" "\<not> list_ex is_reply (fst (send h env))"
  by (simp_all add: send_def split: option.splits)

lemma emit_effects [simp]:
  "\<not> list_ex is_run (fst (emit h c v cap r))" "\<not> list_ex is_reply (fst (emit h c v cap r))"
  "\<not> list_ex is_run (emit_best_effort h c v cap r)" "\<not> list_ex is_reply (emit_best_effort h c v cap r)"
  "\<not> list_ex is_run (emit_outcome h cap b x)" "\<not> list_ex is_reply (emit_outcome h cap b x)"
  by (simp_all add: emit_def emit_best_effort_def emit_outcome_def)

lemma emit_cases:
  obtains (delivered) "emit h c v cap r =
      ([Recorded (stamp_routing h (build_envelope (h_now h) c v cap r))], Ok ())"
  | (failed) e where "emit h c v cap r = ([], Err e)"
  by (cases "h_send h (socket_path h) (stamp_routing h (build_envelope (h_now h) c v cap r))")
     (auto simp: emit_def send_def)

definition recorded_ok :: "Host \<Rightarrow> string \<Rightarrow> Verdict \<Rightarrow> string option \<Rightarrow> string option \<Rightarrow> bool" where
  "recorded_ok h c v cap r \<longleftrightarrow> is_ok (snd (emit h c v cap r))"

lemma decide_Allow:
  "decide h raw = D_Allow cmd cap rule \<longleftrightarrow>
   (\<exists>pol. load_policy h = Ok pol \<and> extract_command raw = Command cmd \<and>
      cc_exec (Policy.caps pol) \<and> evaluate_match pol cmd = PD_Allow cap rule)"
  by (auto simp: decide_def forced_deny_def evaluate_def
      split: Extracted.splits sum.splits PolicyDecision.splits if_splits)

lemma run_shell_effects:
  "list_ex is_run (fst (run_supervised h args cap)) \<Longrightarrow>
   \<exists>es. fst (run_supervised h args cap) = RunShell (real_shell h) args True # es"
  "list_ex is_run (fst (exec_real_shell h args b)) \<Longrightarrow>
   fst (exec_real_shell h args b) = [RunShell (real_shell h) args b]"
  by (auto simp: run_supervised_def exec_real_shell_def split: option.splits prod.splits sum.splits)

lemma mediate_not_allowed:
  assumes "\<nexists>cmd cap rule. decide h raw = D_Allow cmd cap rule"
  shows "\<not> list_ex is_run (fst (mediate h args raw)) \<and> snd (mediate h args raw) = ExitCode 126"
  using assms by (auto simp: mediate_def deny_def split: Decision.splits)

lemma mediate_runs:
  assumes "list_ex is_run (fst (mediate h args raw))"
  shows "\<exists>cmd cap rule es. decide h raw = D_Allow cmd cap rule \<and>
           fst (mediate h args raw) =
             Recorded (stamp_routing h (build_envelope (h_now h) cmd Allow cap rule))
             # RunShell (real_shell h) args True # es"
proof -
  obtain cmd cap rule where d: "decide h raw = D_Allow cmd cap rule"
    using mediate_not_allowed [of h raw args] assms by blast
  show ?thesis
  proof (cases rule: emit_cases [of h cmd Allow cap rule])
    case delivered
    with d assms run_shell_effects(1) [of h args cap] run_shell_effects(2) [of h args True]
    show ?thesis by (auto simp: mediate_def split: prod.splits if_splits)
  next
    case (failed e)
    with d assms show ?thesis by (simp add: mediate_def)
  qed
qed

lemma act_reply:
  "list_ex is_reply (act h d) \<longleftrightarrow>
     (case d of D_Allow cmd cap rule \<Rightarrow> \<not> recorded_ok h cmd Allow cap rule | _ \<Rightarrow> True)"
proof (cases d)
  case (D_Allow cmd cap rule)
  then show ?thesis
    by (cases rule: emit_cases [of h cmd Allow cap rule])
       (simp_all add: act_def emit_decision_def recorded_ok_def)
qed (simp_all add: act_def emit_decision_def)

lemma mediate_run_iff:
  assumes "h_exec h (real_shell h) args = None" and "h_spawn h (real_shell h) args = None"
  shows "list_ex is_run (fst (mediate h args raw)) \<longleftrightarrow>
     (case decide h raw of D_Allow cmd cap rule \<Rightarrow> recorded_ok h cmd Allow cap rule | _ \<Rightarrow> False)"
proof (cases "decide h raw")
  case (D_Allow cmd cap rule)
  then show ?thesis
    by (cases rule: emit_cases [of h cmd Allow cap rule])
       (auto simp: mediate_def recorded_ok_def run_supervised_def exec_real_shell_def assms
         split: prod.splits option.splits sum.splits)
qed (use mediate_not_allowed [of h raw args] in auto)

lemma supervise_spec:
  "list_all (\<lambda>e. \<exists>n. e = SigOther n \<or> e = SigChld StillAlive) pre \<Longrightarrow>
   supervise (pre @ SigChld (Exited code) # post) =
     (map Forwarded (concat (map (\<lambda>e. case e of SigOther n \<Rightarrow> [n] | _ \<Rightarrow> []) pre)), Some (Ok code))"
  by (induction pre) auto

section \<open>Properties of the shim\<close>

text \<open>A host with a policy, a listening journal and a child that exits at once.\<close>

definition sample_host :: Host where
  "sample_host =
     \<lparr>h_env = [POLICY_ENV \<mapsto> ''/p.toml''], h_read = [''/p.toml'' \<mapsto> ''policy''],
      h_toml = [''policy'' \<mapsto> sample_policy], h_json = \<lambda>_. None, h_stdin = None, h_now = ''t0'',
      h_send = \<lambda>_ _. None, h_exec = \<lambda>_ _. None, h_spawn = \<lambda>_ _. None,
      h_signals = [SigOther 28, SigChld (Exited 0)], h_linux = True\<rparr>"

text \<open>C2. In the shell entry mode a mediated command reaches the real shell only when the
  policy could be loaded, its exec class is open and the decision on the recovered
  command is Allow, and only after the audit record of exactly that decision was
  delivered; the first two effects of the run are the record and the shell.\<close>

theorem shell_runs_only_audited_allow:
  assumes "args \<noteq> [] \<and> hd args \<noteq> ''hook''" and "dash_c_command args = Some raw"
    and "h_env h CLEARED_ENV = None" and "list_ex is_run (fst (sh_main h args))"
  shows "\<exists>pol cmd cap rule es. load_policy h = Ok pol \<and> extract_command raw = Command cmd \<and>
           cc_exec (Policy.caps pol) \<and> evaluate_match pol cmd = PD_Allow cap rule \<and>
           fst (sh_main h args) =
             Recorded (stamp_routing h (build_envelope (h_now h) cmd Allow cap rule))
             # RunShell (real_shell h) args True # es"
proof -
  have main: "sh_main h args = mediate h args raw" using assms(1-3) by (simp add: sh_main_def)
  with assms(4) mediate_runs [of h args raw] show ?thesis
    unfolding main decide_Allow by blast
qed

theorem shell_runs_only_audited_allow_witness:
  "\<exists>pol cmd cap rule es. load_policy sample_host = Ok pol \<and> extract_command ''echo hi'' = Command cmd \<and>
     cc_exec (Policy.caps pol) \<and> evaluate_match pol cmd = PD_Allow cap rule \<and>
     fst (sh_main sample_host [''-c'', ''echo hi'']) =
       Recorded (stamp_routing sample_host (build_envelope (h_now sample_host) cmd Allow cap rule))
       # RunShell (real_shell sample_host) [''-c'', ''echo hi''] True # es"
proof (rule shell_runs_only_audited_allow)
  show "[''-c'', ''echo hi''] \<noteq> [] \<and> hd [''-c'', ''echo hi''] \<noteq> ''hook''" by code_simp
  show "dash_c_command [''-c'', ''echo hi''] = Some ''echo hi''" by code_simp
  show "h_env sample_host CLEARED_ENV = None" by code_simp
  show "list_ex is_run (fst (sh_main sample_host [''-c'', ''echo hi'']))" by code_simp
qed

text \<open>C3. The shim fails closed: when the policy is missing, unreadable or malformed, when
  the agent's envelope cannot be unwrapped, when the exec class is closed, or when the
  decision is not Allow, no shell is run and the exit code is 126.\<close>

theorem shim_fails_closed:
  assumes "\<nexists>pol cmd. load_policy h = Ok pol \<and> extract_command raw = Command cmd \<and>
      cc_exec (Policy.caps pol) \<and> tier (evaluate_match pol cmd) = 0"
  shows "\<not> list_ex is_run (fst (mediate h args raw)) \<and> snd (mediate h args raw) = ExitCode 126"
proof (rule mediate_not_allowed)
  show "\<nexists>cmd cap rule. decide h raw = D_Allow cmd cap rule"
    using assms by (fastforce simp: decide_Allow)
qed

theorem shim_fails_closed_witness:
  "snd (mediate (sample_host\<lparr>h_read := \<lambda>_. None\<rparr>) [''-c'', ''echo hi''] ''echo hi'') = ExitCode 126 \<and>
   snd (mediate sample_host [''-c'', ''git push''] ''git push'') = ExitCode 126"
proof -
  have "load_policy (sample_host\<lparr>h_read := \<lambda>_. None\<rparr>) = Err ''reading policy /p.toml''" by code_simp
  moreover have "load_policy sample_host = Ok sample_policy" by (simp add: load_policy_def sample_host_def)
  moreover have "extract_command ''git push'' = Command ''git push''" by code_simp
  moreover have "tier (evaluate_match sample_policy ''git push'') = 2" by code_simp
  ultimately show ?thesis
    using shim_fails_closed [of "sample_host\<lparr>h_read := \<lambda>_. None\<rparr>" "''echo hi''" "[''-c'', ''echo hi'']"]
      shim_fails_closed [of sample_host "''git push''" "[''-c'', ''git push'']"]
    by auto
qed

text \<open>Unwrapping inverts the agent's quoting: a command written between single quotes
  after the first eval of the call is recovered exactly, whatever characters it holds
  and whatever the wrapper does afterwards.\<close>

lemma extract_command_roundtrip:
  assumes "SQ \<notin> set pre" and "\<not> prefix [BS, SQ, SQ] rest"
  shows "extract_command (pre @ eval_marker @ sh_escape w @ SQ # rest) = Command w"
  using assms by (rule extract_wrapped)

text \<open>The two entry modes agree: for the same call on the same host, the hook stays
  silent exactly when the shell mode would start the shell.\<close>

lemma hook_agrees_with_shell:
  assumes "h_exec h (real_shell h) args = None" and "h_spawn h (real_shell h) args = None"
  shows "list_ex is_reply (act h (decide h raw)) \<longleftrightarrow> \<not> list_ex is_run (fst (mediate h args raw))"
  by (auto simp: act_reply mediate_run_iff [OF assms] split: Decision.splits)

text \<open>The supervisor forwards every signal that is not about its child, in order, keeps
  waiting while the child is only stopped, and exits with the child's own code.\<close>

lemma supervise_exit:
  assumes "list_all (\<lambda>e. \<exists>n. e = SigOther n \<or> e = SigChld StillAlive) pre"
  shows "supervise (pre @ SigChld (Exited code) # post) =
     (map Forwarded (concat (map (\<lambda>e. case e of SigOther n \<Rightarrow> [n] | _ \<Rightarrow> []) pre)), Some (Ok code))"
  using assms by (rule supervise_spec)

text \<open>Only flag clusters that end in c and hold nothing but lower-case letters are
  recognised as command mode. A call without such a cluster is handed to the real
  shell as it is, without a decision and without a record, although bash also takes
  the command from a cluster such as -ce.\<close>

lemma unrecognised_flags_bypass:
  assumes "list_all (\<lambda>a. \<not> is_command_flag a) args" and "args = [] \<or> hd args \<noteq> ''hook''"
    and "h_exec h (real_shell h) args = None"
  shows "sh_main h args = ([RunShell (real_shell h) args False], Replaced)"
proof -
  have "dropWhile (\<lambda>a. \<not> is_command_flag a) args = []"
    using assms(1) by (simp add: dropWhile_eq_Nil_conv list_all_iff)
  then have "dash_c_command args = None" by (simp only: dash_c_command_def list.case)
  then show ?thesis
    using assms(2,3) by (auto simp: sh_main_def exec_real_shell_def)
qed

end
