(* ===== verification/Rfc_Types.thy ===== *)
theory Rfc_Types
  imports Orkia_Prelude
begin

section \<open>RFC data, lifecycle and permissions\<close>

text \<open>
  Models the data and the pure functions of \<^verbatim>\<open>crates/orkia-rfc-core/src\<close>: identifiers
  (\<^verbatim>\<open>id.rs\<close>), errors (\<^verbatim>\<open>error.rs\<close>), the lifecycle (\<^verbatim>\<open>state.rs\<close>), the tool matrix (\<^verbatim>\<open>matrix.rs\<close>),
  decision records and their counters (\<^verbatim>\<open>decision.rs\<close>), the frontmatter types
  (\<^verbatim>\<open>frontmatter.rs\<close>, \<^verbatim>\<open>scope.rs\<close>). Time stamps are integers; counters of a decision log are
  natural numbers, since the log is capped far below 2^32 entries.
\<close>

subsection \<open>Identifiers\<close>

type_synonym RfcId = string
type_synonym AgentId = string
type_synonym SectionPath = string
type_synonym DecisionId = string
type_synonym ContentHash = string
type_synonym Time = int

subsection \<open>Lifecycle states\<close>

datatype RfcState = DraftEmpty | DraftActive | Active | Archived | Completed | Abandoned

fun is_terminal :: "RfcState \<Rightarrow> bool" where
  "is_terminal Completed = True"
| "is_terminal Abandoned = True"
| "is_terminal Archived = True"
| "is_terminal _ = False"

fun is_draft :: "RfcState \<Rightarrow> bool" where
  "is_draft DraftEmpty = True"
| "is_draft DraftActive = True"
| "is_draft _ = False"

datatype Transition = ResolveClarifications | Promote | Complete | Abandon | Reopen

record TransitionCtx =
  tc_open_clarifications :: nat
  tc_unreviewed_decisions :: nat
  tc_dispatch_done :: bool

definition default_ctx :: TransitionCtx where
  "default_ctx = \<lparr>tc_open_clarifications = 0, tc_unreviewed_decisions = 0, tc_dispatch_done = True\<rparr>"

subsection \<open>Errors\<close>

datatype RfcError =
    NotFound RfcId string
  | InvalidState RfcId RfcState string string
  | Locked RfcId AgentId string
  | StaleSnapshot ContentHash ContentHash string
  | RationaleRequired string
  | SectionGuarded SectionPath string string
  | Io_Error string string
  | Frontmatter_Error string
  | DecisionNotResolvable RfcId DecisionId string string

definition rfc_io :: "string \<times> string \<Rightarrow> RfcError" where
  "rfc_io te = Io_Error (fst te) (snd te)"

subsection \<open>Transitions\<close>

fun transition_name :: "Transition \<Rightarrow> string" where
  "transition_name ResolveClarifications = ''resolve_clarifications''"
| "transition_name Promote = ''promote''"
| "transition_name Complete = ''complete''"
| "transition_name Abandon = ''abandon''"
| "transition_name Reopen = ''reopen''"

definition educational_hint :: "RfcState \<Rightarrow> Transition \<Rightarrow> string" where
  "educational_hint state t =
     (if state = DraftEmpty \<and> t = Promote
      then ''RFC is in draft-empty. Use orkia_rfc_ask to gather requirements first.''
      else if state = Archived
      then ''This version is archived. Work on the current version instead.''
      else if (state = Completed \<or> state = Abandoned) \<and> t \<noteq> Reopen
      then ''RFC is in a terminal state. Use `rfc reopen` to start a new version.''
      else ''Operation not permitted from this state.'')"

definition validate_transition :: "RfcId \<Rightarrow> RfcState \<Rightarrow> Transition \<Rightarrow> TransitionCtx \<Rightarrow> (RfcError, RfcState) result" where
  "validate_transition rfc_id from t ctx =
     (case (from, t) of
        (DraftEmpty, ResolveClarifications) \<Rightarrow>
          (if tc_open_clarifications ctx = 0 then Ok DraftActive
           else Err (InvalidState rfc_id from ''resolve_clarifications''
             (show_nat (tc_open_clarifications ctx)
                @ '' open clarifications remain. Resolve them before promoting.'')))
      | (DraftActive, Promote) \<Rightarrow>
          (if tc_unreviewed_decisions ctx > 0
           then Err (InvalidState rfc_id from ''promote''
             (show_nat (tc_unreviewed_decisions ctx)
                @ '' design decisions await review. Use `rfc review` first.''))
           else Ok Active)
      | (Active, Complete) \<Rightarrow>
          (if \<not> tc_dispatch_done ctx
           then Err (InvalidState rfc_id from ''complete''
             ''Dispatch is still running. Wait for jobs to finish.'')
           else Ok Completed)
      | (Active, Abandon) \<Rightarrow> Ok Abandoned
      | (DraftActive, Abandon) \<Rightarrow> Ok Abandoned
      | (Active, Reopen) \<Rightarrow> Ok DraftActive
      | (Completed, Reopen) \<Rightarrow> Ok DraftActive
      | (Abandoned, Reopen) \<Rightarrow> Ok DraftActive
      | (state, _) \<Rightarrow> Err (InvalidState rfc_id state (transition_name t) (educational_hint state t)))"

subsection \<open>The tool matrix\<close>

datatype RfcTool = GetContext | State | ListDecisions | AskTool | LogDecision | ProposeEdit | ProposePromote

fun tool_name :: "RfcTool \<Rightarrow> string" where
  "tool_name GetContext = ''orkia_rfc_get_context''"
| "tool_name State = ''orkia_rfc_state''"
| "tool_name ListDecisions = ''orkia_rfc_list_decisions''"
| "tool_name AskTool = ''orkia_rfc_ask''"
| "tool_name LogDecision = ''orkia_rfc_log_decision''"
| "tool_name ProposeEdit = ''orkia_rfc_propose_edit''"
| "tool_name ProposePromote = ''orkia_rfc_propose_promote''"

fun state_debug :: "RfcState \<Rightarrow> string" where
  "state_debug DraftEmpty = ''DraftEmpty''"
| "state_debug DraftActive = ''DraftActive''"
| "state_debug Active = ''Active''"
| "state_debug Archived = ''Archived''"
| "state_debug Completed = ''Completed''"
| "state_debug Abandoned = ''Abandoned''"

definition tool_allowed :: "RfcState \<Rightarrow> RfcTool \<Rightarrow> (string, unit) result" where
  "tool_allowed state tool =
     (if tool \<in> {GetContext, State, ListDecisions} then Ok ()
      else case (state, tool) of
        (DraftEmpty, AskTool) \<Rightarrow> Ok ()
      | (DraftActive, AskTool) \<Rightarrow> Ok ()
      | (Active, AskTool) \<Rightarrow>
          Err ''Active RFCs do not accept ad-hoc clarifications. Use job-level questions instead.''
      | (DraftEmpty, LogDecision) \<Rightarrow>
          Err ''RFC is in draft-empty. Use orkia_rfc_ask to gather requirements first.''
      | (DraftActive, LogDecision) \<Rightarrow> Ok ()
      | (Active, LogDecision) \<Rightarrow>
          Err ''Design decisions during Active are tracked at the job level, not on the RFC.''
      | (DraftEmpty, ProposeEdit) \<Rightarrow>
          Err ''RFC in draft-empty. Body sections locked. Resolve clarifications first.''
      | (DraftActive, ProposeEdit) \<Rightarrow> Ok ()
      | (Active, ProposeEdit) \<Rightarrow>
          Err ''Active RFCs are soft-locked. Use orkia_rfc_propose_amendment (see DISPATCH spec).''
      | (DraftActive, ProposePromote) \<Rightarrow> Ok ()
      | (st, _) \<Rightarrow> Err (''Operation not permitted in '' @ state_debug st
                        @ ''. Read-only access via get_context.''))"

subsection \<open>Decision records\<close>

datatype DecisionKind =
    Clarification | ClarificationResolved | DesignProposed | DesignReviewed
  | DispatchOutput | AcceptanceVerdict | GlobalVerdict | ReplanDecision

fun kind_str :: "DecisionKind \<Rightarrow> string" where
  "kind_str Clarification = ''clarification''"
| "kind_str ClarificationResolved = ''clarification_resolved''"
| "kind_str DesignProposed = ''design_proposed''"
| "kind_str DesignReviewed = ''design_reviewed''"
| "kind_str DispatchOutput = ''dispatch_output''"
| "kind_str AcceptanceVerdict = ''acceptance_verdict''"
| "kind_str GlobalVerdict = ''global_verdict''"
| "kind_str ReplanDecision = ''replan_decision''"

datatype DecisionStatus = DS_Open | DS_Resolved | DS_Proposed | DS_Reviewed

record DecisionRecord =
  dr_id :: DecisionId
  dr_rfc_id :: RfcId
  dr_rfc_version :: "32 word"
  dr_ts :: Time
  dr_actor :: AgentId
  dr_kind :: DecisionKind
  dr_content :: Json
  dr_status :: DecisionStatus
  dr_prev_hash :: string
  dr_hash :: string

record DecisionCounts =
  dc_open_clarifications :: nat
  dc_unreviewed_decisions :: nat

text \<open>
  \<open>latest\<close> is the hash map the counter builds: inserting a record under an id already
  present replaces the one before. Its values are then counted in any order.
\<close>

definition latest_insert :: "(DecisionId \<times> DecisionRecord) list \<Rightarrow> DecisionRecord \<Rightarrow> (DecisionId \<times> DecisionRecord) list" where
  "latest_insert m r = hm_insert (dr_id r) r m"

definition count_step :: "DecisionCounts \<Rightarrow> DecisionRecord \<Rightarrow> DecisionCounts" where
  "count_step counts r =
     (if dr_kind r = Clarification \<and> dr_status r = DS_Open
      then counts\<lparr>dc_open_clarifications := dc_open_clarifications counts + 1\<rparr>
      else if dr_kind r = DesignProposed \<and> dr_status r = DS_Proposed
      then counts\<lparr>dc_unreviewed_decisions := dc_unreviewed_decisions counts + 1\<rparr>
      else counts)"

definition counts_from :: "DecisionRecord list \<Rightarrow> DecisionCounts" where
  "counts_from records =
     foldl count_step \<lparr>dc_open_clarifications = 0, dc_unreviewed_decisions = 0\<rparr>
       (map snd (foldl latest_insert [] records))"

subsection \<open>Frontmatter\<close>

datatype Scope = Private | Team | Public

fun scope_str :: "Scope \<Rightarrow> string" where
  "scope_str Private = ''private''"
| "scope_str Team = ''team''"
| "scope_str Public = ''public''"

record OperatorConstraints =
  oc_allowed_paths :: "string list"
  oc_forbidden_paths :: "string list"
  oc_forbidden_commands :: "string list"
  oc_risk_ceiling :: "string option"
  oc_watch_paths :: "string list"
  oc_contract_paths :: "string list"

record OperatorFrontmatterBlock =
  ob_constraints :: "OperatorConstraints option"

record DispatchTaskBlock =
  dt_id :: string
  dt_agent :: string
  dt_body :: string
  dt_depends_on :: "string list"
  dt_accept :: "string option"
  dt_max_attempts :: "nat option"

record DispatchFrontmatterBlock =
  db_strategy :: string
  db_max_inflight :: nat
  db_aggregation :: "string option"
  db_on_task_fail :: string
  db_accept :: "string option"
  db_max_replans :: "nat option"
  db_tasks :: "DispatchTaskBlock list"

record ForgeAgentTools =
  fat_fetch :: bool
  fat_shell :: bool
  fat_filesystem :: bool

record ForgeAgentBlock =
  fa_archetype :: string
  fa_description :: "string option"
  fa_model :: "string option"
  fa_max_invocations_per_hour :: "32 word option"
  fa_max_cost_cents_per_invocation :: "32 word option"
  fa_system_prompt :: string
  fa_tools :: ForgeAgentTools

record ForgeWindow =
  fw_title :: string
  fw_width :: "32 word"
  fw_height :: "32 word"
  fw_resizable :: bool

record ForgePermissions =
  fp_storage :: bool
  fp_agent :: bool
  fp_network :: "string list"
  fp_notification :: bool

definition default_forge_permissions :: ForgePermissions where
  "default_forge_permissions =
     \<lparr>fp_storage = True, fp_agent = False, fp_network = [], fp_notification = False\<rparr>"

record ForgeFrontmatterBlock =
  ff_name :: string
  ff_description :: string
  ff_icon :: "string option"
  ff_window :: ForgeWindow
  ff_permissions :: ForgePermissions
  ff_agent :: "ForgeAgentBlock option"

record RfcFrontmatter =
  fm_id :: RfcId
  fm_state :: RfcState
  fm_version :: "32 word"
  fm_created_at :: Time
  fm_updated_at :: Time
  fm_content_hash :: ContentHash
  fm_agents :: "AgentId list"
  fm_locked_by :: "AgentId option"
  fm_locked_at :: "Time option"
  fm_title :: "string option"
  fm_status :: "string option"
  fm_assigned :: "string list option"
  fm_kind :: "string option"
  fm_forge :: "ForgeFrontmatterBlock option"
  fm_scope :: "Scope option"
  fm_operator :: "OperatorFrontmatterBlock option"
  fm_dispatch :: "DispatchFrontmatterBlock option"

section \<open>Counting decisions\<close>

lemma latest_insert_map_of: "map_of (latest_insert m r) = (map_of m)(dr_id r \<mapsto> r)"
  by (simp add: latest_insert_def)

lemma latest_insert_distinct: "distinct (map fst m) \<Longrightarrow> distinct (map fst (latest_insert m r))"
  by (simp add: latest_insert_def)

text \<open>The last record of an id, as a specification over the log.\<close>

definition latest_of :: "DecisionRecord list \<Rightarrow> DecisionId \<Rightarrow> DecisionRecord option" where
  "latest_of rs i = find (\<lambda>r. dr_id r = i) (rev rs)"

lemma latest_of_Nil: "latest_of [] i = None"
  by (simp add: latest_of_def)

lemma latest_of_snoc: "latest_of (rs @ [r]) = (latest_of rs)(dr_id r \<mapsto> r)"
  by (auto simp: latest_of_def fun_eq_iff)

lemma latest_fold:
  "map_of (foldl latest_insert [] rs) = latest_of rs \<and> distinct (map fst (foldl latest_insert [] rs))"
proof (induction rs rule: rev_induct)
  case Nil
  then show ?case by (auto simp: latest_of_def fun_eq_iff)
next
  case (snoc r rs)
  then show ?case by (simp add: latest_insert_map_of latest_insert_distinct latest_of_snoc)
qed

definition pending_kind :: "DecisionKind \<Rightarrow> DecisionStatus \<Rightarrow> DecisionRecord \<Rightarrow> bool" where
  "pending_kind k s r \<longleftrightarrow> dr_kind r = k \<and> dr_status r = s"

lemma count_fold:
  "foldl count_step c rs =
     c\<lparr>dc_open_clarifications := dc_open_clarifications c + length (filter (pending_kind Clarification DS_Open) rs),
       dc_unreviewed_decisions := dc_unreviewed_decisions c + length (filter (pending_kind DesignProposed DS_Proposed) rs)\<rparr>"
  by (induction rs arbitrary: c) (auto simp: count_step_def pending_kind_def)

lemma length_filter_assoc:
  assumes "distinct (map fst m)"
  shows "length (filter P (map snd m)) = card {i. \<exists>r. map_of m i = Some r \<and> P r}"
proof -
  have "{i. \<exists>r. map_of m i = Some r \<and> P r} = fst ` set (filter (\<lambda>p. P (snd p)) m)"
    using assms by (force simp: image_iff)
  moreover have "card (fst ` set (filter (\<lambda>p. P (snd p)) m)) = length (filter (\<lambda>p. P (snd p)) m)"
    using assms distinct_card [of "map fst (filter (\<lambda>p. P (snd p)) m)"]
    by (simp add: distinct_map_filter)
  ultimately show ?thesis by (simp add: filter_map comp_def)
qed

lemma counts_from_spec:
  "dc_open_clarifications (counts_from rs) =
     card {i. \<exists>r. latest_of rs i = Some r \<and> pending_kind Clarification DS_Open r}"
  "dc_unreviewed_decisions (counts_from rs) =
     card {i. \<exists>r. latest_of rs i = Some r \<and> pending_kind DesignProposed DS_Proposed r}"
  using latest_fold [of rs] length_filter_assoc [of "foldl latest_insert [] rs"]
  by (simp_all add: counts_from_def count_fold)

text \<open>A counter is zero exactly when no id is left in that state.\<close>

lemma latest_of_id: "latest_of rs i = Some r \<Longrightarrow> dr_id r = i \<and> r \<in> set rs"
  by (induction rs rule: rev_induct) (auto simp: latest_of_snoc latest_of_Nil split: if_splits)

lemma finite_latest: "finite {i. \<exists>r. latest_of rs i = Some r \<and> P r}"
  by (rule finite_subset [of _ "dr_id ` set rs"]) (auto dest: latest_of_id)

lemma counts_zero_iff:
  "dc_open_clarifications (counts_from rs) = 0 \<longleftrightarrow>
     (\<forall>i r. latest_of rs i = Some r \<longrightarrow> \<not> pending_kind Clarification DS_Open r)"
  "dc_unreviewed_decisions (counts_from rs) = 0 \<longleftrightarrow>
     (\<forall>i r. latest_of rs i = Some r \<longrightarrow> \<not> pending_kind DesignProposed DS_Proposed r)"
  unfolding counts_from_spec by (auto simp: finite_latest)

section \<open>The lifecycle\<close>

lemma validate_transition_Ok_iff:
  "validate_transition rid frm t ctx = Ok to \<longleftrightarrow>
     (frm, t, to) \<in> {(DraftEmpty, ResolveClarifications, DraftActive), (DraftActive, Promote, Active),
       (Active, Complete, Completed), (Active, Abandon, Abandoned), (DraftActive, Abandon, Abandoned),
       (Active, Reopen, DraftActive), (Completed, Reopen, DraftActive), (Abandoned, Reopen, DraftActive)} \<and>
     (t = ResolveClarifications \<longrightarrow> tc_open_clarifications ctx = 0) \<and>
     (t = Promote \<longrightarrow> tc_unreviewed_decisions ctx = 0) \<and>
     (t = Complete \<longrightarrow> tc_dispatch_done ctx)"
  by (cases frm; cases t) (auto simp: validate_transition_def)

lemma validate_transition_Err:
  "validate_transition rid frm t ctx = Err e \<Longrightarrow> \<exists>a. e = InvalidState rid frm (transition_name t) a"
  by (cases frm; cases t) (auto simp: validate_transition_def split: if_splits)

inductive lifecycle :: "RfcState \<Rightarrow> RfcState \<Rightarrow> bool" where
  start: "lifecycle s s"
| step: "lifecycle s s' \<Longrightarrow> validate_transition rid s' t ctx = Ok s'' \<Longrightarrow> lifecycle s s''"

lemma lifecycle_stays:
  "lifecycle s s' \<Longrightarrow> s \<noteq> DraftEmpty \<Longrightarrow> s' \<noteq> DraftEmpty"
  by (induction rule: lifecycle.induct) (auto simp: validate_transition_Ok_iff)

lemma lifecycle_archived: "lifecycle s s' \<Longrightarrow> (s = Archived \<longleftrightarrow> s' = Archived)"
  by (induction rule: lifecycle.induct) (auto simp: validate_transition_Ok_iff)

lemma lifecycle_one: "validate_transition rid s t ctx = Ok s' \<Longrightarrow> lifecycle s s'"
  by (blast intro: lifecycle.intros)

lemma lifecycle_from_DraftEmpty:
  assumes "s \<noteq> Archived"
  shows "lifecycle DraftEmpty s"
proof -
  have da: "lifecycle DraftEmpty DraftActive"
    by (rule lifecycle_one [of x _ ResolveClarifications default_ctx for x])
       (simp add: validate_transition_def default_ctx_def)
  have ac: "lifecycle DraftEmpty Active"
    by (rule lifecycle.step [OF da, of x Promote default_ctx for x])
       (simp add: validate_transition_def default_ctx_def)
  have co: "lifecycle DraftEmpty Completed"
    by (rule lifecycle.step [OF ac, of x Complete default_ctx for x])
       (simp add: validate_transition_def default_ctx_def)
  have ab: "lifecycle DraftEmpty Abandoned"
    by (rule lifecycle.step [OF ac, of x Abandon default_ctx for x])
       (simp add: validate_transition_def default_ctx_def)
  show ?thesis
    using assms da ac co ab by (cases s) (auto intro: lifecycle.start)
qed

lemma tool_allowed_iff:
  "is_ok (tool_allowed s t) \<longleftrightarrow>
     t \<in> {GetContext, State, ListDecisions} \<or> (t = AskTool \<and> is_draft s) \<or>
     (t \<in> {LogDecision, ProposeEdit, ProposePromote} \<and> s = DraftActive)"
  by (cases s; cases t) (simp_all add: tool_allowed_def)

section \<open>Properties\<close>

text \<open>The lifecycle of an RFC: a transition is accepted exactly along the eight edges of
  the lifecycle, out of draft-empty only with no open clarification, promotion only
  with no unreviewed design decision, completion only when dispatch is done; every
  refusal names the state and the transition.\<close>

lemma lifecycle_edges:
  "case validate_transition rid frm t ctx of
     Inr to \<Rightarrow>
       (frm, t, to) \<in> {(DraftEmpty, ResolveClarifications, DraftActive), (DraftActive, Promote, Active),
         (Active, Complete, Completed), (Active, Abandon, Abandoned), (DraftActive, Abandon, Abandoned),
         (Active, Reopen, DraftActive), (Completed, Reopen, DraftActive), (Abandoned, Reopen, DraftActive)} \<and>
       (t = ResolveClarifications \<longrightarrow> tc_open_clarifications ctx = 0) \<and>
       (t = Promote \<longrightarrow> tc_unreviewed_decisions ctx = 0) \<and> (t = Complete \<longrightarrow> tc_dispatch_done ctx)
   | Inl e \<Rightarrow> (\<exists>a. e = InvalidState rid frm (transition_name t) a)"
proof (cases "validate_transition rid frm t ctx")
  case (Inl e)
  then show ?thesis using validate_transition_Err by simp
next
  case (Inr to)
  then show ?thesis using validate_transition_Ok_iff [of rid frm t ctx to] by simp
qed

text \<open>The reachable part of the lifecycle: from a new RFC every state except archived
  can be reached, draft-empty is never entered again once left, and an archived
  version is a dead end that no other state leads to.\<close>

lemma lifecycle_reachable:
  "(lifecycle DraftEmpty s \<longleftrightarrow> s \<noteq> Archived) \<and>
   (lifecycle s DraftEmpty \<longleftrightarrow> s = DraftEmpty) \<and> (lifecycle Archived s \<longleftrightarrow> s = Archived)"
  using lifecycle_from_DraftEmpty lifecycle_archived lifecycle_stays lifecycle.start by blast

text \<open>What agents may do depends on the state alone: reading is always allowed, asking
  only in the two draft states, and logging decisions, proposing edits and proposing
  promotion only in draft-active.\<close>

lemma tool_matrix:
  "is_ok (tool_allowed s t) \<longleftrightarrow>
     t \<in> {GetContext, State, ListDecisions} \<or> (t = AskTool \<and> is_draft s) \<or>
     (t \<in> {LogDecision, ProposeEdit, ProposePromote} \<and> s = DraftActive)"
  by (rule tool_allowed_iff)

text \<open>The two counters that gate transitions count identifiers, not records: an
  identifier counts exactly when its last record in the log is an open clarification,
  respectively a proposed design decision.\<close>

lemma counts_from_latest:
  "counts_from rs =
     \<lparr>dc_open_clarifications = card {i. \<exists>r. latest_of rs i = Some r \<and> pending_kind Clarification DS_Open r},
      dc_unreviewed_decisions = card {i. \<exists>r. latest_of rs i = Some r \<and> pending_kind DesignProposed DS_Proposed r}\<rparr>"
  using counts_from_spec [of rs] by (cases "counts_from rs") simp

end
