(* ===== verification/Rfc_Store.thy ===== *)
theory Rfc_Store
  imports Rfc_Types Host_Fs "HOL-Library.List_Lexorder" "HOL-Library.Char_ord"
    "HOL-Library.Multiset"
begin

section \<open>The RFC store\<close>

text \<open>
  Models the persistent half of \<^verbatim>\<open>crates/orkia-rfc-core/src\<close>: rendering and parsing an RFC
  file (\<^verbatim>\<open>frontmatter.rs\<close>), the content hash (\<^verbatim>\<open>hash.rs\<close>), the append-only decision log
  (\<^verbatim>\<open>decision.rs\<close>) and \<^verbatim>\<open>RfcStore\<close> (\<^verbatim>\<open>store.rs\<close>): create, load, save, list, the decision calls
  and reopen.

  The TOML and JSON codecs and SHA-256 are libraries: they are the fields of \<open>Codec\<close>.
  What a theorem needs of them is a named hypothesis (\<open>toml_ok\<close>, \<open>json_ok\<close>). The clock is
  an argument. The calls that may fail carry the source's operation tags.
\<close>

subsection \<open>Library functions\<close>

record Codec =
  to_toml :: "RfcFrontmatter \<Rightarrow> (string, string) result"
  from_toml :: "string \<Rightarrow> (string, RfcFrontmatter) result"
  to_json :: "DecisionRecord \<Rightarrow> (string, string) result"
  from_json :: "string \<Rightarrow> (string, DecisionRecord) result"
  sha256_hex :: "string \<Rightarrow> string"

definition content_hash_of :: "Codec \<Rightarrow> string \<Rightarrow> ContentHash" where
  "content_hash_of cx body = ''sha256:'' @ sha256_hex cx body"

text \<open>\<^verbatim>\<open>{:?}\<close> of a string: quoted, with the escapes of \<^verbatim>\<open>str::escape_debug\<close> on U+0000 to U+00FF.\<close>

fun show_hex :: "nat \<Rightarrow> string" where
  "show_hex n =
     (if n < 16 then [''0123456789abcdef'' ! n]
      else show_hex (n div 16) @ [''0123456789abcdef'' ! (n mod 16)])"

declare show_hex.simps [simp del]

definition debug_char :: "char \<Rightarrow> string" where
  "debug_char c =
     (let n = of_char c :: nat
      in if n = 0 then [BS, CHR ''0''] else if n = 9 then [BS, CHR ''t'']
         else if n = 10 then [BS, CHR ''n''] else if n = 13 then [BS, CHR ''r'']
         else if c = DQ \<or> c = BS then [BS, c]
         else if n < 32 \<or> (127 \<le> n \<and> n \<le> 160) \<or> n = 173
           then [BS, CHR ''u'', CHR ''{''] @ show_hex n @ [CHR ''}'']
         else [c])"

definition debug_str :: "string \<Rightarrow> string" where
  "debug_str s = [DQ] @ concat (map debug_char s) @ [DQ]"

subsection \<open>The RFC file\<close>

abbreviation DELIM :: string where "DELIM \<equiv> ''+++''"

definition strip_newline :: "string \<Rightarrow> string" where
  "strip_newline s = (case strip_prefix [NL] s of Some r \<Rightarrow> r | None \<Rightarrow> s)"

definition parse_frontmatter :: "Codec \<Rightarrow> string \<Rightarrow> (RfcError, RfcFrontmatter \<times> string) result" where
  "parse_frontmatter cx content =
     (case strip_prefix DELIM content of
        None \<Rightarrow> Err (Frontmatter_Error ''missing opening +++'')
      | Some rest0 \<Rightarrow>
         (let rest = strip_newline rest0
          in case find_sub (NL # DELIM) rest of
               None \<Rightarrow> Err (Frontmatter_Error ''missing closing +++'')
             | Some close \<Rightarrow>
                (let toml_src = take close rest;
                     after = drop (close + 1 + length DELIM) rest;
                     body = strip_newline after
                 in case from_toml cx toml_src of
                      Err e \<Rightarrow> Err (Frontmatter_Error e)
                    | Ok fm \<Rightarrow> Ok (fm, body))))"

definition render_frontmatter :: "Codec \<Rightarrow> RfcFrontmatter \<Rightarrow> string \<Rightarrow> (RfcError, string) result" where
  "render_frontmatter cx fm body =
     (case to_toml cx fm of
        Err e \<Rightarrow> Err (Frontmatter_Error e)
      | Ok toml_src \<Rightarrow>
         (let body_norm = (if prefix [NL] body then body else NL # body)
          in Ok (DELIM @ [NL] @ toml_src @ DELIM @ body_norm)))"

subsection \<open>The decision log\<close>

definition max_decision_log_bytes :: int where
  "max_decision_log_bytes = 4 * 1024 * 1024"

text \<open>One call that may fail, with the tag the source gives its error.\<close>

definition io_then :: "Io \<Rightarrow> string \<Rightarrow> IoStep \<Rightarrow> fs \<Rightarrow> fs \<times> (RfcError, 'a) result \<Rightarrow> fs \<times> (RfcError, 'a) result" where
  "io_then io tag s fs k = (case io_err io tag s of Some e \<Rightarrow> (fs, Err (Io_Error tag e)) | None \<Rightarrow> k)"

definition decision_append :: "Codec \<Rightarrow> Io \<Rightarrow> path \<Rightarrow> DecisionRecord \<Rightarrow> fs \<Rightarrow> fs \<times> (RfcError, unit) result" where
  "decision_append cx io p r fs =
     io_then io ''decision_mkdir'' MkDir fs (
     io_then io ''decision_open'' Open fs (
       let old = (case fs p of Some s \<Rightarrow> s | None \<Rightarrow> []);
           fs1 = fs(p \<mapsto> old)
       in (case to_json cx r of
             Err e \<Rightarrow> (fs1, Err (Io_Error ''decision_serialize'' e))
           | Ok line \<Rightarrow>
               io_then io ''decision_write'' Write
                 (fs1(p \<mapsto> old @ take (io_part io ''decision_write'') (line @ [NL]))) (
               io_then io ''decision_fsync'' Sync (fs1(p \<mapsto> old @ line @ [NL]))
                 (fs1(p \<mapsto> old @ line @ [NL]), Ok ())))))"

fun read_lines :: "Codec \<Rightarrow> Io \<Rightarrow> nat \<Rightarrow> string list \<Rightarrow> DecisionRecord list \<Rightarrow> (RfcError, DecisionRecord list) result" where
  "read_lines cx io i [] out = Ok out"
| "read_lines cx io i (line # ls) out =
     (case io_err io (''decision_read_line:'' @ show_nat i) Read of
        Some e \<Rightarrow> Err (Io_Error ''decision_read_line'' e)
      | None \<Rightarrow>
         (if trim line = [] then read_lines cx io (i + 1) ls out
          else case from_json cx line of
                 Err e \<Rightarrow> Err (Frontmatter_Error (''decision log line '' @ show_nat (i + 1) @ '': '' @ e))
               | Ok rec \<Rightarrow> read_lines cx io (i + 1) ls (out @ [rec])))"

definition decision_read_all :: "Codec \<Rightarrow> Io \<Rightarrow> fs \<Rightarrow> path \<Rightarrow> (RfcError, DecisionRecord list) result" where
  "decision_read_all cx io fs p =
     (case fs p of
        None \<Rightarrow> Ok []
      | Some content \<Rightarrow>
         (case io_err io ''decision_read'' Open of
            Some e \<Rightarrow> Err (Io_Error ''decision_read'' e)
          | None \<Rightarrow>
             (case io_err io ''decision_read_meta'' Meta of
                Some e \<Rightarrow> Err (Io_Error ''decision_read_meta'' e)
              | None \<Rightarrow>
                 (if utf8_len content > max_decision_log_bytes
                  then Err (Io_Error ''decision_read''
                    (''decision log exceeds size cap ('' @ show_nat (nat (utf8_len content)) @ '' > ''
                       @ show_nat (nat max_decision_log_bytes) @ '' bytes)''))
                  else read_lines cx io 0 (str_lines content) []))))"

subsection \<open>Records and paths\<close>

record RfcRecord =
  rr_fm :: RfcFrontmatter
  rr_body :: string

record RfcStore =
  project_dir :: path

fun legacy_status_for :: "RfcState \<Rightarrow> string" where
  "legacy_status_for DraftEmpty = ''draft''"
| "legacy_status_for DraftActive = ''draft''"
| "legacy_status_for Active = ''active''"
| "legacy_status_for Archived = ''archived''"
| "legacy_status_for Completed = ''completed''"
| "legacy_status_for Abandoned = ''abandoned''"

text \<open>
  \<^verbatim>\<open>Path::components\<close> of a Unix path: a leading slash is a root component, a leading dot a
  current-directory component; other dots and empty segments are skipped.
\<close>

datatype PathComponent = RootDir | CurDir | ParentDir | Normal string

definition components :: "string \<Rightarrow> PathComponent list" where
  "components s =
     (let segs = split_on (CHR ''/'') s;
          lead = (if prefix ''/'' s then [RootDir]
                  else if hd segs = ''.'' then [CurDir] else [])
      in lead @ map (\<lambda>c. if c = ''..'' then ParentDir else Normal c) (path_comps s))"

definition validate_id :: "RfcId \<Rightarrow> (RfcError, unit) result" where
  "validate_id rid =
     (case components rid of
        [Normal _] \<Rightarrow> Ok ()
      | _ \<Rightarrow> Err (Io_Error ''validate_rfc_id''
          (''RfcId '' @ debug_str rid @ '' contains path-traversal characters or is otherwise invalid'')))"

definition rfc_path :: "RfcStore \<Rightarrow> RfcId \<Rightarrow> path" where
  "rfc_path st rid = path_join (path_join (project_dir st) ''rfcs'') (rid @ ''.md'')"

definition decision_path :: "RfcStore \<Rightarrow> RfcId \<Rightarrow> path" where
  "decision_path st rid = path_join (path_join (project_dir st) ''decisions'') (rid @ ''.jsonl'')"

definition seal_path :: "RfcStore \<Rightarrow> RfcId \<Rightarrow> path" where
  "seal_path st rid = path_join (path_join (project_dir st) ''seal'') (rid @ ''.seal.jsonl'')"

definition rfc_history_dir :: "RfcStore \<Rightarrow> RfcId \<Rightarrow> path" where
  "rfc_history_dir st rid = path_join (path_join (project_dir st) ''rfcs'') (rid @ ''.history'')"

definition decision_history_dir :: "RfcStore \<Rightarrow> RfcId \<Rightarrow> path" where
  "decision_history_dir st rid = path_join (path_join (project_dir st) ''decisions'') (rid @ ''.history'')"

subsection \<open>Durable writes\<close>

definition write_atomic :: "Codec \<Rightarrow> Io \<Rightarrow> RfcStore \<Rightarrow> RfcId \<Rightarrow> RfcFrontmatter \<Rightarrow> string \<Rightarrow> fs \<Rightarrow> fs \<times> (RfcError, unit) result" where
  "write_atomic cx io st rid fm body fs =
     (let final_path = rfc_path st rid
      in io_then io ''rfc_mkdir'' MkDir fs (
         let tmp_path = with_extension final_path ''md.tmp''
         in (case render_frontmatter cx fm body of
               Err e \<Rightarrow> (fs, Err e)
             | Ok content \<Rightarrow>
                 apsnd (map_err rfc_io)
                   (fs_replace io ''rfc_tmp_create'' ''rfc_tmp_write'' ''rfc_tmp_fsync'' ''rfc_rename''
                      tmp_path final_path content fs))))"

definition write_path_atomic :: "Io \<Rightarrow> path \<Rightarrow> string \<Rightarrow> string \<Rightarrow> fs \<Rightarrow> fs \<times> (RfcError, unit) result" where
  "write_path_atomic io p content op fs =
     io_then io op MkDir fs (
       apsnd (map_err rfc_io) (fs_replace io op op op op (with_extension p ''tmp'') p content fs))"

subsection \<open>Operations of the store\<close>

definition create_with_legacy ::
  "Codec \<Rightarrow> Io \<Rightarrow> Time \<Rightarrow> RfcStore \<Rightarrow> RfcId \<Rightarrow> string option \<Rightarrow> string list \<Rightarrow> fs \<Rightarrow> fs \<times> (RfcError, RfcRecord) result" where
  "create_with_legacy cx io now st rid title assigned fs =
     fs_bind (fs, validate_id rid) (\<lambda>fs _.
      (if fs (rfc_path st rid) \<noteq> None
       then (fs, Err (Frontmatter_Error (''RFC '' @ rid @ '' already exists'')))
       else
         (let body = [];
              fm = \<lparr>fm_id = rid, fm_state = DraftEmpty, fm_version = 1, fm_created_at = now,
                    fm_updated_at = now, fm_content_hash = content_hash_of cx body, fm_agents = [],
                    fm_locked_by = None, fm_locked_at = None, fm_title = title,
                    fm_status = Some ''draft'',
                    fm_assigned = (if assigned = [] then None else Some assigned),
                    fm_kind = None, fm_forge = None, fm_scope = None, fm_operator = None,
                    fm_dispatch = None\<rparr>
          in fs_bind (write_atomic cx io st rid fm body fs)
               (\<lambda>fs' _. (fs', Ok \<lparr>rr_fm = fm, rr_body = body\<rparr>)))))"

definition store_create ::
  "Codec \<Rightarrow> Io \<Rightarrow> Time \<Rightarrow> RfcStore \<Rightarrow> RfcId \<Rightarrow> string option \<Rightarrow> fs \<Rightarrow> fs \<times> (RfcError, RfcRecord) result" where
  "store_create cx io now st rid title fs =
     fs_bind (fs, validate_id rid) (\<lambda>fs _.
      create_with_legacy cx io now st rid title [] fs)"

definition store_load :: "Codec \<Rightarrow> Io \<Rightarrow> RfcStore \<Rightarrow> fs \<Rightarrow> RfcId \<Rightarrow> (RfcError, RfcRecord) result" where
  "store_load cx io st fs rid =
     and_then (validate_id rid) (\<lambda>_.
      (case fs (rfc_path st rid) of
         None \<Rightarrow> Err (NotFound rid ''load'')
       | Some raw \<Rightarrow>
          (case io_err io ''rfc_read'' Read of
             Some e \<Rightarrow> Err (Io_Error ''rfc_read'' e)
           | None \<Rightarrow>
              (case parse_frontmatter cx raw of
                 Err e \<Rightarrow> Err e
               | Ok (fm, body) \<Rightarrow> Ok \<lparr>rr_fm = fm, rr_body = body\<rparr>))))"

definition save_fm :: "Codec \<Rightarrow> Time \<Rightarrow> RfcFrontmatter \<Rightarrow> string \<Rightarrow> RfcFrontmatter" where
  "save_fm cx now fm body =
     fm\<lparr>fm_updated_at := now, fm_content_hash := content_hash_of cx body,
        fm_status := Some (legacy_status_for (fm_state fm))\<rparr>"

definition store_save ::
  "Codec \<Rightarrow> Io \<Rightarrow> Time \<Rightarrow> RfcStore \<Rightarrow> RfcFrontmatter \<Rightarrow> string \<Rightarrow> fs \<Rightarrow> fs \<times> (RfcError, RfcRecord) result" where
  "store_save cx io now st fm body fs =
     fs_bind (fs, validate_id (fm_id fm)) (\<lambda>fs _.
      (let fm' = save_fm cx now fm body
       in fs_bind (write_atomic cx io st (fm_id fm') fm' body fs)
            (\<lambda>fs' _. (fs', Ok \<lparr>rr_fm = fm', rr_body = body\<rparr>))))"

text \<open>The directory listing is the host's: names in any order.\<close>

fun list_loop :: "Codec \<Rightarrow> Io \<Rightarrow> path \<Rightarrow> fs \<Rightarrow> string list \<Rightarrow> RfcRecord list \<Rightarrow> (RfcError, RfcRecord list) result" where
  "list_loop cx io dir fs [] out = Ok out"
| "list_loop cx io dir fs (name # names) out =
     (case io_err io (''rfc_list_entry:'' @ name) Read of
        Some e \<Rightarrow> Err (Io_Error ''rfc_list_entry'' e)
      | None \<Rightarrow>
         (if file_extension name \<noteq> Some ''md'' then list_loop cx io dir fs names out
          else case (io_err io (''rfc_list_read:'' @ name) Read, fs (dir @ [name])) of
                 (None, Some raw) \<Rightarrow>
                   (case parse_frontmatter cx raw of
                      Ok (fm, body) \<Rightarrow> list_loop cx io dir fs names (out @ [\<lparr>rr_fm = fm, rr_body = body\<rparr>])
                    | Err _ \<Rightarrow> list_loop cx io dir fs names out)
               | _ \<Rightarrow> list_loop cx io dir fs names out))"

definition store_list :: "Codec \<Rightarrow> Io \<Rightarrow> RfcStore \<Rightarrow> (path \<Rightarrow> string list option) \<Rightarrow> fs \<Rightarrow> (RfcError, RfcRecord list) result" where
  "store_list cx io st listing fs =
     (let dir = path_join (project_dir st) ''rfcs''
      in case listing dir of
           None \<Rightarrow> Ok []
         | Some names \<Rightarrow>
            (case io_err io ''rfc_listdir'' Read of
               Some e \<Rightarrow> Err (Io_Error ''rfc_listdir'' e)
             | None \<Rightarrow>
                (case list_loop cx io dir fs names [] of
                   Err e \<Rightarrow> Err e
                 | Ok out \<Rightarrow> Ok (sort_key (\<lambda>r. fm_id (rr_fm r)) out))))"

definition append_decision :: "Codec \<Rightarrow> Io \<Rightarrow> RfcStore \<Rightarrow> DecisionRecord \<Rightarrow> fs \<Rightarrow> fs \<times> (RfcError, unit) result" where
  "append_decision cx io st r fs =
     fs_bind (fs, validate_id (dr_rfc_id r)) (\<lambda>fs _.
      decision_append cx io (decision_path st (dr_rfc_id r)) r fs)"

definition read_decisions :: "Codec \<Rightarrow> Io \<Rightarrow> RfcStore \<Rightarrow> fs \<Rightarrow> RfcId \<Rightarrow> (RfcError, DecisionRecord list) result" where
  "read_decisions cx io st fs rid =
     and_then (validate_id rid) (\<lambda>_. decision_read_all cx io fs (decision_path st rid))"

definition decision_counts :: "Codec \<Rightarrow> Io \<Rightarrow> RfcStore \<Rightarrow> fs \<Rightarrow> RfcId \<Rightarrow> (RfcError, DecisionCounts) result" where
  "decision_counts cx io st fs rid =
     and_then (read_decisions cx io st fs rid) (\<lambda>rs. Ok (counts_from rs))"

definition archive_decisions :: "Io \<Rightarrow> RfcStore \<Rightarrow> RfcId \<Rightarrow> 32 word \<Rightarrow> fs \<Rightarrow> fs \<times> (RfcError, bool) result" where
  "archive_decisions io st rid n fs =
     (case fs (decision_path st rid) of
        None \<Rightarrow> (fs, Ok False)
      | Some dec_bytes \<Rightarrow>
          io_then io ''reopen_read_dec'' Read fs (
              fs_bind (write_path_atomic io
                  (path_join (decision_history_dir st rid) (''v'' @ show_nat (unat n) @ ''.jsonl''))
                  dec_bytes ''reopen_archive_dec'' fs)
                (\<lambda>fs' _. (fs', Ok True))))"

definition reopened_fm :: "Codec \<Rightarrow> Time \<Rightarrow> RfcId \<Rightarrow> RfcRecord \<Rightarrow> RfcFrontmatter" where
  "reopened_fm cx now rid current =
     \<lparr>fm_id = rid, fm_state = DraftActive, fm_version = fm_version (rr_fm current) + 1,
      fm_created_at = now, fm_updated_at = now,
      fm_content_hash = content_hash_of cx (rr_body current), fm_agents = [],
      fm_locked_by = None, fm_locked_at = None, fm_title = fm_title (rr_fm current),
      fm_status = Some (legacy_status_for DraftActive), fm_assigned = fm_assigned (rr_fm current),
      fm_kind = fm_kind (rr_fm current), fm_forge = fm_forge (rr_fm current),
      fm_scope = fm_scope (rr_fm current), fm_operator = fm_operator (rr_fm current),
      fm_dispatch = None\<rparr>"

definition archived_path :: "RfcStore \<Rightarrow> RfcId \<Rightarrow> 32 word \<Rightarrow> path" where
  "archived_path st rid n = path_join (rfc_history_dir st rid) (''v'' @ show_nat (unat n) @ ''.md'')"

definition store_reopen :: "Codec \<Rightarrow> Io \<Rightarrow> Time \<Rightarrow> RfcStore \<Rightarrow> RfcId \<Rightarrow> fs \<Rightarrow> fs \<times> (RfcError, RfcRecord) result" where
  "store_reopen cx io now st rid fs =
     fs_bind (fs, validate_id rid) (\<lambda>fs _.
     fs_bind (fs, store_load cx io st fs rid) (\<lambda>fs current.
       let n = fm_version (rr_fm current)
       in io_then io ''reopen_mkdir_rfc'' MkDir fs (
          fs_bind (fs, render_frontmatter cx ((rr_fm current)\<lparr>fm_state := Archived\<rparr>) (rr_body current))
            (\<lambda>fs archived_content.
          fs_bind (write_path_atomic io (archived_path st rid n) archived_content
              ''reopen_write_archived_rfc'' fs) (\<lambda>fs1 _.
          fs_bind (archive_decisions io st rid n fs1) (\<lambda>fs2 dec_existed.
          let new_body = rr_body current;
              new_fm = reopened_fm cx now rid current
          in fs_bind (write_atomic cx io st rid new_fm new_body fs2) (\<lambda>fs3 _.
             (if dec_existed \<and> io_err io ''reopen_remove_dec'' Remove = None
              then fs3(decision_path st rid := None) else fs3,
              Ok \<lparr>rr_fm = new_fm, rr_body = new_body\<rparr>)))))))) "

section \<open>What the libraries promise\<close>

text \<open>
  The TOML library prints a frontmatter so that it parses back, ends it with a newline
  and does not start a line with the delimiter; the JSON library prints a record on one
  line that parses back. The last condition on TOML is where a multi-line string in the
  frontmatter can break the file format.
\<close>

definition toml_ok :: "Codec \<Rightarrow> RfcFrontmatter \<Rightarrow> bool" where
  "toml_ok cx fm \<longleftrightarrow>
     (\<exists>src. to_toml cx fm = Ok (src @ [NL]) \<and> from_toml cx src = Ok fm \<and>
        (\<forall>j < length src. \<not> prefix (NL # DELIM) (drop j src)))"

definition json_ok :: "Codec \<Rightarrow> DecisionRecord \<Rightarrow> bool" where
  "json_ok cx r \<longleftrightarrow>
     (\<exists>line. to_json cx r = Ok line \<and> from_json cx line = Ok r \<and> trim line \<noteq> [] \<and>
        NL \<notin> set line \<and> \<not> suffix [CHR 0x0D] line)"

section \<open>Rendering and parsing\<close>

lemma strip_newline_simps [simp]:
  "strip_newline [] = []" "strip_newline (c # s) = (if c = NL then s else c # s)"
  by (simp_all add: strip_newline_def strip_prefix_def)

lemma delim_not_earlier:
  assumes "\<not> prefix (NL # DELIM) (drop j src)" and "j < length src"
  shows "\<not> prefix (NL # DELIM) (drop j src @ (NL # DELIM) @ rest)"
proof -
  obtain a as where d: "drop j src = a # as" using assms(2) by (cases "drop j src") auto
  have "\<not> prefix DELIM (as @ NL # t)" if "\<not> prefix DELIM as" for t
    using that by (cases as rule: list.exhaust; cases "tl as"; cases "tl (tl as)") auto
  with assms(1) d show ?thesis by auto
qed

lemma find_delim:
  "(\<forall>j < length src. \<not> prefix (NL # DELIM) (drop j src)) \<Longrightarrow>
   find_sub (NL # DELIM) (src @ (NL # DELIM) @ rest) = Some (length src)"
  using delim_not_earlier by (intro find_sub_first) blast

lemma render_parse:
  assumes "toml_ok cx fm" and "render_frontmatter cx fm body = Ok content"
  shows "parse_frontmatter cx content = Ok (fm, strip_newline body)"
proof -
  obtain src where src: "to_toml cx fm = Ok (src @ [NL])" "from_toml cx src = Ok fm"
    and nd: "\<forall>j < length src. \<not> prefix (NL # DELIM) (drop j src)"
    using assms(1) by (auto simp: toml_ok_def)
  let ?bn = "if prefix [NL] body then body else NL # body"
  have c: "content = DELIM @ NL # src @ (NL # DELIM) @ ?bn"
    using assms(2) src(1) by (auto simp: render_frontmatter_def Let_def split: if_splits)
  have "strip_newline ?bn = strip_newline body" by (cases body) auto
  then show ?thesis
    using find_delim [OF nd, of ?bn] src(2)
    unfolding c by (simp add: parse_frontmatter_def strip_prefix_def Let_def)
qed

lemma toml_ok_renders: "toml_ok cx fm \<Longrightarrow> \<exists>content. render_frontmatter cx fm body = Ok content"
  by (auto simp: toml_ok_def render_frontmatter_def Let_def)

section \<open>Identifiers and paths\<close>

text \<open>A plain identifier is a bare file name, as the comment on \<open>validate_id\<close> asks for.\<close>

definition plain_id :: "RfcId \<Rightarrow> bool" where
  "plain_id i \<longleftrightarrow> i \<noteq> [] \<and> CHR ''/'' \<notin> set i \<and> i \<noteq> ''.'' \<and> i \<noteq> ''..''"

lemma validate_plain [simp]: "plain_id i \<Longrightarrow> validate_id i = Ok ()"
  by (cases i) (auto simp: plain_id_def validate_id_def components_def path_comps_plain split_on_no_sep)

lemma join_dir [simp]:
  "path_join d ''rfcs'' = d @ [''rfcs'']" "path_join d ''decisions'' = d @ [''decisions'']"
  by (simp_all add: path_join_plain)

lemma plain_paths:
  assumes "plain_id i"
  shows "rfc_path st i = project_dir st @ [''rfcs'', i @ ''.md'']"
    and "decision_path st i = project_dir st @ [''decisions'', i @ ''.jsonl'']"
    and "rfc_history_dir st i = project_dir st @ [''rfcs'', i @ ''.history'']"
    and "decision_history_dir st i = project_dir st @ [''decisions'', i @ ''.history'']"
    and "with_extension (project_dir st @ [''rfcs'', i @ ''.md'']) ''md.tmp'' = project_dir st @ [''rfcs'', i @ ''.md.tmp'']"
proof -
  have ne: "i @ t \<noteq> ''.''" "i @ t \<noteq> []" if "length t > 1" for t
    using that assms by (auto simp: plain_id_def append_eq_Cons_conv)
  have sl: "CHR ''/'' \<notin> set i" and "i \<noteq> []" using assms by (simp_all add: plain_id_def)
  show rp: "rfc_path st i = project_dir st @ [''rfcs'', i @ ''.md'']"
    using sl ne [of "''.md''"] by (simp add: rfc_path_def path_join_plain)
  show "decision_path st i = project_dir st @ [''decisions'', i @ ''.jsonl'']"
    using sl ne [of "''.jsonl''"] by (simp add: decision_path_def path_join_plain)
  show "rfc_history_dir st i = project_dir st @ [''rfcs'', i @ ''.history'']"
    using sl ne [of "''.history''"] by (simp add: rfc_history_dir_def path_join_plain)
  show "decision_history_dir st i = project_dir st @ [''decisions'', i @ ''.history'']"
    using sl ne [of "''.history''"] by (simp add: decision_history_dir_def path_join_plain)
  show "with_extension (project_dir st @ [''rfcs'', i @ ''.md'']) ''md.tmp'' = project_dir st @ [''rfcs'', i @ ''.md.tmp'']"
    using with_extension_ext [of "''md''" i "project_dir st @ [''rfcs'']" "''md.tmp''"] \<open>i \<noteq> []\<close>
    by simp
qed

lemma show_nat_chars: "c \<in> set (show_nat n) \<Longrightarrow> c \<noteq> CHR ''/'' \<and> c \<noteq> CHR ''.''"
  using show_nat_digits [of n] by (auto simp: list_all_iff is_digit_def)

lemma version_name:
  "CHR ''/'' \<notin> set e \<Longrightarrow> path_join d (''v'' @ show_nat k @ ''.'' @ e) = d @ [''v'' @ show_nat k @ ''.'' @ e]"
  using show_nat_chars by (intro path_join_plain) auto

lemma archive_paths:
  assumes "plain_id i"
  shows "archived_path st i n =
      project_dir st @ [''rfcs'', i @ ''.history'', ''v'' @ show_nat (unat n) @ ''.md'']"
    and "with_extension (project_dir st @ [''rfcs'', i @ ''.history'', ''v'' @ show_nat (unat n) @ ''.md'']) ''tmp'' =
      project_dir st @ [''rfcs'', i @ ''.history'', ''v'' @ show_nat (unat n) @ ''.tmp'']"
    and "path_join (decision_history_dir st i) (''v'' @ show_nat (unat n) @ ''.jsonl'') =
      project_dir st @ [''decisions'', i @ ''.history'', ''v'' @ show_nat (unat n) @ ''.jsonl'']"
    and "with_extension (project_dir st @ [''decisions'', i @ ''.history'', ''v'' @ show_nat (unat n) @ ''.jsonl'']) ''tmp'' =
      project_dir st @ [''decisions'', i @ ''.history'', ''v'' @ show_nat (unat n) @ ''.tmp'']"
  using version_name [of "''md''" _ "unat n"] version_name [of "''jsonl''" _ "unat n"]
    with_extension_ext [of "''md''" "''v'' @ show_nat (unat n)" "project_dir st @ [''rfcs'', i @ ''.history'']" "''tmp''"]
    with_extension_ext [of "''jsonl''" "''v'' @ show_nat (unat n)" "project_dir st @ [''decisions'', i @ ''.history'']" "''tmp''"]
  by (simp_all add: archived_path_def plain_paths [OF assms])

lemmas store_paths = plain_paths archive_paths [simplified]

section \<open>Durable writes of the store\<close>

lemma io_then_Ok: "snd (io_then io tag s fs k) = Ok a \<Longrightarrow> io_then io tag s fs k = k \<and> snd k = Ok a"
  by (auto simp: io_then_def split: option.splits)

lemma io_then_cases:
  obtains (failed) e where "io_then io tag s fs k = (fs, Err (Io_Error tag e))"
  | (fine) "io_then io tag s fs k = k"
  by (cases "io_err io tag s") (auto simp: io_then_def)

lemma io_then_fine [simp]: "io_then io_fine tag s fs k = k"
  by (simp add: io_then_def io_fine_def)

lemma write_path_atomic_spec:
  assumes "with_extension p ''tmp'' \<noteq> p"
  shows "q \<noteq> p \<Longrightarrow> q \<noteq> with_extension p ''tmp'' \<Longrightarrow> fst (write_path_atomic io p c op fs) q = fs q"
    and "snd (write_path_atomic io p c op fs) = Ok u \<Longrightarrow>
         fst (write_path_atomic io p c op fs) = fs(with_extension p ''tmp'' := None, p \<mapsto> c)"
  using fs_replace_frame [of q "with_extension p ''tmp''" p io op op op op c fs]
    fs_replace_Ok [OF assms, of io op op op op c fs]
  by (cases rule: io_then_cases [of io op MkDir fs "apsnd (map_err rfc_io)
       (fs_replace io op op op op (with_extension p ''tmp'') p c fs)"];
      simp add: write_path_atomic_def)+

lemma write_atomic_spec:
  assumes "plain_id i"
  shows "q \<noteq> rfc_path st i \<Longrightarrow> q \<noteq> with_extension (rfc_path st i) ''md.tmp'' \<Longrightarrow>
         fst (write_atomic cx io st i fm body fs) q = fs q"
    and "snd (write_atomic cx io st i fm body fs) = Err e \<Longrightarrow>
         fst (write_atomic cx io st i fm body fs) (rfc_path st i) = fs (rfc_path st i)"
    and "snd (write_atomic cx io st i fm body fs) = Ok u \<Longrightarrow>
         \<exists>content. render_frontmatter cx fm body = Ok content \<and>
           fst (write_atomic cx io st i fm body fs) =
             fs(with_extension (rfc_path st i) ''md.tmp'' := None, rfc_path st i \<mapsto> content)"
proof -
  let ?f = "rfc_path st i" and ?t = "with_extension (rfc_path st i) ''md.tmp''"
  have tf: "?t \<noteq> ?f" by (simp add: plain_paths [OF assms])
  let ?r = "\<lambda>content. fs_replace io ''rfc_tmp_create'' ''rfc_tmp_write'' ''rfc_tmp_fsync'' ''rfc_rename'' ?t ?f content fs"
  note cases = io_then_cases [of io "''rfc_mkdir''" MkDir fs
      "case render_frontmatter cx fm body of Inl e \<Rightarrow> (fs, Inl e) | Inr c \<Rightarrow> apsnd (map_err rfc_io) (?r c)"]
  show "fst (write_atomic cx io st i fm body fs) q = fs q" if "q \<noteq> ?f" "q \<noteq> ?t"
    using fs_replace_frame [OF that(2) that(1)]
    by (cases rule: cases) (auto simp: write_atomic_def Let_def split: sum.splits)
  show "fst (write_atomic cx io st i fm body fs) ?f = fs ?f"
    if "snd (write_atomic cx io st i fm body fs) = Err e"
  proof (cases rule: cases)
    case fine
    then show ?thesis
      using that fs_replace_Err [OF tf]
      by (auto simp: write_atomic_def Let_def map_err_def split: sum.splits)
  qed (simp add: write_atomic_def)
  show "\<exists>content. render_frontmatter cx fm body = Ok content \<and>
      fst (write_atomic cx io st i fm body fs) = fs(?t := None, ?f \<mapsto> content)"
    if "snd (write_atomic cx io st i fm body fs) = Ok u"
  proof (cases rule: cases)
    case fine
    then show ?thesis
      using that fs_replace_Ok [OF tf]
      by (auto simp: write_atomic_def Let_def split: sum.splits)
  qed (use that in \<open>simp add: write_atomic_def\<close>)
qed

section \<open>Reopening\<close>



lemma archive_decisions_spec:
  assumes "plain_id i"
  shows "q \<noteq> project_dir st @ [''decisions'', i @ ''.history'', ''v'' @ show_nat (unat n) @ ''.jsonl''] \<Longrightarrow>
         q \<noteq> project_dir st @ [''decisions'', i @ ''.history'', ''v'' @ show_nat (unat n) @ ''.tmp''] \<Longrightarrow>
         fst (archive_decisions io st i n fs) q = fs q"
    and "snd (archive_decisions io st i n fs) = Ok b \<Longrightarrow>
         (b \<longleftrightarrow> fs (decision_path st i) \<noteq> None) \<and>
         (b \<longrightarrow> fst (archive_decisions io st i n fs)
            (project_dir st @ [''decisions'', i @ ''.history'', ''v'' @ show_nat (unat n) @ ''.jsonl''])
            = fs (decision_path st i))"
proof -
  let ?p = "project_dir st @ [''decisions'', i @ ''.history'', ''v'' @ show_nat (unat n) @ ''.jsonl'']"
  have t: "with_extension ?p ''tmp'' \<noteq> ?p" by (simp add: store_paths [OF assms])
  note w = write_path_atomic_spec [OF t]
  note a = archive_decisions_def [of io st i n fs, unfolded archive_paths(3) [OF assms]]
  show "fst (archive_decisions io st i n fs) q = fs q" if "q \<noteq> ?p"
     "q \<noteq> project_dir st @ [''decisions'', i @ ''.history'', ''v'' @ show_nat (unat n) @ ''.tmp'']"
    using w(1) [OF that(1)] that(2)
    by (auto simp: a store_paths [OF assms] fs_bind_def io_then_def split: option.splits prod.splits sum.splits) (metis fst_conv)+
  show "(b \<longleftrightarrow> fs (decision_path st i) \<noteq> None) \<and>
     (b \<longrightarrow> fst (archive_decisions io st i n fs) ?p = fs (decision_path st i))"
    if "snd (archive_decisions io st i n fs) = Ok b"
    using that w(2) [of io _ _ fs]
    by (auto simp: a fs_bind_def io_then_def split: option.splits prod.splits sum.splits) (metis fst_conv snd_conv fun_upd_same)+
qed


lemma reopen_run:
  fixes cx io now st i fs
  defines "cur \<equiv> projr (store_load cx io st fs i)"
  defines "n \<equiv> fm_version (rr_fm cur)"
  defines "content \<equiv> projr (render_frontmatter cx ((rr_fm cur)\<lparr>fm_state := Archived\<rparr>) (rr_body cur))"
  defines "m1 \<equiv> write_path_atomic io (archived_path st i n) content ''reopen_write_archived_rfc'' fs"
  defines "m2 \<equiv> archive_decisions io st i n (fst m1)"
  defines "m3 \<equiv> write_atomic cx io st i (reopened_fm cx now i cur) (rr_body cur) (fst m2)"
  shows "case snd (store_reopen cx io now st i fs) of
      Inl e \<Rightarrow> fst (store_reopen cx io now st i fs) \<in> {fs, fst m1, fst m2} \<or>
              (fst (store_reopen cx io now st i fs) = fst m3 \<and> snd m3 = Err e)
    | Inr r \<Rightarrow> store_load cx io st fs i = Ok cur \<and>
        render_frontmatter cx ((rr_fm cur)\<lparr>fm_state := Archived\<rparr>) (rr_body cur) = Ok content \<and>
        snd m1 = Ok () \<and> snd m3 = Ok () \<and> r = \<lparr>rr_fm = reopened_fm cx now i cur, rr_body = rr_body cur\<rparr> \<and>
        (\<exists>b. snd m2 = Ok b \<and> fst (store_reopen cx io now st i fs) =
           (if b \<and> io_err io ''reopen_remove_dec'' Remove = None
            then (fst m3)(decision_path st i := None) else fst m3))"
proof (cases "store_load cx io st fs i")
  case (Inl e)
  then show ?thesis by (cases "validate_id i") (simp_all add: store_reopen_def)
next
  case (Inr c)
  then have c: "store_load cx io st fs i = Ok cur" by (simp add: cur_def)
  then have v: "validate_id i = Ok ()" by (cases "validate_id i") (auto simp: store_load_def)
  show ?thesis
  proof (cases "render_frontmatter cx ((rr_fm cur)\<lparr>fm_state := Archived\<rparr>) (rr_body cur)")
    case (Inl e)
    then show ?thesis by (simp add: store_reopen_def v c io_then_def Let_def split: option.splits)
  next
    case (Inr a)
    then have a: "render_frontmatter cx ((rr_fm cur)\<lparr>fm_state := Archived\<rparr>) (rr_body cur) = Ok content"
      by (simp add: content_def)
    show ?thesis
      unfolding store_reopen_def v c Let_def fs_bind_simps a io_then_def n_def [symmetric] m1_def [symmetric]
      by (cases "io_err io ''reopen_mkdir_rfc'' MkDir"; cases m1; cases "snd m1"; cases m2; cases "snd m2"; cases m3; cases "snd m3")
         (auto simp: m2_def m3_def)
  qed
qed


lemma reopen_keeps_live:
  assumes "plain_id i" and "snd (store_reopen cx io now st i fs) = Err e"
  shows "fst (store_reopen cx io now st i fs) (rfc_path st i) = fs (rfc_path st i)"
    and "fst (store_reopen cx io now st i fs) (decision_path st i) = fs (decision_path st i)"
proof -
  let ?cur = "projr (store_load cx io st fs i)"
  let ?n = "fm_version (rr_fm ?cur)"
  let ?content = "projr (render_frontmatter cx ((rr_fm ?cur)\<lparr>fm_state := Archived\<rparr>) (rr_body ?cur))"
  let ?m1 = "write_path_atomic io (archived_path st i ?n) ?content ''reopen_write_archived_rfc'' fs"
  let ?m2 = "archive_decisions io st i ?n (fst ?m1)"
  let ?m3 = "write_atomic cx io st i (reopened_fm cx now i ?cur) (rr_body ?cur) (fst ?m2)"
  have t: "with_extension (archived_path st i ?n) ''tmp'' \<noteq> archived_path st i ?n"
    by (simp add: store_paths [OF assms(1)])
  have m1: "fst ?m1 q = fs q" if "q \<in> {rfc_path st i, decision_path st i}" for q
    using that by (intro write_path_atomic_spec(1) [OF t]) (auto simp: store_paths [OF assms(1)])
  have m2: "fst ?m2 q = fs q" if "q \<in> {rfc_path st i, decision_path st i}" for q
    unfolding m1 [OF that, symmetric]
    using that by (intro archive_decisions_spec(1) [OF assms(1)]) (auto simp: store_paths [OF assms(1)])
  have m3: "fst ?m3 q = fs q" if "q \<in> {rfc_path st i, decision_path st i}" "snd ?m3 = Err e" for q
  proof (cases "q = rfc_path st i")
    case True
    then show ?thesis using write_atomic_spec(2) [OF assms(1) that(2)] m2 [OF that(1)] by (simp only:)
  next
    case False
    with that(1) have q: "q = decision_path st i" by simp
    have "fst ?m3 q = fst ?m2 q"
      by (intro write_atomic_spec(1) [OF assms(1)]) (simp_all add: q store_paths [OF assms(1)])
    then show ?thesis using m2 [OF that(1)] by (simp only:)
  qed
  note run = reopen_run [of cx io now st i fs, unfolded assms(2) sum.case]
  have "fst (store_reopen cx io now st i fs) q = fs q" if "q \<in> {rfc_path st i, decision_path st i}" for q
    using run m1 [OF that] m2 [OF that] m3 [OF that]
    by (elim disjE conjE insertE emptyE) (simp_all only:)
  then show "fst (store_reopen cx io now st i fs) (rfc_path st i) = fs (rfc_path st i)"
    and "fst (store_reopen cx io now st i fs) (decision_path st i) = fs (decision_path st i)"
    by blast+
qed

lemma reopen_archives:
  assumes "plain_id i" and "snd (store_reopen cx io now st i fs) = Ok r"
  shows "\<exists>cur archived content.
      store_load cx io st fs i = Ok cur \<and>
      render_frontmatter cx ((rr_fm cur)\<lparr>fm_state := Archived\<rparr>) (rr_body cur) = Ok archived \<and>
      render_frontmatter cx (rr_fm r) (rr_body r) = Ok content \<and>
      r = \<lparr>rr_fm = reopened_fm cx now i cur, rr_body = rr_body cur\<rparr> \<and>
      fst (store_reopen cx io now st i fs) (rfc_path st i) = Some content \<and>
      fst (store_reopen cx io now st i fs) (archived_path st i (fm_version (rr_fm cur))) = Some archived \<and>
      (fs (decision_path st i) \<noteq> None \<longrightarrow>
         fst (store_reopen cx io now st i fs) (path_join (decision_history_dir st i)
           (''v'' @ show_nat (unat (fm_version (rr_fm cur))) @ ''.jsonl'')) = fs (decision_path st i)) \<and>
      (io_err io ''reopen_remove_dec'' Remove = None \<longrightarrow>
         fst (store_reopen cx io now st i fs) (decision_path st i) = None)"
proof -
  let ?cur = "projr (store_load cx io st fs i)"
  let ?n = "fm_version (rr_fm ?cur)"
  let ?content = "projr (render_frontmatter cx ((rr_fm ?cur)\<lparr>fm_state := Archived\<rparr>) (rr_body ?cur))"
  let ?m1 = "write_path_atomic io (archived_path st i ?n) ?content ''reopen_write_archived_rfc'' fs"
  let ?m2 = "archive_decisions io st i ?n (fst ?m1)"
  let ?m3 = "write_atomic cx io st i (reopened_fm cx now i ?cur) (rr_body ?cur) (fst ?m2)"
  from reopen_run [of cx io now st i fs, unfolded assms(2) sum.case] obtain b where
    r: "store_load cx io st fs i = Ok ?cur"
       "render_frontmatter cx ((rr_fm ?cur)\<lparr>fm_state := Archived\<rparr>) (rr_body ?cur) = Ok ?content"
       "r = \<lparr>rr_fm = reopened_fm cx now i ?cur, rr_body = rr_body ?cur\<rparr>"
    and m1: "snd ?m1 = Ok ()" and m2: "snd ?m2 = Ok b" and m3: "snd ?m3 = Ok ()"
    and f: "fst (store_reopen cx io now st i fs) =
       (if b \<and> io_err io ''reopen_remove_dec'' Remove = None
        then (fst ?m3)(decision_path st i := None) else fst ?m3)"
    by (elim conjE exE) (rule that)
  have t: "with_extension (archived_path st i ?n) ''tmp'' \<noteq> archived_path st i ?n"
    by (simp add: store_paths [OF assms(1)])
  note f1 = write_path_atomic_spec(2) [OF t m1]
  note a = archive_decisions_spec [OF assms(1)]
  obtain content where c: "render_frontmatter cx (reopened_fm cx now i ?cur) (rr_body ?cur) = Ok content"
    and f3: "fst ?m3 = (fst ?m2)(with_extension (rfc_path st i) ''md.tmp'' := None, rfc_path st i \<mapsto> content)"
    using write_atomic_spec(3) [OF assms(1) m3] by blast
  have d1: "fst ?m1 (decision_path st i) = fs (decision_path st i)"
    unfolding f1 by (simp add: store_paths [OF assms(1)])
  define fs' where "fs' = fst (store_reopen cx io now st i fs)"
  have fs': "fs' q = (if q = decision_path st i \<and> b \<and> io_err io ''reopen_remove_dec'' Remove = None then None
      else if q = rfc_path st i then Some content
      else if q = with_extension (rfc_path st i) ''md.tmp'' then None else fst ?m2 q)" for q
    unfolding fs'_def f f3 by (simp add: store_paths [OF assms(1)])
  have g1: "fs' (rfc_path st i) = Some content"
    by (simp add: fs' store_paths [OF assms(1)])
  have g2: "fs' (archived_path st i ?n) = Some ?content"
    using a(1) [of "archived_path st i ?n" st ?n io "fst ?m1"] f1
    by (simp add: fs' store_paths [OF assms(1)])
  have g3: "fs (decision_path st i) \<noteq> None \<longrightarrow> fs' (path_join (decision_history_dir st i)
      (''v'' @ show_nat (unat ?n) @ ''.jsonl'')) = fs (decision_path st i)"
    using a(2) [OF m2] d1 unfolding archive_paths(3) [OF assms(1)]
    by (simp add: fs' store_paths [OF assms(1)])
  have "fst ?m2 (decision_path st i) = fs (decision_path st i)"
    using a(1) [of "decision_path st i" st ?n io "fst ?m1"] d1 by (simp add: store_paths [OF assms(1)])
  then have g4: "io_err io ''reopen_remove_dec'' Remove = None \<longrightarrow> fs' (decision_path st i) = None"
    using a(2) [OF m2] d1 by (simp add: fs' store_paths [OF assms(1)])
  have c': "render_frontmatter cx (rr_fm r) (rr_body r) = Ok content" using c by (simp add: r(3))
  show ?thesis
    by (intro exI [of _ ?cur] exI [of _ ?content] exI [of _ content] conjI)
       (fact r c' g1 [unfolded fs'_def] g2 [unfolded fs'_def] g3 [unfolded fs'_def] g4 [unfolded fs'_def])+
qed

section \<open>The decision log\<close>

lemma read_lines_snoc:
  assumes "from_json cx l = Ok r" and "trim l \<noteq> []"
  shows "read_lines cx io_fine i (ls @ [l]) out =
    (case read_lines cx io_fine i ls out of Inl e \<Rightarrow> Inl e | Inr rs \<Rightarrow> Inr (rs @ [r]))"
  by (induction ls arbitrary: i out) (auto simp: assms io_fine_def split: sum.splits)

lemma decision_append_Ok:
  "snd (decision_append cx io p r fs) = Ok u \<Longrightarrow>
   \<exists>line. to_json cx r = Ok line \<and> fst (decision_append cx io p r fs) =
     fs(p \<mapsto> (case fs p of Some s \<Rightarrow> s | None \<Rightarrow> []) @ line @ [NL])"
  by (auto simp: decision_append_def io_then_def Let_def split: option.splits sum.splits)

lemma decision_append_frame:
  "q \<noteq> p \<Longrightarrow> fst (decision_append cx io p r fs) q = fs q"
  by (auto simp: decision_append_def io_then_def Let_def split: option.splits sum.splits)

lemma decision_log_step:
  assumes "json_ok cx r" and "snd (decision_append cx io p r fs) = Ok u"
    and "log_closed (case fs p of Some s \<Rightarrow> s | None \<Rightarrow> [])"
    and "decision_read_all cx io_fine fs p = Ok rs"
    and "utf8_len (case fst (decision_append cx io p r fs) p of Some s \<Rightarrow> s | None \<Rightarrow> []) \<le> max_decision_log_bytes"
  shows "decision_read_all cx io_fine (fst (decision_append cx io p r fs)) p = Ok (rs @ [r])"
    and "log_closed (case fst (decision_append cx io p r fs) p of Some s \<Rightarrow> s | None \<Rightarrow> [])"
proof -
  let ?old = "case fs p of Some s \<Rightarrow> s | None \<Rightarrow> []"
  obtain line where l: "to_json cx r = Ok line" "from_json cx line = Ok r" "trim line \<noteq> []"
      "NL \<notin> set line" "\<not> suffix [CHR 0x0D] line"
    using assms(1) by (auto simp: json_ok_def)
  with decision_append_Ok [OF assms(2)] have fs': "fst (decision_append cx io p r fs) = fs(p \<mapsto> ?old @ line @ [NL])"
    by auto
  have "read_lines cx io_fine 0 (str_lines ?old) [] = Ok rs"
    using assms(4) by (auto simp: decision_read_all_def io_fine_def split: option.splits if_splits)
  then show "decision_read_all cx io_fine (fst (decision_append cx io p r fs)) p = Ok (rs @ [r])"
    using assms(5) str_lines_snoc [OF assms(3) l(4,5)] read_lines_snoc [OF l(2,3)]
    unfolding fs' by (simp add: decision_read_all_def) (simp add: io_fine_def)
  show "log_closed (case fst (decision_append cx io p r fs) p of Some s \<Rightarrow> s | None \<Rightarrow> [])"
    unfolding fs' by (simp add: log_closed_def)
qed

section \<open>Saving, loading and listing\<close>

lemma store_save_Err:
  assumes "plain_id (fm_id fm)" and "snd (store_save cx io now st fm body fs) = Err e"
  shows "fst (store_save cx io now st fm body fs) (rfc_path st (fm_id fm)) = fs (rfc_path st (fm_id fm))"
  using assms write_atomic_spec(2) [OF assms(1), of cx io st "save_fm cx now fm body" body fs]
  by (auto simp: store_save_def Let_def save_fm_def fs_bind_def split: prod.splits sum.splits)

lemma store_save_Ok:
  assumes "plain_id (fm_id fm)" and "snd (store_save cx io now st fm body fs) = Ok r"
  shows "r = \<lparr>rr_fm = save_fm cx now fm body, rr_body = body\<rparr> \<and>
    (\<exists>content. render_frontmatter cx (save_fm cx now fm body) body = Ok content \<and>
       fst (store_save cx io now st fm body fs) =
         fs(with_extension (rfc_path st (fm_id fm)) ''md.tmp'' := None, rfc_path st (fm_id fm) \<mapsto> content))"
  using assms write_atomic_spec(3) [OF assms(1), of cx io st "save_fm cx now fm body" body fs]
  by (auto simp: store_save_def Let_def save_fm_def fs_bind_def split: prod.splits sum.splits)

lemma store_save_frame:
  assumes "plain_id (fm_id fm)" and "q \<noteq> rfc_path st (fm_id fm)"
    and "q \<noteq> with_extension (rfc_path st (fm_id fm)) ''md.tmp''"
  shows "fst (store_save cx io now st fm body fs) q = fs q"
  using write_atomic_spec(1) [OF assms(1) assms(2,3), of cx io "save_fm cx now fm body" body fs]
  by (auto simp: store_save_def Let_def save_fm_def fs_bind_def assms(1) split: prod.splits sum.splits)

lemma store_load_rendered:
  assumes "plain_id i" and "toml_ok cx fm" and "render_frontmatter cx fm body = Ok content"
    and "fs (rfc_path st i) = Some content"
  shows "store_load cx io_fine st fs i = Ok \<lparr>rr_fm = fm, rr_body = strip_newline body\<rparr>"
  using render_parse [OF assms(2,3)] assms(1,4) by (simp add: store_load_def io_fine_def)

lemma store_save_load:
  assumes "plain_id (fm_id fm)" and "toml_ok cx (save_fm cx now fm body)"
    and "snd (store_save cx io now st fm body fs) = Ok r"
  shows "store_load cx io_fine st (fst (store_save cx io now st fm body fs)) (fm_id fm) =
    Ok \<lparr>rr_fm = save_fm cx now fm body, rr_body = strip_newline body\<rparr>"
proof -
  obtain content where c: "render_frontmatter cx (save_fm cx now fm body) body = Ok content"
    and f: "fst (store_save cx io now st fm body fs) =
       fs(with_extension (rfc_path st (fm_id fm)) ''md.tmp'' := None, rfc_path st (fm_id fm) \<mapsto> content)"
    using store_save_Ok [OF assms(1,3)] by blast
  show ?thesis by (rule store_load_rendered [OF assms(1,2) c]) (simp add: f)
qed

definition loadable :: "Codec \<Rightarrow> path \<Rightarrow> fs \<Rightarrow> string \<Rightarrow> RfcRecord option" where
  "loadable cx dir fs name =
     (if file_extension name \<noteq> Some ''md'' then None
      else case fs (dir @ [name]) of
             None \<Rightarrow> None
           | Some raw \<Rightarrow>
              (case parse_frontmatter cx raw of
                 Inl _ \<Rightarrow> None
               | Inr fb \<Rightarrow> Some \<lparr>rr_fm = fst fb, rr_body = snd fb\<rparr>))"

lemma list_loop_fine:
  "list_loop cx io_fine dir fs names out = Ok (out @ List.map_filter (loadable cx dir fs) names)"
  by (induction names arbitrary: out)
     (auto simp: loadable_def map_filter_simps io_fine_def split: option.splits sum.splits prod.splits)

section \<open>Properties of the store\<close>

text \<open>
  A codec that knows finitely many frontmatters and records and prints each as its
  number; it keeps the promises of the libraries for those.
\<close>

definition index_of :: "'a list \<Rightarrow> 'a \<Rightarrow> nat option" where
  "index_of xs x = find (\<lambda>k. xs ! k = x) [0..<length xs]"

definition table_codec :: "RfcFrontmatter list \<Rightarrow> DecisionRecord list \<Rightarrow> Codec" where
  "table_codec fms rs =
     \<lparr>to_toml = \<lambda>fm. case index_of fms fm of Some k \<Rightarrow> Ok (show_nat k @ [NL]) | None \<Rightarrow> Err ''unknown'',
      from_toml = \<lambda>s. if read_nat s < length fms then Ok (fms ! read_nat s) else Err ''unknown'',
      to_json = \<lambda>r. case index_of rs r of Some k \<Rightarrow> Ok (show_nat k) | None \<Rightarrow> Err ''unknown'',
      from_json = \<lambda>s. if read_nat s < length rs then Ok (rs ! read_nat s) else Err ''unknown'',
      sha256_hex = \<lambda>s. s\<rparr>"

lemma index_of_mem: "x \<in> set xs \<Longrightarrow> \<exists>k < length xs. index_of xs x = Some k \<and> xs ! k = x"
proof -
  assume "x \<in> set xs"
  then obtain j where "j < length xs" "xs ! j = x" by (auto simp: in_set_conv_nth)
  then have "index_of xs x \<noteq> None" by (auto simp: index_of_def find_None_iff)
  then obtain k where k: "index_of xs x = Some k" by blast
  then have "k < length xs \<and> xs ! k = x" by (auto simp: index_of_def find_Some_iff)
  with k show ?thesis by blast
qed

lemma show_nat_no_ws: "c \<in> set (show_nat n) \<Longrightarrow> \<not> is_whitespace c"
  using show_nat_digits [of n] by (auto simp: list_all_iff is_digit_def is_whitespace_def)

lemma table_codec_toml: "fm \<in> set fms \<Longrightarrow> toml_ok (table_codec fms rs) fm"
proof -
  assume "fm \<in> set fms"
  from index_of_mem [OF this] obtain k where "k < length fms" "index_of fms fm = Some k" "fms ! k = fm"
    by blast
  moreover have "\<not> prefix (NL # DELIM) (drop j (show_nat k))" for j
    using show_nat_no_ws [of NL k] by (auto simp: prefix_def dest: arg_cong [where f = set] in_set_dropD)
      (metis in_set_dropD is_whitespace_simps(2) list.set_intros(1) show_nat_no_ws)
  ultimately show ?thesis by (auto simp: toml_ok_def table_codec_def)
qed

lemma table_codec_json: "r \<in> set rs \<Longrightarrow> json_ok (table_codec fms rs) r"
proof -
  assume "r \<in> set rs"
  from index_of_mem [OF this] obtain k where "k < length rs" "index_of rs r = Some k" "rs ! k = r"
    by blast
  moreover have "trim (show_nat k) \<noteq> []"
    using show_nat_digits [of k] show_nat_no_ws [of "hd (show_nat k)" k]
    by (cases "show_nat k") (auto simp: trim_empty_iff)
  moreover have "NL \<notin> set (show_nat k)" "\<not> suffix [CHR 0x0D] (show_nat k)"
    using show_nat_no_ws [of NL k] show_nat_no_ws [of "CHR 0x0D" k]
    by (auto simp: suffix_def is_whitespace_def)
  ultimately show ?thesis by (auto simp: json_ok_def table_codec_def)
qed

definition sample_fm :: RfcFrontmatter where
  "sample_fm =
     \<lparr>fm_id = ''r'', fm_state = Active, fm_version = 1, fm_created_at = 0, fm_updated_at = 5,
      fm_content_hash = ''sha256:body'', fm_agents = [], fm_locked_by = None, fm_locked_at = None,
      fm_title = None, fm_status = Some ''active'', fm_assigned = None, fm_kind = None,
      fm_forge = None, fm_scope = None, fm_operator = None, fm_dispatch = None\<rparr>"

definition sample_store :: RfcStore where
  "sample_store = \<lparr>project_dir = [''p'']\<rparr>"

definition sample_record :: DecisionRecord where
  "sample_record =
     \<lparr>dr_id = ''d-001'', dr_rfc_id = ''r'', dr_rfc_version = 1, dr_ts = 0, dr_actor = ''a'',
      dr_kind = Clarification, dr_content = JNull, dr_status = DS_Open, dr_prev_hash = [], dr_hash = []\<rparr>"

definition sample_codec :: Codec where
  "sample_codec =
     table_codec [sample_fm, sample_fm\<lparr>fm_state := Archived\<rparr>,
       reopened_fm (table_codec [] []) 9 ''r'' \<lparr>rr_fm = sample_fm, rr_body = ''body''\<rparr>] [sample_record]"

definition sample_fs :: fs where
  "sample_fs = [[''p'', ''rfcs'', ''r.md''] \<mapsto> DELIM @ [NL] @ ''0'' @ [NL] @ DELIM @ [NL] @ ''body'',
     [''p'', ''decisions'', ''r.jsonl''] \<mapsto> ''0'' @ [NL]]"

text \<open>C27. Reopening is crash-safe: whichever call fails, and however much of a write reached
  the disk, an unsuccessful reopen leaves the live RFC file and its decision log exactly
  as they were.\<close>

theorem reopen_crash_safe:
  assumes "plain_id i" and "snd (store_reopen cx io now st i fs) = Err e"
  shows "fst (store_reopen cx io now st i fs) (rfc_path st i) = fs (rfc_path st i) \<and>
         fst (store_reopen cx io now st i fs) (decision_path st i) = fs (decision_path st i)"
  using reopen_keeps_live [OF assms] by blast

definition failing_io :: Io where
  "failing_io = io_fine\<lparr>io_err := \<lambda>tag s. if tag = ''rfc_tmp_write'' then Some ''disk full'' else None, io_part := \<lambda>_. 3\<rparr>"

theorem reopen_crash_safe_witness:
  "fst (store_reopen sample_codec failing_io 9 sample_store ''r'' sample_fs) [''p'', ''rfcs'', ''r.md''] =
     sample_fs [''p'', ''rfcs'', ''r.md''] \<and>
   fst (store_reopen sample_codec failing_io 9 sample_store ''r'' sample_fs) [''p'', ''decisions'', ''r.jsonl''] =
     sample_fs [''p'', ''decisions'', ''r.jsonl'']"
proof -
  have "plain_id ''r''" by code_simp
  moreover have "snd (store_reopen sample_codec failing_io 9 sample_store ''r'' sample_fs)
      = Err (Io_Error ''rfc_tmp_write'' ''disk full'')" by code_simp
  moreover have "rfc_path sample_store ''r'' = [''p'', ''rfcs'', ''r.md'']"
    "decision_path sample_store ''r'' = [''p'', ''decisions'', ''r.jsonl'']" by code_simp+
  ultimately show ?thesis
    using reopen_crash_safe [of "''r''" sample_codec failing_io 9 sample_store sample_fs] by metis
qed

text \<open>A successful reopen archives before it replaces: the previous version is kept in
  the history directory with state archived, its decision log is kept byte for byte,
  and the live file is the next version, in draft-active with the same body, no lock
  and no dispatch plan; the live log is gone unless its removal failed.\<close>

lemma reopen_archives_previous:
  assumes "plain_id i" and "snd (store_reopen cx io now st i fs) = Ok r"
  shows "\<exists>cur archived content.
      store_load cx io st fs i = Ok cur \<and>
      render_frontmatter cx ((rr_fm cur)\<lparr>fm_state := Archived\<rparr>) (rr_body cur) = Ok archived \<and>
      render_frontmatter cx (rr_fm r) (rr_body r) = Ok content \<and>
      r = \<lparr>rr_fm = reopened_fm cx now i cur, rr_body = rr_body cur\<rparr> \<and>
      fst (store_reopen cx io now st i fs) (rfc_path st i) = Some content \<and>
      fst (store_reopen cx io now st i fs) (archived_path st i (fm_version (rr_fm cur))) = Some archived \<and>
      (fs (decision_path st i) \<noteq> None \<longrightarrow>
         fst (store_reopen cx io now st i fs) (path_join (decision_history_dir st i)
           (''v'' @ show_nat (unat (fm_version (rr_fm cur))) @ ''.jsonl'')) = fs (decision_path st i)) \<and>
      (io_err io ''reopen_remove_dec'' Remove = None \<longrightarrow>
         fst (store_reopen cx io now st i fs) (decision_path st i) = None)"
  using assms by (rule reopen_archives)

text \<open>Saving is atomic and durable: a failed save leaves the file as it was, and after a
  successful one the RFC loads back as it was saved, with the content hash of its body
  and the status mirror of its state, for a body that does not begin with a newline.\<close>

lemma store_save_roundtrip:
  assumes "plain_id (fm_id fm)" and "toml_ok cx (save_fm cx now fm body)" and "\<not> prefix [NL] body"
  shows "case snd (store_save cx io now st fm body fs) of
      Inl _ \<Rightarrow> fst (store_save cx io now st fm body fs) (rfc_path st (fm_id fm)) = fs (rfc_path st (fm_id fm))
    | Inr r \<Rightarrow> store_load cx io_fine st (fst (store_save cx io now st fm body fs)) (fm_id fm) = Ok r \<and>
        fm_content_hash (rr_fm r) = content_hash_of cx (rr_body r) \<and>
        fm_status (rr_fm r) = Some (legacy_status_for (fm_state (rr_fm r))) \<and> rr_body r = body"
proof (cases "snd (store_save cx io now st fm body fs)")
  case (Inl e)
  then show ?thesis using store_save_Err [OF assms(1)] by simp
next
  case (Inr r)
  have "strip_newline body = body" using assms(3) by (cases body) auto
  then show ?thesis
    using store_save_load [OF assms(1,2) Inr] store_save_Ok [OF assms(1) Inr] Inr
    by (simp add: save_fm_def)
qed

text \<open>A body that begins with a newline does not survive a save: loading drops that
  newline, while the content hash stored with the file is the hash of the body before.\<close>

lemma leading_newline_lost:
  assumes "plain_id (fm_id fm)" and "toml_ok cx (save_fm cx now fm (NL # b))"
    and "snd (store_save cx io now st fm (NL # b) fs) = Ok r"
  shows "\<exists>r'. store_load cx io_fine st (fst (store_save cx io now st fm (NL # b) fs)) (fm_id fm) = Ok r' \<and>
    rr_body r' = b \<and> fm_content_hash (rr_fm r') = content_hash_of cx (NL # b)"
  using store_save_load [OF assms] by (simp add: save_fm_def)

text \<open>The decision log is append-only: after a successful append the log reads back as
  the records it held before followed by the new one, and it ends with a newline again,
  as long as the file stays under its size cap.\<close>

lemma decision_log_append:
  assumes "json_ok cx r" and "snd (decision_append cx io p r fs) = Ok u"
    and "log_closed (case fs p of Some s \<Rightarrow> s | None \<Rightarrow> [])"
    and "decision_read_all cx io_fine fs p = Ok rs"
    and "utf8_len (case fst (decision_append cx io p r fs) p of Some s \<Rightarrow> s | None \<Rightarrow> []) \<le> max_decision_log_bytes"
  shows "decision_read_all cx io_fine (fst (decision_append cx io p r fs)) p = Ok (rs @ [r]) \<and>
         log_closed (case fst (decision_append cx io p r fs) p of Some s \<Rightarrow> s | None \<Rightarrow> [])"
  using decision_log_step [OF assms] by blast

text \<open>Listing is deterministic whatever order the directory is read in: it returns exactly
  the entries with the RFC extension that parse, each once, sorted by identifier;
  entries that do not parse are skipped without an error.\<close>

lemma store_list_sorted:
  assumes "listing (path_join (project_dir st) ''rfcs'') = Some names"
  shows "\<exists>rs. store_list cx io_fine st listing fs = Ok rs \<and> sorted (map (\<lambda>r. fm_id (rr_fm r)) rs) \<and>
           mset rs = mset (List.map_filter (loadable cx (path_join (project_dir st) ''rfcs'') fs) names)"
  using assms by (simp add: store_list_def list_loop_fine Let_def io_fine_def) (simp add: io_fine_def [symmetric] list_loop_fine)

text \<open>Accepted identifiers cannot leave the store: the file of an accepted identifier lies
  under the project's RFC directory and its path holds no parent component. It need
  not be a bare file name, though: a trailing separator passes the check.\<close>

lemma validated_path_contained:
  assumes "validate_id i = Ok ()"
  shows "\<exists>tail. rfc_path st i = project_dir st @ ''rfcs'' # tail \<and> ''..'' \<notin> set tail"
proof -
  have ne: "split_on (CHR ''/'') i \<noteq> []" by simp
  have "ParentDir \<notin> set (components i)"
    using assms by (auto simp: validate_id_def split: list.splits PathComponent.splits)
  then have nd: "''..'' \<notin> set (path_comps i)" by (force simp: components_def Let_def image_iff)
  have "''..'' \<notin> set (butlast (split_on (CHR ''/'') i))"
    using nd by (auto simp: path_comps_def dest: in_set_butlastD)
  then have "''..'' \<notin> set (path_comps (i @ ''.md''))"
    by (auto simp: path_comps_def split_on_append_no_sep append_eq_Cons_conv)
  then show ?thesis by (simp add: rfc_path_def path_join_def path_comps_plain)
qed

end
