(* ===== verification/Rfc_Lock.thy ===== *)
theory Rfc_Lock
  imports Rfc_Types
begin

section \<open>The write lock of an RFC\<close>

text \<open>
  Models \<^verbatim>\<open>crates/orkia-rfc-lock/src/lib.rs\<close>: a table of leases with a timeout. System time
  is an integer and may go backwards, a duration a natural number, both in nanoseconds.
\<close>

type_synonym SystemTime = int

definition default_timeout :: nat where
  "default_timeout = 15 * 60 * 1000000000"

datatype UnlockReason = AgentExit | Explicit | Timeout | ReplacedLock

record LockInfo =
  li_rfc_id :: RfcId
  li_held_by :: AgentId
  li_acquired_at :: SystemTime
  li_last_activity :: SystemTime
  li_timeout :: nat

definition is_expired :: "LockInfo \<Rightarrow> SystemTime \<Rightarrow> bool" where
  "is_expired i now =
     (if now < li_last_activity i then False else now - li_last_activity i > int (li_timeout i))"

record LockStore =
  ls_locks :: "(RfcId \<times> LockInfo) list"
  ls_timeout :: nat

definition locks_new :: LockStore where
  "locks_new = \<lparr>ls_locks = [], ls_timeout = default_timeout\<rparr>"

definition locks_with_timeout :: "nat \<Rightarrow> LockStore" where
  "locks_with_timeout t = \<lparr>ls_locks = [], ls_timeout = t\<rparr>"

definition locks_status :: "LockStore \<Rightarrow> RfcId \<Rightarrow> LockInfo option" where
  "locks_status s r = map_of (ls_locks s) r"

definition acquire_at :: "LockStore \<Rightarrow> RfcId \<Rightarrow> AgentId \<Rightarrow> SystemTime \<Rightarrow> LockStore \<times> (RfcError, LockInfo) result" where
  "acquire_at s rfc_id agent now =
     (let info = \<lparr>li_rfc_id = rfc_id, li_held_by = agent, li_acquired_at = now,
                  li_last_activity = now, li_timeout = ls_timeout s\<rparr>;
          fresh = (s\<lparr>ls_locks := hm_insert rfc_id info (ls_locks s)\<rparr>, Ok info)
      in case map_of (ls_locks s) rfc_id of
           None \<Rightarrow> fresh
         | Some existing \<Rightarrow>
             if is_expired existing now then fresh
             else if li_held_by existing \<noteq> agent
               then (s, Err (Locked rfc_id (li_held_by existing)
                 (''Agent '' @ li_held_by existing @ '' currently holds the write lock. You may still read via get_context or ask clarifications.'')))
             else (let refreshed = existing\<lparr>li_last_activity := now\<rparr>
                   in (s\<lparr>ls_locks := hm_insert rfc_id refreshed (ls_locks s)\<rparr>, Ok refreshed)))"

definition locks_release :: "LockStore \<Rightarrow> RfcId \<Rightarrow> AgentId \<Rightarrow> UnlockReason \<Rightarrow> LockStore \<times> UnlockReason option" where
  "locks_release s rfc_id agent reason =
     (case map_of (ls_locks s) rfc_id of
        Some info \<Rightarrow>
          if li_held_by info = agent
          then (s\<lparr>ls_locks := hm_remove rfc_id (ls_locks s)\<rparr>, Some reason) else (s, None)
      | None \<Rightarrow> (s, None))"

definition locks_force_release :: "LockStore \<Rightarrow> RfcId \<Rightarrow> LockStore \<times> AgentId option" where
  "locks_force_release s rfc_id =
     (s\<lparr>ls_locks := hm_remove rfc_id (ls_locks s)\<rparr>, map_option li_held_by (map_of (ls_locks s) rfc_id))"

definition locks_release_all_for :: "LockStore \<Rightarrow> AgentId \<Rightarrow> LockStore \<times> RfcId list" where
  "locks_release_all_for s agent =
     (let to_remove = map fst (filter (\<lambda>p. li_held_by (snd p) = agent) (ls_locks s))
      in (s\<lparr>ls_locks := foldl (\<lambda>m r. hm_remove r m) (ls_locks s) to_remove\<rparr>, to_remove))"

definition locks_reap_expired :: "LockStore \<Rightarrow> SystemTime \<Rightarrow> LockStore \<times> (RfcId \<times> AgentId) list" where
  "locks_reap_expired s now =
     (let expired = map (\<lambda>p. (fst p, li_held_by (snd p))) (filter (\<lambda>p. is_expired (snd p) now) (ls_locks s))
      in (s\<lparr>ls_locks := foldl (\<lambda>m r. hm_remove r m) (ls_locks s) (map fst expired)\<rparr>, expired))"

section \<open>The contract of a lease table\<close>

text \<open>
  What clients rely on, for a table of leases observed at one instant: \<open>holder\<close> is the
  agent whose lease is still running. Taking a lease succeeds exactly when nobody else
  holds it, giving one back only affects the caller's own, and other resources are not
  disturbed.
\<close>

locale lease_table =
  fixes holder :: "'s \<Rightarrow> int \<Rightarrow> 'r \<Rightarrow> 'a option"
    and take_lease :: "'s \<Rightarrow> 'r \<Rightarrow> 'a \<Rightarrow> int \<Rightarrow> 's \<times> bool"
    and give_back :: "'s \<Rightarrow> 'r \<Rightarrow> 'a \<Rightarrow> 's"
  assumes take_ok: "snd (take_lease s r a now) \<longleftrightarrow> holder s now r = None \<or> holder s now r = Some a"
    and take_holds: "snd (take_lease s r a now) \<Longrightarrow> holder (fst (take_lease s r a now)) now r = Some a"
    and take_refused: "\<not> snd (take_lease s r a now) \<Longrightarrow> fst (take_lease s r a now) = s"
    and take_frame: "r' \<noteq> r \<Longrightarrow> holder (fst (take_lease s r a now)) t r' = holder s t r'"
    and give_back_own: "holder (give_back s r a) t r = Some b \<longleftrightarrow> holder s t r = Some b \<and> b \<noteq> a"
    and give_back_frame: "r' \<noteq> r \<Longrightarrow> holder (give_back s r a) t r' = holder s t r'"
begin

text \<open>What agents do at one instant: requests and returns, in any interleaving.\<close>

fun run :: "int \<Rightarrow> ('r \<times> 'a \<times> bool) list \<Rightarrow> 's \<Rightarrow> 's" where
  "run now [] s = s"
| "run now ((r, a, want) # ops) s =
     run now ops (if want then fst (take_lease s r a now) else give_back s r a)"

lemma others_cannot_take:
  "holder s now r = Some a \<Longrightarrow> list_all (\<lambda>(r', b, want). r' = r \<longrightarrow> b \<noteq> a) ops \<Longrightarrow>
   holder (run now ops s) now r = Some a"
proof (induction now ops s rule: run.induct)
  case (2 now r' b want ops s)
  show ?case
  proof (cases "r' = r")
    case True
    with 2(3) have "b \<noteq> a" by simp
    then have "\<not> snd (take_lease s r b now)" using 2(2) by (simp add: take_ok)
    then have "holder (if want then fst (take_lease s r' b now) else give_back s r' b) now r = Some a"
      using 2(2) True \<open>b \<noteq> a\<close> by (simp add: take_refused give_back_own)
    then show ?thesis using 2(1,3) by simp
  next
    case False
    then have "holder (if want then fst (take_lease s r' b now) else give_back s r' b) now r = Some a"
      using 2(2) by (simp add: take_frame give_back_frame)
    then show ?thesis using 2(1,3) by simp
  qed
qed simp

lemma second_refused:
  "snd (take_lease s r a now) \<Longrightarrow> b \<noteq> a \<Longrightarrow>
   list_all (\<lambda>(r', c, want). r' = r \<longrightarrow> c \<noteq> a) ops \<Longrightarrow>
   \<not> snd (take_lease (run now ops (fst (take_lease s r a now))) r b now)"
  using others_cannot_take [OF take_holds] by (simp add: take_ok)

end

definition lock_holder :: "LockStore \<Rightarrow> SystemTime \<Rightarrow> RfcId \<Rightarrow> AgentId option" where
  "lock_holder s now r =
     (case map_of (ls_locks s) r of
        None \<Rightarrow> None
      | Some i \<Rightarrow> if is_expired i now then None else Some (li_held_by i))"

lemma fresh_not_expired [simp]:
  "\<not> is_expired \<lparr>li_rfc_id = r, li_held_by = a, li_acquired_at = now, li_last_activity = now, li_timeout = t\<rparr> now"
  "\<not> is_expired (i\<lparr>li_last_activity := now\<rparr>) now"
  by (simp_all add: is_expired_def)

lemma acquire_at_Err:
  "snd (acquire_at s r a now) = Err e \<Longrightarrow>
   fst (acquire_at s r a now) = s \<and> (\<exists>b act. lock_holder s now r = Some b \<and> b \<noteq> a \<and> e = Locked r b act)"
  by (auto simp: acquire_at_def lock_holder_def Let_def split: option.splits if_splits)

lemma acquire_at_Ok:
  "snd (acquire_at s r a now) = Ok i \<Longrightarrow>
   lock_holder s now r \<in> {None, Some a} \<and> lock_holder (fst (acquire_at s r a now)) now r = Some a \<and>
   li_held_by i = a \<and> map_of (ls_locks (fst (acquire_at s r a now))) r = Some i"
  by (auto simp: acquire_at_def lock_holder_def Let_def split: option.splits if_splits)

lemma acquire_at_frame:
  "r' \<noteq> r \<Longrightarrow> lock_holder (fst (acquire_at s r a now)) t r' = lock_holder s t r'"
  by (auto simp: acquire_at_def lock_holder_def Let_def split: option.splits if_splits)

interpretation lock: lease_table lock_holder
  "\<lambda>s r a now. apsnd is_ok (acquire_at s r a now)" "\<lambda>s r a. fst (locks_release s r a Explicit)"
proof unfold_locales
  fix s :: LockStore and r r' :: RfcId and a b :: AgentId and now t :: SystemTime
  show "snd (apsnd is_ok (acquire_at s r a now)) \<longleftrightarrow> lock_holder s now r = None \<or> lock_holder s now r = Some a"
    using acquire_at_Err [of s r a now] acquire_at_Ok [of s r a now]
    by (cases "snd (acquire_at s r a now)") auto
  show "snd (apsnd is_ok (acquire_at s r a now)) \<Longrightarrow>
      lock_holder (fst (apsnd is_ok (acquire_at s r a now))) now r = Some a"
    using acquire_at_Ok [of s r a now] by (cases "snd (acquire_at s r a now)") auto
  show "\<not> snd (apsnd is_ok (acquire_at s r a now)) \<Longrightarrow> fst (apsnd is_ok (acquire_at s r a now)) = s"
    using acquire_at_Err [of s r a now] by (cases "snd (acquire_at s r a now)") auto
  show "r' \<noteq> r \<Longrightarrow> lock_holder (fst (apsnd is_ok (acquire_at s r a now))) t r' = lock_holder s t r'"
    by (simp add: acquire_at_frame)
  show "lock_holder (fst (locks_release s r a Explicit)) t r = Some b \<longleftrightarrow> lock_holder s t r = Some b \<and> b \<noteq> a"
    by (auto simp: locks_release_def lock_holder_def split: option.splits if_splits)
  show "r' \<noteq> r \<Longrightarrow> lock_holder (fst (locks_release s r a Explicit)) t r' = lock_holder s t r'"
    by (auto simp: locks_release_def lock_holder_def split: option.splits if_splits)
qed

section \<open>Bulk releases\<close>

lemma foldl_hm_remove: "map_of (foldl (\<lambda>m r. hm_remove r m) m rs) = (\<lambda>k. if k \<in> set rs then None else map_of m k)"
  by (induction rs arbitrary: m) (auto simp: fun_eq_iff)

definition locks_wf :: "LockStore \<Rightarrow> bool" where
  "locks_wf s \<longleftrightarrow> distinct (map fst (ls_locks s)) \<and> list_all (\<lambda>p. li_rfc_id (snd p) = fst p) (ls_locks s)"

lemma foldl_hm_remove_wf:
  "distinct (map fst m) \<and> list_all P m \<Longrightarrow>
   distinct (map fst (foldl (\<lambda>m r. hm_remove r m) m rs)) \<and> list_all P (foldl (\<lambda>m r. hm_remove r m) m rs)"
  by (induction rs arbitrary: m) simp_all

lemma locks_wf_preserved:
  "locks_wf locks_new" "locks_wf (locks_with_timeout t)"
  "locks_wf s \<Longrightarrow> locks_wf (fst (acquire_at s r a now))"
  "locks_wf s \<Longrightarrow> locks_wf (fst (locks_release s r a reason))"
  "locks_wf s \<Longrightarrow> locks_wf (fst (locks_force_release s r))"
  "locks_wf s \<Longrightarrow> locks_wf (fst (locks_release_all_for s a))"
  "locks_wf s \<Longrightarrow> locks_wf (fst (locks_reap_expired s now))"
proof -
  show "locks_wf locks_new" "locks_wf (locks_with_timeout t)"
    by (simp_all add: locks_wf_def locks_new_def locks_with_timeout_def)
  have key: "li_rfc_id i = r" if "locks_wf s" "map_of (ls_locks s) r = Some i" for i r
    using that map_of_SomeD by (fastforce simp: locks_wf_def list_all_iff)
  show "locks_wf s \<Longrightarrow> locks_wf (fst (acquire_at s r a now))"
    using key [of r] by (auto simp: acquire_at_def Let_def locks_wf_def split: option.splits)
  show "locks_wf s \<Longrightarrow> locks_wf (fst (locks_release s r a reason))"
    by (auto simp: locks_release_def locks_wf_def split: option.splits)
  show "locks_wf s \<Longrightarrow> locks_wf (fst (locks_force_release s r))"
    by (simp add: locks_force_release_def locks_wf_def)
  show "locks_wf s \<Longrightarrow> locks_wf (fst (locks_release_all_for s a))"
    and "locks_wf s \<Longrightarrow> locks_wf (fst (locks_reap_expired s now))"
    using foldl_hm_remove_wf by (simp_all add: locks_release_all_for_def locks_reap_expired_def locks_wf_def Let_def)
qed

lemma release_all_status:
  assumes "locks_wf s"
  shows "locks_status (fst (locks_release_all_for s a)) r =
    (case locks_status s r of Some i \<Rightarrow> if li_held_by i = a then None else Some i | None \<Rightarrow> None)"
proof -
  have "r \<in> fst ` set (filter (\<lambda>p. li_held_by (snd p) = a) (ls_locks s)) \<longleftrightarrow>
      (\<exists>i. map_of (ls_locks s) r = Some i \<and> li_held_by i = a)"
    using assms by (force simp: locks_wf_def image_iff)
  then show ?thesis
    by (auto simp: locks_status_def locks_release_all_for_def Let_def foldl_hm_remove split: option.splits)
qed

lemma reap_status:
  assumes "locks_wf s"
  shows "locks_status (fst (locks_reap_expired s now)) r =
    (case locks_status s r of Some i \<Rightarrow> if is_expired i now then None else Some i | None \<Rightarrow> None)"
proof -
  have "r \<in> fst ` set (filter (\<lambda>p. is_expired (snd p) now) (ls_locks s)) \<longleftrightarrow>
      (\<exists>i. map_of (ls_locks s) r = Some i \<and> is_expired i now)"
    using assms by (force simp: locks_wf_def image_iff)
  then show ?thesis
    by (auto simp: locks_status_def locks_reap_expired_def Let_def foldl_hm_remove comp_def image_image
        split: option.splits)
qed

section \<open>Properties of the lock\<close>

text \<open>C37. Mutual exclusion: once an agent has taken the write lock of an RFC, no other agent
  can take it at that instant, whatever other agents request or release in between, on
  this RFC or on others.\<close>

theorem lock_mutual_exclusion:
  assumes "is_ok (snd (acquire_at s r a now))" and "b \<noteq> a"
    and "list_all (\<lambda>(r', c, want). r' = r \<longrightarrow> c \<noteq> a) ops"
  shows "\<not> is_ok (snd (acquire_at (lock.run now ops (fst (acquire_at s r a now))) r b now))"
  using lock.second_refused [of s r a now b ops] assms by simp

theorem lock_mutual_exclusion_witness:
  "\<not> is_ok (snd (acquire_at (lock.run 7 [(''r'', ''b'', True), (''r'', ''b'', False), (''q'', ''a'', True)]
       (fst (acquire_at locks_new ''r'' ''a'' 7))) ''r'' ''b'' 7))"
proof (rule lock_mutual_exclusion)
  show "is_ok (snd (acquire_at locks_new ''r'' ''a'' 7))" by (simp add: acquire_at_def locks_new_def Let_def)
qed simp_all

text \<open>A refused request changes nothing and names the holder; a granted one makes the
  caller the holder, and it was free, expired or the caller's own before.\<close>

lemma acquire_outcome:
  "case snd (acquire_at s r a now) of
     Inl e \<Rightarrow> fst (acquire_at s r a now) = s \<and>
       (\<exists>b act. lock_holder s now r = Some b \<and> b \<noteq> a \<and> e = Locked r b act)
   | Inr i \<Rightarrow> lock_holder s now r \<in> {None, Some a} \<and> li_held_by i = a \<and>
       lock_holder (fst (acquire_at s r a now)) now r = Some a"
  using acquire_at_Err [of s r a now] acquire_at_Ok [of s r a now]
  by (cases "snd (acquire_at s r a now)") auto

text \<open>The bulk releases remove exactly what they say: releasing for an agent removes its
  leases and no others, reaping removes the expired ones and no others, and the table
  stays well formed.\<close>

lemma bulk_release_exact:
  assumes "locks_wf s"
  shows "locks_status (fst (locks_release_all_for s a)) r =
      (case locks_status s r of Some i \<Rightarrow> if li_held_by i = a then None else Some i | None \<Rightarrow> None) \<and>
    locks_status (fst (locks_reap_expired s now)) r =
      (case locks_status s r of Some i \<Rightarrow> if is_expired i now then None else Some i | None \<Rightarrow> None) \<and>
    locks_wf (fst (locks_release_all_for s a)) \<and> locks_wf (fst (locks_reap_expired s now))"
  using release_all_status [OF assms] reap_status [OF assms] locks_wf_preserved(6,7) [OF assms] by blast

end
