(* ===== verification/Rfc_Service.thy ===== *)
theory Rfc_Service
  imports Rfc_Store Rfc_Lock
begin

section \<open>The RFC service\<close>

text \<open>
  Models \<^verbatim>\<open>crates/orkia-rfc-state/src\<close>: the events (\<^verbatim>\<open>events.rs\<close>) and \<^verbatim>\<open>RfcStateService\<close> with its
  reads, clarifications, decisions and edits (\<^verbatim>\<open>service/queries.rs\<close>), transitions
  (\<^verbatim>\<open>service/transitions.rs\<close>), locks (\<^verbatim>\<open>service/locks.rs\<close>) and start-up (\<^verbatim>\<open>service/mod.rs\<close>).

  A service state holds the store, the files, the lock table with its mutex flag, the
  decision counter and the events emitted so far. A call gets an \<open>Env\<close>: the codecs, the
  clocks, and the outcomes of the host's calls, separately for each phase in which the
  source touches the disk more than once. Every operation is a state transformer that
  returns a result; an error keeps the changes made before it.
\<close>

subsection \<open>Events\<close>

datatype RfcEvent =
    EvCreated RfcId AgentId
  | EvStateChanged RfcId RfcState RfcState AgentId string
  | EvLocked RfcId AgentId
  | EvUnlocked RfcId AgentId UnlockReason
  | EvEditApplied RfcId AgentId SectionPath ContentHash ContentHash
  | EvReopened RfcId AgentId "32 word" "32 word"
  | EvPromoted RfcId "32 word" AgentId
  | EvCompleted RfcId AgentId
  | EvAbandoned RfcId AgentId string
  | EvDecisionOpened RfcId DecisionId AgentId
  | EvDecisionResolved RfcId DecisionId AgentId
  | EvDecisionProposed RfcId DecisionId AgentId

fun event_name :: "RfcEvent \<Rightarrow> string" where
  "event_name (EvCreated _ _) = ''rfc.created''"
| "event_name (EvStateChanged _ _ _ _ _) = ''rfc.state_changed''"
| "event_name (EvLocked _ _) = ''rfc.locked''"
| "event_name (EvUnlocked _ _ _) = ''rfc.unlocked''"
| "event_name (EvEditApplied _ _ _ _ _) = ''rfc.edit_applied''"
| "event_name (EvReopened _ _ _ _) = ''rfc.reopened''"
| "event_name (EvPromoted _ _ _) = ''rfc.promoted''"
| "event_name (EvCompleted _ _) = ''rfc.completed''"
| "event_name (EvAbandoned _ _ _) = ''rfc.abandoned''"
| "event_name (EvDecisionOpened _ _ _) = ''rfc.decision_opened''"
| "event_name (EvDecisionResolved _ _ _) = ''rfc.decision_resolved''"
| "event_name (EvDecisionProposed _ _ _) = ''rfc.decision_proposed''"

fun event_rfc_id :: "RfcEvent \<Rightarrow> RfcId" where
  "event_rfc_id (EvCreated i _) = i"
| "event_rfc_id (EvStateChanged i _ _ _ _) = i"
| "event_rfc_id (EvLocked i _) = i"
| "event_rfc_id (EvUnlocked i _ _) = i"
| "event_rfc_id (EvEditApplied i _ _ _ _) = i"
| "event_rfc_id (EvReopened i _ _ _) = i"
| "event_rfc_id (EvPromoted i _ _) = i"
| "event_rfc_id (EvCompleted i _) = i"
| "event_rfc_id (EvAbandoned i _ _) = i"
| "event_rfc_id (EvDecisionOpened i _ _) = i"
| "event_rfc_id (EvDecisionResolved i _ _) = i"
| "event_rfc_id (EvDecisionProposed i _ _) = i"

subsection \<open>State, environment and sequencing\<close>

record Svc =
  svc_store :: RfcStore
  svc_locks :: LockStore
  svc_poisoned :: bool
  svc_seq :: "32 word"
  svc_fs :: fs
  svc_events :: "RfcEvent list"

record Env =
  e_cx :: Codec
  e_io :: "string \<Rightarrow> Io"
  e_now :: "string \<Rightarrow> Time"
  e_sys :: SystemTime

type_synonym 'a svc = "Svc \<Rightarrow> Svc \<times> (RfcError, 'a) result"

definition s_bind :: "'a svc \<Rightarrow> ('a \<Rightarrow> 'b svc) \<Rightarrow> 'b svc" where
  "s_bind m f s = (case m s of (s', Inl e) \<Rightarrow> (s', Inl e) | (s', Inr a) \<Rightarrow> f a s')"

definition s_ok :: "'a \<Rightarrow> 'a svc" where
  "s_ok a s = (s, Ok a)"

definition s_get :: "(Svc \<Rightarrow> (RfcError, 'a) result) \<Rightarrow> 'a svc" where
  "s_get g s = (s, g s)"

definition s_fs :: "(RfcStore \<Rightarrow> fs \<Rightarrow> fs \<times> (RfcError, 'a) result) \<Rightarrow> 'a svc" where
  "s_fs g s = (case g (svc_store s) (svc_fs s) of (fs', r) \<Rightarrow> (s\<lparr>svc_fs := fs'\<rparr>, r))"

definition s_emit :: "RfcEvent \<Rightarrow> unit svc" where
  "s_emit ev s = (s\<lparr>svc_events := svc_events s @ [ev]\<rparr>, Ok ())"

definition s_load :: "Env \<Rightarrow> string \<Rightarrow> RfcId \<Rightarrow> RfcRecord svc" where
  "s_load e ph i = s_get (\<lambda>s. store_load (e_cx e) (e_io e ph) (svc_store s) (svc_fs s) i)"

definition s_counts :: "Env \<Rightarrow> string \<Rightarrow> RfcId \<Rightarrow> DecisionCounts svc" where
  "s_counts e ph i = s_get (\<lambda>s. decision_counts (e_cx e) (e_io e ph) (svc_store s) (svc_fs s) i)"

definition s_require :: "bool \<Rightarrow> RfcError \<Rightarrow> unit svc" where
  "s_require b e s = (s, if b then Ok () else Err e)"

subsection \<open>Start-up and decision identifiers\<close>

definition decision_number :: "DecisionId \<Rightarrow> 32 word option" where
  "decision_number d = Option.bind (strip_prefix ''d-'' d) parse_u32"

definition max_number :: "32 word \<Rightarrow> DecisionRecord list \<Rightarrow> 32 word" where
  "max_number m ds =
     foldl (\<lambda>m d. case decision_number (dr_id d) of Some n \<Rightarrow> max m n | None \<Rightarrow> m) m ds"

definition initial_decision_seq :: "Codec \<Rightarrow> Io \<Rightarrow> RfcStore \<Rightarrow> (path \<Rightarrow> string list option) \<Rightarrow> fs \<Rightarrow> 32 word" where
  "initial_decision_seq cx io st listing fs =
     (case store_list cx io st listing fs of
        Err _ \<Rightarrow> 0
      | Ok rfcs \<Rightarrow>
          foldl (\<lambda>m rec. case read_decisions cx io st fs (fm_id (rr_fm rec)) of
                   Ok ds \<Rightarrow> max_number m ds | Err _ \<Rightarrow> m) 0 rfcs)"

definition svc_new :: "Codec \<Rightarrow> Io \<Rightarrow> RfcStore \<Rightarrow> (path \<Rightarrow> string list option) \<Rightarrow> fs \<Rightarrow> Svc" where
  "svc_new cx io st listing fs =
     \<lparr>svc_store = st, svc_locks = locks_new, svc_poisoned = False,
      svc_seq = initial_decision_seq cx io st listing fs, svc_fs = fs, svc_events = []\<rparr>"

definition svc_with_lock_timeout :: "Codec \<Rightarrow> Io \<Rightarrow> RfcStore \<Rightarrow> (path \<Rightarrow> string list option) \<Rightarrow> fs \<Rightarrow> nat \<Rightarrow> Svc" where
  "svc_with_lock_timeout cx io st listing fs timeout =
     \<lparr>svc_store = st, svc_locks = locks_with_timeout timeout, svc_poisoned = False,
      svc_seq = initial_decision_seq cx io st listing fs, svc_fs = fs, svc_events = []\<rparr>"

definition next_decision_id :: "DecisionId svc" where
  "next_decision_id s =
     (let n = svc_seq s + 1
      in (s\<lparr>svc_seq := n\<rparr>, Ok (''d-'' @ pad3 (show_nat (unat n)))))"

subsection \<open>Requests\<close>

record RfcContext =
  cx_rfc_id :: RfcId
  cx_state :: RfcState
  cx_version :: "32 word"
  cx_content :: string
  cx_content_hash :: ContentHash
  cx_locked_by :: "AgentId option"
  cx_open_clarifications :: nat
  cx_unreviewed_decisions :: nat

record AskRequest =
  ask_rfc_id :: RfcId
  ask_agent :: AgentId
  ask_question :: string
  ask_rationale :: string

record LogDecisionRequest =
  ld_rfc_id :: RfcId
  ld_agent :: AgentId
  ld_content :: string
  ld_rationale :: string
  ld_affects :: "string list"

record EditRequest =
  ed_rfc_id :: RfcId
  ed_agent :: AgentId
  ed_section :: SectionPath
  ed_new_body :: string
  ed_linked_decisions :: "DecisionId list"
  ed_if_hash_matches :: "ContentHash option"

definition lock_poison :: RfcError where
  "lock_poison = Io_Error ''lock_poison'' ''lock store mutex poisoned''"

subsection \<open>Reads and creation\<close>

definition get_context :: "Env \<Rightarrow> RfcId \<Rightarrow> RfcContext svc" where
  "get_context e i =
     s_bind (s_load e ''get_context'' i) (\<lambda>rec.
     s_bind (s_counts e ''get_context'' i) (\<lambda>counts.
     s_get (\<lambda>s. if svc_poisoned s then Err lock_poison
       else Ok \<lparr>cx_rfc_id = fm_id (rr_fm rec), cx_state = fm_state (rr_fm rec),
                cx_version = fm_version (rr_fm rec), cx_content = rr_body rec,
                cx_content_hash = fm_content_hash (rr_fm rec),
                cx_locked_by = map_option li_held_by (locks_status (svc_locks s) i),
                cx_open_clarifications = dc_open_clarifications counts,
                cx_unreviewed_decisions = dc_unreviewed_decisions counts\<rparr>)))"

definition svc_create :: "Env \<Rightarrow> RfcId \<Rightarrow> AgentId \<Rightarrow> string option \<Rightarrow> RfcContext svc" where
  "svc_create e i by_agent title =
     s_bind (s_fs (\<lambda>st. store_create (e_cx e) (e_io e ''create'') (e_now e ''create'') st i title)) (\<lambda>rec.
     s_bind (s_emit (EvCreated i by_agent)) (\<lambda>_.
     s_ok \<lparr>cx_rfc_id = fm_id (rr_fm rec), cx_state = fm_state (rr_fm rec),
           cx_version = fm_version (rr_fm rec), cx_content = rr_body rec,
           cx_content_hash = fm_content_hash (rr_fm rec), cx_locked_by = None,
           cx_open_clarifications = 0, cx_unreviewed_decisions = 0\<rparr>))"

subsection \<open>Transitions\<close>

definition svc_transition :: "Env \<Rightarrow> RfcId \<Rightarrow> Transition \<Rightarrow> AgentId \<Rightarrow> string \<Rightarrow> RfcState svc" where
  "svc_transition e i t by_agent reason =
     s_bind (s_load e ''transition'' i) (\<lambda>rec.
     s_bind (s_counts e ''transition'' i) (\<lambda>counts.
     s_bind (s_get (\<lambda>_. validate_transition i (fm_state (rr_fm rec)) t
         \<lparr>tc_open_clarifications = dc_open_clarifications counts,
          tc_unreviewed_decisions = dc_unreviewed_decisions counts, tc_dispatch_done = True\<rparr>)) (\<lambda>to.
     s_bind (s_fs (\<lambda>st. store_save (e_cx e) (e_io e ''transition'') (e_now e ''transition'') st
         ((rr_fm rec)\<lparr>fm_state := to\<rparr>) (rr_body rec))) (\<lambda>_.
     s_bind (s_emit (EvStateChanged i (fm_state (rr_fm rec)) to by_agent reason)) (\<lambda>_.
     s_ok to)))))"

definition svc_promote :: "Env \<Rightarrow> RfcId \<Rightarrow> AgentId \<Rightarrow> RfcState svc" where
  "svc_promote e i approver =
     s_bind (svc_transition e i Promote approver ''promote'') (\<lambda>_.
     s_bind (s_load e ''promote'' i) (\<lambda>rec.
     s_bind (s_emit (EvPromoted i (fm_version (rr_fm rec)) approver)) (\<lambda>_.
     s_ok (fm_state (rr_fm rec)))))"

definition svc_complete :: "Env \<Rightarrow> RfcId \<Rightarrow> AgentId \<Rightarrow> RfcState svc" where
  "svc_complete e i by_agent =
     s_bind (svc_transition e i Complete by_agent ''complete'') (\<lambda>_.
     s_bind (s_emit (EvCompleted i by_agent)) (\<lambda>_.
     s_ok Completed))"

definition svc_abandon :: "Env \<Rightarrow> RfcId \<Rightarrow> AgentId \<Rightarrow> string \<Rightarrow> RfcState svc" where
  "svc_abandon e i by_agent reason =
     s_bind (svc_transition e i Abandon by_agent reason) (\<lambda>_.
     s_bind (s_emit (EvAbandoned i by_agent reason)) (\<lambda>_.
     s_ok Abandoned))"

definition svc_reopen :: "Env \<Rightarrow> RfcId \<Rightarrow> AgentId \<Rightarrow> RfcState svc" where
  "svc_reopen e i by_agent =
     s_bind (s_load e ''reopen'' i) (\<lambda>current.
     s_bind (s_get (\<lambda>_. validate_transition i (fm_state (rr_fm current)) Reopen default_ctx)) (\<lambda>_.
     s_bind (s_fs (\<lambda>st. store_reopen (e_cx e) (e_io e ''store_reopen'') (e_now e ''reopen'') st i)) (\<lambda>new_rec.
     s_bind (s_emit (EvReopened i by_agent (fm_version (rr_fm current)) (fm_version (rr_fm new_rec)))) (\<lambda>_.
     s_bind (s_emit (EvStateChanged i (fm_state (rr_fm current)) DraftActive by_agent ''reopen'')) (\<lambda>_.
     s_ok (fm_state (rr_fm new_rec)))))))"

subsection \<open>Clarifications and decisions\<close>

definition allow_tool :: "RfcId \<Rightarrow> RfcRecord \<Rightarrow> RfcTool \<Rightarrow> string \<Rightarrow> (RfcError, unit) result" where
  "allow_tool i rec tool op =
     (case tool_allowed (fm_state (rr_fm rec)) tool of
        Ok u \<Rightarrow> Ok u
      | Err action \<Rightarrow> Err (InvalidState i (fm_state (rr_fm rec)) op action))"

definition ask :: "Env \<Rightarrow> AskRequest \<Rightarrow> DecisionId svc" where
  "ask e req =
     s_bind (s_require (trim (ask_rationale req) \<noteq> []) (RationaleRequired ''ask'')) (\<lambda>_.
     s_bind (s_load e ''ask'' (ask_rfc_id req)) (\<lambda>rec.
     s_bind (s_get (\<lambda>_. allow_tool (ask_rfc_id req) rec AskTool ''ask'')) (\<lambda>_.
     s_bind next_decision_id (\<lambda>did.
     s_bind (s_fs (\<lambda>st. append_decision (e_cx e) (e_io e ''ask'') st
         \<lparr>dr_id = did, dr_rfc_id = ask_rfc_id req, dr_rfc_version = fm_version (rr_fm rec),
          dr_ts = e_now e ''ask'', dr_actor = ask_agent req, dr_kind = Clarification,
          dr_content = JObj [(''q'', JStr (ask_question req)), (''rationale'', JStr (ask_rationale req))],
          dr_status = DS_Open, dr_prev_hash = [], dr_hash = []\<rparr>)) (\<lambda>_.
     s_bind (s_emit (EvDecisionOpened (ask_rfc_id req) did (ask_agent req))) (\<lambda>_.
     s_ok did))))))"

fun kind_debug :: "DecisionKind \<Rightarrow> string" where
  "kind_debug Clarification = ''Clarification''"
| "kind_debug ClarificationResolved = ''ClarificationResolved''"
| "kind_debug DesignProposed = ''DesignProposed''"
| "kind_debug DesignReviewed = ''DesignReviewed''"
| "kind_debug DispatchOutput = ''DispatchOutput''"
| "kind_debug AcceptanceVerdict = ''AcceptanceVerdict''"
| "kind_debug GlobalVerdict = ''GlobalVerdict''"
| "kind_debug ReplanDecision = ''ReplanDecision''"

fun status_debug :: "DecisionStatus \<Rightarrow> string" where
  "status_debug DS_Open = ''Open''"
| "status_debug DS_Resolved = ''Resolved''"
| "status_debug DS_Proposed = ''Proposed''"
| "status_debug DS_Reviewed = ''Reviewed''"

definition resolvable :: "RfcId \<Rightarrow> DecisionId \<Rightarrow> DecisionRecord list \<Rightarrow> (RfcError, unit) result" where
  "resolvable i did decisions =
     (case find (\<lambda>d. dr_id d = did) (rev decisions) of
        None \<Rightarrow> Err (DecisionNotResolvable i did ''no such decision''
          ''Check the decision id; only an open clarification can be resolved.'')
      | Some d \<Rightarrow>
          if dr_status d \<noteq> DS_Open \<or> dr_kind d \<noteq> Clarification
          then Err (DecisionNotResolvable i did
            (''decision is '' @ kind_debug (dr_kind d) @ ''/'' @ status_debug (dr_status d)
               @ '', not an open clarification'') ''Only an open clarification can be resolved.'')
          else Ok ())"

definition resolve_clarification :: "Env \<Rightarrow> RfcId \<Rightarrow> DecisionId \<Rightarrow> AgentId \<Rightarrow> string \<Rightarrow> unit svc" where
  "resolve_clarification e i did by_agent answer =
     s_bind (s_load e ''resolve'' i) (\<lambda>rec.
     s_bind (s_get (\<lambda>s. read_decisions (e_cx e) (e_io e ''resolve'') (svc_store s) (svc_fs s) i)) (\<lambda>decisions.
     s_bind (s_get (\<lambda>_. resolvable i did decisions)) (\<lambda>_.
     s_bind (s_fs (\<lambda>st. append_decision (e_cx e) (e_io e ''resolve'') st
         \<lparr>dr_id = did, dr_rfc_id = i, dr_rfc_version = fm_version (rr_fm rec),
          dr_ts = e_now e ''resolve'', dr_actor = by_agent, dr_kind = ClarificationResolved,
          dr_content = JObj [(''a'', JStr answer)], dr_status = DS_Resolved,
          dr_prev_hash = [], dr_hash = []\<rparr>)) (\<lambda>_.
     s_bind (s_emit (EvDecisionResolved i did by_agent)) (\<lambda>_.
     if fm_state (rr_fm rec) = DraftEmpty then
       s_bind (s_counts e ''resolve_counts'' i) (\<lambda>counts.
       if dc_open_clarifications counts = 0
       then s_bind (svc_transition e i ResolveClarifications by_agent ''all clarifications resolved'')
              (\<lambda>_. s_ok ())
       else s_ok ())
     else s_ok ())))))"

definition log_decision :: "Env \<Rightarrow> LogDecisionRequest \<Rightarrow> DecisionId svc" where
  "log_decision e req =
     s_bind (s_require (trim (ld_rationale req) \<noteq> []) (RationaleRequired ''log_decision'')) (\<lambda>_.
     s_bind (s_load e ''log_decision'' (ld_rfc_id req)) (\<lambda>rec.
     s_bind (s_get (\<lambda>_. allow_tool (ld_rfc_id req) rec LogDecision ''log_decision'')) (\<lambda>_.
     s_bind next_decision_id (\<lambda>did.
     s_bind (s_fs (\<lambda>st. append_decision (e_cx e) (e_io e ''log_decision'') st
         \<lparr>dr_id = did, dr_rfc_id = ld_rfc_id req, dr_rfc_version = fm_version (rr_fm rec),
          dr_ts = e_now e ''log_decision'', dr_actor = ld_agent req, dr_kind = DesignProposed,
          dr_content = JObj [(''affects'', JArr (map JStr (ld_affects req))), (''content'', JStr (ld_content req)),
            (''rationale'', JStr (ld_rationale req))],
          dr_status = DS_Proposed, dr_prev_hash = [], dr_hash = []\<rparr>)) (\<lambda>_.
     s_bind (s_emit (EvDecisionProposed (ld_rfc_id req) did (ld_agent req))) (\<lambda>_.
     s_ok did))))))"

subsection \<open>Edits\<close>

definition s_acquire :: "Env \<Rightarrow> RfcId \<Rightarrow> AgentId \<Rightarrow> LockInfo svc" where
  "s_acquire e i agent s =
     (case acquire_at (svc_locks s) i agent (e_sys e) of (l, r) \<Rightarrow> (s\<lparr>svc_locks := l\<rparr>, r))"

definition newly_acquired :: "LockStore \<Rightarrow> RfcId \<Rightarrow> AgentId \<Rightarrow> bool" where
  "newly_acquired l i agent \<longleftrightarrow>
     locks_status l i = None \<or> map_option li_held_by (locks_status l i) \<noteq> Some agent"

definition snapshot_check :: "EditRequest \<Rightarrow> RfcRecord \<Rightarrow> (RfcError, unit) result" where
  "snapshot_check req rec =
     (case ed_if_hash_matches req of
        Some claimed \<Rightarrow>
          if claimed \<noteq> fm_content_hash (rr_fm rec)
          then Err (StaleSnapshot claimed (fm_content_hash (rr_fm rec))
            ''Call orkia_rfc_get_context to refresh, then retry.'')
          else Ok ()
      | None \<Rightarrow> Ok ())"

definition propose_edit :: "Env \<Rightarrow> EditRequest \<Rightarrow> ContentHash svc" where
  "propose_edit e req =
     s_bind (s_get (\<lambda>s. if svc_poisoned s then Err lock_poison else Ok ())) (\<lambda>_.
     s_bind (s_load e ''propose_edit'' (ed_rfc_id req)) (\<lambda>rec.
     s_bind (s_get (\<lambda>_. allow_tool (ed_rfc_id req) rec ProposeEdit ''propose_edit'')) (\<lambda>_.
     s_bind (s_get (\<lambda>_. snapshot_check req rec)) (\<lambda>_.
     s_bind (s_get (\<lambda>s. Ok (newly_acquired (svc_locks s) (ed_rfc_id req) (ed_agent req)))) (\<lambda>acquired.
     s_bind (s_acquire e (ed_rfc_id req) (ed_agent req)) (\<lambda>_.
     s_bind (s_fs (\<lambda>st. store_save (e_cx e) (e_io e ''propose_edit'') (e_now e ''propose_edit'') st
         (rr_fm rec) (ed_new_body req))) (\<lambda>saved.
     s_bind (if acquired then s_emit (EvLocked (ed_rfc_id req) (ed_agent req)) else s_ok ()) (\<lambda>_.
     s_bind (s_emit (EvEditApplied (ed_rfc_id req) (ed_agent req) (ed_section req)
         (fm_content_hash (rr_fm rec)) (fm_content_hash (rr_fm saved)))) (\<lambda>_.
     s_ok (fm_content_hash (rr_fm saved)))))))))))"

subsection \<open>Lock operations\<close>

text \<open>A poisoned mutex makes these do nothing.\<close>

definition release_lock :: "RfcId \<Rightarrow> AgentId \<Rightarrow> UnlockReason \<Rightarrow> Svc \<Rightarrow> Svc \<times> bool" where
  "release_lock i agent reason s =
     (if svc_poisoned s then (s, False)
      else case locks_release (svc_locks s) i agent reason of
             (l, Some _) \<Rightarrow> (s\<lparr>svc_locks := l, svc_events := svc_events s @ [EvUnlocked i agent reason]\<rparr>, True)
           | (l, None) \<Rightarrow> (s\<lparr>svc_locks := l\<rparr>, False))"

definition svc_release_all_for :: "AgentId \<Rightarrow> Svc \<Rightarrow> Svc" where
  "svc_release_all_for agent s =
     (if svc_poisoned s then s
      else case locks_release_all_for (svc_locks s) agent of
             (l, released) \<Rightarrow>
               s\<lparr>svc_locks := l, svc_events := svc_events s @ map (\<lambda>r. EvUnlocked r agent AgentExit) released\<rparr>)"

definition svc_force_release :: "RfcId \<Rightarrow> Svc \<Rightarrow> Svc \<times> AgentId option" where
  "svc_force_release i s =
     (if svc_poisoned s then (s, None)
      else case locks_force_release (svc_locks s) i of
             (l, Some by_agent) \<Rightarrow>
               (s\<lparr>svc_locks := l, svc_events := svc_events s @ [EvUnlocked i by_agent ReplacedLock]\<rparr>, Some by_agent)
           | (l, None) \<Rightarrow> (s\<lparr>svc_locks := l\<rparr>, None))"

definition reap_expired_locks :: "SystemTime \<Rightarrow> Svc \<Rightarrow> Svc \<times> nat" where
  "reap_expired_locks now s =
     (if svc_poisoned s then (s, 0)
      else case locks_reap_expired (svc_locks s) now of
             (l, released) \<Rightarrow>
               (s\<lparr>svc_locks := l,
                  svc_events := svc_events s @ map (\<lambda>(r, holder). EvUnlocked r holder Timeout) released\<rparr>,
                length released))"

section \<open>Reasoning about sequences of calls\<close>

lemma s_bind_Ok: "s_bind m f s = (s2, Ok b) \<longleftrightarrow> (\<exists>s1 a. m s = (s1, Ok a) \<and> f a s1 = (s2, Ok b))"
  by (auto simp: s_bind_def split: prod.splits sum.splits)

lemma s_bind_Err: "s_bind m f s = (s2, Err e) \<longleftrightarrow>
    m s = (s2, Err e) \<or> (\<exists>s1 a. m s = (s1, Ok a) \<and> f a s1 = (s2, Err e))"
  by (auto simp: s_bind_def split: prod.splits sum.splits)

lemma s_step_simps:
  "s_ok a s = (s', r) \<longleftrightarrow> s' = s \<and> r = Ok a"
  "s_get g s = (s', r') \<longleftrightarrow> s' = s \<and> g s = r'"
  "s_emit ev s = (s', r'') \<longleftrightarrow> s' = s\<lparr>svc_events := svc_events s @ [ev]\<rparr> \<and> r'' = Ok ()"
  "s_require b e s = (s', r'') \<longleftrightarrow> s' = s \<and> r'' = (if b then Ok () else Err e)"
  "s_load en ph i s = (s', rl) \<longleftrightarrow> s' = s \<and> store_load (e_cx en) (e_io en ph) (svc_store s) (svc_fs s) i = rl"
  "s_counts en ph i s = (s', rc) \<longleftrightarrow> s' = s \<and> decision_counts (e_cx en) (e_io en ph) (svc_store s) (svc_fs s) i = rc"
  by (auto simp: s_ok_def s_get_def s_emit_def s_require_def s_load_def s_counts_def)

lemma s_fs_step: "s_fs g s = (s', r) \<longleftrightarrow>
    s' = s\<lparr>svc_fs := fst (g (svc_store s) (svc_fs s))\<rparr> \<and> snd (g (svc_store s) (svc_fs s)) = r"
  by (auto simp: s_fs_def split: prod.splits)

lemma s_acquire_step: "s_acquire e i a s = (s', r) \<longleftrightarrow>
    s' = s\<lparr>svc_locks := fst (acquire_at (svc_locks s) i a (e_sys e))\<rparr> \<and> snd (acquire_at (svc_locks s) i a (e_sys e)) = r"
  by (auto simp: s_acquire_def split: prod.splits)

lemmas svc_steps = s_bind_Ok s_bind_Err s_step_simps s_fs_step s_acquire_step

lemma allow_tool_Ok: "allow_tool i rec tool op = Ok u \<longleftrightarrow> is_ok (tool_allowed (fm_state (rr_fm rec)) tool)"
  by (auto simp: allow_tool_def is_ok_iff split: sum.splits)

lemma decision_counts_Ok:
  "decision_counts cx io st fs i = Ok c \<longleftrightarrow> (\<exists>ds. read_decisions cx io st fs i = Ok ds \<and> c = counts_from ds)"
  by (auto simp: decision_counts_def and_then_Ok_iff)

lemma transition_Ok:
  assumes "svc_transition e i t by_agent reason s = (s', Ok to)"
  shows "\<exists>rec ds r. store_load (e_cx e) (e_io e ''transition'') (svc_store s) (svc_fs s) i = Ok rec \<and>
    read_decisions (e_cx e) (e_io e ''transition'') (svc_store s) (svc_fs s) i = Ok ds \<and>
    validate_transition i (fm_state (rr_fm rec)) t
      \<lparr>tc_open_clarifications = dc_open_clarifications (counts_from ds),
       tc_unreviewed_decisions = dc_unreviewed_decisions (counts_from ds), tc_dispatch_done = True\<rparr> = Ok to \<and>
    snd (store_save (e_cx e) (e_io e ''transition'') (e_now e ''transition'') (svc_store s)
      ((rr_fm rec)\<lparr>fm_state := to\<rparr>) (rr_body rec) (svc_fs s)) = Ok r \<and>
    s' = s\<lparr>svc_fs := fst (store_save (e_cx e) (e_io e ''transition'') (e_now e ''transition'') (svc_store s)
        ((rr_fm rec)\<lparr>fm_state := to\<rparr>) (rr_body rec) (svc_fs s)),
      svc_events := svc_events s @ [EvStateChanged i (fm_state (rr_fm rec)) to by_agent reason]\<rparr>"
  using assms by (auto simp: svc_transition_def svc_steps decision_counts_Ok)

lemma propose_edit_Ok:
  assumes "propose_edit e req s = (s', Ok h)"
  shows "\<exists>rec. store_load (e_cx e) (e_io e ''propose_edit'') (svc_store s) (svc_fs s) (ed_rfc_id req) = Ok rec \<and>
    fm_state (rr_fm rec) = DraftActive \<and> snapshot_check req rec = Ok () \<and>
    is_ok (snd (acquire_at (svc_locks s) (ed_rfc_id req) (ed_agent req) (e_sys e))) \<and>
    svc_locks s' = fst (acquire_at (svc_locks s) (ed_rfc_id req) (ed_agent req) (e_sys e)) \<and>
    (\<exists>r. snd (store_save (e_cx e) (e_io e ''propose_edit'') (e_now e ''propose_edit'') (svc_store s)
       (rr_fm rec) (ed_new_body req) (svc_fs s)) = Ok r \<and> h = fm_content_hash (rr_fm r)) \<and>
    svc_fs s' = fst (store_save (e_cx e) (e_io e ''propose_edit'') (e_now e ''propose_edit'') (svc_store s)
       (rr_fm rec) (ed_new_body req) (svc_fs s)) \<and> svc_store s' = svc_store s \<and> svc_poisoned s' = svc_poisoned s \<and>
    (\<exists>evs. svc_events s' = svc_events s @ evs @ [EvEditApplied (ed_rfc_id req) (ed_agent req) (ed_section req)
       (fm_content_hash (rr_fm rec)) h])"
  using assms
  by (auto simp: propose_edit_def svc_steps allow_tool_Ok tool_allowed_iff split: if_splits)

lemma word_plus_one_less: "x + 1 \<noteq> 0 \<Longrightarrow> x < x + (1 :: 32 word)"
  by (metis eq_neg_iff_add_eq_0 inc_less_eq_triv_imp linorder_not_less)

section \<open>Decision identifiers\<close>

lemma foldl_max_ge:
  fixes f :: "'a \<Rightarrow> (32 word \<Rightarrow> 32 word)"
  assumes "\<And>a m. m \<le> f a m"
  shows "m \<le> foldl (\<lambda>m a. f a m) m as"
  by (induction as arbitrary: m) (auto intro: order_trans [OF assms])

lemma foldl_max_mem:
  fixes f :: "'a \<Rightarrow> (32 word \<Rightarrow> 32 word)"
  assumes "\<And>a m. m \<le> f a m" and "a \<in> set as" and "\<And>m. n \<le> f a m"
  shows "n \<le> foldl (\<lambda>m a. f a m) m as"
  using assms(2)
proof (induction as arbitrary: m)
  case (Cons b bs)
  then show ?case
    using order_trans [OF assms(3) foldl_max_ge [of f, OF assms(1)]] by (cases "a = b") auto
qed simp

lemma max_number_ge: "m \<le> max_number m ds"
  unfolding max_number_def by (rule foldl_max_ge) (simp split: option.split)

lemma max_number_mem: "d \<in> set ds \<Longrightarrow> decision_number (dr_id d) = Some n \<Longrightarrow> n \<le> max_number m ds"
  unfolding max_number_def by (rule foldl_max_mem) (auto split: option.split)

lemma initial_seq_ge:
  assumes "store_list cx io st listing fs = Ok rfcs" and "rec \<in> set rfcs"
    and "read_decisions cx io st fs (fm_id (rr_fm rec)) = Ok ds" and "d \<in> set ds"
    and "decision_number (dr_id d) = Some n"
  shows "n \<le> initial_decision_seq cx io st listing fs"
  unfolding initial_decision_seq_def assms(1) sum.case
proof (rule foldl_max_mem [OF _ assms(2)])
  show "m \<le> (case read_decisions cx io st fs (fm_id (rr_fm r)) of Inl _ \<Rightarrow> m | Inr ds \<Rightarrow> max_number m ds)" for r m
    by (simp add: max_number_ge split: sum.split)
  show "n \<le> (case read_decisions cx io st fs (fm_id (rr_fm rec)) of Inl _ \<Rightarrow> m | Inr ds \<Rightarrow> max_number m ds)" for m
    using max_number_mem [OF assms(4,5)] by (simp add: assms(3))
qed

lemma decision_number_show: "decision_number (''d-'' @ pad3 (show_nat (unat n))) = Some n"
proof -
  have "unat n < 2 ^ 32" using unsigned_less [of n] by simp
  from parse_u32_pad3_show [OF this] show ?thesis
    by (simp add: decision_number_def strip_prefix_def)
qed

section \<open>Failed calls\<close>

text \<open>The file an RFC is stored in carries that RFC's identifier.\<close>

definition file_matches :: "Env \<Rightarrow> Svc \<Rightarrow> RfcId \<Rightarrow> bool" where
  "file_matches e s i \<longleftrightarrow>
     (\<forall>ph rec. store_load (e_cx e) (e_io e ph) (svc_store s) (svc_fs s) i = Ok rec \<longrightarrow> fm_id (rr_fm rec) = i)"

definition untouched :: "RfcId \<Rightarrow> Svc \<Rightarrow> Svc \<Rightarrow> bool" where
  "untouched i s s' \<longleftrightarrow> svc_events s' = svc_events s \<and>
     svc_fs s' (rfc_path (svc_store s) i) = svc_fs s (rfc_path (svc_store s) i)"

lemma append_decision_rfc:
  "plain_id i \<Longrightarrow> dr_rfc_id r = i \<Longrightarrow> fst (append_decision cx io st r fs) (rfc_path st i) = fs (rfc_path st i)"
  by (simp add: append_decision_def decision_append_frame store_paths)

lemma next_decision_id_step:
  "next_decision_id s = (s', r) \<longleftrightarrow>
     s' = s\<lparr>svc_seq := svc_seq s + 1\<rparr> \<and> r = Ok (''d-'' @ pad3 (show_nat (unat (svc_seq s + 1))))"
  by (auto simp: next_decision_id_def Let_def)

lemma ask_Err:
  assumes "ask e req s = (s', Err er)" and "plain_id (ask_rfc_id req)"
  shows "untouched (ask_rfc_id req) s s'"
  using assms by (auto simp: ask_def svc_steps next_decision_id_step untouched_def append_decision_rfc)

lemma log_decision_Err:
  assumes "log_decision e req s = (s', Err er)" and "plain_id (ld_rfc_id req)"
  shows "untouched (ld_rfc_id req) s s'"
  using assms by (auto simp: log_decision_def svc_steps next_decision_id_step untouched_def append_decision_rfc)

lemma propose_edit_Err:
  assumes "propose_edit e req s = (s', Err er)" and "plain_id (ed_rfc_id req)" and "file_matches e s (ed_rfc_id req)"
  shows "untouched (ed_rfc_id req) s s'"
proof -
  let ?save = "\<lambda>rec. store_save (e_cx e) (e_io e ''propose_edit'') (e_now e ''propose_edit'') (svc_store s)
      (rr_fm rec) (ed_new_body req) (svc_fs s)"
  have "svc_events s' = svc_events s" and
    "svc_fs s' = svc_fs s \<or>
     (\<exists>rec. store_load (e_cx e) (e_io e ''propose_edit'') (svc_store s) (svc_fs s) (ed_rfc_id req) = Ok rec \<and>
        snd (?save rec) = Err er \<and> svc_fs s' = fst (?save rec))"
    using assms(1) by (auto simp: propose_edit_def svc_steps split: if_splits)
  then show ?thesis
    using assms(2,3) store_save_Err [of "rr_fm r" for r] unfolding untouched_def file_matches_def by metis
qed

lemma transition_Err:
  assumes "svc_transition e i t b reason s = (s', Err er)" and "plain_id i" and "file_matches e s i"
  shows "untouched i s s'"
proof -
  let ?save = "\<lambda>rec to. store_save (e_cx e) (e_io e ''transition'') (e_now e ''transition'') (svc_store s)
      ((rr_fm rec)\<lparr>fm_state := to\<rparr>) (rr_body rec) (svc_fs s)"
  have "svc_events s' = svc_events s" and
    "svc_fs s' = svc_fs s \<or>
     (\<exists>rec to. store_load (e_cx e) (e_io e ''transition'') (svc_store s) (svc_fs s) i = Ok rec \<and>
        snd (?save rec to) = Err er \<and> svc_fs s' = fst (?save rec to))"
    using assms(1) by (auto simp: svc_transition_def svc_steps)
  moreover have "fst (?save rec to) (rfc_path (svc_store s) i) = svc_fs s (rfc_path (svc_store s) i)"
    if "fm_id (rr_fm rec) = i" "snd (?save rec to) = Err er" for rec to
    using store_save_Err [of "(rr_fm rec)\<lparr>fm_state := to\<rparr>"] that assms(2) by simp
  ultimately show ?thesis
    using assms(3) unfolding untouched_def file_matches_def by metis
qed

lemma complete_abandon_Err:
  assumes "svc_complete e i b s = (s', Err er) \<or> svc_abandon e i b reason s = (s', Err er)"
    and "plain_id i" and "file_matches e s i"
  shows "untouched i s s'"
  using assms transition_Err [OF _ assms(2,3)] by (auto simp: svc_complete_def svc_abandon_def svc_steps)

lemma reopen_Err:
  assumes "svc_reopen e i b s = (s', Err er)" and "plain_id i"
  shows "untouched i s s'"
  using assms reopen_keeps_live(1) [OF assms(2), of "e_cx e" "e_io e ''store_reopen''" _ "svc_store s" "svc_fs s"]
  by (auto simp: svc_reopen_def svc_steps untouched_def)

lemma create_Err:
  assumes "svc_create e i b title s = (s', Err er)" and "plain_id i"
  shows "untouched i s s'"
proof -
  let ?m = "store_create (e_cx e) (e_io e ''create'') (e_now e ''create'') (svc_store s) i title (svc_fs s)"
  have er: "snd ?m = Err er" and s': "s' = s\<lparr>svc_fs := fst ?m\<rparr>"
    using assms(1) by (auto simp: svc_create_def svc_steps)
  have "fst ?m (rfc_path (svc_store s) i) = svc_fs s (rfc_path (svc_store s) i)"
    using er write_atomic_spec(2) [OF assms(2)]
    by (auto simp: store_create_def create_with_legacy_def assms(2) Let_def fs_bind_def
        split: if_splits prod.splits sum.splits) (metis fst_conv snd_conv)+
  then show ?thesis by (simp add: untouched_def s')
qed

lemma get_context_Err: "get_context e i s = (s', Err er) \<Longrightarrow> untouched i s s'"
  by (auto simp: get_context_def svc_steps untouched_def)

lemma load_same: "svc_fs s' (rfc_path (svc_store s) i) = svc_fs s (rfc_path (svc_store s) i) \<Longrightarrow> svc_store s' = svc_store s \<Longrightarrow>
   store_load cx io (svc_store s') (svc_fs s') i = store_load cx io (svc_store s) (svc_fs s) i"
  by (simp add: store_load_def)

text \<open>The two calls that may fail after an event: the state change is stored and announced and only reading it back fails; the answer is recorded and the step
  that follows the last answer fails.\<close>

lemma promote_Err:
  assumes "svc_promote e i a s = (s', Err er)" and "plain_id i" and "file_matches e s i"
  shows "untouched i s s' \<or>
    svc_transition e i Promote a ''promote'' s = (s', Ok Active) \<and> svc_events s' = svc_events s @ [EvStateChanged i DraftActive Active a ''promote'']"
proof -
  from assms(1) consider "svc_transition e i Promote a ''promote'' s = (s', Err er)" | to where "svc_transition e i Promote a ''promote'' s = (s', Ok to)"
    by (auto simp: svc_promote_def svc_steps)
  then show ?thesis
  proof cases
    case 2
    with transition_Ok [OF 2] show ?thesis by (auto simp: validate_transition_Ok_iff)
  qed (use transition_Err assms(2,3) in blast)
qed

lemma resolve_Err:
  assumes "resolve_clarification e i did b answer s = (s', Err er)" and "plain_id i" and "file_matches e s i"
  shows "svc_fs s' (rfc_path (svc_store s) i) = svc_fs s (rfc_path (svc_store s) i) \<and>
    (svc_events s' = svc_events s \<or> svc_events s' = svc_events s @ [EvDecisionResolved i did b])"
proof -
  have tr: "svc_fs s' (rfc_path (svc_store s) i) = svc_fs s (rfc_path (svc_store s) i) \<and> svc_events s' = svc_events s1"
    if "svc_transition e i ResolveClarifications b ''all clarifications resolved'' s1 = (s', Err er)"
      and s1: "svc_fs s1 (rfc_path (svc_store s) i) = svc_fs s (rfc_path (svc_store s) i)" "svc_store s1 = svc_store s" for s1
  proof -
    have "file_matches e s1 i" using assms(3) load_same [OF s1] by (simp add: file_matches_def)
    from transition_Err [OF that(1) assms(2) this] s1 show ?thesis by (simp add: untouched_def)
  qed
  show ?thesis
    using assms(1,2)
    by (auto simp: resolve_clarification_def svc_steps append_decision_rfc split: if_splits) (drule tr; simp add: append_decision_rfc)+
qed

section \<open>Edits over snapshots\<close>

lemma snapshot_check_Ok:
  "snapshot_check req rec = Ok u \<longleftrightarrow> ed_if_hash_matches req \<in> {None, Some (fm_content_hash (rr_fm rec))}"
  by (auto simp: snapshot_check_def split: option.splits)

lemma edit_saved:
  assumes "propose_edit e req s = (s', Ok h)" and "plain_id (ed_rfc_id req)" and "file_matches e s (ed_rfc_id req)"
  shows "\<exists>rec. store_load (e_cx e) (e_io e ''propose_edit'') (svc_store s) (svc_fs s) (ed_rfc_id req) = Ok rec \<and>
     h = content_hash_of (e_cx e) (ed_new_body req) \<and>
     (toml_ok (e_cx e) (save_fm (e_cx e) (e_now e ''propose_edit'') (rr_fm rec) (ed_new_body req)) \<longrightarrow>
      store_load (e_cx e) io_fine (svc_store s') (svc_fs s') (ed_rfc_id req) =
        Ok \<lparr>rr_fm = save_fm (e_cx e) (e_now e ''propose_edit'') (rr_fm rec) (ed_new_body req),
            rr_body = strip_newline (ed_new_body req)\<rparr>)"
proof -
  obtain rec r where l: "store_load (e_cx e) (e_io e ''propose_edit'') (svc_store s) (svc_fs s) (ed_rfc_id req) = Ok rec"
    and r: "snd (store_save (e_cx e) (e_io e ''propose_edit'') (e_now e ''propose_edit'') (svc_store s)
       (rr_fm rec) (ed_new_body req) (svc_fs s)) = Ok r" "h = fm_content_hash (rr_fm r)"
    and f: "svc_fs s' = fst (store_save (e_cx e) (e_io e ''propose_edit'') (e_now e ''propose_edit'') (svc_store s)
       (rr_fm rec) (ed_new_body req) (svc_fs s))" "svc_store s' = svc_store s"
    using propose_edit_Ok [OF assms(1)] by blast
  have i: "fm_id (rr_fm rec) = ed_rfc_id req" using assms(3) l by (simp add: file_matches_def)
  then have p: "plain_id (fm_id (rr_fm rec))" using assms(2) by simp
  have "h = content_hash_of (e_cx e) (ed_new_body req)"
    using store_save_Ok [OF p r(1)] r(2) by (simp add: save_fm_def)
  then show ?thesis
    using l store_save_load [OF p _ r(1)] unfolding f i by blast
qed

lemma propose_edit_stale:
  assumes "\<not> svc_poisoned s"
    and "store_load (e_cx e) (e_io e ''propose_edit'') (svc_store s) (svc_fs s) (ed_rfc_id req) = Ok rec"
    and "fm_state (rr_fm rec) = DraftActive"
    and "ed_if_hash_matches req = Some h" and "h \<noteq> fm_content_hash (rr_fm rec)"
  shows "propose_edit e req s = (s, Err (StaleSnapshot h (fm_content_hash (rr_fm rec))
    ''Call orkia_rfc_get_context to refresh, then retry.''))"
  using assms
  by (simp add: propose_edit_def s_bind_def s_get_def s_load_def allow_tool_def tool_allowed_def snapshot_check_def)

section \<open>Properties of the service\<close>

text \<open>C35. An accepted edit is a guarded one: the RFC was in draft-active, the snapshot hash
  the caller presented (if any) was the stored one, nobody else was holding the write
  lock and the caller holds it now, and the hash returned and recorded in the audit
  event is the hash of the new body.\<close>

theorem edit_guarded:
  assumes "propose_edit e req s = (s', Ok h)" and "plain_id (ed_rfc_id req)" and "file_matches e s (ed_rfc_id req)"
  shows "\<exists>rec evs. store_load (e_cx e) (e_io e ''propose_edit'') (svc_store s) (svc_fs s) (ed_rfc_id req) = Ok rec \<and>
     fm_state (rr_fm rec) = DraftActive \<and>
     ed_if_hash_matches req \<in> {None, Some (fm_content_hash (rr_fm rec))} \<and>
     lock_holder (svc_locks s) (e_sys e) (ed_rfc_id req) \<in> {None, Some (ed_agent req)} \<and>
     lock_holder (svc_locks s') (e_sys e) (ed_rfc_id req) = Some (ed_agent req) \<and>
     h = content_hash_of (e_cx e) (ed_new_body req) \<and>
     svc_events s' = svc_events s @ evs @ [EvEditApplied (ed_rfc_id req) (ed_agent req) (ed_section req)
       (fm_content_hash (rr_fm rec)) h]"
proof -
  obtain i where "snd (acquire_at (svc_locks s) (ed_rfc_id req) (ed_agent req) (e_sys e)) = Ok i"
    using propose_edit_Ok [OF assms(1)] by (auto simp: is_ok_iff)
  then show ?thesis
    using propose_edit_Ok [OF assms(1)] edit_saved [OF assms] acquire_at_Ok
    unfolding snapshot_check_Ok by metis
qed

definition draft_fm :: RfcFrontmatter where
  "draft_fm = sample_fm\<lparr>fm_state := DraftActive, fm_status := Some ''draft''\<rparr>"

definition edited_fm :: RfcFrontmatter where
  "edited_fm = draft_fm\<lparr>fm_content_hash := ''sha256:new''\<rparr>"

definition draft_fs :: fs where
  "draft_fs = [[''p'', ''rfcs'', ''r.md''] \<mapsto> DELIM @ [NL] @ ''0'' @ [NL] @ DELIM @ [NL] @ ''body'']"

definition draft_svc :: Svc where
  "draft_svc =
     \<lparr>svc_store = sample_store, svc_locks = locks_with_timeout 10, svc_poisoned = False, svc_seq = 0,
      svc_fs = draft_fs, svc_events = []\<rparr>"

definition draft_env :: Env where
  "draft_env = \<lparr>e_cx = table_codec [draft_fm, edited_fm] [], e_io = \<lambda>_. io_fine, e_now = \<lambda>_. 5, e_sys = 0\<rparr>"

definition draft_edit :: EditRequest where
  "draft_edit = \<lparr>ed_rfc_id = ''r'', ed_agent = ''a'', ed_section = ''s'', ed_new_body = ''new'',
     ed_linked_decisions = [], ed_if_hash_matches = Some ''sha256:body''\<rparr>"

lemma draft_edit_runs:
  "snd (propose_edit draft_env draft_edit draft_svc) = Ok ''sha256:new''" by code_simp

lemma draft_file: "plain_id (ed_rfc_id draft_edit)" "file_matches draft_env draft_svc (ed_rfc_id draft_edit)"
proof -
  show "plain_id (ed_rfc_id draft_edit)" by code_simp
  have "store_load (e_cx draft_env) io_fine (svc_store draft_svc) (svc_fs draft_svc) (ed_rfc_id draft_edit)
      = Ok \<lparr>rr_fm = draft_fm, rr_body = ''body''\<rparr>" by code_simp
  moreover have "fm_id draft_fm = ed_rfc_id draft_edit" by code_simp
  ultimately show "file_matches draft_env draft_svc (ed_rfc_id draft_edit)"
    by (auto simp: file_matches_def draft_env_def)
qed

theorem edit_guarded_witness:
  "''sha256:new'' = content_hash_of (e_cx draft_env) (ed_new_body draft_edit) \<and>
     lock_holder (svc_locks (fst (propose_edit draft_env draft_edit draft_svc))) (e_sys draft_env) ''r'' = Some ''a''"
proof -
  have "propose_edit draft_env draft_edit draft_svc =
      (fst (propose_edit draft_env draft_edit draft_svc), Ok ''sha256:new'')"
    using draft_edit_runs by (metis prod.collapse)
  from edit_guarded [OF this draft_file] show ?thesis by (auto simp: draft_edit_def)
qed

text \<open>No lost update: after an accepted edit, a second edit that still presents the hash
  of the state before is refused as stale and changes nothing, whoever sends it, as
  long as the new body hashes differently.\<close>

lemma lost_update_refused:
  assumes "propose_edit e req s = (s', Ok h)" and "plain_id (ed_rfc_id req)" and "file_matches e s (ed_rfc_id req)"
    and "\<And>rec. store_load (e_cx e) (e_io e ''propose_edit'') (svc_store s) (svc_fs s) (ed_rfc_id req) = Ok rec \<Longrightarrow>
      toml_ok (e_cx e) (save_fm (e_cx e) (e_now e ''propose_edit'') (rr_fm rec) (ed_new_body req))"
    and "ed_if_hash_matches req = Some h0" and "h0 \<noteq> h"
    and "e_cx e2 = e_cx e" and "e_io e2 ''propose_edit'' = io_fine"
    and "ed_rfc_id req2 = ed_rfc_id req" and "ed_if_hash_matches req2 = Some h0"
  shows "propose_edit e2 req2 s' = (s', Err (StaleSnapshot h0 h ''Call orkia_rfc_get_context to refresh, then retry.''))"
proof -
  let ?now = "e_now e ''propose_edit''"
  obtain rec where l: "store_load (e_cx e) (e_io e ''propose_edit'') (svc_store s) (svc_fs s) (ed_rfc_id req) = Ok rec"
    and d: "fm_state (rr_fm rec) = DraftActive" and np: "svc_poisoned s' = svc_poisoned s"
    using propose_edit_Ok [OF assms(1)] by blast
  let ?rec = "\<lparr>rr_fm = save_fm (e_cx e) ?now (rr_fm rec) (ed_new_body req), rr_body = strip_newline (ed_new_body req)\<rparr>"
  have h: "h = content_hash_of (e_cx e) (ed_new_body req)"
    and l2: "store_load (e_cx e2) (e_io e2 ''propose_edit'') (svc_store s') (svc_fs s') (ed_rfc_id req2) = Ok ?rec"
    using edit_saved [OF assms(1-3)] assms(4) l assms(7-9) by auto
  have "\<not> svc_poisoned s" using assms(1) by (auto simp: propose_edit_def svc_steps split: if_splits)
  then show ?thesis
    using propose_edit_stale [OF _ l2 _ assms(10)] d np h assms(6) by (simp add: save_fm_def)
qed

text \<open>Promotion is possible only from draft-active and only when no design decision in
  the log is still awaiting review; it is recorded by a state change and a promotion
  event.\<close>

lemma promote_reviewed:
  assumes "svc_promote e i a s = (s', Ok st)"
  shows "\<exists>rec ds v. store_load (e_cx e) (e_io e ''transition'') (svc_store s) (svc_fs s) i = Ok rec \<and>
     fm_state (rr_fm rec) = DraftActive \<and>
     read_decisions (e_cx e) (e_io e ''transition'') (svc_store s) (svc_fs s) i = Ok ds \<and>
     (\<forall>d r. latest_of ds d = Some r \<longrightarrow> \<not> pending_kind DesignProposed DS_Proposed r) \<and>
     svc_events s' = svc_events s @ [EvStateChanged i DraftActive Active a ''promote'', EvPromoted i v a]"
proof -
  have "\<exists>s1 to v. svc_transition e i Promote a ''promote'' s = (s1, Ok to) \<and>
      svc_events s' = svc_events s1 @ [EvPromoted i v a]"
    using assms by (auto simp: svc_promote_def svc_steps)
  then obtain s1 to v' where t: "svc_transition e i Promote a ''promote'' s = (s1, Ok to)"
    and s': "svc_events s' = svc_events s1 @ [EvPromoted i v' a]" by blast
  from transition_Ok [OF t] obtain rec ds where
    l: "store_load (e_cx e) (e_io e ''transition'') (svc_store s) (svc_fs s) i = Ok rec"
    and ds: "read_decisions (e_cx e) (e_io e ''transition'') (svc_store s) (svc_fs s) i = Ok ds"
    and v: "validate_transition i (fm_state (rr_fm rec)) Promote
      \<lparr>tc_open_clarifications = dc_open_clarifications (counts_from ds),
       tc_unreviewed_decisions = dc_unreviewed_decisions (counts_from ds), tc_dispatch_done = True\<rparr> = Ok to"
    and ev: "svc_events s1 = svc_events s @ [EvStateChanged i (fm_state (rr_fm rec)) to a ''promote'']"
    by auto
  have "fm_state (rr_fm rec) = DraftActive" "to = Active" "dc_unreviewed_decisions (counts_from ds) = 0"
    using v by (auto simp: validate_transition_Ok_iff)
  then show ?thesis using l ds ev s' counts_zero_iff(2) [of ds] by auto
qed

text \<open>C36. What a failed call of the service leaves behind, whichever call of the host failed, for an id that is a bare file name and whose file, if it loads, carries
  that id. Reading, asking, logging a decision, editing, completing, abandoning, reopening or creating that returns an error has emitted no event, and the
  RFC's file is what it was. A failed answer to a clarification has left the file too, and has emitted at most the answer. A failed promotion has either left no
  trace, or it has been carried out and announced as a state change, and only reading it back failed.\<close>

theorem failed_calls_leave_no_trace:
  assumes "plain_id i" and "file_matches e s i"
  shows "((\<exists>req. ask_rfc_id req = i \<and> ask e req s = (s', Err er)) \<or>
         (\<exists>req. ld_rfc_id req = i \<and> log_decision e req s = (s', Err er)) \<or>
         (\<exists>req. ed_rfc_id req = i \<and> propose_edit e req s = (s', Err er)) \<or>
         svc_complete e i b s = (s', Err er) \<or> svc_abandon e i b reason s = (s', Err er) \<or> svc_reopen e i b s = (s', Err er) \<or>
         svc_create e i b title s = (s', Err er) \<or> get_context e i s = (s', Err er) \<longrightarrow>
       svc_events s' = svc_events s \<and> svc_fs s' (rfc_path (svc_store s) i) = svc_fs s (rfc_path (svc_store s) i)) \<and>
    (resolve_clarification e i did b answer s = (s', Err er) \<longrightarrow>
       svc_fs s' (rfc_path (svc_store s) i) = svc_fs s (rfc_path (svc_store s) i) \<and>
       (svc_events s' = svc_events s \<or> svc_events s' = svc_events s @ [EvDecisionResolved i did b])) \<and>
    (svc_promote e i b s = (s', Err er) \<longrightarrow>
       svc_events s' = svc_events s \<and> svc_fs s' (rfc_path (svc_store s) i) = svc_fs s (rfc_path (svc_store s) i) \<or>
       svc_transition e i Promote b ''promote'' s = (s', Ok Active) \<and> svc_events s' = svc_events s @ [EvStateChanged i DraftActive Active b ''promote''])"
proof (intro conjI impI)
  assume "(\<exists>req. ask_rfc_id req = i \<and> ask e req s = (s', Err er)) \<or>
         (\<exists>req. ld_rfc_id req = i \<and> log_decision e req s = (s', Err er)) \<or>
         (\<exists>req. ed_rfc_id req = i \<and> propose_edit e req s = (s', Err er)) \<or>
         svc_complete e i b s = (s', Err er) \<or> svc_abandon e i b reason s = (s', Err er) \<or> svc_reopen e i b s = (s', Err er) \<or>
         svc_create e i b title s = (s', Err er) \<or> get_context e i s = (s', Err er)"
  then have "untouched i s s'"
    using assms ask_Err log_decision_Err propose_edit_Err complete_abandon_Err reopen_Err create_Err get_context_Err by metis
  then show "svc_events s' = svc_events s" "svc_fs s' (rfc_path (svc_store s) i) = svc_fs s (rfc_path (svc_store s) i)" by (simp_all add: untouched_def)
next
  assume "svc_promote e i b s = (s', Err er)"
  from promote_Err [OF this assms] show "svc_events s' = svc_events s \<and> svc_fs s' (rfc_path (svc_store s) i) = svc_fs s (rfc_path (svc_store s) i) \<or>
       svc_transition e i Promote b ''promote'' s = (s', Ok Active) \<and> svc_events s' = svc_events s @ [EvStateChanged i DraftActive Active b ''promote'']"
    by (simp add: untouched_def)
qed (use resolve_Err [OF _ assms] in blast)+

theorem failed_calls_leave_no_trace_witness:
  "svc_events (fst (svc_complete draft_env ''r'' ''h'' draft_svc)) = svc_events draft_svc"
proof -
  have "\<not> is_ok (snd (svc_complete draft_env ''r'' ''h'' draft_svc))" by code_simp
  then obtain er where "svc_complete draft_env ''r'' ''h'' draft_svc =
      (fst (svc_complete draft_env ''r'' ''h'' draft_svc), Err er)"
    unfolding not_is_ok_iff by (metis prod.collapse)
  moreover have "plain_id ''r''" "file_matches draft_env draft_svc ''r''"
    using draft_file by (simp_all add: draft_edit_def)
  ultimately show ?thesis using failed_calls_leave_no_trace by blast
qed

text \<open>Decision identifiers stay unique across restarts: the first identifier a freshly
  started service issues differs from every identifier in the log of every RFC it
  could list, as long as the 32-bit counter does not wrap.\<close>

lemma fresh_decision_id:
  assumes "store_list cx io st listing fs = Ok rfcs" and "rec \<in> set rfcs"
    and "read_decisions cx io st fs (fm_id (rr_fm rec)) = Ok ds" and "d \<in> set ds"
    and "svc_seq (svc_new cx io st listing fs) + 1 \<noteq> 0"
  shows "snd (next_decision_id (svc_new cx io st listing fs)) \<noteq> Ok (dr_id d)"
proof
  let ?q = "initial_decision_seq cx io st listing fs"
  assume "snd (next_decision_id (svc_new cx io st listing fs)) = Ok (dr_id d)"
  then have "dr_id d = ''d-'' @ pad3 (show_nat (unat (?q + 1)))"
    by (simp add: next_decision_id_def svc_new_def Let_def)
  then have "decision_number (dr_id d) = Some (?q + 1)" by (simp only: decision_number_show)
  from initial_seq_ge [OF assms(1-4) this] word_plus_one_less [of ?q] assms(5)
  show False by (simp add: svc_new_def)
qed

end
