(* ===== verification/Dispatch_Issues.thy ===== *)
theory Dispatch_Issues
  imports Rfc_Store
begin

section \<open>The issue store of a dispatch run\<close>

text \<open>
  Models \<^verbatim>\<open>crates/orkia-dispatch-proxy/src/issues.rs\<close>, \<^verbatim>\<open>compose.rs\<close> and \<^verbatim>\<open>spawn.rs\<close>: one file per
  task beside the RFC, with a TOML header, the composed prompt and the captured response, and a run file
  with the identity of the run. The TOML library is a pair of functions per type (\<open>IssueCodec\<close>). A call of
  the host that can fail is tagged with the \<^verbatim>\<open>op\<close> that the error carries.
\<close>

subsection \<open>Data\<close>

datatype Status = Pending | Spawned | Done | Failed | Verifying | Verified | Rejected

record IssueMeta =
  im_id :: string
  im_title :: string
  im_agent :: string
  im_depends_on :: "string list"
  im_status :: Status
  im_job_id :: "32 word option"
  im_response_sha :: "string option"
  im_seal :: "string option"
  im_attempt :: "32 word"
  im_verdict_seal :: "string option"

record Issue =
  is_meta :: IssueMeta
  is_prompt :: string
  is_response :: "string option"

definition issue_is_done :: "Issue \<Rightarrow> bool" where
  "issue_is_done i \<longleftrightarrow> im_status (is_meta i) \<in> {Done, Verified}"

record RunMeta =
  rm_run_id :: string
  rm_plan_hash :: string
  rm_strategy :: string
  rm_started :: string
  rm_closed :: "string option"

datatype IssueError = Issue_Io string string | Issue_Encode string | Issue_Malformed string string

record IssueCodec =
  ix_print :: "IssueMeta \<Rightarrow> (string, string) result"
  ix_parse :: "string \<Rightarrow> (string, IssueMeta) result"
  ix_print_run :: "RunMeta \<Rightarrow> (string, string) result"
  ix_parse_run :: "string \<Rightarrow> (string, RunMeta) result"

record IssueStore =
  st_dir :: path

definition issue_store_new :: "path \<Rightarrow> IssueStore" where
  "issue_store_new rfc_dir = \<lparr>st_dir = rfc_dir @ [''issues'']\<rparr>"

subsection \<open>The file format\<close>

abbreviation FM_DELIM :: string where "FM_DELIM \<equiv> ''+++''"

definition PROMPT_MARKER :: string where
  "PROMPT_MARKER = ''<!-- orkia:prompt -->''"

definition RESPONSE_MARKER :: string where
  "RESPONSE_MARKER = ''<!-- orkia:response -->''"

definition RUN_FILE :: string where
  "RUN_FILE = ''.run.toml''"

definition render_issue :: "IssueCodec \<Rightarrow> Issue \<Rightarrow> (IssueError, string) result" where
  "render_issue cx issue =
     (case ix_print cx (is_meta issue) of
        Err e \<Rightarrow> Err (Issue_Encode e)
      | Ok fm \<Rightarrow>
          (let response = (case is_response issue of Some r \<Rightarrow> r | None \<Rightarrow> [])
           in Ok (FM_DELIM @ [NL] @ fm @ FM_DELIM @ [NL, NL] @ ''# '' @ im_title (is_meta issue) @ [NL, NL] @
                  PROMPT_MARKER @ [NL] @ is_prompt issue @ [NL, NL] @ RESPONSE_MARKER @ [NL] @ response @ [NL])))"

definition section_of :: "string \<Rightarrow> string \<Rightarrow> string option \<Rightarrow> string option" where
  "section_of body start end_marker =
     (case find_sub start body of
        None \<Rightarrow> None
      | Some at \<Rightarrow>
          (let tail = drop (at + length start) body;
               slice = (case end_marker of
                          Some e \<Rightarrow> (case find_sub e tail of Some j \<Rightarrow> take j tail | None \<Rightarrow> tail)
                        | None \<Rightarrow> tail)
           in Some (trim slice)))"

definition parse_issue :: "IssueCodec \<Rightarrow> string \<Rightarrow> string \<Rightarrow> (IssueError, Issue) result" where
  "parse_issue cx i raw =
     (case Option.bind (strip_prefix FM_DELIM raw) (strip_prefix [NL]) of
        None \<Rightarrow> Err (Issue_Malformed i ''missing opening +++'')
      | Some after_open \<Rightarrow>
         (case find_sub (NL # FM_DELIM) after_open of
            None \<Rightarrow> Err (Issue_Malformed i ''missing closing +++'')
          | Some close \<Rightarrow>
             (let fm_src = take close after_open;
                  body = drop (close + 1 + length FM_DELIM) after_open
              in case ix_parse cx fm_src of
                   Err e \<Rightarrow> Err (Issue_Malformed i (''frontmatter: '' @ e))
                 | Ok meta \<Rightarrow>
                    (case section_of body PROMPT_MARKER (Some RESPONSE_MARKER) of
                       None \<Rightarrow> Err (Issue_Malformed i ''missing prompt section'')
                     | Some prompt \<Rightarrow>
                         Ok \<lparr>is_meta = meta, is_prompt = prompt,
                             is_response = (case section_of body RESPONSE_MARKER None of
                                Some r \<Rightarrow> if r = [] then None else Some r
                              | None \<Rightarrow> None)\<rparr>))))"

subsection \<open>The store\<close>

definition issue_path :: "IssueStore \<Rightarrow> string \<Rightarrow> path" where
  "issue_path st i = path_join (st_dir st) (i @ ''.md'')"

definition issue_id_of :: "string \<Rightarrow> string option" where
  "issue_id_of name = (if file_extension name \<noteq> Some ''md'' then None else Some (file_stem name))"

definition atomic_write :: "Io \<Rightarrow> path \<Rightarrow> string \<Rightarrow> fs \<Rightarrow> fs \<times> (IssueError, unit) result" where
  "atomic_write io final_path body fs =
     (case io_err io ''mkdir'' MkDir of
        Some e \<Rightarrow> (fs, Err (Issue_Io ''mkdir'' e))
      | None \<Rightarrow>
          apsnd (map_err (\<lambda>(op, e). Issue_Io op e))
            (fs_replace io ''create'' ''write'' ''fsync'' ''rename'' (with_extension final_path ''tmp'') final_path body fs))"

definition issue_write :: "IssueCodec \<Rightarrow> Io \<Rightarrow> IssueStore \<Rightarrow> Issue \<Rightarrow> fs \<Rightarrow> fs \<times> (IssueError, unit) result" where
  "issue_write cx io st issue fs =
     fs_bind (fs, render_issue cx issue) (\<lambda>fs body. atomic_write io (issue_path st (im_id (is_meta issue))) body fs)"

definition issue_read :: "IssueCodec \<Rightarrow> Io \<Rightarrow> IssueStore \<Rightarrow> fs \<Rightarrow> string \<Rightarrow> (IssueError, Issue option) result" where
  "issue_read cx io st fs i =
     (case io_err io (''read:'' @ i) Read of
        Some e \<Rightarrow> Err (Issue_Io ''read'' e)
      | None \<Rightarrow>
         (case fs (issue_path st i) of
            None \<Rightarrow> Ok None
          | Some raw \<Rightarrow> and_then (parse_issue cx i raw) (\<lambda>issue. Ok (Some issue))))"

text \<open>The directory's entries are an argument: \<open>None\<close> when the directory does not exist.\<close>

fun list_issues_loop :: "IssueCodec \<Rightarrow> Io \<Rightarrow> IssueStore \<Rightarrow> fs \<Rightarrow> string list \<Rightarrow> (IssueError, Issue list) result" where
  "list_issues_loop cx io st fs [] = Ok []"
| "list_issues_loop cx io st fs (name # names) =
     (case issue_id_of name of
        None \<Rightarrow> list_issues_loop cx io st fs names
      | Some i \<Rightarrow>
         (case fs (st_dir st @ [name]) of
            None \<Rightarrow> Err (Issue_Io ''read'' ''not found'')
          | Some raw \<Rightarrow>
             (case io_err io (''read:'' @ name) Read of
                Some e \<Rightarrow> Err (Issue_Io ''read'' e)
              | None \<Rightarrow>
                  and_then (parse_issue cx i raw) (\<lambda>issue.
                  and_then (list_issues_loop cx io st fs names) (\<lambda>out. Ok (issue # out))))))"

definition issue_list :: "IssueCodec \<Rightarrow> Io \<Rightarrow> IssueStore \<Rightarrow> string list option \<Rightarrow> fs \<Rightarrow> (IssueError, Issue list) result" where
  "issue_list cx io st entries fs =
     (case io_err io ''readdir'' Read of
        Some e \<Rightarrow> Err (Issue_Io ''readdir'' e)
      | None \<Rightarrow>
         (case entries of
            None \<Rightarrow> Ok []
          | Some names \<Rightarrow>
              and_then (list_issues_loop cx io st fs names) (\<lambda>out. Ok (sort_key (\<lambda>i. im_id (is_meta i)) out))))"

definition write_run :: "IssueCodec \<Rightarrow> Io \<Rightarrow> IssueStore \<Rightarrow> RunMeta \<Rightarrow> fs \<Rightarrow> fs \<times> (IssueError, unit) result" where
  "write_run cx io st meta fs =
     (case ix_print_run cx meta of
        Err e \<Rightarrow> (fs, Err (Issue_Encode e))
      | Ok body \<Rightarrow> atomic_write io (st_dir st @ [RUN_FILE]) body fs)"

definition read_run :: "IssueCodec \<Rightarrow> Io \<Rightarrow> IssueStore \<Rightarrow> fs \<Rightarrow> (IssueError, RunMeta option) result" where
  "read_run cx io st fs =
     (case io_err io ''read_run'' Read of
        Some e \<Rightarrow> Err (Issue_Io ''read'' e)
      | None \<Rightarrow>
         (case fs (st_dir st @ [RUN_FILE]) of
            None \<Rightarrow> Ok None
          | Some raw \<Rightarrow>
             (case ix_parse_run cx raw of
                Err e \<Rightarrow> Err (Issue_Malformed RUN_FILE e)
              | Ok meta \<Rightarrow> Ok (Some meta))))"

subsection \<open>Titles, prompts and command lines\<close>

definition title_from_body :: "string \<Rightarrow> string \<Rightarrow> string" where
  "title_from_body body i =
     (case map_option (\<lambda>l. trim (dropWhile (\<lambda>c. c = CHR ''#'') l))
             (find (\<lambda>l. l \<noteq> []) (map trim (str_lines body))) of
        Some l \<Rightarrow> if l \<noteq> [] then take 80 l else i
      | None \<Rightarrow> i)"

record DepContext =
  dc_task_id :: string
  dc_agent :: string
  dc_response :: string

definition compose_body :: "string \<Rightarrow> DepContext list \<Rightarrow> string" where
  "compose_body task_body deps =
     (if deps = [] then task_body
      else concat (map (\<lambda>dep. ''## Context from @'' @ dc_agent dep @ '' (dependency task `'' @ dc_task_id dep @ ''`)''
                              @ [NL, NL] @ trim_end (dc_response dep) @ [NL, NL]) deps)
           @ ''---'' @ [NL, NL] @ task_body)"

definition is_ascii_alphanumeric :: "char \<Rightarrow> bool" where
  "is_ascii_alphanumeric c \<longleftrightarrow>
     (let n = (of_char c :: nat) in 48 \<le> n \<and> n \<le> 57 \<or> 65 \<le> n \<and> n \<le> 90 \<or> 97 \<le> n \<and> n \<le> 122)"

definition quote_arg :: "string \<Rightarrow> string" where
  "quote_arg s =
     (if s \<noteq> [] \<and> list_all (\<lambda>c. is_ascii_alphanumeric c \<or> c \<in> {CHR ''-'', CHR ''_'', CHR ''.'', CHR ''/''}) s
      then s else sh_quote s)"

definition task_command_line :: "string \<Rightarrow> string \<Rightarrow> string \<Rightarrow> string \<Rightarrow> string" where
  "task_command_line rfc_id task_id agent project =
     ''orkia rfc dispatch-task '' @ quote_arg rfc_id @ '' --task '' @ quote_arg task_id @
     '' --agent '' @ quote_arg agent @ '' --project '' @ quote_arg project"

section \<open>Reading back what was written\<close>

text \<open>
  The header's TOML parses back, ends in a newline and does not start a line with the
  delimiter; a marker occurs neither in the title nor, for the response marker, in the prompt.
\<close>

definition header_ok :: "IssueCodec \<Rightarrow> IssueMeta \<Rightarrow> bool" where
  "header_ok cx m \<longleftrightarrow>
     (\<exists>src. ix_print cx m = Ok (src @ [NL]) \<and> ix_parse cx src = Ok m \<and>
        (\<forall>j < length src. \<not> prefix (NL # FM_DELIM) (drop j src)))"

definition marker_free :: "Issue \<Rightarrow> bool" where
  "marker_free i \<longleftrightarrow>
     \<not> str_contains (im_title (is_meta i)) PROMPT_MARKER \<and> \<not> str_contains (im_title (is_meta i)) RESPONSE_MARKER \<and>
     \<not> str_contains (is_prompt i) RESPONSE_MARKER"

text \<open>What a reader gets: prompt and response without surrounding white space, an empty response as none.\<close>

definition as_read :: "Issue \<Rightarrow> Issue" where
  "as_read i = i\<lparr>is_prompt := trim (is_prompt i),
     is_response := (case is_response i of
        Some r \<Rightarrow> if trim r = [] then None else Some (trim r)
      | None \<Rightarrow> None)\<rparr>"

lemma marker_facts [simp]:
  "PROMPT_MARKER \<noteq> []" "RESPONSE_MARKER \<noteq> []" "NL \<notin> set PROMPT_MARKER" "NL \<notin> set RESPONSE_MARKER"
  "hd PROMPT_MARKER = CHR ''<''" "hd RESPONSE_MARKER = CHR ''<''" "find_sub RESPONSE_MARKER PROMPT_MARKER = None"
  by (simp_all add: PROMPT_MARKER_def RESPONSE_MARKER_def)

definition issue_body :: "string \<Rightarrow> string \<Rightarrow> string \<Rightarrow> string" where
  "issue_body title prompt response =
     [NL, NL] @ ''# '' @ title @ [NL, NL] @ PROMPT_MARKER @ [NL] @ prompt @ [NL, NL] @ RESPONSE_MARKER @ [NL] @ response @ [NL]"

lemma find_prompt:
  assumes "find_sub PROMPT_MARKER title = None"
  shows "find_sub PROMPT_MARKER (issue_body title prompt response) = Some (length title + 6)"
proof -
  note [simp del] = find_sub.simps
  have "find_sub PROMPT_MARKER (''# '' @ title) = None" using assms by (simp add: find_sub_Cons_other)
  from find_sub_skip [OF _ _ this, of NL]
  have "find_sub PROMPT_MARKER ((''# '' @ title) @ NL # NL # PROMPT_MARKER @ r) = Some (length title + 4)" for r
    by (simp add: find_sub_Cons_other)
  from this [of "[NL] @ prompt @ [NL, NL] @ RESPONSE_MARKER @ [NL] @ response @ [NL]"]
  show ?thesis by (simp add: issue_body_def find_sub_Cons_other)
qed

lemma find_response:
  assumes "find_sub RESPONSE_MARKER prompt = None"
  shows "find_sub RESPONSE_MARKER ([NL] @ prompt @ [NL, NL] @ RESPONSE_MARKER @ r) = Some (length prompt + 3)"
proof -
  note [simp del] = find_sub.simps
  from find_sub_skip [OF _ _ assms, of NL "NL # RESPONSE_MARKER @ r"]
  show ?thesis by (simp add: find_sub_Cons_other)
qed

lemma find_response_body:
  assumes "find_sub RESPONSE_MARKER title = None" and "find_sub RESPONSE_MARKER prompt = None"
  shows "find_sub RESPONSE_MARKER (issue_body title prompt response) =
    Some (length title + length PROMPT_MARKER + length prompt + 9)"
proof -
  note [simp del] = find_sub.simps
  let ?r = "[NL] @ response @ [NL]"
  have "find_sub RESPONSE_MARKER (PROMPT_MARKER @ NL # prompt @ [NL, NL] @ RESPONSE_MARKER @ ?r) =
      Some (length PROMPT_MARKER + length prompt + 3)"
    using find_sub_skip [of RESPONSE_MARKER NL PROMPT_MARKER] find_sub_skip [OF _ _ assms(2), of NL]
    by (simp add: find_sub_Cons_other)
  moreover have "find_sub RESPONSE_MARKER (''# '' @ title) = None" using assms(1) by (simp add: find_sub_Cons_other)
  ultimately have "find_sub RESPONSE_MARKER ((''# '' @ title) @ NL # NL # PROMPT_MARKER @ NL # prompt @ [NL, NL] @ RESPONSE_MARKER @ ?r) =
      Some (length title + length PROMPT_MARKER + length prompt + 7)"
    using find_sub_skip [of RESPONSE_MARKER NL "''# '' @ title"] by (simp add: find_sub_Cons_other)
  then show ?thesis by (simp add: issue_body_def find_sub_Cons_other)
qed

lemma is_whitespace_NL [simp]: "is_whitespace NL"
  by (simp add: is_whitespace_def)

lemma drop_past: "n = length a \<Longrightarrow> drop (n + length p) (a @ p @ r) = r"
  by simp

lemma section_prompt:
  assumes "find_sub PROMPT_MARKER title = None" and "find_sub RESPONSE_MARKER prompt = None"
  shows "section_of (issue_body title prompt response) PROMPT_MARKER (Some RESPONSE_MARKER) = Some (trim prompt)"
proof -
  let ?r = "[NL] @ response @ [NL]"
  have "drop (length title + 6 + length PROMPT_MARKER) (issue_body title prompt response) =
      [NL] @ prompt @ [NL, NL] @ RESPONSE_MARKER @ ?r"
    using drop_past [of "length title + 6" "[NL, NL] @ ''# '' @ title @ [NL, NL]" PROMPT_MARKER
        "[NL] @ prompt @ [NL, NL] @ RESPONSE_MARKER @ ?r"] by (simp add: issue_body_def)
  moreover have "trim (take (length prompt + 3) ([NL] @ prompt @ [NL, NL] @ RESPONSE_MARKER @ ?r)) = trim prompt"
    using trim_snoc_ws [of NL "prompt @ [NL]"] trim_snoc_ws [of NL prompt] by (simp add: numeral_eq_Suc)
  ultimately show ?thesis
    using find_prompt [OF assms(1), of prompt response] find_response [OF assms(2), of ?r]
    unfolding section_of_def by (simp only: option.case Let_def)
qed

lemma section_response:
  assumes "find_sub RESPONSE_MARKER title = None" and "find_sub RESPONSE_MARKER prompt = None"
  shows "section_of (issue_body title prompt response) RESPONSE_MARKER None = Some (trim response)"
proof -
  have "drop (length title + length PROMPT_MARKER + length prompt + 9 + length RESPONSE_MARKER) (issue_body title prompt response) =
      [NL] @ response @ [NL]"
    using drop_past [of "length title + length PROMPT_MARKER + length prompt + 9"
        "[NL, NL] @ ''# '' @ title @ [NL, NL] @ PROMPT_MARKER @ [NL] @ prompt @ [NL, NL]" RESPONSE_MARKER "[NL] @ response @ [NL]"]
    by (simp add: issue_body_def)
  then show ?thesis
    using find_response_body [OF assms, of response] trim_snoc_ws [of NL response]
    by (simp add: section_of_def)
qed

lemma parse_render_issue:
  assumes "header_ok cx (is_meta i)" and "marker_free i" and "render_issue cx i = Ok raw"
  shows "parse_issue cx n raw = Ok (as_read i)"
proof -
  let ?body = "issue_body (im_title (is_meta i)) (is_prompt i) (case is_response i of Some r \<Rightarrow> r | None \<Rightarrow> [])"
  obtain src where src: "ix_print cx (is_meta i) = Ok (src @ [NL])" "ix_parse cx src = Ok (is_meta i)"
    and nd: "\<forall>j < length src. \<not> prefix (NL # FM_DELIM) (drop j src)"
    using assms(1) by (auto simp: header_ok_def)
  have raw: "raw = FM_DELIM @ NL # src @ (NL # FM_DELIM) @ ?body"
    using assms(3) src(1) by (simp add: render_issue_def issue_body_def Let_def)
  have f: "find_sub PROMPT_MARKER (im_title (is_meta i)) = None" "find_sub RESPONSE_MARKER (im_title (is_meta i)) = None"
    "find_sub RESPONSE_MARKER (is_prompt i) = None"
    using assms(2) by (simp_all add: marker_free_def str_contains_def)
  show ?thesis
    using find_delim [OF nd, of ?body] src(2) section_prompt [OF f(1,3)] section_response [OF f(2,3)]
    unfolding raw by (simp add: parse_issue_def strip_prefix_def Let_def as_read_def split: option.splits)
qed

section \<open>The store as a map from tasks to issues\<close>

text \<open>Task identifiers are non-empty and hold no separator; the sources ask for \<^verbatim>\<open>[a-z0-9-]\<close>.\<close>

definition task_id_ok :: "string \<Rightarrow> bool" where
  "task_id_ok i \<longleftrightarrow> i \<noteq> [] \<and> CHR ''/'' \<notin> set i"

lemma issue_path_plain: "task_id_ok i \<Longrightarrow> issue_path st i = st_dir st @ [i @ ''.md'']"
  by (simp add: issue_path_def task_id_ok_def path_join_plain)

lemma issue_tmp: "task_id_ok i \<Longrightarrow> with_extension (issue_path st i) ''tmp'' = st_dir st @ [i @ ''.tmp'']"
  using with_extension_ext [of "''md''" i "st_dir st" "''tmp''"] by (simp add: issue_path_plain task_id_ok_def)

lemma issue_path_neq:
  assumes "task_id_ok i" and "task_id_ok j"
  shows "issue_path st i = issue_path st j \<longleftrightarrow> i = j" and "with_extension (issue_path st i) ''tmp'' \<noteq> issue_path st j"
    and "issue_path st i \<noteq> st_dir st @ [RUN_FILE]"
proof -
  have "rev (i @ ''.tmp'') \<noteq> rev (j @ ''.md'')" "rev (i @ ''.md'') \<noteq> rev RUN_FILE"
    by (simp_all add: RUN_FILE_def)
  then have "i @ ''.tmp'' \<noteq> j @ ''.md''" "i @ ''.md'' \<noteq> RUN_FILE" by metis+
  then show "with_extension (issue_path st i) ''tmp'' \<noteq> issue_path st j" "issue_path st i \<noteq> st_dir st @ [RUN_FILE]"
    by (simp_all add: issue_tmp [OF assms(1)] issue_path_plain [OF assms(2)]) (simp add: issue_path_plain [OF assms(1)])
  show "issue_path st i = issue_path st j \<longleftrightarrow> i = j" using assms by (simp add: issue_path_plain)
qed

lemma atomic_write_cases:
  assumes "atomic_write io p body fs = (fs', r)" and "with_extension p ''tmp'' \<noteq> p"
  shows "r = Ok () \<and> fs' = fs(with_extension p ''tmp'' := None, p \<mapsto> body) \<or>
    (\<exists>e. r = Err e) \<and> fs' p = fs p \<and> (\<forall>q. q \<noteq> with_extension p ''tmp'' \<longrightarrow> fs' q = fs q)"
proof (cases "io_err io ''mkdir'' MkDir")
  case None
  define R where "R = fs_replace io ''create'' ''write'' ''fsync'' ''rename'' (with_extension p ''tmp'') p body fs"
  have w: "fs' = fst R" "r = map_err (\<lambda>(op, e). Issue_Io op e) (snd R)"
    using assms(1) None by (simp_all add: atomic_write_def R_def apsnd_def map_prod_def split: prod.splits)
  show ?thesis
  proof (cases "snd R")
    case (Inl e)
    then have "fst R p = fs p" using fs_replace_Err [OF assms(2)] by (simp add: R_def)
    moreover have "fst R q = fs q" if "q \<noteq> with_extension p ''tmp''" "q \<noteq> p" for q
      using that by (simp add: R_def fs_replace_frame)
    ultimately show ?thesis using w Inl by auto
  next
    case (Inr u)
    then show ?thesis using fs_replace_Ok [OF assms(2)] w by (simp add: R_def)
  qed
qed (use assms(1) in \<open>auto simp: atomic_write_def\<close>)

lemma issue_write_cases:
  assumes "issue_write cx io st i fs = (fs', r)" and "task_id_ok (im_id (is_meta i))"
  shows "(\<exists>raw. r = Ok () \<and> render_issue cx i = Ok raw \<and>
      fs' = fs(with_extension (issue_path st (im_id (is_meta i))) ''tmp'' := None, issue_path st (im_id (is_meta i)) \<mapsto> raw)) \<or>
    (\<exists>e. r = Err e) \<and> (\<forall>q. q \<noteq> with_extension (issue_path st (im_id (is_meta i))) ''tmp'' \<longrightarrow> fs' q = fs q)"
proof (cases "render_issue cx i")
  case (Inr raw)
  then have "atomic_write io (issue_path st (im_id (is_meta i))) raw fs = (fs', r)"
    using assms(1) by (simp add: issue_write_def)
  from atomic_write_cases [OF this issue_path_neq(2) [OF assms(2) assms(2)]] Inr show ?thesis by auto
qed (use assms(1) in \<open>auto simp: issue_write_def\<close>)

text \<open>The store's contract: a write is read back, leaves other tasks alone, and changes nothing when it fails.\<close>

lemma issue_write_read:
  assumes "issue_write cx io st i fs = (fs', Ok ())" and "task_id_ok (im_id (is_meta i))"
    and "header_ok cx (is_meta i)" and "marker_free i"
  shows "issue_read cx io_fine st fs' (im_id (is_meta i)) = Ok (Some (as_read i))"
  using issue_write_cases [OF assms(1,2)] parse_render_issue [OF assms(3,4)]
  by (auto simp: issue_read_def io_fine_def)

lemma issue_write_frame:
  assumes "issue_write cx io st i fs = (fs', r)" and "task_id_ok (im_id (is_meta i))" and "task_id_ok j"
    and "j \<noteq> im_id (is_meta i) \<or> (\<exists>e. r = Err e)"
  shows "fs' (issue_path st j) = fs (issue_path st j)"
proof -
  have "issue_path st j \<noteq> with_extension (issue_path st (im_id (is_meta i))) ''tmp''"
    using issue_path_neq(2) [OF assms(2,3), of st] by simp
  moreover have "issue_path st j = issue_path st (im_id (is_meta i)) \<longleftrightarrow> j = im_id (is_meta i)"
    by (rule issue_path_neq(1) [OF assms(3,2)])
  ultimately show ?thesis using issue_write_cases [OF assms(1,2)] assms(4) by auto
qed

lemma issue_write_run_file:
  assumes "issue_write cx io st i fs = (fs', r)" and "task_id_ok (im_id (is_meta i))"
  shows "fs' (st_dir st @ [RUN_FILE]) = fs (st_dir st @ [RUN_FILE])"
proof -
  let ?i = "im_id (is_meta i)"
  have "rev (?i @ ''.tmp'') \<noteq> rev RUN_FILE" by (simp add: RUN_FILE_def)
  then have "?i @ ''.tmp'' \<noteq> RUN_FILE" by metis
  then have "st_dir st @ [RUN_FILE] \<noteq> with_extension (issue_path st ?i) ''tmp''"
    unfolding issue_tmp [OF assms(2)] by simp
  moreover have "st_dir st @ [RUN_FILE] \<noteq> issue_path st ?i"
    using issue_path_neq(3) [OF assms(2,2), of st] by simp
  ultimately show ?thesis using issue_write_cases [OF assms] by auto
qed

text \<open>A concrete codec for the instances below: headers are printed as positions in a table.\<close>

definition issue_table :: "IssueMeta list \<Rightarrow> RunMeta list \<Rightarrow> IssueCodec" where
  "issue_table ms rs =
     \<lparr>ix_print = \<lambda>m. case index_of ms m of Some k \<Rightarrow> Ok (show_nat k @ [NL]) | None \<Rightarrow> Err ''unknown'',
      ix_parse = \<lambda>s. if read_nat s < length ms then Ok (ms ! read_nat s) else Err ''unknown'',
      ix_print_run = \<lambda>m. case index_of rs m of Some k \<Rightarrow> Ok (show_nat k) | None \<Rightarrow> Err ''unknown'',
      ix_parse_run = \<lambda>s. if read_nat s < length rs then Ok (rs ! read_nat s) else Err ''unknown''\<rparr>"

definition sample_meta :: "Status \<Rightarrow> IssueMeta" where
  "sample_meta s =
     \<lparr>im_id = ''t'', im_title = ''title'', im_agent = ''a'', im_depends_on = [], im_status = s, im_job_id = Some 7,
      im_response_sha = None, im_seal = None, im_attempt = 0, im_verdict_seal = None\<rparr>"

definition sample_ix :: IssueCodec where
  "sample_ix = issue_table [sample_meta Done] []"

text \<open>The issue store keeps what it is given: after a successful write the task's file reads back as the issue, with
  prompt and response trimmed and a blank response as none; the files of other tasks and the run
  file are as they were; and an unsuccessful write changes no issue and not the run file. The header's TOML is assumed to
  parse back, and the title and prompt not to contain the markers that separate the sections.\<close>

lemma issue_store_roundtrip:
  assumes "task_id_ok (im_id (is_meta i))" and "header_ok cx (is_meta i)" and "marker_free i"
    and "issue_write cx io st i fs = (fs', r)"
  shows "(case r of
       Inr _ \<Rightarrow> issue_read cx io_fine st fs' (im_id (is_meta i)) = Ok (Some (as_read i))
     | Inl _ \<Rightarrow> issue_read cx io_fine st fs' (im_id (is_meta i)) = issue_read cx io_fine st fs (im_id (is_meta i))) \<and>
    (\<forall>j. task_id_ok j \<and> j \<noteq> im_id (is_meta i) \<longrightarrow> issue_read cx io_fine st fs' j = issue_read cx io_fine st fs j) \<and>
    read_run cx io_fine st fs' = read_run cx io_fine st fs"
proof -
  have "issue_read cx io_fine st fs' j = issue_read cx io_fine st fs j"
    if "task_id_ok j" "j \<noteq> im_id (is_meta i) \<or> (\<exists>e. r = Err e)" for j
    using issue_write_frame [OF assms(4,1) that] by (simp add: issue_read_def io_fine_def)
  moreover have "read_run cx io_fine st fs' = read_run cx io_fine st fs"
    using issue_write_run_file [OF assms(4,1)] by (simp add: read_run_def io_fine_def)
  moreover have "issue_read cx io_fine st fs' (im_id (is_meta i)) = Ok (Some (as_read i))" if "r = Ok u" for u
    using issue_write_read [OF _ assms(1,2,3)] assms(4) that by simp
  ultimately show ?thesis using assms(1) by (cases r) auto
qed

text \<open>A prompt that contains the response marker, which can come from the output of a dependency, is cut there
  when the issue is read, and what follows the marker is read as the task's captured response.\<close>

lemma prompt_marker_forges_response:
  assumes "header_ok cx (is_meta i)" and "find_sub PROMPT_MARKER (im_title (is_meta i)) = None"
    and "find_sub RESPONSE_MARKER (im_title (is_meta i)) = None"
    and "is_prompt i = before @ [NL, NL] @ RESPONSE_MARKER @ [NL] @ forged" and "find_sub RESPONSE_MARKER before = None"
    and "is_response i = None" and "render_issue cx i = Ok raw"
  shows "\<exists>i'. parse_issue cx n raw = Ok i' \<and> is_prompt i' = trim before \<and>
    is_response i' = (let s = trim (forged @ [NL, NL] @ RESPONSE_MARKER @ [NL]) in if s = [] then None else Some s)"
proof -
  let ?f = "forged @ [NL, NL] @ RESPONSE_MARKER @ [NL]"
  let ?body = "issue_body (im_title (is_meta i)) before ?f"
  obtain src where src: "ix_print cx (is_meta i) = Ok (src @ [NL])" "ix_parse cx src = Ok (is_meta i)"
    and nd: "\<forall>j < length src. \<not> prefix (NL # FM_DELIM) (drop j src)"
    using assms(1) by (auto simp: header_ok_def)
  have raw: "raw = FM_DELIM @ NL # src @ (NL # FM_DELIM) @ ?body"
    using assms(4,6,7) src(1) by (simp add: render_issue_def issue_body_def Let_def)
  show ?thesis
    using find_delim [OF nd, of ?body] src(2) section_prompt [OF assms(2,5)] section_response [OF assms(3,5)]
    unfolding raw by (simp add: parse_issue_def strip_prefix_def Let_def split: option.splits)
qed

end
