(* ===== verification/Seal_Chain.thy ===== *)
theory Seal_Chain
  imports Host_Fs "HOL-Library.List_Lexorder" "HOL-Library.Char_ord"
begin

section \<open>SEAL audit chains\<close>

text \<open>
  Models \<^verbatim>\<open>crates/orkia-shell/src/seal\<close>: one hash-linked, append-only chain (\<^verbatim>\<open>chain.rs\<close>, with the
  record of \<^verbatim>\<open>orkia-shell-types/src/seal.rs\<close>), the manager of job, project and workspace
  chains with its shallow and deep verification (\<^verbatim>\<open>manager.rs\<close>), the verdict view
  (\<^verbatim>\<open>collect_verdicts\<close> of \<^verbatim>\<open>audit_verify.rs\<close>) and the migration of the legacy file
  (\<^verbatim>\<open>migrate.rs\<close>). SHA-256 and the JSON library are the fields of \<open>SealCodec\<close>; time stamps are
  the strings the clock printed. Log output is not modelled.
\<close>

subsection \<open>Records\<close>

record SealRecord =
  sr_seq :: "64 word"
  sr_timestamp :: string
  sr_event_type :: string
  sr_detail :: Json
  sr_hash :: string
  sr_prev_hash :: string
  sr_rfc_id :: "string option"

datatype SealError = SealIo string | SealClosed | SealSerialize string | SealInternal string

record SealCodec =
  sx_sha :: "string \<Rightarrow> string"
  sx_value :: "Json \<Rightarrow> string"
  sx_print :: "SealRecord \<Rightarrow> (string, string) result"
  sx_parse :: "string \<Rightarrow> SealRecord option"

definition zero_hash :: string where
  "zero_hash = replicate 64 (CHR ''0'')"

definition hash_text :: "SealCodec \<Rightarrow> string \<Rightarrow> Json \<Rightarrow> string \<Rightarrow> string option \<Rightarrow> string" where
  "hash_text cx event_type detail timestamp rfc_id =
     event_type @ sx_value cx detail @ timestamp @
     (case rfc_id of Some i \<Rightarrow> ''rfc_id:'' @ i | None \<Rightarrow> [])"

definition compute_hash :: "SealCodec \<Rightarrow> string \<Rightarrow> string \<Rightarrow> Json \<Rightarrow> string \<Rightarrow> string option \<Rightarrow> string" where
  "compute_hash cx prev_hash event_type detail timestamp rfc_id =
     sx_sha cx (prev_hash @ hash_text cx event_type detail timestamp rfc_id)"

subsection \<open>One chain\<close>

record SealChain =
  sc_records :: "SealRecord list"
  sc_file_path :: path
  sc_next_seq :: "64 word"
  sc_closed :: bool

definition is_terminal_event :: "string \<Rightarrow> bool" where
  "is_terminal_event e \<longleftrightarrow> e \<in> {''agent.complete'', ''agent.failed''}"

definition chain_create :: "Io \<Rightarrow> path \<Rightarrow> (string, SealChain) result" where
  "chain_create io p =
     (case io_err io ''seal_mkdir'' MkDir of
        Some e \<Rightarrow> Err e
      | None \<Rightarrow> Ok \<lparr>sc_records = [], sc_file_path = p, sc_next_seq = 0, sc_closed = False\<rparr>)"

definition last_opt :: "'a list \<Rightarrow> 'a option" where
  "last_opt xs = (if xs = [] then None else Some (last xs))"

definition load_records :: "SealCodec \<Rightarrow> string \<Rightarrow> SealRecord list" where
  "load_records cx content =
     List.map_filter (\<lambda>line. if trim line = [] then None else sx_parse cx line) (str_lines content)"

definition chain_of :: "path \<Rightarrow> SealRecord list \<Rightarrow> SealChain" where
  "chain_of p records =
     \<lparr>sc_records = records, sc_file_path = p,
      sc_next_seq = (case last_opt records of Some r \<Rightarrow> sr_seq r + 1 | None \<Rightarrow> 0),
      sc_closed = (case last_opt records of Some r \<Rightarrow> is_terminal_event (sr_event_type r) | None \<Rightarrow> False)\<rparr>"

definition chain_load :: "SealCodec \<Rightarrow> Io \<Rightarrow> fs \<Rightarrow> path \<Rightarrow> (string, SealChain) result" where
  "chain_load cx io fs p =
     (case io_err io ''seal_mkdir'' MkDir of
        Some e \<Rightarrow> Err e
      | None \<Rightarrow>
         (case io_err io ''seal_read'' Read of
            Some e \<Rightarrow> Err e
          | None \<Rightarrow>
              Ok (chain_of p (load_records cx (case fs p of Some s \<Rightarrow> s | None \<Rightarrow> [])))))"

definition load_or_quarantine :: "SealCodec \<Rightarrow> Io \<Rightarrow> fs \<Rightarrow> path \<Rightarrow> SealChain" where
  "load_or_quarantine cx io fs p =
     (case chain_load cx io fs p of
        Ok c \<Rightarrow> c
      | Err _ \<Rightarrow> \<lparr>sc_records = [], sc_file_path = p, sc_next_seq = 0, sc_closed = True\<rparr>)"

definition next_record :: "SealCodec \<Rightarrow> string \<Rightarrow> SealChain \<Rightarrow> string \<Rightarrow> Json \<Rightarrow> string option \<Rightarrow> SealRecord" where
  "next_record cx now c event_type detail rfc_id =
     (let prev_hash = (case last_opt (sc_records c) of Some r \<Rightarrow> sr_hash r | None \<Rightarrow> zero_hash)
      in \<lparr>sr_seq = sc_next_seq c, sr_timestamp = now, sr_event_type = event_type, sr_detail = detail,
          sr_hash = compute_hash cx prev_hash event_type detail now rfc_id,
          sr_prev_hash = prev_hash, sr_rfc_id = rfc_id\<rparr>)"

definition chain_append ::
  "SealCodec \<Rightarrow> Io \<Rightarrow> string \<Rightarrow> string \<Rightarrow> Json \<Rightarrow> string option \<Rightarrow> SealChain \<Rightarrow> fs \<Rightarrow> fs \<times> SealChain \<times> (SealError, SealRecord) result" where
  "chain_append cx io now event_type detail rfc_id c fs =
     (if sc_closed c then (fs, c, Err SealClosed)
      else
        (let record = next_record cx now c event_type detail rfc_id;
             p = sc_file_path c;
             old = (case fs p of Some s \<Rightarrow> s | None \<Rightarrow> [])
         in case sx_print cx record of
              Err e \<Rightarrow> (fs, c, Err (SealSerialize e))
            | Ok line \<Rightarrow>
               (case io_err io ''seal_open'' Open of
                  Some e \<Rightarrow> (fs, c, Err (SealIo e))
                | None \<Rightarrow>
                   (case io_err io ''seal_write'' Write of
                      Some e \<Rightarrow>
                        (fs(p \<mapsto> old @ take (io_part io ''seal_write'') (line @ [NL])), c, Err (SealIo e))
                    | None \<Rightarrow>
                        (fs(p \<mapsto> old @ line @ [NL]),
                         c\<lparr>sc_closed := sc_closed c \<or> is_terminal_event event_type,
                           sc_next_seq := sc_next_seq c + 1,
                           sc_records := sc_records c @ [record]\<rparr>,
                         Ok record)))))"

definition chain_close :: "SealChain \<Rightarrow> SealChain" where
  "chain_close c = c\<lparr>sc_closed := True\<rparr>"

fun verify_loop :: "SealCodec \<Rightarrow> string \<Rightarrow> SealRecord list \<Rightarrow> bool \<times> 64 word option" where
  "verify_loop cx expected_prev [] = (True, None)"
| "verify_loop cx expected_prev (r # rs) =
     (if sr_prev_hash r \<noteq> expected_prev then (False, Some (sr_seq r))
      else if compute_hash cx expected_prev (sr_event_type r) (sr_detail r) (sr_timestamp r) (sr_rfc_id r)
                \<noteq> sr_hash r
        then (False, Some (sr_seq r))
      else verify_loop cx (sr_hash r) rs)"

definition chain_verify :: "SealCodec \<Rightarrow> SealChain \<Rightarrow> bool \<times> 64 word option" where
  "chain_verify cx c = verify_loop cx zero_hash (sc_records c)"

definition tip_hash :: "SealChain \<Rightarrow> string option" where
  "tip_hash c = map_option sr_hash (last_opt (sc_records c))"

subsection \<open>The manager\<close>

record SealManager =
  mg_job_chains :: "(32 word \<times> SealChain) list"
  mg_project_chains :: "(string \<times> SealChain) list"
  mg_workspace_chain :: "SealChain option"
  mg_data_dir :: path
  mg_origin_tag :: "string option"

record JobVerifyResult =
  jv_job_id :: "32 word"
  jv_agent :: string
  jv_chain_ok :: bool
  jv_tip_matches :: bool
  jv_broken_at :: "64 word option"
  jv_record_count :: nat

record DeepVerifyResult =
  dv_project_ok :: bool
  dv_project_broken_at :: "64 word option"
  dv_project_records :: nat
  dv_job_results :: "JobVerifyResult list"

definition with_origin :: "path \<Rightarrow> string option \<Rightarrow> SealManager" where
  "with_origin data_dir origin_tag =
     \<lparr>mg_job_chains = [], mg_project_chains = [], mg_workspace_chain = None,
      mg_data_dir = data_dir, mg_origin_tag = origin_tag\<rparr>"

definition manager_new :: "(string \<Rightarrow> string option) \<Rightarrow> path \<Rightarrow> SealManager" where
  "manager_new env data_dir =
     with_origin data_dir (if env ''ORKIA_SCHEDULED'' = Some ''1'' then Some ''scheduled'' else None)"

fun json_insert :: "string \<Rightarrow> Json \<Rightarrow> (string \<times> Json) list \<Rightarrow> (string \<times> Json) list" where
  "json_insert k v [] = [(k, v)]"
| "json_insert k v ((k', v') # m) =
     (if k = k' then (k, v) # m else if k < k' then (k, v) # (k', v') # m
      else (k', v') # json_insert k v m)"

definition tag_origin :: "SealManager \<Rightarrow> Json \<Rightarrow> Json" where
  "tag_origin m detail =
     (case (mg_origin_tag m, detail) of
        (Some origin, JObj obj) \<Rightarrow> JObj (json_insert ''origin'' (JStr origin) obj)
      | _ \<Rightarrow> detail)"

definition job_chain_path :: "path \<Rightarrow> string \<Rightarrow> 32 word \<Rightarrow> path" where
  "job_chain_path data_dir agent_name job_id =
     path_join (path_join data_dir ''agents'') agent_name @ [''jobs'', show_nat (unat job_id), ''seal.jsonl'']"

definition project_chain_path :: "path \<Rightarrow> string \<Rightarrow> path" where
  "project_chain_path data_dir project_name =
     path_join (path_join data_dir ''projects'') project_name @ [''seal.jsonl'']"

text \<open>The first free archive name, among the numbers below the largest 32-bit value.\<close>

function archive_search :: "fs \<Rightarrow> path \<Rightarrow> int \<Rightarrow> path option" where
  "archive_search fs p n =
     (if n < 4294967295 then
        (let q = with_extension p (''jsonl.'' @ show_nat (nat n))
         in if fs q = None then Some q else archive_search fs p (n + 1))
      else None)"
  by pat_completeness auto
termination
  by (relation "measure (\<lambda>(fs, p, n). nat (4294967295 - n))") auto

declare archive_search.simps [simp del]

definition archive_stale_chain :: "Io \<Rightarrow> path \<Rightarrow> fs \<Rightarrow> fs" where
  "archive_stale_chain io p fs =
     (if io_err io ''seal_archive'' Meta \<noteq> None \<or> fs p = None \<or> fs p = Some [] then fs
      else case archive_search fs p 1 of
             None \<Rightarrow> fs
           | Some archive \<Rightarrow>
              (if io_err io ''seal_archive'' Rename \<noteq> None then fs
               else fs(p := None, archive := fs p)))"

definition entry_or_insert :: "'k \<Rightarrow> 'v \<Rightarrow> ('k \<times> 'v) list \<Rightarrow> ('k \<times> 'v) list" where
  "entry_or_insert k v m = (if map_of m k = None then hm_insert k v m else m)"

definition create_job_chain :: "SealCodec \<Rightarrow> Io \<Rightarrow> 32 word \<Rightarrow> string \<Rightarrow> SealManager \<Rightarrow> fs \<Rightarrow> fs \<times> SealManager" where
  "create_job_chain cx io job_id agent_name m fs =
     (let p = job_chain_path (mg_data_dir m) agent_name job_id;
          fs' = archive_stale_chain io p fs;
          chain = load_or_quarantine cx io fs' p
      in (fs', m\<lparr>mg_job_chains := entry_or_insert job_id chain (mg_job_chains m)\<rparr>))"

definition open_job_chain :: "SealCodec \<Rightarrow> Io \<Rightarrow> 32 word \<Rightarrow> string \<Rightarrow> SealManager \<Rightarrow> fs \<Rightarrow> SealManager" where
  "open_job_chain cx io job_id agent_name m fs =
     (let p = job_chain_path (mg_data_dir m) agent_name job_id;
          chain = load_or_quarantine cx io fs p
      in m\<lparr>mg_job_chains := entry_or_insert job_id chain (mg_job_chains m)\<rparr>)"

text \<open>A closed chain swallows the record: that error is success for the manager's callers.\<close>

definition swallow_closed :: "(SealError, SealRecord) result \<Rightarrow> (SealError, unit) result" where
  "swallow_closed r =
     (case r of Inr _ \<Rightarrow> Ok () | Inl e \<Rightarrow> if e = SealClosed then Ok () else Err e)"

definition seal_job_with_rfc ::
  "SealCodec \<Rightarrow> Io \<Rightarrow> string \<Rightarrow> 32 word \<Rightarrow> string \<Rightarrow> Json \<Rightarrow> string option \<Rightarrow> SealManager \<Rightarrow> fs \<Rightarrow>
   fs \<times> SealManager \<times> (SealError, unit) result" where
  "seal_job_with_rfc cx io now job_id event_type detail rfc_id m fs =
     (case map_of (mg_job_chains m) job_id of
        None \<Rightarrow> (fs, m, Ok ())
      | Some chain \<Rightarrow>
         (case chain_append cx io now event_type (tag_origin m detail) rfc_id chain fs of
            (fs', chain', r) \<Rightarrow>
              (fs', m\<lparr>mg_job_chains := hm_insert job_id chain' (mg_job_chains m)\<rparr>, swallow_closed r)))"

definition close_job_chain :: "32 word \<Rightarrow> SealManager \<Rightarrow> SealManager \<times> string option" where
  "close_job_chain job_id m =
     (case map_of (mg_job_chains m) job_id of
        None \<Rightarrow> (m, None)
      | Some chain \<Rightarrow>
          (m\<lparr>mg_job_chains := hm_insert job_id (chain_close chain) (mg_job_chains m)\<rparr>, tip_hash chain))"

definition evict_job_chain :: "32 word \<Rightarrow> SealManager \<Rightarrow> SealManager" where
  "evict_job_chain job_id m = m\<lparr>mg_job_chains := hm_remove job_id (mg_job_chains m)\<rparr>"

definition seal_project_with_rfc ::
  "SealCodec \<Rightarrow> Io \<Rightarrow> string \<Rightarrow> string \<Rightarrow> string \<Rightarrow> Json \<Rightarrow> string option \<Rightarrow> SealManager \<Rightarrow> fs \<Rightarrow>
   fs \<times> SealManager \<times> (SealError, unit) result" where
  "seal_project_with_rfc cx io now project_name event_type detail rfc_id m fs =
     (let chain = (case map_of (mg_project_chains m) project_name of
                     Some c \<Rightarrow> c
                   | None \<Rightarrow> load_or_quarantine cx io fs (project_chain_path (mg_data_dir m) project_name))
      in case chain_append cx io now event_type (tag_origin m detail) rfc_id chain fs of
           (fs', chain', r) \<Rightarrow>
             (fs', m\<lparr>mg_project_chains := hm_insert project_name chain' (mg_project_chains m)\<rparr>, swallow_closed r))"

definition seal_job_reference ::
  "SealCodec \<Rightarrow> Io \<Rightarrow> string \<Rightarrow> string \<Rightarrow> 32 word \<Rightarrow> string \<Rightarrow> string \<Rightarrow> SealManager \<Rightarrow> fs \<Rightarrow>
   fs \<times> SealManager \<times> (SealError, unit) result" where
  "seal_job_reference cx io now project_name job_id agent_name job_chain_hash m fs =
     seal_project_with_rfc cx io now project_name ''job.reference''
       (JObj [(''agent'', JStr agent_name), (''job_chain_hash'', JStr job_chain_hash),
              (''job_id'', JInt (uint job_id))]) None m fs"

definition seal_workspace_with_rfc ::
  "SealCodec \<Rightarrow> Io \<Rightarrow> string \<Rightarrow> string \<Rightarrow> Json \<Rightarrow> string option \<Rightarrow> SealManager \<Rightarrow> fs \<Rightarrow>
   fs \<times> SealManager \<times> (SealError, unit) result" where
  "seal_workspace_with_rfc cx io now event_type detail rfc_id m fs =
     (let chain = (case mg_workspace_chain m of
                     Some c \<Rightarrow> c
                   | None \<Rightarrow> load_or_quarantine cx io fs (mg_data_dir m @ [''workspace'', ''seal.jsonl'']))
      in case chain_append cx io now event_type (tag_origin m detail) rfc_id chain fs of
           (fs', chain', r) \<Rightarrow> (fs', m\<lparr>mg_workspace_chain := Some chain'\<rparr>, swallow_closed r))"

definition verify_at :: "SealCodec \<Rightarrow> Io \<Rightarrow> fs \<Rightarrow> path \<Rightarrow> bool \<times> 64 word option \<times> nat" where
  "verify_at cx io fs p =
     (case chain_load cx io fs p of
        Ok c \<Rightarrow> (fst (chain_verify cx c), snd (chain_verify cx c), length (sc_records c))
      | Err _ \<Rightarrow> (False, Some 0, 0))"

definition verify_job :: "SealCodec \<Rightarrow> Io \<Rightarrow> SealManager \<Rightarrow> fs \<Rightarrow> string \<Rightarrow> 32 word \<Rightarrow> bool \<times> 64 word option \<times> nat" where
  "verify_job cx io m fs agent_name job_id =
     verify_at cx io fs (job_chain_path (mg_data_dir m) agent_name job_id)"

definition verify_project :: "SealCodec \<Rightarrow> Io \<Rightarrow> SealManager \<Rightarrow> fs \<Rightarrow> string \<Rightarrow> bool \<times> 64 word option \<times> nat" where
  "verify_project cx io m fs project_name =
     verify_at cx io fs (project_chain_path (mg_data_dir m) project_name)"

definition detail_str :: "string \<Rightarrow> string \<Rightarrow> Json \<Rightarrow> string" where
  "detail_str k d detail = (case Option.bind (json_get k detail) json_as_str of Some s \<Rightarrow> s | None \<Rightarrow> d)"

definition check_reference :: "SealCodec \<Rightarrow> Io \<Rightarrow> SealManager \<Rightarrow> fs \<Rightarrow> SealRecord \<Rightarrow> JobVerifyResult" where
  "check_reference cx io m fs record =
     (let agent = detail_str ''agent'' ''unknown'' (sr_detail record);
          job_id = (case Option.bind (json_get ''job_id'' (sr_detail record)) json_as_u64 of
                      Some i \<Rightarrow> word_of_int i | None \<Rightarrow> 0);
          expected_hash = detail_str ''job_chain_hash'' [] (sr_detail record)
      in case chain_load cx io fs (job_chain_path (mg_data_dir m) agent job_id) of
           Ok c \<Rightarrow>
             \<lparr>jv_job_id = job_id, jv_agent = agent, jv_chain_ok = fst (chain_verify cx c),
              jv_tip_matches = (tip_hash c = Some expected_hash),
              jv_broken_at = snd (chain_verify cx c), jv_record_count = length (sc_records c)\<rparr>
         | Err _ \<Rightarrow>
             \<lparr>jv_job_id = job_id, jv_agent = agent, jv_chain_ok = False, jv_tip_matches = False,
              jv_broken_at = Some 0, jv_record_count = 0\<rparr>)"

definition verify_project_deep :: "SealCodec \<Rightarrow> Io \<Rightarrow> SealManager \<Rightarrow> fs \<Rightarrow> string \<Rightarrow> DeepVerifyResult" where
  "verify_project_deep cx io m fs project_name =
     (case chain_load cx io fs (project_chain_path (mg_data_dir m) project_name) of
        Err _ \<Rightarrow> \<lparr>dv_project_ok = False, dv_project_broken_at = Some 0, dv_project_records = 0,
                  dv_job_results = []\<rparr>
      | Ok c \<Rightarrow>
          \<lparr>dv_project_ok = fst (chain_verify cx c), dv_project_broken_at = snd (chain_verify cx c),
           dv_project_records = length (sc_records c),
           dv_job_results = map (check_reference cx io m fs)
             (filter (\<lambda>r. sr_event_type r = ''job.reference'') (sc_records c))\<rparr>)"

subsection \<open>The verdict view and the legacy file\<close>

record VerdictRow =
  vr_verdict :: string
  vr_capability :: "string option"
  vr_command :: string
  vr_exit_code :: "32 word option"

definition str_field :: "SealRecord \<Rightarrow> string \<Rightarrow> string option" where
  "str_field r key = Option.bind (json_get key (sr_detail r)) json_as_str"

definition verdict_step :: "VerdictRow list \<Rightarrow> SealRecord \<Rightarrow> VerdictRow list" where
  "verdict_step out r =
     (if sr_event_type r = ''cage.verdict'' then
        (let verdict = (case str_field r ''verdict'' of Some v \<Rightarrow> v | None \<Rightarrow> ''?'');
             capability = str_field r ''capability''
         in if verdict = ''deny'' \<or> capability \<noteq> None
            then out @ [\<lparr>vr_verdict = verdict, vr_capability = capability,
                         vr_command = (case str_field r ''command'' of Some c \<Rightarrow> c | None \<Rightarrow> []),
                         vr_exit_code = None\<rparr>]
            else out)
      else if sr_event_type r = ''command.outcome'' then
        (if out \<noteq> [] \<and> vr_exit_code (last out) = None
         then butlast out @ [(last out)\<lparr>vr_exit_code :=
                map_option word_of_int (Option.bind (json_get ''exit_code'' (sr_detail r)) json_as_int)\<rparr>]
         else out)
      else out)"

definition collect_verdicts :: "SealRecord list \<Rightarrow> VerdictRow list" where
  "collect_verdicts records = foldl verdict_step [] records"

definition migrate_global_seal :: "Io \<Rightarrow> string \<Rightarrow> path \<Rightarrow> fs \<Rightarrow> fs \<times> path option" where
  "migrate_global_seal io stamp data_dir fs =
     (let legacy = data_dir @ [''seal.jsonl'']
      in if fs legacy = None then (fs, None)
         else
           (let primary = data_dir @ [''seal.jsonl.migrated''];
                destination = (if fs primary \<noteq> None then data_dir @ [''seal.jsonl.migrated-'' @ stamp] else primary)
            in if io_err io ''seal_migrate'' Rename = None
               then (fs(legacy := None, destination := fs legacy), Some destination)
               else (fs, None)))"

section \<open>The contract of a hash-linked chain\<close>

text \<open>
  What verification promises: the empty chain is valid, and a chain extended by one
  record is valid only when it was valid before, the record names the hash it
  follows, and its own hash is the digest of that hash and its content.
\<close>

locale chain_links =
  fixes valid :: "'r list \<Rightarrow> bool"
    and prev_of :: "'r \<Rightarrow> 'h"
    and hash_of :: "'r \<Rightarrow> 'h"
    and zero :: 'h
    and digest :: "'h \<Rightarrow> 'r \<Rightarrow> 'h"
  assumes valid_Nil: "valid []"
    and valid_snocD: "valid (rs @ [r]) \<Longrightarrow>
      valid rs \<and> prev_of r = (if rs = [] then zero else hash_of (last rs)) \<and> hash_of r = digest (prev_of r) r"
begin

definition tip :: "'r list \<Rightarrow> 'h" where
  "tip rs = (if rs = [] then zero else hash_of (last rs))"

lemma valid_prefix: "valid (rs @ qs) \<Longrightarrow> valid rs"
proof (induction qs rule: rev_induct)
  case (snoc q qs)
  then show ?case using valid_snocD [of "rs @ qs" q] by simp
qed simp

text \<open>
  If the digest is injective on what the two chains feed it, and never gives the hash
  that starts a chain, two valid chains with the same tip have the same content.
\<close>

lemma same_tip_same_content:
  assumes "\<And>r q. r \<in> set rs \<Longrightarrow> q \<in> set qs \<Longrightarrow> digest (prev_of r) r = digest (prev_of q) q \<Longrightarrow>
      prev_of r = prev_of q \<and> body r = body q"
    and "zero \<notin> hash_of ` set rs" and "zero \<notin> hash_of ` set qs"
    and "valid rs" and "valid qs" and "tip rs = tip qs"
  shows "map body rs = map body qs"
  using assms
proof (induction rs arbitrary: qs rule: rev_induct)
  case Nil
  then show ?case by (cases qs rule: rev_cases) (auto simp: tip_def)
next
  case (snoc r rs)
  from snoc.prems(2,6) have "qs \<noteq> []" by (auto simp: tip_def)
  then obtain qs' q where qs: "qs = qs' @ [q]" by (cases qs rule: rev_cases) auto
  note v = valid_snocD [OF snoc.prems(4)] valid_snocD [OF snoc.prems(5) [unfolded qs]]
  have "hash_of r = hash_of q" using snoc.prems(6) by (simp add: tip_def qs)
  with v have "digest (prev_of r) r = digest (prev_of q) q" by simp
  with snoc.prems(1) [of r q] have e: "prev_of r = prev_of q" "body r = body q" by (simp_all add: qs)
  have "tip rs = tip qs'" using e(1) v by (simp add: tip_def)
  then have "map body rs = map body qs'"
    using snoc.prems(1,2,3) v by (intro snoc.IH) (auto simp: qs)
  then show ?case by (simp add: qs e(2))
qed

end

text \<open>A verifier that checks nothing but the links and the hashes also accepts every well-linked extension.\<close>

locale chain_check = chain_links valid prev_of hash_of zero digest
  for valid :: "'r list \<Rightarrow> bool" and prev_of :: "'r \<Rightarrow> 'h" and hash_of :: "'r \<Rightarrow> 'h" and zero :: 'h
    and digest :: "'h \<Rightarrow> 'r \<Rightarrow> 'h" +
  assumes valid_link: "valid rs \<Longrightarrow> prev_of r = (if rs = [] then zero else hash_of (last rs)) \<Longrightarrow>
      hash_of r = digest (prev_of r) r \<Longrightarrow> valid (rs @ [r])"
begin

lemma valid_extend:
  "valid rs \<Longrightarrow> prev_of r = tip rs \<Longrightarrow> hash_of r = digest (tip rs) r \<Longrightarrow> valid (rs @ [r])"
  using valid_link [of rs r] by (simp add: tip_def)

end

definition record_digest :: "SealCodec \<Rightarrow> string \<Rightarrow> SealRecord \<Rightarrow> string" where
  "record_digest cx prev r =
     compute_hash cx prev (sr_event_type r) (sr_detail r) (sr_timestamp r) (sr_rfc_id r)"

definition record_text :: "SealCodec \<Rightarrow> SealRecord \<Rightarrow> string" where
  "record_text cx r = hash_text cx (sr_event_type r) (sr_detail r) (sr_timestamp r) (sr_rfc_id r)"

lemma verify_loop_snoc:
  "fst (verify_loop cx p (rs @ [r])) \<longleftrightarrow>
     fst (verify_loop cx p rs) \<and> sr_prev_hash r = (if rs = [] then p else sr_hash (last rs)) \<and>
     sr_hash r = record_digest cx (sr_prev_hash r) r"
  by (induction rs arbitrary: p) (auto simp: record_digest_def)

interpretation seal: chain_check "\<lambda>rs. fst (verify_loop cx zero_hash rs)" sr_prev_hash sr_hash zero_hash
    "record_digest cx" for cx
  by unfold_locales (simp_all add: verify_loop_snoc)

section \<open>Appending and reloading\<close>

lemma chain_append_cases:
  assumes "chain_append cx io now ev detail rfc c fs = (fs', c', res)"
  shows "(\<exists>e. res = Err e \<and> c' = c) \<or>
    (\<exists>line. \<not> sc_closed c \<and> res = Ok (next_record cx now c ev detail rfc) \<and>
       sx_print cx (next_record cx now c ev detail rfc) = Ok line \<and>
       fs' = fs(sc_file_path c \<mapsto> (case fs (sc_file_path c) of Some s \<Rightarrow> s | None \<Rightarrow> []) @ line @ [NL]) \<and>
       c' = c\<lparr>sc_closed := is_terminal_event ev, sc_next_seq := sc_next_seq c + 1,
              sc_records := sc_records c @ [next_record cx now c ev detail rfc]\<rparr>)"
  using assms by (auto simp: chain_append_def Let_def split: if_splits sum.splits option.splits)

lemma last_opt_simps [simp]: "last_opt [] = None" "last_opt (xs @ [x]) = Some x"
  by (simp_all add: last_opt_def)

lemma next_record_simps:
  "sr_seq (next_record cx now c ev detail rfc) = sc_next_seq c"
  "sr_event_type (next_record cx now c ev detail rfc) = ev"
  "sr_prev_hash (next_record cx now c ev detail rfc) =
     (if sc_records c = [] then zero_hash else sr_hash (last (sc_records c)))"
  "sr_hash (next_record cx now c ev detail rfc) =
     record_digest cx (sr_prev_hash (next_record cx now c ev detail rfc)) (next_record cx now c ev detail rfc)"
  by (simp_all add: next_record_def Let_def last_opt_def record_digest_def)

lemma verify_append:
  "fst (verify_loop cx zero_hash (sc_records c)) \<Longrightarrow>
   fst (verify_loop cx zero_hash (sc_records c @ [next_record cx now c ev detail rfc]))"
  using next_record_simps(3,4) [of cx now c ev detail rfc] by (simp add: verify_loop_snoc)

text \<open>The record's line parses back and does not break the line structure.\<close>

definition print_ok :: "SealCodec \<Rightarrow> SealRecord \<Rightarrow> bool" where
  "print_ok cx r \<longleftrightarrow>
     (\<forall>line. sx_print cx r = Ok line \<longrightarrow> sx_parse cx line = Some r \<and> trim line \<noteq> [] \<and> NL \<notin> set line \<and>
        \<not> suffix [CHR 0x0D] line)"

text \<open>The chain in memory is what a reader of its file would load.\<close>

definition on_disk :: "SealCodec \<Rightarrow> SealChain \<Rightarrow> fs \<Rightarrow> bool" where
  "on_disk cx c fs \<longleftrightarrow>
     chain_load cx io_fine fs (sc_file_path c) = Ok c \<and>
     log_closed (case fs (sc_file_path c) of Some s \<Rightarrow> s | None \<Rightarrow> [])"

lemma chain_load_fine:
  "chain_load cx io_fine fs p = Ok (chain_of p (load_records cx (case fs p of Some s \<Rightarrow> s | None \<Rightarrow> [])))"
  by (simp add: chain_load_def io_fine_def)

lemma load_records_snoc:
  assumes "log_closed s" and "NL \<notin> set line" and "\<not> suffix [CHR 0x0D] line"
  shows "load_records cx (s @ line @ [NL]) =
    load_records cx s @ (case (if trim line = [] then None else sx_parse cx line) of Some r \<Rightarrow> [r] | None \<Rightarrow> [])"
proof -
  have "List.map_filter f (xs @ [x]) = List.map_filter f xs @ (case f x of Some y \<Rightarrow> [y] | None \<Rightarrow> [])"
    for f :: "string \<Rightarrow> SealRecord option" and xs x
    by (simp add: List.map_filter_def split: option.splits)
  then show ?thesis by (simp add: load_records_def str_lines_snoc [OF assms])
qed

lemma append_on_disk:
  assumes "on_disk cx c fs" and "chain_append cx io now ev detail rfc c fs = (fs', c', Ok r)" and "print_ok cx r"
  shows "on_disk cx c' fs'"
proof -
  let ?old = "case fs (sc_file_path c) of Some s \<Rightarrow> s | None \<Rightarrow> []"
  obtain line where r: "r = next_record cx now c ev detail rfc" "\<not> sc_closed c" "sx_print cx r = Ok line"
    and fs': "fs' = fs(sc_file_path c \<mapsto> ?old @ line @ [NL])"
    and c': "c' = c\<lparr>sc_closed := is_terminal_event ev, sc_next_seq := sc_next_seq c + 1, sc_records := sc_records c @ [r]\<rparr>"
    using chain_append_cases [OF assms(2)] by auto
  have l: "sx_parse cx line = Some r" "trim line \<noteq> []" "NL \<notin> set line" "\<not> suffix [CHR 0x0D] line"
    using assms(3) r(3) by (simp_all add: print_ok_def)
  have old: "log_closed ?old" and c: "chain_of (sc_file_path c) (load_records cx ?old) = c"
    using assms(1) by (simp_all add: on_disk_def chain_load_fine)
  have "load_records cx ?old = sc_records c" by (subst c [symmetric]) (simp add: chain_of_def)
  then have "load_records cx (?old @ line @ [NL]) = sc_records c @ [r]"
    using load_records_snoc [OF old l(3,4)] l(1,2) by simp
  moreover have "chain_of (sc_file_path c) (sc_records c @ [r]) = c'"
    by (simp add: chain_of_def c' r(1) next_record_simps)
  moreover have "log_closed (?old @ line @ [NL])" by (simp add: log_closed_def)
  ultimately show ?thesis by (simp add: on_disk_def chain_load_fine fs' c')
qed

section \<open>Archiving a previous chain\<close>

lemma archive_search_free: "archive_search fs p n = Some q \<Longrightarrow> fs q = None"
proof (induction fs p n rule: archive_search.induct)
  case (1 fs p n)
  then show ?case
    by (subst (asm) (2) archive_search.simps) (auto simp: Let_def split: if_splits)
qed

lemma archive_stale_chain_spec:
  assumes "fs p = Some s" and "s \<noteq> []" and "archive_search fs p 1 = Some q"
  shows "archive_stale_chain io_fine p fs = fs(p := None, q \<mapsto> s)" and "q \<noteq> p"
  using assms archive_search_free [OF assms(3)] by (auto simp: archive_stale_chain_def io_fine_def)

section \<open>What the chains guarantee\<close>

lemma chain_append_closed: "sc_closed c \<Longrightarrow> chain_append cx io now ev detail rfc c fs = (fs, c, Err SealClosed)"
  by (simp add: chain_append_def)

lemma same_text_same_tip:
  assumes "fst (verify_loop cx zero_hash rs)" and "fst (verify_loop cx zero_hash qs)"
    and "map (record_text cx) rs = map (record_text cx) qs"
  shows "seal.tip rs = seal.tip qs"
  using assms
proof (induction rs arbitrary: qs rule: rev_induct)
  case Nil
  then show ?case by simp
next
  case (snoc r rs)
  then obtain qs' q where qs: "qs = qs' @ [q]" by (cases qs rule: rev_cases) auto
  then have "seal.tip rs = seal.tip qs'" and t: "record_text cx r = record_text cx q"
    using snoc by (simp_all add: verify_loop_snoc)
  then have "sr_prev_hash r = sr_prev_hash q"
    using snoc.prems(1,2) by (simp add: qs verify_loop_snoc seal.tip_def)
  with t snoc.prems(1,2) show ?case
    by (simp add: qs verify_loop_snoc seal.tip_def record_digest_def compute_hash_def record_text_def)
qed

text \<open>The string whose SHA-256 digest is a record's hash.\<close>

definition hashed_text :: "SealCodec \<Rightarrow> SealRecord \<Rightarrow> string" where
  "hashed_text cx r = sr_prev_hash r @ record_text cx r"

lemma hashed_text_eq_iff:
  assumes "length (sr_prev_hash r) = 64" and "length (sr_prev_hash q) = 64"
  shows "hashed_text cx r = hashed_text cx q \<longleftrightarrow>
    sr_prev_hash r = sr_prev_hash q \<and> record_text cx r = record_text cx q"
  using assms by (auto simp: hashed_text_def)

lemma record_digest_text: "record_digest cx (sr_prev_hash r) r = sx_sha cx (hashed_text cx r)"
  by (simp add: record_digest_def compute_hash_def hashed_text_def record_text_def)

lemma verified_prev_length:
  "fst (verify_loop cx zero_hash rs) \<Longrightarrow> (\<And>r. r \<in> set rs \<Longrightarrow> length (sr_hash r) = 64) \<Longrightarrow>
   r \<in> set rs \<Longrightarrow> length (sr_prev_hash r) = 64"
proof (induction rs rule: rev_induct)
  case (snoc q rs)
  then show ?case by (auto simp: verify_loop_snoc zero_hash_def)
qed simp

lemma tip_hash_eq_iff:
  "zero_hash \<notin> sr_hash ` set (sc_records c) \<Longrightarrow> zero_hash \<notin> sr_hash ` set (sc_records d) \<Longrightarrow>
   tip_hash c = tip_hash d \<longleftrightarrow> seal.tip (sc_records c) = seal.tip (sc_records d)"
  by (auto simp: tip_hash_def last_opt_def seal.tip_def image_iff) (metis last_in_set)+

lemma json_insert_map_of [simp]: "map_of (json_insert k v m) k' = (if k' = k then Some v else map_of m k')"
  by (induction m) auto

lemma json_get_tag_origin: "k \<noteq> ''origin'' \<Longrightarrow> json_get k (tag_origin m d) = json_get k d"
  by (cases "mg_origin_tag m"; cases d) (simp_all add: tag_origin_def json_get_def)

lemma job_path_not_project: "job_chain_path d a j \<noteq> project_chain_path d p"
proof -
  have "path_comps ''agents'' = [''agents'']" "path_comps ''projects'' = [''projects'']"
    by (simp_all add: path_comps_plain)
  then show ?thesis by (simp add: job_chain_path_def project_chain_path_def path_join_def)
qed

lemma chain_append_frame:
  "chain_append cx io now ev detail rfc c fs = (fs', c', res) \<Longrightarrow> q \<noteq> sc_file_path c \<Longrightarrow> fs' q = fs q"
  by (auto simp: chain_append_def Let_def split: if_splits sum.splits option.splits)

definition reference_detail :: "string \<Rightarrow> 32 word \<Rightarrow> string \<Rightarrow> Json" where
  "reference_detail agent job_id h =
     JObj [(''agent'', JStr agent), (''job_chain_hash'', JStr h), (''job_id'', JInt (uint job_id))]"

lemma check_reference_fields:
  assumes "sr_detail r = tag_origin m (reference_detail agent job_id h)"
    and "chain_load cx io_fine fs (job_chain_path (mg_data_dir m) agent job_id) = Ok jc"
  shows "check_reference cx io_fine m fs r =
    \<lparr>jv_job_id = job_id, jv_agent = agent, jv_chain_ok = fst (chain_verify cx jc),
     jv_tip_matches = (tip_hash jc = Some h), jv_broken_at = snd (chain_verify cx jc),
     jv_record_count = length (sc_records jc)\<rparr>"
proof -
  have "uint job_id < 2 ^ 32" using uint_lt2p [of job_id] by simp
  then have "json_as_u64 (JInt (uint job_id)) = Some (uint job_id)" by (simp add: json_as_u64_def)
  moreover have "json_get ''agent'' (reference_detail agent job_id h) = Some (JStr agent)"
    "json_get ''job_id'' (reference_detail agent job_id h) = Some (JInt (uint job_id))"
    "json_get ''job_chain_hash'' (reference_detail agent job_id h) = Some (JStr h)"
    by (simp_all add: reference_detail_def json_get_def)
  ultimately show ?thesis
    using assms(2) by (simp add: check_reference_def detail_str_def assms(1) json_get_tag_origin json_as_str_def)
qed

text \<open>A small concrete codec on which the properties are evaluated.\<close>

definition demo_codec :: "(string \<times> SealRecord) list \<Rightarrow> SealCodec" where
  "demo_codec rows =
     \<lparr>sx_sha = \<lambda>s. CHR ''h'' # take 63 (rev s @ replicate 63 (CHR ''.'')),
      sx_value = \<lambda>_. ''{}'',
      sx_print = \<lambda>r. Ok (''{'' @ sr_event_type r @ ''}''),
      sx_parse = map_of rows\<rparr>"

definition demo_record :: "string \<Rightarrow> SealRecord" where
  "demo_record ev = next_record (demo_codec []) ''T'' (chain_of [''c''] []) ev JNull None"

definition demo_row :: "string \<Rightarrow> string \<times> SealRecord" where
  "demo_row ev = (''{'' @ ev @ ''}'', demo_record ev)"

text \<open>Appending to a chain that verifies keeps it verifying. A refused append leaves the chain
  in memory unchanged, whatever failed, and a closed chain refuses without touching the file. An accepted
  one adds exactly the returned record: it carries the next sequence number and the hash
  of the record before it, and the chain is closed by it exactly when it is terminal.\<close>

lemma chain_append_sound:
  assumes "fst (chain_verify cx c)" and "chain_append cx io now ev detail rfc c fs = (fs', c', res)"
  shows "fst (chain_verify cx c') \<and>
    (sc_closed c \<longrightarrow> res = Err SealClosed \<and> fs' = fs) \<and>
    (case res of
       Inl e \<Rightarrow> c' = c
     | Inr r \<Rightarrow> sc_records c' = sc_records c @ [r] \<and> sr_seq r = sc_next_seq c \<and> sc_next_seq c' = sr_seq r + 1 \<and>
         Some (sr_prev_hash r) = (if sc_records c = [] then Some zero_hash else tip_hash c) \<and>
         tip_hash c' = Some (sr_hash r) \<and> (sc_closed c' \<longleftrightarrow> is_terminal_event ev))"
  using chain_append_cases [OF assms(2)]
proof (elim disjE exE conjE)
  fix e assume "res = Err e" "c' = c"
  then show ?thesis using assms by (auto simp: chain_append_def)
next
  fix line assume "res = Ok (next_record cx now c ev detail rfc)" "\<not> sc_closed c"
    "c' = c\<lparr>sc_closed := is_terminal_event ev, sc_next_seq := sc_next_seq c + 1,
            sc_records := sc_records c @ [next_record cx now c ev detail rfc]\<rparr>"
  then show ?thesis
    using assms(1) verify_append [of cx c now ev detail rfc]
    by (simp add: chain_verify_def next_record_simps(1,3) tip_hash_def last_opt_def)
qed

text \<open>After a successful append the file reads back as exactly the chain in memory: same records, same
  next sequence number, same closedness. The serialised record is assumed to parse back and
  to stay on one line, as JSON text does.\<close>

lemma append_reloads:
  assumes "chain_load cx io_fine fs (sc_file_path c) = Ok c"
    and "log_closed (case fs (sc_file_path c) of Some s \<Rightarrow> s | None \<Rightarrow> [])"
    and "chain_append cx io now ev detail rfc c fs = (fs', c', Ok r)" and "print_ok cx r"
  shows "chain_load cx io_fine fs' (sc_file_path c) = Ok c'"
proof -
  have "on_disk cx c' fs'" using append_on_disk [OF _ assms(3,4)] assms(1,2) by (simp add: on_disk_def)
  moreover have "sc_file_path c' = sc_file_path c" using chain_append_cases [OF assms(3)] by auto
  ultimately show ?thesis by (simp add: on_disk_def)
qed

lemma demo_append:
  "chain_append (demo_codec rows) io_fine ''T'' ev JNull None (chain_of [''c''] []) (\<lambda>_. None) =
     ((\<lambda>_. None)([''c''] \<mapsto> ''{'' @ ev @ ''}'' @ [NL]),
      \<lparr>sc_records = [demo_record ev], sc_file_path = [''c''], sc_next_seq = 1, sc_closed = is_terminal_event ev\<rparr>,
      Ok (demo_record ev))"
  by (simp add: chain_append_def chain_of_def io_fine_def demo_codec_def demo_record_def next_record_def
      compute_hash_def hash_text_def Let_def)

lemma demo_load: "chain_load (demo_codec rows) io_fine (\<lambda>_. None) [''c''] = Ok (chain_of [''c''] [])"
  by (simp add: chain_load_fine load_records_def str_lines_Nil List.map_filter_def)

lemma demo_print:
  assumes "ev \<in> {''agent.spawn'', ''agent.complete'', ''note''}"
  shows "print_ok (demo_codec [demo_row ev]) (demo_record ev)"
  using assms by (auto simp: print_ok_def demo_codec_def demo_row_def demo_record_def next_record_def Let_def
      trim_def trim_start_def trim_end_def is_whitespace_def suffix_def)

text \<open>A terminal record seals the chain for good: once one has been appended, every reader that loads
  the file gets a closed chain, and no append on it changes the file or the chain any more.\<close>

lemma terminal_event_seals:
  assumes "chain_load cx io_fine fs (sc_file_path c) = Ok c"
    and "log_closed (case fs (sc_file_path c) of Some s \<Rightarrow> s | None \<Rightarrow> [])"
    and "is_terminal_event ev"
    and "chain_append cx io now ev detail rfc c fs = (fs', c', Ok r)" and "print_ok cx r"
  shows "\<exists>d. chain_load cx io_fine fs' (sc_file_path c) = Ok d \<and> sc_records d = sc_records c @ [r] \<and>
    (\<forall>io' now' ev' detail' rfc'. chain_append cx io' now' ev' detail' rfc' d fs' = (fs', d, Err SealClosed))"
proof (intro exI conjI)
  have "on_disk cx c' fs'" using append_on_disk [OF _ assms(4,5)] assms(1,2) by (simp add: on_disk_def)
  moreover have c': "sc_file_path c' = sc_file_path c" "sc_records c' = sc_records c @ [r]" "sc_closed c'"
    using chain_append_cases [OF assms(4)] assms(3) by auto
  ultimately show "chain_load cx io_fine fs' (sc_file_path c) = Ok c'" by (simp add: on_disk_def)
  show "sc_records c' = sc_records c @ [r]" by (fact c'(2))
  show "\<forall>io' now' ev' detail' rfc'. chain_append cx io' now' ev' detail' rfc' c' fs' = (fs', c', Err SealClosed)"
    by (simp add: chain_append_closed c'(3))
qed

text \<open>C25. The tip hash pins the content. Take two chains that verify, whose hashes have the length of
  a SHA-256 digest in hexadecimal, and assume that SHA-256 does not collide on the texts hashed in them and that no
  record has the all-zero hash. Then they have the same tip exactly when they have the
  same number of records with the same hashed content, in the same order.\<close>

theorem tip_pins_content:
  assumes "fst (chain_verify cx c)" and "fst (chain_verify cx d)"
    and "\<And>r. r \<in> set (sc_records c) \<union> set (sc_records d) \<Longrightarrow> length (sr_hash r) = 64 \<and> sr_hash r \<noteq> zero_hash"
    and "inj_on (sx_sha cx) (hashed_text cx ` (set (sc_records c) \<union> set (sc_records d)))"
  shows "tip_hash c = tip_hash d \<longleftrightarrow>
    map (record_text cx) (sc_records c) = map (record_text cx) (sc_records d)"
proof -
  let ?rs = "sc_records c" and ?qs = "sc_records d"
  have v: "fst (verify_loop cx zero_hash ?rs)" "fst (verify_loop cx zero_hash ?qs)"
    using assms(1,2) by (simp_all add: chain_verify_def)
  have z: "zero_hash \<notin> sr_hash ` set ?rs" "zero_hash \<notin> sr_hash ` set ?qs"
    using assms(3) [THEN conjunct2] by (auto dest!: sym [of zero_hash])
  have len: "length (sr_prev_hash r) = 64" if "r \<in> set ?rs \<union> set ?qs" for r
  proof (cases "r \<in> set ?rs")
    case True then show ?thesis by (intro verified_prev_length [OF v(1)]) (simp_all add: assms(3))
  next
    case False
    with that have "r \<in> set ?qs" by simp
    then show ?thesis by (intro verified_prev_length [OF v(2)]) (simp_all add: assms(3))
  qed
  have "sr_prev_hash r = sr_prev_hash q \<and> record_text cx r = record_text cx q"
    if "r \<in> set ?rs" "q \<in> set ?qs" "record_digest cx (sr_prev_hash r) r = record_digest cx (sr_prev_hash q) q" for r q
    using that assms(4) hashed_text_eq_iff [OF len len, of r q cx] by (simp add: record_digest_text inj_on_eq_iff)
  note inj = this
  have "map (record_text cx) ?rs = map (record_text cx) ?qs" if "seal.tip ?rs = seal.tip ?qs"
    by (rule seal.same_tip_same_content [OF inj z v that])
  then show ?thesis unfolding tip_hash_eq_iff [OF z] using same_text_same_tip [OF v] by (rule iffI)
qed

theorem tip_pins_content_witness:
  "tip_hash (chain_of [''c''] [demo_record ''note'']) \<noteq> tip_hash (chain_of [''c''] [demo_record ''agent.spawn''])"
proof -
  let ?cx = "demo_codec []"
  let ?c = "chain_of [''c''] [demo_record ''note'']" and ?d = "chain_of [''c''] [demo_record ''agent.spawn'']"
  have v: "fst (chain_verify ?cx ?c)" "fst (chain_verify ?cx ?d)" by code_simp+
  have h: "\<And>r. r \<in> set (sc_records ?c) \<union> set (sc_records ?d) \<Longrightarrow> length (sr_hash r) = 64 \<and> sr_hash r \<noteq> zero_hash"
  proof -
    have "list_all (\<lambda>r. length (sr_hash r) = 64 \<and> sr_hash r \<noteq> zero_hash) (sc_records ?c @ sc_records ?d)" by code_simp
    then show "\<And>r. r \<in> set (sc_records ?c) \<union> set (sc_records ?d) \<Longrightarrow> length (sr_hash r) = 64 \<and> sr_hash r \<noteq> zero_hash"
      unfolding list_all_iff set_append by blast
  qed
  have n: "sx_sha ?cx (hashed_text ?cx (demo_record ''note'')) \<noteq> sx_sha ?cx (hashed_text ?cx (demo_record ''agent.spawn''))"
    by code_simp
  have i: "inj_on (sx_sha ?cx) (hashed_text ?cx ` (set (sc_records ?c) \<union> set (sc_records ?d)))"
    using n by (auto simp: chain_of_def)
  have t: "record_text ?cx (demo_record ''note'') \<noteq> record_text ?cx (demo_record ''agent.spawn'')" by code_simp
  show ?thesis using tip_pins_content [OF v h i] t by (simp add: chain_of_def)
qed

text \<open>The bridge between scopes: after a job's hash has been sealed into a project's chain, deep
  verification of the project from disk passes for the project chain and reports that job last, with the
  integrity of the job's own chain and with a matching tip exactly when the job's file still ends in the
  sealed hash.\<close>

lemma deep_verify_checks_reference:
  assumes "map_of (mg_project_chains m) project = Some pc"
    and "sc_file_path pc = project_chain_path (mg_data_dir m) project"
    and "on_disk cx pc fs" and "\<not> sc_closed pc" and "fst (chain_verify cx pc)"
    and "seal_job_reference cx io now project job_id agent h m fs = (fs', m', Ok ())"
    and "print_ok cx (next_record cx now pc ''job.reference'' (tag_origin m (reference_detail agent job_id h)) None)"
    and "chain_load cx io_fine fs (job_chain_path (mg_data_dir m) agent job_id) = Ok jc"
  shows "dv_project_ok (verify_project_deep cx io_fine m' fs' project) \<and>
    dv_project_records (verify_project_deep cx io_fine m' fs' project) = length (sc_records pc) + 1 \<and>
    dv_job_results (verify_project_deep cx io_fine m' fs' project) \<noteq> [] \<and>
    last (dv_job_results (verify_project_deep cx io_fine m' fs' project)) =
      \<lparr>jv_job_id = job_id, jv_agent = agent, jv_chain_ok = fst (chain_verify cx jc),
       jv_tip_matches = (tip_hash jc = Some h), jv_broken_at = snd (chain_verify cx jc),
       jv_record_count = length (sc_records jc)\<rparr>"
proof -
  let ?d = "tag_origin m (reference_detail agent job_id h)"
  let ?r = "next_record cx now pc ''job.reference'' ?d None"
  obtain pc' res where a: "chain_append cx io now ''job.reference'' ?d None pc fs = (fs', pc', res)"
    and m': "m' = m\<lparr>mg_project_chains := hm_insert project pc' (mg_project_chains m)\<rparr>" and ok: "swallow_closed res = Ok ()"
    using assms(1,6)
    by (auto simp: seal_job_reference_def seal_project_with_rfc_def reference_detail_def Let_def split: prod.splits)
  have res: "res = Ok ?r" and pc': "sc_records pc' = sc_records pc @ [?r]" "sc_file_path pc' = sc_file_path pc"
    using chain_append_cases [OF a] ok assms(4) a
    by (auto simp: swallow_closed_def chain_append_def Let_def split: if_splits sum.splits option.splits)
  have "on_disk cx pc' fs'" using append_on_disk [OF assms(3) a [unfolded res] assms(7)] .
  then have l: "chain_load cx io_fine fs' (project_chain_path (mg_data_dir m') project) = Ok pc'"
    by (simp add: on_disk_def pc'(2) assms(2) m')
  have v: "fst (chain_verify cx pc')"
    using verify_append [of cx pc now "''job.reference''" ?d None] assms(5) by (simp add: chain_verify_def pc'(1))
  have "fs' (job_chain_path (mg_data_dir m) agent job_id) = fs (job_chain_path (mg_data_dir m) agent job_id)"
    using chain_append_frame [OF a] job_path_not_project by (simp add: assms(2))
  then have "chain_load cx io_fine fs' (job_chain_path (mg_data_dir m) agent job_id) = Ok jc"
    using assms(8) by (simp add: chain_load_fine)
  moreover have "sr_detail ?r = tag_origin m' (reference_detail agent job_id h)"
    by (simp add: next_record_def Let_def m' tag_origin_def)
  ultimately have "check_reference cx io_fine m' fs' ?r =
      \<lparr>jv_job_id = job_id, jv_agent = agent, jv_chain_ok = fst (chain_verify cx jc),
       jv_tip_matches = (tip_hash jc = Some h), jv_broken_at = snd (chain_verify cx jc),
       jv_record_count = length (sc_records jc)\<rparr>"
    by (intro check_reference_fields) (simp_all add: m')
  then show ?thesis by (simp add: verify_project_deep_def l v pc'(1) next_record_simps(2))
qed

definition demo_manager :: SealManager where
  "demo_manager = \<lparr>mg_job_chains = [], mg_project_chains = [(''p'', chain_of [''d'', ''projects'', ''p'', ''seal.jsonl''] [])],
     mg_workspace_chain = None, mg_data_dir = [''d''], mg_origin_tag = Some ''scheduled''\<rparr>"

definition demo_reference :: SealRecord where
  "demo_reference = next_record (demo_codec []) ''T'' (chain_of [''d'', ''projects'', ''p'', ''seal.jsonl''] [])
     ''job.reference'' (tag_origin demo_manager (reference_detail ''a'' 7 (sr_hash (demo_record ''note'')))) None"

definition demo_bridge :: SealCodec where
  "demo_bridge = demo_codec [(''{job.reference}'', demo_reference), demo_row ''note'']"

definition demo_job_fs :: fs where
  "demo_job_fs = (\<lambda>_. None)(job_chain_path [''d''] ''a'' 7 \<mapsto> ''{note}'' @ [NL])"

text \<open>Job identifiers restart with every process. When a new job takes over an identifier, the previous
  job's chain is moved aside whole, but a reference to the previous job that a project
  chain holds is then checked against the new, empty chain: its tip never matches.\<close>

lemma reused_job_breaks_reference:
  assumes "fs (job_chain_path (mg_data_dir m) agent job_id) = Some s" and "s \<noteq> []"
    and "archive_search fs (job_chain_path (mg_data_dir m) agent job_id) 1 = Some q"
    and "sr_detail r = tag_origin m (reference_detail agent job_id h)"
  shows "fst (create_job_chain cx io_fine job_id agent m fs) q = Some s \<and>
    \<not> jv_tip_matches (check_reference cx io_fine m (fst (create_job_chain cx io_fine job_id agent m fs)) r) \<and>
    jv_chain_ok (check_reference cx io_fine m (fst (create_job_chain cx io_fine job_id agent m fs)) r)"
proof -
  let ?p = "job_chain_path (mg_data_dir m) agent job_id"
  have fs': "fst (create_job_chain cx io_fine job_id agent m fs) = fs(?p := None, q \<mapsto> s)" and q: "q \<noteq> ?p"
    using archive_stale_chain_spec [OF assms(1-3)] by (simp_all add: create_job_chain_def Let_def)
  have "chain_load cx io_fine (fs(?p := None, q \<mapsto> s)) ?p = Ok (chain_of ?p [])"
    using q by (simp add: chain_load_fine load_records_def str_lines_Nil List.map_filter_def)
  from check_reference_fields [OF assms(4) this] show ?thesis
    by (simp add: fs' tip_hash_def chain_of_def chain_verify_def)
qed

text \<open>Verification does not look at sequence numbers: they are not hashed, and renumbering the
  records of a chain in any way leaves the verdict as it was.\<close>

lemma seq_not_verified:
  "fst (chain_verify cx (c\<lparr>sc_records := map (\<lambda>r. r\<lparr>sr_seq := f r\<rparr>) (sc_records c)\<rparr>)) = fst (chain_verify cx c)"
proof -
  have "fst (verify_loop cx p (map (\<lambda>r. r\<lparr>sr_seq := f r\<rparr>) rs)) = fst (verify_loop cx p rs)" for p rs
    by (induction rs arbitrary: p) simp_all
  then show ?thesis by (simp add: chain_verify_def)
qed

text \<open>A write that stops midway leaves a partial line without a line end. The next append succeeds and is kept in memory,
  but its line is glued to the partial one: if that text is not a record, as a JSON parser
  decides for a broken object followed by another, the reloaded chain does not have the accepted record.\<close>

lemma torn_append_loses_next:
  assumes "on_disk cx c fs"
    and "chain_append cx io1 now1 ev1 detail1 rfc1 c fs = (fs1, c, Err (SealIo e))"
    and "fs1 (sc_file_path c) = Some ((case fs (sc_file_path c) of Some s \<Rightarrow> s | None \<Rightarrow> []) @ part)" and "NL \<notin> set part"
    and "chain_append cx io now ev detail rfc c fs1 = (fs2, c2, Ok r)" and "sx_print cx r = Ok line"
    and "NL \<notin> set line" and "\<not> suffix [CHR 0x0D] (part @ line)" and "sx_parse cx (part @ line) = None"
  shows "sc_records c2 = sc_records c @ [r] \<and> chain_load cx io_fine fs2 (sc_file_path c) = Ok c"
proof -
  let ?old = "case fs (sc_file_path c) of Some s \<Rightarrow> s | None \<Rightarrow> []"
  have r: "sc_records c2 = sc_records c @ [r]" and fs2: "fs2 (sc_file_path c) = Some (?old @ (part @ line) @ [NL])"
    using chain_append_cases [OF assms(5)] assms(3,6) by auto
  have "log_closed ?old" and c: "chain_of (sc_file_path c) (load_records cx ?old) = c"
    using assms(1) by (simp_all add: on_disk_def chain_load_fine)
  then have "load_records cx (?old @ (part @ line) @ [NL]) = load_records cx ?old"
    using load_records_snoc [of ?old "part @ line" cx] assms(4,7-9) by simp
  then show ?thesis using r c by (simp add: chain_load_fine fs2)
qed

definition torn_io :: Io where
  "torn_io = \<lparr>io_err = \<lambda>tag s. if tag = ''seal_write'' then Some ''full'' else None, io_part = \<lambda>_. 3\<rparr>"

section \<open>The verdict view\<close>

definition listed :: "SealRecord \<Rightarrow> bool" where
  "listed r \<longleftrightarrow> sr_event_type r = ''cage.verdict'' \<and>
     (str_field r ''verdict'' = Some ''deny'' \<or> str_field r ''capability'' \<noteq> None)"

definition row_head :: "VerdictRow \<Rightarrow> string \<times> string option \<times> string" where
  "row_head v = (vr_verdict v, vr_capability v, vr_command v)"

definition record_head :: "SealRecord \<Rightarrow> string \<times> string option \<times> string" where
  "record_head r = (case str_field r ''verdict'' of Some v \<Rightarrow> v | None \<Rightarrow> ''?'', str_field r ''capability'',
     case str_field r ''command'' of Some c \<Rightarrow> c | None \<Rightarrow> [])"

lemma verdict_step_heads:
  "map row_head (verdict_step out r) = map row_head out @ (if listed r then [record_head r] else [])"
proof -
  have "map row_head (butlast xs) @ [row_head ((last xs)\<lparr>vr_exit_code := x\<rparr>)] = map row_head xs" if "xs \<noteq> []" for xs x
  proof -
    have "map row_head xs = map row_head (butlast xs) @ [row_head (last xs)]"
      using that append_butlast_last_id [of xs] by (metis list.simps(8,9) map_append)
    then show ?thesis by (simp add: row_head_def)
  qed
  then show ?thesis
    by (auto simp: verdict_step_def listed_def record_head_def Let_def row_head_def split: option.splits)
qed

text \<open>The audit view lists, in the order of the chain, exactly the denials and the decisions a
  capability made, each with its verdict, capability and command.\<close>

lemma verdict_rows:
  "map row_head (collect_verdicts records) = map record_head (filter listed records)"
proof -
  have "map row_head (foldl verdict_step out records) = map row_head out @ map record_head (filter listed records)" for out
    by (induction records arbitrary: out) (simp_all add: verdict_step_heads)
  then show ?thesis by (simp add: collect_verdicts_def)
qed

text \<open>A denied command runs nothing and has no outcome. If the next command is allowed by default,
  without a capability, it gets no row of its own, and its exit code is shown as
  that of the denied command.\<close>

lemma outcome_shown_on_denied_row:
  assumes "sr_event_type d = ''cage.verdict''" and "str_field d ''verdict'' = Some ''deny''"
    and "sr_event_type a = ''cage.verdict''" and "str_field a ''verdict'' = Some ''allow''" and "str_field a ''capability'' = None"
    and "sr_event_type o1 = ''command.outcome''" and "Option.bind (json_get ''exit_code'' (sr_detail o1)) json_as_int = Some n"
  shows "\<exists>row. collect_verdicts [d, a, o1] = [row] \<and> row_head row = record_head d \<and> vr_exit_code row = Some (word_of_int n)"
  using assms by (simp add: collect_verdicts_def verdict_step_def row_head_def record_head_def)

definition demo_verdict :: "string \<Rightarrow> Json \<Rightarrow> SealRecord" where
  "demo_verdict ev d = next_record (demo_codec []) ''T'' (chain_of [''c''] []) ev d None"

end
