(* ===== verification/Dispatch_Seal.thy ===== *)
theory Dispatch_Seal
  imports Seal_Chain Rfc_Store
begin

section \<open>The chain of a dispatch run\<close>

text \<open>
  Models \<^verbatim>\<open>crates/orkia-dispatch-proxy/src/seal.rs\<close>: one chain per RFC with the captured outputs, the
  verdicts of acceptance oracles, the verdicts on a whole round and the decisions to plan again. The chain has no
  mirror in memory: every seal reads the tip from the file, and a chain whose tip does not parse refuses every further
  seal. It is a second instance of the contract \<open>chain_check\<close>. SHA-256 and JSON are the fields of \<open>DsCodec\<close>.
\<close>

subsection \<open>Records and their hashes\<close>

record DispatchSealRecord =
  ds_kind :: DecisionKind
  ds_ts :: string
  ds_task_id :: string
  ds_agent :: string
  ds_response_sha256 :: "string option"
  ds_response_path :: string
  ds_attempt :: "32 word option"
  ds_exit_code :: "32 word option"
  ds_passed :: "bool option"
  ds_accept_command :: "string option"
  ds_round :: "32 word option"
  ds_decision :: "string option"
  ds_prev_hash :: string
  ds_hash :: string

datatype DSealError = DSeal_Io string string | DSeal_Corrupt string

record DsCodec =
  dx_sha :: "string \<Rightarrow> string"
  dx_print :: "DispatchSealRecord \<Rightarrow> (string, string) result"
  dx_parse :: "string \<Rightarrow> (string, DispatchSealRecord) result"

abbreviation SEAL_FILE :: string where "SEAL_FILE \<equiv> ''dispatch.seal.jsonl''"

definition MAX_SEAL_BYTES :: int where
  "MAX_SEAL_BYTES = 4 * 1024 * 1024"

definition to_le_bytes :: "32 word \<Rightarrow> string" where
  "to_le_bytes w = map (\<lambda>k. char_of (unat (drop_bit (8 * k) w) mod 256)) [0, 1, 2, 3]"

definition bool_byte :: "bool \<Rightarrow> string" where
  "bool_byte b = [if b then CHR 0x01 else CHR 0x00]"

definition compute_output_hash :: "DsCodec \<Rightarrow> string \<Rightarrow> string \<Rightarrow> string \<Rightarrow> string \<Rightarrow> string \<Rightarrow> string" where
  "compute_output_hash cx prev_hash task_id sha p ts =
     dx_sha cx (prev_hash @ kind_str DispatchOutput @ task_id @ sha @ p @ ts)"

definition compute_verdict_hash :: "DsCodec \<Rightarrow> string \<Rightarrow> string \<Rightarrow> 32 word \<Rightarrow> 32 word \<Rightarrow> bool \<Rightarrow> string \<Rightarrow> string \<Rightarrow> string" where
  "compute_verdict_hash cx prev_hash task_id attempt exit_code passed command ts =
     dx_sha cx (prev_hash @ kind_str AcceptanceVerdict @ task_id @ to_le_bytes attempt @ to_le_bytes exit_code @
       bool_byte passed @ command @ ts)"

definition compute_global_verdict_hash :: "DsCodec \<Rightarrow> string \<Rightarrow> 32 word \<Rightarrow> 32 word \<Rightarrow> bool \<Rightarrow> string \<Rightarrow> string \<Rightarrow> string" where
  "compute_global_verdict_hash cx prev_hash round exit_code passed command ts =
     dx_sha cx (prev_hash @ kind_str GlobalVerdict @ to_le_bytes round @ to_le_bytes exit_code @ bool_byte passed @ command @ ts)"

definition compute_replan_hash :: "DsCodec \<Rightarrow> string \<Rightarrow> 32 word \<Rightarrow> string \<Rightarrow> string \<Rightarrow> string" where
  "compute_replan_hash cx prev_hash round decision ts =
     dx_sha cx (prev_hash @ kind_str ReplanDecision @ to_le_bytes round @ decision @ ts)"

subsection \<open>The file\<close>

definition dispatch_seal_path :: "path \<Rightarrow> path" where
  "dispatch_seal_path rfc_dir = rfc_dir @ [''seal'', SEAL_FILE]"

definition read_capped :: "Io \<Rightarrow> fs \<Rightarrow> path \<Rightarrow> (DSealError, string option) result" where
  "read_capped io fs p =
     (case io_err io ''stat'' Meta of
        Some e \<Rightarrow> Err (DSeal_Io ''stat'' e)
      | None \<Rightarrow>
         (case fs p of
            None \<Rightarrow> Ok None
          | Some s \<Rightarrow>
             (if utf8_len s > MAX_SEAL_BYTES then Err (DSeal_Corrupt ''chain exceeds 4194304 bytes'')
              else case io_err io ''seal_read'' Read of
                     Some e \<Rightarrow> Err (DSeal_Io ''read'' e)
                   | None \<Rightarrow> Ok (Some s))))"

definition content_lines :: "string \<Rightarrow> string list" where
  "content_lines raw = filter (\<lambda>l. trim l \<noteq> []) (str_lines raw)"

definition ds_tip :: "DsCodec \<Rightarrow> Io \<Rightarrow> fs \<Rightarrow> path \<Rightarrow> (DSealError, string option) result" where
  "ds_tip cx io fs p =
     and_then (read_capped io fs p) (\<lambda>raw.
       (case raw of
          None \<Rightarrow> Ok None
        | Some s \<Rightarrow>
           (case last_opt (content_lines s) of
              None \<Rightarrow> Ok None
            | Some line \<Rightarrow>
               (case dx_parse cx line of
                  Err e \<Rightarrow> Err (DSeal_Corrupt (''unparseable tip: '' @ e))
                | Ok rec \<Rightarrow> Ok (Some (ds_hash rec))))))"

definition ds_append :: "DsCodec \<Rightarrow> Io \<Rightarrow> path \<Rightarrow> DispatchSealRecord \<Rightarrow> fs \<Rightarrow> fs \<times> (DSealError, unit) result" where
  "ds_append cx io p record fs =
     (case io_err io ''seal_mkdir'' MkDir of
        Some e \<Rightarrow> (fs, Err (DSeal_Io ''mkdir'' e))
      | None \<Rightarrow>
         (case dx_print cx record of
            Err e \<Rightarrow> (fs, Err (DSeal_Corrupt (''serialize: '' @ e)))
          | Ok line \<Rightarrow>
             (let old = (case fs p of Some s \<Rightarrow> s | None \<Rightarrow> [])
              in case io_err io ''seal_open'' Open of
                   Some e \<Rightarrow> (fs, Err (DSeal_Io ''open'' e))
                 | None \<Rightarrow>
                    (case io_err io ''seal_write'' Write of
                       Some e \<Rightarrow>
                         (fs(p \<mapsto> old @ take (io_part io ''seal_write'') (line @ [NL])), Err (DSeal_Io ''write'' e))
                     | None \<Rightarrow>
                        (case io_err io ''seal_fsync'' Sync of
                           Some e \<Rightarrow> (fs(p \<mapsto> old @ line @ [NL]), Err (DSeal_Io ''fsync'' e))
                         | None \<Rightarrow> (fs(p \<mapsto> old @ line @ [NL]), Ok ()))))))"

text \<open>All four kinds of seal are made alike: on the tip, build the record, append it, return its hash.\<close>

definition seal_on_tip ::
  "DsCodec \<Rightarrow> Io \<Rightarrow> path \<Rightarrow> (string \<Rightarrow> DispatchSealRecord) \<Rightarrow> fs \<Rightarrow> fs \<times> (DSealError, string) result" where
  "seal_on_tip cx io p build fs =
     fs_bind (fs, ds_tip cx io fs p) (\<lambda>fs tip.
       (let record = build (case tip of Some h \<Rightarrow> h | None \<Rightarrow> zero_hash)
        in fs_bind (ds_append cx io p record fs) (\<lambda>fs _. (fs, Ok (ds_hash record)))))"

definition output_record :: "DsCodec \<Rightarrow> string \<Rightarrow> string \<Rightarrow> string option \<Rightarrow> string \<Rightarrow> string \<Rightarrow> string \<Rightarrow> DispatchSealRecord" where
  "output_record cx task_id agent response_sha256 response_path ts prev_hash =
     (let sha = (case response_sha256 of Some s \<Rightarrow> s | None \<Rightarrow> [])
      in \<lparr>ds_kind = DispatchOutput, ds_ts = ts, ds_task_id = task_id, ds_agent = agent,
          ds_response_sha256 = response_sha256, ds_response_path = response_path, ds_attempt = None,
          ds_exit_code = None, ds_passed = None, ds_accept_command = None, ds_round = None, ds_decision = None,
          ds_prev_hash = prev_hash, ds_hash = compute_output_hash cx prev_hash task_id sha response_path ts\<rparr>)"

definition seal_output ::
  "DsCodec \<Rightarrow> Io \<Rightarrow> path \<Rightarrow> string \<Rightarrow> string \<Rightarrow> string option \<Rightarrow> string \<Rightarrow> string \<Rightarrow> fs \<Rightarrow> fs \<times> (DSealError, string) result" where
  "seal_output cx io p task_id agent response_sha256 response_path ts fs =
     seal_on_tip cx io p (output_record cx task_id agent response_sha256 response_path ts) fs"

definition verdict_record :: "DsCodec \<Rightarrow> string \<Rightarrow> string \<Rightarrow> 32 word \<Rightarrow> string \<Rightarrow> 32 word \<Rightarrow> bool \<Rightarrow> string \<Rightarrow> string \<Rightarrow> DispatchSealRecord" where
  "verdict_record cx task_id agent attempt accept_command exit_code passed ts prev_hash =
     \<lparr>ds_kind = AcceptanceVerdict, ds_ts = ts, ds_task_id = task_id, ds_agent = agent, ds_response_sha256 = None,
      ds_response_path = [], ds_attempt = Some attempt, ds_exit_code = Some exit_code, ds_passed = Some passed,
      ds_accept_command = Some accept_command, ds_round = None, ds_decision = None, ds_prev_hash = prev_hash,
      ds_hash = compute_verdict_hash cx prev_hash task_id attempt exit_code passed accept_command ts\<rparr>"

definition seal_verdict ::
  "DsCodec \<Rightarrow> Io \<Rightarrow> path \<Rightarrow> string \<Rightarrow> string \<Rightarrow> 32 word \<Rightarrow> string \<Rightarrow> 32 word \<Rightarrow> bool \<Rightarrow> string \<Rightarrow> fs \<Rightarrow> fs \<times> (DSealError, string) result" where
  "seal_verdict cx io p task_id agent attempt accept_command exit_code passed ts fs =
     seal_on_tip cx io p (verdict_record cx task_id agent attempt accept_command exit_code passed ts) fs"

definition global_verdict_record :: "DsCodec \<Rightarrow> 32 word \<Rightarrow> string \<Rightarrow> 32 word \<Rightarrow> bool \<Rightarrow> string \<Rightarrow> string \<Rightarrow> DispatchSealRecord" where
  "global_verdict_record cx round accept_command exit_code passed ts prev_hash =
     \<lparr>ds_kind = GlobalVerdict, ds_ts = ts, ds_task_id = ''<rfc>'', ds_agent = ''<fleet>'', ds_response_sha256 = None,
      ds_response_path = [], ds_attempt = None, ds_exit_code = Some exit_code, ds_passed = Some passed,
      ds_accept_command = Some accept_command, ds_round = Some round, ds_decision = None, ds_prev_hash = prev_hash,
      ds_hash = compute_global_verdict_hash cx prev_hash round exit_code passed accept_command ts\<rparr>"

definition seal_global_verdict ::
  "DsCodec \<Rightarrow> Io \<Rightarrow> path \<Rightarrow> 32 word \<Rightarrow> string \<Rightarrow> 32 word \<Rightarrow> bool \<Rightarrow> string \<Rightarrow> fs \<Rightarrow> fs \<times> (DSealError, string) result" where
  "seal_global_verdict cx io p round accept_command exit_code passed ts fs =
     seal_on_tip cx io p (global_verdict_record cx round accept_command exit_code passed ts) fs"

definition replan_record :: "DsCodec \<Rightarrow> 32 word \<Rightarrow> string \<Rightarrow> string \<Rightarrow> string \<Rightarrow> DispatchSealRecord" where
  "replan_record cx round decision ts prev_hash =
     \<lparr>ds_kind = ReplanDecision, ds_ts = ts, ds_task_id = ''<rfc>'', ds_agent = ''<fleet>'', ds_response_sha256 = None,
      ds_response_path = [], ds_attempt = None, ds_exit_code = None, ds_passed = None, ds_accept_command = None,
      ds_round = Some round, ds_decision = Some decision, ds_prev_hash = prev_hash,
      ds_hash = compute_replan_hash cx prev_hash round decision ts\<rparr>"

definition seal_replan_decision ::
  "DsCodec \<Rightarrow> Io \<Rightarrow> path \<Rightarrow> 32 word \<Rightarrow> string \<Rightarrow> string \<Rightarrow> fs \<Rightarrow> fs \<times> (DSealError, string) result" where
  "seal_replan_decision cx io p round decision ts fs =
     seal_on_tip cx io p (replan_record cx round decision ts) fs"

subsection \<open>Reading and verifying\<close>

fun parse_records :: "DsCodec \<Rightarrow> string list \<Rightarrow> (DSealError, DispatchSealRecord list) result" where
  "parse_records cx [] = Ok []"
| "parse_records cx (l # ls) =
     (case dx_parse cx l of
        Err e \<Rightarrow> Err (DSeal_Corrupt (''unparseable record: '' @ e))
      | Ok r \<Rightarrow> and_then (parse_records cx ls) (\<lambda>rs. Ok (r # rs)))"

definition ds_records :: "DsCodec \<Rightarrow> Io \<Rightarrow> fs \<Rightarrow> path \<Rightarrow> (DSealError, DispatchSealRecord list) result" where
  "ds_records cx io fs p =
     and_then (read_capped io fs p) (\<lambda>raw.
       (case raw of None \<Rightarrow> Ok [] | Some s \<Rightarrow> parse_records cx (content_lines s)))"

definition recomputed_hash :: "DsCodec \<Rightarrow> string \<Rightarrow> DispatchSealRecord \<Rightarrow> string" where
  "recomputed_hash cx prev r =
     (let dflt = (\<lambda>d x. case x of Some v \<Rightarrow> v | None \<Rightarrow> d) in
      case ds_kind r of
        AcceptanceVerdict \<Rightarrow>
          compute_verdict_hash cx prev (ds_task_id r) (case ds_attempt r of Some n \<Rightarrow> n | None \<Rightarrow> 0)
            (case ds_exit_code r of Some n \<Rightarrow> n | None \<Rightarrow> 0) (ds_passed r = Some True)
            (dflt [] (ds_accept_command r)) (ds_ts r)
      | GlobalVerdict \<Rightarrow>
          compute_global_verdict_hash cx prev (case ds_round r of Some n \<Rightarrow> n | None \<Rightarrow> 0)
            (case ds_exit_code r of Some n \<Rightarrow> n | None \<Rightarrow> 0) (ds_passed r = Some True)
            (dflt [] (ds_accept_command r)) (ds_ts r)
      | ReplanDecision \<Rightarrow>
          compute_replan_hash cx prev (case ds_round r of Some n \<Rightarrow> n | None \<Rightarrow> 0) (dflt [] (ds_decision r)) (ds_ts r)
      | _ \<Rightarrow> compute_output_hash cx prev (ds_task_id r) (dflt [] (ds_response_sha256 r)) (ds_response_path r) (ds_ts r))"

fun ds_verify_loop :: "DsCodec \<Rightarrow> string \<Rightarrow> DispatchSealRecord list \<Rightarrow> bool" where
  "ds_verify_loop cx prev [] = True"
| "ds_verify_loop cx prev (r # rs) =
     (if ds_prev_hash r \<noteq> prev then False
      else if recomputed_hash cx (ds_prev_hash r) r \<noteq> ds_hash r then False
      else ds_verify_loop cx (ds_hash r) rs)"

definition ds_verify :: "DsCodec \<Rightarrow> Io \<Rightarrow> fs \<Rightarrow> path \<Rightarrow> (DSealError, bool) result" where
  "ds_verify cx io fs p = and_then (ds_records cx io fs p) (\<lambda>rs. Ok (ds_verify_loop cx zero_hash rs))"

section \<open>An instance of the chain contract\<close>

lemma ds_verify_loop_snoc:
  "ds_verify_loop cx p (rs @ [r]) \<longleftrightarrow>
     ds_verify_loop cx p rs \<and> ds_prev_hash r = (if rs = [] then p else ds_hash (last rs)) \<and>
     ds_hash r = recomputed_hash cx (ds_prev_hash r) r"
  by (induction rs arbitrary: p) auto

interpretation dseal: chain_check "ds_verify_loop cx zero_hash" ds_prev_hash ds_hash zero_hash "recomputed_hash cx" for cx
  by unfold_locales (simp_all add: ds_verify_loop_snoc)

text \<open>A record built by one of the four seals recomputes to its own hash.\<close>

definition well_built :: "DsCodec \<Rightarrow> (string \<Rightarrow> DispatchSealRecord) \<Rightarrow> bool" where
  "well_built cx build \<longleftrightarrow> (\<forall>h. ds_prev_hash (build h) = h \<and> ds_hash (build h) = recomputed_hash cx h (build h))"

lemma built_records [simp, intro]:
  "well_built cx (output_record cx t a sha p ts)" "well_built cx (verdict_record cx t a n cmd e b ts)"
  "well_built cx (global_verdict_record cx rd cmd e b ts)" "well_built cx (replan_record cx rd d ts)"
  by (simp_all add: well_built_def recomputed_hash_def output_record_def verdict_record_def global_verdict_record_def
      replan_record_def Let_def split: option.splits)

lemmas seal_defs = seal_output_def seal_verdict_def seal_global_verdict_def seal_replan_decision_def

section \<open>Sealing extends the file's chain\<close>

abbreviation content :: "fs \<Rightarrow> path \<Rightarrow> string" where
  "content fs p \<equiv> (case fs p of Some s \<Rightarrow> s | None \<Rightarrow> [])"

definition ds_print_ok :: "DsCodec \<Rightarrow> DispatchSealRecord \<Rightarrow> bool" where
  "ds_print_ok cx r \<longleftrightarrow>
     (\<forall>line. dx_print cx r = Ok line \<longrightarrow> dx_parse cx line = Ok r \<and> trim line \<noteq> [] \<and> NL \<notin> set line \<and>
        \<not> suffix [CHR 0x0D] line)"

text \<open>The file holds exactly these records, one a line.\<close>

definition holds_records :: "DsCodec \<Rightarrow> fs \<Rightarrow> path \<Rightarrow> DispatchSealRecord list \<Rightarrow> bool" where
  "holds_records cx fs p rs \<longleftrightarrow> log_closed (content fs p) \<and> parse_records cx (content_lines (content fs p)) = Ok rs"

lemma content_lines_Nil [simp]: "content_lines [] = []"
  by (simp add: content_lines_def str_lines_Nil)

lemma content_lines_snoc:
  "log_closed s \<Longrightarrow> NL \<notin> set line \<Longrightarrow> \<not> suffix [CHR 0x0D] line \<Longrightarrow> trim line \<noteq> [] \<Longrightarrow>
   content_lines (s @ line @ [NL]) = content_lines s @ [line]"
  by (simp add: content_lines_def str_lines_snoc)

lemma parse_records_snoc:
  "parse_records cx (ls @ [l]) = Ok rs \<longleftrightarrow> (\<exists>rs' r. parse_records cx ls = Ok rs' \<and> dx_parse cx l = Ok r \<and> rs = rs' @ [r])"
  by (induction ls arbitrary: rs) (auto simp: and_then_Ok_iff split: sum.splits)

lemma ds_records_holds:
  assumes "holds_records cx fs p rs" and "utf8_len (content fs p) \<le> MAX_SEAL_BYTES"
  shows "ds_records cx io_fine fs p = Ok rs"
  using assms by (auto simp: holds_records_def ds_records_def read_capped_def io_fine_def split: option.splits)

lemma ds_tip_holds:
  assumes "holds_records cx fs p rs" and "ds_tip cx io fs p = Ok tip"
  shows "tip = map_option ds_hash (last_opt rs)"
proof (cases "content_lines (content fs p)" rule: rev_cases)
  case Nil
  then have "rs = []" using assms(1) by (simp add: holds_records_def)
  moreover have "tip = None"
    using assms(2) Nil by (auto simp: ds_tip_def and_then_Ok_iff last_opt_def read_capped_def split: option.splits if_splits)
  ultimately show ?thesis by simp
next
  case (snoc ls l)
  then obtain rs' r where rs: "rs = rs' @ [r]" "dx_parse cx l = Ok r"
    using assms(1) by (auto simp: holds_records_def parse_records_snoc)
  obtain s where "fs p = Some s" "content_lines s = ls @ [l]" using snoc by (cases "fs p") auto
  then show ?thesis
    using assms(2) rs by (auto simp: ds_tip_def read_capped_def split: option.splits if_splits)
qed

lemma ds_append_cases:
  assumes "ds_append cx io p r fs = (fs', res)"
  shows "(\<exists>line. dx_print cx r = Ok line \<and> fs' = fs(p \<mapsto> content fs p @ line @ [NL])) \<or> (\<exists>e. res = Err e)"
    and "q \<noteq> p \<Longrightarrow> fs' q = fs q"
  using assms by (auto simp: ds_append_def Let_def split: option.splits sum.splits)

text \<open>The next record of a chain with these records.\<close>

definition on_tip :: "(string \<Rightarrow> DispatchSealRecord) \<Rightarrow> DispatchSealRecord list \<Rightarrow> DispatchSealRecord" where
  "on_tip build rs = build (if rs = [] then zero_hash else ds_hash (last rs))"

lemma seal_on_tip_Ok:
  assumes "holds_records cx fs p rs" and "seal_on_tip cx io p build fs = (fs', Ok h)" and "ds_print_ok cx (on_tip build rs)"
  shows "holds_records cx fs' p (rs @ [on_tip build rs])" and "h = ds_hash (on_tip build rs)"
    and "\<exists>line. dx_print cx (on_tip build rs) = Ok line \<and> fs' = fs(p \<mapsto> content fs p @ line @ [NL])"
proof -
  obtain tip where tip: "ds_tip cx io fs p = Ok tip"
    using assms(2) by (cases "ds_tip cx io fs p") (auto simp: seal_on_tip_def)
  have b: "build (case tip of Some h \<Rightarrow> h | None \<Rightarrow> zero_hash) = on_tip build rs"
    using ds_tip_holds [OF assms(1) tip] by (simp add: on_tip_def last_opt_def)
  obtain res where a: "ds_append cx io p (on_tip build rs) fs = (fs', res)" and "res = Ok ()"
    and "h = ds_hash (on_tip build rs)"
    using assms(2) tip b
    by (cases "ds_append cx io p (on_tip build rs) fs"; cases "snd (ds_append cx io p (on_tip build rs) fs)")
       (auto simp: seal_on_tip_def)
  then show "h = ds_hash (on_tip build rs)" by blast
  obtain line where l: "dx_print cx (on_tip build rs) = Ok line" "fs' = fs(p \<mapsto> content fs p @ line @ [NL])"
    using ds_append_cases(1) [OF a] \<open>res = Ok ()\<close> by auto
  then show "\<exists>line. dx_print cx (on_tip build rs) = Ok line \<and> fs' = fs(p \<mapsto> content fs p @ line @ [NL])" by blast
  show "holds_records cx fs' p (rs @ [on_tip build rs])"
    using assms(1,3) l content_lines_snoc [of "content fs p" line]
    by (auto simp: holds_records_def ds_print_ok_def parse_records_snoc log_closed_def)
qed

lemma seal_on_tip_frame: "q \<noteq> p \<Longrightarrow> fst (seal_on_tip cx io p build fs) q = fs q"
proof (cases "ds_tip cx io fs p")
  case (Inr tip)
  let ?r = "build (case tip of Some h \<Rightarrow> h | None \<Rightarrow> zero_hash)"
  obtain fs' res where a: "ds_append cx io p ?r fs = (fs', res)" by fastforce
  assume "q \<noteq> p"
  with ds_append_cases(2) [OF a] have "fs' q = fs q" by simp
  then show ?thesis by (cases res) (simp_all add: seal_on_tip_def Inr a Let_def)
qed (simp add: seal_on_tip_def)

lemma valid_on_tip:
  "well_built cx build \<Longrightarrow> ds_verify_loop cx zero_hash rs \<Longrightarrow> ds_verify_loop cx zero_hash (rs @ [on_tip build rs])"
  by (rule dseal.valid_extend) (simp_all add: on_tip_def well_built_def dseal.tip_def)

text \<open>A concrete codec for the instances below: records are printed as positions in a table.\<close>

definition ds_table :: "DispatchSealRecord list \<Rightarrow> DsCodec" where
  "ds_table rs =
     \<lparr>dx_sha = \<lambda>_. ''h'',
      dx_print = \<lambda>r. case index_of rs r of Some k \<Rightarrow> Ok (show_nat k) | None \<Rightarrow> Err ''unknown'',
      dx_parse = \<lambda>s. if s \<noteq> [] \<and> list_all is_digit s \<and> read_nat s < length rs then Ok (rs ! read_nat s) else Err ''unknown''\<rparr>"

definition sample_dx :: DsCodec where
  "sample_dx = ds_table [output_record (ds_table []) ''t'' ''a'' (Some ''s'') ''/p'' ''now'' zero_hash,
     verdict_record (ds_table []) ''t'' ''a'' 0 ''make'' 0 True ''now'' ''h'']"

definition sample_chain :: fs where
  "sample_chain = [[''r'', ''seal'', SEAL_FILE] \<mapsto> ''0'' @ [NL]]"

text \<open>C26. Sealing extends the chain: when the file holds a verifying chain and one of the four kinds of record is
  sealed on it, then the file holds that chain with the new record at its end, verification of the file
  succeeds, and the hash returned (which the driver stamps into the issue) is the new tip. The record's JSON is
  assumed to parse back from one line, and the file to stay within the reader's limit.\<close>

theorem dispatch_seal_extends:
  assumes "holds_records cx fs p rs" and "ds_verify_loop cx zero_hash rs"
    and "build \<in> {output_record cx t a sha q ts, verdict_record cx t a n cmd code passed ts,
           global_verdict_record cx round cmd code passed ts, replan_record cx round decision ts}"
    and "ds_print_ok cx (on_tip build rs)" and "seal_on_tip cx io p build fs = (fs', Ok h)"
    and "utf8_len (content fs' p) \<le> MAX_SEAL_BYTES"
  shows "ds_records cx io_fine fs' p = Ok (rs @ [on_tip build rs]) \<and> ds_verify cx io_fine fs' p = Ok True \<and>
    h = ds_hash (on_tip build rs) \<and> ds_prev_hash (on_tip build rs) = (if rs = [] then zero_hash else ds_hash (last rs))"
proof -
  note s = seal_on_tip_Ok [OF assms(1,5,4)]
  have w: "well_built cx build" using assms(3) by auto
  have "ds_records cx io_fine fs' p = Ok (rs @ [on_tip build rs])" by (rule ds_records_holds [OF s(1) assms(6)])
  moreover have "ds_verify_loop cx zero_hash (rs @ [on_tip build rs])" by (rule valid_on_tip [OF w assms(2)])
  ultimately show ?thesis using s(2) w by (simp add: ds_verify_def well_built_def on_tip_def)
qed

theorem dispatch_seal_extends_witness:
  "ds_records sample_dx io_fine
     (fst (seal_on_tip sample_dx io_fine [''r'', ''seal'', SEAL_FILE] (verdict_record sample_dx ''t'' ''a'' 0 ''make'' 0 True ''now'') sample_chain))
     [''r'', ''seal'', SEAL_FILE] =
   Ok ([output_record sample_dx ''t'' ''a'' (Some ''s'') ''/p'' ''now'' zero_hash] @
       [on_tip (verdict_record sample_dx ''t'' ''a'' 0 ''make'' 0 True ''now'')
          [output_record sample_dx ''t'' ''a'' (Some ''s'') ''/p'' ''now'' zero_hash]])"
proof -
  let ?p = "[''r'', ''seal'', SEAL_FILE]" and ?b = "verdict_record sample_dx ''t'' ''a'' 0 ''make'' 0 True ''now''"
  let ?rs = "[output_record sample_dx ''t'' ''a'' (Some ''s'') ''/p'' ''now'' zero_hash]"
  have 1: "holds_records sample_dx sample_chain ?p ?rs" by code_simp
  have 2: "ds_verify_loop sample_dx zero_hash ?rs" by code_simp
  have 3: "seal_on_tip sample_dx io_fine ?p ?b sample_chain =
      (fst (seal_on_tip sample_dx io_fine ?p ?b sample_chain), Ok ''h'')" 
    by (rule prod_eqI) (simp, code_simp)
  have "dx_print sample_dx (on_tip ?b ?rs) = Ok ''1''" by code_simp
  moreover have "dx_parse sample_dx ''1'' = Ok (on_tip ?b ?rs)" by code_simp
  moreover have "trim ''1'' \<noteq> [] \<and> NL \<notin> set ''1'' \<and> \<not> suffix [CHR 0x0D] ''1''" by code_simp
  ultimately have 4: "ds_print_ok sample_dx (on_tip ?b ?rs)" by (simp add: ds_print_ok_def)
  have 5: "utf8_len (content (fst (seal_on_tip sample_dx io_fine ?p ?b sample_chain)) ?p) \<le> MAX_SEAL_BYTES" by code_simp
  show ?thesis using dispatch_seal_extends [OF 1 2 _ 4 3 5] by blast
qed

text \<open>A damaged chain is not continued: when the last line that is not blank does not parse (a torn write, for
  example), or the file is larger than the reader's limit, every seal of every kind fails and the file system is
  unchanged, so no record is ever linked onto a tip that could not be read.\<close>

lemma dispatch_seal_fails_closed:
  assumes "fs p = Some s"
    and "MAX_SEAL_BYTES < utf8_len s \<or> (\<exists>line e. last_opt (content_lines s) = Some line \<and> dx_parse cx line = Err e)"
  shows "\<exists>e. seal_on_tip cx io p build fs = (fs, Err e)"
  using assms by (auto simp: seal_on_tip_def ds_tip_def read_capped_def and_then_def split: option.splits)

text \<open>The hash of an output record covers its task, digest and path only joined together, and not its agent: in a
  verifying chain such a record can be replaced by one that splits the same text differently and names another
  agent, and the chain still verifies.\<close>

lemma output_fields_shift:
  assumes "ds_verify_loop cx zero_hash (rs @ r # qs)" and "ds_kind r = DispatchOutput"
    and "t' @ sha' @ q' = ds_task_id r @ (case ds_response_sha256 r of Some s \<Rightarrow> s | None \<Rightarrow> []) @ ds_response_path r"
  shows "ds_verify_loop cx zero_hash
    (rs @ r\<lparr>ds_task_id := t', ds_response_sha256 := Some sha', ds_response_path := q', ds_agent := a'\<rparr> # qs)"
proof -
  let ?r = "r\<lparr>ds_task_id := t', ds_response_sha256 := Some sha', ds_response_path := q', ds_agent := a'\<rparr>"
  have "compute_output_hash cx prev t' sha' q' ts =
      compute_output_hash cx prev (ds_task_id r) (case ds_response_sha256 r of Some s \<Rightarrow> s | None \<Rightarrow> []) (ds_response_path r) ts" for prev ts
    using assms(3) unfolding compute_output_hash_def by (metis append_assoc)
  then have h: "recomputed_hash cx prev ?r = recomputed_hash cx prev r" for prev
    using assms(2) by (simp add: recomputed_hash_def)
  have "ds_verify_loop cx prev (rs @ r # qs) \<Longrightarrow> ds_verify_loop cx prev (rs @ ?r # qs)" for prev
    using h by (induction rs arbitrary: prev) (auto split: if_splits)
  then show ?thesis using assms(1) by blast
qed

end
