(* ===== verification/Dispatch_Run.thy ===== *)
theory Dispatch_Run
  imports Dispatch_Issues Dispatch_Seal
begin

section \<open>The driver of a dispatch run\<close>

text \<open>
  Models \<^verbatim>\<open>crates/orkia-dispatch-proxy/src/run.rs\<close>, \<^verbatim>\<open>oracle.rs\<close> and the start and resume of a run in
  \<^verbatim>\<open>lib.rs\<close>, with the wire types of \<^verbatim>\<open>orkia-shell-types/src/dispatch_kernel.rs\<close>. One actor owns a run: it spawns the tasks of
  a wave, folds the captured responses into the issues, lets an acceptance oracle judge them, reports outcomes to the kernel
  and drives the waves the kernel releases.

  The kernel, the spawner, the daemon and the oracle's process are not part of the repository's program: they are the fields of
  \<open>DEnv\<close>, each an arbitrary function of the calls made so far, which the driver's state records as a list of
  \<open>DEffect\<close>. The loop over a wave need not end for an arbitrary kernel, so it is a partial function with result
  \<open>None\<close> when it does not return.
\<close>

subsection \<open>Wire types\<close>

record TaskPlan =
  tp_run_id :: string
  tp_task_id :: string
  tp_agent :: string
  tp_command :: string
  tp_args :: "string list"
  tp_provider :: "string option"
  tp_runtime :: "string option"
  tp_body :: string
  tp_depends_on :: "string list"
  tp_timeout_secs :: "64 word option"

record DispatchTaskRequest =
  tr_id :: string
  tr_agent :: string
  tr_body :: string
  tr_command :: string
  tr_args :: "string list"
  tr_provider :: "string option"
  tr_runtime :: "string option"
  tr_depends_on :: "string list"

record DispatchAuthorizeRequest =
  ar_strategy :: string
  ar_max_inflight :: nat
  ar_on_task_fail :: string
  ar_tasks :: "DispatchTaskRequest list"

datatype DispatchAuthorizeResponse = Authorized string "32 word" "TaskPlan list" | AuthRefused string

record TaskOutputRef =
  to_path :: string
  to_bytes :: "64 word"
  to_via_mcp :: bool
  to_elapsed_ms :: "64 word"

datatype TaskOutcome = TaskDone TaskOutputRef | TaskFailed string

datatype DispatchAdvanceResponse =
    NextWave "TaskPlan list" | RunCompleted "64 word" | Paused "string list" | Aborted string | AdvFailed string

datatype DispatchFinalizeResponse = Converged | Replan "TaskPlan list" "string list" | GiveUp string | FinFailed string

record FinalResponseEvent =
  fe_job_id :: "32 word"
  fe_agent :: string
  fe_session_id :: "string option"
  fe_response_path :: "path option"
  fe_response_sha256 :: "string option"
  fe_response_bytes :: "64 word"
  fe_response_preview :: string

record DetachedSpawnRequest =
  sq_command :: string
  sq_working_dir :: "string option"
  sq_agent_name :: "string option"
  sq_extra_env :: "(string \<times> string) list"
  sq_cage_wrapper :: "(string \<times> string) option"

subsection \<open>The acceptance oracle\<close>

record AcceptanceResult =
  ac_exit_code :: "32 word"
  ac_output_tail :: string

definition ac_passed :: "AcceptanceResult \<Rightarrow> bool" where
  "ac_passed r \<longleftrightarrow> ac_exit_code r = 0"

definition TAIL_CAP :: int where
  "TAIL_CAP = 4096"

text \<open>The last characters whose encoding fits: dropping from the front until the rest does.\<close>

fun tail_of :: "string \<Rightarrow> int \<Rightarrow> string" where
  "tail_of [] cap = []"
| "tail_of (c # s) cap = (if utf8_len (c # s) \<le> cap then c # s else tail_of s cap)"

text \<open>What the process did: not started, or its exit code (none for a signal) and its two output streams.\<close>

definition run_acceptance :: "(string, 32 word option \<times> string \<times> string) result \<Rightarrow> AcceptanceResult" where
  "run_acceptance process =
     (case process of
        Inr (code, out, err) \<Rightarrow>
          \<lparr>ac_exit_code = (case code of Some c \<Rightarrow> c | None \<Rightarrow> - 1), ac_output_tail = tail_of (out @ err) TAIL_CAP\<rparr>
      | Inl e \<Rightarrow> \<lparr>ac_exit_code = - 1, ac_output_tail = ''acceptance command failed to spawn: '' @ e\<rparr>)"

record AcceptSpec =
  as_command :: string
  as_max_attempts :: "32 word"

subsection \<open>State, messages and environment\<close>

datatype DriverError =
    DE_Issue IssueError | DE_Spawn string string | DE_MissingDep string string | DE_Kernel string | DE_Seal string DSealError

datatype DEffect =
    WroteIssue Issue bool
  | WroteRun "string option" bool
  | SealedOutput string bool
  | SealedVerdict string "32 word" bool bool
  | SealedGlobal "32 word" bool bool
  | SealedReplan "32 word" string bool
  | SpawnedJob string DetachedSpawnRequest "(string, 32 word) result"
  | OracleLaunched string "32 word"
  | GlobalOracle string
  | KAuthorize DispatchAuthorizeRequest "(string, DispatchAuthorizeResponse) result"
  | KAdvance string string TaskOutcome "(string, DispatchAdvanceResponse) result"
  | KFinalize string bool "32 word" "(string, DispatchFinalizeResponse) result"
  | KAbort string

record DEnv =
  e_ix :: IssueCodec
  e_dx :: DsCodec
  e_plan_json :: "DispatchAuthorizeRequest \<Rightarrow> string"
  e_io :: "DEffect list \<Rightarrow> Io"
  e_now :: "DEffect list \<Rightarrow> string"
  e_authorize :: "DEffect list \<Rightarrow> DispatchAuthorizeRequest \<Rightarrow> (string, DispatchAuthorizeResponse) result"
  e_advance :: "DEffect list \<Rightarrow> string \<Rightarrow> string \<Rightarrow> TaskOutcome \<Rightarrow> (string, DispatchAdvanceResponse) result"
  e_finalize :: "DEffect list \<Rightarrow> string \<Rightarrow> bool \<Rightarrow> 32 word \<Rightarrow> string option \<Rightarrow> (string, DispatchFinalizeResponse) result"
  e_spawn :: "DEffect list \<Rightarrow> DetachedSpawnRequest \<Rightarrow> (string, 32 word) result"
  e_latest :: "DEffect list \<Rightarrow> 32 word \<Rightarrow> FinalResponseEvent option"
  e_jobs :: "DEffect list \<Rightarrow> (32 word \<times> 32 word option) list"
  e_process :: "DEffect list \<Rightarrow> string \<Rightarrow> string option \<Rightarrow> (string, 32 word option \<times> string \<times> string) result"

record DriverConfig =
  dc_rfc_id :: string
  dc_project :: string
  dc_rfc_dir :: path
  dc_working_dir :: "string option"
  dc_accept_specs :: "string \<rightharpoonup> AcceptSpec"
  dc_global_accept :: "string option"
  dc_max_replans :: "32 word"
  dc_authorize_req :: DispatchAuthorizeRequest

record Driver =
  dr_run_id :: string
  dr_job_to_task :: "32 word \<rightharpoonup> string"
  dr_round :: "32 word"
  dr_last_fail_sig :: "string option"
  dr_fs :: fs
  dr_log :: "DEffect list"

datatype ProxyMsg = Response FinalResponseEvent | VerdictMsg string "32 word" AcceptanceResult | AbortMsg

datatype Flow = Flow_Continue | Flow_Done

datatype Step = Step_Continue | Cascade "TaskPlan list" | Step_Stop

datatype Advanced = Adv_Wave "TaskPlan list" | Adv_Stop

datatype FleetStep = Fleet_Stop string | Fleet_Replan "TaskPlan list"

definition driver_new :: "string \<Rightarrow> fs \<Rightarrow> DEffect list \<Rightarrow> Driver" where
  "driver_new run_id fs log =
     \<lparr>dr_run_id = run_id, dr_job_to_task = Map.empty, dr_round = 0, dr_last_fail_sig = None, dr_fs = fs, dr_log = log\<rparr>"

text \<open>Actions on the driver's state that can fail, in sequence: an error keeps the state it happened in.\<close>

type_synonym 'a act = "Driver \<Rightarrow> Driver \<times> (DriverError, 'a) result"

definition dret :: "'a \<Rightarrow> 'a act" where
  "dret a d = (d, Ok a)"

definition dfail :: "DriverError \<Rightarrow> 'a act" where
  "dfail e d = (d, Err e)"

definition dbind :: "'a act \<Rightarrow> ('a \<Rightarrow> 'b act) \<Rightarrow> 'b act" where
  "dbind m f d = (case m d of (d', Inl e) \<Rightarrow> (d', Inl e) | (d', Inr a) \<Rightarrow> f a d')"

definition emit_fx :: "DEffect \<Rightarrow> Driver \<Rightarrow> Driver" where
  "emit_fx x d = d\<lparr>dr_log := dr_log d @ [x]\<rparr>"

definition dget :: "(Driver \<Rightarrow> 'a) \<Rightarrow> 'a act" where
  "dget f d = (d, Ok (f d))"

definition dmod :: "(Driver \<Rightarrow> Driver) \<Rightarrow> unit act" where
  "dmod f d = (f d, Ok ())"

subsection \<open>Access to the issue store and the chain\<close>

definition driver_store :: "DriverConfig \<Rightarrow> IssueStore" where
  "driver_store cfg = issue_store_new (dc_rfc_dir cfg)"

definition store_read :: "DEnv \<Rightarrow> DriverConfig \<Rightarrow> string \<Rightarrow> (Issue option) act" where
  "store_read env cfg i d =
     (d, map_err DE_Issue (issue_read (e_ix env) (e_io env (dr_log d)) (driver_store cfg) (dr_fs d) i))"

definition store_write :: "DEnv \<Rightarrow> DriverConfig \<Rightarrow> Issue \<Rightarrow> unit act" where
  "store_write env cfg issue d =
     (case issue_write (e_ix env) (e_io env (dr_log d)) (driver_store cfg) issue (dr_fs d) of
        (fs', r) \<Rightarrow>
          (emit_fx (WroteIssue issue (is_ok r)) (d\<lparr>dr_fs := fs'\<rparr>),
           map_err DE_Issue r))"

definition with_seal ::
  "DEnv \<Rightarrow> DriverConfig \<Rightarrow> (DsCodec \<Rightarrow> Io \<Rightarrow> path \<Rightarrow> string \<Rightarrow> fs \<Rightarrow> fs \<times> (DSealError, string) result) \<Rightarrow>
   (bool \<Rightarrow> DEffect) \<Rightarrow> Driver \<Rightarrow> Driver \<times> (DSealError, string) result" where
  "with_seal env cfg f fx d =
     (case f (e_dx env) (e_io env (dr_log d)) (dispatch_seal_path (dc_rfc_dir cfg)) (e_now env (dr_log d)) (dr_fs d) of
        (fs', r) \<Rightarrow> (emit_fx (fx (is_ok r)) (d\<lparr>dr_fs := fs'\<rparr>), r))"

definition seal_act :: "string \<Rightarrow> (Driver \<Rightarrow> Driver \<times> (DSealError, string) result) \<Rightarrow> string act" where
  "seal_act task_id m d = (case m d of (d', r) \<Rightarrow> (d', map_err (DE_Seal task_id) r))"

definition read_issue :: "DEnv \<Rightarrow> DriverConfig \<Rightarrow> string \<Rightarrow> string \<Rightarrow> Issue act" where
  "read_issue env cfg task_id reason =
     dbind (store_read env cfg task_id) (\<lambda>r.
       (case r of Some issue \<Rightarrow> dret issue | None \<Rightarrow> dfail (DE_Spawn task_id reason)))"

definition close_run :: "DEnv \<Rightarrow> DriverConfig \<Rightarrow> string \<Rightarrow> Driver \<Rightarrow> Driver" where
  "close_run env cfg reason d =
     (case read_run (e_ix env) (e_io env (dr_log d)) (driver_store cfg) (dr_fs d) of
        Inr (Some meta) \<Rightarrow>
          (if rm_closed meta = None then
             (case write_run (e_ix env) (e_io env (dr_log d)) (driver_store cfg) (meta\<lparr>rm_closed := Some reason\<rparr>) (dr_fs d) of
                (fs', r) \<Rightarrow> emit_fx (WroteRun (Some reason) (is_ok r)) (d\<lparr>dr_fs := fs'\<rparr>))
           else d)
      | _ \<Rightarrow> d)"

definition abort_kernel :: "Driver \<Rightarrow> Driver" where
  "abort_kernel d = emit_fx (KAbort (dr_run_id d)) d"

subsection \<open>Texts\<close>

fun issue_error_text :: "IssueError \<Rightarrow> string" where
  "issue_error_text (Issue_Io op e) = ''issues '' @ op @ '' failed: '' @ e"
| "issue_error_text (Issue_Encode e) = ''issue encode failed: '' @ e"
| "issue_error_text (Issue_Malformed i detail) = ''issue `'' @ i @ ''` is malformed: '' @ detail"

fun dseal_error_text :: "DSealError \<Rightarrow> string" where
  "dseal_error_text (DSeal_Io op e) = ''dispatch seal '' @ op @ '' failed: '' @ e"
| "dseal_error_text (DSeal_Corrupt e) = ''dispatch seal chain is corrupt: '' @ e"

fun driver_error_text :: "DriverError \<Rightarrow> string" where
  "driver_error_text (DE_Issue e) = issue_error_text e"
| "driver_error_text (DE_Spawn t reason) = ''spawn detached task `'' @ t @ ''`: '' @ reason"
| "driver_error_text (DE_MissingDep t dep) = ''task `'' @ t @ ''` depends on `'' @ dep @ ''`, whose response was never captured''"
| "driver_error_text (DE_Kernel e) = ''kernel advance: '' @ e"
| "driver_error_text (DE_Seal t e) = ''seal task `'' @ t @ ''`: '' @ dseal_error_text e"

definition failure_signature :: "DsCodec \<Rightarrow> string \<Rightarrow> string" where
  "failure_signature cx output_tail = dx_sha cx (trim output_tail)"

definition compose_retry_body :: "string \<Rightarrow> string \<Rightarrow> string \<Rightarrow> 32 word \<Rightarrow> string" where
  "compose_retry_body prior_prompt accept_command output_tail attempt =
     prior_prompt @ [NL, NL] @ ''---'' @ [NL] @ ''Attempt '' @ show_nat (unat attempt) @ '': the acceptance check `'' @
     accept_command @ ''` failed. Its output was:'' @ [NL] @ ''```'' @ [NL] @ output_tail @ [NL] @ ''```'' @ [NL] @
     ''Fix the underlying cause so `'' @ accept_command @ ''` passes, then stop.''"

definition done_outcome :: "IssueStore \<Rightarrow> Issue \<Rightarrow> TaskOutcome" where
  "done_outcome st issue =
     TaskDone \<lparr>to_path = path_string (issue_path st (im_id (is_meta issue))),
       to_bytes = (case is_response issue of Some r \<Rightarrow> word_of_int (utf8_len r) | None \<Rightarrow> 0),
       to_via_mcp = False, to_elapsed_ms = 0\<rparr>"

definition read_response :: "Io \<Rightarrow> fs \<Rightarrow> path \<Rightarrow> string" where
  "read_response io fs p =
     (case io_err io ''response'' Read of
        Some _ \<Rightarrow> []
      | None \<Rightarrow> (case fs p of Some s \<Rightarrow> s | None \<Rightarrow> []))"

definition first_or :: "string list \<Rightarrow> string \<Rightarrow> string" where
  "first_or failed fallback = (case failed of [] \<Rightarrow> fallback | f # _ \<Rightarrow> f)"

subsection \<open>Spawning\<close>

fun dep_contexts :: "DEnv \<Rightarrow> DriverConfig \<Rightarrow> string \<Rightarrow> string list \<Rightarrow> (DepContext list) act" where
  "dep_contexts env cfg task_id [] = dret []"
| "dep_contexts env cfg task_id (dep # deps) =
     dbind (store_read env cfg dep) (\<lambda>r.
       (case r of
          None \<Rightarrow> dfail (DE_MissingDep task_id dep)
        | Some issue \<Rightarrow>
           (case is_response issue of
              None \<Rightarrow> dfail (DE_MissingDep task_id dep)
            | Some response \<Rightarrow>
                dbind (dep_contexts env cfg task_id deps) (\<lambda>rest.
                  dret (\<lparr>dc_task_id = dep, dc_agent = im_agent (is_meta issue), dc_response = response\<rparr> # rest)))))"

definition spawn_job :: "DEnv \<Rightarrow> DriverConfig \<Rightarrow> string \<Rightarrow> string \<Rightarrow> (32 word) act" where
  "spawn_job env cfg task_id agent d =
     (let req = \<lparr>sq_command = task_command_line (dc_rfc_id cfg) task_id agent (dc_project cfg),
                 sq_working_dir = dc_working_dir cfg, sq_agent_name = Some agent, sq_extra_env = [],
                 sq_cage_wrapper = None\<rparr>;
          ans = e_spawn env (dr_log d) req
      in (emit_fx (SpawnedJob task_id req ans) d, map_err (DE_Spawn task_id) ans))"

definition adopt :: "32 word \<Rightarrow> string \<Rightarrow> Driver \<Rightarrow> Driver" where
  "adopt job_id task_id d = d\<lparr>dr_job_to_task := (dr_job_to_task d)(job_id \<mapsto> task_id)\<rparr>"

definition fresh_issue :: "string \<Rightarrow> string \<Rightarrow> string \<Rightarrow> string list \<Rightarrow> Status \<Rightarrow> 32 word option \<Rightarrow> string \<Rightarrow> Issue" where
  "fresh_issue i title agent deps status job prompt =
     \<lparr>is_meta = \<lparr>im_id = i, im_title = title, im_agent = agent, im_depends_on = deps, im_status = status, im_job_id = job,
        im_response_sha = None, im_seal = None, im_attempt = 0, im_verdict_seal = None\<rparr>,
      is_prompt = prompt, is_response = None\<rparr>"

definition spawn_one :: "DEnv \<Rightarrow> DriverConfig \<Rightarrow> TaskPlan \<Rightarrow> unit act" where
  "spawn_one env cfg plan =
     dbind (dep_contexts env cfg (tp_task_id plan) (tp_depends_on plan)) (\<lambda>deps.
     dbind (spawn_job env cfg (tp_task_id plan) (tp_agent plan)) (\<lambda>job_id.
     dbind (store_write env cfg
              (fresh_issue (tp_task_id plan) (title_from_body (tp_body plan) (tp_task_id plan)) (tp_agent plan)
                 (tp_depends_on plan) Spawned (Some job_id) (compose_body (tp_body plan) deps))) (\<lambda>_.
     dmod (adopt job_id (tp_task_id plan)))))"

definition retry_task :: "DEnv \<Rightarrow> DriverConfig \<Rightarrow> string \<Rightarrow> Issue \<Rightarrow> string \<Rightarrow> string \<Rightarrow> unit act" where
  "retry_task env cfg task_id issue accept_command output_tail =
     (let next_attempt = im_attempt (is_meta issue) + 1;
          body = compose_retry_body (is_prompt issue) accept_command output_tail next_attempt
      in dbind (spawn_job env cfg task_id (im_agent (is_meta issue))) (\<lambda>job_id.
         dbind (store_write env cfg
                  (issue\<lparr>is_meta := (is_meta issue)\<lparr>im_attempt := next_attempt, im_status := Spawned,
                            im_job_id := Some job_id, im_response_sha := None\<rparr>,
                         is_prompt := body, is_response := None\<rparr>)) (\<lambda>_.
         dmod (adopt job_id task_id))))"

subsection \<open>Responses and verdicts\<close>

definition absorb :: "DEnv \<Rightarrow> DriverConfig \<Rightarrow> string \<Rightarrow> FinalResponseEvent \<Rightarrow> TaskOutcome act" where
  "absorb env cfg task_id ev =
     dbind (read_issue env cfg task_id ''issue vanished before its response landed'') (\<lambda>issue.
       (case fe_response_path ev of
          Some p \<Rightarrow>
            dbind (dget (\<lambda>d. read_response (e_io env (dr_log d)) (dr_fs d) p)) (\<lambda>text.
              dbind (seal_act task_id (with_seal env cfg
                       (\<lambda>cx io q ts. seal_output cx io q task_id (im_agent (is_meta issue)) (fe_response_sha256 ev) (path_string p) ts)
                       (SealedOutput task_id))) (\<lambda>seal_hash.
              dbind (store_write env cfg
                       (issue\<lparr>is_meta := (is_meta issue)\<lparr>im_status := Done, im_response_sha := fe_response_sha256 ev,
                                 im_seal := Some seal_hash\<rparr>,
                              is_response := Some text\<rparr>)) (\<lambda>_.
              dret (TaskDone \<lparr>to_path = path_string p, to_bytes = fe_response_bytes ev, to_via_mcp = False,
                              to_elapsed_ms = 0\<rparr>))))
        | None \<Rightarrow>
            dbind (store_write env cfg
                     (issue\<lparr>is_meta := (is_meta issue)\<lparr>im_status := Failed\<rparr>,
                            is_response := Some (fe_response_preview ev)\<rparr>)) (\<lambda>_.
            dret (TaskFailed (fe_response_preview ev)))))"

definition launch_oracle :: "DEnv \<Rightarrow> DriverConfig \<Rightarrow> string \<Rightarrow> unit act" where
  "launch_oracle env cfg task_id =
     (case dc_accept_specs cfg task_id of
        None \<Rightarrow> dret ()
      | Some spec \<Rightarrow>
          dbind (read_issue env cfg task_id ''issue vanished before its verdict'') (\<lambda>issue.
          dbind (store_write env cfg (issue\<lparr>is_meta := (is_meta issue)\<lparr>im_status := Verifying\<rparr>\<rparr>)) (\<lambda>_.
          dmod (emit_fx (OracleLaunched task_id (im_attempt (is_meta issue)))))))"

subsection \<open>The round and the kernel\<close>

definition notify_kernel_converged :: "DEnv \<Rightarrow> Driver \<Rightarrow> Driver" where
  "notify_kernel_converged env d =
     emit_fx (KFinalize (dr_run_id d) True (dr_round d) (e_finalize env (dr_log d) (dr_run_id d) True (dr_round d) None)) d"

definition reset_issue_for_replan :: "DEnv \<Rightarrow> DriverConfig \<Rightarrow> string \<Rightarrow> unit act" where
  "reset_issue_for_replan env cfg task_id =
     dbind (store_read env cfg task_id) (\<lambda>r.
       (case r of
          None \<Rightarrow> dret ()
        | Some issue \<Rightarrow>
            store_write env cfg
              (issue\<lparr>is_meta := (is_meta issue)\<lparr>im_status := Pending, im_job_id := None, im_response_sha := None,
                        im_seal := None, im_attempt := 0, im_verdict_seal := None\<rparr>,
                     is_response := None\<rparr>)))"

fun reset_all :: "DEnv \<Rightarrow> DriverConfig \<Rightarrow> string list \<Rightarrow> unit act" where
  "reset_all env cfg [] = dret ()"
| "reset_all env cfg (i # is) = dbind (reset_issue_for_replan env cfg i) (\<lambda>_. reset_all env cfg is)"

definition restamp_run :: "DEnv \<Rightarrow> DriverConfig \<Rightarrow> Driver \<Rightarrow> Driver" where
  "restamp_run env cfg d =
     (case read_run (e_ix env) (e_io env (dr_log d)) (driver_store cfg) (dr_fs d) of
        Inr (Some meta) \<Rightarrow>
          (case write_run (e_ix env) (e_io env (dr_log d)) (driver_store cfg) (meta\<lparr>rm_run_id := dr_run_id d\<rparr>) (dr_fs d) of
             (fs', r) \<Rightarrow> emit_fx (WroteRun (rm_closed meta) (is_ok r)) (d\<lparr>dr_fs := fs'\<rparr>))
      | _ \<Rightarrow> d)"

definition replan_rerun_all :: "DEnv \<Rightarrow> DriverConfig \<Rightarrow> (TaskPlan list) act" where
  "replan_rerun_all env cfg d =
     (let ans = e_authorize env (dr_log d) (dc_authorize_req cfg);
          d1 = emit_fx (KAuthorize (dc_authorize_req cfg) ans) d
      in case ans of
           Inl e \<Rightarrow> (d1, Err (DE_Kernel e))
         | Inr (AuthRefused reason) \<Rightarrow>
             (d1, Err (DE_Spawn ''<re-plan>'' (''kernel refused re-authorize: '' @ reason)))
         | Inr (Authorized run_id total_tasks wave) \<Rightarrow>
             dbind (reset_all env cfg (map tr_id (ar_tasks (dc_authorize_req cfg)))) (\<lambda>_. dret wave)
               (restamp_run env cfg (d1\<lparr>dr_run_id := run_id\<rparr>)))"

definition seal_replan :: "DEnv \<Rightarrow> DriverConfig \<Rightarrow> string \<Rightarrow> Driver \<Rightarrow> Driver" where
  "seal_replan env cfg decision d =
     fst (with_seal env cfg (\<lambda>cx io q ts. seal_replan_decision cx io q (dr_round d) decision ts)
            (SealedReplan (dr_round d) decision) d)"

definition next_round :: "Driver \<Rightarrow> Driver" where
  "next_round d = d\<lparr>dr_round := dr_round d + 1\<rparr>"

definition replan :: "DEnv \<Rightarrow> DriverConfig \<Rightarrow> string \<Rightarrow> Driver \<Rightarrow> Driver \<times> FleetStep" where
  "replan env cfg failure_tail d =
     (let ans = e_finalize env (dr_log d) (dr_run_id d) False (dr_round d) (Some failure_tail);
          d1 = emit_fx (KFinalize (dr_run_id d) False (dr_round d) ans) d;
          rerun_all =
            (case replan_rerun_all env cfg (seal_replan env cfg ''rerun-all'' d1) of
               (d2, Inr wave) \<Rightarrow> (next_round d2, Fleet_Replan wave)
             | (d2, Inl e) \<Rightarrow> (d2, Fleet_Stop (''re-plan failed: '' @ driver_error_text e)))
      in case ans of
           Inr (Replan wave reopened) \<Rightarrow>
             (case reset_all env cfg reopened (seal_replan env cfg ''rerun-targeted'' d1) of
                (d2, Inl e) \<Rightarrow> (d2, Fleet_Stop (''re-plan reset failed: '' @ driver_error_text e))
              | (d2, Inr _) \<Rightarrow> (next_round d2, Fleet_Replan wave))
         | Inr (GiveUp reason) \<Rightarrow> (d1, Fleet_Stop (''re-plan declined: '' @ reason))
         | Inr Converged \<Rightarrow> (d1, Fleet_Stop ''converged'')
         | Inr (FinFailed reason) \<Rightarrow> rerun_all
         | Inl e \<Rightarrow> rerun_all)"

definition finalize_round :: "DEnv \<Rightarrow> DriverConfig \<Rightarrow> Driver \<Rightarrow> Driver \<times> FleetStep" where
  "finalize_round env cfg d =
     (case dc_global_accept cfg of
        None \<Rightarrow> (notify_kernel_converged env d, Fleet_Stop ''completed'')
      | Some cmd \<Rightarrow>
          (let result = run_acceptance (e_process env (dr_log d) cmd (dc_working_dir cfg));
               d1 = emit_fx (GlobalOracle cmd) d;
               d2 = fst (with_seal env cfg
                      (\<lambda>cx io q ts. seal_global_verdict cx io q (dr_round d) cmd (ac_exit_code result) (ac_passed result) ts)
                      (SealedGlobal (dr_round d) (ac_passed result)) d1);
               sig = failure_signature (e_dx env) (ac_output_tail result)
           in if ac_passed result then (notify_kernel_converged env d2, Fleet_Stop ''converged'')
              else if dr_round d2 \<ge> dc_max_replans cfg then
                (d2, Fleet_Stop (''integration failed: `'' @ cmd @ ''` exit '' @ show_int (sint (ac_exit_code result)) @
                       '' (after '' @ show_nat (unat (dr_round d2)) @ '' re-plan(s))''))
              else if dr_last_fail_sig d2 = Some sig then
                (seal_replan env cfg ''give-up: no progress'' d2, Fleet_Stop ''oscillating: integration failure unchanged'')
              else replan env cfg (ac_output_tail result) (d2\<lparr>dr_last_fail_sig := Some sig\<rparr>)))"

definition advance :: "DEnv \<Rightarrow> DriverConfig \<Rightarrow> string \<Rightarrow> TaskOutcome \<Rightarrow> Advanced act" where
  "advance env cfg task_id outcome d =
     (let ans = e_advance env (dr_log d) (dr_run_id d) task_id outcome;
          d1 = emit_fx (KAdvance (dr_run_id d) task_id outcome ans) d
      in case ans of
           Inl e \<Rightarrow> (d1, Err (DE_Kernel e))
         | Inr (NextWave wave) \<Rightarrow> (d1, Ok (Adv_Wave wave))
         | Inr (RunCompleted _) \<Rightarrow>
             (case finalize_round env cfg d1 of
                (d2, Fleet_Stop reason) \<Rightarrow> (close_run env cfg reason d2, Ok Adv_Stop)
              | (d2, Fleet_Replan wave) \<Rightarrow> (d2, Ok (Adv_Wave wave)))
         | Inr (Paused failed) \<Rightarrow> (close_run env cfg (''paused: '' @ first_or failed task_id) d1, Ok Adv_Stop)
         | Inr (Aborted failed) \<Rightarrow> (abort_kernel (close_run env cfg (''aborted: '' @ failed) d1), Ok Adv_Stop)
         | Inr (AdvFailed reason) \<Rightarrow> (close_run env cfg (''kernel: '' @ reason) d1, Ok Adv_Stop))"

subsection \<open>Waves\<close>

definition fast_forward :: "DEnv \<Rightarrow> DriverConfig \<Rightarrow> string \<Rightarrow> TaskOutcome \<Rightarrow> Step act" where
  "fast_forward env cfg task_id outcome =
     dbind (advance env cfg task_id outcome) (\<lambda>a.
       (case a of Adv_Wave wave \<Rightarrow> dret (Cascade wave) | Adv_Stop \<Rightarrow> dret Step_Stop))"

definition job_alive :: "DEnv \<Rightarrow> Driver \<Rightarrow> 32 word \<Rightarrow> bool" where
  "job_alive env d job_id = list_ex (\<lambda>(i, exit_code). i = job_id \<and> exit_code = None) (e_jobs env (dr_log d))"

definition fail_lost :: "DEnv \<Rightarrow> DriverConfig \<Rightarrow> string \<Rightarrow> Issue \<Rightarrow> Step act" where
  "fail_lost env cfg task_id issue =
     dbind (store_write env cfg
              (issue\<lparr>is_meta := (is_meta issue)\<lparr>im_status := Failed\<rparr>, is_response := Some ''lost on restart''\<rparr>)) (\<lambda>_.
     fast_forward env cfg task_id (TaskFailed ''lost on restart''))"

definition reconcile_spawned :: "DEnv \<Rightarrow> DriverConfig \<Rightarrow> string \<Rightarrow> Issue \<Rightarrow> Step act" where
  "reconcile_spawned env cfg task_id issue d =
     (case im_job_id (is_meta issue) of
        None \<Rightarrow> fail_lost env cfg task_id issue d
      | Some job_id \<Rightarrow>
         (case e_latest env (dr_log d) job_id of
            Some ev \<Rightarrow>
              dbind (absorb env cfg task_id ev) (\<lambda>outcome. fast_forward env cfg task_id outcome) d
          | None \<Rightarrow>
             (if job_alive env d job_id then (adopt job_id task_id d, Ok Step_Continue)
              else fail_lost env cfg task_id issue d)))"

definition process_one :: "DEnv \<Rightarrow> DriverConfig \<Rightarrow> TaskPlan \<Rightarrow> Step act" where
  "process_one env cfg plan =
     (let task_id = tp_task_id plan;
          spawn = dbind (spawn_one env cfg plan) (\<lambda>_. dret Step_Continue)
      in dbind (store_read env cfg task_id) (\<lambda>r.
           (case r of
              None \<Rightarrow> spawn
            | Some issue \<Rightarrow>
               (let finished = fast_forward env cfg task_id (done_outcome (driver_store cfg) issue)
                in case im_status (is_meta issue) of
                     Pending \<Rightarrow> spawn
                   | Spawned \<Rightarrow> reconcile_spawned env cfg task_id issue
                   | Verifying \<Rightarrow>
                       (if dc_accept_specs cfg task_id \<noteq> None
                        then dbind (launch_oracle env cfg task_id) (\<lambda>_. dret Step_Continue) else finished)
                   | Done \<Rightarrow> finished
                   | Verified \<Rightarrow> finished
                   | Failed \<Rightarrow>
                       fast_forward env cfg task_id
                         (TaskFailed (case is_response issue of Some s \<Rightarrow> s | None \<Rightarrow> ''failed''))
                   | Rejected \<Rightarrow>
                       fast_forward env cfg task_id (TaskFailed ''acceptance oracle rejected after max attempts'')))))"

partial_function (option) process_wave ::
  "DEnv \<Rightarrow> DriverConfig \<Rightarrow> TaskPlan list \<Rightarrow> Driver \<Rightarrow> (Driver \<times> (DriverError, Flow) result) option" where
  "process_wave env cfg queue d =
     (case queue of
        [] \<Rightarrow> Some (d, Ok Flow_Continue)
      | plan # rest \<Rightarrow>
         (case process_one env cfg plan d of
            (d', Inl e) \<Rightarrow> Some (d', Err e)
          | (d', Inr step) \<Rightarrow>
             (case step of
                Step_Continue \<Rightarrow> process_wave env cfg rest d'
              | Cascade wave \<Rightarrow> process_wave env cfg (rest @ wave) d'
              | Step_Stop \<Rightarrow> Some (d', Ok Flow_Done))))"

declare process_wave.simps [code]

definition advance_into_flow :: "DEnv \<Rightarrow> DriverConfig \<Rightarrow> string \<Rightarrow> TaskOutcome \<Rightarrow> Driver \<Rightarrow> (Driver \<times> (DriverError, Flow) result) option" where
  "advance_into_flow env cfg task_id outcome d =
     (case advance env cfg task_id outcome d of
        (d', Inl e) \<Rightarrow> Some (d', Err e)
      | (d', Inr a) \<Rightarrow>
         (case a of Adv_Stop \<Rightarrow> Some (d', Ok Flow_Done) | Adv_Wave wave \<Rightarrow> process_wave env cfg wave d'))"

subsection \<open>Message handlers\<close>

text \<open>An action followed by a step that may not return.\<close>

definition then_flow ::
  "'a act \<Rightarrow> ('a \<Rightarrow> Driver \<Rightarrow> (Driver \<times> (DriverError, Flow) result) option) \<Rightarrow> Driver \<Rightarrow> (Driver \<times> (DriverError, Flow) result) option" where
  "then_flow m f d = (case m d of (d', Inl e) \<Rightarrow> Some (d', Err e) | (d', Inr a) \<Rightarrow> f a d')"

definition flow_of :: "unit act \<Rightarrow> Driver \<Rightarrow> (Driver \<times> (DriverError, Flow) result) option" where
  "flow_of m = then_flow m (\<lambda>_ d. Some (d, Ok Flow_Continue))"

definition handle_response :: "DEnv \<Rightarrow> DriverConfig \<Rightarrow> string \<Rightarrow> FinalResponseEvent \<Rightarrow> Driver \<Rightarrow> (Driver \<times> (DriverError, Flow) result) option" where
  "handle_response env cfg task_id ev =
     then_flow (absorb env cfg task_id ev) (\<lambda>outcome.
       (if (case outcome of TaskDone _ \<Rightarrow> True | TaskFailed _ \<Rightarrow> False) \<and> dc_accept_specs cfg task_id \<noteq> None
        then flow_of (launch_oracle env cfg task_id)
        else advance_into_flow env cfg task_id outcome))"

text \<open>What follows once the verdict on the current attempt is sealed.\<close>

definition judge ::
  "DEnv \<Rightarrow> DriverConfig \<Rightarrow> string \<Rightarrow> AcceptSpec \<Rightarrow> Issue \<Rightarrow> 32 word \<Rightarrow> AcceptanceResult \<Rightarrow> string \<Rightarrow> Driver \<Rightarrow>
   (Driver \<times> (DriverError, Flow) result) option" where
  "judge env cfg task_id spec issue attempt result seal_hash =
     (let judged = (\<lambda>s. issue\<lparr>is_meta := (is_meta issue)\<lparr>im_verdict_seal := Some seal_hash, im_status := s\<rparr>\<rparr>);
          kept = issue\<lparr>is_meta := (is_meta issue)\<lparr>im_verdict_seal := Some seal_hash\<rparr>\<rparr>
      in if ac_passed result then
           then_flow (store_write env cfg (judged Verified)) (\<lambda>_.
             advance_into_flow env cfg task_id (done_outcome (driver_store cfg) (judged Verified)))
         else if attempt + 1 < as_max_attempts spec then
           flow_of (dbind (store_write env cfg kept) (\<lambda>_.
             retry_task env cfg task_id kept (as_command spec) (ac_output_tail result)))
         else
           then_flow (store_write env cfg (judged Rejected)) (\<lambda>_.
             advance_into_flow env cfg task_id
               (TaskFailed (''acceptance `'' @ as_command spec @ ''` failed after '' @ show_nat (unat (attempt + 1)) @
                  '' attempt(s) (exit '' @ show_int (sint (ac_exit_code result)) @ '')''))))"

definition handle_verdict :: "DEnv \<Rightarrow> DriverConfig \<Rightarrow> string \<Rightarrow> 32 word \<Rightarrow> AcceptanceResult \<Rightarrow> Driver \<Rightarrow> (Driver \<times> (DriverError, Flow) result) option" where
  "handle_verdict env cfg task_id attempt result =
     (case dc_accept_specs cfg task_id of
        None \<Rightarrow> (\<lambda>d. Some (d, Ok Flow_Continue))
      | Some spec \<Rightarrow>
          then_flow (read_issue env cfg task_id ''issue vanished before its verdict'') (\<lambda>issue.
            (if im_attempt (is_meta issue) \<noteq> attempt then (\<lambda>d. Some (d, Ok Flow_Continue))
             else
               then_flow (seal_act task_id (with_seal env cfg
                     (\<lambda>cx io q ts. seal_verdict cx io q task_id (im_agent (is_meta issue)) attempt (as_command spec)
                        (ac_exit_code result) (ac_passed result) ts)
                     (SealedVerdict task_id attempt (ac_passed result))))
                 (judge env cfg task_id spec issue attempt result))))"

definition teardown :: "DEnv \<Rightarrow> DriverConfig \<Rightarrow> string \<Rightarrow> Driver \<Rightarrow> Driver \<times> Flow" where
  "teardown env cfg reason d = (abort_kernel (close_run env cfg reason d), Flow_Done)"

definition settle :: "DEnv \<Rightarrow> DriverConfig \<Rightarrow> string \<Rightarrow> Driver \<times> (DriverError, Flow) result \<Rightarrow> Driver \<times> Flow" where
  "settle env cfg what r =
     (case r of
        (d, Inr flow) \<Rightarrow> (d, flow)
      | (d, Inl e) \<Rightarrow> teardown env cfg (what @ driver_error_text e) d)"

definition on_response :: "DEnv \<Rightarrow> DriverConfig \<Rightarrow> FinalResponseEvent \<Rightarrow> Driver \<Rightarrow> (Driver \<times> Flow) option" where
  "on_response env cfg ev d =
     (case dr_job_to_task d (fe_job_id ev) of
        None \<Rightarrow> Some (d, Flow_Continue)
      | Some task_id \<Rightarrow>
          map_option (settle env cfg (''response `'' @ task_id @ ''`: ''))
            (handle_response env cfg task_id ev (d\<lparr>dr_job_to_task := (dr_job_to_task d)(fe_job_id ev := None)\<rparr>)))"

definition on_verdict :: "DEnv \<Rightarrow> DriverConfig \<Rightarrow> string \<Rightarrow> 32 word \<Rightarrow> AcceptanceResult \<Rightarrow> Driver \<Rightarrow> (Driver \<times> Flow) option" where
  "on_verdict env cfg task_id attempt result d =
     map_option (settle env cfg (''verdict `'' @ task_id @ ''`: '')) (handle_verdict env cfg task_id attempt result d)"

definition on_abort :: "DEnv \<Rightarrow> DriverConfig \<Rightarrow> Driver \<Rightarrow> Driver \<times> Flow" where
  "on_abort env cfg d = (abort_kernel (close_run env cfg ''cancelled'' d), Flow_Done)"

fun on_msg :: "DEnv \<Rightarrow> DriverConfig \<Rightarrow> ProxyMsg \<Rightarrow> Driver \<Rightarrow> (Driver \<times> Flow) option" where
  "on_msg env cfg (Response ev) d = on_response env cfg ev d"
| "on_msg env cfg (VerdictMsg task_id attempt result) d = on_verdict env cfg task_id attempt result d"
| "on_msg env cfg AbortMsg d = Some (on_abort env cfg d)"

text \<open>
  The driver holds a sender of its own channel, so receiving never reports the end of the channel: when every message sent so far is handled, the actor waits for
  the next one. It returns only on a final step, an error or an abort.
\<close>

datatype ActorEnd = Returned Driver | Waiting Driver

fun actor_loop :: "DEnv \<Rightarrow> DriverConfig \<Rightarrow> ProxyMsg list \<Rightarrow> Driver \<Rightarrow> ActorEnd option" where
  "actor_loop env cfg [] d = Some (Waiting d)"
| "actor_loop env cfg (m # ms) d =
     Option.bind (on_msg env cfg m d) (\<lambda>(d', flow). if flow = Flow_Done then Some (Returned d') else actor_loop env cfg ms d')"

definition run_actor :: "DEnv \<Rightarrow> DriverConfig \<Rightarrow> TaskPlan list \<Rightarrow> ProxyMsg list \<Rightarrow> Driver \<Rightarrow> ActorEnd option" where
  "run_actor env cfg first_wave msgs d =
     Option.bind (process_wave env cfg first_wave d) (\<lambda>(d', r).
       (case r of
          Inr Flow_Done \<Rightarrow> Some (Returned d')
        | Inr Flow_Continue \<Rightarrow> actor_loop env cfg msgs d'
        | Inl e \<Rightarrow> Some (Returned (fst (teardown env cfg (''initial wave: '' @ driver_error_text e) d')))))"

subsection \<open>Starting and resuming a run\<close>

record ResolvedRuntime =
  rt_command :: string
  rt_args :: "string list"
  rt_provider :: "string option"
  rt_runtime :: "string option"

record DispatchTaskSpec =
  sp_id :: string
  sp_agent :: string
  sp_body :: string
  sp_depends_on :: "string list"
  sp_accept :: "string option"
  sp_max_attempts :: "nat option"

record DispatchRequest =
  rq_rfc_id :: string
  rq_project :: string
  rq_rfc_dir :: path
  rq_working_dir :: "string option"
  rq_strategy :: string
  rq_max_inflight :: nat
  rq_on_task_fail :: string
  rq_global_accept :: "string option"
  rq_max_replans :: nat
  rq_tasks :: "DispatchTaskSpec list"

datatype StartOutcome =
    Started "32 word" DriverConfig "TaskPlan list" Driver
  | NoRun
  | AlreadyClosed string
  | Refused string

definition resolve_one :: "(string \<Rightarrow> ResolvedRuntime option) \<Rightarrow> DispatchTaskSpec \<Rightarrow> (string, DispatchTaskRequest) result" where
  "resolve_one resolver spec =
     (case resolver (sp_agent spec) of
        None \<Rightarrow> Err (''task `'' @ sp_id spec @ ''`: agent @'' @ sp_agent spec @ '' has no command configured'')
      | Some rt \<Rightarrow>
          Ok \<lparr>tr_id = sp_id spec, tr_agent = sp_agent spec, tr_body = sp_body spec, tr_command = rt_command rt,
              tr_args = rt_args rt, tr_provider = rt_provider rt, tr_runtime = rt_runtime rt,
              tr_depends_on = sp_depends_on spec\<rparr>)"

fun resolve_tasks :: "(string \<Rightarrow> ResolvedRuntime option) \<Rightarrow> DispatchTaskSpec list \<Rightarrow> (string, DispatchTaskRequest list) result" where
  "resolve_tasks resolver [] = Ok []"
| "resolve_tasks resolver (s # ss) =
     and_then (resolve_one resolver s) (\<lambda>t. and_then (resolve_tasks resolver ss) (\<lambda>ts. Ok (t # ts)))"

definition plan_hash :: "DEnv \<Rightarrow> DispatchAuthorizeRequest \<Rightarrow> string" where
  "plan_hash env req = take 16 (dx_sha (e_dx env) (e_plan_json env req))"

definition authorize_req_of :: "DispatchRequest \<Rightarrow> DispatchTaskRequest list \<Rightarrow> DispatchAuthorizeRequest" where
  "authorize_req_of req tasks =
     \<lparr>ar_strategy = rq_strategy req, ar_max_inflight = rq_max_inflight req, ar_on_task_fail = rq_on_task_fail req,
      ar_tasks = tasks\<rparr>"

definition accept_specs_of :: "DispatchTaskSpec list \<Rightarrow> string \<rightharpoonup> AcceptSpec" where
  "accept_specs_of tasks =
     map_of (rev (List.map_filter (\<lambda>t. map_option (\<lambda>cmd.
       (sp_id t, \<lparr>as_command = cmd,
                  as_max_attempts = word_of_nat (max (case sp_max_attempts t of Some n \<Rightarrow> n | None \<Rightarrow> 1) 1)\<rparr>)) (sp_accept t)) tasks))"

definition config_of :: "DispatchRequest \<Rightarrow> DispatchAuthorizeRequest \<Rightarrow> DriverConfig" where
  "config_of req authorize =
     \<lparr>dc_rfc_id = rq_rfc_id req, dc_project = rq_project req, dc_rfc_dir = rq_rfc_dir req,
      dc_working_dir = rq_working_dir req, dc_accept_specs = accept_specs_of (rq_tasks req),
      dc_global_accept = rq_global_accept req, dc_max_replans = word_of_nat (rq_max_replans req),
      dc_authorize_req = authorize\<rparr>"

fun write_pending :: "DEnv \<Rightarrow> DriverConfig \<Rightarrow> DispatchTaskSpec list \<Rightarrow> Driver \<Rightarrow> Driver \<times> (string, unit) result" where
  "write_pending env cfg [] d = (d, Ok ())"
| "write_pending env cfg (spec # specs) d =
     (case store_write env cfg
             (fresh_issue (sp_id spec) (title_from_body (sp_body spec) (sp_id spec)) (sp_agent spec)
                (sp_depends_on spec) Pending None (sp_body spec)) d of
        (d', Inl e) \<Rightarrow> (d', Err (''issue `'' @ sp_id spec @ ''` unwritable: '' @ driver_error_text e))
      | (d', Inr _) \<Rightarrow> write_pending env cfg specs d')"

definition open_run :: "DEnv \<Rightarrow> DispatchRequest \<Rightarrow> DriverConfig \<Rightarrow> Driver \<Rightarrow> Driver \<times> (string, unit) result" where
  "open_run env req cfg d =
     (case write_run (e_ix env) (e_io env (dr_log d)) (driver_store cfg)
             \<lparr>rm_run_id = dr_run_id d, rm_plan_hash = plan_hash env (dc_authorize_req cfg), rm_strategy = rq_strategy req,
              rm_started = e_now env (dr_log d), rm_closed = None\<rparr> (dr_fs d) of
        (fs', r) \<Rightarrow>
          (let d1 = emit_fx (WroteRun None (is_ok r)) (d\<lparr>dr_fs := fs'\<rparr>)
           in case r of
                Inl e \<Rightarrow> (d1, Err (''dispatch run unwritable: '' @ issue_error_text e))
              | Inr _ \<Rightarrow> write_pending env cfg (rq_tasks req) d1))"

definition start_run :: "DEnv \<Rightarrow> (string \<Rightarrow> ResolvedRuntime option) \<Rightarrow> DispatchRequest \<Rightarrow> fs \<Rightarrow> Driver \<times> StartOutcome" where
  "start_run env resolver req fs =
     (case resolve_tasks resolver (rq_tasks req) of
        Inl reason \<Rightarrow> (driver_new [] fs [], Refused reason)
      | Inr tasks \<Rightarrow>
         (let authorize = authorize_req_of req tasks;
              cfg = config_of req authorize;
              ans = e_authorize env [] authorize;
              log = [KAuthorize authorize ans]
          in case ans of
               Inl e \<Rightarrow> (driver_new [] fs log, Refused (''kernel unavailable: '' @ e))
             | Inr (AuthRefused reason) \<Rightarrow> (driver_new [] fs log, Refused reason)
             | Inr (Authorized run_id total_tasks wave) \<Rightarrow>
                (case open_run env req cfg (driver_new run_id fs log) of
                   (d, Inl reason) \<Rightarrow> (d, Refused reason)
                 | (d, Inr _) \<Rightarrow> (d, Started total_tasks cfg wave d))))"

definition resume_run :: "DEnv \<Rightarrow> (string \<Rightarrow> ResolvedRuntime option) \<Rightarrow> DispatchRequest \<Rightarrow> fs \<Rightarrow> Driver \<times> StartOutcome" where
  "resume_run env resolver req fs =
     (let st = issue_store_new (rq_rfc_dir req); d0 = driver_new [] fs []
      in case read_run (e_ix env) (e_io env []) st fs of
           Inl e \<Rightarrow> (d0, Refused (''run meta unreadable: '' @ issue_error_text e))
         | Inr None \<Rightarrow> (d0, NoRun)
         | Inr (Some prior) \<Rightarrow>
            (case rm_closed prior of
               Some reason \<Rightarrow> (d0, AlreadyClosed reason)
             | None \<Rightarrow>
                (case resolve_tasks resolver (rq_tasks req) of
                   Inl reason \<Rightarrow> (d0, Refused reason)
                 | Inr tasks \<Rightarrow>
                    (let authorize = authorize_req_of req tasks;
                         cfg = config_of req authorize;
                         ans = e_authorize env [] authorize;
                         log = [KAuthorize authorize ans]
                     in case ans of
                          Inl e \<Rightarrow> (driver_new [] fs log, Refused (''kernel unavailable: '' @ e))
                        | Inr (AuthRefused reason) \<Rightarrow> (driver_new [] fs log, Refused reason)
                        | Inr (Authorized run_id total_tasks wave) \<Rightarrow>
                           (case write_run (e_ix env) (e_io env log) st
                                   \<lparr>rm_run_id = run_id, rm_plan_hash = plan_hash env authorize,
                                    rm_strategy = rq_strategy req, rm_started = rm_started prior, rm_closed = None\<rparr> fs of
                              (fs', r) \<Rightarrow>
                                (let d = emit_fx (WroteRun None (is_ok r)) (driver_new run_id fs' log)
                                 in case r of
                                      Inl e \<Rightarrow> (d, Refused (''run meta unwritable: '' @ issue_error_text e))
                                    | Inr _ \<Rightarrow> (d, Started total_tasks cfg wave d)))))))"

end
