(* ===== verification/Dispatch_Effects.thy ===== *)
theory Dispatch_Effects
  imports Dispatch_Run
begin

section \<open>What the driver's actions leave behind\<close>

text \<open>
  Lemmas shared by the theorems on the driver: the effects an action of the driver can have (\<open>emits\<close>), that the record of
  effects only grows (\<open>ext\<close>), and which actions leave the round and the last failure alone (\<open>steady\<close>).
\<close>

lemma dbind_simps:
  "m d = (d', Ok a) \<Longrightarrow> dbind m f d = f a d'" "m d = (d', Err e) \<Longrightarrow> dbind m f d = (d', Err e)"
  by (simp_all add: dbind_def)

lemma dbind_cases:
  assumes "dbind m f d = (d', r)"
  obtains (err) e where "m d = (d', Err e)" and "r = Err e"
    | (ok) a d1 where "m d = (d1, Ok a)" and "f a d1 = (d', r)"
  using assms by (auto simp: dbind_def split: prod.splits sum.splits)

definition emits :: "(DEffect \<Rightarrow> bool) \<Rightarrow> 'a act \<Rightarrow> bool" where
  "emits P m \<longleftrightarrow> (\<forall>d. \<exists>xs. dr_log (fst (m d)) = dr_log d @ xs \<and> list_all P xs)"

lemma emitsD: "emits P m \<Longrightarrow> m d = (d', r) \<Longrightarrow> \<exists>xs. dr_log d' = dr_log d @ xs \<and> list_all P xs"
  unfolding emits_def by (metis fst_conv)

lemma emits_dret [simp]: "emits P (dret a)" and emits_dfail [simp]: "emits P (dfail e)"
  by (simp_all add: emits_def dret_def dfail_def)

lemma emits_dbind [intro]:
  assumes "emits P m" and "\<And>a. emits P (f a)"
  shows "emits P (dbind m f)"
  unfolding emits_def
proof
  fix d
  obtain d1 r where m: "m d = (d1, r)" by fastforce
  with assms(1) obtain xs where xs: "dr_log d1 = dr_log d @ xs" "list_all P xs" by (blast dest: emitsD)
  show "\<exists>xs. dr_log (fst (dbind m f d)) = dr_log d @ xs \<and> list_all P xs"
  proof (cases r)
    case (Inl e)
    with m xs show ?thesis by (simp add: dbind_def)
  next
    case (Inr a)
    obtain ys where "dr_log (fst (f a d1)) = dr_log d1 @ ys" "list_all P ys" using assms(2) [of a] by (auto simp: emits_def)
    with m Inr xs have "dr_log (fst (dbind m f d)) = dr_log d @ xs @ ys \<and> list_all P (xs @ ys)" by (simp add: dbind_def)
    then show ?thesis by blast
  qed
qed

lemma emits_store_read [simp]: "emits P (store_read env cfg i)"
  by (simp add: emits_def store_read_def)

lemma emits_read_issue [simp]: "emits P (read_issue env cfg i reason)"
  unfolding read_issue_def by (intro emits_dbind) (auto split: option.splits)

lemma emits_store_write: "(\<And>b. P (WroteIssue i b)) \<Longrightarrow> emits P (store_write env cfg i)"
  by (simp add: emits_def store_write_def emit_fx_def split: prod.splits)

lemma emits_seal: "(\<And>b. P (fx b)) \<Longrightarrow> emits P (seal_act t (with_seal env cfg f fx))"
  by (simp add: emits_def seal_act_def with_seal_def emit_fx_def split: prod.splits)

lemma emits_spawn_job: "(\<And>req ans. P (SpawnedJob t req ans)) \<Longrightarrow> emits P (spawn_job env cfg t a)"
  by (simp add: emits_def spawn_job_def emit_fx_def Let_def)

lemma emits_dget [simp]: "emits P (dget f)"
  by (simp add: emits_def dget_def)

lemma emits_adopt [simp]: "emits P (dmod (adopt j t))"
  by (simp add: emits_def dmod_def adopt_def)

lemma emits_emit_fx: "P x \<Longrightarrow> emits P (dmod (emit_fx x))"
  by (simp add: emits_def dmod_def emit_fx_def)

lemma emits_dep_contexts [simp]: "emits P (dep_contexts env cfg t deps)"
  by (induction deps) (auto intro!: emits_dbind split: option.splits)

lemma emits_spawn_one:
  "(\<And>i b. P (WroteIssue i b)) \<Longrightarrow> (\<And>req ans. P (SpawnedJob (tp_task_id plan) req ans)) \<Longrightarrow> emits P (spawn_one env cfg plan)"
  unfolding spawn_one_def by (intro emits_dbind emits_store_write emits_spawn_job) simp_all

lemma emits_retry_task:
  "(\<And>i b. P (WroteIssue i b)) \<Longrightarrow> (\<And>req ans. P (SpawnedJob t req ans)) \<Longrightarrow> emits P (retry_task env cfg t i c tail)"
  unfolding retry_task_def Let_def by (intro emits_dbind emits_store_write emits_spawn_job) simp_all

lemma emits_absorb:
  "(\<And>i b. P (WroteIssue i b)) \<Longrightarrow> (\<And>b. P (SealedOutput t b)) \<Longrightarrow> emits P (absorb env cfg t ev)"
  unfolding absorb_def
  by (intro emits_dbind emits_read_issue) (auto intro!: emits_dbind emits_store_write emits_seal split: option.splits)

lemma emits_launch_oracle:
  "(\<And>i b. P (WroteIssue i b)) \<Longrightarrow> (\<And>n. P (OracleLaunched t n)) \<Longrightarrow> emits P (launch_oracle env cfg t)"
  unfolding launch_oracle_def
  by (auto intro!: emits_dbind emits_store_write emits_emit_fx split: option.splits)


text \<open>Every step only adds to what has been done.\<close>

abbreviation ext :: "Driver \<Rightarrow> Driver \<Rightarrow> bool" where
  "ext d d' \<equiv> prefix (dr_log d) (dr_log d')"

lemma ext_emit [simp]: "ext d (emit_fx x d)"
  by (simp add: emit_fx_def)

lemma ext_emit_fs [simp]: "prefix (dr_log d) (dr_log (emit_fx x (d\<lparr>dr_fs := fs\<rparr>)))"
  by (simp add: emit_fx_def)

lemma emits_ext: "emits P m \<Longrightarrow> m d = (d', r) \<Longrightarrow> ext d d'"
  by (auto dest: emitsD simp: prefix_def)

lemma ext_close_run [simp]: "ext d (close_run env cfg reason d)"
  by (auto simp: close_run_def split: sum.splits option.splits prod.splits)

lemma ext_abort_kernel [simp]: "ext d (abort_kernel d)"
  by (simp add: abort_kernel_def)

lemma ext_with_seal: "ext d (fst (with_seal env cfg f fx d))"
  by (simp add: with_seal_def split: prod.splits)

lemma ext_seal_replan [simp]: "ext d (seal_replan env cfg x d)"
  unfolding seal_replan_def by (rule ext_with_seal)

lemma emits_reset [simp]: "emits (\<lambda>_. True) (reset_issue_for_replan env cfg i)"
  unfolding reset_issue_for_replan_def by (auto intro!: emits_dbind emits_store_write split: option.splits)

lemma emits_reset_all [simp]: "emits (\<lambda>_. True) (reset_all env cfg ids)"
  by (induction ids) (auto intro!: emits_dbind)

lemma ext_restamp [simp]: "ext d (restamp_run env cfg d)"
  by (auto simp: restamp_run_def split: sum.splits option.splits prod.splits)

lemma ext_rerun_all: "replan_rerun_all env cfg d = (d', r) \<Longrightarrow> ext d d'"
proof -
  assume a: "replan_rerun_all env cfg d = (d', r)"
  have *: "ext d' d''" if "dbind (reset_all env cfg ids) (\<lambda>_. dret w) d' = (d'', r)" for ids w d' d''
    by (rule emits_ext [where m = "dbind (reset_all env cfg ids) (\<lambda>_. dret w)" and P = "\<lambda>_. True", OF _ that])
       (auto intro!: emits_dbind)
  show ?thesis
  proof (cases "\<exists>run_id n wave. e_authorize env (dr_log d) (dc_authorize_req cfg) = Ok (Authorized run_id n wave)")
    case True
    then obtain run_id n wave where w: "e_authorize env (dr_log d) (dc_authorize_req cfg) = Ok (Authorized run_id n wave)" by blast
    let ?d1 = "(emit_fx (KAuthorize (dc_authorize_req cfg) (Ok (Authorized run_id n wave))) d)\<lparr>dr_run_id := run_id\<rparr>"
    have "ext ?d1 (restamp_run env cfg ?d1)" by (rule ext_restamp)
    then have "ext d (restamp_run env cfg ?d1)" by (auto simp: emit_fx_def elim: prefix_order.trans [rotated])
    then show ?thesis using a w * by (auto simp: replan_rerun_all_def Let_def elim: prefix_order.trans)
  qed (use a in \<open>auto simp: replan_rerun_all_def Let_def split: sum.splits DispatchAuthorizeResponse.splits\<close>)
qed

lemma next_round_log [simp]: "dr_log (next_round d) = dr_log d"
  by (simp add: next_round_def)

lemma ext_replan: "replan env cfg tail d = (d', r) \<Longrightarrow> ext d d'"
proof -
  assume a: "replan env cfg tail d = (d', r)"
  define ans where "ans = e_finalize env (dr_log d) (dr_run_id d) False (dr_round d) (Some tail)"
  define d1 where "d1 = emit_fx (KFinalize (dr_run_id d) False (dr_round d) ans) d"
  have d1: "ext d d1" by (simp add: d1_def)
  have s: "ext d (seal_replan env cfg x d1)" for x using d1 ext_seal_replan prefix_order.trans by blast
  have *: "ext d d2" if "replan_rerun_all env cfg (seal_replan env cfg x d1) = (d2, q)" for x d2 q
    using ext_rerun_all [OF that] s prefix_order.trans by blast
  have **: "ext d d2" if "reset_all env cfg ids (seal_replan env cfg x d1) = (d2, q)" for x d2 q ids
    using emits_ext [where m = "reset_all env cfg ids", OF emits_reset_all that] s prefix_order.trans by blast
  show ?thesis
    using a d1 unfolding replan_def Let_def ans_def [symmetric] d1_def [symmetric]
    by (auto split: sum.splits DispatchFinalizeResponse.splits prod.splits dest!: * **)
qed

lemma ext_finalize: "finalize_round env cfg d = (d', r) \<Longrightarrow> ext d d'"
proof (cases "dc_global_accept cfg")
  case None
  moreover assume "finalize_round env cfg d = (d', r)"
  ultimately show ?thesis by (auto simp: finalize_round_def notify_kernel_converged_def)
next
  case (Some cmd)
  define res where "res = run_acceptance (e_process env (dr_log d) cmd (dc_working_dir cfg))"
  define d2 where "d2 = fst (with_seal env cfg
      (\<lambda>cx io q ts. seal_global_verdict cx io q (dr_round d) cmd (ac_exit_code res) (ac_passed res) ts)
      (SealedGlobal (dr_round d) (ac_passed res)) (emit_fx (GlobalOracle cmd) d))"
  have d2: "ext d d2" unfolding d2_def using ext_emit ext_with_seal prefix_order.trans by blast
  have "ext d (seal_replan env cfg x d2)" for x using d2 ext_seal_replan prefix_order.trans by blast
  moreover have "ext d (notify_kernel_converged env d2)"
    using d2 by (simp add: notify_kernel_converged_def emit_fx_def)
  moreover have "ext d d''" if "replan env cfg tail (d2\<lparr>dr_last_fail_sig := sig\<rparr>) = (d'', q)" for tail sig d'' q
    using ext_replan [OF that] d2 by (auto elim: prefix_order.trans)
  moreover assume "finalize_round env cfg d = (d', r)"
  ultimately show ?thesis
    using d2 unfolding finalize_round_def Some res_def [symmetric] Let_def d2_def [symmetric] option.case
    by (auto split: if_splits)
qed

lemma advance_first:
  assumes "advance env cfg t outcome d = (d', r)"
  shows "\<exists>ans ys. dr_log d' = dr_log d @ KAdvance (dr_run_id d) t outcome ans # ys"
proof -
  define ans where "ans = e_advance env (dr_log d) (dr_run_id d) t outcome"
  define d1 where "d1 = emit_fx (KAdvance (dr_run_id d) t outcome ans) d"
  have "ext d1 (close_run env cfg x d1)" for x by simp
  moreover have "ext d1 (abort_kernel (close_run env cfg x d1))" for x
    by (rule prefix_order.trans [OF ext_close_run ext_abort_kernel])
  moreover have "ext d1 (close_run env cfg x d2)" if "ext d1 d2" for x d2 using that ext_close_run prefix_order.trans by blast
  ultimately have "ext d1 d'"
    using assms unfolding advance_def Let_def ans_def [symmetric] d1_def [symmetric]
    by (auto split: sum.splits DispatchAdvanceResponse.splits prod.splits FleetStep.splits dest!: ext_finalize)
  then show ?thesis by (auto simp: d1_def emit_fx_def prefix_def)
qed

lemma ext_advance: "advance env cfg t outcome d = (d', r) \<Longrightarrow> ext d d'"
  by (auto dest: advance_first simp: prefix_def)


lemma emits_TrueI: "(\<And>d d' r. m d = (d', r) \<Longrightarrow> ext d d') \<Longrightarrow> emits (\<lambda>_. True) m"
proof -
  assume e: "\<And>d d' r. m d = (d', r) \<Longrightarrow> ext d d'"
  have "ext d (fst (m d))" for d using e [of d "fst (m d)" "snd (m d)"] by simp
  then show ?thesis by (auto simp: emits_def prefix_def list_all_iff)
qed

lemma emits_advance [simp]: "emits (\<lambda>_. True) (advance env cfg t outcome)"
  by (rule emits_TrueI) (rule ext_advance)

lemma emits_fast_forward [simp]: "emits (\<lambda>_. True) (fast_forward env cfg t outcome)"
  unfolding fast_forward_def by (auto intro!: emits_dbind split: Advanced.splits)

lemma emits_fail_lost [simp]: "emits (\<lambda>_. True) (fail_lost env cfg t issue)"
  unfolding fail_lost_def by (auto intro!: emits_dbind emits_store_write)

lemma emits_reconcile [simp]: "emits (\<lambda>_. True) (reconcile_spawned env cfg t issue)"
proof (rule emits_TrueI)
  fix d d' r
  assume a: "reconcile_spawned env cfg t issue d = (d', r)"
  have "emits (\<lambda>_. True) (dbind (absorb env cfg t ev) (\<lambda>outcome. fast_forward env cfg t outcome))" for ev
    by (auto intro!: emits_dbind emits_absorb)
  from emits_ext [OF this] emits_ext [OF emits_fail_lost] a show "ext d d'"
    by (auto simp: reconcile_spawned_def adopt_def split: option.splits if_splits)
qed

lemma emits_process_one [simp]: "emits (\<lambda>_. True) (process_one env cfg plan)"
  unfolding process_one_def Let_def
  by (auto intro!: emits_dbind emits_spawn_one emits_launch_oracle split: option.splits Status.splits)

lemma ext_process_wave: "process_wave env cfg queue d = Some (d', r) \<Longrightarrow> ext d d'"
proof -
  assume ret: "process_wave env cfg queue d = Some (d', r)"
  have "ext d (fst (d', r))"
  proof (rule process_wave.raw_induct [where P = "\<lambda>env cfg queue d y. ext d (fst y)", OF _ ret])
    fix f env cfg queue d y
    assume IH: "\<And>env cfg queue d y. f env cfg queue d = Some y \<Longrightarrow> ext d (fst y)"
      and eq: "(case queue of [] \<Rightarrow> Some (d, Ok Flow_Continue)
        | plan # rest \<Rightarrow> (case process_one env cfg plan d of (d', Inl e) \<Rightarrow> Some (d', Err e)
          | (d', Inr step) \<Rightarrow> (case step of Step_Continue \<Rightarrow> f env cfg rest d'
            | Cascade wave \<Rightarrow> f env cfg (rest @ wave) d' | Step_Stop \<Rightarrow> Some (d', Ok Flow_Done)))) = Some y"
    show "ext d (fst y)"
    proof (cases queue)
      case (Cons plan rest)
      obtain d1 s where p: "process_one env cfg plan d = (d1, s)" by fastforce
      have "ext d d1" by (rule emits_ext [OF emits_process_one p])
      then show ?thesis using eq Cons p
        by (auto split: sum.splits Step.splits dest!: IH elim: prefix_order.trans)
    qed (use eq in auto)
  qed
  then show ?thesis by simp
qed

lemma ext_advance_into_flow:
  "advance_into_flow env cfg t outcome d = Some (d', r) \<Longrightarrow>
   \<exists>ans ys. dr_log d' = dr_log d @ KAdvance (dr_run_id d) t outcome ans # ys"
proof -
  assume a: "advance_into_flow env cfg t outcome d = Some (d', r)"
  obtain d1 s where p: "advance env cfg t outcome d = (d1, s)" by fastforce
  then obtain ans ys where l: "dr_log d1 = dr_log d @ KAdvance (dr_run_id d) t outcome ans # ys" using advance_first by blast
  have "ext d1 d'" using a p by (auto simp: advance_into_flow_def split: sum.splits Advanced.splits dest: ext_process_wave)
  then show ?thesis using l by (auto simp: prefix_def)
qed

subsection \<open>Actions that do not start a round\<close>

definition ctl :: "Driver \<Rightarrow> 32 word \<times> string option" where
  "ctl d = (dr_round d, dr_last_fail_sig d)"

definition steady :: "'a act \<Rightarrow> bool" where
  "steady m \<longleftrightarrow> (\<forall>d. ctl (fst (m d)) = ctl d)"

lemma steadyD: "steady m \<Longrightarrow> m d = (d', r) \<Longrightarrow> ctl d' = ctl d"
  unfolding steady_def by (metis fst_conv)

lemma ctl_simps [simp]:
  "ctl (emit_fx x d) = ctl d" "ctl (d\<lparr>dr_fs := fs\<rparr>) = ctl d" "ctl (adopt j t d) = ctl d" "ctl (d\<lparr>dr_run_id := i\<rparr>) = ctl d"
  by (simp_all add: ctl_def emit_fx_def adopt_def)

lemma steady_dbind [intro]: "steady m \<Longrightarrow> (\<And>a. steady (f a)) \<Longrightarrow> steady (dbind m f)"
  by (auto simp: steady_def dbind_def split: prod.splits sum.splits) (metis fst_conv)+

lemma steady_basic [simp]:
  "steady (dret a)" "steady (dfail e)" "steady (store_read env cfg i)" "steady (store_write env cfg issue)"
  "steady (seal_act t (with_seal env cfg f fx))" "steady (spawn_job env cfg t agent)" "steady (dget g)"
  "steady (dmod (emit_fx x))" "steady (dmod (adopt j t))"
  by (simp_all add: steady_def dret_def dfail_def store_read_def store_write_def seal_act_def with_seal_def spawn_job_def
      Let_def dget_def dmod_def split: prod.splits)

lemma steady_read_issue [simp]: "steady (read_issue env cfg i reason)"
  unfolding read_issue_def by (auto split: option.splits)

lemma steady_dep_contexts [simp]: "steady (dep_contexts env cfg t deps)"
  by (induction deps) (auto intro!: steady_dbind split: option.splits)

lemma steady_ops [simp]:
  "steady (spawn_one env cfg plan)" "steady (absorb env cfg t ev)" "steady (launch_oracle env cfg t)"
  "steady (reset_issue_for_replan env cfg t)"
  unfolding spawn_one_def absorb_def launch_oracle_def reset_issue_for_replan_def
  by (auto intro!: steady_dbind split: option.splits)

lemma steady_reset_all [simp]: "steady (reset_all env cfg ids)"
  by (induction ids) (auto intro!: steady_dbind)

lemma ctl_runs [simp]:
  "ctl (close_run env cfg reason d) = ctl d" "ctl (restamp_run env cfg d) = ctl d" "ctl (seal_replan env cfg x d) = ctl d"
  "ctl (notify_kernel_converged env d) = ctl d" "ctl (abort_kernel d) = ctl d"
  by (auto simp: close_run_def restamp_run_def seal_replan_def with_seal_def notify_kernel_converged_def abort_kernel_def
      split: sum.splits option.splits prod.splits)

lemma steady_rerun_all: "replan_rerun_all env cfg d = (d', r) \<Longrightarrow> ctl d' = ctl d"
proof -
  have "steady (dbind (reset_all env cfg ids) (\<lambda>_. dret w))" for ids w by auto
  note * = steadyD [OF this]
  assume "replan_rerun_all env cfg d = (d', r)"
  then show ?thesis
    by (auto simp: replan_rerun_all_def Let_def split: sum.splits DispatchAuthorizeResponse.splits dest!: *)
qed

lemma replan_round:
  assumes "replan env cfg tail d = (d', Fleet_Replan wave)"
  shows "dr_round d' = dr_round d + 1 \<and> dr_last_fail_sig d' = dr_last_fail_sig d"
proof -
  have r: "ctl d2 = ctl d" if "replan_rerun_all env cfg (seal_replan env cfg x (emit_fx y d)) = (d2, q)" for x y d2 q
    using steady_rerun_all [OF that] by simp
  have s: "ctl d2 = ctl d" if "reset_all env cfg ids (seal_replan env cfg x (emit_fx y d)) = (d2, q)" for x y d2 q ids
    using steadyD [OF steady_reset_all that] by simp
  show ?thesis
    using assms unfolding replan_def Let_def
    by (auto simp: next_round_def ctl_def split: sum.splits DispatchFinalizeResponse.splits prod.splits dest!: r s)
qed

end
