(* ===== verification/Dispatch_Correct.thy ===== *)
theory Dispatch_Correct
  imports Dispatch_Effects
begin

section \<open>What the driver of a run guarantees\<close>

text \<open>
  The order of effects when responses and verdicts are handled, the bounds on attempts and rounds, and what starting,
  tearing down and resuming a run leave on disk.
\<close>

section \<open>A concrete environment\<close>

text \<open>For the instances of the theorems: one task \<^verbatim>\<open>t\<close> whose job is 7, a kernel that completes the run, an
  oracle \<^verbatim>\<open>make\<close> with two attempts.\<close>

definition met :: "Status \<Rightarrow> IssueMeta" where
  "met s = (sample_meta s)\<lparr>im_response_sha := Some ''s'', im_seal := Some ''h''\<rparr>"

definition judged_meta :: "Status \<Rightarrow> IssueMeta" where
  "judged_meta s = (met s)\<lparr>im_verdict_seal := Some ''h''\<rparr>"

definition sample_run :: "string option \<Rightarrow> RunMeta" where
  "sample_run c = \<lparr>rm_run_id = ''k'', rm_plan_hash = ''p'', rm_strategy = ''dag'', rm_started = ''now'', rm_closed = c\<rparr>"

definition sample_out :: DispatchSealRecord where
  "sample_out = output_record (ds_table []) ''t'' ''a'' (Some ''s'') ''/out'' ''now'' zero_hash"

definition sample_env :: DEnv where
  "sample_env =
     \<lparr>e_ix = issue_table [sample_meta Spawned, met Done, met Verifying, judged_meta Verified, judged_meta Rejected, judged_meta Verifying,
          (judged_meta Spawned)\<lparr>im_attempt := 1, im_job_id := Some 8, im_response_sha := None\<rparr>, sample_meta Failed]
        [sample_run None, sample_run (Some ''converged''), sample_run (Some ''x: kernel advance: down'')],
      e_dx = (ds_table [])\<lparr>dx_print := (\<lambda>_. Ok ''0''), dx_parse := (\<lambda>_. Ok sample_out)\<rparr>,
      e_plan_json = \<lambda>_. ''{}'', e_io = \<lambda>_. io_fine, e_now = \<lambda>_. ''now'', e_authorize = \<lambda>_ _. Err ''down'',
      e_advance = \<lambda>_ _ _ _. Ok (RunCompleted 1), e_finalize = \<lambda>_ _ passed _ _. Ok (if passed then Converged else Replan [] []),
      e_spawn = \<lambda>_ _. Ok 8, e_latest = \<lambda>_ _. None, e_jobs = \<lambda>_. [],
      e_process = \<lambda>_ cmd _. Ok (Some (if cmd = ''make'' then 2 else 0), ''boom'', [])\<rparr>"

definition sample_cfg :: DriverConfig where
  "sample_cfg =
     \<lparr>dc_rfc_id = ''r'', dc_project = ''p'', dc_rfc_dir = [''r''], dc_working_dir = None,
      dc_accept_specs = [''t'' \<mapsto> \<lparr>as_command = ''make'', as_max_attempts = 2\<rparr>], dc_global_accept = Some ''make'',
      dc_max_replans = 1, dc_authorize_req = \<lparr>ar_strategy = ''dag'', ar_max_inflight = 1, ar_on_task_fail = ''abort'', ar_tasks = []\<rparr>\<rparr>"

definition sample_driver :: "IssueMeta \<Rightarrow> Driver" where
  "sample_driver m =
     (driver_new ''k'' (fst (issue_write (e_ix sample_env) io_fine (issue_store_new [''r''])
        \<lparr>is_meta = m, is_prompt = ''do'', is_response = None\<rparr> [[''out''] \<mapsto> ''fine'', [''r'', ''issues'', RUN_FILE] \<mapsto> ''0''])) [])
     \<lparr>dr_job_to_task := [7 \<mapsto> ''t'']\<rparr>"

definition sample_event :: FinalResponseEvent where
  "sample_event =
     \<lparr>fe_job_id = 7, fe_agent = ''a'', fe_session_id = None, fe_response_path = Some [''out''], fe_response_sha256 = Some ''s'',
      fe_response_bytes = 4, fe_response_preview = ''fine''\<rparr>"

definition sample_issue :: "IssueMeta \<Rightarrow> Issue" where
  "sample_issue m = \<lparr>is_meta = m, is_prompt = ''do'', is_response = None\<rparr>"

lemma sample_read:
  "m \<in> {sample_meta Spawned, met Done, met Verifying} \<Longrightarrow>
   issue_read (e_ix sample_env) (e_io sample_env (dr_log (sample_driver m))) (driver_store sample_cfg) (dr_fs (sample_driver m)) ''t'' =
     Ok (Some (sample_issue m))"
proof -
  have "issue_read (e_ix sample_env) (e_io sample_env (dr_log (sample_driver m))) (driver_store sample_cfg) (dr_fs (sample_driver m)) ''t'' =
     Ok (Some (sample_issue m))" if "m = sample_meta Spawned" for m unfolding that by code_simp
  moreover have "issue_read (e_ix sample_env) (e_io sample_env (dr_log (sample_driver m))) (driver_store sample_cfg) (dr_fs (sample_driver m)) ''t'' =
     Ok (Some (sample_issue m))" if "m = met Done" for m unfolding that by code_simp
  moreover have "issue_read (e_ix sample_env) (e_io sample_env (dr_log (sample_driver m))) (driver_store sample_cfg) (dr_fs (sample_driver m)) ''t'' =
     Ok (Some (sample_issue m))" if "m = met Verifying" for m unfolding that by code_simp
  moreover assume "m \<in> {sample_meta Spawned, met Done, met Verifying}"
  ultimately show ?thesis by blast
qed

definition reports :: "DEffect \<Rightarrow> bool" where
  "reports x \<longleftrightarrow> (\<exists>run t outcome ans. x = KAdvance run t outcome ans)"

lemma reports_simps [simp]:
  "reports (KAdvance run t outcome ans)" "\<not> reports (WroteIssue i b)" "\<not> reports (SealedOutput t b)"
  "\<not> reports (OracleLaunched t n)" "\<not> reports (SpawnedJob t req spawned)" "\<not> reports (SealedVerdict t n p b)"
  by (simp_all add: reports_def)

lemma absorb_outcome:
  assumes "absorb env cfg t ev d = (d', Ok outcome)" and "fe_response_path ev = Some p"
  shows "\<exists>out. outcome = TaskDone out"
  using assms by (auto simp: absorb_def dret_def elim!: dbind_cases)

lemma launch_oracle_last:
  assumes "launch_oracle env cfg t d = (d', Ok ())" and "dc_accept_specs cfg t = Some spec"
  shows "\<exists>n. dr_log d' \<noteq> [] \<and> last (dr_log d') = OracleLaunched t n"
  using assms by (auto simp: launch_oracle_def dmod_def emit_fx_def elim!: dbind_cases)

text \<open>C5. No outcome without a verdict: when the agent of a task that has an acceptance oracle produced a response, handling it
  reports nothing to the kernel. The handler returns; if it succeeds, its last effect is the start of the oracle, and the actor
  goes on to wait for the verdict.\<close>

theorem oracle_gates_report:
  assumes "dc_accept_specs cfg t = Some spec" and "fe_response_path ev = Some p"
  shows "\<exists>d' r xs. handle_response env cfg t ev d = Some (d', r) \<and> dr_log d' = dr_log d @ xs \<and>
    \<not> list_ex reports xs \<and> (\<forall>flow. r = Ok flow \<longrightarrow> flow = Flow_Continue \<and> (\<exists>n. xs \<noteq> [] \<and> last xs = OracleLaunched t n))"
proof -
  obtain d1 r1 where a: "absorb env cfg t ev d = (d1, r1)" by fastforce
  have "emits (\<lambda>x. \<not> reports x) (absorb env cfg t ev)" by (rule emits_absorb) simp_all
  from emitsD [OF this a] obtain xs where xs: "dr_log d1 = dr_log d @ xs" "\<not> list_ex reports xs"
    by (auto simp: list_ex_iff list_all_iff)
  show ?thesis
  proof (cases r1)
    case (Inl e)
    then show ?thesis using a xs by (auto simp: handle_response_def then_flow_def)
  next
    case (Inr outcome)
    obtain d2 r2 where l: "launch_oracle env cfg t d1 = (d2, r2)" by fastforce
    have "emits (\<lambda>x. \<not> reports x) (launch_oracle env cfg t)" by (rule emits_launch_oracle) simp_all
    from emitsD [OF this l] obtain ys where ys: "dr_log d2 = dr_log d1 @ ys" "\<not> list_ex reports ys"
      by (auto simp: list_ex_iff list_all_iff)
    have "handle_response env cfg t ev d =
        Some (case r2 of Inl e \<Rightarrow> (d2, Err e) | Inr _ \<Rightarrow> (d2, Ok Flow_Continue))"
      using a Inr l absorb_outcome [OF a [unfolded Inr] assms(2)] assms(1)
      by (auto simp: handle_response_def then_flow_def flow_of_def split: sum.splits)
    moreover have "ys \<noteq> []  \<and> (\<exists>n. last ys = OracleLaunched t n)" if "r2 = Ok ()"
    proof -
      have "dr_log d2 \<noteq> dr_log d1" using l that assms(1) by (auto simp: launch_oracle_def dmod_def emit_fx_def store_write_def read_issue_def store_read_def dret_def dfail_def elim!: dbind_cases split: prod.splits option.splits)
      then have "ys \<noteq> []" using ys by auto
      then show ?thesis using launch_oracle_last [OF l [unfolded that] assms(1)] ys by auto
    qed
    ultimately show ?thesis using xs ys by (cases r2) auto
  qed
qed

theorem oracle_gates_report_witness:
  "\<exists>d' r. handle_response sample_env sample_cfg ''t'' sample_event (sample_driver (sample_meta Spawned)) = Some (d', r) \<and>
    \<not> list_ex reports (dr_log d') \<and> last (dr_log d') = OracleLaunched ''t'' 0"
proof -
  define d where "d = sample_driver (sample_meta Spawned)"
  have "dc_accept_specs sample_cfg ''t'' = Some \<lparr>as_command = ''make'', as_max_attempts = 2\<rparr>" "fe_response_path sample_event = Some [''out'']"
    by code_simp+
  from oracle_gates_report [OF this, of sample_env d] obtain d' r xs where
    h: "handle_response sample_env sample_cfg ''t'' sample_event d = Some (d', r)" "dr_log d' = dr_log d @ xs" "\<not> list_ex reports xs"
    by blast
  have "dr_log d = []" unfolding d_def by code_simp
  moreover have "map_option (\<lambda>(d, r). last (dr_log d)) (handle_response sample_env sample_cfg ''t'' sample_event d) = Some (OracleLaunched ''t'' 0)"
    unfolding d_def by code_simp
  ultimately have "\<not> list_ex reports (dr_log d')" "last (dr_log d') = OracleLaunched ''t'' 0" using h by simp_all
  then show ?thesis using h(1) unfolding d_def by blast
qed



lemma read_issue_Ok:
  "issue_read (e_ix env) (e_io env (dr_log d)) (driver_store cfg) (dr_fs d) t = Ok (Some issue) \<Longrightarrow>
   read_issue env cfg t reason d = (d, Ok issue)"
  by (simp add: read_issue_def dbind_def store_read_def dret_def)

lemma store_write_log:
  "store_write env cfg i d = (d', r) \<Longrightarrow> dr_log d' = dr_log d @ [WroteIssue i (is_ok r)] \<and> dr_run_id d' = dr_run_id d"
  by (auto simp: store_write_def emit_fx_def is_ok_def split: prod.splits sum.splits)

lemma seal_act_log:
  "seal_act t (with_seal env cfg f fx) d = (d', r) \<Longrightarrow> dr_log d' = dr_log d @ [fx (is_ok r)] \<and> dr_run_id d' = dr_run_id d"
  by (auto simp: seal_act_def with_seal_def emit_fx_def is_ok_def split: prod.splits sum.splits)

lemma spawn_job_log:
  "spawn_job env cfg t a d = (d', r) \<Longrightarrow> \<exists>req ans. dr_log d' = dr_log d @ [SpawnedJob t req ans]"
  by (auto simp: spawn_job_def emit_fx_def Let_def)

lemma then_flow_simps:
  "m d = (d1, Ok a) \<Longrightarrow> then_flow m f d = f a d1" "m d = (d1, Err e) \<Longrightarrow> then_flow m f d = Some (d1, Err e)"
  by (simp_all add: then_flow_def)

lemma store_then_advance:
  assumes "then_flow (store_write env cfg i) (\<lambda>_. advance_into_flow env cfg t outcome) d = Some (d', r)"
  shows "dr_log d' = dr_log d @ [WroteIssue i False] \<and> (\<exists>e. r = Err e) \<or>
    (\<exists>ans ys. dr_log d' = dr_log d @ WroteIssue i True # KAdvance (dr_run_id d) t outcome ans # ys)"
proof -
  obtain d1 r1 where w: "store_write env cfg i d = (d1, r1)" by fastforce
  show ?thesis
  proof (cases r1)
    case (Inl e)
    then have "d' = d1 \<and> r = Err e" using assms w by (simp add: then_flow_simps)
    then show ?thesis using store_write_log [OF w] Inl by simp
  next
    case (Inr u)
    then have "advance_into_flow env cfg t outcome d1 = Some (d', r)" using assms w by (simp add: then_flow_simps)
    from ext_advance_into_flow [OF this] show ?thesis using store_write_log [OF w] Inr by auto
  qed
qed

text \<open>Where a verdict on the current attempt leads: the seal comes first.\<close>

lemma handle_verdict_cases:
  assumes "dc_accept_specs cfg t = Some spec"
    and "issue_read (e_ix env) (e_io env (dr_log d)) (driver_store cfg) (dr_fs d) t = Ok (Some issue)"
    and "im_attempt (is_meta issue) = n" and "handle_verdict env cfg t n result d = Some (d', r)"
  obtains (unsealed) e where "dr_log d' = dr_log d @ [SealedVerdict t n (ac_passed result) False]" and "r = Err e"
    | (sealed) h d1 where "dr_log d1 = dr_log d @ [SealedVerdict t n (ac_passed result) True]" and "dr_run_id d1 = dr_run_id d"
      and "judge env cfg t spec issue n result h d1 = Some (d', r)"
proof -
  define m where "m = seal_act t (with_seal env cfg
     (\<lambda>cx io q ts. seal_verdict cx io q t (im_agent (is_meta issue)) n (as_command spec) (ac_exit_code result) (ac_passed result) ts)
     (SealedVerdict t n (ac_passed result)))"
  have hv: "then_flow m (judge env cfg t spec issue n result) d = Some (d', r)"
    using assms by (simp add: handle_verdict_def read_issue_Ok then_flow_simps m_def)
  obtain d1 r1 where s: "m d = (d1, r1)" by fastforce
  note log1 = seal_act_log [OF s [unfolded m_def]]
  show ?thesis
  proof (cases r1)
    case (Inl e)
    with hv s have "d' = d1" "r = Err e" by (simp_all add: then_flow_simps)
    then show ?thesis using log1 Inl by (intro unsealed [of e]) simp_all
  next
    case (Inr h)
    with hv s have "judge env cfg t spec issue n result h d1 = Some (d', r)" by (simp add: then_flow_simps)
    then show ?thesis using log1 Inr by (intro sealed [of d1 h]) simp_all
  qed
qed

text \<open>C6. A verdict is sealed before it counts: when the oracle passed, or failed on the last attempt, handling the verdict
  either fails with nothing reported, or seals it, then writes the issue as verified or rejected, and only then reports to
  the kernel, done exactly when the oracle passed.\<close>

theorem verdict_sealed_then_reported:
  assumes "dc_accept_specs cfg t = Some spec"
    and "issue_read (e_ix env) (e_io env (dr_log d)) (driver_store cfg) (dr_fs d) t = Ok (Some issue)"
    and "im_attempt (is_meta issue) = n" and "ac_passed result \<or> \<not> n + 1 < as_max_attempts spec"
    and "handle_verdict env cfg t n result d = Some (d', r)"
  shows "(\<exists>e xs. r = Err e \<and> dr_log d' = dr_log d @ xs \<and> \<not> list_ex reports xs) \<or>
    (\<exists>i outcome ans ys. im_status (is_meta i) = (if ac_passed result then Verified else Rejected) \<and>
       (case outcome of TaskDone _ \<Rightarrow> ac_passed result | TaskFailed _ \<Rightarrow> \<not> ac_passed result) \<and>
       dr_log d' = dr_log d @ [SealedVerdict t n (ac_passed result) True, WroteIssue i True,
         KAdvance (dr_run_id d) t outcome ans] @ ys)"
  using assms(1-3,5)
proof (cases rule: handle_verdict_cases)
  case (unsealed e)
  then show ?thesis by auto
next
  case (sealed h d1)
  let ?i = "issue\<lparr>is_meta := (is_meta issue)\<lparr>im_verdict_seal := Some h, im_status := if ac_passed result then Verified else Rejected\<rparr>\<rparr>"
  obtain outcome where o: "then_flow (store_write env cfg ?i) (\<lambda>_. advance_into_flow env cfg t outcome) d1 = Some (d', r)"
    "case outcome of TaskDone _ \<Rightarrow> ac_passed result | TaskFailed _ \<Rightarrow> \<not> ac_passed result"
    using sealed(3) assms(4) by (auto simp: judge_def Let_def done_outcome_def split: if_splits)
  have st: "im_status (is_meta ?i) = (if ac_passed result then Verified else Rejected)" by simp
  from store_then_advance [OF o(1)] show ?thesis
  proof
    assume "dr_log d' = dr_log d1 @ [WroteIssue ?i False] \<and> (\<exists>e. r = Err e)"
    then show ?thesis using sealed(1) by auto
  next
    assume "\<exists>ans ys. dr_log d' = dr_log d1 @ WroteIssue ?i True # KAdvance (dr_run_id d1) t outcome ans # ys"
    then obtain ans ys where "dr_log d' = dr_log d @ [SealedVerdict t n (ac_passed result) True, WroteIssue ?i True,
        KAdvance (dr_run_id d) t outcome ans] @ ys"
      using sealed(1,2) by auto
    with o(2) st show ?thesis by blast
  qed
qed

theorem verdict_sealed_then_reported_witness:
  "\<exists>d' i outcome ans ys. map_option fst (handle_verdict sample_env sample_cfg ''t'' 0 \<lparr>ac_exit_code = 0, ac_output_tail = []\<rparr> (sample_driver (met Verifying))) = Some d' \<and>
     im_status (is_meta i) = Verified \<and>
     dr_log d' = [SealedVerdict ''t'' 0 True True, WroteIssue i True, KAdvance ''k'' ''t'' outcome ans] @ ys"
proof -
  let ?res = "\<lparr>ac_exit_code = 0, ac_output_tail = []\<rparr>" and ?d = "sample_driver (met Verifying)"
  have a: "dc_accept_specs sample_cfg ''t'' = Some \<lparr>as_command = ''make'', as_max_attempts = 2\<rparr>"
    "im_attempt (is_meta (sample_issue (met Verifying))) = 0" "ac_passed ?res" "dr_log ?d = []" "dr_run_id ?d = ''k''" by code_simp+
  have k: "map_option (is_ok \<circ> snd) (handle_verdict sample_env sample_cfg ''t'' 0 ?res ?d) = Some True"
    by code_simp
  then obtain d' r where h: "handle_verdict sample_env sample_cfg ''t'' 0 ?res ?d = Some (d', r)" and ok: "is_ok r"
    by (auto simp: map_option_case split: option.splits)
  have "issue_read (e_ix sample_env) (e_io sample_env (dr_log ?d)) (driver_store sample_cfg) (dr_fs ?d) ''t'' = Ok (Some (sample_issue (met Verifying)))"
    by (rule sample_read) simp
  from verdict_sealed_then_reported [OF a(1) this a(2) _ h] a ok show ?thesis using h by (auto simp: is_ok_iff)
qed


text \<open>A verdict on an attempt that is no longer the current one has no effect at all.\<close>

lemma stale_verdict_ignored:
  assumes "issue_read (e_ix env) (e_io env (dr_log d)) (driver_store cfg) (dr_fs d) t = Ok (Some issue)"
    and "im_attempt (is_meta issue) \<noteq> n"
  shows "handle_verdict env cfg t n result d = Some (d, Ok Flow_Continue)"
  using assms by (cases "dc_accept_specs cfg t") (simp_all add: handle_verdict_def read_issue_Ok then_flow_simps)

section \<open>Bounds on attempts and rounds\<close>

lemma no_wrap: "n < m \<Longrightarrow> n + 1 < m \<Longrightarrow> unat (n + 1) = unat n + 1" for n m :: "32 word"
proof -
  assume "n < m"
  then have "n \<noteq> - 1" using word_order.extremum_strict [of m] by auto
  then have "1 + n \<noteq> 0" by (simp add: add_eq_0_iff add.commute)
  then show ?thesis using unatSuc [of n] by (simp add: add.commute)
qed

text \<open>Self-repair is bounded: a failed verdict on attempt n with attempts left reports nothing to the kernel; if handling
  it succeeds, the verdict is sealed, one new job is started, and the issue is back to spawned with attempt n + 1, which is
  below the limit and has not wrapped around, and the new job is routed to the task.\<close>

lemma retry_bounded:
  assumes "dc_accept_specs cfg t = Some spec"
    and "issue_read (e_ix env) (e_io env (dr_log d)) (driver_store cfg) (dr_fs d) t = Ok (Some issue)"
    and "im_attempt (is_meta issue) = n" and "n < as_max_attempts spec"
    and "\<not> ac_passed result" and "n + 1 < as_max_attempts spec"
    and "handle_verdict env cfg t n result d = Some (d', r)"
  shows "\<exists>xs. dr_log d' = dr_log d @ xs \<and> \<not> list_ex reports xs \<and>
    (case r of
       Inl e \<Rightarrow> True
     | Inr flow \<Rightarrow> flow = Flow_Continue \<and>
        (\<exists>req job i i'. xs = [SealedVerdict t n False True, WroteIssue i True, SpawnedJob t req (Ok job), WroteIssue i' True] \<and>
           im_status (is_meta i') = Spawned \<and> unat (im_attempt (is_meta i')) = unat n + 1 \<and>
           im_attempt (is_meta i') < as_max_attempts spec \<and> dr_job_to_task d' job = Some t))"
  using assms(1-3,7)
proof (cases rule: handle_verdict_cases)
  case (unsealed e)
  then show ?thesis by auto
next
  case (sealed h d1)
  let ?i = "issue\<lparr>is_meta := (is_meta issue)\<lparr>im_verdict_seal := Some h\<rparr>\<rparr>"
  define m where "m = dbind (store_write env cfg ?i) (\<lambda>_. retry_task env cfg t ?i (as_command spec) (ac_output_tail result))"
  have j: "flow_of m d1 = Some (d', r)" using sealed(3) assms(5,6) by (simp add: judge_def Let_def m_def)
  obtain r2 where m: "m d1 = (d', r2)"
    using j by (auto simp: flow_of_def then_flow_def split: prod.splits sum.splits)
  have "emits (\<lambda>x. \<not> reports x) m" unfolding m_def by (intro emits_dbind emits_store_write emits_retry_task) simp_all
  from emitsD [OF this m] obtain ys where ys: "dr_log d' = dr_log d1 @ ys" "\<not> list_ex reports ys"
    by (auto simp: list_ex_iff list_all_iff)
  show ?thesis
  proof (cases r2)
    case (Inl e)
    then have "\<exists>e. r = Err e" using j m by (auto simp: flow_of_def then_flow_simps)
    then show ?thesis using ys sealed(1) by auto
  next
    case (Inr u)
    then have r: "r = Ok Flow_Continue" using j m by (auto simp: flow_of_def then_flow_simps)
    obtain d2 u2 where w: "store_write env cfg ?i d1 = (d2, Ok u2)"
      and rt: "retry_task env cfg t ?i (as_command spec) (ac_output_tail result) d2 = (d', Ok u)"
      using m Inr unfolding m_def by (auto elim: dbind_cases)
    define i' where "i' job = ?i\<lparr>is_meta := (is_meta ?i)\<lparr>im_attempt := n + 1, im_status := Spawned,
        im_job_id := Some job, im_response_sha := None\<rparr>,
      is_prompt := compose_retry_body (is_prompt ?i) (as_command spec) (ac_output_tail result) (n + 1), is_response := None\<rparr>" for job
    obtain job d3 d4 u4 where sp: "spawn_job env cfg t (im_agent (is_meta issue)) d2 = (d3, Ok job)"
      and w4: "store_write env cfg (i' job) d3 = (d4, Ok u4)" and d': "d' = adopt job t d4"
      using rt assms(3) unfolding retry_task_def Let_def i'_def by (auto simp: dmod_def elim!: dbind_cases)
    let ?i' = "i' job"
    obtain req where log3: "dr_log d3 = dr_log d2 @ [SpawnedJob t req (Ok job)]"
      using sp by (auto simp: spawn_job_def emit_fx_def Let_def map_err_def split: sum.splits)
    have "dr_log d' = dr_log d @ [SealedVerdict t n False True, WroteIssue ?i True, SpawnedJob t req (Ok job), WroteIssue ?i' True]"
      using store_write_log [OF w] store_write_log [OF w4] log3 sealed(1) assms(5) by (simp add: d' adopt_def)
    moreover have "dr_job_to_task d' job = Some t" by (simp add: d' adopt_def)
    moreover have "unat (im_attempt (is_meta ?i')) = unat n + 1" using no_wrap [OF assms(4,6)] by (simp add: i'_def)
    moreover have "im_status (is_meta ?i') = Spawned" "im_attempt (is_meta ?i') = n + 1" by (simp_all add: i'_def)
    ultimately show ?thesis using assms(6) r
      by (intro exI [of _ "[SealedVerdict t n False True, WroteIssue ?i True, SpawnedJob t req (Ok job), WroteIssue ?i' True]"]) auto
  qed
qed

text \<open>C38. Re-planning is bounded: the driver starts another round only while the number of rounds is below the configured
  limit, the round counter grows by one without wrapping around and stays within the limit, and the failure differs
  from the one of the round before.\<close>

theorem rounds_bounded:
  assumes "finalize_round env cfg d = (d', Fleet_Replan wave)"
  shows "unat (dr_round d') = unat (dr_round d) + 1 \<and> dr_round d' \<le> dc_max_replans cfg \<and>
    dr_last_fail_sig d' \<noteq> dr_last_fail_sig d"
proof (cases "dc_global_accept cfg")
  case None
  then show ?thesis using assms by (simp add: finalize_round_def)
next
  case (Some cmd)
  define res where "res = run_acceptance (e_process env (dr_log d) cmd (dc_working_dir cfg))"
  define d2 where "d2 = fst (with_seal env cfg
      (\<lambda>cx io q ts. seal_global_verdict cx io q (dr_round d) cmd (ac_exit_code res) (ac_passed res) ts)
      (SealedGlobal (dr_round d) (ac_passed res)) (emit_fx (GlobalOracle cmd) d))"
  have d2: "dr_round d2 = dr_round d" "dr_last_fail_sig d2 = dr_last_fail_sig d"
    by (simp_all add: d2_def with_seal_def emit_fx_def split: prod.splits)
  let ?sig = "failure_signature (e_dx env) (ac_output_tail res)"
  have g: "\<not> dc_max_replans cfg \<le> dr_round d2" "dr_last_fail_sig d2 \<noteq> Some ?sig"
    and r: "replan env cfg (ac_output_tail res) (d2\<lparr>dr_last_fail_sig := Some ?sig\<rparr>) = (d', Fleet_Replan wave)"
    using assms unfolding finalize_round_def Some res_def [symmetric] Let_def d2_def [symmetric] option.case
    by (auto split: if_splits)
  have lt: "dr_round d < dc_max_replans cfg" using g(1) d2(1) by simp
  then have "dr_round d + 1 \<le> dc_max_replans cfg" by (simp add: inc_le)
  moreover have "unat (dr_round d + 1) = unat (dr_round d) + 1"
    using lt by (metis Suc_eq_plus1 add.commute less_le_not_le unatSuc word_order.extremum add_eq_0_iff)
  ultimately show ?thesis using replan_round [OF r] g(2) d2 by auto
qed

theorem rounds_bounded_witness:
  "\<exists>d' wave. finalize_round sample_env sample_cfg (sample_driver (met Done)) = (d', Fleet_Replan wave) \<and>
     unat (dr_round d') = 1 \<and> dr_round d' \<le> 1"
proof -
  have "case finalize_round sample_env sample_cfg (sample_driver (met Done)) of (d', step) \<Rightarrow> step = Fleet_Replan []" by code_simp
  then obtain d' where f: "finalize_round sample_env sample_cfg (sample_driver (met Done)) = (d', Fleet_Replan [])" by (auto split: prod.splits)
  moreover have "dr_round (sample_driver (met Done)) = 0" "dc_max_replans sample_cfg = 1" by code_simp+
  ultimately show ?thesis using rounds_bounded [OF f] by auto
qed




section \<open>Outputs are sealed before they count\<close>

abbreviation seal_file :: "DriverConfig \<Rightarrow> path" where
  "seal_file cfg \<equiv> dispatch_seal_path (dc_rfc_dir cfg)"

lemma seal_path_apart:
  assumes "task_id_ok j"
  shows "issue_path (driver_store cfg) j \<noteq> seal_file cfg"
    and "with_extension (issue_path (driver_store cfg) j) ''tmp'' \<noteq> seal_file cfg"
  using assms by (simp_all add: issue_tmp) (simp_all add: issue_path_plain driver_store_def issue_store_new_def dispatch_seal_path_def)

lemma store_write_frame:
  assumes "store_write env cfg i d = (d', r)" and "task_id_ok (im_id (is_meta i))"
  shows "dr_fs d' (seal_file cfg) = dr_fs d (seal_file cfg)"
proof -
  obtain r' where "issue_write (e_ix env) (e_io env (dr_log d)) (driver_store cfg) i (dr_fs d) = (dr_fs d', r')"
    using assms(1) by (auto simp: store_write_def emit_fx_def split: prod.splits)
  from issue_write_cases [OF this assms(2)] seal_path_apart [OF assms(2), of cfg] show ?thesis by (auto simp: fun_eq_iff)
qed

lemma seal_act_files:
  assumes "seal_act t (with_seal env cfg (\<lambda>cx io q ts. seal_on_tip cx io q (build cx ts)) fx) d = (d', r)"
  shows "\<exists>r'. seal_on_tip (e_dx env) (e_io env (dr_log d)) (seal_file cfg) (build (e_dx env) (e_now env (dr_log d))) (dr_fs d) =
      (dr_fs d', r') \<and> r = map_err (DE_Seal t) r'"
  using assms by (auto simp: seal_act_def with_seal_def emit_fx_def split: prod.splits)

text \<open>C11. An output is sealed before its task counts as done: folding a captured response into a task's issue first appends
  an output record for this task, agent and digest to the chain, which keeps verifying, and only then writes the issue as done, with the hash
  of that record in it. If it fails with the seal, no issue file has changed.\<close>

theorem output_sealed_before_done:
  assumes "holds_records (e_dx env) (dr_fs d) (seal_file cfg) rs" and "ds_verify_loop (e_dx env) zero_hash rs"
    and "issue_read (e_ix env) (e_io env (dr_log d)) (driver_store cfg) (dr_fs d) t = Ok (Some issue)"
    and "task_id_ok (im_id (is_meta issue))" and "fe_response_path ev = Some q"
    and "r = on_tip (output_record (e_dx env) t (im_agent (is_meta issue)) (fe_response_sha256 ev) (path_string q) (e_now env (dr_log d))) rs"
    and "ds_print_ok (e_dx env) r" and "absorb env cfg t ev d = (d', res)"
  shows "case res of
      Inr outcome \<Rightarrow> holds_records (e_dx env) (dr_fs d') (seal_file cfg) (rs @ [r]) \<and> ds_verify_loop (e_dx env) zero_hash (rs @ [r]) \<and>
        (\<exists>i. dr_log d' = dr_log d @ [SealedOutput t True, WroteIssue i True] \<and> im_status (is_meta i) = Done \<and>
           im_seal (is_meta i) = Some (ds_hash r) \<and> im_response_sha (is_meta i) = fe_response_sha256 ev)
    | Inl (DE_Seal _ _) \<Rightarrow> \<forall>j. task_id_ok j \<longrightarrow> dr_fs d' (issue_path (driver_store cfg) j) = dr_fs d (issue_path (driver_store cfg) j)
    | Inl _ \<Rightarrow> True"
proof -
  define build where "build cx ts = output_record cx t (im_agent (is_meta issue)) (fe_response_sha256 ev) (path_string q) ts" for cx ts
  define body where "body = read_response (e_io env (dr_log d)) (dr_fs d) q"
  define m where "m = seal_act t (with_seal env cfg
      (\<lambda>cx io f ts. seal_output cx io f t (im_agent (is_meta issue)) (fe_response_sha256 ev) (path_string q) ts) (SealedOutput t))"
  define fin where "fin h = issue\<lparr>is_meta := (is_meta issue)\<lparr>im_status := Done, im_response_sha := fe_response_sha256 ev, im_seal := Some h\<rparr>,
      is_response := Some body\<rparr>" for h
  define outcome where "outcome = TaskDone \<lparr>to_path = path_string q, to_bytes = fe_response_bytes ev, to_via_mcp = False, to_elapsed_ms = 0\<rparr>"
  have so: "(\<lambda>cx io f ts. seal_output cx io f t (im_agent (is_meta issue)) (fe_response_sha256 ev) (path_string q) ts) =
      (\<lambda>cx io f ts. seal_on_tip cx io f (build cx ts))"
    by (simp add: fun_eq_iff seal_output_def build_def)
  have m: "m = seal_act t (with_seal env cfg (\<lambda>cx io f ts. seal_on_tip cx io f (build cx ts)) (SealedOutput t))"
    unfolding m_def so ..
  have ab: "dbind m (\<lambda>h. dbind (store_write env cfg (fin h)) (\<lambda>_. dret outcome)) d = (d', res)"
    using assms(3,5,8) unfolding absorb_def m_def fin_def outcome_def
    by (simp add: dbind_simps(1) [OF read_issue_Ok] dbind_def [of "dget _"] dget_def body_def)
  obtain d1 r1 where s: "m d = (d1, r1)" by fastforce
  obtain r1' where sf: "seal_on_tip (e_dx env) (e_io env (dr_log d)) (seal_file cfg) (build (e_dx env) (e_now env (dr_log d))) (dr_fs d) = (dr_fs d1, r1')"
    and r1: "r1 = map_err (DE_Seal t) r1'"
    using seal_act_files [OF s [unfolded m]] by blast
  have r: "r = on_tip (build (e_dx env) (e_now env (dr_log d))) rs" using assms(6) by (simp add: build_def)
  show ?thesis
  proof (cases r1')
    case (Inl e)
    then have "res = Err (DE_Seal t e)" "d' = d1" using ab s r1 by (simp_all add: dbind_simps)
    moreover have "dr_fs d1 (issue_path (driver_store cfg) j) = dr_fs d (issue_path (driver_store cfg) j)" if "task_id_ok j" for j
      using seal_on_tip_frame [of "issue_path (driver_store cfg) j" "seal_file cfg" "e_dx env"] sf seal_path_apart(1) [OF that, of cfg]
      by (metis fst_conv)
    ultimately show ?thesis by simp
  next
    case (Inr h)
    note sealed = seal_on_tip_Ok [OF assms(1) sf [unfolded Inr] assms(7) [unfolded r], folded r]
    have b: "dbind (store_write env cfg (fin h)) (\<lambda>_. dret outcome) d1 = (d', res)" using ab s r1 Inr by (simp add: dbind_simps)
    obtain d2 r2 where w: "store_write env cfg (fin h) d1 = (d2, r2)" by fastforce
    show ?thesis
    proof (cases r2)
      case (Inl e)
      then have "res = Err e" using b w by (simp add: dbind_simps)
      moreover have "\<exists>x. e = DE_Issue x" using w Inl by (auto simp: store_write_def map_err_def split: prod.splits sum.splits)
      ultimately show ?thesis by auto
    next
      case (Inr u)
      then have res: "res = Ok outcome" "d' = d2" using b w by (simp_all add: dbind_simps dret_def)
      have "dr_fs d2 (seal_file cfg) = dr_fs d1 (seal_file cfg)" using store_write_frame [OF w] assms(4) by (simp add: fin_def)
      then have "holds_records (e_dx env) (dr_fs d2) (seal_file cfg) (rs @ [r])" using sealed(1) by (simp add: holds_records_def)
      moreover have "ds_verify_loop (e_dx env) zero_hash (rs @ [r])"
        using valid_on_tip [OF _ assms(2)] unfolding r build_def by blast
      moreover have "dr_log d2 = dr_log d @ [SealedOutput t True, WroteIssue (fin h) True]"
        using store_write_log [OF w] seal_act_log [OF s [unfolded m]] r1 \<open>r1' = Ok h\<close> Inr by simp
      ultimately show ?thesis using res sealed(2) by (auto simp: fin_def)
    qed
  qed
qed

theorem output_sealed_before_done_witness:
  "\<exists>d' outcome i. absorb sample_env sample_cfg ''t'' sample_event (sample_driver (sample_meta Spawned)) = (d', Ok outcome) \<and>
     holds_records (e_dx sample_env) (dr_fs d') (seal_file sample_cfg) [sample_out] \<and>
     dr_log d' = [SealedOutput ''t'' True, WroteIssue i True] \<and> im_seal (is_meta i) = Some (ds_hash sample_out)"
proof -
  define d where "d = sample_driver (sample_meta Spawned)"
  define i where "i = sample_issue (sample_meta Spawned)"
  have 1: "holds_records (e_dx sample_env) (dr_fs d) (seal_file sample_cfg) []" "ds_verify_loop (e_dx sample_env) zero_hash []"
    unfolding d_def by code_simp+
  have 2: "issue_read (e_ix sample_env) (e_io sample_env (dr_log d)) (driver_store sample_cfg) (dr_fs d) ''t'' = Ok (Some i)"
    unfolding d_def i_def by (rule sample_read) simp
  have 3: "task_id_ok (im_id (is_meta i))" "fe_response_path sample_event = Some [''out'']"
    "sample_out = on_tip (output_record (e_dx sample_env) ''t'' (im_agent (is_meta i)) (fe_response_sha256 sample_event)
       (path_string [''out'']) (e_now sample_env (dr_log d))) []"
    unfolding i_def d_def by code_simp+
  have "trim ''0'' \<noteq> [] \<and> NL \<notin> set ''0'' \<and> \<not> suffix [CHR 0x0D] ''0''" by code_simp
  then have 4: "ds_print_ok (e_dx sample_env) sample_out" by (simp add: ds_print_ok_def sample_env_def)
  have l: "dr_log d = []" unfolding d_def by code_simp
  obtain d' r where a: "absorb sample_env sample_cfg ''t'' sample_event d = (d', r)" by fastforce
  have "is_ok (snd (absorb sample_env sample_cfg ''t'' sample_event d))" unfolding d_def by code_simp
  then obtain outcome where "r = Ok outcome" using a by (auto simp: is_ok_iff)
  with output_sealed_before_done [OF 1 2 3 4 a] a l show ?thesis unfolding d_def by auto
qed

section \<open>Failure and restart\<close>

lemma write_run_Ok:
  assumes "write_run cx io st meta fs = (fs', Ok ())"
  shows "\<exists>body. ix_print_run cx meta = Ok body \<and> fs' (st_dir st @ [RUN_FILE]) = Some body"
proof -
  have "with_extension (st_dir st @ [RUN_FILE]) ''tmp'' \<noteq> st_dir st @ [RUN_FILE]"
    using with_extension_ext [of "''toml''" "''.run''" "st_dir st" "''tmp''"] by (simp add: RUN_FILE_def)
  moreover obtain body where "ix_print_run cx meta = Ok body" "atomic_write io (st_dir st @ [RUN_FILE]) body fs = (fs', Ok ())"
    using assms by (auto simp: write_run_def split: sum.splits)
  ultimately show ?thesis using atomic_write_cases [of io "st_dir st @ [RUN_FILE]" body fs fs' "Ok ()"] by simp
qed

text \<open>C39. An error ends the run for good: when handling a message fails, the actor closes the run file with the reason, tells
  the kernel to abort as its last effect, and stops. If the run file was open and could be written, then
  resuming this RFC from the files left behind is refused as already closed, without a call to the kernel.\<close>

theorem error_closes_run:
  assumes "settle env cfg what (d, Err e) = (d', flow)"
    and "read_run (e_ix env) (e_io env (dr_log d)) (driver_store cfg) (dr_fs d) = Ok (Some meta)" and "rm_closed meta = None"
    and "closed = meta\<lparr>rm_closed := Some (what @ driver_error_text e)\<rparr>"
    and "snd (write_run (e_ix env) (e_io env (dr_log d)) (driver_store cfg) closed (dr_fs d)) = Ok ()"
    and "\<And>body. ix_print_run (e_ix env) closed = Ok body \<Longrightarrow> ix_parse_run (e_ix env) body = Ok closed"
    and "rq_rfc_dir req = dc_rfc_dir cfg" and "e_ix env' = e_ix env" and "e_io env' [] = io_fine"
  shows "flow = Flow_Done \<and> last (dr_log d') = KAbort (dr_run_id d) \<and>
    (\<exists>d0. resume_run env' resolver req (dr_fs d') = (d0, AlreadyClosed (what @ driver_error_text e)) \<and> dr_log d0 = [] \<and> dr_fs d0 = dr_fs d')"
proof -
  obtain fs' where w: "write_run (e_ix env) (e_io env (dr_log d)) (driver_store cfg) closed (dr_fs d) = (fs', Ok ())"
    using assms(5) by (metis prod.collapse)
  have d': "dr_fs d' = fs'" "flow = Flow_Done" "last (dr_log d') = KAbort (dr_run_id d)"
    using assms(1-3) w unfolding assms(4)
    by (auto simp: settle_def teardown_def close_run_def abort_kernel_def emit_fx_def)
  obtain body where "ix_print_run (e_ix env) closed = Ok body" "fs' (st_dir (driver_store cfg) @ [RUN_FILE]) = Some body"
    using write_run_Ok [OF w] by blast
  then have "read_run (e_ix env') (e_io env' []) (issue_store_new (rq_rfc_dir req)) (dr_fs d') = Ok (Some closed)"
    using assms(6-9) d'(1) by (simp add: read_run_def io_fine_def driver_store_def)
  then show ?thesis using d' assms(4) by (simp add: resume_run_def Let_def driver_new_def)
qed

definition sample_req :: "DispatchTaskSpec list \<Rightarrow> DispatchRequest" where
  "sample_req ts =
     \<lparr>rq_rfc_id = ''r'', rq_project = ''p'', rq_rfc_dir = [''r''], rq_working_dir = None, rq_strategy = ''dag'', rq_max_inflight = 1,
      rq_on_task_fail = ''abort'', rq_global_accept = None, rq_max_replans = 0, rq_tasks = ts\<rparr>"

theorem error_closes_run_witness:
  "\<exists>d0. resume_run sample_env (\<lambda>_. None) (sample_req [])
     (dr_fs (fst (settle sample_env sample_cfg ''x: '' (sample_driver (met Done), Err (DE_Kernel ''down''))))) =
     (d0, AlreadyClosed (''x: '' @ driver_error_text (DE_Kernel ''down'')))"
proof -
  define d where "d = sample_driver (met Done)"
  obtain d' flow where s: "settle sample_env sample_cfg ''x: '' (d, Err (DE_Kernel ''down'')) = (d', flow)" by fastforce
  have 1: "read_run (e_ix sample_env) (e_io sample_env (dr_log d)) (driver_store sample_cfg) (dr_fs d) = Ok (Some (sample_run None))"
    "rm_closed (sample_run None) = None"
    "sample_run (Some ''x: kernel advance: down'') = (sample_run None)\<lparr>rm_closed := Some (''x: '' @ driver_error_text (DE_Kernel ''down''))\<rparr>"
    "snd (write_run (e_ix sample_env) (e_io sample_env (dr_log d)) (driver_store sample_cfg)
       (sample_run (Some ''x: kernel advance: down'')) (dr_fs d)) = Ok ()"
    "ix_print_run (e_ix sample_env) (sample_run (Some ''x: kernel advance: down'')) = Ok ''2''"
    "ix_parse_run (e_ix sample_env) ''2'' = Ok (sample_run (Some ''x: kernel advance: down''))"
    unfolding d_def by code_simp+
  have io: "e_io sample_env [] = io_fine" "rq_rfc_dir (sample_req []) = dc_rfc_dir sample_cfg"
    by (simp_all add: sample_env_def sample_cfg_def sample_req_def)
  have "\<exists>d0. resume_run sample_env (\<lambda>_. None) (sample_req []) (dr_fs d') = (d0, AlreadyClosed (''x: '' @ driver_error_text (DE_Kernel ''down'')))"
    using error_closes_run [OF s 1(1-4) _ io(2) refl io(1), of "\<lambda>_. None"] 1(5,6) by force
  then show ?thesis using s unfolding d_def by simp
qed

abbreviation pending_issue :: "DispatchTaskSpec \<Rightarrow> Issue" where
  "pending_issue s \<equiv> fresh_issue (sp_id s) (title_from_body (sp_body s) (sp_id s)) (sp_agent s) (sp_depends_on s) Pending None (sp_body s)"

lemma write_pending_log:
  assumes "write_pending env cfg specs d = (d', r)"
  shows "dr_run_id d' = dr_run_id d \<and> (\<exists>xs. dr_log d' = dr_log d @ xs \<and> list_all (\<lambda>x. \<exists>i b. x = WroteIssue i b) xs \<and>
    (is_ok r \<longrightarrow> xs = map (\<lambda>s. WroteIssue (pending_issue s) True) specs))"
  using assms
proof (induction specs arbitrary: d)
  case (Cons spec specs)
  obtain d1 r1 where w: "store_write env cfg (pending_issue spec) d = (d1, r1)" by fastforce
  note l = store_write_log [OF w]
  show ?case
  proof (cases r1)
    case (Inl e)
    then show ?thesis using Cons.prems w l by (auto simp: is_ok_def)
  next
    case (Inr u)
    then have "write_pending env cfg specs d1 = (d', r)" using Cons.prems w by simp
    from Cons.IH [OF this] obtain xs where "dr_run_id d' = dr_run_id d1" "dr_log d' = dr_log d1 @ xs"
      "list_all (\<lambda>x. \<exists>i b. x = WroteIssue i b) xs" "is_ok r \<longrightarrow> xs = map (\<lambda>s. WroteIssue (pending_issue s) True) specs" by blast
    then show ?thesis using l Inr by (intro conjI exI [of _ "WroteIssue (pending_issue spec) True # xs"]) auto
  qed
qed simp

lemma open_run_log:
  assumes "open_run env req cfg d = (d', r)"
  shows "\<exists>b xs. dr_log d' = dr_log d @ [WroteRun None b] @ xs \<and> list_all (\<lambda>x. \<exists>i b. x = WroteIssue i b) xs \<and> dr_run_id d' = dr_run_id d \<and>
    (is_ok r \<longrightarrow> b \<and> xs = map (\<lambda>s. WroteIssue (pending_issue s) True) (rq_tasks req))"
proof -
  define m where "m = \<lparr>rm_run_id = dr_run_id d, rm_plan_hash = plan_hash env (dc_authorize_req cfg), rm_strategy = rq_strategy req,
      rm_started = e_now env (dr_log d), rm_closed = None\<rparr>"
  obtain fs' w where w: "write_run (e_ix env) (e_io env (dr_log d)) (driver_store cfg) m (dr_fs d) = (fs', w)" by fastforce
  let ?d1 = "emit_fx (WroteRun None (is_ok w)) (d\<lparr>dr_fs := fs'\<rparr>)"
  have d1: "dr_log ?d1 = dr_log d @ [WroteRun None (is_ok w)]" "dr_run_id ?d1 = dr_run_id d" by (simp_all add: emit_fx_def)
  show ?thesis
  proof (cases w)
    case (Inl e)
    then have "d' = ?d1" "\<not> is_ok r" using assms w unfolding open_run_def m_def [symmetric] by (auto simp: Let_def is_ok_def)
    then show ?thesis using d1 by (intro exI [of _ "is_ok w"] exI [of _ "[]"]) simp
  next
    case (Inr u)
    then have "write_pending env cfg (rq_tasks req) ?d1 = (d', r)"
      using assms w unfolding open_run_def m_def [symmetric] by (simp add: Let_def)
    from write_pending_log [OF this] d1 Inr show ?thesis by auto
  qed
qed

definition starts_job :: "DEffect \<Rightarrow> bool" where
  "starts_job x \<longleftrightarrow> (\<exists>t req ans. x = SpawnedJob t req ans)"

text \<open>Starting a run: it is started only when every agent resolves, the kernel authorizes it and every file can be written, and then the kernel was asked
  first, the run file was written open, and every task of the request was recorded as pending with its own text, in order,
  before any job exists. When it is refused no job was started, and no file changed if an agent does not resolve or the kernel refuses.\<close>

lemma start_run_outcomes:
  assumes "start_run env resolver req fs = (d, out)"
  shows "case out of
      Started n cfg wave d0 \<Rightarrow> d0 = d \<and> (\<exists>tasks. resolve_tasks resolver (rq_tasks req) = Ok tasks \<and>
        cfg = config_of req (authorize_req_of req tasks) \<and>
        dr_log d = [KAuthorize (authorize_req_of req tasks) (Ok (Authorized (dr_run_id d) n wave)), WroteRun None True] @
          map (\<lambda>s. WroteIssue (pending_issue s) True) (rq_tasks req))
    | Refused reason \<Rightarrow> \<not> list_ex starts_job (dr_log d) \<and>
        ((\<forall>run n wave req'. KAuthorize req' (Ok (Authorized run n wave)) \<notin> set (dr_log d)) \<longrightarrow> dr_fs d = fs)
    | _ \<Rightarrow> False"
proof (cases "resolve_tasks resolver (rq_tasks req)")
  case (Inl reason)
  then show ?thesis using assms by (auto simp: start_run_def driver_new_def)
next
  case (Inr tasks)
  define auth where "auth = authorize_req_of req tasks"
  define cfg where "cfg = config_of req auth"
  define ans where "ans = e_authorize env [] auth"
  show ?thesis
  proof (cases "\<exists>run n wave. ans = Ok (Authorized run n wave)")
    case True
    then obtain run n wave where a: "ans = Ok (Authorized run n wave)" by blast
    define d0 where "d0 = driver_new run fs [KAuthorize auth ans]"
    obtain d1 r where o: "open_run env req cfg d0 = (d1, r)" by fastforce
    obtain b xs where log: "dr_log d1 = dr_log d0 @ [WroteRun None b] @ xs" "list_all (\<lambda>x. \<exists>i b. x = WroteIssue i b) xs"
      "is_ok r \<longrightarrow> b \<and> xs = map (\<lambda>s. WroteIssue (pending_issue s) True) (rq_tasks req)" "dr_run_id d1 = dr_run_id d0"
      using open_run_log [OF o] by blast
    have "\<not> list_ex starts_job (dr_log d1)" using log(1,2) by (auto simp: starts_job_def d0_def driver_new_def list_ex_iff list_all_iff)
    moreover have "d = d1 \<and> out = (case r of Inl reason \<Rightarrow> Refused reason | Inr _ \<Rightarrow> Started n cfg wave d1)"
      using assms Inr a o unfolding start_run_def d0_def ans_def auth_def cfg_def by (auto simp: Let_def split: sum.splits)
    ultimately show ?thesis using log Inr a
      by (cases r) (auto simp: is_ok_def d0_def driver_new_def auth_def cfg_def)
  qed (use assms Inr in \<open>auto simp: start_run_def Let_def driver_new_def starts_job_def ans_def auth_def
      split: sum.splits DispatchAuthorizeResponse.splits\<close>)
qed

section \<open>Resuming a run\<close>

lemma absorb_run_id: "absorb env cfg t ev d = (d', r) \<Longrightarrow> dr_run_id d' = dr_run_id d"
  unfolding absorb_def
  by (auto elim!: dbind_cases split: option.splits dest!: store_write_log seal_act_log
      simp: read_issue_def store_read_def dget_def dret_def dfail_def)

text \<open>After a restart the acceptance oracle is not asked for a task whose response arrived while the driver was away: such
  a task, whether it has an oracle or not, is reported to the kernel as done as soon as its response is folded in, with no
  start of an oracle before the report.\<close>

lemma resumed_response_skips_oracle:
  assumes "im_job_id (is_meta issue) = Some job" and "e_latest env (dr_log d) job = Some ev" and "fe_response_path ev = Some q"
    and "is_ok (snd (absorb env cfg t ev d))" and "reconcile_spawned env cfg t issue d = (d', r)"
  shows "\<exists>xs out ans ys. dr_log d' = dr_log d @ xs @ KAdvance (dr_run_id d) t (TaskDone out) ans # ys \<and>
    (\<forall>n. OracleLaunched t n \<notin> set xs)"
proof -
  obtain d1 outcome where a: "absorb env cfg t ev d = (d1, Ok outcome)"
    using assms(4) by (cases "absorb env cfg t ev d") (auto simp: is_ok_iff)
  obtain out where out: "outcome = TaskDone out" using absorb_outcome [OF a assms(3)] by blast
  have "emits (\<lambda>x. \<forall>n. x \<noteq> OracleLaunched t n) (absorb env cfg t ev)" by (rule emits_absorb) simp_all
  from emitsD [OF this a] obtain xs where xs: "dr_log d1 = dr_log d @ xs" "\<forall>n. OracleLaunched t n \<notin> set xs"
    by (auto simp: list_all_iff)
  have "fast_forward env cfg t outcome d1 = (d', r)"
    using assms(1,2,5) a by (simp add: reconcile_spawned_def dbind_simps)
  then obtain d2 r2 where f: "advance env cfg t outcome d1 = (d2, r2)" "d2 = d'"
    by (auto simp: fast_forward_def dret_def elim!: dbind_cases split: Advanced.splits)
  then show ?thesis using advance_first [OF f(1)] xs absorb_run_id [OF a] out by auto
qed

text \<open>A dependency whose captured response is blank counts as one without a response: the dependent task is not started
  but fails, which tears the run down.\<close>

lemma blank_dependency_fails:
  assumes "issue_read (e_ix env) (e_io env (dr_log d)) (driver_store cfg) (dr_fs d) dep = Ok (Some i)" and "is_response i = None"
    and "tp_depends_on plan = dep # deps"
  shows "spawn_one env cfg plan d = (d, Err (DE_MissingDep (tp_task_id plan) dep))"
  using assms by (simp add: spawn_one_def dbind_def store_read_def dfail_def)

end
