(* ===== verification/Dispatch_Ends.thy ===== *)
theory Dispatch_Ends
  imports Dispatch_Correct
begin

section \<open>Every run of the loop ends\<close>

text \<open>
  The loop over a wave is a partial function, since an arbitrary kernel could keep it busy for ever. Here it is
  shown to return, with every handler and the actor itself, under one assumption on the kernel.
\<close>

text \<open>The tasks the kernel has released since the current round began, read off the calls made so far.\<close>

abbreviation ids :: "TaskPlan list \<Rightarrow> string set" where
  "ids wave \<equiv> set (map tp_task_id wave)"

fun release :: "string set \<Rightarrow> DEffect \<Rightarrow> string set" where
  "release R (KAdvance run t outcome (Inr (NextWave wave))) = R \<union> ids wave"
| "release R (KAuthorize req (Inr (Authorized run n wave))) = ids wave"
| "release R (KFinalize run passed round (Inr (Replan wave reopened))) = ids wave"
| "release R x = R"

definition released :: "DEffect list \<Rightarrow> string set" where
  "released log = foldl release {} log"

text \<open>What the driver relies on: within a round the kernel releases a task of the plan at most once.\<close>

definition releases_once :: "string set \<Rightarrow> DEnv \<Rightarrow> bool" where
  "releases_once tasks env \<longleftrightarrow>
     (\<forall>log run t outcome wave. e_advance env log run t outcome = Ok (NextWave wave) \<longrightarrow>
        distinct (map tp_task_id wave) \<and> ids wave \<subseteq> tasks \<and> ids wave \<inter> released log = {})"

lemma released_append: "list_all (\<lambda>x. \<forall>R. release R x = R) xs \<Longrightarrow> released (log @ xs) = released log"
proof -
  have "list_all (\<lambda>x. \<forall>R. release R x = R) xs \<Longrightarrow> foldl release R xs = R" for R by (induction xs) auto
  then show "list_all (\<lambda>x. \<forall>R. release R x = R) xs \<Longrightarrow> ?thesis" by (simp add: released_def)
qed

abbreviation neutral :: "DEffect \<Rightarrow> bool" where
  "neutral x \<equiv> \<forall>R. release R x = R"

lemma emits_released: "emits neutral m \<Longrightarrow> m d = (d', r) \<Longrightarrow> released (dr_log d') = released (dr_log d)"
  by (auto dest!: emitsD simp: released_append)

definition progress :: "string set \<Rightarrow> DriverConfig \<Rightarrow> Driver \<Rightarrow> Driver \<Rightarrow> TaskPlan list \<Rightarrow> bool" where
  "progress tasks cfg d d' wave \<longleftrightarrow>
     dr_round d' = dr_round d \<and> distinct (map tp_task_id wave) \<and> ids wave \<subseteq> tasks \<and> ids wave \<inter> released (dr_log d) = {} \<and>
       released (dr_log d') = released (dr_log d) \<union> ids wave \<or>
     unat (dr_round d') = unat (dr_round d) + 1 \<and> dr_round d' \<le> dc_max_replans cfg"

lemma advance_progress:
  assumes "releases_once tasks env" and "advance env cfg t outcome d = (d', Ok (Adv_Wave wave))"
  shows "progress tasks cfg d d' wave"
proof (cases "e_advance env (dr_log d) (dr_run_id d) t outcome")
  case (Inr ans)
  let ?d1 = "emit_fx (KAdvance (dr_run_id d) t outcome (Ok ans)) d"
  have c: "ctl ?d1 = ctl d" by simp
  show ?thesis
  proof (cases ans)
    case (NextWave w)
    then have "w = wave \<and> d' = ?d1" using assms(2) Inr by (auto simp: advance_def Let_def)
    moreover have "distinct (map tp_task_id w) \<and> ids w \<subseteq> tasks \<and> ids w \<inter> released (dr_log d) = {}"
      using assms(1) Inr NextWave unfolding releases_once_def by blast
    ultimately show ?thesis using NextWave c by (simp add: progress_def emit_fx_def released_def ctl_def)
  next
    case (RunCompleted n)
    obtain d2 fl where f: "finalize_round env cfg ?d1 = (d2, fl)" by fastforce
    then have "fl = Fleet_Replan wave \<and> d2 = d'"
      using assms(2) Inr RunCompleted by (auto simp: advance_def Let_def split: FleetStep.splits)
    then show ?thesis using rounds_bounded [of env cfg ?d1] f c by (auto simp: progress_def ctl_def)
  qed (use assms(2) Inr in \<open>auto simp: advance_def Let_def\<close>)
qed (use assms(2) in \<open>auto simp: advance_def Let_def\<close>)

lemma fast_forward_progress:
  "releases_once tasks env \<Longrightarrow> fast_forward env cfg t outcome d = (d', Ok (Cascade wave)) \<Longrightarrow> progress tasks cfg d d' wave"
  "fast_forward env cfg t outcome d \<noteq> (d', Ok Step_Continue)"
  by (auto simp: fast_forward_def dret_def elim!: dbind_cases split: Advanced.splits dest: advance_progress)

text \<open>An action that neither releases tasks nor starts a round, before one that may.\<close>

lemma progress_after:
  assumes "emits neutral m" and "steady m" and "m d = (d1, r)" and "progress tasks cfg d1 d' wave"
  shows "progress tasks cfg d d' wave"
  using assms(4) emits_released [OF assms(1,3)] steadyD [OF assms(2,3)] by (simp add: progress_def ctl_def)

lemma absorb_quiet: "emits neutral (absorb env cfg t ev)" "emits neutral (launch_oracle env cfg t)" "emits neutral (spawn_one env cfg plan)"
  "emits neutral (store_write env cfg i)"
  by (rule emits_absorb emits_launch_oracle emits_spawn_one emits_store_write; simp)+

lemma fail_lost_progress:
  "releases_once tasks env \<Longrightarrow> fail_lost env cfg t issue d = (d', Ok (Cascade wave)) \<Longrightarrow> progress tasks cfg d d' wave"
  "fail_lost env cfg t issue d \<noteq> (d', Ok Step_Continue)"
  unfolding fail_lost_def
  by (auto elim!: dbind_cases dest: fast_forward_progress(1) intro: progress_after [OF absorb_quiet(4) steady_basic(4)]
      simp: fast_forward_progress(2))

lemma reconcile_progress:
  assumes "reconcile_spawned env cfg t issue d = (d', Ok s)"
  shows "releases_once tasks env \<Longrightarrow> s = Cascade wave \<Longrightarrow> progress tasks cfg d d' wave"
    and "s = Step_Continue \<Longrightarrow> ctl d' = ctl d \<and> released (dr_log d') = released (dr_log d)"
proof -
  show "progress tasks cfg d d' wave" if "releases_once tasks env" "s = Cascade wave"
    using assms that unfolding reconcile_spawned_def
    by (auto split: option.splits if_splits elim!: dbind_cases dest: fast_forward_progress(1) fail_lost_progress(1)
        intro: progress_after [OF absorb_quiet(1) steady_ops(2)])
  show "ctl d' = ctl d \<and> released (dr_log d') = released (dr_log d)" if "s = Step_Continue"
    using assms that unfolding reconcile_spawned_def
    by (auto split: option.splits if_splits elim!: dbind_cases simp: fast_forward_progress(2) fail_lost_progress(2) adopt_def ctl_def)
qed

definition still :: "Driver \<Rightarrow> Driver \<Rightarrow> bool" where
  "still d d' \<longleftrightarrow> ctl d' = ctl d \<and> released (dr_log d') = released (dr_log d)"

lemma still_ops:
  "spawn_one env cfg plan d = (d', r) \<Longrightarrow> still d d'" "launch_oracle env cfg t d = (d', q) \<Longrightarrow> still d d'"
  "reconcile_spawned env cfg t issue d = (d', Ok Step_Continue) \<Longrightarrow> still d d'"
  by (auto simp: still_def dest: emits_released [OF absorb_quiet(3)] steadyD [OF steady_ops(1)]
      emits_released [OF absorb_quiet(2)] steadyD [OF steady_ops(3)] reconcile_progress(2))

lemma process_one_progress:
  assumes "process_one env cfg plan d = (d', Ok s)"
  shows "releases_once tasks env \<Longrightarrow> s = Cascade wave \<Longrightarrow> progress tasks cfg d d' wave"
    and "s = Step_Continue \<Longrightarrow> still d d'"
proof -
  have st: "store_read env cfg t d = (d1, q) \<Longrightarrow> d1 = d" for t d1 q by (simp add: store_read_def)
  show "progress tasks cfg d d' wave" if "releases_once tasks env" "s = Cascade wave"
    using assms that(2) unfolding process_one_def Let_def
    by (auto split: option.splits Status.splits if_splits elim!: dbind_cases dest!: st simp: dret_def
        intro: fast_forward_progress(1) [OF that(1)] reconcile_progress(1) [OF _ that(1)])
  show "still d d'" if "s = Step_Continue"
    using assms that unfolding process_one_def Let_def
    by (auto split: option.splits Status.splits if_splits elim!: dbind_cases dest!: st
        simp: fast_forward_progress(2) dret_def still_ops)
qed

text \<open>The rounds left, then the tasks queued or not yet released.\<close>

definition work_left :: "string set \<Rightarrow> DriverConfig \<Rightarrow> TaskPlan list \<times> Driver \<Rightarrow> nat \<times> nat" where
  "work_left tasks cfg = (\<lambda>(queue, d). (unat (dc_max_replans cfg) - unat (dr_round d), length queue + card (tasks - released (dr_log d))))"

lemma progress_work:
  assumes "finite tasks" and "progress tasks cfg d d' wave"
  shows "(work_left tasks cfg (rest @ wave, d'), work_left tasks cfg (plan # rest, d)) \<in> less_than <*lex*> less_than"
  using assms(2) unfolding progress_def
proof
  assume a: "dr_round d' = dr_round d \<and> distinct (map tp_task_id wave) \<and> ids wave \<subseteq> tasks \<and> ids wave \<inter> released (dr_log d) = {} \<and>
       released (dr_log d') = released (dr_log d) \<union> ids wave"
  have "tasks - released (dr_log d') = (tasks - released (dr_log d)) - ids wave" using a by auto
  moreover have "ids wave \<subseteq> tasks - released (dr_log d)" using a by auto
  moreover have "card (ids wave) = length wave" using a distinct_card [of "map tp_task_id wave"] by simp
  ultimately have "length wave + card (tasks - released (dr_log d')) = card (tasks - released (dr_log d))"
    using assms(1) card_Diff_subset [of "ids wave" "tasks - released (dr_log d)"] card_mono [of "tasks - released (dr_log d)" "ids wave"]
    by simp
  then show ?thesis using a by (simp add: work_left_def)
next
  assume "unat (dr_round d') = unat (dr_round d) + 1 \<and> dr_round d' \<le> dc_max_replans cfg"
  then show ?thesis by (auto simp: work_left_def word_le_nat_alt)
qed

lemma wave_returns:
  assumes "finite tasks" and "releases_once tasks env"
  shows "\<exists>d' r. process_wave env cfg queue d = Some (d', r)"
proof -
  have "wf (inv_image (less_than <*lex*> less_than) (work_left tasks cfg))" by auto
  then have "\<exists>d' r. process_wave env cfg (fst (queue, d)) (snd (queue, d)) = Some (d', r)"
  proof (induction "(queue, d)" arbitrary: queue d rule: wf_induct_rule)
    case (less queue d)
    show ?case
    proof (cases queue)
      case (Cons plan rest)
      obtain d1 s where p: "process_one env cfg plan d = (d1, s)" by fastforce
      have next_wave: "\<exists>d' r. process_wave env cfg q d1 = Some (d', r)"
        if "(work_left tasks cfg (q, d1), work_left tasks cfg (queue, d)) \<in> less_than <*lex*> less_than" for q
        using less [of q d1] that by simp
      show ?thesis
      proof (cases s)
        case (Inr step)
        show ?thesis
        proof (cases step)
          case Step_Continue
          then have "ctl d1 = ctl d \<and> released (dr_log d1) = released (dr_log d)"
            using process_one_progress(2) p Inr unfolding still_def by blast
          then have "(work_left tasks cfg (rest, d1), work_left tasks cfg (queue, d)) \<in> less_than <*lex*> less_than"
            using Cons by (simp add: work_left_def ctl_def)
          from next_wave [OF this] show ?thesis using Cons p Inr Step_Continue by (subst process_wave.simps) simp
        next
          case (Cascade wave)
          then have "progress tasks cfg d d1 wave" using process_one_progress(1) p Inr assms(2) by blast
          from next_wave [of "rest @ wave"] progress_work [OF assms(1) this, of rest plan]
          show ?thesis using Cons p Inr Cascade by (subst process_wave.simps) simp
        qed (use Cons p Inr in \<open>subst process_wave.simps, simp\<close>)
      qed (use Cons p in \<open>subst process_wave.simps, simp\<close>)
    qed (subst process_wave.simps, simp)
  qed
  then show ?thesis by simp
qed

lemma flow_returns:
  assumes "finite tasks" and "releases_once tasks env"
  shows "\<exists>d' r. advance_into_flow env cfg t outcome d = Some (d', r)"
  using wave_returns [OF assms] by (auto simp: advance_into_flow_def split: prod.splits sum.splits Advanced.splits)

lemma then_flow_returns: "(\<And>a d. \<exists>d' r. f a d = Some (d', r)) \<Longrightarrow> \<exists>d' r. then_flow m f d = Some (d', r)"
  by (auto simp: then_flow_def split: prod.splits sum.splits)

lemma handlers_return:
  assumes "finite tasks" and "releases_once tasks env"
  shows "\<exists>d' r. handle_response env cfg t ev d = Some (d', r)" and "\<exists>d' r. handle_verdict env cfg t n result d = Some (d', r)"
proof -
  note fl = flow_returns [OF assms]
  have fo: "\<exists>d' r. flow_of m d = Some (d', r)" for m d unfolding flow_of_def by (rule then_flow_returns) simp
  show "\<exists>d' r. handle_response env cfg t ev d = Some (d', r)"
    unfolding handle_response_def using fl fo by (intro then_flow_returns) simp
  have "\<exists>d' r. judge env cfg t spec issue n result h d = Some (d', r)" for spec issue h d
    unfolding judge_def Let_def using fo fl by (auto intro: then_flow_returns)
  then show "\<exists>d' r. handle_verdict env cfg t n result d = Some (d', r)"
    unfolding handle_verdict_def by (auto split: option.splits intro!: then_flow_returns)
qed

lemma on_msg_returns:
  assumes "finite tasks" and "releases_once tasks env"
  shows "\<exists>d' flow. on_msg env cfg m d = Some (d', flow)"
proof (cases m)
  case (Response ev)
  then show ?thesis
    using handlers_return(1) [OF assms, of cfg _ ev "d\<lparr>dr_job_to_task := (dr_job_to_task d)(fe_job_id ev := None)\<rparr>"]
    by (auto simp: on_response_def map_option_case split: option.splits) (metis option.distinct(1))
next
  case (VerdictMsg t n result)
  then show ?thesis using handlers_return(2) [OF assms, of cfg t n result d]
    by (auto simp: on_verdict_def map_option_case split: option.splits)
qed (simp add: on_abort_def)

lemma actor_returns:
  assumes "finite tasks" and "releases_once tasks env"
  shows "(\<exists>r. actor_loop env cfg msgs d = Some r) \<and> (AbortMsg \<in> set msgs \<longrightarrow> (\<exists>d'. actor_loop env cfg msgs d = Some (Returned d')))"
proof (induction msgs arbitrary: d)
  case (Cons m ms)
  obtain d1 flow where m: "on_msg env cfg m d = Some (d1, flow)" using on_msg_returns [OF assms] by blast
  show ?case
  proof (cases "m = AbortMsg")
    case True
    then show ?thesis by (simp add: on_abort_def)
  next
    case False
    with m Cons [of d1] show ?thesis by (cases flow) auto
  qed
qed simp

text \<open>C8. The actor of a run never hangs in its work, and cancelling ends it. Whatever messages were sent, the actor has either returned or handled them
  all and waits for the next one; if an abort is among them it has returned. Assumed is that the kernel releases only tasks of a finite plan and none of
  them twice in a round; every host call may fail and the oracles may answer anything. Rounds are bounded by the configured limit, and within a round
  every wave is driven to its end.\<close>

theorem run_actor_returns:
  assumes "finite tasks" and "releases_once tasks env"
  shows "(\<exists>d'. run_actor env cfg first_wave msgs d = Some (Returned d') \<or> run_actor env cfg first_wave msgs d = Some (Waiting d')) \<and>
    (AbortMsg \<in> set msgs \<longrightarrow> (\<exists>d'. run_actor env cfg first_wave msgs d = Some (Returned d')))"
proof -
  obtain d1 r where w: "process_wave env cfg first_wave d = Some (d1, r)" using wave_returns [OF assms] by blast
  obtain e where "actor_loop env cfg msgs d1 = Some e" using actor_returns [OF assms] by blast
  then show ?thesis using w actor_returns [OF assms, of cfg msgs d1]
    by (cases e; auto simp: run_actor_def split: sum.splits Flow.splits)
qed

text \<open>A kernel that releases a second task once and then completes the run.\<close>

definition two_task_env :: DEnv where
  "two_task_env = sample_env\<lparr>e_advance := (\<lambda>log run t outcome.
     if ''u'' \<in> released log then Ok (RunCompleted 2)
     else Ok (NextWave [\<lparr>tp_run_id = run, tp_task_id = ''u'', tp_agent = ''a'', tp_command = ''c'', tp_args = [], tp_provider = None,
       tp_runtime = None, tp_body = ''more'', tp_depends_on = [''t''], tp_timeout_secs = None\<rparr>]))\<rparr>"

lemma two_task_releases: "releases_once {''t'', ''u''} two_task_env"
  by (auto simp: releases_once_def two_task_env_def split: if_splits)

theorem run_actor_returns_witness:
  "\<exists>d'. run_actor two_task_env sample_cfg
     [\<lparr>tp_run_id = ''k'', tp_task_id = ''t'', tp_agent = ''a'', tp_command = ''c'', tp_args = [], tp_provider = None, tp_runtime = None,
       tp_body = ''do'', tp_depends_on = [], tp_timeout_secs = None\<rparr>]
     [Response sample_event, VerdictMsg ''t'' 0 \<lparr>ac_exit_code = 0, ac_output_tail = []\<rparr>, AbortMsg] (sample_driver (sample_meta Spawned)) = Some (Returned d')"
  using run_actor_returns [OF _ two_task_releases] by simp

lemma teardown_last:
  "teardown env cfg reason d = (d', flow) \<Longrightarrow> \<exists>ys. dr_log d' = dr_log d @ ys @ [KAbort (dr_run_id d')] \<and> flow = Flow_Done"
proof -
  assume "teardown env cfg reason d = (d', flow)"
  then have "d' = abort_kernel (close_run env cfg reason d)" "flow = Flow_Done" by (simp_all add: teardown_def)
  then show ?thesis using ext_close_run [of d env cfg reason] by (auto simp: abort_kernel_def emit_fx_def prefix_def)
qed

lemma response_effects:
  assumes "handle_response env cfg t ev d = Some (d', r)"
  shows "\<exists>xs. dr_log d' = dr_log d @ xs \<and>
    (is_ok r \<longrightarrow> (\<exists>run outcome ans. KAdvance run t outcome ans \<in> set xs) \<or> (\<exists>n. OracleLaunched t n \<in> set xs))"
proof -
  obtain d1 r1 where a: "absorb env cfg t ev d = (d1, r1)" by fastforce
  have "ext d d1" by (rule emits_ext [where m = "absorb env cfg t ev" and P = "\<lambda>_. True", OF _ a]) (rule emits_absorb; simp)
  then obtain ys where ys: "dr_log d1 = dr_log d @ ys" by (auto simp: prefix_def)
  show ?thesis
  proof (cases r1)
    case (Inl e)
    then have "d' = d1" "r = Err e" using assms a by (simp_all add: handle_response_def then_flow_simps)
    then show ?thesis using ys by (simp add: is_ok_def)
  next
    case (Inr outcome)
    have hr: "(if (case outcome of TaskDone _ \<Rightarrow> True | TaskFailed _ \<Rightarrow> False) \<and> dc_accept_specs cfg t \<noteq> None
        then flow_of (launch_oracle env cfg t) else advance_into_flow env cfg t outcome) d1 = Some (d', r)"
      using assms a Inr by (simp add: handle_response_def then_flow_def)
    show ?thesis
    proof (cases "(case outcome of TaskDone _ \<Rightarrow> True | TaskFailed _ \<Rightarrow> False) \<and> dc_accept_specs cfg t \<noteq> None")
      case True
      obtain d2 r2 where l: "launch_oracle env cfg t d1 = (d2, r2)" by fastforce
      have "ext d1 d2" by (rule emits_ext [where m = "launch_oracle env cfg t" and P = "\<lambda>_. True", OF _ l]) (rule emits_launch_oracle; simp)
      then obtain zs where zs: "dr_log d2 = dr_log d1 @ zs" by (auto simp: prefix_def)
      have d2: "d' = d2" "is_ok r \<longrightarrow> r2 = Ok ()"
        using hr l True by (auto simp: flow_of_def then_flow_def is_ok_def split: sum.splits)
      obtain spec where spec: "dc_accept_specs cfg t = Some spec" using True by blast
      have "\<exists>n. OracleLaunched t n \<in> set zs" if "r2 = Ok ()"
        using l that spec zs by (auto simp: launch_oracle_def dmod_def emit_fx_def read_issue_def store_read_def dret_def dfail_def
            elim!: dbind_cases dest!: store_write_log split: option.splits)
      then show ?thesis using d2 zs ys by (intro exI [of _ "ys @ zs"]) auto
    next
      case False
      then have "advance_into_flow env cfg t outcome d1 = Some (d', r)" using hr by (auto split: if_splits)
      from ext_advance_into_flow [OF this] obtain ans zs where
        "dr_log d' = dr_log d1 @ KAdvance (dr_run_id d1) t outcome ans # zs" by blast
      then have "dr_log d' = dr_log d @ ys @ KAdvance (dr_run_id d1) t outcome ans # zs" using ys by simp
      moreover have "KAdvance (dr_run_id d1) t outcome ans \<in> set (ys @ KAdvance (dr_run_id d1) t outcome ans # zs)" by simp
      ultimately show ?thesis by blast
    qed
  qed
qed

text \<open>C10. No response is lost: a response for a job of the run is always handled to an end (for a kernel as above), and then the
  outcome of its task has been reported to the kernel, or its oracle has been started, or the run has been
  torn down with the abort of the kernel's run as the last effect.\<close>

theorem response_not_lost:
  assumes "finite tasks" and "releases_once tasks env" and "dr_job_to_task d (fe_job_id ev) = Some t"
  shows "\<exists>d' flow xs. on_response env cfg ev d = Some (d', flow) \<and> dr_log d' = dr_log d @ xs \<and>
    ((\<exists>run outcome ans. KAdvance run t outcome ans \<in> set xs) \<or> (\<exists>n. OracleLaunched t n \<in> set xs) \<or>
     flow = Flow_Done \<and> xs \<noteq> [] \<and> last xs = KAbort (dr_run_id d'))"
proof -
  let ?d = "d\<lparr>dr_job_to_task := (dr_job_to_task d)(fe_job_id ev := None)\<rparr>"
  obtain d1 r where h: "handle_response env cfg t ev ?d = Some (d1, r)" using handlers_return(1) [OF assms(1,2)] by blast
  obtain d2 flow where s: "settle env cfg (''response `'' @ t @ ''`: '') (d1, r) = (d2, flow)" by fastforce
  have o: "on_response env cfg ev d = Some (d2, flow)" using assms(3) h s by (simp add: on_response_def)
  obtain xs where xs: "dr_log d1 = dr_log d @ xs"
    "is_ok r \<longrightarrow> (\<exists>run outcome ans. KAdvance run t outcome ans \<in> set xs) \<or> (\<exists>n. OracleLaunched t n \<in> set xs)"
    using response_effects [OF h] by force
  show ?thesis
  proof (cases r)
    case (Inl e)
    then have "teardown env cfg (''response `'' @ t @ ''`: '' @ driver_error_text e) d1 = (d2, flow)" using s by (simp add: settle_def)
    from teardown_last [OF this] obtain ys where "dr_log d2 = dr_log d1 @ ys @ [KAbort (dr_run_id d2)]" "flow = Flow_Done" by blast
    then show ?thesis using o xs(1) by auto
  next
    case (Inr f)
    then show ?thesis using s o xs by (auto simp: settle_def is_ok_def)
  qed
qed

theorem response_not_lost_witness:
  "\<exists>d' flow xs. on_response two_task_env sample_cfg sample_event (sample_driver (sample_meta Spawned)) = Some (d', flow) \<and>
    dr_log d' = dr_log (sample_driver (sample_meta Spawned)) @ xs \<and>
    ((\<exists>run outcome ans. KAdvance run ''t'' outcome ans \<in> set xs) \<or> (\<exists>n. OracleLaunched ''t'' n \<in> set xs) \<or>
     flow = Flow_Done \<and> xs \<noteq> [] \<and> last xs = KAbort (dr_run_id d'))"
  by (rule response_not_lost [OF _ two_task_releases]) (simp, code_simp)

end
