(* ===== verification/Forge_Permissions.thy ===== *)
theory Forge_Permissions
  imports Host_Fs
begin

section \<open>Permissions of a Forge app\<close>

text \<open>
  Models \<^verbatim>\<open>crates/orkia-forge-permissions\<close>, the permission and bridge types of
  \<^verbatim>\<open>crates/orkia-forge-types\<close>, and from \<^verbatim>\<open>crates/orkia-forge-viewer\<close> the sandboxed fetch
  (\<^verbatim>\<open>network.rs\<close>) and the notification limiter (\<^verbatim>\<open>notify.rs\<close>). The URL parser and the HTTP client are
  libraries: the first is a function, the second the record \<open>HttpClient\<close>, whose \<open>hc_send\<close> is given the redirect
  policy and says which URLs were contacted. Parsing of IP addresses is the standard library's and is written out.
\<close>

subsection \<open>Types of the bridge\<close>

datatype BridgeError =
    BE_Storage string | BE_Invalid string | BE_Forbidden string | BE_Internal string
  | BE_PermissionDenied string | BE_PolicyDenied string | BE_Timeout | BE_Cancelled | BE_RuntimeError string

fun bridge_error_text :: "BridgeError \<Rightarrow> string" where
  "bridge_error_text (BE_Storage m) = ''storage error: '' @ m"
| "bridge_error_text (BE_Invalid m) = ''invalid request: '' @ m"
| "bridge_error_text (BE_Forbidden m) = ''not permitted: '' @ m"
| "bridge_error_text (BE_Internal m) = ''internal error: '' @ m"
| "bridge_error_text (BE_PermissionDenied m) = ''permission denied: '' @ m"
| "bridge_error_text (BE_PolicyDenied m) = ''policy denied: '' @ m"
| "bridge_error_text BE_Timeout = ''timeout''"
| "bridge_error_text BE_Cancelled = ''cancelled''"
| "bridge_error_text (BE_RuntimeError m) = ''runtime error: '' @ m"

datatype HttpMethod = Http_Get | Http_Post | Http_Put | Http_Patch | Http_Delete

fun method_str :: "HttpMethod \<Rightarrow> string" where
  "method_str Http_Get = ''GET''"
| "method_str Http_Post = ''POST''"
| "method_str Http_Put = ''PUT''"
| "method_str Http_Patch = ''PATCH''"
| "method_str Http_Delete = ''DELETE''"

datatype NotifIcon = Icon_Info | Icon_Success | Icon_Warning | Icon_Error

subsection \<open>App names\<close>

datatype NameError = Name_Empty | Name_BadLength nat | Name_BadStart | Name_BadChar

definition is_ascii_lowercase :: "char \<Rightarrow> bool" where
  "is_ascii_lowercase c \<longleftrightarrow> 97 \<le> (of_char c :: nat) \<and> (of_char c :: nat) \<le> 122"

definition validate_app_name :: "string \<Rightarrow> (NameError, unit) result" where
  "validate_app_name name =
     (case name of
        [] \<Rightarrow> Err Name_Empty
      | first # chars \<Rightarrow>
         (if \<not> (2 \<le> length name \<and> length name \<le> 50) then Err (Name_BadLength (length name))
          else if \<not> is_ascii_lowercase first then Err Name_BadStart
          else if \<not> list_all (\<lambda>c. is_ascii_lowercase c \<or> is_digit c \<or> c = CHR ''-'') chars then Err Name_BadChar
          else Ok ()))"

subsection \<open>Literal IP addresses\<close>

text \<open>\<^verbatim>\<open>IpAddr::from_str\<close>: a recursive-descent parser. Only success matters here, so a reader returns the rest of the input.\<close>

definition to_digit :: "nat \<Rightarrow> char \<Rightarrow> nat option" where
  "to_digit radix c =
     (let n = (of_char c :: nat);
          v = (if 48 \<le> n \<and> n \<le> 57 then n - 48
               else if 97 \<le> n \<and> n \<le> 122 then n - 87
               else if 65 \<le> n \<and> n \<le> 90 then n - 55 else radix)
      in if v < radix then Some v else None)"

definition read_number :: "nat \<Rightarrow> nat \<Rightarrow> bool \<Rightarrow> int \<Rightarrow> string \<Rightarrow> string option" where
  "read_number radix max_digits allow_zero_prefix largest s =
     (let ds = takeWhile (\<lambda>c. to_digit radix c \<noteq> None) s;
          v = foldl (\<lambda>n c. radix * n + the (to_digit radix c)) 0 ds
      in if ds = [] \<or> max_digits < length ds \<or> largest < int v \<or> \<not> allow_zero_prefix \<and> hd ds = CHR ''0'' \<and> 1 < length ds
         then None else Some (drop (length ds) s))"

definition read_char :: "char \<Rightarrow> string \<Rightarrow> string option" where
  "read_char c s = (case s of x # r \<Rightarrow> if x = c then Some r else None | [] \<Rightarrow> None)"

definition read_separator :: "char \<Rightarrow> nat \<Rightarrow> (string \<Rightarrow> string option) \<Rightarrow> string \<Rightarrow> string option" where
  "read_separator sep i inner s = (if 0 < i then Option.bind (read_char sep s) inner else inner s)"

fun read_octets :: "nat \<Rightarrow> nat \<Rightarrow> string \<Rightarrow> string option" where
  "read_octets 0 i s = Some s"
| "read_octets (Suc k) i s =
     Option.bind (read_separator (CHR ''.'') i (read_number 10 3 False 255) s) (read_octets k (Suc i))"

definition read_ipv4_addr :: "string \<Rightarrow> string option" where
  "read_ipv4_addr s = read_octets 4 0 s"

text \<open>The first argument counts the groups that still fit; the result tells how many were read and whether the last two were
  an embedded IPv4 address.\<close>

fun read_groups :: "nat \<Rightarrow> nat \<Rightarrow> string \<Rightarrow> nat \<times> bool \<times> string" where
  "read_groups 0 i s = (i, False, s)"
| "read_groups (Suc k) i s =
     (case (if 0 < k then read_separator (CHR '':'') i read_ipv4_addr s else None) of
        Some r \<Rightarrow> (i + 2, True, r)
      | None \<Rightarrow>
         (case read_separator (CHR '':'') i (read_number 16 4 True 65535) s of
            Some r \<Rightarrow> read_groups k (Suc i) r
          | None \<Rightarrow> (i, False, s)))"

definition read_ipv6_addr :: "string \<Rightarrow> string option" where
  "read_ipv6_addr s =
     (case read_groups 8 0 s of
        (head_size, head_ipv4, r) \<Rightarrow>
          (if head_size = 8 then Some r
           else if head_ipv4 then None
           else Option.bind (read_char (CHR '':'') r) (\<lambda>r.
                Option.bind (read_char (CHR '':'') r) (\<lambda>r.
                (case read_groups (8 - (head_size + 1)) 0 r of (_, _, r) \<Rightarrow> Some r)))))"

definition parse_ip_addr :: "string \<Rightarrow> bool" where
  "parse_ip_addr s =
     (case (case read_ipv4_addr s of Some r \<Rightarrow> Some r | None \<Rightarrow> read_ipv6_addr s) of
        Some r \<Rightarrow> r = []
      | None \<Rightarrow> False)"

definition is_ip_literal :: "string \<Rightarrow> bool" where
  "is_ip_literal host =
     parse_ip_addr (case Option.bind (strip_prefix ''['' host) (strip_suffix '']'') of Some s \<Rightarrow> s | None \<Rightarrow> host)"

definition is_localhost :: "string \<Rightarrow> bool" where
  "is_localhost host \<longleftrightarrow>
     to_ascii_lowercase host \<in> {''localhost'', ''127.0.0.1'', ''::1'', ''[::1]'', ''::ffff:127.0.0.1''}"

definition host_in_whitelist :: "string \<Rightarrow> string list \<Rightarrow> bool" where
  "host_in_whitelist host whitelist = list_ex (\<lambda>w. to_ascii_lowercase w = to_ascii_lowercase host) whitelist"

subsection \<open>Permissions\<close>

record Permissions =
  pm_storage :: bool
  pm_agent :: bool
  pm_network :: "string list"
  pm_notification :: bool

text \<open>The manifest's block when it is absent.\<close>

definition default_permissions :: Permissions where
  "default_permissions = \<lparr>pm_storage = True, pm_agent = False, pm_network = [], pm_notification = False\<rparr>"

definition check_storage :: "Permissions \<Rightarrow> (BridgeError, unit) result" where
  "check_storage p = (if pm_storage p then Ok () else Err (BE_PermissionDenied ''manifest.permissions.storage = false''))"

definition check_agent :: "Permissions \<Rightarrow> (BridgeError, unit) result" where
  "check_agent p = (if pm_agent p then Ok () else Err (BE_PermissionDenied ''manifest.permissions.agent = false''))"

definition check_notification :: "Permissions \<Rightarrow> (BridgeError, unit) result" where
  "check_notification p =
     (if pm_notification p then Ok () else Err (BE_PermissionDenied ''manifest.permissions.notification = false''))"

record Url =
  url_scheme :: string
  url_host :: "string option"

type_synonym url_parser = "string \<Rightarrow> (string, Url) result"

definition check_network :: "url_parser \<Rightarrow> Permissions \<Rightarrow> string \<Rightarrow> (BridgeError, unit) result" where
  "check_network parse_url p url =
     (case parse_url url of
        Err e \<Rightarrow> Err (BE_Invalid (''invalid URL: '' @ e))
      | Ok parsed \<Rightarrow>
         (if url_scheme parsed \<noteq> ''https'' then
            Err (BE_PermissionDenied (''only https:// URLs allowed (got '' @ url_scheme parsed @ '')''))
          else case url_host parsed of
                 None \<Rightarrow> Err (BE_Invalid ''URL must have a host'')
               | Some host \<Rightarrow>
                  (if is_ip_literal host then Err (BE_PermissionDenied ''IP literal hosts forbidden in V2'')
                   else if is_localhost host then Err (BE_PermissionDenied ''localhost forbidden in V2'')
                   else if host_in_whitelist host (pm_network p) then Ok ()
                   else Err (BE_PermissionDenied (''host '' @ [SQ] @ host @ [SQ] @ '' not in app'' @ [SQ] @ ''s network whitelist'')))))"

subsection \<open>Fetching\<close>

definition MAX_RESPONSE_BYTES :: int where
  "MAX_RESPONSE_BYTES = 5 * 1024 * 1024"

definition DEFAULT_TIMEOUT_MS :: int where
  "DEFAULT_TIMEOUT_MS = 30000"

definition MAX_TIMEOUT_MS :: int where
  "MAX_TIMEOUT_MS = 60000"

record FetchArgs =
  fa_url :: string
  fa_method :: HttpMethod
  fa_headers :: "(string \<times> string) list"
  fa_body :: "string option"
  fa_timeout_ms :: "int option"

record FetchResponse =
  fp_status :: "16 word"
  fp_headers :: "(string \<times> string) list"
  fp_body :: string

record HttpRequest =
  hq_url :: string
  hq_method :: string
  hq_headers :: "(string \<times> string) list"
  hq_body :: "string option"
  hq_timeout_ms :: int
  hq_user_agent :: string

text \<open>A header value that is no text is \<open>None\<close>. The body's chunks are bytes, here written as characters; their lossy decoding as
  UTF-8 produces a replacement character beyond the model's range and is the argument \<open>hc_text\<close>.\<close>

record HttpResponse =
  hr_status :: "16 word"
  hr_headers :: "(string \<times> string option) list"
  hr_chunks :: "(string, string) result list"

record SendError =
  se_timeout :: bool
  se_redirect :: bool
  se_text :: string

datatype RedirectAction = Follow | RedirectError string

record HttpClient =
  hc_build :: "(string, unit) result"
  hc_header_name :: "string \<Rightarrow> bool"
  hc_text :: "string \<Rightarrow> string"
  hc_send :: "(string list \<Rightarrow> string \<Rightarrow> RedirectAction) \<Rightarrow> HttpRequest \<Rightarrow> string list \<times> (SendError, HttpResponse) result"

definition redirect_policy :: "url_parser \<Rightarrow> Permissions \<Rightarrow> string list \<Rightarrow> string \<Rightarrow> RedirectAction" where
  "redirect_policy parse_url p previous url =
     (if 5 \<le> length previous then RedirectError ''too many redirects''
      else case check_network parse_url p url of Inr _ \<Rightarrow> Follow | Inl _ \<Rightarrow> RedirectError ''redirect_off_whitelist'')"

definition send_error :: "SendError \<Rightarrow> BridgeError" where
  "send_error e =
     (if se_timeout e then BE_Timeout
      else if se_redirect e then BE_PolicyDenied ''redirect_off_whitelist''
      else if str_contains (se_text e) ''too many redirects'' then BE_PolicyDenied ''too_many_redirects''
      else BE_RuntimeError (''network: '' @ se_text e))"

fun read_body :: "string \<Rightarrow> (string, string) result list \<Rightarrow> (BridgeError, string) result" where
  "read_body bytes [] = Ok bytes"
| "read_body bytes (chunk # chunks) =
     (case chunk of
        Err e \<Rightarrow> Err (BE_RuntimeError (''network read: '' @ e))
      | Ok c \<Rightarrow>
         (if int (length bytes) + int (length c) > MAX_RESPONSE_BYTES then Err (BE_PolicyDenied ''response_too_large'')
          else read_body (bytes @ c) chunks))"

text \<open>The response's headers: a map, so the last value of a name counts.\<close>

definition text_headers :: "(string \<times> string option) list \<Rightarrow> (string \<times> string) list" where
  "text_headers hs = foldl (\<lambda>out (k, v). case v of Some s \<Rightarrow> hm_insert k s out | None \<Rightarrow> out) [] hs"

definition fetch :: "url_parser \<Rightarrow> HttpClient \<Rightarrow> Permissions \<Rightarrow> string \<Rightarrow> FetchArgs \<Rightarrow> string list \<times> (BridgeError, FetchResponse) result" where
  "fetch parse_url client p app_name args =
     (case check_network parse_url p (fa_url args) of
        Inl e \<Rightarrow> ([], Err e)
      | Inr _ \<Rightarrow>
         (let timeout_ms = min (case fa_timeout_ms args of Some t \<Rightarrow> t | None \<Rightarrow> DEFAULT_TIMEOUT_MS) MAX_TIMEOUT_MS
          in case hc_build client of
               Inl e \<Rightarrow> ([], Err (BE_RuntimeError (''http client: '' @ e)))
             | Inr _ \<Rightarrow>
                (case find (\<lambda>(k, v). \<not> hc_header_name client k) (fa_headers args) of
                   Some (k, v) \<Rightarrow> ([], Err (BE_Invalid (''bad header name: '' @ k)))
                 | None \<Rightarrow>
                    (case hc_send client (redirect_policy parse_url p)
                            \<lparr>hq_url = fa_url args, hq_method = method_str (fa_method args), hq_headers = fa_headers args,
                             hq_body = fa_body args, hq_timeout_ms = timeout_ms,
                             hq_user_agent = ''Orkia-Forge/0.2 (app:'' @ app_name @ '')''\<rparr> of
                       (contacted, Inl e) \<Rightarrow> (contacted, Err (send_error e))
                     | (contacted, Inr resp) \<Rightarrow>
                         (contacted, and_then (read_body [] (hr_chunks resp)) (\<lambda>body.
                            Ok \<lparr>fp_status = hr_status resp, fp_headers = text_headers (hr_headers resp), fp_body = hc_text client body\<rparr>))))))"

subsection \<open>Notifications\<close>

text \<open>Times are milliseconds of a monotonic clock, which never runs backwards.\<close>

type_synonym NotificationRateLimiter = "nat list"

definition limiter_check :: "nat \<Rightarrow> NotificationRateLimiter \<Rightarrow> NotificationRateLimiter \<times> (BridgeError, unit) result" where
  "limiter_check now log =
     (let log = filter (\<lambda>t. now - t \<le> 3600000) log;
          last_min = length (filter (\<lambda>t. now - t \<le> 60000) log);
          last_hour = length log
      in if 5 \<le> last_min then (log, Err (BE_PolicyDenied ''notification rate limit: max 5 per minute''))
         else if 100 \<le> last_hour then (log, Err (BE_PolicyDenied ''notification rate limit: max 100 per hour''))
         else (log @ [now], Ok ()))"

fun icon_name :: "NotifIcon \<Rightarrow> string" where
  "icon_name Icon_Info = ''dialog-information''"
| "icon_name Icon_Success = ''emblem-default''"
| "icon_name Icon_Warning = ''dialog-warning''"
| "icon_name Icon_Error = ''dialog-error''"

text \<open>What is shown, if anything, and the outcome; \<open>shown\<close> is the desktop's answer.\<close>

definition send_notification ::
  "(string, unit) result \<Rightarrow> nat \<Rightarrow> NotificationRateLimiter \<Rightarrow> string \<Rightarrow> string \<Rightarrow> NotifIcon \<Rightarrow>
   NotificationRateLimiter \<times> (string \<times> string \<times> string) option \<times> (BridgeError, unit) result" where
  "send_notification shown now log title body icon =
     (case limiter_check now log of
        (log', Inl e) \<Rightarrow> (log', None, Err e)
      | (log', Inr _) \<Rightarrow>
          (log', Some (title, body, icon_name icon), map_err (\<lambda>e. BE_RuntimeError (''notify: '' @ e)) shown))"

section \<open>What the checks guarantee\<close>

text \<open>Every dotted quad is recognised as an address.\<close>

lemma to_digit_10: "to_digit 10 c = (if is_digit c then Some (digit_val c) else None)"
  by (auto simp: to_digit_def is_digit_def digit_val_def Let_def)

lemma show_nat_length: "n < 10 ^ Suc k \<Longrightarrow> length (show_nat n) \<le> Suc k"
proof (induction k arbitrary: n)
  case (Suc k)
  then have "n div 10 < 10 ^ Suc k" by (simp add: less_mult_imp_div_less)
  from Suc.IH [OF this] show ?case by (subst show_nat.simps) simp
qed (simp add: show_nat.simps)

lemma show_nat_hd: "10 \<le> n \<Longrightarrow> hd (show_nat n) \<noteq> CHR ''0''"
proof (induction n rule: show_nat.induct)
  case (1 n)
  show ?case
  proof (cases "n div 10 < 10")
    case True
    moreover have "digit_char (n div 10) \<noteq> CHR ''0''"
    proof -
      have "1 \<le> n div 10" using 1(2) by simp
      then have "(of_char (digit_char (n div 10)) :: nat) \<noteq> of_char (CHR ''0'')" using True by (simp add: digit_char_def)
      then show ?thesis by metis
    qed
    ultimately show ?thesis using 1(2) by (simp add: show_nat.simps [of n] show_nat.simps [of "n div 10"])
  next
    case False
    have "show_nat (n div 10) \<noteq> []" by (subst show_nat.simps) simp
    then show ?thesis using 1 False by (simp add: show_nat.simps [of n])
  qed
qed

lemma read_octet:
  assumes "n \<le> 255" and "r = [] \<or> \<not> is_digit (hd r)"
  shows "read_number 10 3 False 255 (show_nat n @ r) = Some r"
proof -
  have ds: "takeWhile (\<lambda>c. to_digit 10 c \<noteq> None) (show_nat n @ r) = show_nat n"
    using assms(2) show_nat_digits [of n] by (cases r) (auto simp: to_digit_10 takeWhile_append list_all_iff)
  have "foldl (\<lambda>k c. 10 * k + the (to_digit 10 c)) m (show_nat n) = foldl (\<lambda>k c. 10 * k + digit_val c) m (show_nat n)" for m
    using show_nat_digits [of n] by (intro foldl_cong) (auto simp: to_digit_10 list_all_iff)
  then have v: "foldl (\<lambda>k c. 10 * k + the (to_digit 10 c)) 0 (show_nat n) = n" using read_show_nat [of n] by (simp add: read_nat_def)
  have "length (show_nat n) \<le> 3" using show_nat_length [of n 2] assms(1) by simp
  moreover have "hd (show_nat n) \<noteq> CHR ''0'' \<or> length (show_nat n) \<le> 1"
    using show_nat_hd [of n] by (cases "n < 10") (simp_all add: show_nat.simps [of n])
  moreover have "show_nat n \<noteq> []" by (subst show_nat.simps) simp
  ultimately show ?thesis using v assms(1) unfolding read_number_def Let_def ds by auto
qed

definition dotted_quad :: "nat \<Rightarrow> nat \<Rightarrow> nat \<Rightarrow> nat \<Rightarrow> string" where
  "dotted_quad a b c d = show_nat a @ ''.'' @ show_nat b @ ''.'' @ show_nat c @ ''.'' @ show_nat d"

lemma parse_dotted_quad:
  assumes "a \<le> 255" and "b \<le> 255" and "c \<le> 255" and "d \<le> 255"
  shows "read_ipv4_addr (dotted_quad a b c d) = Some []"
proof -
  have dot: "\<not> is_digit (CHR ''.'')" by (simp add: is_digit_def)
  have sep: "read_separator (CHR ''.'') (Suc i) f (CHR ''.'' # s) = f s" for i f s by (simp add: read_separator_def read_char_def)
  have start: "read_separator (CHR ''.'') 0 f s = f s" for f s by (simp add: read_separator_def)
  note o = read_octet [OF assms(1)] read_octet [OF assms(2)] read_octet [OF assms(3)] read_octet [OF assms(4), of "[]"]
  show ?thesis using o dot by (simp add: read_ipv4_addr_def dotted_quad_def numeral_eq_Suc sep start del: show_nat.simps)
qed

lemma check_network_Ok:
  "check_network pu p url = Ok () \<longleftrightarrow>
     (\<exists>u h. pu url = Ok u \<and> url_scheme u = ''https'' \<and> url_host u = Some h \<and> \<not> is_ip_literal h \<and> \<not> is_localhost h \<and>
        (\<exists>w \<in> set (pm_network p). to_ascii_lowercase w = to_ascii_lowercase h))"
  by (auto simp: check_network_def host_in_whitelist_def list_ex_iff split: sum.splits option.splits)

text \<open>For the instances below: a client that is redirected once.\<close>

definition sample_client :: HttpClient where
  "sample_client =
     \<lparr>hc_build = Ok (), hc_header_name = \<lambda>_. True, hc_text = \<lambda>s. s,
      hc_send = \<lambda>policy req.
        (if policy [hq_url req] ''https://api.x.com/2'' = Follow
         then ([hq_url req, ''https://api.x.com/2''], Ok \<lparr>hr_status = 200, hr_headers = [], hr_chunks = [Ok ''hello'']\<rparr>)
         else ([hq_url req], Err \<lparr>se_timeout = False, se_redirect = True, se_text = ''redirect''\<rparr>))\<rparr>"

definition sample_perms :: Permissions where
  "sample_perms = \<lparr>pm_storage = True, pm_agent = True, pm_network = [''API.x.com'', ''169.254.169.254''], pm_notification = True\<rparr>"

definition sample_args :: FetchArgs where
  "sample_args = \<lparr>fa_url = ''https://api.x.com/'', fa_method = Http_Get, fa_headers = [], fa_body = None, fa_timeout_ms = None\<rparr>"

text \<open>Addresses are refused: a fetch from a host given as a dotted quad is denied whatever the app's manifest allows, and
  nothing is contacted.\<close>

lemma dotted_quad_refused:
  assumes "pu url = Ok \<lparr>url_scheme = ''https'', url_host = Some (dotted_quad a b c d)\<rparr>" and "fa_url args = url"
    and "a \<le> 255" and "b \<le> 255" and "c \<le> 255" and "d \<le> 255"
  shows "fetch pu client p app args = ([], Err (BE_PermissionDenied ''IP literal hosts forbidden in V2''))"
proof -
  have "strip_prefix ''['' (dotted_quad a b c d) = None"
    using show_nat_digits [of a] by (cases "show_nat a") (auto simp: strip_prefix_def dotted_quad_def is_digit_def)
  then have "is_ip_literal (dotted_quad a b c d)"
    using parse_dotted_quad [OF assms(3-6)] by (simp add: is_ip_literal_def parse_ip_addr_def)
  then show ?thesis using assms(1,2) by (simp add: fetch_def check_network_def)
qed

text \<open>The client's documented behaviour: it starts at the URL of the request and follows a redirect only when the
  policy, given the URLs already requested, says so.\<close>

definition obeys_policy :: "HttpClient \<Rightarrow> bool" where
  "obeys_policy client \<longleftrightarrow>
     (\<forall>policy req urls r. hc_send client policy req = (urls, r) \<longrightarrow>
        (\<forall>i < length urls. if i = 0 then urls ! i = hq_url req else policy (take i urls) (urls ! i) = Follow))"

lemma read_body_bound:
  "read_body bytes cs = Ok s \<Longrightarrow> int (length bytes) \<le> MAX_RESPONSE_BYTES \<Longrightarrow> int (length s) \<le> MAX_RESPONSE_BYTES"
proof (induction cs arbitrary: bytes)
  case (Cons c cs)
  then obtain x where "c = Ok x" "int (length bytes) + int (length x) \<le> MAX_RESPONSE_BYTES" "read_body (bytes @ x) cs = Ok s"
    by (auto split: sum.splits if_splits)
  then show ?case using Cons.IH [of "bytes @ x"] by simp
qed simp

lemma follows_bound:
  assumes "obeys_policy client" and "check_network pu p (hq_url req) = Ok ()"
    and "hc_send client (redirect_policy pu p) req = (urls, r)"
  shows "length urls \<le> 5 \<and> (\<forall>url \<in> set urls. check_network pu p url = Ok ())"
proof -
  have f: "if i = 0 then urls ! i = hq_url req else redirect_policy pu p (take i urls) (urls ! i) = Follow" if "i < length urls" for i
    using assms(1,3) that unfolding obeys_policy_def by blast
  have "check_network pu p (urls ! i) = Ok () \<and> i < 5" if "i < length urls" for i
    using f [OF that] that assms(2) by (cases "i = 0") (auto simp: redirect_policy_def split: if_splits sum.splits)
  then have "\<And>i. i < length urls \<Longrightarrow> check_network pu p (urls ! i) = Ok ()" "length urls \<le> 5"
    using not_less by blast+
  then show ?thesis by (auto simp: in_set_conv_nth)
qed

lemma fetch_sends:
  assumes "fetch pu client p app args = (contacted, r)" and "contacted \<noteq> [] \<or> is_ok r"
  obtains req x where "check_network pu p (hq_url req) = Ok ()" and "hc_send client (redirect_policy pu p) req = (contacted, x)"
    and "\<forall>resp. r = Ok resp \<longrightarrow> (\<exists>h b. x = Ok h \<and> read_body [] (hr_chunks h) = Ok b \<and> fp_body resp = hc_text client b)"
proof -
  define req where "req = \<lparr>hq_url = fa_url args, hq_method = method_str (fa_method args), hq_headers = fa_headers args,
     hq_body = fa_body args, hq_timeout_ms = min (case fa_timeout_ms args of Some t \<Rightarrow> t | None \<Rightarrow> DEFAULT_TIMEOUT_MS) MAX_TIMEOUT_MS,
     hq_user_agent = ''Orkia-Forge/0.2 (app:'' @ app @ '')''\<rparr>"
  have c: "check_network pu p (hq_url req) = Ok ()" and "\<exists>x. hc_send client (redirect_policy pu p) req = (contacted, x) \<and>
      (\<forall>resp. r = Ok resp \<longrightarrow> (\<exists>h b. x = Ok h \<and> read_body [] (hr_chunks h) = Ok b \<and> fp_body resp = hc_text client b))"
    using assms unfolding fetch_def req_def
    by (auto simp: Let_def is_ok_def and_then_Ok_iff split: sum.splits option.splits prod.splits)
  from this(2) obtain x where x: "hc_send client (redirect_policy pu p) req = (contacted, x)"
    "\<forall>resp. r = Ok resp \<longrightarrow> (\<exists>h b. x = Ok h \<and> read_body [] (hr_chunks h) = Ok b \<and> fp_body resp = hc_text client b)" by (elim exE conjE)
  show thesis by (rule that [OF c x])
qed

lemma fetch_contacts:
  assumes "obeys_policy client" and "fetch pu client p app args = (contacted, r)"
  shows "length contacted \<le> 5" and "\<forall>url \<in> set contacted. check_network pu p url = Ok ()"
  using follows_bound [OF assms(1)] fetch_sends [OF assms(2)] by (cases "contacted = []", simp, metis)+

text \<open>C28. An app reaches only hosts of its manifest: every URL that a fetch contacts, redirects included, has the scheme https and a host that
  is no address and equals an entry of the app's network list up to case; never are more than the five redirects followed that the documentation
  allows, and a body that is returned decodes at most so many bytes as the size limit allows. The client is assumed to follow redirects as its policy says.\<close>

theorem fetch_stays_on_whitelist:
  assumes "obeys_policy client" and "fetch pu client p app args = (contacted, r)"
  shows "(\<forall>url \<in> set contacted. \<exists>u h. pu url = Ok u \<and> url_scheme u = ''https'' \<and> url_host u = Some h \<and> \<not> is_ip_literal h \<and>
      (\<exists>w \<in> set (pm_network p). to_ascii_lowercase w = to_ascii_lowercase h)) \<and>
    length contacted \<le> Suc 5 \<and> (\<forall>resp. r = Ok resp \<longrightarrow> (\<exists>bytes. fp_body resp = hc_text client bytes \<and> int (length bytes) \<le> MAX_RESPONSE_BYTES))"
proof -
  have "\<exists>bytes. fp_body resp = hc_text client bytes \<and> int (length bytes) \<le> MAX_RESPONSE_BYTES" if ok: "r = Ok resp" for resp
  proof -
    have "contacted \<noteq> [] \<or> is_ok r" using ok by simp
    then obtain req x where "check_network pu p (hq_url req) = Ok ()" "hc_send client (redirect_policy pu p) req = (contacted, x)"
      and b: "\<forall>resp. r = Ok resp \<longrightarrow> (\<exists>h b. x = Ok h \<and> read_body [] (hr_chunks h) = Ok b \<and> fp_body resp = hc_text client b)"
      by (rule fetch_sends [OF assms(2)])
    from b [rule_format, OF ok] show ?thesis using read_body_bound [of "[]"] by (auto simp: MAX_RESPONSE_BYTES_def)
  qed
  moreover have "length contacted \<le> Suc 5" using fetch_contacts(1) [OF assms] by simp
  ultimately show ?thesis using fetch_contacts(2) [OF assms] unfolding check_network_Ok by blast
qed

theorem fetch_stays_on_whitelist_witness:
  "fst (fetch (\<lambda>_. Ok \<lparr>url_scheme = ''https'', url_host = Some ''api.x.com''\<rparr>) sample_client sample_perms ''app'' sample_args) =
     [''https://api.x.com/'', ''https://api.x.com/2''] \<and>
   length (fst (fetch (\<lambda>_. Ok \<lparr>url_scheme = ''https'', url_host = Some ''api.x.com''\<rparr>) sample_client sample_perms ''app'' sample_args)) \<le> Suc 5"
proof -
  let ?pu = "\<lambda>_. Ok \<lparr>url_scheme = ''https'', url_host = Some ''api.x.com''\<rparr>"
  have "obeys_policy sample_client"
    unfolding obeys_policy_def sample_client_def by (simp add: less_Suc_eq)
  moreover obtain us r where f: "fetch ?pu sample_client sample_perms ''app'' sample_args = (us, r)" by fastforce
  ultimately have "length us \<le> Suc 5" using fetch_stays_on_whitelist by blast
  moreover have "fst (fetch ?pu sample_client sample_perms ''app'' sample_args) = [''https://api.x.com/'', ''https://api.x.com/2'']" by code_simp
  ultimately show ?thesis using f by simp
qed

text \<open>Every redirect that the policy refuses is reported as leaving the whitelist, the sixth request of a chain too.\<close>

lemma redirect_refusals_look_alike:
  "se_redirect e \<Longrightarrow> \<not> se_timeout e \<Longrightarrow> send_error e = BE_PolicyDenied ''redirect_off_whitelist''"
  "5 \<le> length previous \<Longrightarrow> redirect_policy pu p previous url = RedirectError ''too many redirects''"
  by (simp_all add: send_error_def redirect_policy_def)

subsection \<open>The notification limits\<close>

text \<open>The times at which notifications are let through, for checks at the given times.\<close>

fun let_through :: "nat list \<Rightarrow> NotificationRateLimiter \<Rightarrow> nat list" where
  "let_through [] log = []"
| "let_through (t # ts) log =
     (case limiter_check t log of
        (log', Inr _) \<Rightarrow> t # let_through ts log'
      | (log', Inl _) \<Rightarrow> let_through ts log')"

definition in_window :: "nat \<Rightarrow> nat \<Rightarrow> nat list \<Rightarrow> nat" where
  "in_window w t ts = length (filter (\<lambda>a. a \<le> t \<and> t - a \<le> w) ts)"

definition within_limits :: "nat list \<Rightarrow> bool" where
  "within_limits ts \<longleftrightarrow> (\<forall>t. in_window 60000 t ts \<le> 5 \<and> in_window 3600000 t ts \<le> 100)"

lemma in_window_snoc:
  assumes "length (filter (\<lambda>a. t - a \<le> w) ts) < k" and "\<And>s. in_window w s ts \<le> k"
  shows "in_window w s (ts @ [t]) \<le> k"
proof (cases "t \<le> s")
  case True
  have "filter (\<lambda>a. a \<le> s \<and> s - a \<le> w) ts = filter (\<lambda>a. a \<le> s \<and> s - a \<le> w) (filter (\<lambda>a. t - a \<le> w) ts)"
    using True by (auto intro!: filter_cong)
  then have "in_window w s ts \<le> length (filter (\<lambda>a. t - a \<le> w) ts)" by (metis in_window_def length_filter_le)
  then show ?thesis using assms(1) by (simp add: in_window_def)
next
  case False
  then show ?thesis using assms(2) [of s] by (simp add: in_window_def)
qed

lemma let_through_limits:
  assumes "sorted (now # ts)" and "log = filter (\<lambda>a. now - a \<le> 3600000) A" and "within_limits A" and "\<forall>a \<in> set A. a \<le> now"
  shows "within_limits (A @ let_through ts log)"
  using assms
proof (induction ts arbitrary: now log A)
  case (Cons t ts)
  let ?log = "filter (\<lambda>a. t - a \<le> 3600000) A"
  have l: "filter (\<lambda>a. t - a \<le> 3600000) log = ?log" "filter (\<lambda>a. t - a \<le> 60000) ?log = filter (\<lambda>a. t - a \<le> 60000) A"
    using Cons.prems(1,2) by (auto intro!: filter_cong)
  have st: "sorted (t # ts)" "now \<le> t" using Cons.prems(1) by auto
  show ?case
  proof (cases "length (filter (\<lambda>a. t - a \<le> 60000) A) < 5 \<and> length ?log < 100")
    case True
    then have c: "limiter_check t log = (?log @ [t], Ok ())" unfolding limiter_check_def Let_def l by simp
    have "within_limits (A @ [t])"
      using Cons.prems(3) True in_window_snoc [of t 60000 A 5] in_window_snoc [of t 3600000 A 100] by (simp add: within_limits_def)
    then have "within_limits ((A @ [t]) @ let_through ts (?log @ [t]))"
      using st Cons.prems(4) by (intro Cons.IH [of t]) auto
    then show ?thesis by (simp add: c)
  next
    case False
    then have "\<exists>e. limiter_check t log = (?log, Err e)"
      unfolding limiter_check_def Let_def l by (cases "5 \<le> length (filter (\<lambda>a. t - a \<le> 60000) A)") simp_all
    then obtain e where c: "limiter_check t log = (?log, Err e)" by blast
    have "within_limits (A @ let_through ts ?log)" using st Cons.prems(3,4) by (intro Cons.IH [of t]) auto
    then show ?thesis by (simp add: c)
  qed
qed simp

text \<open>The notification limits hold over every window: whenever an app asks to notify, the notifications let through are at
  most five in any minute and at most one hundred in any hour, not only in the windows that end at a request.\<close>

lemma notifications_limited:
  assumes "sorted ts"
  shows "within_limits (let_through ts [])"
proof (cases ts)
  case Nil
  then show ?thesis by (simp add: within_limits_def in_window_def)
next
  case (Cons t us)
  have "within_limits ([] @ let_through ts [])"
    by (rule let_through_limits [of t]) (use assms Cons in \<open>auto simp: within_limits_def in_window_def\<close>)
  then show ?thesis by simp
qed

end
