(* ===== verification/Forge_Seal.thy ===== *)
theory Forge_Seal
  imports Seal_Chain
begin

section \<open>The signed chain of a Forge app\<close>

text \<open>
  Models \<^verbatim>\<open>crates/orkia-forge-seal\<close>: the records (\<^verbatim>\<open>record.rs\<close>), the per-app key (\<^verbatim>\<open>key.rs\<close>), the writer and
  the verifier. Serialization, SHA-256 and ECDSA are libraries and are the fields of \<open>ForgeCodec\<close>; a key is
  opaque text. Verification also checks numbering and signatures, so the chain is an instance of the weaker contract
  \<open>chain_links\<close>. Reading a file line by line is one call of the host that may fail.
\<close>

subsection \<open>Records and keys\<close>

definition GENESIS_PREV :: string where
  "GENESIS_PREV = ''sha256:'' @ zero_hash"

record ForgeSealRecord =
  fr_id :: "64 word"
  fr_ts :: string
  fr_prev_hash :: string
  fr_kind :: string
  fr_data :: Json
  fr_hash :: string
  fr_sig :: string

record UnsignedRecord =
  un_id :: "64 word"
  un_ts :: string
  un_prev_hash :: string
  un_kind :: string
  un_data :: Json

text \<open>A signature that cannot be decoded, one that does not fit, one that does.\<close>

datatype SigCheck = Sig_Undecodable string | Sig_Wrong | Sig_Valid

record ForgeCodec =
  fx_sha :: "string \<Rightarrow> string"
  fx_unsigned :: "UnsignedRecord \<Rightarrow> (string, string) result"
  fx_print :: "ForgeSealRecord \<Rightarrow> (string, string) result"
  fx_parse :: "string \<Rightarrow> (string, ForgeSealRecord) result"
  fx_sign :: "string \<Rightarrow> string \<Rightarrow> string"
  fx_check :: "string \<Rightarrow> string \<Rightarrow> string \<Rightarrow> SigCheck"
  fx_key_of_pem :: "string \<Rightarrow> (string, string) result"
  fx_pem_of_key :: "string \<Rightarrow> (string, string) result"

datatype SealKeyError = SK_Io string | SK_Pem string | SK_NoParent

record SealKey =
  sk_key :: string
  sk_path :: path

definition key_load :: "ForgeCodec \<Rightarrow> Io \<Rightarrow> fs \<Rightarrow> path \<Rightarrow> (SealKeyError, SealKey) result" where
  "key_load cx io fs p =
     (case io_err io ''pem'' Read of
        Some e \<Rightarrow> Err (SK_Io e)
      | None \<Rightarrow>
         (case fs p of
            None \<Rightarrow> Err (SK_Io ''not found'')
          | Some pem \<Rightarrow>
             (case fx_key_of_pem cx pem of Err e \<Rightarrow> Err (SK_Pem e) | Ok k \<Rightarrow> Ok \<lparr>sk_key = k, sk_path = p\<rparr>)))"

text \<open>The fresh key is an argument: the host's random numbers.\<close>

definition key_generate_and_save :: "ForgeCodec \<Rightarrow> Io \<Rightarrow> string \<Rightarrow> path \<Rightarrow> fs \<Rightarrow> fs \<times> (SealKeyError, SealKey) result" where
  "key_generate_and_save cx io fresh p fs =
     (if path_parent p = None then (fs, Err SK_NoParent)
      else case io_err io ''keydir'' MkDir of
             Some e \<Rightarrow> (fs, Err (SK_Io e))
           | None \<Rightarrow>
              (case fx_pem_of_key cx fresh of
                 Err e \<Rightarrow> (fs, Err (SK_Pem e))
               | Ok pem \<Rightarrow>
                  (case fs_fill io ''keyopen'' ''keywrite'' p pem fs of
                     (fs', Inl (_, e)) \<Rightarrow> (fs', Err (SK_Io e))
                   | (fs', Inr _) \<Rightarrow> (fs', Ok \<lparr>sk_key = fresh, sk_path = p\<rparr>))))"

definition key_load_or_generate :: "ForgeCodec \<Rightarrow> Io \<Rightarrow> string \<Rightarrow> path \<Rightarrow> fs \<Rightarrow> fs \<times> (SealKeyError, SealKey) result" where
  "key_load_or_generate cx io fresh seal_dir fs =
     (let p = seal_dir @ [''signing.pem'']
      in if fs p \<noteq> None then (fs, key_load cx io fs p) else key_generate_and_save cx io fresh p fs)"

subsection \<open>The writer\<close>

datatype SealWriterError = SW_Io string | SW_Key SealKeyError | SW_Serde string | SW_Corrupt string

record SealWriter =
  sw_path :: path
  sw_key :: SealKey

definition writer_open :: "ForgeCodec \<Rightarrow> Io \<Rightarrow> string \<Rightarrow> path \<Rightarrow> fs \<Rightarrow> fs \<times> (SealWriterError, SealWriter) result" where
  "writer_open cx io fresh seal_dir fs =
     (case io_err io ''sealdir'' MkDir of
        Some e \<Rightarrow> (fs, Err (SW_Io e))
      | None \<Rightarrow>
         (case key_load_or_generate cx io fresh seal_dir fs of
            (fs1, Inl e) \<Rightarrow> (fs1, Err (SW_Key e))
          | (fs1, Inr key) \<Rightarrow>
             (let p = seal_dir @ [''events.jsonl'']; w = \<lparr>sw_path = p, sw_key = key\<rparr>
              in if fs1 p \<noteq> None then (fs1, Ok w)
                 else case io_err io ''touch'' Open of
                        Some e \<Rightarrow> (fs1, Err (SW_Io e))
                      | None \<Rightarrow> (fs1(p \<mapsto> []), Ok w))))"

definition record_lines :: "string \<Rightarrow> string list" where
  "record_lines s = filter (\<lambda>l. trim l \<noteq> []) (str_lines s)"

definition read_tail :: "ForgeCodec \<Rightarrow> Io \<Rightarrow> fs \<Rightarrow> path \<Rightarrow> (SealWriterError, 64 word \<times> string) result" where
  "read_tail cx io fs p =
     (case fs p of
        None \<Rightarrow> Ok (1, GENESIS_PREV)
      | Some s \<Rightarrow>
         (case io_err io ''tail'' Read of
            Some e \<Rightarrow> Err (SW_Io e)
          | None \<Rightarrow>
             (case last_opt (record_lines s) of
                None \<Rightarrow> Ok (1, GENESIS_PREV)
              | Some line \<Rightarrow>
                 (case fx_parse cx line of
                    Err e \<Rightarrow> Err (SW_Corrupt (''tail record: '' @ e))
                  | Ok parsed \<Rightarrow> Ok (fr_id parsed + 1, fr_hash parsed)))))"

definition sign_record :: "ForgeCodec \<Rightarrow> string \<Rightarrow> string \<Rightarrow> 64 word \<Rightarrow> string \<Rightarrow> string \<Rightarrow> Json \<Rightarrow> (SealWriterError, ForgeSealRecord) result" where
  "sign_record cx key now next_id prev_hash kind data =
     (case fx_unsigned cx \<lparr>un_id = next_id, un_ts = now, un_prev_hash = prev_hash, un_kind = kind, un_data = data\<rparr> of
        Err e \<Rightarrow> Err (SW_Serde e)
      | Ok bytes \<Rightarrow>
         (let hash_str = ''sha256:'' @ fx_sha cx bytes
          in Ok \<lparr>fr_id = next_id, fr_ts = now, fr_prev_hash = prev_hash, fr_kind = kind, fr_data = data,
                 fr_hash = hash_str, fr_sig = fx_sign cx key hash_str\<rparr>))"

definition forge_append :: "ForgeCodec \<Rightarrow> Io \<Rightarrow> string \<Rightarrow> SealWriter \<Rightarrow> string \<Rightarrow> Json \<Rightarrow> fs \<Rightarrow> fs \<times> (SealWriterError, 64 word) result" where
  "forge_append cx io now w kind data fs =
     fs_bind (fs, read_tail cx io fs (sw_path w)) (\<lambda>fs (next_id, prev_hash).
     fs_bind (fs, sign_record cx (sk_key (sw_key w)) now next_id prev_hash kind data) (\<lambda>fs full.
       (case fx_print cx full of
          Err e \<Rightarrow> (fs, Err (SW_Serde e))
        | Ok line \<Rightarrow>
           (let old = (case fs (sw_path w) of Some s \<Rightarrow> s | None \<Rightarrow> [])
            in case io_err io ''append'' Open of
                 Some e \<Rightarrow> (fs, Err (SW_Io e))
               | None \<Rightarrow>
                  (case io_err io ''append'' Write of
                     Some e \<Rightarrow> (fs(sw_path w \<mapsto> old @ take (io_part io ''append'') (line @ [NL])), Err (SW_Io e))
                   | None \<Rightarrow>
                      (case io_err io ''append'' Sync of
                         Some e \<Rightarrow> (fs(sw_path w \<mapsto> old @ line @ [NL]), Err (SW_Io e))
                       | None \<Rightarrow> (fs(sw_path w \<mapsto> old @ line @ [NL]), Ok next_id)))))))"

subsection \<open>The verifier\<close>

datatype VerifyError =
    VE_Io string | VE_Key SealKeyError | VE_Parse "64 word" string | VE_HashMismatch "64 word" | VE_ChainBroken "64 word"
  | VE_IdSkip "64 word" "64 word" | VE_BadSignature "64 word" | VE_SigDecode "64 word" string

record VerifyReport =
  vr_events :: "64 word"
  vr_last_hash :: string

definition verify_record :: "ForgeCodec \<Rightarrow> string \<Rightarrow> string \<Rightarrow> 64 word \<Rightarrow> ForgeSealRecord \<Rightarrow> (VerifyError, unit) result" where
  "verify_record cx key prev_hash expected_id rec =
     (if fr_id rec \<noteq> expected_id then Err (VE_IdSkip expected_id (fr_id rec))
      else if fr_prev_hash rec \<noteq> prev_hash then Err (VE_ChainBroken (fr_id rec))
      else case fx_unsigned cx \<lparr>un_id = fr_id rec, un_ts = fr_ts rec, un_prev_hash = fr_prev_hash rec, un_kind = fr_kind rec,
                                un_data = fr_data rec\<rparr> of
             Err e \<Rightarrow> Err (VE_Parse (fr_id rec) e)
           | Ok bytes \<Rightarrow>
              (if ''sha256:'' @ fx_sha cx bytes \<noteq> fr_hash rec then Err (VE_HashMismatch (fr_id rec))
               else case fx_check cx key (fr_hash rec) (fr_sig rec) of
                      Sig_Undecodable e \<Rightarrow> Err (VE_SigDecode (fr_id rec) e)
                    | Sig_Wrong \<Rightarrow> Err (VE_BadSignature (fr_id rec))
                    | Sig_Valid \<Rightarrow> Ok ()))"

fun verify_lines :: "ForgeCodec \<Rightarrow> string \<Rightarrow> nat \<Rightarrow> string \<Rightarrow> 64 word \<Rightarrow> 64 word \<Rightarrow> string list \<Rightarrow> (VerifyError, VerifyReport) result" where
  "verify_lines cx key line_no prev_hash expected_id count [] = Ok \<lparr>vr_events = count, vr_last_hash = prev_hash\<rparr>"
| "verify_lines cx key line_no prev_hash expected_id count (line # lines) =
     (if trim line = [] then verify_lines cx key (line_no + 1) prev_hash expected_id count lines
      else case fx_parse cx line of
             Err e \<Rightarrow> Err (VE_Parse expected_id (''line '' @ show_nat (line_no + 1) @ '': '' @ e))
           | Ok rec \<Rightarrow>
               and_then (verify_record cx key prev_hash expected_id rec) (\<lambda>_.
                 verify_lines cx key (line_no + 1) (fr_hash rec) (expected_id + 1) (count + 1) lines))"

definition forge_verify :: "ForgeCodec \<Rightarrow> Io \<Rightarrow> fs \<Rightarrow> path \<Rightarrow> (VerifyError, VerifyReport) result" where
  "forge_verify cx io fs seal_dir =
     and_then (map_err VE_Key (key_load cx io fs (seal_dir @ [''signing.pem'']))) (\<lambda>key.
       (case io_err io ''events'' Open of
          Some e \<Rightarrow> Err (VE_Io e)
        | None \<Rightarrow>
           (case fs (seal_dir @ [''events.jsonl'']) of
              None \<Rightarrow> Err (VE_Io ''not found'')
            | Some s \<Rightarrow>
               (case io_err io ''events'' Read of
                  Some e \<Rightarrow> Err (VE_Io e)
                | None \<Rightarrow> verify_lines cx (sk_key key) 0 GENESIS_PREV 1 0 (str_lines s)))))"

section \<open>An instance of the link contract\<close>

fun forge_ok :: "ForgeCodec \<Rightarrow> string \<Rightarrow> string \<Rightarrow> 64 word \<Rightarrow> ForgeSealRecord list \<Rightarrow> bool" where
  "forge_ok cx key prev i [] = True"
| "forge_ok cx key prev i (r # rs) \<longleftrightarrow> is_ok (verify_record cx key prev i r) \<and> forge_ok cx key (fr_hash r) (i + 1) rs"

definition forge_digest :: "ForgeCodec \<Rightarrow> string \<Rightarrow> ForgeSealRecord \<Rightarrow> string" where
  "forge_digest cx prev r =
     (case fx_unsigned cx \<lparr>un_id = fr_id r, un_ts = fr_ts r, un_prev_hash = prev, un_kind = fr_kind r, un_data = fr_data r\<rparr> of
        Ok bytes \<Rightarrow> ''sha256:'' @ fx_sha cx bytes
      | Err _ \<Rightarrow> [])"

lemma verify_record_Ok:
  "is_ok (verify_record cx key prev i r) \<longleftrightarrow>
     fr_id r = i \<and> fr_prev_hash r = prev \<and>
     (\<exists>bytes. fx_unsigned cx \<lparr>un_id = i, un_ts = fr_ts r, un_prev_hash = prev, un_kind = fr_kind r, un_data = fr_data r\<rparr> = Ok bytes \<and>
        fr_hash r = ''sha256:'' @ fx_sha cx bytes) \<and> fx_check cx key (fr_hash r) (fr_sig r) = Sig_Valid"
  by (auto simp: verify_record_def is_ok_def split: sum.splits SigCheck.splits)

lemma forge_ok_snoc:
  "forge_ok cx key p i (rs @ [r]) \<longleftrightarrow>
     forge_ok cx key p i rs \<and> is_ok (verify_record cx key (if rs = [] then p else fr_hash (last rs)) (i + of_nat (length rs)) r)"
  by (induction rs arbitrary: p i) (auto simp: algebra_simps)

interpretation fseal: chain_links "forge_ok cx key GENESIS_PREV 1" fr_prev_hash fr_hash GENESIS_PREV "forge_digest cx" for cx key
  by unfold_locales (auto simp: forge_ok_snoc verify_record_Ok forge_digest_def)

text \<open>What the verifier of a file computes: a verdict on the records of its lines.\<close>

lemma verify_lines_Ok:
  "verify_lines cx key n p i c ls = Ok rep \<longleftrightarrow>
     (\<exists>rs. map (fx_parse cx) (filter (\<lambda>l. trim l \<noteq> []) ls) = map Ok rs \<and> forge_ok cx key p i rs \<and>
        rep = \<lparr>vr_events = c + of_nat (length rs), vr_last_hash = (if rs = [] then p else fr_hash (last rs))\<rparr>)"
proof (induction ls arbitrary: n p i c)
  case (Cons l ls)
  let ?f = "map (fx_parse cx) (filter (\<lambda>l. trim l \<noteq> []) ls)"
  show ?case
  proof (cases "trim l = []")
    case False
    show ?thesis
    proof (cases "fx_parse cx l")
      case (Inl e)
      then show ?thesis using False by (simp add: Cons_eq_map_conv)
    next
      case (Inr r)
      have v: "verify_lines cx key n p i c (l # ls) = Ok rep \<longleftrightarrow>
          is_ok (verify_record cx key p i r) \<and> verify_lines cx key (n + 1) (fr_hash r) (i + 1) (c + 1) ls = Ok rep"
        using False Inr by (simp add: and_then_Ok_iff is_ok_iff)
      have f: "map (fx_parse cx) (filter (\<lambda>l. trim l \<noteq> []) (l # ls)) = Ok r # ?f" using False Inr by simp
      show ?thesis
      proof
        assume "verify_lines cx key n p i c (l # ls) = Ok rep"
        then obtain qs where "is_ok (verify_record cx key p i r)" "?f = map Ok qs" "forge_ok cx key (fr_hash r) (i + 1) qs"
          "rep = \<lparr>vr_events = c + 1 + of_nat (length qs), vr_last_hash = (if qs = [] then fr_hash r else fr_hash (last qs))\<rparr>"
          unfolding v Cons.IH by blast
        then show "\<exists>rs. map (fx_parse cx) (filter (\<lambda>l. trim l \<noteq> []) (l # ls)) = map Ok rs \<and> forge_ok cx key p i rs \<and>
            rep = \<lparr>vr_events = c + of_nat (length rs), vr_last_hash = (if rs = [] then p else fr_hash (last rs))\<rparr>"
          unfolding f by (intro exI [of _ "r # qs"]) (simp add: algebra_simps)
      next
        assume "\<exists>rs. map (fx_parse cx) (filter (\<lambda>l. trim l \<noteq> []) (l # ls)) = map Ok rs \<and> forge_ok cx key p i rs \<and>
            rep = \<lparr>vr_events = c + of_nat (length rs), vr_last_hash = (if rs = [] then p else fr_hash (last rs))\<rparr>"
        then obtain rs where rs: "Ok r # ?f = map Ok rs" "forge_ok cx key p i rs"
          "rep = \<lparr>vr_events = c + of_nat (length rs), vr_last_hash = (if rs = [] then p else fr_hash (last rs))\<rparr>" unfolding f by (elim exE conjE) (rule that)
        then obtain qs where "rs = r # qs" "?f = map Ok qs" by (cases rs) simp_all
        then show "verify_lines cx key n p i c (l # ls) = Ok rep"
          using rs(2,3) unfolding v Cons.IH by (intro conjI exI [of _ qs]) (simp_all add: algebra_simps)
      qed
    qed
  qed (use Cons.IH in simp)
qed (simp, blast)

text \<open>The record's line parses back and does not break the line structure.\<close>

definition forge_print_ok :: "ForgeCodec \<Rightarrow> ForgeSealRecord \<Rightarrow> bool" where
  "forge_print_ok cx r \<longleftrightarrow>
     (\<forall>line. fx_print cx r = Ok line \<longrightarrow> fx_parse cx line = Ok r \<and> trim line \<noteq> [] \<and> NL \<notin> set line \<and>
        \<not> suffix [CHR 0x0D] line)"

lemma forge_verify_Ok:
  assumes "forge_verify cx io_fine fs dir = Ok rep" and "key_load cx io_fine fs (dir @ [''signing.pem'']) = Ok key"
  obtains s rs where "fs (dir @ [''events.jsonl'']) = Some s" and "map (fx_parse cx) (record_lines s) = map Ok rs"
    and "forge_ok cx (sk_key key) GENESIS_PREV 1 rs"
    and "rep = \<lparr>vr_events = of_nat (length rs), vr_last_hash = (if rs = [] then GENESIS_PREV else fr_hash (last rs))\<rparr>"
proof -
  obtain s where s: "fs (dir @ [''events.jsonl'']) = Some s" "verify_lines cx (sk_key key) 0 GENESIS_PREV 1 0 (str_lines s) = Ok rep"
    using assms by (auto simp: forge_verify_def io_fine_def map_err_def and_then_def split: option.splits)
  then show thesis using that [of s] unfolding verify_lines_Ok record_lines_def by force
qed

lemma forge_verify_intro:
  assumes "key_load cx io_fine fs (dir @ [''signing.pem'']) = Ok key" and "fs (dir @ [''events.jsonl'']) = Some s"
    and "map (fx_parse cx) (record_lines s) = map Ok rs" and "forge_ok cx (sk_key key) GENESIS_PREV 1 rs" and "rs \<noteq> []"
  shows "forge_verify cx io_fine fs dir = Ok \<lparr>vr_events = of_nat (length rs), vr_last_hash = fr_hash (last rs)\<rparr>"
proof -
  have "verify_lines cx (sk_key key) 0 GENESIS_PREV 1 0 (str_lines s) = Ok \<lparr>vr_events = of_nat (length rs), vr_last_hash = fr_hash (last rs)\<rparr>"
    using assms(3-5) unfolding verify_lines_Ok record_lines_def by force
  then show ?thesis using assms(1,2) by (simp add: forge_verify_def io_fine_def map_err_def and_then_def)
qed

text \<open>Where the next record goes, for a file whose records verify.\<close>

lemma read_tail_ok:
  assumes "fs p = Some s" and "map (fx_parse cx) (record_lines s) = map Ok rs" and "forge_ok cx key GENESIS_PREV 1 rs"
    and "read_tail cx io fs p = Ok (i, h)"
  shows "i = 1 + of_nat (length rs)" and "h = (if rs = [] then GENESIS_PREV else fr_hash (last rs))"
proof -
  have "i = 1 + of_nat (length rs) \<and> h = (if rs = [] then GENESIS_PREV else fr_hash (last rs))"
  proof (cases rs rule: rev_cases)
    case Nil
    then show ?thesis using assms(1,2,4) by (auto simp: read_tail_def split: option.splits)
  next
    case (snoc qs r)
    then obtain ls l where l: "record_lines s = ls @ [l]" "fx_parse cx l = Ok r"
      using assms(2) by (auto simp: map_eq_append_conv)
    have "fr_id r = 1 + of_nat (length qs)" using assms(3) by (simp add: snoc forge_ok_snoc verify_record_Ok)
    then show ?thesis using assms(1,4) l by (auto simp: read_tail_def snoc algebra_simps split: option.splits)
  qed
  then show "i = 1 + of_nat (length rs)" "h = (if rs = [] then GENESIS_PREV else fr_hash (last rs))" by auto
qed

lemma forge_append_Ok:
  assumes "forge_append cx io now w kind data fs = (fs', Ok i)"
  obtains prev r line where "read_tail cx io fs (sw_path w) = Ok (i, prev)"
    and "sign_record cx (sk_key (sw_key w)) now i prev kind data = Ok r" and "fx_print cx r = Ok line"
    and "fs' = fs(sw_path w \<mapsto> (case fs (sw_path w) of Some s \<Rightarrow> s | None \<Rightarrow> []) @ line @ [NL])"
proof (cases "read_tail cx io fs (sw_path w)")
  case (Inr t)
  obtain j prev where t: "t = (j, prev)" by fastforce
  show thesis
  proof (cases "sign_record cx (sk_key (sw_key w)) now j prev kind data")
    case (Inr r)
    show thesis using assms that [of prev r] \<open>read_tail cx io fs (sw_path w) = Inr t\<close> t Inr
      by (auto simp: forge_append_def Let_def split: sum.splits option.splits)
  qed (use assms Inr t in \<open>auto simp: forge_append_def\<close>)
qed (use assms in \<open>auto simp: forge_append_def\<close>)

lemma signed_record_verifies:
  assumes "sign_record cx key now i prev kind data = Ok r" and "\<And>h. fx_check cx key h (fx_sign cx key h) = Sig_Valid"
  shows "is_ok (verify_record cx key prev i r)" and "fr_prev_hash r = prev" and "fr_kind r = kind" and "fr_data r = data"
  using assms by (auto simp: sign_record_def verify_record_Ok Let_def split: sum.splits)

text \<open>The log file at a path holds these records, each on its line, and they verify.\<close>

definition chain_holds :: "ForgeCodec \<Rightarrow> string \<Rightarrow> fs \<Rightarrow> path \<Rightarrow> ForgeSealRecord list \<Rightarrow> bool" where
  "chain_holds cx key fs p rs \<longleftrightarrow>
     (\<exists>s. fs p = Some s \<and> log_closed s \<and> map (fx_parse cx) (record_lines s) = map Ok rs \<and> forge_ok cx key GENESIS_PREV 1 rs)"

lemma forge_append_holds:
  assumes "chain_holds cx (sk_key (sw_key w)) fs (sw_path w) rs"
    and "\<And>h. fx_check cx (sk_key (sw_key w)) h (fx_sign cx (sk_key (sw_key w)) h) = Sig_Valid"
    and "\<And>r prev i. sign_record cx (sk_key (sw_key w)) now i prev kind data = Ok r \<Longrightarrow> forge_print_ok cx r"
    and "forge_append cx io now w kind data fs = (fs', Ok i)"
  obtains r where "chain_holds cx (sk_key (sw_key w)) fs' (sw_path w) (rs @ [r])" and "fr_kind r = kind" and "fr_data r = data"
    and "fr_prev_hash r = (if rs = [] then GENESIS_PREV else fr_hash (last rs))" and "i = 1 + of_nat (length rs)"
    and "\<And>q. q \<noteq> sw_path w \<Longrightarrow> fs' q = fs q"
proof -
  let ?key = "sk_key (sw_key w)"
  obtain s where s: "fs (sw_path w) = Some s" "map (fx_parse cx) (record_lines s) = map Ok rs" "forge_ok cx ?key GENESIS_PREV 1 rs"
    and closed: "log_closed s" using assms(1) by (auto simp: chain_holds_def)
  obtain prev r line where t: "read_tail cx io fs (sw_path w) = Ok (i, prev)" and r: "sign_record cx ?key now i prev kind data = Ok r"
    and l: "fx_print cx r = Ok line" and fs': "fs' = fs(sw_path w \<mapsto> s @ line @ [NL])"
    using forge_append_Ok [OF assms(4)] s(1) by auto
  note tail = read_tail_ok [OF s t]
  note v = signed_record_verifies [OF r assms(2)]
  have lo: "fx_parse cx line = Ok r" "trim line \<noteq> []" "NL \<notin> set line" "\<not> suffix [CHR 0x0D] line"
    using assms(3) [OF r] l by (simp_all add: forge_print_ok_def)
  have "record_lines (s @ line @ [NL]) = record_lines s @ [line]"
    using closed lo(2-4) by (simp add: record_lines_def str_lines_snoc)
  then have m: "map (fx_parse cx) (record_lines (s @ line @ [NL])) = map Ok (rs @ [r])" using s(2) lo(1) by simp
  have ok: "forge_ok cx ?key GENESIS_PREV 1 (rs @ [r])" using s(3) v(1) unfolding forge_ok_snoc tail by blast
  have "chain_holds cx ?key fs' (sw_path w) (rs @ [r])" using m ok by (auto simp: chain_holds_def fs' log_closed_def)
  then show thesis using that v(2-4) tail fs' by simp
qed

lemma key_load_cong: "fs p = fs' p \<Longrightarrow> key_load cx io fs p = key_load cx io fs' p"
  by (simp only: key_load_def)

lemma chain_holds_verifies:
  assumes "chain_holds cx (sk_key key) fs (dir @ [''events.jsonl'']) rs" and "key_load cx io_fine fs (dir @ [''signing.pem'']) = Ok key"
    and "rs \<noteq> []"
  shows "forge_verify cx io_fine fs dir = Ok \<lparr>vr_events = of_nat (length rs), vr_last_hash = fr_hash (last rs)\<rparr>"
  using assms(1,3) forge_verify_intro [OF assms(2)] by (auto simp: chain_holds_def)

text \<open>A Forge chain grows soundly: when the chain of an app verifies and an event is appended, the event gets the next number, and the
  chain verifies with one event more, whose record holds the event and follows the previous last hash. Relied on: a signature
  made with the app's key checks, and the record's JSON parses back from one line.\<close>

lemma forge_append_verifies:
  assumes "forge_verify cx io_fine fs dir = Ok rep" and "key_load cx io_fine fs (dir @ [''signing.pem'']) = Ok key"
    and "w = \<lparr>sw_path = dir @ [''events.jsonl''], sw_key = key\<rparr>" and "log_closed (case fs (sw_path w) of Some s \<Rightarrow> s | None \<Rightarrow> [])"
    and "\<And>h. fx_check cx (sk_key key) h (fx_sign cx (sk_key key) h) = Sig_Valid"
    and "\<And>r prev i. sign_record cx (sk_key key) now i prev kind data = Ok r \<Longrightarrow> forge_print_ok cx r"
    and "forge_append cx io now w kind data fs = (fs', Ok i)"
  shows "i = vr_events rep + 1 \<and>
    (\<exists>r :: ForgeSealRecord. forge_verify cx io_fine fs' dir = Ok \<lparr>vr_events = i, vr_last_hash = fr_hash r\<rparr> \<and>
       fr_prev_hash r = vr_last_hash rep \<and> fr_kind r = kind \<and> fr_data r = data)"
proof -
  have w: "sw_key w = key" "sw_path w = dir @ [''events.jsonl'']" using assms(3) by simp_all
  obtain s rs where s: "fs (sw_path w) = Some s" "map (fx_parse cx) (record_lines s) = map Ok rs" "forge_ok cx (sk_key key) GENESIS_PREV 1 rs"
    and rep: "rep = \<lparr>vr_events = of_nat (length rs), vr_last_hash = (if rs = [] then GENESIS_PREV else fr_hash (last rs))\<rparr>"
    using forge_verify_Ok [OF assms(1,2)] w(2) by auto
  have h: "chain_holds cx (sk_key (sw_key w)) fs (sw_path w) rs" using s assms(4) w(1) by (simp add: chain_holds_def)
  obtain r where r: "chain_holds cx (sk_key (sw_key w)) fs' (sw_path w) (rs @ [r])" "fr_kind r = kind" "fr_data r = data"
    "fr_prev_hash r = (if rs = [] then GENESIS_PREV else fr_hash (last rs))" "i = 1 + of_nat (length rs)"
    and same: "\<And>q. q \<noteq> sw_path w \<Longrightarrow> fs' q = fs q"
    by (rule forge_append_holds [OF h _ _ assms(7)]) (use assms(5,6) w in auto)
  have "key_load cx io_fine fs' (dir @ [''signing.pem'']) = Ok key"
    unfolding assms(2) [symmetric] by (rule key_load_cong, rule same) (simp add: w)
  from chain_holds_verifies [OF r(1) [unfolded w] this] have "forge_verify cx io_fine fs' dir = Ok \<lparr>vr_events = i, vr_last_hash = fr_hash r\<rparr>"
    using r(5) by (simp add: add.commute)
  then show ?thesis using r(2-5) rep by (intro conjI exI [of _ r]) simp_all
qed

text \<open>A codec and an app directory for the instance: one event so far, all signatures alike.\<close>

definition forge_first :: ForgeSealRecord where
  "forge_first = \<lparr>fr_id = 1, fr_ts = ''now'', fr_prev_hash = GENESIS_PREV, fr_kind = ''app.window.opened'', fr_data = JNull,
     fr_hash = ''sha256:1'', fr_sig = ''s''\<rparr>"

definition forge_second :: ForgeSealRecord where
  "forge_second = \<lparr>fr_id = 2, fr_ts = ''now'', fr_prev_hash = ''sha256:1'', fr_kind = ''app.window.closed'', fr_data = JNull,
     fr_hash = ''sha256:2'', fr_sig = ''s''\<rparr>"

definition forge_codec :: ForgeCodec where
  "forge_codec =
     \<lparr>fx_sha = \<lambda>s. s, fx_unsigned = \<lambda>u. Ok (if un_id u = 1 then ''1'' else ''2''),
      fx_print = \<lambda>r. if r = forge_first then Ok ''a'' else if r = forge_second then Ok ''b'' else Err ''unknown'',
      fx_parse = \<lambda>l. if l = ''a'' then Ok forge_first else if l = ''b'' then Ok forge_second else Err ''unknown'',
      fx_sign = \<lambda>_ _. ''s'', fx_check = \<lambda>_ _ s. if s = ''s'' then Sig_Valid else Sig_Wrong,
      fx_key_of_pem = \<lambda>s. Ok s, fx_pem_of_key = \<lambda>s. Ok s\<rparr>"

definition forge_fs :: fs where
  "forge_fs = [[''app'', ''seal'', ''signing.pem''] \<mapsto> ''k'', [''app'', ''seal'', ''events.jsonl''] \<mapsto> ''a'' @ [NL]]"

text \<open>As for the other chains, a tip pins the content: with serialization and SHA-256 injective on what two verifying chains hash,
  equal last hashes mean equal events.\<close>

lemma forge_tip_pins:
  assumes "forge_ok cx key GENESIS_PREV 1 rs" and "forge_ok cx key GENESIS_PREV 1 qs"
    and "\<And>r q. r \<in> set rs \<Longrightarrow> q \<in> set qs \<Longrightarrow> forge_digest cx (fr_prev_hash r) r = forge_digest cx (fr_prev_hash q) q \<Longrightarrow>
      fr_prev_hash r = fr_prev_hash q \<and> (fr_id r, fr_ts r, fr_kind r, fr_data r) = (fr_id q, fr_ts q, fr_kind q, fr_data q)"
    and "GENESIS_PREV \<notin> fr_hash ` set rs" and "GENESIS_PREV \<notin> fr_hash ` set qs" and "fseal.tip rs = fseal.tip qs"
  shows "map (\<lambda>r. (fr_id r, fr_ts r, fr_kind r, fr_data r)) rs = map (\<lambda>r. (fr_id r, fr_ts r, fr_kind r, fr_data r)) qs"
  by (rule fseal.same_tip_same_content [OF assms(3-5,1,2,6)])

end
