(* ===== verification/Forge_Viewer.thy ===== *)
theory Forge_Viewer
  imports Forge_Permissions Forge_Seal "HOL-Library.Char_ord" "HOL-Library.List_Lexorder" "HOL-Library.Countable"
begin

section \<open>The viewer of a Forge app\<close>

text \<open>
  Models the process that shows one Forge app, \<^verbatim>\<open>bins/orkia-forge-viewer/src/main.rs\<close>, with
  \<^verbatim>\<open>config.rs\<close>, \<^verbatim>\<open>storage.rs\<close>, \<^verbatim>\<open>bridge.rs\<close> and \<^verbatim>\<open>journal.rs\<close> of \<^verbatim>\<open>crates/orkia-forge-viewer\<close> and the
  manifest of \<^verbatim>\<open>crates/orkia-forge-types\<close>. The state is the record \<open>Viewer\<close>; every command that the page
  can call is a function on it, and \<open>invoke\<close> is the table of commands. The calls of a page are answered one after
  another; calls that overlap touch the chain only through the writer's mutex, so the order in which
  they append is the order meant here. The SQL engine, the page, sockets and the desktop are the host: \<open>ViewerHost\<close>
  answers for them, once for each step. The debug-only test hook is left out.
\<close>

subsection \<open>Command line\<close>

record ViewerConfig =
  vc_app_dir :: path
  vc_app_id :: string
  vc_socket_path :: path

datatype ConfigError = MissingAppDir | MissingAppId | MissingSocket | UnknownFlag string

fun from_args_loop ::
  "string list \<Rightarrow> path option \<Rightarrow> string option \<Rightarrow> path option \<Rightarrow>
   (ConfigError, path option \<times> string option \<times> path option) result" where
  "from_args_loop [] d i s = Ok (d, i, s)"
| "from_args_loop [a] d i s =
     (if a = ''--app-dir'' then Ok (None, i, s)
      else if a = ''--app-id'' then Ok (d, None, s)
      else if a = ''--socket'' then Ok (d, i, None)
      else if prefix ''--'' a then Err (UnknownFlag a)
      else Ok (d, i, s))"
| "from_args_loop (a # b # rest) d i s =
     (if a = ''--app-dir'' then from_args_loop rest (Some (path_comps b)) i s
      else if a = ''--app-id'' then from_args_loop rest d (Some b) s
      else if a = ''--socket'' then from_args_loop rest d i (Some (path_comps b))
      else if prefix ''--'' a then Err (UnknownFlag a)
      else from_args_loop (b # rest) d i s)"

definition from_args :: "string list \<Rightarrow> (ConfigError, ViewerConfig) result" where
  "from_args args =
     and_then (from_args_loop args None None None) (\<lambda>(d, i, s).
       (case d of
          None \<Rightarrow> Err MissingAppDir
        | Some app_dir \<Rightarrow>
           (case i of
              None \<Rightarrow> Err MissingAppId
            | Some app_id \<Rightarrow>
               (case s of
                  None \<Rightarrow> Err MissingSocket
                | Some socket \<Rightarrow> Ok \<lparr>vc_app_dir = app_dir, vc_app_id = app_id, vc_socket_path = socket\<rparr>))))"

subsection \<open>Manifest\<close>

record WindowConfig =
  wc_title :: string
  wc_width :: "32 word"
  wc_height :: "32 word"
  wc_resizable :: bool

record ForgeConfig =
  fg_name :: string
  fg_description :: string
  fg_version :: string
  fg_api_version :: "32 word"
  fg_rfc_id :: string
  fg_rfc_hash :: string
  fg_created_at :: string
  fg_icon :: string
  fg_window :: WindowConfig
  fg_permissions :: Permissions

datatype ManifestError = MF_Io string | MF_Parse string | MF_Serialize string

record ManifestCodec =
  mx_parse :: "string \<Rightarrow> (string, ForgeConfig) result"
  mx_print :: "ForgeConfig \<Rightarrow> (string, string) result"

definition manifest_load :: "ManifestCodec \<Rightarrow> Io \<Rightarrow> fs \<Rightarrow> path \<Rightarrow> (ManifestError, ForgeConfig) result" where
  "manifest_load mx io fs p =
     (case io_err io ''manifest'' Read of
        Some e \<Rightarrow> Err (MF_Io e)
      | None \<Rightarrow>
         (case fs p of
            None \<Rightarrow> Err (MF_Io ''not found'')
          | Some raw \<Rightarrow> map_err MF_Parse (mx_parse mx raw)))"

definition manifest_save :: "ManifestCodec \<Rightarrow> Io \<Rightarrow> ForgeConfig \<Rightarrow> path \<Rightarrow> fs \<Rightarrow> fs \<times> (ManifestError, unit) result" where
  "manifest_save mx io m p fs =
     (case mx_print mx m of
        Err e \<Rightarrow> (fs, Err (MF_Serialize e))
      | Ok toml \<Rightarrow>
         (case (if path_parent p = None then None else io_err io ''manifest'' MkDir) of
            Some e \<Rightarrow> (fs, Err (MF_Io e))
          | None \<Rightarrow>
             (case fs_fill io ''manifest'' ''manifest'' p toml fs of
                (fs', Inl (_, e)) \<Rightarrow> (fs', Err (MF_Io e))
              | (fs', Inr _) \<Rightarrow> (fs', Ok ()))))"

subsection \<open>Storage\<close>

text \<open>The rows of the table \<^verbatim>\<open>kv\<close>: key, value and time of the last change. A statement that the engine rejects
  changes nothing.\<close>

type_synonym kv_table = "(string \<times> string \<times> int) list"

datatype StorageError = Sqlite string

definition storage_error_text :: "StorageError \<Rightarrow> string" where
  "storage_error_text e = (case e of Sqlite m \<Rightarrow> ''sqlite: '' @ m)"

definition kv_open :: "Io \<Rightarrow> string option \<Rightarrow> kv_table option \<Rightarrow> (StorageError, kv_table) result" where
  "kv_open io sql db =
     (case io_err io ''data'' MkDir of
        Some e \<Rightarrow> Err (Sqlite e)
      | None \<Rightarrow>
         (case sql of
            Some e \<Rightarrow> Err (Sqlite e)
          | None \<Rightarrow> Ok (case db of Some t \<Rightarrow> t | None \<Rightarrow> [])))"

definition kv_get :: "string option \<Rightarrow> string \<Rightarrow> kv_table \<Rightarrow> (StorageError, string option) result" where
  "kv_get sql key t = (case sql of Some e \<Rightarrow> Err (Sqlite e) | None \<Rightarrow> Ok (map_option fst (map_of t key)))"

definition kv_set :: "string option \<Rightarrow> int \<Rightarrow> string \<Rightarrow> string \<Rightarrow> kv_table \<Rightarrow> kv_table \<times> (StorageError, unit) result" where
  "kv_set sql now key val t =
     (case sql of Some e \<Rightarrow> (t, Err (Sqlite e)) | None \<Rightarrow> (hm_insert key (val, now) t, Ok ()))"

definition kv_delete :: "string option \<Rightarrow> string \<Rightarrow> kv_table \<Rightarrow> kv_table \<times> (StorageError, unit) result" where
  "kv_delete sql key t = (case sql of Some e \<Rightarrow> (t, Err (Sqlite e)) | None \<Rightarrow> (hm_remove key t, Ok ()))"

definition kv_keys :: "string option \<Rightarrow> kv_table \<Rightarrow> (StorageError, string list) result" where
  "kv_keys sql t = (case sql of Some e \<Rightarrow> Err (Sqlite e) | None \<Rightarrow> Ok (sort (map fst t)))"

definition kv_row_count :: "string option \<Rightarrow> kv_table \<Rightarrow> (StorageError, 64 word) result" where
  "kv_row_count sql t = (case sql of Some e \<Rightarrow> Err (Sqlite e) | None \<Rightarrow> Ok (of_nat (length t)))"

subsection \<open>The bridge's message dispatcher\<close>

datatype BridgeMessage =
    StorageGet string
  | StorageSet string string
  | StorageDelete string
  | StorageKeys
  | AgentInvoke string string Json
  | AgentCancel string
  | NetworkFetch string FetchArgs
  | NotificationSend string string NotifIcon bool

definition bm_dispatch :: "string option \<Rightarrow> int \<Rightarrow> kv_table \<Rightarrow> BridgeMessage \<Rightarrow> kv_table \<times> (BridgeError, Json) result" where
  "bm_dispatch sql now t msg =
     (let err = (\<lambda>e. BE_Storage (storage_error_text e)) in
      case msg of
        StorageGet key \<Rightarrow> (t, and_then (map_err err (kv_get sql key t)) (\<lambda>v. Ok (json_opt_str v)))
      | StorageSet key val \<Rightarrow>
          (case kv_set sql now key val t of (t', r) \<Rightarrow> (t', and_then (map_err err r) (\<lambda>_. Ok JNull)))
      | StorageDelete key \<Rightarrow>
          (case kv_delete sql key t of (t', r) \<Rightarrow> (t', and_then (map_err err r) (\<lambda>_. Ok JNull)))
      | StorageKeys \<Rightarrow> (t, and_then (map_err err (kv_keys sql t)) (\<lambda>ks. Ok (JArr (map JStr ks))))
      | _ \<Rightarrow> (t, Err (BE_Invalid ''V2 privileged bridge messages must be routed through their dedicated handler'')))"

subsection \<open>Journal client\<close>

record JournalClient =
  jc_socket_path :: path
  jc_app_id :: string
  jc_connected :: bool

record ViewerEnvelope =
  ev_type :: string
  ev_timestamp :: string
  ev_source :: string
  ev_session_id :: string
  ev_event :: string
  ev_data :: Json

definition journal_connect :: "bool \<Rightarrow> path \<Rightarrow> string \<Rightarrow> JournalClient" where
  "journal_connect reachable socket app_id = \<lparr>jc_socket_path = socket, jc_app_id = app_id, jc_connected = reachable\<rparr>"

text \<open>The envelope that goes out, if any; \<open>fails\<close> is an error of serialization or of the socket.\<close>

definition journal_emit ::
  "string option \<Rightarrow> string \<Rightarrow> JournalClient \<Rightarrow> string \<Rightarrow> Json \<Rightarrow> ViewerEnvelope option \<times> (string, unit) result" where
  "journal_emit fails now j event data =
     (if \<not> jc_connected j then (None, Ok ())
      else case fails of
             Some e \<Rightarrow> (None, Err e)
           | None \<Rightarrow> (Some \<lparr>ev_type = ''lifecycle'', ev_timestamp = now, ev_source = ''forge-viewer'', ev_session_id = jc_app_id j,
                       ev_event = event, ev_data = data\<rparr>, Ok ()))"

subsection \<open>State and host\<close>

record AppMeta =
  am_id :: string
  am_name :: string
  am_version :: string
  am_api_version :: "32 word"

record Viewer =
  vw_tick :: nat
  vw_root :: path
  vw_fs :: fs
  vw_storage :: kv_table
  vw_journal :: JournalClient
  vw_sent :: "ViewerEnvelope list"
  vw_perms :: Permissions
  vw_meta :: AppMeta
  vw_seal :: SealWriter
  vw_notified :: NotificationRateLimiter

record ViewerHost =
  vh_codec :: ForgeCodec
  vh_manifest :: ManifestCodec
  vh_io :: "nat \<Rightarrow> Io"
  vh_now :: "nat \<Rightarrow> string"
  vh_unix :: "nat \<Rightarrow> int"
  vh_clock :: "nat \<Rightarrow> nat"
  vh_sql :: "nat \<Rightarrow> string option"
  vh_poisoned :: "nat \<Rightarrow> bool"
  vh_uuid :: "nat \<Rightarrow> string"
  vh_socket :: "nat \<Rightarrow> string option"
  vh_url :: url_parser
  vh_http :: "nat \<Rightarrow> HttpClient"
  vh_shown :: "nat \<Rightarrow> (string, unit) result"
  vh_canon :: "path \<Rightarrow> path option"
  vh_window :: "(string, unit) result"

text \<open>\<^verbatim>\<open>SealState::append\<close>: a failure is swallowed, and with it the number of the event.\<close>

definition seal_event :: "ViewerHost \<Rightarrow> string \<Rightarrow> Json \<Rightarrow> Viewer \<Rightarrow> Viewer \<times> 64 word option" where
  "seal_event h kind data v =
     (case forge_append (vh_codec h) (vh_io h (vw_tick v)) (vh_now h (vw_tick v)) (vw_seal v) kind data (vw_fs v) of
        (fs', Inl _) \<Rightarrow> (v\<lparr>vw_fs := fs'\<rparr>, None)
      | (fs', Inr i) \<Rightarrow> (v\<lparr>vw_fs := fs'\<rparr>, Some i))"

definition emit_event :: "ViewerHost \<Rightarrow> string \<Rightarrow> Json \<Rightarrow> Viewer \<Rightarrow> Viewer" where
  "emit_event h event data v =
     (case journal_emit (vh_socket h (vw_tick v)) (vh_now h (vw_tick v)) (vw_journal v) event data of
        (Some ev, _) \<Rightarrow> v\<lparr>vw_sent := vw_sent v @ [ev]\<rparr>
      | (None, _) \<Rightarrow> v)"

subsection \<open>Commands\<close>

text \<open>The storage commands hold the lock of the table; the lock is poisoned when an earlier holder panicked.\<close>

definition with_storage ::
  "ViewerHost \<Rightarrow> Viewer \<Rightarrow> (string option \<Rightarrow> kv_table \<Rightarrow> kv_table \<times> (StorageError, 'a) result) \<Rightarrow> Viewer \<times> (string, 'a) result" where
  "with_storage h v f =
     (if vh_poisoned h (vw_tick v) then (v, Err ''storage lock poisoned'')
      else case f (vh_sql h (vw_tick v)) (vw_storage v) of
             (t, r) \<Rightarrow> (v\<lparr>vw_storage := t\<rparr>, map_err storage_error_text r))"

definition storage_get :: "ViewerHost \<Rightarrow> string \<Rightarrow> Viewer \<Rightarrow> Viewer \<times> (string, string option) result" where
  "storage_get h key v = with_storage h v (\<lambda>sql t. (t, kv_get sql key t))"

definition storage_set :: "ViewerHost \<Rightarrow> string \<Rightarrow> string \<Rightarrow> Viewer \<Rightarrow> Viewer \<times> (string, unit) result" where
  "storage_set h key val v = with_storage h v (\<lambda>sql t. kv_set sql (vh_unix h (vw_tick v)) key val t)"

definition storage_delete :: "ViewerHost \<Rightarrow> string \<Rightarrow> Viewer \<Rightarrow> Viewer \<times> (string, unit) result" where
  "storage_delete h key v = with_storage h v (\<lambda>sql t. kv_delete sql key t)"

definition storage_keys :: "ViewerHost \<Rightarrow> Viewer \<Rightarrow> Viewer \<times> (string, string list) result" where
  "storage_keys h v = with_storage h v (\<lambda>sql t. (t, kv_keys sql t))"

datatype AgentStatus = Agent_Success | Agent_Error | Agent_Denied | Agent_Timeout | Agent_Cancelled

record AgentResult =
  ar_invocation_id :: string
  ar_status :: AgentStatus
  ar_output :: "Json option"
  ar_error :: "string option"
  ar_seal_event_id :: "64 word option"
  ar_duration_ms :: "64 word"
  ar_cost_cents :: "32 word option"

definition agent_invoke :: "ViewerHost \<Rightarrow> string \<Rightarrow> Json \<Rightarrow> Viewer \<Rightarrow> (BridgeError, AgentResult) result" where
  "agent_invoke h task payload v =
     and_then (check_agent (vw_perms v)) (\<lambda>_.
       Err (BE_RuntimeError (''agent.invoke not yet wired to orchestrator (invocation_id '' @ vh_uuid h (vw_tick v) @ '')'')))"

definition agent_cancel :: "string \<Rightarrow> Viewer \<Rightarrow> (BridgeError, unit) result" where
  "agent_cancel invocation_id v = and_then (check_agent (vw_perms v)) (\<lambda>_. Ok ())"

definition fetch_event :: "string \<Rightarrow> string \<Rightarrow> (BridgeError, FetchResponse) result \<Rightarrow> string \<times> Json" where
  "fetch_event url m result =
     (case result of
        Inr r \<Rightarrow>
          (''app.network.fetch'',
           JObj [(''bytes_in'', JInt (utf8_len (fp_body r))), (''method'', JStr m), (''status'', JInt (uint (fp_status r))), (''url'', JStr url)])
      | Inl e \<Rightarrow>
          (if e = BE_PolicyDenied ''redirect_off_whitelist''
           then (''app.network.fetch.redirect_denied'',
                 JObj [(''method'', JStr m), (''reason'', JStr ''redirect_off_whitelist''), (''url'', JStr url)])
           else (''app.network.fetch.denied'',
                 JObj [(''error'', JStr (bridge_error_text e)), (''method'', JStr m), (''url'', JStr url)])))"

text \<open>The URLs that the fetch contacted are part of the result.\<close>

definition network_fetch :: "ViewerHost \<Rightarrow> FetchArgs \<Rightarrow> Viewer \<Rightarrow> Viewer \<times> string list \<times> (BridgeError, FetchResponse) result" where
  "network_fetch h args v =
     (case fetch (vh_url h) (vh_http h (vw_tick v)) (vw_perms v) (am_name (vw_meta v)) args of
        (contacted, result) \<Rightarrow>
          (case fetch_event (fa_url args) (method_str (fa_method args)) result of
             (kind, data) \<Rightarrow> (fst (seal_event h kind data v), contacted, result)))"

fun icon_json :: "NotifIcon \<Rightarrow> Json" where
  "icon_json Icon_Info = JStr ''info''"
| "icon_json Icon_Success = JStr ''success''"
| "icon_json Icon_Warning = JStr ''warning''"
| "icon_json Icon_Error = JStr ''error''"

text \<open>What the desktop is asked to show, if anything, is part of the result.\<close>

definition notification_send ::
  "ViewerHost \<Rightarrow> string \<Rightarrow> string \<Rightarrow> NotifIcon \<Rightarrow> Viewer \<Rightarrow>
   Viewer \<times> (string \<times> string \<times> string) option \<times> (BridgeError, unit) result" where
  "notification_send h title body icon v =
     (case check_notification (vw_perms v) of
        Inl e \<Rightarrow> (v, None, Err e)
      | Inr _ \<Rightarrow>
         (case send_notification (vh_shown h (vw_tick v)) (vh_clock h (vw_tick v)) (vw_notified v) title body icon of
            (log, shown, result) \<Rightarrow>
              (case (case result of
                       Inr _ \<Rightarrow> (''app.notification.sent'', JObj [(''icon'', icon_json icon), (''title'', JStr title)])
                     | Inl e \<Rightarrow> (''app.notification.denied'', JObj [(''error'', JStr (bridge_error_text e)), (''title'', JStr title)])) of
                 (kind, data) \<Rightarrow> (fst (seal_event h kind data (v\<lparr>vw_notified := log\<rparr>)), shown, result))))"

subsection \<open>Files of the app\<close>

definition ALLOWED_ASSETS :: "string list" where
  "ALLOWED_ASSETS = [''app.html'', ''app.css'', ''app.js'', ''icon.png'', ''icon.svg'']"

definition CSP :: string where
  "CSP = concat [''default-src 'none'; '', ''script-src 'self' 'unsafe-inline'; '', ''style-src 'self' 'unsafe-inline'; '',
     ''img-src 'self' data:; '', ''font-src 'self' data:; '', ''connect-src 'none'; '', ''frame-src 'none'; '',
     ''base-uri 'none'; '', ''form-action 'none'' @ [SQ]]"

text \<open>\<^verbatim>\<open>Path::extension\<close>: what follows the last dot of the file name, unless that dot is its first character.\<close>

definition path_extension :: "path \<Rightarrow> string option" where
  "path_extension p =
     (case last_opt p of
        None \<Rightarrow> None
      | Some name \<Rightarrow>
         (let ps = split_on (CHR ''.'') name
          in if length ps < 2 \<or> length ps = 2 \<and> hd ps = [] then None else Some (last ps)))"

definition mime_for :: "path \<Rightarrow> string" where
  "mime_for p =
     (case path_extension p of
        None \<Rightarrow> ''application/octet-stream''
      | Some e \<Rightarrow>
          (if e = ''html'' then ''text/html; charset=utf-8''
           else if e = ''css'' then ''text/css; charset=utf-8''
           else if e = ''js'' then ''application/javascript; charset=utf-8''
           else if e = ''json'' then ''application/json''
           else if e = ''png'' then ''image/png''
           else if e = ''jpg'' \<or> e = ''jpeg'' then ''image/jpeg''
           else if e = ''svg'' then ''image/svg+xml''
           else if e = ''woff2'' then ''font/woff2''
           else ''application/octet-stream''))"

record AssetResponse =
  as_status :: nat
  as_headers :: "(string \<times> string) list"
  as_body :: string

definition asset_error :: "nat \<Rightarrow> string \<Rightarrow> AssetResponse" where
  "asset_error status msg = \<lparr>as_status = status, as_headers = [], as_body = msg\<rparr>"

definition serve_app_file :: "ViewerHost \<Rightarrow> Io \<Rightarrow> fs \<Rightarrow> path \<Rightarrow> string \<Rightarrow> AssetResponse" where
  "serve_app_file h io fs root uri_path =
     (let raw = dropWhile (\<lambda>c. c = CHR ''/'') uri_path
      in if raw \<notin> set ALLOWED_ASSETS then asset_error 403 ''forbidden''
         else case vh_canon h (path_join root raw) of
                None \<Rightarrow> asset_error 404 ''not found''
              | Some real_path \<Rightarrow>
                 (case vh_canon h root of
                    None \<Rightarrow> asset_error 403 ''forbidden''
                  | Some real_root \<Rightarrow>
                     (if \<not> prefix real_root real_path then asset_error 403 ''forbidden''
                      else case (if io_err io ''asset'' Read = None then fs real_path else None) of
                             None \<Rightarrow> asset_error 404 ''not found''
                           | Some bytes \<Rightarrow>
                               \<lparr>as_status = 200, as_headers = [(''content-type'', mime_for real_path), (''content-security-policy'', CSP)],
                                as_body = bytes\<rparr>)))"

subsection \<open>The process\<close>

text \<open>The commands registered with the window, and their answers.\<close>

datatype Command =
    C_StorageGet string | C_StorageSet string string | C_StorageDelete string | C_StorageKeys | C_AppMeta
  | C_AgentInvoke string Json | C_AgentCancel string | C_NetworkFetch FetchArgs | C_NotificationSend string string NotifIcon

datatype Answer =
    A_Value "(string, string option) result" | A_Unit "(string, unit) result" | A_Keys "(string, string list) result" | A_Meta AppMeta
  | A_Agent "(BridgeError, AgentResult) result" | A_Cancel "(BridgeError, unit) result"
  | A_Fetch "string list" "(BridgeError, FetchResponse) result"
  | A_Notified "(string \<times> string \<times> string) option" "(BridgeError, unit) result"

definition invoke :: "ViewerHost \<Rightarrow> Command \<Rightarrow> Viewer \<Rightarrow> Viewer \<times> Answer" where
  "invoke h c v =
     (case c of
        C_StorageGet key \<Rightarrow> map_prod (\<lambda>v. v) A_Value (storage_get h key v)
      | C_StorageSet key val \<Rightarrow> map_prod (\<lambda>v. v) A_Unit (storage_set h key val v)
      | C_StorageDelete key \<Rightarrow> map_prod (\<lambda>v. v) A_Unit (storage_delete h key v)
      | C_StorageKeys \<Rightarrow> map_prod (\<lambda>v. v) A_Keys (storage_keys h v)
      | C_AppMeta \<Rightarrow> (v, A_Meta (vw_meta v))
      | C_AgentInvoke task payload \<Rightarrow> (v, A_Agent (agent_invoke h task payload v))
      | C_AgentCancel invocation_id \<Rightarrow> (v, A_Cancel (agent_cancel invocation_id v))
      | C_NetworkFetch args \<Rightarrow> (case network_fetch h args v of (v', contacted, r) \<Rightarrow> (v', A_Fetch contacted r))
      | C_NotificationSend title body icon \<Rightarrow> (case notification_send h title body icon v of (v', shown, r) \<Rightarrow> (v', A_Notified shown r)))"

fun run_page :: "ViewerHost \<Rightarrow> Command list \<Rightarrow> Viewer \<Rightarrow> Viewer \<times> (Command \<times> Answer) list" where
  "run_page h [] v = (v, [])"
| "run_page h (c # cs) v =
     (case invoke h c v of
        (v1, a) \<Rightarrow> (case run_page h cs (v1\<lparr>vw_tick := vw_tick v1 + 1\<rparr>) of (v2, as) \<Rightarrow> (v2, (c, a) # as)))"

text \<open>The window's events, in the journal and in the chain.\<close>

definition window_event :: "ViewerHost \<Rightarrow> string \<Rightarrow> Viewer \<Rightarrow> Viewer" where
  "window_event h event v =
     (let data = JObj [(''window'', JStr ''main'')]; v1 = fst (seal_event h event data (emit_event h event data v))
      in v1\<lparr>vw_tick := vw_tick v1 + 1\<rparr>)"

datatype ViewerExit = Exit_Code int | Exit_Closed Viewer "(Command \<times> Answer) list"

definition viewer_start :: "bool \<Rightarrow> ViewerConfig \<Rightarrow> ForgeConfig \<Rightarrow> kv_table \<Rightarrow> SealWriter \<Rightarrow> fs \<Rightarrow> Viewer" where
  "viewer_start reachable config forge storage seal_writer fs =
     \<lparr>vw_tick = 1, vw_root = vc_app_dir config, vw_fs = fs, vw_storage = storage,
      vw_journal = journal_connect reachable (vc_socket_path config) (vc_app_id config), vw_sent = [],
      vw_perms = fg_permissions forge,
      vw_meta = \<lparr>am_id = vc_app_id config, am_name = fg_name forge, am_version = fg_version forge, am_api_version = fg_api_version forge\<rparr>,
      vw_seal = seal_writer, vw_notified = []\<rparr>"

text \<open>\<^verbatim>\<open>main\<close>: \<open>db\<close> is the table on disk, if there is one, \<open>reachable\<close> whether the journal's socket answers,
  \<open>fresh\<close> the key to be generated when the app has none, and \<open>cs\<close> the calls the page makes until the window closes.\<close>

definition viewer_main ::
  "ViewerHost \<Rightarrow> kv_table option \<Rightarrow> bool \<Rightarrow> string \<Rightarrow> string list \<Rightarrow> Command list \<Rightarrow> fs \<Rightarrow> fs \<times> ViewerExit" where
  "viewer_main h db reachable fresh args cs fs =
     (case from_args args of
        Inl e \<Rightarrow> (fs, Exit_Code 2)
      | Inr config \<Rightarrow>
         (case manifest_load (vh_manifest h) (vh_io h 0) fs (vc_app_dir config @ [''manifest.toml'']) of
            Inl e \<Rightarrow> (fs, Exit_Code 3)
          | Inr forge \<Rightarrow>
             (case kv_open (vh_io h 0) (vh_sql h 0) db of
                Inl e \<Rightarrow> (fs, Exit_Code 3)
              | Inr storage \<Rightarrow>
                 (case writer_open (vh_codec h) (vh_io h 0) fresh (vc_app_dir config @ [''seal'']) fs of
                    (fs1, Inl e) \<Rightarrow> (fs1, Exit_Code 5)
                  | (fs1, Inr seal_writer) \<Rightarrow>
                     (case vh_window h of
                        Inl e \<Rightarrow> (fs1, Exit_Code 4)
                      | Inr _ \<Rightarrow>
                         (let v = viewer_start reachable config forge storage seal_writer fs1;
                              (v1, as) = run_page h cs (window_event h ''app.window.opened'' v);
                              v2 = window_event h ''app.window.closed'' v1
                          in (vw_fs v2, Exit_Closed v2 as)))))))"

section \<open>What a session leaves in the chain\<close>

text \<open>What the proofs rely on of the codec: serialization never fails, a record's line parses back, and a signature made
  with the app's key checks.\<close>

definition forge_codec_ok :: "ForgeCodec \<Rightarrow> string \<Rightarrow> bool" where
  "forge_codec_ok cx key \<longleftrightarrow>
     (\<forall>u. is_ok (fx_unsigned cx u)) \<and> (\<forall>r. is_ok (fx_print cx r) \<and> forge_print_ok cx r) \<and>
     (\<forall>h. fx_check cx key h (fx_sign cx key h) = Sig_Valid)"

text \<open>The entries that a transcript of calls and answers stands for: their kinds and what they are about.\<close>

definition audit_entry :: "Command \<times> Answer \<Rightarrow> (string \<times> Json option) list" where
  "audit_entry ca =
     (case ca of
        (C_NetworkFetch args, A_Fetch _ r) \<Rightarrow>
          [(case r of Inr _ \<Rightarrow> ''app.network.fetch''
                    | Inl e \<Rightarrow> if e = BE_PolicyDenied ''redirect_off_whitelist'' then ''app.network.fetch.redirect_denied''
                              else ''app.network.fetch.denied'', Some (JStr (fa_url args)))]
      | (C_NotificationSend title _ _, A_Notified _ r) \<Rightarrow>
          (case r of Inr _ \<Rightarrow> [(''app.notification.sent'', Some (JStr title))]
                   | Inl (BE_PermissionDenied _) \<Rightarrow> []
                   | Inl _ \<Rightarrow> [(''app.notification.denied'', Some (JStr title))])
      | _ \<Rightarrow> [])"

definition record_entry :: "ForgeSealRecord \<Rightarrow> string \<times> Json option" where
  "record_entry r =
     (fr_kind r, case json_get ''url'' (fr_data r) of Some j \<Rightarrow> Some j | None \<Rightarrow> json_get ''title'' (fr_data r))"

definition viewer_chain :: "ViewerHost \<Rightarrow> Viewer \<Rightarrow> ForgeSealRecord list \<Rightarrow> bool" where
  "viewer_chain h v rs \<longleftrightarrow> chain_holds (vh_codec h) (sk_key (sw_key (vw_seal v))) (vw_fs v) (sw_path (vw_seal v)) rs"

lemma forge_append_fine:
  assumes "forge_codec_ok cx (sk_key (sw_key w))" and "chain_holds cx (sk_key (sw_key w)) fs (sw_path w) rs"
  shows "\<exists>fs' i. forge_append cx io_fine now w kind data fs = (fs', Ok i)"
proof -
  obtain s where s: "fs (sw_path w) = Some s" "map (fx_parse cx) (record_lines s) = map Ok rs" using assms(2) by (auto simp: chain_holds_def)
  obtain t where t: "read_tail cx io_fine fs (sw_path w) = Ok t"
  proof (cases rs rule: rev_cases)
    case (snoc qs r)
    then obtain ls l where "record_lines s = ls @ [l]" "fx_parse cx l = Ok r" using s(2) by (auto simp: map_eq_append_conv)
    then show thesis using that s(1) by (simp add: read_tail_def io_fine_def)
  qed (use that s in \<open>simp add: read_tail_def io_fine_def\<close>)
  obtain i prev where "t = (i, prev)" by fastforce
  moreover obtain r where r: "sign_record cx (sk_key (sw_key w)) now i prev kind data = Ok r"
    using assms(1) by (cases "fx_unsigned cx \<lparr>un_id = i, un_ts = now, un_prev_hash = prev, un_kind = kind, un_data = data\<rparr>")
      (auto simp: forge_codec_ok_def sign_record_def is_ok_def Let_def dest!: spec [of _ "\<lparr>un_id = i, un_ts = now, un_prev_hash = prev, un_kind = kind, un_data = data\<rparr>"])
  moreover obtain line where "fx_print cx r = Ok line" using assms(1) unfolding forge_codec_ok_def is_ok_iff by blast
  ultimately show ?thesis using t by (simp add: forge_append_def Let_def io_fine_def)
qed

lemma seal_event_adds:
  assumes "forge_codec_ok (vh_codec h) (sk_key (sw_key (vw_seal v)))" and "vh_io h (vw_tick v) = io_fine" and "viewer_chain h v rs"
  obtains r fs' where "fst (seal_event h kind data v) = v\<lparr>vw_fs := fs'\<rparr>" and "viewer_chain h (v\<lparr>vw_fs := fs'\<rparr>) (rs @ [r])"
    and "fr_kind r = kind" and "fr_data r = data" and "\<And>q. q \<noteq> sw_path (vw_seal v) \<Longrightarrow> fs' q = vw_fs v q"
proof -
  let ?w = "vw_seal v"
  note ch = assms(3) [unfolded viewer_chain_def]
  obtain fs' i where a: "forge_append (vh_codec h) io_fine (vh_now h (vw_tick v)) ?w kind data (vw_fs v) = (fs', Ok i)"
    using forge_append_fine [OF assms(1) ch] by blast
  obtain r where r: "chain_holds (vh_codec h) (sk_key (sw_key ?w)) fs' (sw_path ?w) (rs @ [r])" "fr_kind r = kind" "fr_data r = data"
    "\<And>q. q \<noteq> sw_path ?w \<Longrightarrow> fs' q = vw_fs v q"
    by (rule forge_append_holds [OF ch _ _ a]) (use assms(1) in \<open>auto simp: forge_codec_ok_def\<close>)
  show thesis
    by (rule that [of fs' r]) (use a r assms(2) in \<open>simp_all add: seal_event_def viewer_chain_def\<close>)
qed


text \<open>A step from \<open>v\<close> to \<open>v'\<close> adds the entries \<open>es\<close> to the chain and touches no other file.\<close>

definition adds :: "ViewerHost \<Rightarrow> Viewer \<Rightarrow> (string \<times> Json option) list \<Rightarrow> Viewer \<Rightarrow> bool" where
  "adds h v es v' \<longleftrightarrow>
     vw_seal v' = vw_seal v \<and> (\<forall>q. q \<noteq> sw_path (vw_seal v) \<longrightarrow> vw_fs v' q = vw_fs v q) \<and>
     (\<forall>rs. viewer_chain h v rs \<longrightarrow> (\<exists>qs. viewer_chain h v' (rs @ qs) \<and> map record_entry qs = es))"

lemma adds_none: "vw_seal v' = vw_seal v \<Longrightarrow> vw_fs v' = vw_fs v \<Longrightarrow> adds h v [] v'"
  by (auto simp: adds_def viewer_chain_def)

lemma adds_trans:
  assumes "adds h v es v1" and "adds h v1 fs v2"
  shows "adds h v (es @ fs) v2"
  unfolding adds_def
proof (intro conjI allI impI)
  fix rs assume "viewer_chain h v rs"
  then obtain qs where "viewer_chain h v1 (rs @ qs)" "map record_entry qs = es" using assms(1) by (auto simp: adds_def)
  moreover from this obtain ps where "viewer_chain h v2 ((rs @ qs) @ ps)" "map record_entry ps = fs" using assms(2) unfolding adds_def by blast
  ultimately show "\<exists>qs. viewer_chain h v2 (rs @ qs) \<and> map record_entry qs = es @ fs" by (intro exI [of _ "qs @ ps"]) simp
qed (use assms in \<open>auto simp: adds_def\<close>)

lemma adds_frame:
  assumes "adds h v es v'" and "vw_seal u = vw_seal v" and "vw_fs u = vw_fs v" and "vw_seal u' = vw_seal v'" and "vw_fs u' = vw_fs v'"
  shows "adds h u es u'"
  using assms(1) unfolding adds_def viewer_chain_def assms(2-5) by blast

lemma seal_event_keeps: "vw_tick (fst (seal_event h kind data v)) = vw_tick v"
  by (simp add: seal_event_def split: prod.splits sum.splits)

lemma adds_seal:
  assumes "forge_codec_ok (vh_codec h) (sk_key (sw_key (vw_seal v)))" and "vh_io h (vw_tick v) = io_fine"
    and "\<And>r. fr_kind r = kind \<Longrightarrow> fr_data r = data \<Longrightarrow> record_entry r = e"
  shows "adds h v [e] (fst (seal_event h kind data v))"
  unfolding adds_def
proof (intro conjI allI impI)
  show "vw_seal (fst (seal_event h kind data v)) = vw_seal v" by (simp add: seal_event_def split: prod.splits sum.splits)
next
  fix q assume "q \<noteq> sw_path (vw_seal v)"
  then show "vw_fs (fst (seal_event h kind data v)) q = vw_fs v q"
    by (auto simp: seal_event_def forge_append_def fs_bind_def Let_def split: prod.splits sum.splits option.splits)
next
  fix rs assume "viewer_chain h v rs"
  then show "\<exists>qs. viewer_chain h (fst (seal_event h kind data v)) (rs @ qs) \<and> map record_entry qs = [e]"
    using seal_event_adds [OF assms(1,2)] assms(3) by (metis list.map(1,2))
qed

lemma fetch_event_entry:
  assumes "fetch_event url m r = (kind, data)" and "fr_kind q = kind" and "fr_data q = data"
  shows "record_entry q = ((case r of Inr _ \<Rightarrow> ''app.network.fetch''
                    | Inl e \<Rightarrow> if e = BE_PolicyDenied ''redirect_off_whitelist'' then ''app.network.fetch.redirect_denied''
                              else ''app.network.fetch.denied''), Some (JStr url))"
  unfolding record_entry_def assms(2,3) using assms(1)
  by (cases r; cases "r = Inl (BE_PolicyDenied ''redirect_off_whitelist'')") (auto simp: fetch_event_def json_get_def)


lemma invoke_tick: "invoke h c v = (v', a) \<Longrightarrow> vw_tick v' = vw_tick v"
  by (cases c)
    (auto simp: invoke_def storage_get_def storage_set_def storage_delete_def storage_keys_def with_storage_def network_fetch_def
      notification_send_def seal_event_keeps split: prod.splits if_splits sum.splits)

lemma with_storage_keeps: "map_prod (\<lambda>v. v) g (with_storage h v f) = (v', a) \<Longrightarrow> vw_seal v' = vw_seal v \<and> vw_fs v' = vw_fs v"
  by (auto simp: with_storage_def map_prod_def split: prod.splits if_splits)

lemma network_fetch_adds:
  assumes "forge_codec_ok (vh_codec h) (sk_key (sw_key (vw_seal v)))" and "vh_io h (vw_tick v) = io_fine"
    and "network_fetch h args v = (v', contacted, r)"
  shows "adds h v (audit_entry (C_NetworkFetch args, A_Fetch contacted r)) v'"
proof -
  obtain kind data where e: "fetch_event (fa_url args) (method_str (fa_method args)) r = (kind, data)" by fastforce
  then have "v' = fst (seal_event h kind data v)" using assms(3) by (auto simp: network_fetch_def split: prod.splits)
  then show ?thesis unfolding audit_entry_def using adds_seal [OF assms(1,2) fetch_event_entry [OF e]] by simp
qed

lemma notification_error:
  assumes "send_notification shown now log title body icon = (log', sh, Err e)"
  shows "\<exists>m. e = BE_PolicyDenied m \<or> e = BE_RuntimeError m"
  using assms by (auto simp: send_notification_def limiter_check_def Let_def map_err_def split: prod.splits sum.splits if_splits)

lemma notification_send_adds:
  assumes "forge_codec_ok (vh_codec h) (sk_key (sw_key (vw_seal v)))" and "vh_io h (vw_tick v) = io_fine"
    and "notification_send h title body icon v = (v', sh, r)"
  shows "adds h v (audit_entry (C_NotificationSend title body icon, A_Notified sh r)) v'"
proof (cases "check_notification (vw_perms v)")
  case (Inl e)
  then have "v' = v" "\<exists>m. r = Inl (BE_PermissionDenied m)"
    using assms(3) by (auto simp: notification_send_def check_notification_def split: if_splits)
  then show ?thesis by (auto simp: audit_entry_def intro: adds_none)
next
  case (Inr x)
  obtain log sh' r' where s: "send_notification (vh_shown h (vw_tick v)) (vh_clock h (vw_tick v)) (vw_notified v) title body icon = (log, sh', r')"
    by (metis prod_cases3)
  let ?v = "v\<lparr>vw_notified := log\<rparr>"
  have a: "adds h ?v [(kind, Some (JStr title))] (fst (seal_event h kind data ?v))" if "json_get ''url'' data = None" "json_get ''title'' data = Some (JStr title)" for kind data
    by (rule adds_seal) (use assms(1,2) that in \<open>simp_all add: record_entry_def\<close>)
  have "adds h ?v (audit_entry (C_NotificationSend title body icon, A_Notified sh r)) v'"
  proof (cases r')
    case (Inl e)
    then obtain m where m: "e = BE_PolicyDenied m \<or> e = BE_RuntimeError m" using notification_error s by blast
    have "v' = fst (seal_event h ''app.notification.denied'' (JObj [(''error'', JStr (bridge_error_text e)), (''title'', JStr title)]) ?v)" "r = Inl e"
      using assms(3) Inr s Inl by (auto simp: notification_send_def)
    then show ?thesis using a m by (auto simp: audit_entry_def json_get_def)
  next
    case (Inr y)
    have "v' = fst (seal_event h ''app.notification.sent'' (JObj [(''icon'', icon_json icon), (''title'', JStr title)]) ?v)" "r = Inr y"
      using assms(3) \<open>check_notification (vw_perms v) = Inr x\<close> s Inr by (auto simp: notification_send_def)
    then show ?thesis using a by (auto simp: audit_entry_def json_get_def)
  qed
  then show ?thesis by (rule adds_frame) simp_all
qed

lemma invoke_adds:
  assumes "forge_codec_ok (vh_codec h) (sk_key (sw_key (vw_seal v)))" and "vh_io h (vw_tick v) = io_fine" and "invoke h c v = (v', a)"
  shows "adds h v (audit_entry (c, a)) v'"
proof (cases c)
  case (C_NetworkFetch args)
  then show ?thesis using assms network_fetch_adds [OF assms(1,2)] by (auto simp: invoke_def split: prod.splits)
next
  case (C_NotificationSend title body icon)
  then show ?thesis using assms notification_send_adds [OF assms(1,2)] by (auto simp: invoke_def split: prod.splits)
qed (use assms(3) in \<open>auto simp: invoke_def audit_entry_def storage_get_def storage_set_def storage_delete_def storage_keys_def
      intro!: adds_none dest: with_storage_keeps\<close>)

lemma run_page_adds:
  assumes "forge_codec_ok (vh_codec h) (sk_key (sw_key (vw_seal v)))" and "\<And>n. vh_io h n = io_fine" and "run_page h cs v = (v', as)"
  shows "adds h v (concat (map audit_entry as)) v'"
  using assms(1,3)
proof (induction cs arbitrary: v v' as)
  case (Cons c cs)
  obtain v1 a where i: "invoke h c v = (v1, a)" by fastforce
  obtain v2 bs where r: "run_page h cs (v1\<lparr>vw_tick := vw_tick v1 + 1\<rparr>) = (v2, bs)" by fastforce
  have a: "adds h v (audit_entry (c, a)) v1" by (rule invoke_adds [OF Cons.prems(1) assms(2) i])
  then have "adds h (v1\<lparr>vw_tick := vw_tick v1 + 1\<rparr>) (concat (map audit_entry bs)) v2"
    using Cons.IH [OF _ r] Cons.prems(1) by (simp add: adds_def)
  then have "adds h v1 (concat (map audit_entry bs)) v2" by (rule adds_frame) simp_all
  from adds_trans [OF a this] show ?case using Cons.prems(2) i r by auto
qed (auto intro: adds_none)

lemma window_event_adds:
  assumes "forge_codec_ok (vh_codec h) (sk_key (sw_key (vw_seal v)))" and "vh_io h (vw_tick v) = io_fine"
  shows "adds h v [(event, None)] (window_event h event v)"
proof -
  define v1 where "v1 = emit_event h event (JObj [(''window'', JStr ''main'')]) v"
  have k: "vw_seal v1 = vw_seal v" "vw_fs v1 = vw_fs v" "vw_tick v1 = vw_tick v"
    by (simp_all add: v1_def emit_event_def split: prod.splits option.splits)
  have "adds h v1 [(event, None)] (fst (seal_event h event (JObj [(''window'', JStr ''main'')]) v1))"
    by (rule adds_seal) (use assms k in \<open>simp_all add: record_entry_def json_get_def\<close>)
  then show ?thesis by (rule adds_frame) (use k in \<open>simp_all add: window_event_def v1_def Let_def\<close>)
qed


text \<open>An app directory before a session: no key yet, or a key and a log that verifies with it.\<close>

definition app_chain :: "ForgeCodec \<Rightarrow> fs \<Rightarrow> path \<Rightarrow> string \<Rightarrow> ForgeSealRecord list \<Rightarrow> bool" where
  "app_chain cx fs dir fresh rs \<longleftrightarrow>
     (case fs (dir @ [''signing.pem'']) of
        None \<Rightarrow> and_then (fx_pem_of_key cx fresh) (fx_key_of_pem cx) = Ok fresh \<and> fs (dir @ [''events.jsonl'']) = None \<and> rs = []
      | Some pem \<Rightarrow>
          (\<exists>k. fx_key_of_pem cx pem = Ok k \<and>
             (chain_holds cx k fs (dir @ [''events.jsonl'']) rs \<or> fs (dir @ [''events.jsonl'']) = None \<and> rs = [])))"

lemma chain_holds_new: "fs p = Some [] \<Longrightarrow> chain_holds cx k fs p []"
  by (simp add: chain_holds_def log_closed_def record_lines_def)

lemma writer_open_holds:
  assumes "app_chain cx fs dir fresh rs" and "writer_open cx io_fine fresh dir fs = (fs1, Ok w)"
  shows "sw_path w = dir @ [''events.jsonl'']" and "chain_holds cx (sk_key (sw_key w)) fs1 (sw_path w) rs"
    and "key_load cx io_fine fs1 (dir @ [''signing.pem'']) = Ok (sw_key w)"
proof -
  let ?p = "dir @ [''signing.pem'']" and ?e = "dir @ [''events.jsonl'']"
  have "sw_path w = ?e \<and> chain_holds cx (sk_key (sw_key w)) fs1 (sw_path w) rs \<and> key_load cx io_fine fs1 ?p = Ok (sw_key w)"
  proof (cases "fs ?p")
    case None
    then obtain pem where k: "fx_pem_of_key cx fresh = Ok pem" "fx_key_of_pem cx pem = Ok fresh" "fs ?e = None" "rs = []"
      using assms(1) by (auto simp: app_chain_def and_then_Ok_iff)
    then have "key_load_or_generate cx io_fine fresh dir fs = (fs(?p \<mapsto> pem), Ok \<lparr>sk_key = fresh, sk_path = ?p\<rparr>)"
      using None by (simp add: key_load_or_generate_def key_generate_and_save_def path_parent_def fs_fill_def io_fine_def Let_def)
    then show ?thesis using assms(2) k by (auto simp: writer_open_def io_fine_def Let_def key_load_def intro!: chain_holds_new)
  next
    case (Some pem)
    then obtain k where k: "fx_key_of_pem cx pem = Ok k" "chain_holds cx k fs ?e rs \<or> fs ?e = None \<and> rs = []"
      using assms(1) by (auto simp: app_chain_def)
    have "key_load_or_generate cx io_fine fresh dir fs = (fs, Ok \<lparr>sk_key = k, sk_path = ?p\<rparr>)"
      using Some k(1) by (simp add: key_load_or_generate_def key_load_def io_fine_def Let_def)
    then show ?thesis using assms(2) k Some
      by (cases "fs ?e") (auto simp: writer_open_def io_fine_def Let_def key_load_def chain_holds_def log_closed_def record_lines_def)
  qed
  then show "sw_path w = ?e" "chain_holds cx (sk_key (sw_key w)) fs1 (sw_path w) rs" "key_load cx io_fine fs1 ?p = Ok (sw_key w)" by auto
qed

lemma writer_open_frame:
  "writer_open cx io fresh dir fs = (fs1, r) \<Longrightarrow> q \<noteq> dir @ [''events.jsonl''] \<Longrightarrow> q \<noteq> dir @ [''signing.pem''] \<Longrightarrow> fs1 q = fs q"
  by (auto simp: writer_open_def key_load_or_generate_def key_generate_and_save_def fs_fill_def Let_def split: option.splits sum.splits prod.splits if_splits)

lemma run_page_calls: "map fst (snd (run_page h cs v)) = cs"
  by (induction cs arbitrary: v) (auto split: prod.splits, metis snd_conv)

lemma viewer_start_simps [simp]:
  "vw_fs (viewer_start b c f t w fs) = fs" "vw_seal (viewer_start b c f t w fs) = w" "vw_perms (viewer_start b c f t w fs) = fg_permissions f"
  by (simp_all add: viewer_start_def)

lemma viewer_main_closed:
  assumes "viewer_main h db reachable fresh args cs fs = (fs', Exit_Closed v as)" and "from_args args = Ok config"
  obtains fs1 w v0 v1 where "writer_open (vh_codec h) (vh_io h 0) fresh (vc_app_dir config @ [''seal'']) fs = (fs1, Ok w)"
    and "vw_fs v0 = fs1" and "vw_seal v0 = w"
    and "run_page h cs (window_event h ''app.window.opened'' v0) = (v1, as)" and "fs' = vw_fs (window_event h ''app.window.closed'' v1)"
proof -
  obtain forge storage fs1 w v1 where o: "writer_open (vh_codec h) (vh_io h 0) fresh (vc_app_dir config @ [''seal'']) fs = (fs1, Ok w)"
    and "run_page h cs (window_event h ''app.window.opened'' (viewer_start reachable config forge storage w fs1)) = (v1, as)"
    and "fs' = vw_fs (window_event h ''app.window.closed'' v1)"
    using assms by (auto simp: viewer_main_def Let_def split: sum.splits prod.splits)
  then show thesis by (intro that [OF o viewer_start_simps(1,2)])
qed

text \<open>What a session adds to the chain, whatever the page calls.\<close>

lemma session_recorded:
  assumes "viewer_main h db reachable fresh args cs fs = (fs', Exit_Closed v as)" and "from_args args = Ok config"
    and "app_chain (vh_codec h) fs (vc_app_dir config @ [''seal'']) fresh rs"
    and "\<And>n. vh_io h n = io_fine" and "\<And>key. forge_codec_ok (vh_codec h) key"
  shows "\<exists>qs. forge_verify (vh_codec h) io_fine fs' (vc_app_dir config @ [''seal'']) =
        Ok \<lparr>vr_events = of_nat (length (rs @ qs)), vr_last_hash = fr_hash (last (rs @ qs))\<rparr> \<and>
      (\<exists>s. fs' (vc_app_dir config @ [''seal'', ''events.jsonl'']) = Some s \<and> map (fx_parse (vh_codec h)) (record_lines s) = map Ok (rs @ qs)) \<and>
      map record_entry qs = (''app.window.opened'', None) # concat (map audit_entry as) @ [(''app.window.closed'', None)] \<and>
      map fst as = cs \<and>
      (\<forall>q. q \<noteq> vc_app_dir config @ [''seal'', ''events.jsonl''] \<longrightarrow> q \<noteq> vc_app_dir config @ [''seal'', ''signing.pem''] \<longrightarrow> fs' q = fs q)"
proof -
  let ?cx = "vh_codec h" and ?dir = "vc_app_dir config @ [''seal'']" and ?p = "vc_app_dir config @ [''seal'', ''events.jsonl'']"
  obtain fs1 w v0 v1 where o: "writer_open ?cx (vh_io h 0) fresh ?dir fs = (fs1, Ok w)" and v0: "vw_fs v0 = fs1" "vw_seal v0 = w"
    and r: "run_page h cs (window_event h ''app.window.opened'' v0) = (v1, as)" and f: "fs' = vw_fs (window_event h ''app.window.closed'' v1)"
    by (rule viewer_main_closed [OF assms(1,2)])
  define v2 where "v2 = window_event h ''app.window.closed'' v1"
  note w = writer_open_holds [OF assms(3) o [unfolded assms(4)]]
  have p: "sw_path w = ?p" using w(1) by simp
  have "adds h v0 ([(''app.window.opened'', None)] @ concat (map audit_entry as) @ [(''app.window.closed'', None)]) v2"
    unfolding v2_def
    by (rule adds_trans [OF window_event_adds adds_trans [OF run_page_adds [OF _ _ r] window_event_adds]]) (simp_all add: assms(4,5))
  note a = this [unfolded adds_def v0 p, folded append_Cons append_Nil]
  have "viewer_chain h v0 rs" using w(2) v0 by (simp add: viewer_chain_def)
  then obtain qs where q: "viewer_chain h v2 (rs @ qs)"
    "map record_entry qs = (''app.window.opened'', None) # concat (map audit_entry as) @ [(''app.window.closed'', None)]"
    using a by auto
  have same: "\<And>q. q \<noteq> ?p \<Longrightarrow> fs' q = fs1 q" "vw_seal v2 = w" using a f by (simp_all add: v2_def)
  have c: "chain_holds ?cx (sk_key (sw_key w)) fs' ?p (rs @ qs)"
    using q(1) unfolding viewer_chain_def same(2) p by (simp add: f v2_def)
  moreover have "key_load ?cx io_fine fs' (?dir @ [''signing.pem'']) = Ok (sw_key w)"
    unfolding w(3) [symmetric] by (rule key_load_cong, rule same(1)) simp
  moreover have "qs \<noteq> []" using q(2) by auto
  ultimately have "forge_verify ?cx io_fine fs' ?dir = Ok \<lparr>vr_events = of_nat (length (rs @ qs)), vr_last_hash = fr_hash (last (rs @ qs))\<rparr>"
    by (intro chain_holds_verifies) simp_all
  moreover have "map fst as = cs" using run_page_calls [of h cs] r by (metis snd_conv)
  moreover have "\<exists>s. fs' ?p = Some s \<and> map (fx_parse ?cx) (record_lines s) = map Ok (rs @ qs)" using c by (auto simp: chain_holds_def)
  moreover have "\<forall>q. q \<noteq> ?p \<longrightarrow> q \<noteq> vc_app_dir config @ [''seal'', ''signing.pem''] \<longrightarrow> fs' q = fs q"
    using same(1) writer_open_frame [OF o] by simp
  ultimately show ?thesis using q(2) by (intro exI [of _ qs] conjI)
qed

text \<open>The calls that the chain's documentation calls privileged, and the one entry that stands for such a call with its answer.\<close>

fun privileged :: "Command \<Rightarrow> bool" where
  "privileged (C_AgentInvoke _ _) = True"
| "privileged (C_NetworkFetch _) = True"
| "privileged (C_NotificationSend _ _ _) = True"
| "privileged _ = False"

definition call_entry :: "Command \<times> Answer \<Rightarrow> string \<times> Json option" where
  "call_entry ca =
     (case ca of
        (C_NetworkFetch args, A_Fetch _ r) \<Rightarrow>
          (if is_ok r then ''app.network.fetch''
           else if r = Err (BE_PolicyDenied ''redirect_off_whitelist'') then ''app.network.fetch.redirect_denied''
           else ''app.network.fetch.denied'', Some (JStr (fa_url args)))
      | (C_NotificationSend title _ _, A_Notified _ r) \<Rightarrow> (if is_ok r then ''app.notification.sent'' else ''app.notification.denied'', Some (JStr title))
      | _ \<Rightarrow> ([], None))"

text \<open>The calls that leave no record although they are privileged.\<close>

definition unrecorded :: "Command \<times> Answer \<Rightarrow> bool" where
  "unrecorded ca = (case ca of (C_AgentInvoke _ _, _) \<Rightarrow> True | (_, A_Notified _ (Inl (BE_PermissionDenied _))) \<Rightarrow> True | _ \<Rightarrow> False)"

lemma invoke_answers:
  assumes "invoke h c v = (v', a)"
  shows "case c of C_NetworkFetch _ \<Rightarrow> (\<exists>us r. a = A_Fetch us r) | C_NotificationSend _ _ _ \<Rightarrow> (\<exists>sh r. a = A_Notified sh r) | _ \<Rightarrow> True"
  using assms by (cases c) (auto simp: invoke_def split: prod.splits)

lemma audit_entry_call:
  assumes "invoke h c v = (v', a)" and "\<not> unrecorded (c, a)"
  shows "audit_entry (c, a) = (if privileged c then [call_entry (c, a)] else [])"
  using assms(2) invoke_answers [OF assms(1)]
  by (cases c) (auto simp: audit_entry_def call_entry_def unrecorded_def is_ok_def split: sum.splits BridgeError.splits)

lemma run_page_entries:
  "run_page h cs v = (v', as) \<Longrightarrow> list_all (\<lambda>ca. \<not> unrecorded ca) as \<Longrightarrow>
   concat (map audit_entry as) = map call_entry (filter (\<lambda>ca. privileged (fst ca)) as)"
proof (induction cs arbitrary: v v' as)
  case (Cons c cs)
  obtain v1 a where i: "invoke h c v = (v1, a)" by fastforce
  obtain v2 bs where r: "run_page h cs (v1\<lparr>vw_tick := vw_tick v1 + 1\<rparr>) = (v2, bs)" by fastforce
  have as: "as = (c, a) # bs" using Cons.prems(1) i r by simp
  then show ?case using Cons.IH [OF r] Cons.prems(2) audit_entry_call [OF i] by simp
qed simp

text \<open>C12. The chain of an app records its sessions: when the viewer is started on an app that has no chain yet or one that verifies, then after
  the window has closed the chain verifies, the old records are still there, and the new ones are exactly the opening of the window, one entry for each
  privileged call, of the kind that matches the answer the page got, in the order of the calls, and the closing. Nothing outside the app's chain
  and key has changed. The session is one whose page calls no agent and has no notification refused by its manifest: those two leave no record. Relied
  on: the host's calls succeed, records serialize and parse back, signatures check.\<close>

theorem session_audited:
  assumes "viewer_main h db reachable fresh args cs fs = (fs', Exit_Closed v as)" and "from_args args = Ok config"
    and "app_chain (vh_codec h) fs (vc_app_dir config @ [''seal'']) fresh rs"
    and "\<And>n. vh_io h n = io_fine" and "\<And>key. forge_codec_ok (vh_codec h) key"
    and "list_all (\<lambda>ca. \<not> unrecorded ca) as"
  shows "\<exists>qs. forge_verify (vh_codec h) io_fine fs' (vc_app_dir config @ [''seal'']) =
        Ok \<lparr>vr_events = of_nat (length (rs @ qs)), vr_last_hash = fr_hash (last (rs @ qs))\<rparr> \<and>
      (\<exists>s. fs' (vc_app_dir config @ [''seal'', ''events.jsonl'']) = Some s \<and> map (fx_parse (vh_codec h)) (record_lines s) = map Ok (rs @ qs)) \<and>
      map record_entry qs =
        (''app.window.opened'', None) # map call_entry (filter (\<lambda>ca. privileged (fst ca)) as) @ [(''app.window.closed'', None)] \<and>
      map fst as = cs \<and>
      (\<forall>q. q \<noteq> vc_app_dir config @ [''seal'', ''events.jsonl''] \<longrightarrow> q \<noteq> vc_app_dir config @ [''seal'', ''signing.pem''] \<longrightarrow> fs' q = fs q)"
proof -
  obtain v0 v1 where "run_page h cs v0 = (v1, as)" by (rule viewer_main_closed [OF assms(1,2)])
  from run_page_entries [OF this assms(6)] show ?thesis using session_recorded [OF assms(1-5)] by simp
qed

text \<open>For the instance: a codec that numbers records, and a host on which every call succeeds.\<close>

instance Json :: countable by countable_datatype

definition record_fields :: "ForgeSealRecord \<Rightarrow> (64 word \<times> string \<times> string) \<times> string \<times> Json \<times> string \<times> string" where
  "record_fields r = ((fr_id r, fr_ts r, fr_prev_hash r), fr_kind r, fr_data r, fr_hash r, fr_sig r)"

definition record_of :: "(64 word \<times> string \<times> string) \<times> string \<times> Json \<times> string \<times> string \<Rightarrow> ForgeSealRecord" where
  "record_of t =
     (case t of ((i, ts, prev), kind, data, hash, sig) \<Rightarrow>
        \<lparr>fr_id = i, fr_ts = ts, fr_prev_hash = prev, fr_kind = kind, fr_data = data, fr_hash = hash, fr_sig = sig\<rparr>)"

definition numbering_codec :: ForgeCodec where
  "numbering_codec =
     \<lparr>fx_sha = \<lambda>s. s, fx_unsigned = \<lambda>u. Ok (show_nat (to_nat (un_id u, un_ts u, un_prev_hash u, un_kind u, un_data u))),
      fx_print = \<lambda>r. Ok (show_nat (to_nat (record_fields r))), fx_parse = \<lambda>l. Ok (record_of (from_nat (read_nat l))),
      fx_sign = \<lambda>k h. k @ h, fx_check = \<lambda>k h s. if s = k @ h then Sig_Valid else Sig_Wrong,
      fx_key_of_pem = \<lambda>s. Ok s, fx_pem_of_key = \<lambda>s. Ok s\<rparr>"

lemma numbering_codec_ok: "forge_codec_ok numbering_codec key"
proof -
  have "record_of (record_fields r) = r" for r by (simp add: record_of_def record_fields_def)
  then have "forge_print_ok numbering_codec r" for r
    using show_nat_digits [of "to_nat (record_fields r)"] digits_are_lines by (auto simp: forge_print_ok_def numbering_codec_def)
  then show ?thesis by (simp add: forge_codec_ok_def) (simp add: numbering_codec_def)
qed


definition sample_manifest :: ForgeConfig where
  "sample_manifest =
     \<lparr>fg_name = ''app'', fg_description = [], fg_version = ''0.1.0'', fg_api_version = 1, fg_rfc_id = ''rfc-1'', fg_rfc_hash = ''h'',
      fg_created_at = ''now'', fg_icon = ''default'', fg_window = \<lparr>wc_title = ''App'', wc_width = 480, wc_height = 320, wc_resizable = True\<rparr>,
      fg_permissions = sample_perms\<rparr>"

definition sample_viewer_host :: ViewerHost where
  "sample_viewer_host =
     \<lparr>vh_codec = numbering_codec, vh_manifest = \<lparr>mx_parse = \<lambda>_. Ok sample_manifest, mx_print = \<lambda>_. Ok ''m''\<rparr>, vh_io = \<lambda>_. io_fine,
      vh_now = \<lambda>_. ''now'', vh_unix = \<lambda>_. 0, vh_clock = \<lambda>_. 0, vh_sql = \<lambda>_. None, vh_poisoned = \<lambda>_. False, vh_uuid = \<lambda>_. ''u'',
      vh_socket = \<lambda>_. None, vh_url = \<lambda>_. Ok \<lparr>url_scheme = ''https'', url_host = Some ''api.x.com''\<rparr>, vh_http = \<lambda>_. sample_client,
      vh_shown = \<lambda>_. Ok (), vh_canon = Some, vh_window = Ok ()\<rparr>"

definition sample_viewer_args :: "string list" where
  "sample_viewer_args = [''--app-dir'', ''/app'', ''--app-id'', ''id'', ''--socket'', ''/s'']"

lemma sample_viewer_config: "from_args sample_viewer_args = Ok \<lparr>vc_app_dir = [''app''], vc_app_id = ''id'', vc_socket_path = [''s'']\<rparr>"
  by code_simp

lemma sample_viewer_runs:
  "\<exists>fs' v as. viewer_main sample_viewer_host None True ''k'' sample_viewer_args cs [[''app'', ''manifest.toml''] \<mapsto> ''m''] = (fs', Exit_Closed v as)"
proof -
  let ?fs = "[[''app'', ''manifest.toml''] \<mapsto> ''m''] :: fs"
  have "\<exists>fs1 w. writer_open numbering_codec io_fine ''k'' [''app'', ''seal''] ?fs = (fs1, Ok w)"
    by (simp add: writer_open_def key_load_or_generate_def key_generate_and_save_def path_parent_def fs_fill_def io_fine_def Let_def
        numbering_codec_def)
  moreover have "manifest_load (vh_manifest sample_viewer_host) io_fine ?fs [''app'', ''manifest.toml''] = Ok sample_manifest"
    by (simp add: manifest_load_def io_fine_def map_err_def sample_viewer_host_def)
  moreover have "kv_open io_fine None None = Ok []" by (simp add: kv_open_def io_fine_def)
  ultimately show ?thesis
    by (auto simp: viewer_main_def sample_viewer_config sample_viewer_host_def Let_def split: prod.splits)
qed

lemma fetch_recorded: "viewer_main h db reachable fresh args [C_NetworkFetch x] fs = (fs', Exit_Closed v as) \<Longrightarrow> \<exists>us r. as = [(C_NetworkFetch x, A_Fetch us r)]"
  by (auto simp: viewer_main_def invoke_def Let_def split: sum.splits prod.splits)

theorem session_audited_witness:
  "\<exists>fs' v us r qs. viewer_main sample_viewer_host None True ''k'' sample_viewer_args [C_NetworkFetch sample_args] [[''app'', ''manifest.toml''] \<mapsto> ''m''] =
       (fs', Exit_Closed v [(C_NetworkFetch sample_args, A_Fetch us r)]) \<and>
     forge_verify numbering_codec io_fine fs' [''app'', ''seal''] = Ok \<lparr>vr_events = of_nat (length qs), vr_last_hash = fr_hash (last qs)\<rparr> \<and>
     map record_entry qs = [(''app.window.opened'', None), call_entry (C_NetworkFetch sample_args, A_Fetch us r), (''app.window.closed'', None)]"
proof -
  obtain fs' v as where m: "viewer_main sample_viewer_host None True ''k'' sample_viewer_args [C_NetworkFetch sample_args]
      [[''app'', ''manifest.toml''] \<mapsto> ''m''] = (fs', Exit_Closed v as)" using sample_viewer_runs by blast
  obtain us r where as: "as = [(C_NetworkFetch sample_args, A_Fetch us r)]" using fetch_recorded [OF m] by blast
  have c: "vh_codec sample_viewer_host = numbering_codec" "\<And>n. vh_io sample_viewer_host n = io_fine" by (simp_all add: sample_viewer_host_def)
  have a: "app_chain (vh_codec sample_viewer_host) [[''app'', ''manifest.toml''] \<mapsto> ''m''] (vc_app_dir \<lparr>vc_app_dir = [''app''], vc_app_id = ''id'',
      vc_socket_path = [''s'']\<rparr> @ [''seal'']) ''k'' []" by (simp add: app_chain_def c(1)) (simp add: numbering_codec_def)
  have ok: "forge_codec_ok (vh_codec sample_viewer_host) key" for key by (simp only: c numbering_codec_ok)
  have u: "list_all (\<lambda>ca. \<not> unrecorded ca) as" by (simp add: as unrecorded_def)
  from session_audited [OF m sample_viewer_config a c(2) ok u] m show ?thesis unfolding as c(1) append_Nil by auto
qed

section \<open>What a page can reach\<close>

lemma seal_event_perms: "vw_perms (fst (seal_event h kind data v)) = vw_perms v"
  by (simp add: seal_event_def split: prod.splits sum.splits)

lemma invoke_perms: "invoke h c v = (v', a) \<Longrightarrow> vw_perms v' = vw_perms v"
  by (cases c)
    (auto simp: invoke_def storage_get_def storage_set_def storage_delete_def storage_keys_def with_storage_def network_fetch_def
      notification_send_def seal_event_perms split: prod.splits if_splits sum.splits)

text \<open>What an answer shows of the world outside the app's own directory, judged by a manifest.\<close>

definition answer_permitted :: "url_parser \<Rightarrow> Permissions \<Rightarrow> Answer \<Rightarrow> bool" where
  "answer_permitted pu p a =
     (case a of
        A_Fetch contacted _ \<Rightarrow> list_all (\<lambda>url. is_ok (check_network pu p url)) contacted
      | A_Notified shown _ \<Rightarrow> shown = None \<or> pm_notification p
      | A_Agent r \<Rightarrow> \<not> is_ok r
      | A_Cancel r \<Rightarrow> is_ok r = pm_agent p
      | _ \<Rightarrow> True)"

lemma invoke_permitted:
  assumes "obeys_policy (vh_http h (vw_tick v))" and "invoke h c v = (v', a)"
  shows "answer_permitted (vh_url h) (vw_perms v) a"
proof (cases c)
  case (C_NetworkFetch args)
  then show ?thesis using assms fetch_contacts(2) [OF assms(1)]
    by (auto simp: invoke_def network_fetch_def answer_permitted_def list_all_iff is_ok_iff split: prod.splits)
next
  case (C_NotificationSend title body icon)
  then show ?thesis using assms(2)
    by (auto simp: invoke_def notification_send_def check_notification_def answer_permitted_def split: prod.splits if_splits sum.splits)
qed (use assms(2) in \<open>auto simp: invoke_def answer_permitted_def map_prod_def agent_invoke_def agent_cancel_def check_agent_def
      split: prod.splits\<close>)

text \<open>C14. A page stays within its manifest: in every session, whatever the page calls and in whatever order, each URL contacted for it
  passes the network check of the app's manifest, the desktop is asked to show something only with the
  notification permission, and the agent commands give it nothing without the agent permission. Relied on: the
  HTTP client follows redirects as its policy says.\<close>

theorem page_stays_within_manifest:
  assumes "\<And>n. obeys_policy (vh_http h n)" and "run_page h cs v = (v', as)"
  shows "vw_perms v' = vw_perms v \<and> list_all (\<lambda>(c, a). answer_permitted (vh_url h) (vw_perms v) a) as"
  using assms(2)
proof (induction cs arbitrary: v v' as)
  case (Cons c cs)
  obtain v1 a where i: "invoke h c v = (v1, a)" by fastforce
  obtain v2 bs where r: "run_page h cs (v1\<lparr>vw_tick := vw_tick v1 + 1\<rparr>) = (v2, bs)" by fastforce
  show ?case using Cons.IH [OF r] Cons.prems i r invoke_perms [OF i] invoke_permitted [OF assms(1) i] by auto
qed simp

theorem page_stays_within_manifest_witness:
  "\<exists>v' as. run_page sample_viewer_host [C_NetworkFetch sample_args, C_AgentInvoke ''t'' JNull]
       (viewer_start True \<lparr>vc_app_dir = [''app''], vc_app_id = ''id'', vc_socket_path = [''s'']\<rparr> sample_manifest []
          \<lparr>sw_path = [''e''], sw_key = \<lparr>sk_key = ''k'', sk_path = [''p'']\<rparr>\<rparr> (\<lambda>_. None)) = (v', as) \<and>
     list_all (\<lambda>(c, a). answer_permitted (vh_url sample_viewer_host) sample_perms a) as"
proof -
  let ?v = "viewer_start True \<lparr>vc_app_dir = [''app''], vc_app_id = ''id'', vc_socket_path = [''s'']\<rparr> sample_manifest []
      \<lparr>sw_path = [''e''], sw_key = \<lparr>sk_key = ''k'', sk_path = [''p'']\<rparr>\<rparr> (\<lambda>_. None)"
  obtain v' as where r: "run_page sample_viewer_host [C_NetworkFetch sample_args, C_AgentInvoke ''t'' JNull] ?v = (v', as)" by fastforce
  have "obeys_policy (vh_http sample_viewer_host n)" for n
    unfolding obeys_policy_def sample_viewer_host_def sample_client_def by (simp add: less_Suc_eq)
  from page_stays_within_manifest [OF this r] r show ?thesis by (simp add: sample_manifest_def)
qed

text \<open>C29. The asset server gives away nothing but the app's web assets: its response depends only on the files that the five allowed
  names resolve to inside the app's directory. The signing key, the stored data and every other file can change
  without any request noticing, unless an asset is a link to them. And whatever is served carries the content policy that cuts the page off from the network.\<close>

theorem served_files_confined:
  assumes "\<And>name p r. name \<in> set ALLOWED_ASSETS \<Longrightarrow> vh_canon h (root @ [name]) = Some p \<Longrightarrow> vh_canon h root = Some r \<Longrightarrow> prefix r p \<Longrightarrow> fs p = fs' p"
  shows "serve_app_file h io fs root uri = serve_app_file h io fs' root uri \<and>
    (as_status (serve_app_file h io fs root uri) = 200 \<longrightarrow>
       (''content-security-policy'', CSP) \<in> set (as_headers (serve_app_file h io fs root uri)) \<and>
       dropWhile (\<lambda>c. c = CHR ''/'') uri \<in> set ALLOWED_ASSETS)"
proof -
  have flat: "path_join root name = root @ [name]" if "name \<in> set ALLOWED_ASSETS" for name
    using that by (auto simp: ALLOWED_ASSETS_def path_join_def path_comps_def)
  show ?thesis using assms
    by (auto simp: serve_app_file_def Let_def flat asset_error_def split: option.splits)
qed

theorem served_files_confined_witness:
  "serve_app_file sample_viewer_host io_fine [[''app'', ''app.js''] \<mapsto> ''x'', [''app'', ''seal'', ''signing.pem''] \<mapsto> ''k''] [''app''] ''/app.js'' =
   serve_app_file sample_viewer_host io_fine [[''app'', ''app.js''] \<mapsto> ''x''] [''app''] ''/app.js'' \<and>
   as_status (serve_app_file sample_viewer_host io_fine [[''app'', ''app.js''] \<mapsto> ''x''] [''app''] ''/app.js'') = 200"
proof
  show "serve_app_file sample_viewer_host io_fine [[''app'', ''app.js''] \<mapsto> ''x'', [''app'', ''seal'', ''signing.pem''] \<mapsto> ''k''] [''app''] ''/app.js'' =
   serve_app_file sample_viewer_host io_fine [[''app'', ''app.js''] \<mapsto> ''x''] [''app''] ''/app.js''"
    by (rule served_files_confined [THEN conjunct1]) (auto simp: sample_viewer_host_def ALLOWED_ASSETS_def)
  show "as_status (serve_app_file sample_viewer_host io_fine [[''app'', ''app.js''] \<mapsto> ''x''] [''app''] ''/app.js'') = 200" by code_simp
qed

text \<open>The storage commands do not look at the manifest: an app without the storage permission reads what it wrote.\<close>

lemma storage_ignores_permission:
  assumes "\<not> vh_poisoned h (vw_tick v)" and "vh_sql h (vw_tick v) = None"
  shows "storage_get h key (fst (storage_set h key val v)) = (fst (storage_set h key val v), Ok (Some val))"
  using assms by (simp add: storage_get_def storage_set_def with_storage_def kv_get_def kv_set_def map_err_def)

end
