(* ===== verification/Exec_Value.thy ===== *)
theory Exec_Value
  imports Host_Fs "HOL-Library.Char_ord" "HOL-Library.List_Lexorder"
begin

section \<open>Structured values and their types\<close>

text \<open>
  Models \<^verbatim>\<open>crates/orkia-value\<close> (\<^verbatim>\<open>value.rs\<close>, \<^verbatim>\<open>typ.rs\<close>, \<^verbatim>\<open>bridge.rs\<close>) and the vocabulary of typed pipelines in
  \<^verbatim>\<open>crates/orkia-shell-types/src/exec\<close>: literals, signatures, capabilities, errors and the data between stages. Doubles are a
  type variable with their operations in \<open>FloatOps\<close>; a date is its count of nanoseconds; the base64 and date libraries
  are the fields of \<open>BridgeCodec\<close>. A lazy stream is the list of the items it would yield. Integers are bounded to 64 bits where they are read.
\<close>

datatype Ord = Ord_Less | Ord_Equal | Ord_Greater

definition int_cmp :: "'a :: linorder \<Rightarrow> 'a \<Rightarrow> Ord" where
  "int_cmp a b = (if a < b then Ord_Less else if a = b then Ord_Equal else Ord_Greater)"

record 'f FloatOps =
  fo_parse :: "string \<Rightarrow> 'f option"
  fo_of_int :: "int \<Rightarrow> 'f"
  fo_cmp :: "'f \<Rightarrow> 'f \<Rightarrow> Ord option"
  fo_eq :: "'f \<Rightarrow> 'f \<Rightarrow> bool"
  fo_scale :: "'f \<Rightarrow> int \<Rightarrow> int"
  fo_finite :: "'f \<Rightarrow> bool"

datatype 'f Value =
    V_Nothing | V_Bool bool | V_Int int | V_Float 'f | V_Filesize int | V_Duration int | V_Date int | V_String string
  | V_Binary string | V_List "'f Value list" | V_Record "(string \<times> 'f Value) list"

datatype Type =
    Ty_Any | Ty_Nothing | Ty_Bool | Ty_Int | Ty_Float | Ty_Filesize | Ty_Duration | Ty_Date | Ty_String | Ty_Binary
  | Ty_List Type | Ty_Record "(string \<times> Type) list" | Ty_Table | Ty_ByteStream

subsection \<open>Types\<close>

definition untable :: "Type \<Rightarrow> Type" where
  "untable t = (if t = Ty_Table then Ty_List (Ty_Record []) else t)"

fun ty_depth :: "Type \<Rightarrow> nat" where
  "ty_depth (Ty_List t) = Suc (ty_depth t)"
| "ty_depth Ty_Table = 2"
| "ty_depth _ = 0"

function accepts :: "Type \<Rightarrow> Type \<Rightarrow> bool" where
  "accepts slot got =
     (if slot = Ty_Any \<or> got = Ty_Any then True
      else case (untable slot, untable got) of
             (Ty_List a, Ty_List b) \<Rightarrow> accepts a b
           | (Ty_Record cs, Ty_Record ds) \<Rightarrow> cs = [] \<or> cs = ds
           | (a, b) \<Rightarrow> a = b)"
  by auto
termination
  by (relation "measure (\<lambda>(a, b). ty_depth a)") (auto simp: untable_def split: if_splits)

declare accepts.simps [simp del]

definition is_record :: "'f Value \<Rightarrow> bool" where
  "is_record v = (case v of V_Record _ \<Rightarrow> True | _ \<Rightarrow> False)"

definition list_is_table :: "'f Value list \<Rightarrow> bool" where
  "list_is_table items \<longleftrightarrow> items \<noteq> [] \<and> list_all is_record items"

fun type_of :: "'f Value \<Rightarrow> Type" where
  "type_of V_Nothing = Ty_Nothing"
| "type_of (V_Bool _) = Ty_Bool"
| "type_of (V_Int _) = Ty_Int"
| "type_of (V_Float _) = Ty_Float"
| "type_of (V_Filesize _) = Ty_Filesize"
| "type_of (V_Duration _) = Ty_Duration"
| "type_of (V_Date _) = Ty_Date"
| "type_of (V_String _) = Ty_String"
| "type_of (V_Binary _) = Ty_Binary"
| "type_of (V_List items) = (if list_is_table items then Ty_Table else Ty_List Ty_Any)"
| "type_of (V_Record _) = Ty_Record []"

subsection \<open>Values\<close>

definition as_record :: "'f Value \<Rightarrow> (string \<times> 'f Value) list option" where
  "as_record v = (case v of V_Record m \<Rightarrow> Some m | _ \<Rightarrow> None)"

fun get_segments :: "string list \<Rightarrow> 'f Value \<Rightarrow> 'f Value option" where
  "get_segments [] v = Some v"
| "get_segments (s # ss) v =
     (case as_record v of
        None \<Rightarrow> None
      | Some m \<Rightarrow> (case map_of m s of None \<Rightarrow> None | Some w \<Rightarrow> get_segments ss w))"

definition get_path :: "string \<Rightarrow> 'f Value \<Rightarrow> 'f Value option" where
  "get_path p v = get_segments (split_on (CHR ''.'') p) v"

definition compare :: "'f FloatOps \<Rightarrow> 'f Value \<Rightarrow> 'f Value \<Rightarrow> Ord option" where
  "compare fo v w =
     (case (v, w) of
        (V_Bool a, V_Bool b) \<Rightarrow> Some (int_cmp a b)
      | (V_Int a, V_Int b) \<Rightarrow> Some (int_cmp a b)
      | (V_Float a, V_Float b) \<Rightarrow> fo_cmp fo a b
      | (V_Int a, V_Float b) \<Rightarrow> fo_cmp fo (fo_of_int fo a) b
      | (V_Float a, V_Int b) \<Rightarrow> fo_cmp fo a (fo_of_int fo b)
      | (V_Filesize a, V_Filesize b) \<Rightarrow> Some (int_cmp a b)
      | (V_Duration a, V_Duration b) \<Rightarrow> Some (int_cmp a b)
      | (V_Filesize a, V_Int b) \<Rightarrow> Some (int_cmp a b)
      | (V_Int a, V_Filesize b) \<Rightarrow> Some (int_cmp a b)
      | (V_Duration a, V_Int b) \<Rightarrow> Some (int_cmp a b)
      | (V_Int a, V_Duration b) \<Rightarrow> Some (int_cmp a b)
      | (V_Date a, V_Date b) \<Rightarrow> Some (int_cmp a b)
      | (V_String a, V_String b) \<Rightarrow> Some (int_cmp a b)
      | _ \<Rightarrow> None)"

text \<open>Equality, as derived: doubles by their own equality, records as maps, whatever the order of their columns.\<close>

fun value_eq :: "('f \<Rightarrow> 'f \<Rightarrow> bool) \<Rightarrow> 'f Value \<Rightarrow> 'f Value \<Rightarrow> bool"
and values_eq :: "('f \<Rightarrow> 'f \<Rightarrow> bool) \<Rightarrow> 'f Value list \<Rightarrow> 'f Value list \<Rightarrow> bool"
and columns_eq :: "('f \<Rightarrow> 'f \<Rightarrow> bool) \<Rightarrow> (string \<times> 'f Value) list \<Rightarrow> (string \<times> 'f Value) list \<Rightarrow> bool" where
  "value_eq feq (V_Float a) w = (case w of V_Float b \<Rightarrow> feq a b | _ \<Rightarrow> False)"
| "value_eq feq (V_List a) w = (case w of V_List b \<Rightarrow> values_eq feq a b | _ \<Rightarrow> False)"
| "value_eq feq (V_Record a) w = (case w of V_Record b \<Rightarrow> length a = length b \<and> columns_eq feq a b | _ \<Rightarrow> False)"
| "value_eq feq v w = (v = w)"
| "values_eq feq [] bs = (bs = [])"
| "values_eq feq (a # as) bs = (case bs of [] \<Rightarrow> False | b # bs' \<Rightarrow> value_eq feq a b \<and> values_eq feq as bs')"
| "columns_eq feq [] bs = True"
| "columns_eq feq ((k, v) # as) bs = ((case map_of bs k of None \<Rightarrow> False | Some w \<Rightarrow> value_eq feq v w) \<and> columns_eq feq as bs)"

subsection \<open>The wire format\<close>

text \<open>The JSON of the plugin boundary. A number is an integer of 64 bits, signed or not, or a double; an object keeps its
  entries in the order of their keys.\<close>

datatype 'f Wire = W_Null | W_Bool bool | W_Int int | W_Float 'f | W_Str string | W_Arr "'f Wire list" | W_Obj "(string \<times> 'f Wire) list"

record BridgeCodec =
  bc_date_text :: "int \<Rightarrow> string"
  bc_date_parse :: "string \<Rightarrow> int option"
  bc_b64_encode :: "string \<Rightarrow> string"
  bc_b64_decode :: "string \<Rightarrow> string option"

fun obj_insert :: "string \<Rightarrow> 'a \<Rightarrow> (string \<times> 'a) list \<Rightarrow> (string \<times> 'a) list" where
  "obj_insert k v [] = [(k, v)]"
| "obj_insert k v ((l, w) # m) = (if k < l then (k, v) # (l, w) # m else if k = l then (k, v) # m else (l, w) # obj_insert k v m)"

definition obj_of :: "(string \<times> 'a) list \<Rightarrow> (string \<times> 'a) list" where
  "obj_of kvs = foldl (\<lambda>m (k, v). obj_insert k v m) [] kvs"

definition TAG_FILESIZE :: string where "TAG_FILESIZE = ''$filesize''"

definition TAG_DURATION :: string where "TAG_DURATION = ''$duration_ns''"

definition TAG_DATE :: string where "TAG_DATE = ''$date''"

definition TAG_BINARY :: string where "TAG_BINARY = ''$binary''"

definition tagged :: "string \<Rightarrow> 'f Wire \<Rightarrow> 'f Wire" where
  "tagged tag payload = W_Obj [(tag, payload)]"

fun value_to_json :: "'f FloatOps \<Rightarrow> BridgeCodec \<Rightarrow> 'f Value \<Rightarrow> 'f Wire" where
  "value_to_json fo bc V_Nothing = W_Null"
| "value_to_json fo bc (V_Bool b) = W_Bool b"
| "value_to_json fo bc (V_Int i) = W_Int i"
| "value_to_json fo bc (V_Float f) = (if fo_finite fo f then W_Float f else W_Null)"
| "value_to_json fo bc (V_Filesize n) = tagged TAG_FILESIZE (W_Int n)"
| "value_to_json fo bc (V_Duration n) = tagged TAG_DURATION (W_Int n)"
| "value_to_json fo bc (V_Date d) = tagged TAG_DATE (W_Str (bc_date_text bc d))"
| "value_to_json fo bc (V_String s) = W_Str s"
| "value_to_json fo bc (V_Binary bytes) = tagged TAG_BINARY (W_Str (bc_b64_encode bc bytes))"
| "value_to_json fo bc (V_List items) = W_Arr (map (value_to_json fo bc) items)"
| "value_to_json fo bc (V_Record m) = W_Obj (obj_of (map (\<lambda>(k, v). (k, value_to_json fo bc v)) m))"

definition wire_i64 :: "'f Wire \<Rightarrow> int option" where
  "wire_i64 j = (case j of W_Int i \<Rightarrow> if - (2 ^ 63) \<le> i \<and> i < 2 ^ 63 then Some i else None | _ \<Rightarrow> None)"

definition wire_str :: "'f Wire \<Rightarrow> string option" where
  "wire_str j = (case j of W_Str s \<Rightarrow> Some s | _ \<Rightarrow> None)"

definition decode_tagged :: "BridgeCodec \<Rightarrow> string \<Rightarrow> 'f Wire \<Rightarrow> 'f Value option" where
  "decode_tagged bc key val =
     (if key = TAG_FILESIZE then map_option V_Filesize (wire_i64 val)
      else if key = TAG_DURATION then map_option V_Duration (wire_i64 val)
      else if key = TAG_DATE then map_option V_Date (Option.bind (wire_str val) (bc_date_parse bc))
      else if key = TAG_BINARY then map_option V_Binary (Option.bind (wire_str val) (bc_b64_decode bc))
      else None)"

fun json_to_value :: "'f FloatOps \<Rightarrow> BridgeCodec \<Rightarrow> 'f Wire \<Rightarrow> 'f Value" where
  "json_to_value fo bc W_Null = V_Nothing"
| "json_to_value fo bc (W_Bool b) = V_Bool b"
| "json_to_value fo bc (W_Int i) = (if - (2 ^ 63) \<le> i \<and> i < 2 ^ 63 then V_Int i else V_Float (fo_of_int fo i))"
| "json_to_value fo bc (W_Float f) = V_Float f"
| "json_to_value fo bc (W_Str s) = V_String s"
| "json_to_value fo bc (W_Arr items) = V_List (map (json_to_value fo bc) items)"
| "json_to_value fo bc (W_Obj m) =
     (case (case m of [(k, v)] \<Rightarrow> decode_tagged bc k v | _ \<Rightarrow> None) of
        Some rich \<Rightarrow> rich
      | None \<Rightarrow> V_Record (map (\<lambda>(k, v). (k, json_to_value fo bc v)) m))"

subsection \<open>Literals\<close>

definition split_number_unit :: "'f FloatOps \<Rightarrow> string \<Rightarrow> ('f \<times> string) option" where
  "split_number_unit fo input =
     (let num = takeWhile (\<lambda>c. is_digit c \<or> c = CHR ''.'' \<or> c = CHR ''-'' \<or> c = CHR ''+'') input; unit = drop (length num) input
      in if unit = [] \<or> num = [] then None
         else map_option (\<lambda>value. (value, to_ascii_lowercase unit)) (fo_parse fo num))"

definition filesize_unit :: "string \<Rightarrow> int option" where
  "filesize_unit unit =
     (if unit = ''b'' then Some 1
      else if unit = ''kb'' \<or> unit = ''kib'' then Some (2 ^ 10)
      else if unit = ''mb'' \<or> unit = ''mib'' then Some (2 ^ 20)
      else if unit = ''gb'' \<or> unit = ''gib'' then Some (2 ^ 30)
      else if unit = ''tb'' \<or> unit = ''tib'' then Some (2 ^ 40)
      else None)"

definition duration_unit :: "string \<Rightarrow> int option" where
  "duration_unit unit =
     (if unit = ''ns'' then Some 1
      else if unit = ''us'' then Some 1000
      else if unit = ''ms'' then Some 1000000
      else if unit = ''s'' \<or> unit = ''sec'' then Some 1000000000
      else if unit = ''min'' then Some (60 * 1000000000)
      else if unit = ''hr'' then Some (3600 * 1000000000)
      else if unit = ''day'' then Some (86400 * 1000000000)
      else None)"

definition parse_filesize :: "'f FloatOps \<Rightarrow> string \<Rightarrow> int option" where
  "parse_filesize fo input =
     Option.bind (split_number_unit fo input) (\<lambda>(value, unit). map_option (fo_scale fo value) (filesize_unit unit))"

definition parse_duration :: "'f FloatOps \<Rightarrow> string \<Rightarrow> int option" where
  "parse_duration fo input =
     Option.bind (split_number_unit fo input) (\<lambda>(value, unit). map_option (fo_scale fo value) (duration_unit unit))"

subsection \<open>Errors\<close>

text \<open>The last constructor is no variant of the source: it stands for a panic of the command, after which the shell's process ends.\<close>

datatype ExecError =
    TypeMismatch string Type Type string
  | MissingArg string string
  | UnknownFlagE string string
  | BadArgs string string
  | BadValue string string
  | ConversionRefused string
  | CapabilityDenied string string string
  | RuntimeE string string
  | CancelledE
  | Panicked string

definition exec_exit_code :: "ExecError \<Rightarrow> nat" where
  "exec_exit_code e =
     (case e of CapabilityDenied _ _ _ \<Rightarrow> 1 | RuntimeE _ _ \<Rightarrow> 1 | CancelledE \<Rightarrow> 1 | Panicked _ \<Rightarrow> 101 | _ \<Rightarrow> 2)"

subsection \<open>Capabilities\<close>

datatype Scope = Scope_Path path | Scope_Host string | Scope_Var string

datatype CapabilityScope = Cap_None | Cap_Scoped "Scope list" | Cap_Any

definition allows_path :: "CapabilityScope \<Rightarrow> path \<Rightarrow> bool" where
  "allows_path c p =
     (case c of
        Cap_None \<Rightarrow> False
      | Cap_Any \<Rightarrow> True
      | Cap_Scoped scopes \<Rightarrow> list_ex (\<lambda>s. case s of Scope_Path pre \<Rightarrow> prefix pre p | _ \<Rightarrow> False) scopes)"

definition allows_named :: "CapabilityScope \<Rightarrow> string \<Rightarrow> bool \<Rightarrow> bool" where
  "allows_named c name want_host =
     (case c of
        Cap_None \<Rightarrow> False
      | Cap_Any \<Rightarrow> True
      | Cap_Scoped scopes \<Rightarrow>
          list_ex (\<lambda>s. case s of Scope_Host h \<Rightarrow> want_host \<and> h = name | Scope_Var v \<Rightarrow> \<not> want_host \<and> v = name | _ \<Rightarrow> False) scopes)"

record CapabilitySet =
  cs_fs_read :: CapabilityScope
  cs_fs_write :: CapabilityScope
  cs_net :: CapabilityScope
  cs_env :: CapabilityScope
  cs_clock :: bool
  cs_random :: bool

definition cap_sandbox :: CapabilitySet where
  "cap_sandbox = \<lparr>cs_fs_read = Cap_None, cs_fs_write = Cap_None, cs_net = Cap_None, cs_env = Cap_None, cs_clock = False, cs_random = False\<rparr>"

definition cap_shell_default :: CapabilitySet where
  "cap_shell_default = \<lparr>cs_fs_read = Cap_Any, cs_fs_write = Cap_Any, cs_net = Cap_None, cs_env = Cap_Any, cs_clock = True, cs_random = True\<rparr>"

definition is_total_sandbox :: "CapabilitySet \<Rightarrow> bool" where
  "is_total_sandbox c \<longleftrightarrow>
     cs_fs_read c = Cap_None \<and> cs_fs_write c = Cap_None \<and> cs_net c = Cap_None \<and> cs_env c = Cap_None \<and> \<not> cs_clock c \<and> \<not> cs_random c"

definition require_fs_read :: "CapabilitySet \<Rightarrow> string \<Rightarrow> path \<Rightarrow> (ExecError, unit) result" where
  "require_fs_read c command p =
     (if allows_path (cs_fs_read c) p then Ok () else Err (CapabilityDenied command ''fs_read'' (path_string p)))"

definition require_fs_write :: "CapabilitySet \<Rightarrow> string \<Rightarrow> path \<Rightarrow> (ExecError, unit) result" where
  "require_fs_write c command p =
     (if allows_path (cs_fs_write c) p then Ok () else Err (CapabilityDenied command ''fs_write'' (path_string p)))"

definition require_net :: "CapabilitySet \<Rightarrow> string \<Rightarrow> string \<Rightarrow> (ExecError, unit) result" where
  "require_net c command host =
     (if allows_named (cs_net c) host True then Ok () else Err (CapabilityDenied command ''net'' host))"

subsection \<open>Signatures\<close>

record PositionalArg =
  pa_name :: string
  pa_ty :: Type
  pa_desc :: string

record FlagSpec =
  fl_long :: string
  fl_short :: "char option"
  fl_takes_arg :: "Type option"
  fl_desc :: string

record Signature =
  sig_name :: string
  sig_io_types :: "(Type \<times> Type) list"
  sig_required :: "PositionalArg list"
  sig_optional :: "PositionalArg list"
  sig_flags :: "FlagSpec list"
  sig_rest :: "PositionalArg option"

definition signature_of :: "string \<Rightarrow> Type \<Rightarrow> Type \<Rightarrow> Signature" where
  "signature_of name input out =
     \<lparr>sig_name = name, sig_io_types = [(input, out)], sig_required = [], sig_optional = [], sig_flags = [], sig_rest = None\<rparr>"

definition pos_arg :: "string \<Rightarrow> Type \<Rightarrow> string \<Rightarrow> PositionalArg" where
  "pos_arg name ty desc = \<lparr>pa_name = name, pa_ty = ty, pa_desc = desc\<rparr>"

definition output_for :: "Signature \<Rightarrow> Type \<Rightarrow> Type option" where
  "output_for sig input = map_option snd (find (\<lambda>(decl_in, _). accepts decl_in input) (sig_io_types sig))"

subsection \<open>Data between stages\<close>

datatype 'f PipelineData =
    Pipe_Value "'f Value"
  | Pipe_List "(ExecError, 'f Value) result list"
  | Pipe_Bytes "(ExecError, string) result list"
  | Pipe_Empty

fun pipe_type :: "'f PipelineData \<Rightarrow> Type" where
  "pipe_type (Pipe_Value v) = type_of v"
| "pipe_type (Pipe_List _) = Ty_Table"
| "pipe_type (Pipe_Bytes _) = Ty_ByteStream"
| "pipe_type Pipe_Empty = Ty_Nothing"

fun drain :: "('e, 'a) result list \<Rightarrow> ('e, 'a list) result" where
  "drain [] = Ok []"
| "drain (x # xs) = and_then x (\<lambda>a. and_then (drain xs) (\<lambda>as. Ok (a # as)))"

fun into_value :: "'f PipelineData \<Rightarrow> (ExecError, 'f Value) result" where
  "into_value (Pipe_Value v) = Ok v"
| "into_value Pipe_Empty = Ok V_Nothing"
| "into_value (Pipe_List items) = and_then (drain items) (\<lambda>vs. Ok (V_List vs))"
| "into_value (Pipe_Bytes chunks) = and_then (drain chunks) (\<lambda>cs. Ok (V_Binary (concat cs)))"

record 'f EvaluatedCall =
  ec_head :: string
  ec_positional :: "'f Value list"
  ec_named :: "(string \<times> 'f Value option) list"

definition call_req :: "'f EvaluatedCall \<Rightarrow> nat \<Rightarrow> (ExecError, 'f Value) result" where
  "call_req call i =
     (if i < length (ec_positional call) then Ok (ec_positional call ! i)
      else Err (MissingArg (ec_head call) (CHR ''#'' # show_nat i)))"

definition call_opt :: "'f EvaluatedCall \<Rightarrow> nat \<Rightarrow> 'f Value option" where
  "call_opt call i = (if i < length (ec_positional call) then Some (ec_positional call ! i) else None)"

definition has_flag :: "'f EvaluatedCall \<Rightarrow> string \<Rightarrow> bool" where
  "has_flag call name \<longleftrightarrow> map_of (ec_named call) name \<noteq> None"

definition get_flag :: "'f EvaluatedCall \<Rightarrow> string \<Rightarrow> 'f Value option" where
  "get_flag call name = Option.bind (map_of (ec_named call) name) (\<lambda>v. v)"

section \<open>Crossing the plugin boundary\<close>

definition is_tag :: "string \<Rightarrow> bool" where
  "is_tag k \<longleftrightarrow> k \<in> {TAG_FILESIZE, TAG_DURATION, TAG_DATE, TAG_BINARY}"

definition in_i64 :: "int \<Rightarrow> bool" where
  "in_i64 i \<longleftrightarrow> - (2 ^ 63) \<le> i \<and> i < 2 ^ 63"

text \<open>The values that survive the boundary: integers of 64 bits, finite doubles, records with distinct columns that are not one column named like a tag.\<close>

fun portable :: "'f FloatOps \<Rightarrow> 'f Value \<Rightarrow> bool" where
  "portable fo (V_Int i) = in_i64 i"
| "portable fo (V_Filesize i) = in_i64 i"
| "portable fo (V_Duration i) = in_i64 i"
| "portable fo (V_Float f) = fo_finite fo f"
| "portable fo (V_List vs) = list_all (portable fo) vs"
| "portable fo (V_Record m) =
     (distinct (map fst m) \<and> (case m of [(k, _)] \<Rightarrow> \<not> is_tag k | _ \<Rightarrow> True) \<and> list_all (\<lambda>(k, v). portable fo v) m)"
| "portable fo _ = True"

lemma obj_insert_set: "k \<notin> fst ` set m \<Longrightarrow> set (obj_insert k v m) = insert (k, v) (set m) \<and> length (obj_insert k v m) = Suc (length m)"
  by (induction m) (auto split: if_splits)

lemma obj_of_foldl:
  "distinct (map fst kvs) \<Longrightarrow> fst ` set m \<inter> fst ` set kvs = {} \<Longrightarrow>
   set (foldl (\<lambda>m (k, v). obj_insert k v m) m kvs) = set m \<union> set kvs \<and>
   length (foldl (\<lambda>m (k, v). obj_insert k v m) m kvs) = length m + length kvs"
proof (induction kvs arbitrary: m)
  case (Cons kv kvs)
  obtain k v where kv: "kv = (k, v)" by fastforce
  have n: "k \<notin> fst ` set m" using Cons.prems(2) kv by auto
  have "fst ` set (obj_insert k v m) \<inter> fst ` set kvs = {}" using Cons.prems kv obj_insert_set [OF n, of v] by auto
  with Cons.IH [of "obj_insert k v m"] show ?case using Cons.prems(1) kv obj_insert_set [OF n, of v] by auto
qed simp

lemma obj_of_set:
  assumes "distinct (map fst kvs)"
  shows "set (obj_of kvs) = set kvs" and "length (obj_of kvs) = length kvs"
  using obj_of_foldl [OF assms, of "[]"] by (simp_all add: obj_of_def)

lemma values_eq_iff: "values_eq feq as bs \<longleftrightarrow> list_all2 (value_eq feq) as bs"
  by (induction as arbitrary: bs) (auto split: list.splits simp: list_all2_Cons1)

lemma columns_eq_iff: "columns_eq feq as bs \<longleftrightarrow> (\<forall>(k, v) \<in> set as. \<exists>w. map_of bs k = Some w \<and> value_eq feq v w)"
  by (induction as) (auto split: option.splits)

lemma wire_i64_Int: "in_i64 i \<Longrightarrow> wire_i64 (W_Int i) = Some i"
  by (simp add: wire_i64_def in_i64_def)

lemmas tag_defs = TAG_FILESIZE_def TAG_DURATION_def TAG_DATE_def TAG_BINARY_def

lemma json_obj_record:
  assumes "\<And>k v. m = [(k, v)] \<Longrightarrow> \<not> is_tag k"
  shows "json_to_value fo bc (W_Obj m) = V_Record (map (\<lambda>(k, v). (k, json_to_value fo bc v)) m)"
  using assms by (auto simp: decode_tagged_def is_tag_def split: list.splits)

text \<open>A value survives the plugin boundary: encoding it as JSON and decoding the result gives an equal value, quantities, dates and bytes
  keeping their kinds, for every value whose integers fit 64 bits, whose doubles are finite and in which no record
  consists of one column with the name of a tag. Relied on: the date and base64 libraries decode what they
  encode, and a finite double equals itself.\<close>

lemma bridge_roundtrip:
  assumes "portable fo v" and "\<And>d. bc_date_parse bc (bc_date_text bc d) = Some d" and "\<And>b. bc_b64_decode bc (bc_b64_encode bc b) = Some b"
    and "\<And>f. fo_finite fo f \<Longrightarrow> fo_eq fo f f"
  shows "value_eq (fo_eq fo) (json_to_value fo bc (value_to_json fo bc v)) v"
  using assms(1)
proof (induction v)
  case (V_List vs)
  then show ?case by (auto simp: values_eq_iff list_all2_conv_all_nth list_all_iff)
next
  case (V_Record m)
  let ?w = "map (\<lambda>(k, v). (k, value_to_json fo bc v)) m"
  have d: "distinct (map fst m)" "distinct (map fst ?w)" using V_Record.prems by (simp_all add: case_prod_unfold comp_def)
  note o = obj_of_set [OF d(2)]
  have "\<not> is_tag k" if "obj_of ?w = [(k, x)]" for k x
  proof -
    have "length m = 1" using o(2) that by simp
    then obtain l v where "m = [(l, v)]" by (cases m) auto
    then show ?thesis using o(1) that V_Record.prems by auto
  qed
  then have j: "json_to_value fo bc (W_Obj (obj_of ?w)) = V_Record (map (\<lambda>(k, v). (k, json_to_value fo bc v)) (obj_of ?w))"
    by (rule json_obj_record)
  have "\<exists>v. map_of m k = Some v \<and> value_eq (fo_eq fo) (json_to_value fo bc x) v" if kx: "(k, x) \<in> set (obj_of ?w)" for k x
  proof -
    obtain v where v: "(k, v) \<in> set m" "x = value_to_json fo bc v" using kx unfolding o(1) by auto
    then have "portable fo v" using V_Record.prems by (auto simp: list_all_iff)
    then have "value_eq (fo_eq fo) (json_to_value fo bc x) v" using V_Record.IH [of "(k, v)" v] v by auto
    then show ?thesis using v(1) d(1) by auto
  qed
  then show ?case using o(2) j by (auto simp: columns_eq_iff)
qed (use assms(2-4) in \<open>auto simp: tagged_def decode_tagged_def tag_defs wire_i64_Int wire_str_def in_i64_def\<close>)


text \<open>For the instances: doubles that are integers, and codecs that do nothing.\<close>

definition int_floats :: "int FloatOps" where
  "int_floats = \<lparr>fo_parse = parse_i64, fo_of_int = \<lambda>i. i, fo_cmp = \<lambda>a b. Some (int_cmp a b), fo_eq = (=), fo_scale = \<lambda>a b. a * b, fo_finite = \<lambda>_. True\<rparr>"

definition read_int :: "string \<Rightarrow> int" where
  "read_int s = (case s of c # ds \<Rightarrow> if c = CHR ''-'' then - int (read_nat ds) else int (read_nat s) | [] \<Rightarrow> 0)"

lemma read_show_int [simp]: "read_int (show_int i) = i"
proof (cases "i < 0")
  case False
  obtain c cs where c: "show_nat (nat i) = c # cs" "is_digit c" using show_nat_digits [of "nat i"] by (cases "show_nat (nat i)") auto
  then have "c \<noteq> CHR ''-''" by (auto simp: is_digit_def)
  then have "read_int (show_nat (nat i)) = int (read_nat (show_nat (nat i)))" unfolding c(1) by (simp add: read_int_def)
  then show ?thesis using False by (simp add: show_int_def)
qed (simp add: show_int_def read_int_def)

definition plain_codec :: BridgeCodec where
  "plain_codec = \<lparr>bc_date_text = show_int, bc_date_parse = \<lambda>s. Some (read_int s), bc_b64_encode = \<lambda>s. s, bc_b64_decode = Some\<rparr>"

text \<open>What does not survive: a one-column record named like a tag comes back as a quantity, and columns come back in alphabetical order.\<close>

lemma tag_column_confused:
  "json_to_value fo bc (value_to_json fo bc (V_Record [(''$filesize'', V_Int 5)])) = V_Filesize 5"
  by (simp add: obj_of_def decode_tagged_def TAG_FILESIZE_def wire_i64_def)

lemma columns_sorted:
  "json_to_value fo bc (value_to_json fo bc (V_Record [(''size'', V_Int 5), (''name'', V_Int 6)])) = V_Record [(''name'', V_Int 6), (''size'', V_Int 5)]"
  by (simp add: obj_of_def)

end
