(* ===== verification/Builtin_Table.thy ===== *)
theory Builtin_Table
  imports Orkia_Prelude "HOL-Library.Char_ord" "HOL-Library.List_Lexorder" "HOL-Library.Product_Lexorder"
begin

section \<open>The table of command names\<close>

text \<open>
  Models \<^verbatim>\<open>crates/orkia-shell/src/builtin_table.rs\<close>: every command name of the shell with the family that serves it, the
  rule by which a name that is also a system binary yields to that binary, and the suggestions for a mistyped
  name. The distance behind the suggestions is computed by a two-row table; the lemmas show that it is the least number of single-character edits.
\<close>

datatype BuiltinKind = ShellControl | AuthService | Effectful | Typed

datatype FallbackRule = PrefixOnly | PosixShapeToBrush bool

record ShapeGrammar =
  sg_long_flags :: "string list"
  sg_value_flags :: "string list"
  sg_subcommands :: "string list"
  sg_allow_at :: bool
  sg_allow_percent :: bool

record BuiltinSpec =
  bs_name :: string
  bs_kind :: BuiltinKind
  bs_collision :: "FallbackRule option"
  bs_typed :: bool
  bs_bare_builtin :: bool
  bs_grammar :: "ShapeGrammar option"

definition shell_control :: "string \<Rightarrow> BuiltinSpec" where
  "shell_control name =
     \<lparr>bs_name = name, bs_kind = ShellControl, bs_collision = None, bs_typed = False, bs_bare_builtin = True, bs_grammar = None\<rparr>"

definition auth_service :: "string \<Rightarrow> BuiltinSpec" where
  "auth_service name =
     \<lparr>bs_name = name, bs_kind = AuthService, bs_collision = None, bs_typed = False, bs_bare_builtin = True, bs_grammar = None\<rparr>"

definition effectful :: "string \<Rightarrow> BuiltinSpec" where
  "effectful name =
     \<lparr>bs_name = name, bs_kind = Effectful, bs_collision = None, bs_typed = False, bs_bare_builtin = True, bs_grammar = None\<rparr>"

definition typed :: "string \<Rightarrow> BuiltinSpec" where
  "typed name =
     \<lparr>bs_name = name, bs_kind = Typed, bs_collision = None, bs_typed = True, bs_bare_builtin = True, bs_grammar = None\<rparr>"

definition with_collision :: "BuiltinSpec \<Rightarrow> FallbackRule option \<Rightarrow> BuiltinSpec" where
  "with_collision spec rule = spec\<lparr>bs_collision := rule\<rparr>"

definition with_grammar :: "BuiltinSpec \<Rightarrow> ShapeGrammar \<Rightarrow> BuiltinSpec" where
  "with_grammar spec grammar = spec\<lparr>bs_grammar := Some grammar\<rparr>"

definition also_typed :: "BuiltinSpec \<Rightarrow> BuiltinSpec" where
  "also_typed spec = spec\<lparr>bs_typed := True\<rparr>"

definition bare_excluded :: "BuiltinSpec \<Rightarrow> BuiltinSpec" where
  "bare_excluded spec = spec\<lparr>bs_bare_builtin := False\<rparr>"

definition POSIX_BARE_BUILTIN :: "FallbackRule option" where
  "POSIX_BARE_BUILTIN = Some (PosixShapeToBrush True)"

definition PS_GRAMMAR :: ShapeGrammar where
  "PS_GRAMMAR = \<lparr>sg_long_flags = [''--agents'', ''--system'', ''--full'', ''--json''], sg_value_flags = [],
     sg_subcommands = [], sg_allow_at = False, sg_allow_percent = False\<rparr>"

definition WHOAMI_GRAMMAR :: ShapeGrammar where
  "WHOAMI_GRAMMAR = \<lparr>sg_long_flags = [], sg_value_flags = [],
     sg_subcommands = [], sg_allow_at = False, sg_allow_percent = False\<rparr>"

definition AUDIT_GRAMMAR :: ShapeGrammar where
  "AUDIT_GRAMMAR = \<lparr>sg_long_flags = [''--verify'', ''--deep'', ''--export''], sg_value_flags = [''--job'', ''--project'', ''--rfc'', ''--last''],
     sg_subcommands = [''verify'', ''redact''], sg_allow_at = False, sg_allow_percent = False\<rparr>"

definition LOG_GRAMMAR :: ShapeGrammar where
  "LOG_GRAMMAR = \<lparr>sg_long_flags = [''--json''], sg_value_flags = [''--tail''],
     sg_subcommands = [], sg_allow_at = True, sg_allow_percent = True\<rparr>"

definition ROUTE_GRAMMAR :: ShapeGrammar where
  "ROUTE_GRAMMAR = \<lparr>sg_long_flags = [], sg_value_flags = [],
     sg_subcommands = [''show''], sg_allow_at = True, sg_allow_percent = False\<rparr>"

definition BUILTINS :: "BuiltinSpec list" where
  "BUILTINS =
     [
      shell_control ''fg'',
      shell_control ''bg'',
      shell_control ''stop'',
      with_collision (shell_control ''kill'') POSIX_BARE_BUILTIN,
      shell_control ''run'',
      shell_control ''attach'',
      shell_control ''wait'',
      shell_control ''disown'',
      shell_control ''tui'',
      auth_service ''app'',
      bare_excluded (with_collision (auth_service ''login'') (Some PrefixOnly)),
      auth_service ''logout'',
      auth_service ''kernel'',
      auth_service ''reasoning'',
      auth_service ''contribute'',
      auth_service ''team'',
      auth_service ''invite'',
      auth_service ''members'',
      auth_service ''share'',
      with_collision (auth_service ''leave'') POSIX_BARE_BUILTIN,
      auth_service ''stream'',
      effectful ''plugin'',
      also_typed (effectful ''help''),
      with_grammar (with_collision (also_typed (effectful ''ps'')) POSIX_BARE_BUILTIN) PS_GRAMMAR,
      effectful ''detach'',
      effectful ''approve'',
      effectful ''deny'',
      with_grammar (with_collision (effectful ''audit'') POSIX_BARE_BUILTIN) AUDIT_GRAMMAR,
      effectful ''rfc'',
      effectful ''operator'',
      effectful ''project'',
      effectful ''issue'',
      effectful ''agent'',
      effectful ''cap'',
      with_collision (effectful ''trust'') POSIX_BARE_BUILTIN,
      effectful ''config'',
      effectful ''connect'',
      effectful ''disconnect'',
      effectful ''migrate-rc'',
      effectful ''setup'',
      effectful ''tell'',
      effectful ''every'',
      bare_excluded (with_collision (typed ''ls'') (Some PrefixOnly)),
      bare_excluded (typed ''where''),
      bare_excluded (typed ''first''),
      bare_excluded (typed ''sort-by''),
      bare_excluded (typed ''from''),
      typed ''version'',
      bare_excluded (with_grammar (with_collision (typed ''route'') (Some (PosixShapeToBrush False))) ROUTE_GRAMMAR),
      typed ''briefing'',
      bare_excluded (with_grammar (with_collision (typed ''log'') (Some (PosixShapeToBrush False))) LOG_GRAMMAR),
      with_grammar (with_collision (typed ''whoami'') POSIX_BARE_BUILTIN) WHOAMI_GRAMMAR,
      typed ''plan'',
      typed ''history'',
      typed ''journal'',
      typed ''jobs'',
      typed ''attention'']"

definition CLI_ONLY :: "string list" where
  "CLI_ONLY = [''bridge'', ''daemon'', ''inspect'', ''logs'', ''mcp-bridge'', ''mcp-pipe'', ''pty-daemon'', ''pty-daemon-stop'', ''update'']"

definition is_cli_only :: "string \<Rightarrow> bool" where
  "is_cli_only name \<longleftrightarrow> name \<in> set CLI_ONLY"

definition spec_for :: "string \<Rightarrow> BuiltinSpec option" where
  "spec_for name = find (\<lambda>s. bs_name s = name) BUILTINS"

definition is_builtin :: "string \<Rightarrow> bool" where
  "is_builtin name = (case spec_for name of Some s \<Rightarrow> bs_bare_builtin s | None \<Rightarrow> False)"

definition bare_typed_blocked :: "string \<Rightarrow> bool" where
  "bare_typed_blocked name =
     (case spec_for name of
        Some s \<Rightarrow> bs_collision s \<noteq> None \<and> (bs_collision s = Some PrefixOnly \<or> bs_kind s \<noteq> Typed)
      | None \<Rightarrow> False)"

datatype ShapeRoute = Route_Builtin | Route_Brush

definition token_claimed :: "ShapeGrammar \<Rightarrow> string \<Rightarrow> bool" where
  "token_claimed g tok \<longleftrightarrow>
     (case split_once (CHR ''='') tok of Some (flag, _) \<Rightarrow> flag \<in> set (sg_value_flags g) | None \<Rightarrow> False) \<or>
     sg_allow_at g \<and> (case strip_prefix ''@'' tok of Some n \<Rightarrow> n \<noteq> [] | None \<Rightarrow> False) \<or>
     sg_allow_percent g \<and> (case strip_prefix ''%'' tok of Some n \<Rightarrow> parse_u32 n \<noteq> None | None \<Rightarrow> False)"

fun shape_loop :: "ShapeGrammar \<Rightarrow> string list \<Rightarrow> ShapeRoute" where
  "shape_loop g [] = Route_Builtin"
| "shape_loop g (tok # rest) =
     (if tok \<in> set (sg_long_flags g) then shape_loop g rest
      else if tok \<in> set (sg_value_flags g) then (case rest of [] \<Rightarrow> Route_Builtin | _ # rest' \<Rightarrow> shape_loop g rest')
      else if token_claimed g tok then shape_loop g rest
      else Route_Brush)"

definition route_for :: "string \<Rightarrow> string list \<Rightarrow> ShapeRoute option" where
  "route_for name args =
     (case spec_for name of
        None \<Rightarrow> None
      | Some spec \<Rightarrow>
         (case bs_collision spec of
            Some (PosixShapeToBrush bare_is_builtin) \<Rightarrow>
              (case bs_grammar spec of
                 None \<Rightarrow> None
               | Some grammar \<Rightarrow>
                  Some (case args of
                          [] \<Rightarrow> if bare_is_builtin then Route_Builtin else Route_Brush
                        | a # _ \<Rightarrow> if a \<in> set (sg_subcommands grammar) then Route_Builtin else shape_loop grammar args))
          | _ \<Rightarrow> None))"

definition completion_names :: "string list" where
  "completion_names = sort (map bs_name BUILTINS)"

definition names_of_kind :: "BuiltinKind \<Rightarrow> string list" where
  "names_of_kind kind = map bs_name (filter (\<lambda>s. bs_kind s = kind) BUILTINS)"

definition typed_names :: "string list" where
  "typed_names = map bs_name (filter bs_typed BUILTINS)"

text \<open>The distance: one row of the table from the previous one, cell by cell, then row by row.\<close>

definition ed_cell :: "char \<Rightarrow> nat list \<Rightarrow> nat \<times> char \<Rightarrow> nat list \<Rightarrow> nat list" where
  "ed_cell ca prev jc cur =
     (case jc of (j, cb) \<Rightarrow>
        let cost = (if ca \<noteq> cb then 1 else 0)
        in cur[j + 1 := min (min (prev ! j + cost) (prev ! (j + 1) + 1)) (cur ! j + 1)])"

definition ed_row :: "string \<Rightarrow> nat \<times> char \<Rightarrow> nat list \<Rightarrow> nat list" where
  "ed_row b ic prev =
     (case ic of (i, ca) \<Rightarrow> fold (ed_cell ca prev) (List.enumerate 0 b) (replicate (length b + 1) (i + 1)))"

definition edit_distance :: "string \<Rightarrow> string \<Rightarrow> nat" where
  "edit_distance a b = fold (ed_row b) (List.enumerate 0 a) [0..<length b + 1] ! length b"

definition suggestions_for :: "string \<Rightarrow> string list" where
  "suggestions_for input =
     (if input = [] then []
      else take 3 (map snd (sort (List.map_filter
             (\<lambda>n. if prefix input n then Some (0, n)
                  else let d = edit_distance input n in if d \<le> 2 then Some (d, n) else None)
             (map bs_name BUILTINS @ CLI_ONLY)))))"

definition unknown_builtin_message :: "string \<Rightarrow> string" where
  "unknown_builtin_message name =
     (let nearest = suggestions_for name
      in if nearest = [] then ''unknown builtin: '' @ name @ '' (run 'orkia help' for the command list)''
         else ''unknown builtin: '' @ name @ '' (did you mean: '' @ join '', '' nearest @ ''?)'')"

section \<open>The distance is the number of edits\<close>

fun lev :: "'a list \<Rightarrow> 'a list \<Rightarrow> nat" where
  "lev [] ys = length ys"
| "lev (x # xs) [] = Suc (length xs)"
| "lev (x # xs) (y # ys) = min (min (lev xs ys + (if x \<noteq> y then 1 else 0)) (lev xs (y # ys) + 1)) (lev (x # xs) ys + 1)"

text \<open>The table holds the distances of prefixes, read from their ends.\<close>

abbreviation pre :: "string \<Rightarrow> string \<Rightarrow> nat \<Rightarrow> nat \<Rightarrow> nat" where
  "pre a b i j \<equiv> lev (rev (take i a)) (rev (take j b))"

lemma lev_Nil2 [simp]: "lev xs [] = length xs"
  by (cases xs) auto

lemma pre_step:
  assumes "i < length a" and "j < length b"
  shows "pre a b (i + 1) (j + 1) =
    min (min (pre a b i j + (if a ! i \<noteq> b ! j then 1 else 0)) (pre a b i (j + 1) + 1)) (pre a b (i + 1) j + 1)"
  using assms by (simp add: take_Suc_conv_app_nth)

lemma ed_cells:
  assumes "k \<le> length b" and "i < length a" and "prev = map (pre a b i) [0..<length b + 1]"
  shows "fold (ed_cell (a ! i) prev) (List.enumerate 0 (take k b)) (replicate (length b + 1) (i + 1)) =
    map (pre a b (i + 1)) [0..<k + 1] @ replicate (length b - k) (i + 1)"
  using assms(1)
proof (induction k)
  case (Suc k)
  have e: "List.enumerate 0 (take (Suc k) b) = List.enumerate 0 (take k b) @ [(k, b ! k)]"
    using Suc.prems by (simp add: take_Suc_conv_app_nth enumerate_append_eq)
  let ?cur = "map (pre a b (i + 1)) [0..<k + 1] @ replicate (length b - k) (i + 1)"
  have c: "?cur ! k = pre a b (i + 1) k" by (simp add: nth_append del: upt_Suc)
  have p: "prev ! k = pre a b i k" "prev ! (k + 1) = pre a b i (k + 1)" using Suc.prems assms(3) by (simp_all del: upt_Suc)
  have r: "replicate (length b - k) (i + 1) = (i + 1) # replicate (length b - Suc k) (i + 1)"
    using Suc.prems by (simp add: Suc_diff_Suc [symmetric])
  have "ed_cell (a ! i) prev (k, b ! k) ?cur = ?cur[k + 1 := pre a b (i + 1) (k + 1)]"
    unfolding ed_cell_def using c p pre_step [of i a k b] assms(2) Suc.prems by (simp add: Let_def)
  also have "\<dots> = map (pre a b (i + 1)) [0..<k + 1] @ pre a b (i + 1) (k + 1) # replicate (length b - Suc k) (i + 1)"
    unfolding r by (simp add: list_update_append)
  finally show ?case using Suc by (simp add: e)
qed (use assms(2) in simp)

lemma ed_rows:
  assumes "i \<le> length a"
  shows "fold (ed_row b) (List.enumerate 0 (take i a)) [0..<length b + 1] = map (pre a b i) [0..<length b + 1]"
  using assms
proof (induction i)
  case 0
  show ?case by (rule nth_equalityI) (auto simp del: upt_Suc)
next
  case (Suc i)
  have e: "List.enumerate 0 (take (Suc i) a) = List.enumerate 0 (take i a) @ [(i, a ! i)]"
    using Suc.prems by (simp add: take_Suc_conv_app_nth enumerate_append_eq)
  show ?case using Suc ed_cells [of "length b" b i a] by (simp add: e ed_row_def del: upt_Suc)
qed

lemma edit_distance_lev: "edit_distance a b = lev (rev a) (rev b)"
  using ed_rows [of "length a" a b] by (simp add: edit_distance_def del: upt_Suc)

text \<open>One edit replaces, inserts or deletes a character.\<close>

definition edit1 :: "'a list \<Rightarrow> 'a list \<Rightarrow> bool" where
  "edit1 a b \<longleftrightarrow> (\<exists>u v. (\<exists>x y. a = u @ x # v \<and> b = u @ y # v) \<or> (\<exists>x. a = u @ x # v \<and> b = u @ v) \<or> (\<exists>y. a = u @ v \<and> b = u @ y # v))"

lemma edit1_Cons: "edit1 a b \<Longrightarrow> edit1 (c # a) (c # b)"
  unfolding edit1_def by (metis append_Cons)

lemma edit1_drop: "edit1 (x # xs) xs" and edit1_add: "edit1 xs (x # xs)" and edit1_change: "edit1 (x # xs) (y # xs)"
  unfolding edit1_def by (metis append_Nil)+

lemma edit1_rev: "edit1 (rev a) (rev b) \<Longrightarrow> edit1 a b"
  unfolding edit1_def by (metis append_assoc append_Cons append_Nil rev.simps(2) rev_append rev_rev_ident)

lemma edits_Cons: "(edit1 ^^ n) a b \<Longrightarrow> (edit1 ^^ n) (c # a) (c # b)"
  by (induction n arbitrary: b) (auto dest: edit1_Cons)

lemma edits_rev: "(edit1 ^^ n) (rev a) (rev b) \<Longrightarrow> (edit1 ^^ n) a b"
proof (induction n arbitrary: b)
  case (Suc n)
  then obtain c where "(edit1 ^^ n) (rev a) c" "edit1 c (rev b)" by auto
  then show ?case using Suc.IH [of "rev c"] edit1_rev [of "rev c" b] by auto
qed simp

lemma edits_to_Nil: "(edit1 ^^ length xs) xs []" "(edit1 ^^ length xs) [] xs"
proof (induction xs)
  case (Cons x xs)
  { case 1 show ?case using relpowp_Suc_I2 [OF edit1_drop Cons.IH(1)] by simp
  next case 2 show ?case using relpowp_Suc_I [OF Cons.IH(2) edit1_add] by simp }
qed simp_all

lemma lev_edits: "(edit1 ^^ lev xs ys) xs ys"
proof (induction xs ys rule: lev.induct)
  case (1 ys)
  show ?case using edits_to_Nil(2) by simp
next
  case (2 x xs)
  show ?case using edits_to_Nil(1) [of "x # xs"] by simp
next
  case (3 x xs y ys)
  have "(edit1 ^^ (lev xs ys + (if x \<noteq> y then 1 else 0))) (x # xs) (y # ys)"
    using edits_Cons [OF 3(1)] relpowp_Suc_I2 [OF edit1_change edits_Cons [OF 3(1)]] by auto
  moreover have "(edit1 ^^ (lev xs (y # ys) + 1)) (x # xs) (y # ys)" using relpowp_Suc_I2 [OF edit1_drop 3(2)] by simp
  moreover have "(edit1 ^^ (lev (x # xs) ys + 1)) (x # xs) (y # ys)" using relpowp_Suc_I [OF 3(3) edit1_add] by simp
  ultimately show ?case unfolding lev.simps by (metis min_def)
qed

text \<open>An edit changes the distance to anything by at most one.\<close>

lemma lev_add: "lev (x # v) z \<le> Suc (lev v z)" "lev v (d # z) \<le> Suc (lev v z)"
  by (cases z; simp) (cases v; simp)

lemma lev_drop: "lev v z \<le> Suc (lev (x # v) z)"
proof (induction z)
  case (Cons d z)
  then show ?case using lev_add(2) [of v d z] by simp
qed simp

lemma lev_replace: "lev (x # v) z \<le> Suc (lev (y # v) z)"
proof (induction z)
  case (Cons d z)
  then show ?case by (auto simp: min_def)
qed simp

text \<open>The three bounds pass through a common first character, whatever the rest is.\<close>

lemma lev_Cons_mono:
  assumes "\<And>z. lev a z \<le> Suc (lev b z)" and "length a \<le> Suc (length b)"
  shows "lev (c # a) z \<le> Suc (lev (c # b) z)"
proof (induction z)
  case (Cons d z)
  then show ?case using assms(1) [of z] assms(1) [of "d # z"] by simp
qed (use assms(2) in simp)

lemma lev_change: "lev (u @ x # v) z \<le> Suc (lev (u @ v) z)" "lev (u @ v) z \<le> Suc (lev (u @ x # v) z)"
  "lev (u @ x # v) z \<le> Suc (lev (u @ y # v) z)"
  by (induction u arbitrary: z) (simp_all add: lev_add(1) lev_drop lev_replace lev_Cons_mono)

lemma edit1_lev: "edit1 a b \<Longrightarrow> lev a z \<le> Suc (lev b z)"
  unfolding edit1_def using lev_change by metis

lemma edits_lev: "(edit1 ^^ n) a b \<Longrightarrow> lev a b \<le> n"
proof (induction n arbitrary: a)
  case 0
  have "lev b b = 0" by (induction b) auto
  then show ?case using 0 by simp
next
  case (Suc n)
  then obtain c where "edit1 a c" "(edit1 ^^ n) c b" by (metis relpowp_Suc_D2)
  then show ?case using Suc.IH edit1_lev [of a c b] by fastforce
qed

text \<open>The distance behind the suggestions is the edit distance: the two-row table gives at most n exactly when the one
  word can be turned into the other by at most n replacements, insertions or deletions of single characters.\<close>

lemma edit_distance_is_least_edits:
  "edit_distance a b \<le> n \<longleftrightarrow> (\<exists>k \<le> n. (edit1 ^^ k) a b)"
proof
  assume "edit_distance a b \<le> n"
  then show "\<exists>k \<le> n. (edit1 ^^ k) a b" using lev_edits [of "rev a" "rev b"] edits_rev by (auto simp: edit_distance_lev)
next
  assume "\<exists>k \<le> n. (edit1 ^^ k) a b"
  then obtain k where "k \<le> n" "(edit1 ^^ k) (rev a) (rev b)" using edits_rev [of _ "rev a" "rev b"] by auto
  then show "edit_distance a b \<le> n" using edits_lev unfolding edit_distance_lev by fastforce
qed

text \<open>Suggestions are close: at most three, each a name of the tables that starts with the input or is at most two edits away.\<close>

lemma suggestions_close:
  "length (suggestions_for input) \<le> 3"
  "name \<in> set (suggestions_for input) \<Longrightarrow>
     name \<in> bs_name ` set BUILTINS \<union> set CLI_ONLY \<and> (prefix input name \<or> (\<exists>k \<le> 2. (edit1 ^^ k) input name))"
proof -
  show "length (suggestions_for input) \<le> 3" by (simp add: suggestions_for_def)
  assume "name \<in> set (suggestions_for input)"
  then have "name \<in> bs_name ` set BUILTINS \<union> set CLI_ONLY \<and> (prefix input name \<or> edit_distance input name \<le> 2)"
    by (auto simp: suggestions_for_def List.map_filter_def Let_def dest!: in_set_takeD split: if_splits)
  then show "name \<in> bs_name ` set BUILTINS \<union> set CLI_ONLY \<and> (prefix input name \<or> (\<exists>k \<le> 2. (edit1 ^^ k) input name))"
    using lev_edits [of "rev input" "rev name"] edits_rev unfolding edit_distance_lev by auto
qed

section \<open>Names and system binaries\<close>

lemma table_names_distinct: "distinct (map bs_name BUILTINS)"
  by code_simp

end
