(* ===== verification/Job_Target.thy ===== *)
theory Job_Target
  imports Orkia_Prelude
begin

section \<open>Jobs and how they are addressed\<close>

text \<open>
  Models \<^verbatim>\<open>crates/orkia-shell-types/src/job.rs\<close>, the data of jobs with the printed and parsed forms of their identifiers, and
  \<^verbatim>\<open>crates/orkia-shell/src/builtin_resolve.rs\<close>, which finds the job a command means.
\<close>

type_synonym JobId = "32 word"

datatype JobOwner = Owner_Local | Owner_Daemon

definition show_id :: "32 word \<Rightarrow> string" where
  "show_id i = show_nat (unat i)"

definition render_job_id :: "JobOwner \<Rightarrow> 32 word \<Rightarrow> 32 word option \<Rightarrow> string" where
  "render_job_id owner i stage =
     (let base = (case stage of Some s \<Rightarrow> ''['' @ show_id i @ '':'' @ show_id s @ '']'' | None \<Rightarrow> ''['' @ show_id i @ '']'')
      in case owner of Owner_Local \<Rightarrow> base | Owner_Daemon \<Rightarrow> base @ ''*'')"

record ParsedJobTarget =
  jt_core :: string
  jt_stage :: "32 word option"
  jt_prefer_daemon :: bool

definition split_stage :: "string \<Rightarrow> string \<times> 32 word option" where
  "split_stage s =
     (case split_once (CHR '':'') s of
        Some (job, stage) \<Rightarrow> (case parse_u32 stage of Some n \<Rightarrow> (job, Some n) | None \<Rightarrow> (s, None))
      | None \<Rightarrow> (s, None))"

definition parse_job_target :: "string \<Rightarrow> ParsedJobTarget" where
  "parse_job_target input =
     (let t = trim input;
          strip_brackets = (\<lambda>s. Option.bind (strip_prefix ''['' s) (strip_suffix '']''));
          parsed = (\<lambda>inner daemon. case split_stage inner of (core, stage) \<Rightarrow> \<lparr>jt_core = core, jt_stage = stage, jt_prefer_daemon = daemon\<rparr>)
      in case Option.bind (strip_suffix ''*'' t) strip_brackets of
           Some inner \<Rightarrow> parsed inner True
         | None \<Rightarrow> (case strip_brackets t of Some inner \<Rightarrow> parsed inner False | None \<Rightarrow> parsed t False))"

datatype JobKind = JK_Shell string | JK_Agent string string | JK_ForgeApp string

fun job_kind_text :: "JobKind \<Rightarrow> string" where
  "job_kind_text (JK_Shell cmd) = cmd"
| "job_kind_text (JK_Agent _ agent_name) = ''agent:'' @ agent_name"
| "job_kind_text (JK_ForgeApp app_name) = ''app:'' @ app_name"

datatype JobState = JS_Foreground | JS_Running | JS_Stopped | JS_Done int | JS_Failed string

fun job_state_text :: "JobState \<Rightarrow> string" where
  "job_state_text JS_Foreground = ''fg''"
| "job_state_text JS_Running = ''running''"
| "job_state_text JS_Stopped = ''stopped''"
| "job_state_text (JS_Done exit_code) = ''done('' @ show_int exit_code @ '')''"
| "job_state_text (JS_Failed reason) = ''failed: '' @ reason"

datatype JobEvent =
    JE_Spawned JobId JobKind "32 word option"
  | JE_Attached JobId
  | JE_Detached JobId
  | JE_Stopped JobId string
  | JE_Continued JobId string
  | JE_Completed JobId int string

definition event_job_id :: "JobEvent \<Rightarrow> JobId" where
  "event_job_id e =
     (case e of JE_Spawned i _ _ \<Rightarrow> i | JE_Attached i \<Rightarrow> i | JE_Detached i \<Rightarrow> i | JE_Stopped i _ \<Rightarrow> i | JE_Continued i _ \<Rightarrow> i
      | JE_Completed i _ _ \<Rightarrow> i)"

record JobInfo =
  ji_id :: JobId
  ji_kind :: JobKind
  ji_state :: JobState
  ji_label :: string
  ji_pid :: "32 word option"
  ji_runtime :: nat
  ji_sink :: "string option"

subsection \<open>Resolution\<close>

definition is_agent_job :: "string \<Rightarrow> JobInfo \<Rightarrow> bool" where
  "is_agent_job name j = (case ji_kind j of JK_Agent _ agent_name \<Rightarrow> agent_name = name | _ \<Rightarrow> False)"

fun job_candidate :: "JobKind \<Rightarrow> string" where
  "job_candidate (JK_Shell cmd) = cmd"
| "job_candidate (JK_Agent _ agent_name) = agent_name"
| "job_candidate (JK_ForgeApp app_name) = app_name"

definition resolve_pct :: "string \<Rightarrow> JobInfo list \<Rightarrow> JobId option" where
  "resolve_pct rest jobs =
     (if rest = [] \<or> rest = ''+'' \<or> rest = ''%'' then (if jobs = [] then None else Some (ji_id (last jobs)))
      else if rest = ''-'' then (if length jobs < 2 then None else Some (ji_id (jobs ! (length jobs - 2))))
      else case parse_u32 rest of
             Some i \<Rightarrow>
               (if list_ex (\<lambda>j. ji_id j = i) jobs then Some i
                else map_option ji_id (find (\<lambda>j. prefix rest (job_candidate (ji_kind j))) (rev jobs)))
           | None \<Rightarrow> map_option ji_id (find (\<lambda>j. prefix rest (job_candidate (ji_kind j))) (rev jobs)))"

text \<open>The steps that a bare target goes through: a job's number, an agent's name, a process number.\<close>

definition resolve_bare :: "string \<Rightarrow> JobInfo list \<Rightarrow> JobId option" where
  "resolve_bare target jobs =
     (let n = parse_u32 target
      in case n of
           Some i \<Rightarrow>
             (if list_ex (\<lambda>j. ji_id j = i) jobs then Some i
              else case find (is_agent_job target) (rev jobs) of
                     Some j \<Rightarrow> Some (ji_id j)
                   | None \<Rightarrow> map_option ji_id (find (\<lambda>j. ji_pid j = Some i) jobs))
         | None \<Rightarrow> map_option ji_id (find (is_agent_job target) (rev jobs)))"

definition resolve_job_target :: "string \<Rightarrow> JobInfo list \<Rightarrow> JobId option" where
  "resolve_job_target target jobs =
     (let parsed = parse_job_target target
      in if jt_prefer_daemon parsed then None
         else case strip_prefix ''%'' (jt_core parsed) of
                Some rest \<Rightarrow> resolve_pct rest jobs
              | None \<Rightarrow>
                  resolve_bare (case strip_prefix ''@'' (jt_core parsed) of Some t \<Rightarrow> t | None \<Rightarrow> jt_core parsed) jobs)"

datatype KillAction = StopJob JobId | SystemKill string string

definition resolve_kill :: "string \<Rightarrow> string option \<Rightarrow> JobInfo list \<Rightarrow> KillAction" where
  "resolve_kill target signal jobs =
     (let pct = (if prefix ''%'' target then resolve_job_target target jobs else None)
      in case pct of
           Some i \<Rightarrow> StopJob i
         | None \<Rightarrow>
            (case signal of
               Some sig \<Rightarrow> SystemKill target sig
             | None \<Rightarrow> (case resolve_bare target jobs of Some i \<Rightarrow> StopJob i | None \<Rightarrow> SystemKill target ''TERM'')))"

fun split_kill_loop :: "string list \<Rightarrow> string option \<Rightarrow> string option \<Rightarrow> (string, string option \<times> string option) result" where
  "split_kill_loop [] signal target = Ok (signal, target)"
| "split_kill_loop (arg # args) signal target =
     (case strip_prefix ''-'' arg of
        Some rest \<Rightarrow> if rest = [] then Err ''kill: empty signal flag'' else split_kill_loop args (Some rest) target
      | None \<Rightarrow>
          (case target of
             None \<Rightarrow> split_kill_loop args signal (Some arg)
           | Some _ \<Rightarrow> Err (''kill: unexpected extra argument '' @ [SQ] @ arg @ [SQ])))"

definition split_kill_args :: "string list \<Rightarrow> (string, string option \<times> string) result" where
  "split_kill_args args =
     and_then (split_kill_loop args None None) (\<lambda>(signal, target).
       (case target of None \<Rightarrow> Err ''kill: missing target'' | Some t \<Rightarrow> Ok (signal, t)))"

section \<open>Printed identifiers are understood\<close>

lemma trim_id:
  assumes "s \<noteq> []" and "\<not> is_whitespace (hd s)" and "\<not> is_whitespace (last s)"
  shows "trim s = s"
proof -
  have "trim_start s = s" using assms(1,2) by (cases s) (auto simp: trim_start_def)
  moreover have "trim_end s = s" using assms(1,3) by (cases s rule: rev_cases) (auto simp: trim_end_def)
  ultimately show ?thesis by (simp add: trim_def)
qed

lemma show_id_digits: "show_id i \<noteq> []" "list_all is_digit (show_id i)"
  using show_nat_digits [of "unat i"] by (simp_all add: show_id_def)

lemma show_id_plain: "\<not> is_digit c \<Longrightarrow> c \<notin> set (show_id i)"
  using show_id_digits(2) [of i] by (auto simp: list_all_iff)

lemma parse_show_id [simp]: "parse_u32 (show_id i) = Some i"
proof -
  have "CHR ''+'' \<notin> set (show_id i)" by (rule show_id_plain) (simp add: is_digit_def)
  then have "(case show_id i of c # cs \<Rightarrow> if c = CHR ''+'' then cs else show_id i | [] \<Rightarrow> show_id i) = show_id i"
    by (auto split: list.split)
  moreover have "read_nat (show_id i) = unat i" by (simp add: show_id_def)
  moreover have "int (unat i) < 2 ^ 32" using unsigned_less [of i, where 'a = int] by simp
  ultimately show ?thesis using show_id_digits [of i] unfolding parse_u32_def Let_def by simp
qed

lemma split_once_first: "d \<notin> set a \<Longrightarrow> split_once d (a @ d # b) = Some (a, b)"
proof -
  assume "d \<notin> set a"
  then have "\<And>x. x \<in> set a \<Longrightarrow> x \<noteq> d" by blast
  then show ?thesis by (simp add: split_once_def takeWhile_append2 dropWhile_append2)
qed

lemma split_stage_plain: "split_stage (show_id i) = (show_id i, None)"
proof -
  have "CHR '':'' \<notin> set (show_id i)" by (rule show_id_plain) (simp add: is_digit_def)
  then show ?thesis by (simp add: split_stage_def split_once_def)
qed

lemma split_stage_staged: "split_stage (show_id i @ CHR '':'' # show_id s) = (show_id i, Some s)"
proof -
  have "CHR '':'' \<notin> set (show_id i)" by (rule show_id_plain) (simp add: is_digit_def)
  then show ?thesis by (simp add: split_stage_def split_once_first)
qed

text \<open>The three shapes of a target, given what is inside the brackets.\<close>

lemma strip_brackets: "Option.bind (strip_prefix ''['' (''['' @ inner @ '']'')) (strip_suffix '']'') = Some inner"
  by (simp add: strip_prefix_def strip_suffix_def suffix_def)

lemma parse_bracketed:
  "parse_job_target (''['' @ inner @ '']'') =
     \<lparr>jt_core = fst (split_stage inner), jt_stage = snd (split_stage inner), jt_prefer_daemon = False\<rparr>"
proof -
  have "trim (''['' @ inner @ '']'') = ''['' @ inner @ '']''" by (rule trim_id) (simp_all add: is_whitespace_def)
  moreover have "strip_suffix ''*'' (''['' @ inner @ '']'') = None" by (simp add: strip_suffix_def suffix_def)
  ultimately show ?thesis
    unfolding parse_job_target_def Let_def by (simp add: strip_brackets [simplified] split: prod.split)
qed

lemma parse_starred:
  "parse_job_target (''['' @ inner @ '']*'') =
     \<lparr>jt_core = fst (split_stage inner), jt_stage = snd (split_stage inner), jt_prefer_daemon = True\<rparr>"
proof -
  have "trim (''['' @ inner @ '']*'') = ''['' @ inner @ '']*''" by (rule trim_id) (simp_all add: is_whitespace_def)
  moreover have "strip_suffix ''*'' (''['' @ inner @ '']*'') = Some (''['' @ inner @ '']'')"
    by (simp add: strip_suffix_def suffix_def)
  ultimately show ?thesis
    unfolding parse_job_target_def Let_def by (simp add: strip_brackets [simplified] split: prod.split)
qed

lemma parse_rendered:
  "parse_job_target (render_job_id owner i stage) =
     \<lparr>jt_core = show_id i, jt_stage = stage, jt_prefer_daemon = (owner = Owner_Daemon)\<rparr>"
proof -
  define inner where "inner = (case stage of None \<Rightarrow> show_id i | Some s \<Rightarrow> show_id i @ CHR '':'' # show_id s)"
  have "render_job_id owner i stage = ''['' @ inner @ (if owner = Owner_Daemon then '']*'' else '']'')"
    by (cases owner; cases stage) (simp_all add: render_job_id_def inner_def)
  moreover have "split_stage inner = (show_id i, stage)"
    by (cases stage) (simp_all add: inner_def split_stage_plain split_stage_staged)
  ultimately show ?thesis by (simp add: parse_bracketed [simplified] parse_starred [simplified])
qed

section \<open>What resolution returns\<close>

lemma find_in: "find P xs = Some x \<Longrightarrow> x \<in> set xs"
  by (auto simp: find_Some_iff)

lemma resolve_bare_listed: "resolve_bare target jobs = Some i \<Longrightarrow> i \<in> ji_id ` set jobs"
  by (auto simp: resolve_bare_def Let_def list_ex_iff dest!: find_in split: option.splits if_splits)

lemma resolve_pct_listed: "resolve_pct rest jobs = Some i \<Longrightarrow> i \<in> ji_id ` set jobs"
  by (auto simp: resolve_pct_def list_ex_iff dest!: find_in split: option.splits if_splits)

lemma resolve_job_target_listed: "resolve_job_target target jobs = Some i \<Longrightarrow> i \<in> ji_id ` set jobs"
  using resolve_bare_listed resolve_pct_listed
  by (auto simp: resolve_job_target_def Let_def split: option.splits if_splits)

lemma show_id_no_mark: "strip_prefix ''%'' (show_id i) = None" "strip_prefix ''@'' (show_id i) = None"
  using show_id_plain [of "CHR ''%''" i] show_id_plain [of "CHR ''@''" i]
  by (auto simp: strip_prefix_def prefix_def is_digit_def)

text \<open>Job identifiers keep their meaning: whatever form a job's identifier is printed in (local or daemon, with or without a
pipeline stage), parsing it gives back the number, the stage and the owner; the printed identifier of a listed local job
resolves to exactly that job, and the printed identifier of a daemon job resolves to no local job, even one with the same number.
Whatever is typed, a job that resolution returns is one of those listed.
\<close>

lemma job_id_roundtrip:
  "parse_job_target (render_job_id owner i stage) =
     \<lparr>jt_core = show_id i, jt_stage = stage, jt_prefer_daemon = (owner = Owner_Daemon)\<rparr> \<and>
   resolve_job_target (render_job_id Owner_Daemon i stage) jobs = None \<and>
   (i \<in> ji_id ` set jobs \<longrightarrow> resolve_job_target (render_job_id Owner_Local i stage) jobs = Some i) \<and>
   (resolve_job_target target jobs = Some j \<longrightarrow> j \<in> ji_id ` set jobs)"
  using resolve_job_target_listed [of target jobs j]
  by (auto simp: parse_rendered resolve_job_target_def show_id_no_mark resolve_bare_def list_ex_iff)

definition sleeper :: JobInfo where
  "sleeper = \<lparr>ji_id = 1, ji_kind = JK_Shell ''sleep 100'', ji_state = JS_Running, ji_label = ''sleep'', ji_pid = Some 4242,
     ji_runtime = 3, ji_sink = None\<rparr>"

end
