(* ===== verification/Exec_Engine.thy ===== *)
theory Exec_Engine
  imports Exec_Value Builtin_Table Job_Target
begin

section \<open>Typed pipelines: parsing, binding and running\<close>

text \<open>
  Models \<^verbatim>\<open>crates/orkia-shell/src/exec\<close>: \<^verbatim>\<open>tokenize.rs\<close>, \<^verbatim>\<open>parse.rs\<close>, \<^verbatim>\<open>eval.rs\<close>, \<^verbatim>\<open>registry.rs\<close> and \<^verbatim>\<open>engine.rs\<close>. A command is a signature
  with a function of the context, the bound call and the data before it; the context is a type variable here. Running a plan returns,
  beside its result, which commands were run and on what.
\<close>

subsection \<open>Tokens\<close>

definition is_quote :: "char \<Rightarrow> bool" where
  "is_quote c \<longleftrightarrow> c = DQ \<or> c = SQ"

fun split_pipeline_loop :: "string \<Rightarrow> char option \<Rightarrow> string \<Rightarrow> string list" where
  "split_pipeline_loop cur quote [] = [trim cur]"
| "split_pipeline_loop cur quote (c # cs) =
     (if is_quote c \<and> quote = None then split_pipeline_loop (cur @ [c]) (Some c) cs
      else if quote = Some c then split_pipeline_loop (cur @ [c]) None cs
      else if c = CHR ''|'' \<and> quote = None then trim cur # split_pipeline_loop [] None cs
      else split_pipeline_loop (cur @ [c]) quote cs)"

definition split_pipeline :: "string \<Rightarrow> string list" where
  "split_pipeline input = split_pipeline_loop [] None input"

fun tokenize_loop :: "string \<Rightarrow> char option \<Rightarrow> bool \<Rightarrow> string \<Rightarrow> string list" where
  "tokenize_loop cur quote had_token [] = (if had_token then [cur] else [])"
| "tokenize_loop cur quote had_token (c # cs) =
     (if is_quote c \<and> quote = None then tokenize_loop cur (Some c) True cs
      else if quote = Some c then tokenize_loop cur None had_token cs
      else if quote = None \<and> is_whitespace c
      then (if had_token then cur # tokenize_loop [] None False cs else tokenize_loop cur None False cs)
      else tokenize_loop (cur @ [c]) quote True cs)"

definition tokenize :: "string \<Rightarrow> string list" where
  "tokenize input = tokenize_loop [] None False input"

subsection \<open>Commands and their registry\<close>

record ('c, 'f) Command =
  cmd_signature :: Signature
  cmd_run :: "'c \<Rightarrow> 'f EvaluatedCall \<Rightarrow> 'f PipelineData \<Rightarrow> (ExecError, 'f PipelineData) result"

type_synonym ('c, 'f) CommandRegistry = "(string \<times> ('c, 'f) Command) list"

definition register :: "('c, 'f) Command \<Rightarrow> ('c, 'f) CommandRegistry \<Rightarrow> ('c, 'f) CommandRegistry" where
  "register cmd reg = hm_insert (sig_name (cmd_signature cmd)) cmd reg"

definition reg_get :: "('c, 'f) CommandRegistry \<Rightarrow> string \<Rightarrow> ('c, 'f) Command option" where
  "reg_get reg name = map_of reg name"

definition reg_contains :: "('c, 'f) CommandRegistry \<Rightarrow> string \<Rightarrow> bool" where
  "reg_contains reg name \<longleftrightarrow> map_of reg name \<noteq> None"

definition reg_signature :: "('c, 'f) CommandRegistry \<Rightarrow> string \<Rightarrow> Signature option" where
  "reg_signature reg name = map_option cmd_signature (map_of reg name)"

definition reg_names :: "('c, 'f) CommandRegistry \<Rightarrow> string list" where
  "reg_names reg = map fst reg"

subsection \<open>Parsing a line\<close>

record ParsedStage =
  st_name :: string
  st_raw_args :: "string list"

record ExecPlan =
  pl_shell_prefix :: "string option"
  pl_stages :: "ParsedStage list"
  pl_external_suffix :: "string option"

definition strip_namespace :: "string \<Rightarrow> bool \<times> string" where
  "strip_namespace stage =
     (let s = trim stage
      in case strip_prefix ''orkia '' s of
           Some rest \<Rightarrow> (True, trim_start rest)
         | None \<Rightarrow> (case strip_prefix ''ork '' s of Some rest \<Rightarrow> (True, trim_start rest) | None \<Rightarrow> (False, s)))"

definition typed_head :: "('c, 'f) CommandRegistry \<Rightarrow> string \<Rightarrow> (string \<times> string list) option" where
  "typed_head reg stage =
     (case strip_namespace stage of
        (namespaced, body) \<Rightarrow>
          (case tokenize body of
             [] \<Rightarrow> None
           | head # args \<Rightarrow>
               if \<not> reg_contains reg head then None
               else if \<not> namespaced \<and> bare_typed_blocked head then None
               else if \<not> namespaced \<and> route_for head args = Some Route_Brush then None
               else Some (head, args)))"

definition is_agent_stage :: "string \<Rightarrow> bool" where
  "is_agent_stage s \<longleftrightarrow> prefix ''@'' (trim_start s)"

definition is_some :: "'a option \<Rightarrow> bool" where
  "is_some x = (case x of None \<Rightarrow> False | Some _ \<Rightarrow> True)"

fun position :: "('a \<Rightarrow> bool) \<Rightarrow> 'a list \<Rightarrow> nat option" where
  "position P [] = None"
| "position P (x # xs) = (if P x then Some 0 else map_option Suc (position P xs))"

definition try_parse_exec :: "('c, 'f) CommandRegistry \<Rightarrow> string \<Rightarrow> ExecPlan option" where
  "try_parse_exec reg line =
     (let raw = trim line
      in if raw = [] then None
         else
           let stages = split_pipeline raw; heads = map (typed_head reg) stages
           in case position is_some heads of
                None \<Rightarrow> None
              | Some first_typed \<Rightarrow>
                  let segment = takeWhile is_some (drop first_typed heads);
                      last_typed = first_typed + length segment;
                      pre = take first_typed stages; suf = drop last_typed stages
                  in if list_ex is_some (drop last_typed heads) then None
                     else if list_ex is_agent_stage pre then None
                     else if list_ex is_agent_stage suf then None
                     else Some \<lparr>pl_shell_prefix = (if pre = [] then None else Some (join '' | '' pre)),
                       pl_stages = map (\<lambda>(name, raw_args). \<lparr>st_name = name, st_raw_args = raw_args\<rparr>) (List.map_filter (\<lambda>h. h) segment),
                       pl_external_suffix = (if suf = [] then None else Some (join '' | '' suf))\<rparr>)"

text \<open>The type a downstream command expects, for the message when an agent feeds it.\<close>

definition expected_input :: "('c, 'f) CommandRegistry \<Rightarrow> string \<Rightarrow> Type" where
  "expected_input reg command =
     (case reg_signature reg command of
        Some sig \<Rightarrow> (case sig_io_types sig of (input, _) # _ \<Rightarrow> input | [] \<Rightarrow> Ty_Table)
      | None \<Rightarrow> Ty_Table)"

definition first_token :: "string \<Rightarrow> string" where
  "first_token stage = (case tokenize (snd (strip_namespace stage)) of t # _ \<Rightarrow> t | [] \<Rightarrow> [])"

fun agent_left_loop :: "('c, 'f) CommandRegistry \<Rightarrow> string list \<Rightarrow> ExecError option" where
  "agent_left_loop reg (up # down # rest) =
     (let upstream = trim_start up; downstream = trim_start down
      in if prefix ''@'' upstream \<and> \<not> prefix ''@'' downstream
         then (let agent = (case split_whitespace (dropWhile (\<lambda>c. c = CHR ''@'') upstream) of w # _ \<Rightarrow> w | [] \<Rightarrow> []);
                   command = first_token downstream
               in Some (TypeMismatch command (expected_input reg command) Ty_ByteStream (CHR ''@'' # agent)))
         else agent_left_loop reg (down # rest))"
| "agent_left_loop reg _ = None"

definition agent_left_type_mismatch :: "('c, 'f) CommandRegistry \<Rightarrow> string \<Rightarrow> ExecError option" where
  "agent_left_type_mismatch reg line = agent_left_loop reg (split_pipeline line)"

datatype AgentLeft = AL_TypeMismatch ExecError | AL_Sink string string bool string | AL_NotAgentOnLeft

definition split_agent_stage :: "string \<Rightarrow> string \<times> string \<times> bool" where
  "split_agent_stage stage =
     (let words = split_whitespace (dropWhile (\<lambda>c. c = CHR ''@'') (trim_start stage));
          agent = (case words of w # _ \<Rightarrow> w | [] \<Rightarrow> [])
      in (agent, join '' '' (filter (\<lambda>w. w \<noteq> ''--once'') (tl words)), ''--once'' \<in> set (tl words)))"

fun classify_loop :: "('c, 'f) CommandRegistry \<Rightarrow> nat \<Rightarrow> string list \<Rightarrow> AgentLeft" where
  "classify_loop reg i (up # down # rest) =
     (let upstream = trim_start up; downstream = trim_start down
      in if \<not> prefix ''@'' upstream \<or> prefix ''@'' downstream then classify_loop reg (Suc i) (down # rest)
         else case split_agent_stage upstream of
                (agent, body, once) \<Rightarrow>
                  if typed_head reg downstream = None \<and> i = 0 \<and> \<not> list_ex is_agent_stage (down # rest)
                  then AL_Sink agent body once (join '' | '' (down # rest))
                  else let command = first_token downstream
                       in AL_TypeMismatch (TypeMismatch command (expected_input reg command) Ty_ByteStream (CHR ''@'' # agent)))"
| "classify_loop reg i _ = AL_NotAgentOnLeft"

definition classify_agent_on_left :: "('c, 'f) CommandRegistry \<Rightarrow> string \<Rightarrow> AgentLeft" where
  "classify_agent_on_left reg line = classify_loop reg 0 (split_pipeline line)"

subsection \<open>Binding arguments\<close>

definition parse_bool :: "string \<Rightarrow> bool option" where
  "parse_bool token = (if token = ''true'' then Some True else if token = ''false'' then Some False else None)"

definition infer_literal :: "'f FloatOps \<Rightarrow> string \<Rightarrow> 'f Value" where
  "infer_literal fo token =
     (case parse_bool token of
        Some b \<Rightarrow> V_Bool b
      | None \<Rightarrow>
         (case parse_filesize fo token of
            Some bytes \<Rightarrow> V_Filesize bytes
          | None \<Rightarrow>
             (case parse_duration fo token of
                Some dur \<Rightarrow> V_Duration dur
              | None \<Rightarrow>
                 (case parse_i64 token of
                    Some i \<Rightarrow> V_Int i
                  | None \<Rightarrow> (case fo_parse fo token of Some f \<Rightarrow> V_Float f | None \<Rightarrow> V_String token)))))"

definition coerce :: "'f FloatOps \<Rightarrow> string \<Rightarrow> string \<Rightarrow> Type \<Rightarrow> (ExecError, 'f Value) result" where
  "coerce fo head token ty =
     (let bad = (\<lambda>what. BadArgs head (''`'' @ token @ ''` is not a valid '' @ what));
          need = (\<lambda>what x. case x of Some v \<Rightarrow> Ok v | None \<Rightarrow> Err (bad what))
      in case ty of
           Ty_String \<Rightarrow> Ok (V_String token)
         | Ty_Int \<Rightarrow> need ''integer'' (map_option V_Int (parse_i64 token))
         | Ty_Float \<Rightarrow> need ''float'' (map_option V_Float (fo_parse fo token))
         | Ty_Bool \<Rightarrow> need ''bool'' (map_option V_Bool (parse_bool token))
         | Ty_Filesize \<Rightarrow> need ''filesize'' (map_option V_Filesize (parse_filesize fo token))
         | Ty_Duration \<Rightarrow> need ''duration'' (map_option V_Duration (parse_duration fo token))
         | _ \<Rightarrow> Ok (infer_literal fo token))"

definition positional_type :: "Signature \<Rightarrow> nat \<Rightarrow> Type" where
  "positional_type sig index =
     (let r = length (sig_required sig)
      in if index < r then pa_ty (sig_required sig ! index)
         else if index - r < length (sig_optional sig) then pa_ty (sig_optional sig ! (index - r))
         else case sig_rest sig of Some a \<Rightarrow> pa_ty a | None \<Rightarrow> Ty_String)"

definition is_flag_shaped :: "'f FloatOps \<Rightarrow> string \<Rightarrow> bool" where
  "is_flag_shaped fo token =
     (case strip_prefix ''--'' token of
        Some rest \<Rightarrow> rest \<noteq> []
      | None \<Rightarrow> (case strip_prefix ''-'' token of Some rest \<Rightarrow> rest \<noteq> [] \<and> fo_parse fo rest = None | None \<Rightarrow> False))"

definition flag_lookup :: "Signature \<Rightarrow> string \<Rightarrow> FlagSpec option" where
  "flag_lookup sig token =
     (case strip_prefix ''--'' token of
        Some long \<Rightarrow> find (\<lambda>f. fl_long f = long) (sig_flags sig)
      | None \<Rightarrow>
         (case strip_prefix ''-'' token of
            Some [c] \<Rightarrow> if is_digit c then None else find (\<lambda>f. fl_short f = Some c) (sig_flags sig)
          | _ \<Rightarrow> None))"

text \<open>\<^verbatim>\<open>IndexMap::insert\<close>: a key that is there keeps its place.\<close>

fun im_insert :: "'k \<Rightarrow> 'v \<Rightarrow> ('k \<times> 'v) list \<Rightarrow> ('k \<times> 'v) list" where
  "im_insert k v [] = [(k, v)]"
| "im_insert k v ((l, w) # m) = (if l = k then (l, v) # m else (l, w) # im_insert k v m)"

definition bind_flag ::
  "'f FloatOps \<Rightarrow> string \<Rightarrow> FlagSpec \<Rightarrow> string list \<Rightarrow> (string \<times> 'f Value option) list \<Rightarrow>
   (ExecError, string list \<times> (string \<times> 'f Value option) list) result" where
  "bind_flag fo head flag rest named =
     (case fl_takes_arg flag of
        Some ty \<Rightarrow>
          (case rest of
             [] \<Rightarrow> Err (BadArgs head (''flag `--'' @ fl_long flag @ ''` requires a value''))
           | value # rest' \<Rightarrow> and_then (coerce fo head value ty) (\<lambda>v. Ok (rest', im_insert (fl_long flag) (Some v) named)))
      | None \<Rightarrow> Ok (rest, im_insert (fl_long flag) None named))"

lemma bind_flag_rest: "bind_flag fo head flag rest named = Ok (rest', named') \<Longrightarrow> length rest' \<le> length rest"
  by (auto simp: bind_flag_def and_then_Ok_iff split: option.splits list.splits)

function evaluate_loop ::
  "'f FloatOps \<Rightarrow> Signature \<Rightarrow> string \<Rightarrow> string list \<Rightarrow> 'f Value list \<Rightarrow> (string \<times> 'f Value option) list \<Rightarrow>
   (ExecError, 'f Value list \<times> (string \<times> 'f Value option) list) result" where
  "evaluate_loop fo sig head [] positional named = Ok (positional, named)"
| "evaluate_loop fo sig head (token # rest) positional named =
     (case flag_lookup sig token of
        Some flag \<Rightarrow>
          (case bind_flag fo head flag rest named of
             Inl e \<Rightarrow> Err e
           | Inr (rest', named') \<Rightarrow> evaluate_loop fo sig head rest' positional named')
      | None \<Rightarrow>
          if sig_rest sig = None \<and> is_flag_shaped fo token then Err (UnknownFlagE head token)
          else (case coerce fo head token (positional_type sig (length positional)) of
                  Inl e \<Rightarrow> Err e
                | Inr v \<Rightarrow> evaluate_loop fo sig head rest (positional @ [v]) named))"
  by pat_completeness auto
termination
  by (relation "measure (\<lambda>(_, _, _, tokens, _, _). length tokens)") (auto dest: bind_flag_rest)

definition evaluate :: "'f FloatOps \<Rightarrow> Signature \<Rightarrow> string \<Rightarrow> string list \<Rightarrow> (ExecError, 'f EvaluatedCall) result" where
  "evaluate fo sig head raw_args =
     and_then (evaluate_loop fo sig head raw_args [] []) (\<lambda>(positional, named).
       (if length positional < length (sig_required sig)
        then Err (MissingArg head (pa_name (sig_required sig ! length positional)))
        else Ok \<lparr>ec_head = head, ec_positional = positional, ec_named = named\<rparr>))"

subsection \<open>The engine\<close>

record 'f PipelineInput =
  pi_data :: "'f PipelineData"
  pi_label :: string

text \<open>Resolve, type-check and bind every stage; then run.\<close>

fun bind_stages ::
  "'f FloatOps \<Rightarrow> ('c, 'f) CommandRegistry \<Rightarrow> ParsedStage list \<Rightarrow> Type \<Rightarrow> string \<Rightarrow>
   (ExecError, (('c, 'f) Command \<times> 'f EvaluatedCall) list) result" where
  "bind_stages fo reg [] current_type upstream = Ok []"
| "bind_stages fo reg (stage # stages) current_type upstream =
     (case reg_get reg (st_name stage) of
        None \<Rightarrow> Err (RuntimeE (st_name stage) ''command not found in registry'')
      | Some command \<Rightarrow>
         (let signature = cmd_signature command
          in case output_for signature current_type of
               None \<Rightarrow>
                 Err (TypeMismatch (st_name stage) (case sig_io_types signature of (input_ty, _) # _ \<Rightarrow> input_ty | [] \<Rightarrow> Ty_Any) current_type upstream)
             | Some next_type \<Rightarrow>
                 and_then (evaluate fo signature (st_name stage) (st_raw_args stage)) (\<lambda>call.
                   and_then (bind_stages fo reg stages next_type (st_name stage)) (\<lambda>bound.
                     Ok ((command, call) # bound)))))"

fun run_bound ::
  "'c \<Rightarrow> (('c, 'f) Command \<times> 'f EvaluatedCall) list \<Rightarrow> 'f PipelineData \<Rightarrow>
   (('c, 'f) Command \<times> 'f PipelineData) list \<times> (ExecError, 'f PipelineData) result" where
  "run_bound ctx [] data = ([], Ok data)"
| "run_bound ctx ((command, call) # bound) data =
     (case cmd_run command ctx call data of
        Inl e \<Rightarrow> ([(command, data)], Err e)
      | Inr data' \<Rightarrow> (case run_bound ctx bound data' of (runs, r) \<Rightarrow> ((command, data) # runs, r)))"

definition run_plan ::
  "'f FloatOps \<Rightarrow> ('c, 'f) CommandRegistry \<Rightarrow> 'c \<Rightarrow> ParsedStage list \<Rightarrow> 'f PipelineInput \<Rightarrow>
   (('c, 'f) Command \<times> 'f PipelineData) list \<times> (ExecError, 'f PipelineData) result" where
  "run_plan fo reg ctx stages input =
     (case bind_stages fo reg stages (pipe_type (pi_data input)) (pi_label input) of
        Inl e \<Rightarrow> ([], Err e)
      | Inr bound \<Rightarrow> run_bound ctx bound (pi_data input))"

section \<open>Words survive the line\<close>

text \<open>How a caller writes any word: in single quotes, a single quote itself in double ones.\<close>

fun pq_escape :: "string \<Rightarrow> string" where
  "pq_escape [] = []"
| "pq_escape (c # cs) = (if c = SQ then [SQ, DQ, SQ, DQ, SQ] else [c]) @ pq_escape cs"

definition pq_quote :: "string \<Rightarrow> string" where
  "pq_quote w = SQ # pq_escape w @ [SQ]"

definition stage_text :: "string list \<Rightarrow> string" where
  "stage_text ws = join '' '' (map pq_quote ws)"

definition pipeline_text :: "string list list \<Rightarrow> string" where
  "pipeline_text stages = join '' | '' (map stage_text stages)"

lemma pq_quote_hd_last: "pq_quote w = SQ # tl (pq_quote w)" "last (pq_quote w) = SQ" "pq_quote w \<noteq> []"
  by (simp_all add: pq_quote_def)

lemma split_pipeline_escaped:
  "split_pipeline_loop cur (Some SQ) (pq_escape w @ SQ # s) = split_pipeline_loop (cur @ pq_escape w @ [SQ]) None s"
  by (induction w arbitrary: cur) (simp_all add: is_quote_def)

lemma split_pipeline_quoted: "split_pipeline_loop cur None (pq_quote w @ s) = split_pipeline_loop (cur @ pq_quote w) None s"
  by (simp add: pq_quote_def split_pipeline_escaped is_quote_def)

lemma split_pipeline_stage: "split_pipeline_loop cur None (stage_text ws @ s) = split_pipeline_loop (cur @ stage_text ws) None s"
  unfolding stage_text_def
proof (induction ws arbitrary: cur)
  case (Cons w ws)
  then show ?case by (cases ws) (simp_all add: split_pipeline_quoted is_quote_def)
qed simp

lemma tokenize_escaped:
  "tokenize_loop cur (Some SQ) True (pq_escape w @ SQ # s) = tokenize_loop (cur @ w) None True s"
  by (induction w arbitrary: cur) (simp_all add: is_quote_def)

lemma tokenize_quoted: "tokenize_loop [] None had (pq_quote w @ s) = tokenize_loop w None True s"
  by (simp add: pq_quote_def tokenize_escaped is_quote_def)

lemma tokenize_stage: "tokenize (stage_text ws) = ws"
  unfolding stage_text_def tokenize_def
proof (induction ws)
  case (Cons w ws)
  then show ?case using tokenize_quoted [of False w "[]"]
    by (cases ws) (simp_all add: tokenize_quoted is_quote_def)
qed simp

lemma join_ends:
  "ws \<noteq> [] \<Longrightarrow> \<forall>w \<in> set ws. w \<noteq> [] \<Longrightarrow> join sep ws \<noteq> [] \<and> hd (join sep ws) = hd (hd ws) \<and> last (join sep ws) = last (last ws)"
  by (induction sep ws rule: join.induct) (auto split: if_splits)

lemma trim_stage: "trim (stage_text ws) = stage_text ws" "trim (CHR 0x20 # stage_text ws) = stage_text ws"
  "trim (stage_text ws @ [CHR 0x20]) = stage_text ws" "trim (CHR 0x20 # stage_text ws @ [CHR 0x20]) = stage_text ws"
proof -
  show t: "trim (stage_text ws) = stage_text ws"
  proof (cases "ws = []")
    case False
    then have "hd (stage_text ws) = SQ" "last (stage_text ws) = SQ" "stage_text ws \<noteq> []"
      using join_ends [of "map pq_quote ws" "'' ''"] pq_quote_hd_last
      by (simp_all add: stage_text_def hd_map last_map pq_quote_def)
    then show ?thesis by (intro trim_id) simp_all
  qed (simp add: stage_text_def)
  have a: "trim (CHR 0x20 # s) = trim s" for s by (simp add: trim_def)
  have b: "trim (s @ [CHR 0x20]) = trim s" for s
  proof (cases "list_all is_whitespace s")
    case True
    then show ?thesis using trim_empty_iff [of s] trim_empty_iff [of "s @ [CHR 0x20]"] by simp
  next
    case False
    then have "dropWhile is_whitespace s \<noteq> []" by (simp add: dropWhile_eq_Nil_conv list_all_iff)
    then show ?thesis using False by (auto simp: trim_def trim_start_def dropWhile_append list_all_iff)
  qed
  show "trim (CHR 0x20 # stage_text ws) = stage_text ws" by (simp add: a t)
  show "trim (stage_text ws @ [CHR 0x20]) = stage_text ws" by (simp add: b t)
  show "trim (CHR 0x20 # stage_text ws @ [CHR 0x20]) = stage_text ws" using b [of "CHR 0x20 # stage_text ws"] by (simp add: a t)
qed

lemma split_pipeline_text:
  "cur = [] \<or> cur = [CHR 0x20] \<Longrightarrow> split_pipeline_loop cur None (pipeline_text (ws # wss)) = map stage_text (ws # wss)"
  unfolding pipeline_text_def
proof (induction wss arbitrary: ws cur)
  case Nil
  then show ?case using split_pipeline_stage [of cur ws "[]"] by (auto simp: trim_stage)
next
  case (Cons v wss)
  then have "trim (cur @ stage_text ws @ [CHR 0x20]) = stage_text ws" by (auto simp: trim_stage)
  then show ?case using Cons.IH [of "[CHR 0x20]" v] by (simp add: split_pipeline_stage is_quote_def)
qed

text \<open>C19. No argument is misread on its way through a pipeline: a sequence of stages, each any list of words (with blanks, bars and quotes
of either kind), written with every word quoted, is split into those stages and every stage into exactly those words.
\<close>

theorem quoted_pipeline_roundtrip: "map tokenize (split_pipeline (pipeline_text (ws # wss))) = ws # wss"
proof -
  have "split_pipeline (pipeline_text (ws # wss)) = map stage_text (ws # wss)"
    unfolding split_pipeline_def by (rule split_pipeline_text) simp
  then show ?thesis by (simp add: tokenize_stage comp_def)
qed

section \<open>Which lines are typed pipelines\<close>

lemma position_takeWhile:
  "position P xs = (if list_ex P xs then Some (length (takeWhile (\<lambda>x. \<not> P x) xs)) else None)"
  by (induction xs) auto

lemma map_filter_Some: "List.map_filter (\<lambda>h. h) (map Some ys) = ys"
  by (induction ys) (simp_all add: List.map_filter_simps)

lemma is_some_simps [simp]: "is_some (Some x)" "\<not> is_some None"
  by (simp_all add: is_some_def)

lemma not_is_some_iff: "\<not> is_some x \<longleftrightarrow> x = None"
  by (cases x) simp_all

lemma is_some_the: "is_some x \<Longrightarrow> x = Some (the x)"
  by (cases x) simp_all

text \<open>The first run of elements that satisfy a predicate.\<close>

lemma first_run:
  assumes "\<forall>x \<in> set lead. \<not> P x" and "\<forall>x \<in> set mid. P x" and "mid \<noteq> []" and "suf = [] \<or> \<not> P (hd suf)"
  shows "position P (lead @ mid @ suf) = Some (length lead)" and "takeWhile P (mid @ suf) = mid"
proof -
  obtain m ms where m: "mid = m # ms" "P m" using assms(2,3) by (cases mid) auto
  have "takeWhile (\<lambda>x. \<not> P x) (lead @ mid @ suf) = lead" using assms(1) m by (simp add: takeWhile_append2)
  then show "position P (lead @ mid @ suf) = Some (length lead)" using m by (simp add: position_takeWhile)
  show "takeWhile P (mid @ suf) = mid" using assms(2,4) by (cases suf) (auto simp: takeWhile_append2)
qed

lemma run_exists:
  assumes "list_ex P xs"
  obtains lead mid suf where "xs = lead @ mid @ suf" and "\<forall>x \<in> set lead. \<not> P x" and "\<forall>x \<in> set mid. P x" and "mid \<noteq> []"
    and "suf = [] \<or> \<not> P (hd suf)"
proof -
  let ?rest = "dropWhile (\<lambda>x. \<not> P x) xs"
  have ne: "?rest \<noteq> []" using assms by (auto simp: list_ex_iff dropWhile_eq_Nil_conv)
  show ?thesis
  proof (rule that)
    show "xs = takeWhile (\<lambda>x. \<not> P x) xs @ takeWhile P ?rest @ dropWhile P ?rest" by simp
    show "takeWhile P ?rest \<noteq> []" using hd_dropWhile [of "\<lambda>x. \<not> P x" xs] ne by (cases ?rest) auto
    show "dropWhile P ?rest = [] \<or> \<not> P (hd (dropWhile P ?rest))" using hd_dropWhile [of P ?rest] by blast
  qed (auto dest: set_takeWhileD)
qed

text \<open>What the parser computes when the typed stages stand together, and that otherwise there is no plan.\<close>

definition plan_of :: "string list \<Rightarrow> (string \<times> string list) list \<Rightarrow> string list \<Rightarrow> ExecPlan" where
  "plan_of lead heads suf =
     \<lparr>pl_shell_prefix = (if lead = [] then None else Some (join '' | '' lead)),
      pl_stages = map (\<lambda>(name, raw_args). \<lparr>st_name = name, st_raw_args = raw_args\<rparr>) heads,
      pl_external_suffix = (if suf = [] then None else Some (join '' | '' suf))\<rparr>"

lemma parse_three:
  assumes "trim line \<noteq> []" and s: "split_pipeline (trim line) = lead @ mid @ suf" and "mid \<noteq> []"
    and "\<forall>s \<in> set lead. typed_head reg s = None" and "suf = [] \<or> typed_head reg (hd suf) = None"
    and h: "map (typed_head reg) mid = map Some heads"
  shows "try_parse_exec reg line =
    (if list_ex (\<lambda>s. is_some (typed_head reg s)) suf \<or> list_ex is_agent_stage (lead @ suf) then None else Some (plan_of lead heads suf))"
proof -
  let ?f = "typed_head reg"
  have "\<forall>x \<in> set (map ?f lead). \<not> is_some x" "map ?f suf = [] \<or> \<not> is_some (hd (map ?f suf))"
    using assms(4,5) by (auto simp: hd_map)
  moreover have "\<forall>x \<in> set (map Some heads). is_some x" "map Some heads \<noteq> []" using h assms(3) by auto
  ultimately have p: "position is_some (map ?f lead @ map Some heads @ map ?f suf) = Some (length lead)"
    and seg: "takeWhile is_some (map Some heads @ map ?f suf) = map Some heads"
    using first_run [of "map ?f lead" is_some "map Some heads" "map ?f suf"] by simp_all
  have l: "length heads = length mid" using arg_cong [OF h, of length] by simp
  show ?thesis
    unfolding try_parse_exec_def Let_def s map_append h p
    using assms(1) by (auto simp: seg l map_filter_Some plan_of_def list_ex_iff)
qed

lemma parse_cases:
  assumes "try_parse_exec reg line = Some plan"
  obtains lead mid suf heads where "trim line \<noteq> []" and "split_pipeline (trim line) = lead @ mid @ suf" and "mid \<noteq> []"
    and "\<forall>s \<in> set lead. typed_head reg s = None" and "suf = [] \<or> typed_head reg (hd suf) = None"
    and "map (typed_head reg) mid = map Some heads"
proof -
  have ne: "trim line \<noteq> []" using assms by (auto simp: try_parse_exec_def)
  have "list_ex (\<lambda>s. is_some (typed_head reg s)) (split_pipeline (trim line))"
    using assms by (auto simp: try_parse_exec_def Let_def position_takeWhile list_ex_iff split: if_splits)
  then obtain lead mid suf where r: "split_pipeline (trim line) = lead @ mid @ suf"
    "\<forall>s \<in> set lead. \<not> is_some (typed_head reg s)" "\<forall>s \<in> set mid. is_some (typed_head reg s)" "mid \<noteq> []"
    "suf = [] \<or> \<not> is_some (typed_head reg (hd suf))" by (rule run_exists)
  have heads: "map (typed_head reg) mid = map Some (map (\<lambda>s. the (typed_head reg s)) mid)"
    using r(3) by (auto intro: is_some_the)
  show ?thesis by (rule that [OF ne r(1) r(4) _ _ heads]) (use r(2,5) in \<open>simp_all add: not_is_some_iff\<close>)
qed

text \<open>C31. A line is taken as a typed pipeline exactly when, cut at its unquoted bars, it consists of stages none of which is typed, one unbroken run of
typed stages, and again stages none of which is typed, with no agent on either side; the plan then has the typed stages with
their words, and the stages around them as one shell command each. Everything else is left to the shell.
\<close>

theorem typed_line_iff:
  "try_parse_exec reg line = Some plan \<longleftrightarrow>
     trim line \<noteq> [] \<and>
     (\<exists>lead mid suf heads. split_pipeline (trim line) = lead @ mid @ suf \<and> mid \<noteq> [] \<and> map (typed_head reg) mid = map Some heads \<and>
        list_all (\<lambda>s. typed_head reg s = None \<and> \<not> is_agent_stage s) (lead @ suf) \<and> plan = plan_of lead heads suf)"
  (is "?l \<longleftrightarrow> ?r")
proof
  assume l: ?l
  then obtain lead mid suf heads where p: "trim line \<noteq> []" "split_pipeline (trim line) = lead @ mid @ suf" "mid \<noteq> []"
    "\<forall>s \<in> set lead. typed_head reg s = None" "suf = [] \<or> typed_head reg (hd suf) = None" "map (typed_head reg) mid = map Some heads"
    by (rule parse_cases)
  have "\<not> list_ex (\<lambda>s. is_some (typed_head reg s)) suf" "\<not> list_ex is_agent_stage (lead @ suf)" "plan = plan_of lead heads suf"
    using l unfolding parse_three [OF p] by (auto split: if_splits)
  then have "list_all (\<lambda>s. typed_head reg s = None \<and> \<not> is_agent_stage s) (lead @ suf)" "plan = plan_of lead heads suf"
    using p(4) by (auto simp: list_ex_iff list_all_iff not_is_some_iff)
  with p show ?r by blast
next
  assume ?r
  then obtain lead mid suf heads where p: "trim line \<noteq> []" "split_pipeline (trim line) = lead @ mid @ suf" "mid \<noteq> []"
    "map (typed_head reg) mid = map Some heads" "list_all (\<lambda>s. typed_head reg s = None \<and> \<not> is_agent_stage s) (lead @ suf)"
    "plan = plan_of lead heads suf" by blast
  have a: "\<forall>s \<in> set lead. typed_head reg s = None" using p(5) by (simp add: list_all_iff)
  have b: "suf = [] \<or> typed_head reg (hd suf) = None" using p(5) by (cases suf) simp_all
  from parse_three [OF p(1-3) a b p(4)] show ?l using p(5,6) by (auto simp: list_ex_iff list_all_iff)
qed

end
