(* ===== verification/History_Store.thy ===== *)
theory History_Store
  imports Host_Fs "HOL-Library.Countable"
begin

section \<open>The command history\<close>

text \<open>
  Models \<^verbatim>\<open>crates/orkia-shell/src/history\<close> (\<^verbatim>\<open>mod.rs\<close>, \<^verbatim>\<open>import.rs\<close>), the entries of \<^verbatim>\<open>crates/orkia-shell-types/src/history.rs\<close> and the
  queries of \<^verbatim>\<open>crates/orkia-builtin/src/history.rs\<close>. The JSON codec of an entry is a parameter, and so is the clock.
\<close>

datatype HistoryType =
    HT_Shell | HT_Intent | HT_AgentDelegation | HT_Builtin | HT_Approval | HT_Pipeline | HT_ShellToAgent | HT_AgentToSink

definition history_type_short :: "HistoryType \<Rightarrow> string" where
  "history_type_short t =
     (case t of HT_Shell \<Rightarrow> ''shell'' | HT_Intent \<Rightarrow> ''intent'' | HT_AgentDelegation \<Rightarrow> ''@agent'' | HT_Builtin \<Rightarrow> ''builtin''
      | HT_Approval \<Rightarrow> ''approval'' | HT_Pipeline \<Rightarrow> ''pipeline'' | HT_ShellToAgent \<Rightarrow> ''sh|@'' | HT_AgentToSink \<Rightarrow> ''@|sh'')"

record HistoryEntry =
  he_seq :: "64 word"
  he_timestamp :: string
  he_entry_type :: HistoryType
  he_line :: string
  he_agent :: "string option"
  he_job_id :: "32 word option"

definition history_entry_new :: "string \<Rightarrow> 64 word \<Rightarrow> HistoryType \<Rightarrow> string \<Rightarrow> HistoryEntry" where
  "history_entry_new now n entry_type line =
     \<lparr>he_seq = n, he_timestamp = now, he_entry_type = entry_type, he_line = line, he_agent = None, he_job_id = None\<rparr>"

record HistoryCodec =
  hc_encode :: "HistoryEntry \<Rightarrow> string option"
  hc_decode :: "string \<Rightarrow> HistoryEntry option"

subsection \<open>Import from the system shells\<close>

record ShellEnv =
  sh_histfile :: "path option"
  sh_home :: "path option"

record Imported =
  im_line :: string
  im_source :: string

definition read_lossy :: "Io \<Rightarrow> fs \<Rightarrow> path \<Rightarrow> string option" where
  "read_lossy io fs p = (case io_err io ''history import'' Read of Some _ \<Rightarrow> None | None \<Rightarrow> fs p)"

definition histfile_named :: "string \<Rightarrow> ShellEnv \<Rightarrow> path option" where
  "histfile_named shell env =
     (case sh_histfile env of
        Some p \<Rightarrow> if p \<noteq> [] \<and> last p \<noteq> ''..'' \<and> str_contains (last p) shell then Some p else None
      | None \<Rightarrow> None)"

definition zsh_history_path :: "ShellEnv \<Rightarrow> path option" where
  "zsh_history_path env =
     (case histfile_named ''zsh'' env of Some p \<Rightarrow> Some p | None \<Rightarrow> map_option (\<lambda>h. path_join h ''.zsh_history'') (sh_home env))"

definition bash_history_path :: "ShellEnv \<Rightarrow> path option" where
  "bash_history_path env =
     (case histfile_named ''bash'' env of Some p \<Rightarrow> Some p | None \<Rightarrow> map_option (\<lambda>h. path_join h ''.bash_history'') (sh_home env))"

definition strip_zsh_extended :: "string \<Rightarrow> string" where
  "strip_zsh_extended line =
     (case strip_prefix '': '' line of
        None \<Rightarrow> line
      | Some rest \<Rightarrow> (case split_once (CHR '';'') rest of Some (_, cmd) \<Rightarrow> cmd | None \<Rightarrow> line))"

definition zsh_command :: "string \<Rightarrow> string list" where
  "zsh_command line = (let trimmed = trim (strip_zsh_extended line) in if trimmed = [] then [] else [trimmed])"

fun zsh_loop :: "string option \<Rightarrow> string list \<Rightarrow> string list" where
  "zsh_loop pending [] = (case pending of Some r \<Rightarrow> zsh_command r | None \<Rightarrow> [])"
| "zsh_loop pending (raw_line # ls) =
     (let line = (case pending of Some prev \<Rightarrow> prev @ NL # raw_line | None \<Rightarrow> raw_line)
      in if suffix [BS] line then zsh_loop (Some (butlast line)) ls
         else zsh_command line @ zsh_loop None ls)"

definition read_zsh_history :: "Io \<Rightarrow> fs \<Rightarrow> path \<Rightarrow> string list" where
  "read_zsh_history io fs p = (case read_lossy io fs p of Some raw \<Rightarrow> zsh_loop None (str_lines raw) | None \<Rightarrow> [])"

definition read_bash_history :: "Io \<Rightarrow> fs \<Rightarrow> path \<Rightarrow> string list" where
  "read_bash_history io fs p =
     (case read_lossy io fs p of
        Some raw \<Rightarrow> filter (\<lambda>l. l \<noteq> [] \<and> \<not> prefix ''#'' l) (map trim (str_lines raw))
      | None \<Rightarrow> [])"

fun dedup_consecutive :: "Imported list \<Rightarrow> Imported list" where
  "dedup_consecutive (a # b # es) =
     (if im_line b = im_line a then dedup_consecutive (a # es) else a # dedup_consecutive (b # es))"
| "dedup_consecutive es = es"

definition imported_from :: "string \<Rightarrow> string list \<Rightarrow> Imported list" where
  "imported_from source ls = map (\<lambda>l. \<lparr>im_line = l, im_source = source\<rparr>) ls"

definition collect_system_history :: "Io \<Rightarrow> fs \<Rightarrow> ShellEnv \<Rightarrow> nat \<Rightarrow> Imported list" where
  "collect_system_history io fs env limit =
     (let zsh = (case zsh_history_path env of Some p \<Rightarrow> imported_from ''zsh'' (read_zsh_history io fs p) | None \<Rightarrow> []);
          bash = (case bash_history_path env of Some p \<Rightarrow> imported_from ''bash'' (read_bash_history io fs p) | None \<Rightarrow> []);
          out = dedup_consecutive (zsh @ bash)
      in drop (length out - limit) out)"

subsection \<open>The store\<close>

definition MAX_ENTRIES :: nat where "MAX_ENTRIES = 10000"

definition IMPORT_LIMIT :: nat where "IMPORT_LIMIT = 500"

record History =
  hi_entries :: "HistoryEntry list"
  hi_file_path :: path
  hi_next_seq :: "64 word"

definition history_load :: "Io \<Rightarrow> HistoryCodec \<Rightarrow> fs \<Rightarrow> path \<Rightarrow> HistoryEntry list" where
  "history_load io hc fs p =
     (case (case io_err io ''history'' Read of Some _ \<Rightarrow> None | None \<Rightarrow> fs p) of
        None \<Rightarrow> []
      | Some raw \<Rightarrow> List.map_filter (hc_decode hc) (filter (\<lambda>l. trim l \<noteq> []) (str_lines raw)))"

definition load_entries :: "Io \<Rightarrow> HistoryCodec \<Rightarrow> fs \<Rightarrow> path \<Rightarrow> HistoryEntry list" where
  "load_entries io hc fs data_dir = history_load io hc fs (path_join data_dir ''history.jsonl'')"

definition append_line :: "Io \<Rightarrow> HistoryCodec \<Rightarrow> path \<Rightarrow> HistoryEntry \<Rightarrow> fs \<Rightarrow> fs" where
  "append_line io hc p e fs =
     (case hc_encode hc e of
        None \<Rightarrow> fs
      | Some line \<Rightarrow>
         (let old = (case fs p of Some c \<Rightarrow> c | None \<Rightarrow> [])
          in case io_err io ''history'' Open of
               Some _ \<Rightarrow> fs
             | None \<Rightarrow>
                (case io_err io ''history'' Write of
                   Some _ \<Rightarrow> fs(p \<mapsto> old @ take (io_part io ''history'') (line @ [NL]))
                 | None \<Rightarrow> fs(p \<mapsto> old @ line @ [NL]))))"

definition rewrite_all :: "Io \<Rightarrow> HistoryCodec \<Rightarrow> path \<Rightarrow> HistoryEntry list \<Rightarrow> fs \<Rightarrow> fs" where
  "rewrite_all io hc p es fs =
     fst (fs_fill io ''history rewrite'' ''history rewrite'' p (join [NL] (List.map_filter (hc_encode hc) es) @ [NL]) fs)"

definition push_typed ::
  "Io \<Rightarrow> HistoryCodec \<Rightarrow> string \<Rightarrow> HistoryType \<Rightarrow> string \<Rightarrow> string option \<Rightarrow> 32 word option \<Rightarrow> History \<times> fs \<Rightarrow> History \<times> fs" where
  "push_typed io hc now entry_type line agent job_id st =
     (case st of
        (h, fs) \<Rightarrow>
          let trimmed = trim line; es = hi_entries h
          in if trimmed = [] then (h, fs)
             else if es \<noteq> [] \<and> he_entry_type (last es) = entry_type \<and> he_line (last es) = trimmed then (h, fs)
             else
               let entry = (history_entry_new now (hi_next_seq h) entry_type trimmed)\<lparr>he_agent := agent, he_job_id := job_id\<rparr>;
                   fs1 = append_line io hc (hi_file_path h) entry fs;
                   es1 = es @ [entry];
                   h1 = h\<lparr>hi_next_seq := hi_next_seq h + 1, hi_entries := es1\<rparr>
               in if length es1 > MAX_ENTRIES
                  then (let es2 = drop (length es1 - MAX_ENTRIES) es1
                        in (h1\<lparr>hi_entries := es2\<rparr>, rewrite_all io hc (hi_file_path h) es2 fs1))
                  else (h1, fs1))"

definition seed_from_system_shells :: "Io \<Rightarrow> HistoryCodec \<Rightarrow> ShellEnv \<Rightarrow> string \<Rightarrow> History \<times> fs \<Rightarrow> History \<times> fs" where
  "seed_from_system_shells io hc env now st =
     foldl (\<lambda>s i. push_typed io hc now HT_Shell (im_line i) (Some (''imported:'' @ im_source i)) None s) st
       (collect_system_history io (snd st) env IMPORT_LIMIT)"

definition history_new :: "Io \<Rightarrow> HistoryCodec \<Rightarrow> ShellEnv \<Rightarrow> string \<Rightarrow> path \<Rightarrow> fs \<Rightarrow> History \<times> fs" where
  "history_new io hc env now data_dir fs =
     (let file_path = path_join data_dir ''history.jsonl'';
          is_first_launch = (fs file_path = None);
          entries = history_load io hc fs file_path;
          next_seq = (if entries = [] then 1 else he_seq (last entries) + 1);
          history = \<lparr>hi_entries = entries, hi_file_path = file_path, hi_next_seq = next_seq\<rparr>
      in if is_first_launch then seed_from_system_shells io hc env now (history, fs) else (history, fs))"

definition history_search :: "History \<Rightarrow> string \<Rightarrow> HistoryEntry list" where
  "history_search h query = take 20 (filter (\<lambda>e. str_contains (he_line e) query) (rev (hi_entries h)))"

definition history_filter :: "HistoryEntry list \<Rightarrow> nat \<Rightarrow> (HistoryEntry \<Rightarrow> bool) \<Rightarrow> HistoryEntry list" where
  "history_filter entries limit keep = rev (take limit (filter keep (rev entries)))"

subsection \<open>Queries\<close>

record HistoryQuery =
  hq_limit :: nat
  hq_only_shell :: bool
  hq_only_agents :: bool
  hq_only_approvals :: bool
  hq_search :: "string option"

fun history_query_loop :: "string list \<Rightarrow> HistoryQuery \<Rightarrow> (string, HistoryQuery) result" where
  "history_query_loop [] q = Ok q"
| "history_query_loop (arg # args) q =
     (if arg = ''-n'' \<or> arg = ''--limit''
      then (case args of
              [] \<Rightarrow> Err ''history: -n requires a value''
            | n # rest \<Rightarrow>
               (case parse_usize n of
                  Some k \<Rightarrow> history_query_loop rest (q\<lparr>hq_limit := k\<rparr>)
                | None \<Rightarrow> Err (''history: invalid -n value '' @ [SQ] @ n @ [SQ])))
      else if arg = ''--shell'' then history_query_loop args (q\<lparr>hq_only_shell := True\<rparr>)
      else if arg = ''--agents'' then history_query_loop args (q\<lparr>hq_only_agents := True\<rparr>)
      else if arg = ''--approvals'' then history_query_loop args (q\<lparr>hq_only_approvals := True\<rparr>)
      else if arg = ''--search''
      then (case args of [] \<Rightarrow> Err ''history: --search requires a query'' | needle # rest \<Rightarrow> history_query_loop rest (q\<lparr>hq_search := Some needle\<rparr>))
      else Err (''history: unknown flag '' @ [SQ] @ arg @ [SQ]))"

definition history_query_parse :: "string list \<Rightarrow> (string, HistoryQuery) result" where
  "history_query_parse args =
     history_query_loop args \<lparr>hq_limit = 20, hq_only_shell = False, hq_only_agents = False, hq_only_approvals = False, hq_search = None\<rparr>"

definition query_matches :: "HistoryQuery \<Rightarrow> HistoryEntry \<Rightarrow> bool" where
  "query_matches q e \<longleftrightarrow>
     (hq_only_shell q \<longrightarrow> he_entry_type e = HT_Shell) \<and>
     (hq_only_agents q \<longrightarrow> he_entry_type e \<in> {HT_Intent, HT_AgentDelegation, HT_Pipeline}) \<and>
     (hq_only_approvals q \<longrightarrow> he_entry_type e = HT_Approval) \<and>
     (case hq_search q of Some needle \<Rightarrow> str_contains (he_line e) needle | None \<Rightarrow> True)"

section \<open>The file mirrors the entries\<close>

text \<open>What the codec is relied on for: it decodes what it encodes, and writes one line without line breaks.\<close>

definition history_codec_ok :: "HistoryCodec \<Rightarrow> bool" where
  "history_codec_ok hc \<longleftrightarrow>
     (\<forall>e. \<exists>l. hc_encode hc e = Some l \<and> hc_decode hc l = Some e \<and> trim l \<noteq> [] \<and> NL \<notin> set l \<and> \<not> suffix [CHR 0x0D] l)"

definition follows :: "HistoryEntry \<Rightarrow> HistoryEntry \<Rightarrow> bool" where
  "follows a b \<longleftrightarrow> he_seq b = he_seq a + 1 \<and> \<not> (he_entry_type a = he_entry_type b \<and> he_line a = he_line b)"

definition entry_lines :: "HistoryCodec \<Rightarrow> HistoryEntry list \<Rightarrow> string list" where
  "entry_lines hc es = map (\<lambda>e. the (hc_encode hc e)) es"

text \<open>The invariant: the lines of the file are the entries, the entries are numbered one after the other, no entry repeats the one before it,
  and there are not too many.\<close>

definition history_inv :: "HistoryCodec \<Rightarrow> History \<times> fs \<Rightarrow> bool" where
  "history_inv hc st =
     (case st of
        (h, fs) \<Rightarrow>
          (case fs (hi_file_path h) of
             None \<Rightarrow> hi_entries h = []
           | Some c \<Rightarrow> hi_entries h \<noteq> [] \<and> log_closed c \<and> str_lines c = entry_lines hc (hi_entries h)) \<and>
          hi_next_seq h = (if hi_entries h = [] then 1 else he_seq (last (hi_entries h)) + 1) \<and>
          length (hi_entries h) \<le> MAX_ENTRIES \<and> successively follows (hi_entries h))"

lemma codec_okD:
  assumes "history_codec_ok hc"
  shows "hc_encode hc e = Some (the (hc_encode hc e))" and "hc_decode hc (the (hc_encode hc e)) = Some e"
    and "trim (the (hc_encode hc e)) \<noteq> []" and "NL \<notin> set (the (hc_encode hc e))" and "\<not> suffix [CHR 0x0D] (the (hc_encode hc e))"
  using assms unfolding history_codec_ok_def by (metis option.sel)+

lemma map_filter_encode: "history_codec_ok hc \<Longrightarrow> List.map_filter (hc_encode hc) es = entry_lines hc es"
  by (induction es) (auto simp: List.map_filter_simps entry_lines_def dest: codec_okD(1) split: option.split)

lemma decode_lines:
  assumes "history_codec_ok hc"
  shows "List.map_filter (hc_decode hc) (filter (\<lambda>l. trim l \<noteq> []) (entry_lines hc es)) = es"
  using codec_okD [OF assms] by (induction es) (auto simp: List.map_filter_simps entry_lines_def)

lemma str_lines_joined:
  assumes "history_codec_ok hc" and "es \<noteq> []"
  shows "str_lines (join [NL] (entry_lines hc es) @ [NL]) = entry_lines hc es" and "log_closed (join [NL] (entry_lines hc es) @ [NL])"
proof -
  have j: "join [NL] ls @ [NL] = concat (map (\<lambda>l. l @ [NL]) ls)" if "ls \<noteq> []" for ls
    using that by (induction "[NL]" ls rule: join.induct) simp_all
  have "str_lines (concat (map (\<lambda>l. l @ [NL]) (entry_lines hc xs))) = entry_lines hc xs \<and>
      log_closed (concat (map (\<lambda>l. l @ [NL]) (entry_lines hc xs)))" for xs
  proof (induction xs rule: rev_induct)
    case (snoc x xs)
    then show ?case using str_lines_snoc [OF _ codec_okD(4,5) [OF assms(1)]]
      by (simp add: entry_lines_def log_closed_def)
  qed (simp add: entry_lines_def log_closed_def)
  moreover have "entry_lines hc es \<noteq> []" using assms(2) by (simp add: entry_lines_def)
  ultimately show "str_lines (join [NL] (entry_lines hc es) @ [NL]) = entry_lines hc es"
    and "log_closed (join [NL] (entry_lines hc es) @ [NL])" by (simp_all add: j)
qed

lemma history_inv_loads:
  assumes "history_codec_ok hc" and "history_inv hc (h, fs)"
  shows "history_load io_fine hc fs (hi_file_path h) = hi_entries h"
  using assms(2) decode_lines [OF assms(1)]
  by (auto simp: history_inv_def history_load_def io_fine_def split: option.splits)

lemma successively_drop: "successively P xs \<Longrightarrow> successively P (drop n xs)"
  by (metis append_take_drop_id successively_append_iff)

lemma append_line_fine:
  assumes "history_codec_ok hc"
  shows "append_line io_fine hc p e fs = fs(p \<mapsto> (case fs p of Some c \<Rightarrow> c | None \<Rightarrow> []) @ the (hc_encode hc e) @ [NL])"
proof -
  obtain l where "hc_encode hc e = Some l" using assms by (auto simp: history_codec_ok_def)
  then show ?thesis by (simp add: append_line_def io_fine_def)
qed

lemma push_typed_inv:
  assumes hc: "history_codec_ok hc" and inv: "history_inv hc (h, fs)"
  shows "history_inv hc (push_typed io_fine hc now t line agent job (h, fs))"
proof -
  let ?es = "hi_entries h" and ?p = "hi_file_path h"
  let ?e = "(history_entry_new now (hi_next_seq h) t (trim line))\<lparr>he_agent := agent, he_job_id := job\<rparr>"
  let ?old = "case fs ?p of Some c \<Rightarrow> c | None \<Rightarrow> []"
  let ?fs = "fs(?p \<mapsto> ?old @ the (hc_encode hc ?e) @ [NL])"
  have fs: "append_line io_fine hc ?p ?e fs = ?fs"
    by (rule append_line_fine [OF hc])
  have old: "log_closed ?old" "str_lines ?old = entry_lines hc ?es"
    using inv by (auto simp: history_inv_def log_closed_def entry_lines_def split: option.splits)
  have new: "str_lines (?old @ the (hc_encode hc ?e) @ [NL]) = entry_lines hc (?es @ [?e])"
    using str_lines_snoc [OF old(1) codec_okD(4,5) [OF hc, of ?e]] old(2) by (simp add: entry_lines_def)
  show ?thesis
  proof (cases "trim line = [] \<or> ?es \<noteq> [] \<and> he_entry_type (last ?es) = t \<and> he_line (last ?es) = trim line")
    case True
    then show ?thesis using inv by (auto simp: push_typed_def Let_def)
  next
    case False
    then have f: "successively follows (?es @ [?e])"
      using inv by (auto simp: history_inv_def successively_append_iff follows_def history_entry_new_def)
    have n: "he_seq ?e = hi_next_seq h" by (simp add: history_entry_new_def)
    have l: "length ?es \<le> MAX_ENTRIES" using inv by (simp add: history_inv_def)
    show ?thesis
    proof (cases "length ?es < MAX_ENTRIES")
      case True
      then have "push_typed io_fine hc now t line agent job (h, fs) = (h\<lparr>hi_next_seq := hi_next_seq h + 1, hi_entries := ?es @ [?e]\<rparr>, ?fs)"
        using False fs by (auto simp: push_typed_def Let_def)
      then show ?thesis using True f n new by (simp add: history_inv_def log_closed_def)
    next
      case full: False
      let ?kept = "tl (?es @ [?e])"
      have m: "Suc 0 - MAX_ENTRIES = 0" by (simp add: MAX_ENTRIES_def)
      have ne: "?es \<noteq> []" using full by (auto simp: MAX_ENTRIES_def)
      then have kept: "?kept \<noteq> []" "last ?kept = ?e" "length ?kept = length ?es" by simp_all
      have "push_typed io_fine hc now t line agent job (h, fs) =
          (h\<lparr>hi_next_seq := hi_next_seq h + 1, hi_entries := ?kept\<rparr>, ?fs(?p \<mapsto> join [NL] (entry_lines hc ?kept) @ [NL]))"
        using False full l fs
        by (auto simp: push_typed_def Let_def m ne drop_Suc rewrite_all_def fs_fill_def io_fine_def map_filter_encode [OF hc])
      moreover have "successively follows ?kept" using successively_drop [OF f, of 1] by (simp only: One_nat_def drop_Suc drop_0)
      ultimately show ?thesis using str_lines_joined [OF hc kept(1)] n kept l by (simp add: history_inv_def)
    qed
  qed
qed

text \<open>A session: what is recorded, in order, after opening.\<close>

record Recorded =
  rc_now :: string
  rc_type :: HistoryType
  rc_line :: string
  rc_agent :: "string option"
  rc_job :: "32 word option"

definition record_all :: "HistoryCodec \<Rightarrow> Recorded list \<Rightarrow> History \<times> fs \<Rightarrow> History \<times> fs" where
  "record_all hc rs st = foldl (\<lambda>s r. push_typed io_fine hc (rc_now r) (rc_type r) (rc_line r) (rc_agent r) (rc_job r) s) st rs"

lemma push_typed_path: "hi_file_path (fst (push_typed io hc now t line agent job st)) = hi_file_path (fst st)"
  by (simp add: push_typed_def Let_def split: prod.split)

lemma foldl_inv:
  "history_codec_ok hc \<Longrightarrow> history_inv hc st \<Longrightarrow>
   history_inv hc (foldl (\<lambda>s r. push_typed io_fine hc (n r) (t r) (l r) (a r) (j r) s) st rs) \<and>
   hi_file_path (fst (foldl (\<lambda>s r. push_typed io_fine hc (n r) (t r) (l r) (a r) (j r) s) st rs)) = hi_file_path (fst st)"
proof (induction rs arbitrary: st)
  case (Cons r rs)
  then show ?case
    using push_typed_inv [of hc "fst st" "snd st" "n r" "t r" "l r" "a r" "j r"] by (simp add: push_typed_path)
qed simp

lemma history_new_inv:
  assumes "history_codec_ok hc" and "fs (path_join data_dir ''history.jsonl'') = None"
  shows "history_inv hc (history_new io_fine hc env now data_dir fs)"
    and "hi_file_path (fst (history_new io_fine hc env now data_dir fs)) = path_join data_dir ''history.jsonl''"
proof -
  let ?h = "\<lparr>hi_entries = [], hi_file_path = path_join data_dir ''history.jsonl'', hi_next_seq = 1\<rparr>"
  have "history_load io_fine hc fs (path_join data_dir ''history.jsonl'') = []"
    using assms(2) by (simp add: history_load_def io_fine_def)
  then have n: "history_new io_fine hc env now data_dir fs = seed_from_system_shells io_fine hc env now (?h, fs)"
    using assms(2) by (simp add: history_new_def Let_def)
  have "history_inv hc (?h, fs)" using assms(2) by (simp add: history_inv_def)
  from foldl_inv [OF assms(1) this, where n = "\<lambda>_. now" and t = "\<lambda>_. HT_Shell" and l = im_line
      and a = "\<lambda>i. Some (''imported:'' @ im_source i)" and j = "\<lambda>_. None" and rs = "collect_system_history io_fine fs env IMPORT_LIMIT"]
  show "history_inv hc (history_new io_fine hc env now data_dir fs)"
    and "hi_file_path (fst (history_new io_fine hc env now data_dir fs)) = path_join data_dir ''history.jsonl''"
    unfolding n seed_from_system_shells_def by simp_all
qed

text \<open>C20. The history on disk is the history in memory. From a first launch, with whatever the system shells' histories seed it
with, and after any sequence of recorded lines, the file decodes to exactly the entries held in memory; there are at most the
allowed number, numbered one after the other, and none repeats the line and kind of the one before it; and opening the store again gives
the same entries and the same next number. Relied on: file operations succeed, and the JSON library decodes the
one line it encodes an entry as.
\<close>

theorem history_mirrors_disk:
  assumes "history_codec_ok hc" and "fs (path_join data_dir ''history.jsonl'') = None"
    and run: "record_all hc rs (history_new io_fine hc env now data_dir fs) = (h, fs')"
  shows "load_entries io_fine hc fs' data_dir = hi_entries h \<and> length (hi_entries h) \<le> MAX_ENTRIES \<and>
    successively follows (hi_entries h) \<and>
    (hi_entries h \<noteq> [] \<longrightarrow> history_new io_fine hc env' now' data_dir fs' = (h, fs'))"
proof -
  note new = history_new_inv [of hc fs data_dir env now, OF assms(1,2)]
  have inv: "history_inv hc (h, fs')" and p: "hi_file_path h = path_join data_dir ''history.jsonl''"
    using foldl_inv [OF assms(1) new(1), of rc_now rc_type rc_line rc_agent rc_job rs] new(2) run by (simp_all add: record_all_def)
  have l: "history_load io_fine hc fs' (path_join data_dir ''history.jsonl'') = hi_entries h"
    using history_inv_loads [OF assms(1) inv] by (simp add: p)
  moreover have "history_new io_fine hc env' now' data_dir fs' = (h, fs')" if "hi_entries h \<noteq> []"
    using inv l p that by (cases h) (auto simp: history_new_def Let_def history_inv_def split: option.splits)
  ultimately show ?thesis using inv by (simp add: load_entries_def history_inv_def)
qed

text \<open>For the instance: a codec that writes an entry's number among all of them.\<close>

instance HistoryType :: countable by countable_datatype

definition history_fields :: "HistoryEntry \<Rightarrow> (64 word \<times> string \<times> HistoryType) \<times> string \<times> string option \<times> 32 word option" where
  "history_fields e = ((he_seq e, he_timestamp e, he_entry_type e), he_line e, he_agent e, he_job_id e)"

definition history_of :: "(64 word \<times> string \<times> HistoryType) \<times> string \<times> string option \<times> 32 word option \<Rightarrow> HistoryEntry" where
  "history_of t =
     (case t of ((n, ts, ty), line, agent, job) \<Rightarrow>
        \<lparr>he_seq = n, he_timestamp = ts, he_entry_type = ty, he_line = line, he_agent = agent, he_job_id = job\<rparr>)"

definition numbered_history :: HistoryCodec where
  "numbered_history =
     \<lparr>hc_encode = \<lambda>e. Some (show_nat (to_nat (history_fields e))), hc_decode = \<lambda>l. Some (history_of (from_nat (read_nat l)))\<rparr>"

lemma numbered_history_ok: "history_codec_ok numbered_history"
proof -
  have "history_of (history_fields e) = e" for e by (simp add: history_of_def history_fields_def)
  then show ?thesis
    using show_nat_digits digits_are_lines by (auto simp: history_codec_ok_def numbered_history_def)
qed

theorem history_mirrors_disk_witness:
  "\<exists>h fs'. record_all numbered_history [\<lparr>rc_now = ''now'', rc_type = HT_Shell, rc_line = '' ls '', rc_agent = None, rc_job = None\<rparr>]
       (history_new io_fine numbered_history \<lparr>sh_histfile = None, sh_home = None\<rparr> ''now'' [''orkia''] Map.empty) = (h, fs') \<and>
     map he_line (hi_entries h) = [''ls''] \<and> load_entries io_fine numbered_history fs' [''orkia''] = hi_entries h \<and>
     history_new io_fine numbered_history \<lparr>sh_histfile = None, sh_home = None\<rparr> ''later'' [''orkia''] fs' = (h, fs')"
proof -
  let ?r = "\<lparr>rc_now = ''now'', rc_type = HT_Shell, rc_line = '' ls '', rc_agent = None, rc_job = None\<rparr>"
  let ?env = "\<lparr>sh_histfile = None, sh_home = None\<rparr>"
  have new: "history_new io_fine numbered_history ?env ''now'' [''orkia''] Map.empty =
      (\<lparr>hi_entries = [], hi_file_path = path_join [''orkia''] ''history.jsonl'', hi_next_seq = 1\<rparr>, Map.empty)"
    by (simp add: history_new_def history_load_def seed_from_system_shells_def collect_system_history_def zsh_history_path_def
        bash_history_path_def histfile_named_def Let_def io_fine_def)
  have t: "trim '' ls '' = ''ls''" by code_simp
  obtain h fs' where r: "record_all numbered_history [?r] (history_new io_fine numbered_history ?env ''now'' [''orkia''] Map.empty) = (h, fs')"
    by fastforce
  then have l: "map he_line (hi_entries h) = [''ls'']"
    unfolding new record_all_def by (auto simp: push_typed_def Let_def t history_entry_new_def MAX_ENTRIES_def)
  note m = history_mirrors_disk [OF numbered_history_ok _ r, of ?env "''later''"]
  have "load_entries io_fine numbered_history fs' [''orkia''] = hi_entries h \<and>
      (hi_entries h \<noteq> [] \<longrightarrow> history_new io_fine numbered_history ?env ''later'' [''orkia''] fs' = (h, fs'))"
    using m by simp
  then show ?thesis using r l by auto
qed

end
