(* ===== verification/Journal_Store.thy ===== *)
theory Journal_Store
  imports Cage_Shim Host_Fs "HOL-Library.Countable"
begin

section \<open>The event journal\<close>

text \<open>
  Models \<^verbatim>\<open>crates/orkia-shell/src/journal\<close> (\<^verbatim>\<open>store.rs\<close>, \<^verbatim>\<open>query.rs\<close>), the filter of \<^verbatim>\<open>crates/orkia-shell-types/src/journal/types.rs\<close>, and
  \<^verbatim>\<open>notifications.rs\<close> and \<^verbatim>\<open>normalize.rs\<close> of \<^verbatim>\<open>crates/orkia-journal-hub\<close>. Reading a time stamp and going back from the present by a number of seconds are
  parameters. In the lines for the prompt, a glyph beyond U+00FF is written as the bytes of its UTF-8 encoding.
\<close>

subsection \<open>Filters\<close>

record JournalClock =
  jk_parse :: "string \<Rightarrow> int option"
  jk_minus :: "int \<Rightarrow> int"

record JournalFilter =
  jf_agent :: "string option"
  jf_job_id :: "32 word option"
  jf_event_type :: "EventType option"
  jf_event :: "string option"
  jf_source :: "string option"
  jf_since :: "int option"
  jf_last_n :: "nat option"

definition filter_matches :: "JournalClock \<Rightarrow> JournalFilter \<Rightarrow> JournalEnvelope \<Rightarrow> bool" where
  "filter_matches jk f e \<longleftrightarrow>
     (case jf_agent f of Some a \<Rightarrow> je_agent e = Some a | None \<Rightarrow> True) \<and>
     (case jf_job_id f of Some j \<Rightarrow> je_job_id e = Some j | None \<Rightarrow> True) \<and>
     (case jf_event_type f of Some t \<Rightarrow> je_event_type e = t | None \<Rightarrow> True) \<and>
     (case jf_event f of Some v \<Rightarrow> je_event e = Some v | None \<Rightarrow> True) \<and>
     (case jf_source f of Some s \<Rightarrow> je_source e = Some s | None \<Rightarrow> True) \<and>
     (case jf_since f of Some t \<Rightarrow> (case jk_parse jk (je_timestamp e) of Some ts \<Rightarrow> \<not> ts < t | None \<Rightarrow> False) | None \<Rightarrow> True)"

record ParsedJournalArgs =
  pj_filter :: JournalFilter
  pj_help :: bool

definition no_filter :: JournalFilter where
  "no_filter = \<lparr>jf_agent = None, jf_job_id = None, jf_event_type = None, jf_event = None, jf_source = None, jf_since = None, jf_last_n = None\<rparr>"

definition parse_event_type :: "string \<Rightarrow> (string, EventType) result" where
  "parse_event_type s =
     (let t = to_ascii_lowercase s
      in if t = ''hook'' then Ok Hook
         else if t = ''approval'' then Ok Approval
         else if t = ''lifecycle'' then Ok Lifecycle
         else if t = ''shell'' then Ok Shell
         else if t = ''tell'' then Ok Tell
         else if t = ''seal'' then Ok Seal
         else if t = ''scopechange'' \<or> t = ''scope_change'' then Ok ScopeChange
         else Err (''--type: '' @ [SQ] @ t @ [SQ] @ '' must be one of: hook, approval, lifecycle, shell, tell, seal, scope_change''))"

text \<open>Multiplication of 64-bit integers, as an optimised build does it.\<close>

definition wrap_i64 :: "int \<Rightarrow> int" where
  "wrap_i64 i = sint (of_int i :: 64 word)"

definition parse_since :: "JournalClock \<Rightarrow> string \<Rightarrow> (string, int) result" where
  "parse_since jk s =
     (case jk_parse jk s of
        Some absolute \<Rightarrow> Ok absolute
      | None \<Rightarrow>
         (let malformed = ''--since: '' @ [SQ] @ s @ [SQ] @ '' is not RFC3339 or NN[smhd]''
          in if s = [] then Err malformed
             else case parse_i64 (butlast s) of
                    None \<Rightarrow> Err malformed
                  | Some n \<Rightarrow>
                     (let unit = last s
                      in if unit = CHR ''s'' then Ok (jk_minus jk n)
                         else if unit = CHR ''m'' then Ok (jk_minus jk (wrap_i64 (n * 60)))
                         else if unit = CHR ''h'' then Ok (jk_minus jk (wrap_i64 (n * 3600)))
                         else if unit = CHR ''d'' then Ok (jk_minus jk (wrap_i64 (n * 86400)))
                         else Err (''--since: '' @ [SQ] @ s @ [SQ] @ '' has unsupported unit '' @ [SQ, unit, SQ]))))"

text \<open>An option with a value: what it does to the filter, or why not.\<close>

definition journal_option :: "JournalClock \<Rightarrow> string \<Rightarrow> (string \<times> (string \<Rightarrow> JournalFilter \<Rightarrow> (string, JournalFilter) result)) option" where
  "journal_option jk arg =
     (if arg = ''--agent'' then Some (''--agent requires a value'', \<lambda>v f. Ok (f\<lparr>jf_agent := Some v\<rparr>))
      else if arg = ''--job''
      then Some (''--job requires a value'', \<lambda>v f.
             (case parse_u32 v of Some j \<Rightarrow> Ok (f\<lparr>jf_job_id := Some j\<rparr>) | None \<Rightarrow> Err (''--job: '' @ [SQ] @ v @ [SQ] @ '' is not a valid id'')))
      else if arg = ''--type''
      then Some (''--type requires a value'', \<lambda>v f. and_then (parse_event_type v) (\<lambda>t. Ok (f\<lparr>jf_event_type := Some t\<rparr>)))
      else if arg = ''--event'' then Some (''--event requires a value'', \<lambda>v f. Ok (f\<lparr>jf_event := Some v\<rparr>))
      else if arg = ''--last-response''
      then Some (''--last-response requires an agent'', \<lambda>v f.
             Ok (f\<lparr>jf_agent := Some v, jf_event := Some ''AgentFinalResponse'', jf_last_n := Some 1\<rparr>))
      else if arg = ''--source'' then Some (''--source requires a value'', \<lambda>v f. Ok (f\<lparr>jf_source := Some v\<rparr>))
      else if arg = ''--last''
      then Some (''--last requires a value'', \<lambda>v f.
             (case parse_usize v of Some n \<Rightarrow> Ok (f\<lparr>jf_last_n := Some n\<rparr>) | None \<Rightarrow> Err (''--last: '' @ [SQ] @ v @ [SQ] @ '' is not a valid count'')))
      else if arg = ''--since''
      then Some (''--since requires a value'', \<lambda>v f. and_then (parse_since jk v) (\<lambda>t. Ok (f\<lparr>jf_since := Some t\<rparr>)))
      else None)"

fun journal_args_loop :: "JournalClock \<Rightarrow> string list \<Rightarrow> JournalFilter \<Rightarrow> bool \<Rightarrow> (string, ParsedJournalArgs) result" where
  "journal_args_loop jk [] f help = Ok \<lparr>pj_filter = f, pj_help = help\<rparr>"
| "journal_args_loop jk (arg # args) f help =
     (if arg = ''-h'' \<or> arg = ''--help'' then journal_args_loop jk args f True
      else case journal_option jk arg of
             None \<Rightarrow> Err (''unknown argument: '' @ arg)
           | Some (missing, assign) \<Rightarrow>
              (case args of
                 [] \<Rightarrow> Err missing
               | v # rest \<Rightarrow> (case assign v f of Inl e \<Rightarrow> Err e | Inr f' \<Rightarrow> journal_args_loop jk rest f' help)))"

definition parse_journal_args :: "JournalClock \<Rightarrow> string list \<Rightarrow> (string, ParsedJournalArgs) result" where
  "parse_journal_args jk args = journal_args_loop jk args no_filter False"

definition journal_help_text :: string where
  "journal_help_text = join [NL]
     [''Usage: journal [--agent NAME] [--job ID] [--type TYPE] [--event NAME]'',
      ''                [--source SRC] [--last N] [--since (RFC3339 | NN[smhd])]'',
      ''                [--last-response AGENT]'',
      [],
      ''Query the unified event journal at ~/.orkia/journal.jsonl. Filters'',
      ''are AND-combined; --last truncates to the most recent N matches.'',
      [],
      ''TYPE values: hook, approval, lifecycle, shell, tell, seal'',
      ''--event matches the hook event name (e.g. Stop, AgentFinalResponse).'',
      ''--last-response AGENT is sugar for `--agent AGENT --event AgentFinalResponse --last 1`.'']"

subsection \<open>Summaries and notifications\<close>

definition event_type_label :: "EventType \<Rightarrow> string" where
  "event_type_label t =
     (case t of Hook \<Rightarrow> ''hook'' | Approval \<Rightarrow> ''approval'' | Lifecycle \<Rightarrow> ''lifecycle'' | Shell \<Rightarrow> ''shell'' | Tell \<Rightarrow> ''tell''
      | Seal \<Rightarrow> ''seal'' | ScopeChange \<Rightarrow> ''scope_change'' | KnowledgeAccess \<Rightarrow> ''knowledge_access'')"

definition knowledge_access :: "string \<Rightarrow> 32 word option \<Rightarrow> string list \<Rightarrow> JournalEnvelope" where
  "knowledge_access now job_id node_ids =
     (envelope_now now KnowledgeAccess)\<lparr>je_job_id := job_id, je_event := Some ''KnowledgeAccess'',
        je_extra := [''node_ids'' \<mapsto> JArr (map JStr node_ids)]\<rparr>"

definition knowledge_access_ids :: "JournalEnvelope \<Rightarrow> string list" where
  "knowledge_access_ids e =
     (case je_extra e ''node_ids'' of Some (JArr a) \<Rightarrow> List.map_filter json_as_str a | _ \<Rightarrow> [])"

definition ellipsis :: string where "ellipsis = [CHR 0xE2, CHR 0x80, CHR 0xA6]"

definition truncate_chars :: "string \<Rightarrow> nat \<Rightarrow> string" where
  "truncate_chars s limit = (if length s \<le> limit then s else take limit s @ ellipsis)"

definition or_str :: "string option \<Rightarrow> string \<Rightarrow> string" where
  "or_str x d = (case x of Some s \<Rightarrow> s | None \<Rightarrow> d)"

definition event_summary :: "JournalEnvelope \<Rightarrow> string" where
  "event_summary e =
     (case je_event_type e of
        Hook \<Rightarrow> trim (or_str (je_event e) ''-'' @ '' '' @ or_str (je_tool e) [] @ '' '' @ or_str (je_target e) [])
      | Approval \<Rightarrow> or_str (je_action e) ''-'' @ '' (risk: '' @ or_str (je_risk e) ''?'' @ '')''
      | Lifecycle \<Rightarrow> or_str (je_event e) ''-''
      | Shell \<Rightarrow> or_str (je_action e) ''-''
      | Tell \<Rightarrow> truncate_chars (or_str (je_message e) []) 60
      | Seal \<Rightarrow> or_str (je_event e) ''-''
      | ScopeChange \<Rightarrow> or_str (je_event e) ''-''
      | KnowledgeAccess \<Rightarrow> ''recalled '' @ show_nat (length (knowledge_access_ids e)) @ '' node(s)'')"

definition pad_right :: "nat \<Rightarrow> string \<Rightarrow> string" where
  "pad_right n s = s @ replicate (n - length s) (CHR '' '')"

definition query_row :: "JournalEnvelope \<Rightarrow> string" where
  "query_row e =
     (let job = (case je_job_id e of Some n \<Rightarrow> show_nat (unat n) | None \<Rightarrow> ''-'')
      in je_timestamp e @ ''  '' @ pad_right 9 (event_type_label (je_event_type e)) @ ''  job:'' @ replicate (3 - length job) (CHR '' '') @ job @
         ''  '' @ pad_right 12 (or_str (je_agent e) ''-'') @ ''  '' @ event_summary e)"

definition ansi :: "string \<Rightarrow> string" where
  "ansi code = CHR 0x1B # ''['' @ code @ ''m''"

definition warning_sign :: string where "warning_sign = [CHR 0xE2, CHR 0x9A, CHR 0xA0]"

definition middle_dot :: string where "middle_dot = [CHR 0x20, CHR 0xB7, CHR 0x20]"

definition tag_for :: "JournalEnvelope \<Rightarrow> string" where
  "tag_for e =
     ansi ''90'' @ ''['' @
     (case (je_job_id e, je_agent e) of
        (Some i, Some name) \<Rightarrow> ''job '' @ show_nat (unat i) @ '' '' @ name
      | (Some i, None) \<Rightarrow> ''job '' @ show_nat (unat i)
      | (None, Some name) \<Rightarrow> name
      | (None, None) \<Rightarrow> ''orkia'') @ '']'' @ ansi ''0''"

definition extra_str :: "string \<Rightarrow> JournalEnvelope \<Rightarrow> string option" where
  "extra_str k e = Option.bind (je_extra e k) json_as_str"

definition render_verdict :: "JournalEnvelope \<Rightarrow> string \<Rightarrow> string option" where
  "render_verdict e tag =
     (case extra_str ''verdict'' e of
        None \<Rightarrow> None
      | Some verdict \<Rightarrow>
         (let command = or_str (extra_str ''command'' e) []; capability = extra_str ''capability'' e
          in if verdict = ''deny''
             then Some (''  '' @ tag @ '' '' @ ansi ''31'' @ [CHR 0xE2, CHR 0x9B, CHR 0x94] @ '' DENIED'' @
                    (case capability of Some c \<Rightarrow> CHR '' '' # c | None \<Rightarrow> []) @ ansi ''0'' @ middle_dot @ truncate_chars command 64)
             else if verdict = ''allow''
             then map_option (\<lambda>cap. ''  '' @ tag @ '' '' @ ansi ''32'' @ [CHR 0xE2, CHR 0x9C, CHR 0x93] @ '' allow '' @ cap @ ansi ''0'' @ middle_dot @
                    truncate_chars command 64) capability
             else None))"

definition render_operator_drift :: "JournalEnvelope \<Rightarrow> string \<Rightarrow> string option" where
  "render_operator_drift e tag =
     map_option (\<lambda>reason.
       (let severity = or_str (extra_str ''severity'' e) ''warning''; kind = or_str (extra_str ''kind'' e) ''drift'';
            (label, colour) =
              (if severity = ''critical'' then (''operator critical'', ansi ''31'')
               else if severity = ''warning'' then (''operator drift'', ansi ''33'')
               else (''operator notice'', ansi ''36''))
        in ''  '' @ tag @ '' '' @ colour @ warning_sign @ '' '' @ label @ '':'' @ ansi ''0'' @ '' '' @ kind @ middle_dot @ truncate_chars reason 96))
       (je_message e)"

definition render_operator_cross_session :: "JournalEnvelope \<Rightarrow> string \<Rightarrow> string option" where
  "render_operator_cross_session e tag =
     map_option (\<lambda>reason. ''  '' @ tag @ '' '' @ ansi ''35'' @ [CHR 0xE2, CHR 0x86, CHR 0x94] @ '' operator cross-session:'' @ ansi ''0'' @ '' '' @
       truncate_chars reason 104) (je_message e)"

definition render_operator_suggestion :: "JournalEnvelope \<Rightarrow> string \<Rightarrow> string option" where
  "render_operator_suggestion e tag =
     map_option (\<lambda>reason. ''  '' @ tag @ '' '' @ ansi ''36'' @ [CHR 0xE2, CHR 0x86, CHR 0xB3] @ '' operator suggestion:'' @ ansi ''0'' @ '' '' @
       truncate_chars reason 104) (je_message e)"

definition approval_line :: "string \<Rightarrow> string \<Rightarrow> string \<Rightarrow> string" where
  "approval_line tag action risk =
     ''  '' @ tag @ '' '' @ ansi ''33'' @ warning_sign @ '' approval needed:'' @ ansi ''0'' @ '' '' @ action @ '' (risk: '' @ risk @ '')''"

definition render_hook :: "JournalEnvelope \<Rightarrow> string \<Rightarrow> string option" where
  "render_hook e tag =
     (case je_event e of
        None \<Rightarrow> None
      | Some name \<Rightarrow>
          if name = ''cage.verdict'' then render_verdict e tag
          else if name = ''operator.drift_detected'' then render_operator_drift e tag
          else if name = ''operator.cross_session_conflict'' then render_operator_cross_session e tag
          else if name = ''operator.suggestion_created'' then render_operator_suggestion e tag
          else if name = ''PreToolUse'' \<or> name = ''PostToolUse'' then None
          else if name = ''PermissionRequest''
          then Some (approval_line tag (case je_action e of Some a \<Rightarrow> a | None \<Rightarrow> or_str (je_tool e) ''?'') (or_str (je_risk e) ''?''))
          else if name = ''Stop'' \<or> name = ''SubagentStop'' then None
          else if name = ''Notification'' then Some (''  '' @ tag @ '' '' @ or_str (je_message e) [])
          else None)"

definition notification_for :: "JournalEnvelope \<Rightarrow> string option" where
  "notification_for e =
     (if je_event_type e = Hook \<and> je_job_id e = None then None
      else case je_event_type e of
             Hook \<Rightarrow> render_hook e (tag_for e)
           | Approval \<Rightarrow> Some (approval_line (tag_for e) (or_str (je_action e) ''approval'') (or_str (je_risk e) ''?''))
           | Lifecycle \<Rightarrow> None
           | Tell \<Rightarrow>
               if je_source e = Some ''orkia'' then None
               else Some (''  '' @ tag_for e @ '' '' @ ansi ''36'' @ [CHR 0xE2, CHR 0x86, CHR 0x92] @ ansi ''0'' @ '' '' @ truncate_chars (or_str (je_message e) []) 80)
           | Shell \<Rightarrow> None
           | Seal \<Rightarrow> None
           | ScopeChange \<Rightarrow> None
           | KnowledgeAccess \<Rightarrow> None)"

subsection \<open>Foreign hooks\<close>

definition JOURNAL_LINE_MAX_BYTES :: int where "JOURNAL_LINE_MAX_BYTES = 256 * 1024"

definition STOP_FINAL_MESSAGE_MAX_BYTES :: int where "STOP_FINAL_MESSAGE_MAX_BYTES = JOURNAL_LINE_MAX_BYTES div 2"

definition normalize_event_name :: "string \<Rightarrow> string" where
  "normalize_event_name event =
     (if event = ''BeforeTool'' then ''PreToolUse''
      else if event = ''AfterTool'' then ''PostToolUse''
      else if event = ''SessionEnd'' then ''Stop''
      else event)"

definition truncate_bytes :: "string \<Rightarrow> nat \<Rightarrow> string" where
  "truncate_bytes s limit = (if utf8_len s \<le> int limit then s else take limit s @ ellipsis)"

definition short_path :: "path option \<Rightarrow> string \<Rightarrow> string" where
  "short_path cwd p =
     (let segs = split_on (CHR ''/'') p; short = join ''/'' (drop (length segs - 2) segs)
      in case cwd of
           Some d \<Rightarrow> if prefix ''/'' p \<and> prefix d (path_comps p) then join ''/'' (drop (length d) (path_comps p)) else short
         | None \<Rightarrow> short)"

definition get_either :: "string \<Rightarrow> string \<Rightarrow> Json \<Rightarrow> Json option" where
  "get_either a b j = (case json_get a j of Some v \<Rightarrow> Some v | None \<Rightarrow> json_get b j)"

definition get_str :: "string \<Rightarrow> Json \<Rightarrow> string option" where
  "get_str k j = Option.bind (json_get k j) json_as_str"

definition extract_target :: "path option \<Rightarrow> Json \<Rightarrow> string option" where
  "extract_target cwd raw =
     (case get_either ''tool_input'' ''input'' raw of
        None \<Rightarrow> None
      | Some input \<Rightarrow>
         (case Option.bind (get_either ''file_path'' ''path'' input) json_as_str of
            Some p \<Rightarrow> Some (short_path cwd p)
          | None \<Rightarrow> map_option (\<lambda>cmd. truncate_bytes cmd 64) (get_str ''command'' input)))"

record HookEnv =
  hk_now :: string
  hk_cwd :: "path option"
  hk_job :: "string option"
  hk_agent :: "string option"

definition hook_extra :: "Json \<Rightarrow> string \<Rightarrow> Json option" where
  "hook_extra raw k =
     (if k = ''transcript_path'' \<or> k = ''cwd'' then map_option JStr (get_str k raw)
      else if k = ''last_assistant_message''
      then (case get_str k raw of Some v \<Rightarrow> if utf8_len v \<le> STOP_FINAL_MESSAGE_MAX_BYTES then Some (JStr v) else None | None \<Rightarrow> None)
      else None)"

definition normalize_hook_value :: "HookEnv \<Rightarrow> string \<Rightarrow> Json \<Rightarrow> JournalEnvelope option" where
  "normalize_hook_value hk source raw =
     (case Option.bind (get_either ''event'' ''hook_event_name'' raw) json_as_str of
        None \<Rightarrow> None
      | Some event_name \<Rightarrow>
          Some ((envelope_now (hk_now hk) Hook)
            \<lparr>je_job_id := Option.bind (hk_job hk) parse_u32,
             je_session_id := get_str ''session_id'' raw,
             je_source := Some source,
             je_agent := hk_agent hk,
             je_event := Some (normalize_event_name event_name),
             je_tool := Option.bind (get_either ''tool_name'' ''tool'' raw) json_as_str,
             je_target := extract_target (hk_cwd hk) raw,
             je_exit_code := map_option (\<lambda>v. sint (of_int v :: 32 word)) (Option.bind (json_get ''exit_code'' raw) json_as_int),
             je_action := get_str ''action'' raw,
             je_risk := get_str ''risk'' raw,
             je_description := Option.bind (get_either ''permission_description'' ''description'' raw) json_as_str,
             je_message := get_str ''message'' raw,
             je_model := get_str ''model'' raw,
             je_prompt := get_str ''prompt'' raw,
             je_extra := hook_extra raw\<rparr>))"

definition try_recover_hook_line :: "HookEnv \<Rightarrow> (string \<Rightarrow> Json option) \<Rightarrow> string \<Rightarrow> JournalEnvelope option" where
  "try_recover_hook_line hk parse line =
     (case parse line of
        None \<Rightarrow> None
      | Some raw \<Rightarrow>
          if json_get ''hook_event_name'' raw = None then None
          else normalize_hook_value hk (or_str (get_str ''_source'' raw) ''claude'') raw)"

subsection \<open>The store and its writer\<close>

text \<open>The writer thread owns the file: it receives lines from a channel and appends each. A send is refused only when the thread is gone.\<close>

record JournalCodec =
  jc_encode :: "JournalEnvelope \<Rightarrow> string option"
  jc_decode :: "string \<Rightarrow> JournalEnvelope option"

record JournalStore =
  js_path :: path
  js_entries :: "JournalEnvelope list"
  js_channel :: "string list option"
  js_opened :: bool

definition journal_load :: "Io \<Rightarrow> JournalCodec \<Rightarrow> fs \<Rightarrow> path \<Rightarrow> JournalEnvelope list" where
  "journal_load io jc fs p =
     (case (case io_err io ''journal'' Read of Some _ \<Rightarrow> None | None \<Rightarrow> fs p) of
        None \<Rightarrow> []
      | Some text \<Rightarrow> List.map_filter (jc_decode jc) (filter (\<lambda>l. trim l \<noteq> []) (str_lines text)))"

definition journal_load_entries :: "Io \<Rightarrow> JournalCodec \<Rightarrow> fs \<Rightarrow> path \<Rightarrow> JournalEnvelope list" where
  "journal_load_entries io jc fs data_dir = journal_load io jc fs (path_join data_dir ''journal.jsonl'')"

definition journal_new :: "Io \<Rightarrow> JournalCodec \<Rightarrow> bool \<Rightarrow> path \<Rightarrow> fs \<Rightarrow> JournalStore" where
  "journal_new io jc spawned data_dir fs =
     (let p = path_join data_dir ''journal.jsonl''
      in \<lparr>js_path = p, js_entries = journal_load io jc fs p, js_channel = (if spawned then Some [] else None),
          js_opened = (io_err io ''journal writer'' Open = None)\<rparr>)"

definition writer_send :: "string \<Rightarrow> JournalStore \<Rightarrow> JournalStore" where
  "writer_send line s = s\<lparr>js_channel := map_option (\<lambda>q. q @ [line]) (js_channel s)\<rparr>"

definition journal_append :: "JournalCodec \<Rightarrow> JournalEnvelope \<Rightarrow> JournalStore \<Rightarrow> JournalStore" where
  "journal_append jc e s =
     (let s1 = (case jc_encode jc e of Some line \<Rightarrow> writer_send line s | None \<Rightarrow> s) in s1\<lparr>js_entries := js_entries s1 @ [e]\<rparr>)"

definition cache_envelope :: "JournalEnvelope \<Rightarrow> JournalStore \<Rightarrow> JournalStore" where
  "cache_envelope e s = s\<lparr>js_entries := js_entries s @ [e]\<rparr>"

text \<open>One round of the writer's loop: nothing to do, or the next line. Without the file, lines are received and discarded.\<close>

definition writer_round :: "Io \<Rightarrow> JournalStore \<times> fs \<Rightarrow> JournalStore \<times> fs" where
  "writer_round io st =
     (case st of
        (s, fs) \<Rightarrow>
          (case js_channel s of
             Some (line # q) \<Rightarrow>
               (let s1 = s\<lparr>js_channel := Some q\<rparr>; old = (case fs (js_path s) of Some c \<Rightarrow> c | None \<Rightarrow> [])
                in if \<not> js_opened s then (s1, fs)
                   else case io_err io ''journal writer'' Write of
                          Some _ \<Rightarrow> (s1, fs(js_path s \<mapsto> old @ take (io_part io ''journal writer'') (line @ [NL])))
                        | None \<Rightarrow> (s1, fs(js_path s \<mapsto> old @ line @ [NL])))
           | _ \<Rightarrow> (s, fs)))"

definition last_matches :: "nat option \<Rightarrow> 'a list \<Rightarrow> 'a list" where
  "last_matches n hits = (case n of Some k \<Rightarrow> drop (length hits - k) hits | None \<Rightarrow> hits)"

definition journal_query :: "JournalClock \<Rightarrow> JournalStore \<Rightarrow> JournalFilter \<Rightarrow> JournalEnvelope list" where
  "journal_query jk s f = last_matches (jf_last_n f) (filter (filter_matches jk f) (js_entries s))"

definition journal_query_indexed :: "JournalClock \<Rightarrow> JournalStore \<Rightarrow> JournalFilter \<Rightarrow> (nat \<times> JournalEnvelope) list" where
  "journal_query_indexed jk s f =
     last_matches (jf_last_n f)
       (map (\<lambda>(idx, e). (idx + 1, e)) (filter (\<lambda>(_, e). filter_matches jk f e) (zip [0..<length (js_entries s)] (js_entries s))))"

text \<open>\<^verbatim>\<open>Drop\<close>: the sender goes first, so the writer ends once it has taken what is in the channel, and the drop waits for it.\<close>

definition journal_drop :: "Io \<Rightarrow> JournalStore \<times> fs \<Rightarrow> JournalStore \<times> fs" where
  "journal_drop io st = ((writer_round io) ^^ (case js_channel (fst st) of Some q \<Rightarrow> length q | None \<Rightarrow> 0)) st"

section \<open>Denials reach the prompt\<close>

text \<open>What the cage rules is shown where it matters: the record of a verdict becomes a line above the prompt exactly when the
command belongs to a job of this shell and was denied, or was allowed by a named capability. A denial of a job's command is never silent.
\<close>

lemma verdict_notified_iff:
  "notification_for (stamp_routing h (build_envelope now command verdict capability rule)) \<noteq> None \<longleftrightarrow>
     Option.bind (h_env h ''ORKIA_JOB_ID'') parse_u32 \<noteq> None \<and> (verdict = Deny \<or> verdict = Allow \<and> capability \<noteq> None)"
  by (cases verdict; cases capability)
    (auto simp: notification_for_def stamp_routing_def build_envelope_def envelope_now_def render_hook_def render_verdict_def
      extra_str_def json_as_str_def json_opt_str_def or_str_def split: option.splits)

section \<open>No event is lost\<close>

datatype JournalStep = J_Append JournalEnvelope | J_Tee JournalEnvelope | J_Cache JournalEnvelope | J_Write

text \<open>The shell's appends, the listener's direct sends, the shell's cache updates and the writer's rounds, in whatever order they come.\<close>

definition journal_step :: "JournalCodec \<Rightarrow> JournalStore \<times> fs \<Rightarrow> JournalStep \<Rightarrow> JournalStore \<times> fs" where
  "journal_step jc st step =
     (case step of
        J_Append e \<Rightarrow> (journal_append jc e (fst st), snd st)
      | J_Tee e \<Rightarrow> (case jc_encode jc e of Some line \<Rightarrow> (writer_send line (fst st), snd st) | None \<Rightarrow> st)
      | J_Cache e \<Rightarrow> (cache_envelope e (fst st), snd st)
      | J_Write \<Rightarrow> writer_round io_fine st)"

definition sent :: "JournalStep \<Rightarrow> JournalEnvelope list" where
  "sent step = (case step of J_Append e \<Rightarrow> [e] | J_Tee e \<Rightarrow> [e] | _ \<Rightarrow> [])"

definition journal_codec_ok :: "JournalCodec \<Rightarrow> JournalEnvelope \<Rightarrow> bool" where
  "journal_codec_ok jc e \<longleftrightarrow>
     (\<exists>l. jc_encode jc e = Some l \<and> jc_decode jc l = Some e \<and> trim l \<noteq> [] \<and> NL \<notin> set l \<and> \<not> suffix [CHR 0x0D] l)"

text \<open>The invariant: what is on disk, followed by what waits in the channel, is everything sent, in order.\<close>

definition journal_inv :: "JournalCodec \<Rightarrow> path \<Rightarrow> string list \<Rightarrow> JournalEnvelope list \<Rightarrow> JournalStore \<times> fs \<Rightarrow> bool" where
  "journal_inv jc p init es st =
     (case st of
        (s, fs) \<Rightarrow>
          js_path s = p \<and> js_opened s \<and>
          (\<exists>c. (case fs p of Some t \<Rightarrow> t | None \<Rightarrow> []) = c \<and> log_closed c \<and>
            (\<exists>q. js_channel s = Some q \<and> set q \<subseteq> (\<lambda>e. the (jc_encode jc e)) ` Collect (journal_codec_ok jc) \<and>
              str_lines c @ q = init @ map (\<lambda>e. the (jc_encode jc e)) es)))"

lemma journal_codec_okD:
  assumes "journal_codec_ok jc e"
  shows "jc_encode jc e = Some (the (jc_encode jc e))" and "jc_decode jc (the (jc_encode jc e)) = Some e"
    and "trim (the (jc_encode jc e)) \<noteq> []" and "NL \<notin> set (the (jc_encode jc e))" and "\<not> suffix [CHR 0x0D] (the (jc_encode jc e))"
  using assms unfolding journal_codec_ok_def by (metis option.sel)+

lemma writer_round_inv:
  assumes "journal_inv jc p init es (s, fs)"
  shows "journal_inv jc p init es (writer_round io_fine (s, fs))"
proof -
  obtain c q where c: "js_path s = p" "js_opened s" "(case fs p of Some t \<Rightarrow> t | None \<Rightarrow> []) = c" "log_closed c"
    "js_channel s = Some q" "set q \<subseteq> (\<lambda>e. the (jc_encode jc e)) ` Collect (journal_codec_ok jc)" "str_lines c @ q = init @ map (\<lambda>e. the (jc_encode jc e)) es"
    using assms by (auto simp: journal_inv_def)
  show ?thesis
  proof (cases q)
    case Nil
    then show ?thesis using assms c by (simp add: writer_round_def)
  next
    case (Cons l q')
    then obtain e where l: "l = the (jc_encode jc e)" "journal_codec_ok jc e" using c(6) by auto
    have "str_lines (c @ l @ [NL]) = str_lines c @ [l]"
      unfolding l(1) by (rule str_lines_snoc [OF c(4) journal_codec_okD(4,5) [OF l(2)]])
    moreover have "writer_round io_fine (s, fs) = (s\<lparr>js_channel := Some q'\<rparr>, fs(p \<mapsto> c @ l @ [NL]))"
      using c Cons by (simp add: writer_round_def io_fine_def Let_def)
    ultimately show ?thesis using c Cons by (simp add: journal_inv_def log_closed_def)
  qed
qed

lemma journal_step_inv:
  assumes "journal_inv jc p init es st" and ok: "\<forall>e \<in> set (sent step). journal_codec_ok jc e"
  shows "journal_inv jc p init (es @ sent step) (journal_step jc st step)"
proof -
  obtain s fs where st: "st = (s, fs)" by fastforce
  have sendl: "journal_inv jc p init (es @ [e]) (writer_send (the (jc_encode jc e)) s, fs)" if "journal_codec_ok jc e" for e
    using assms(1) that by (auto simp: st journal_inv_def writer_send_def)
  have memo: "journal_inv jc p init xs (s'\<lparr>js_entries := ys\<rparr>, fs)" if "journal_inv jc p init xs (s', fs)" for xs ys s'
    using that by (simp add: journal_inv_def)
  show ?thesis
  proof (cases step)
    case (J_Append e)
    then have "journal_codec_ok jc e" using ok by (simp add: sent_def)
    moreover from this obtain l where "jc_encode jc e = Some l" by (auto simp: journal_codec_ok_def)
    ultimately show ?thesis using J_Append memo [OF sendl [of e]] by (simp add: st journal_step_def journal_append_def sent_def Let_def)
  next
    case (J_Tee e)
    then have "journal_codec_ok jc e" using ok by (simp add: sent_def)
    moreover from this obtain l where "jc_encode jc e = Some l" by (auto simp: journal_codec_ok_def)
    ultimately show ?thesis using J_Tee sendl [of e] by (simp add: st journal_step_def sent_def)
  next
    case (J_Cache e)
    then show ?thesis using memo assms(1) by (simp add: st journal_step_def cache_envelope_def sent_def)
  next
    case J_Write
    then show ?thesis using writer_round_inv assms(1) by (simp add: st journal_step_def sent_def)
  qed
qed

lemma journal_steps_inv:
  "journal_inv jc p init es st \<Longrightarrow> \<forall>e \<in> set (concat (map sent steps)). journal_codec_ok jc e \<Longrightarrow>
   journal_inv jc p init (es @ concat (map sent steps)) (foldl (journal_step jc) st steps)"
proof (induction steps arbitrary: es st)
  case (Cons x steps)
  then have "journal_inv jc p init (es @ sent x) (journal_step jc st x)" by (intro journal_step_inv) auto
  from Cons.IH [OF this] Cons.prems(2) show ?case by simp
qed simp

lemma writer_rounds_inv:
  "journal_inv jc p init es st \<Longrightarrow> js_channel (fst st) = Some q \<Longrightarrow> length q = n \<Longrightarrow>
    journal_inv jc p init es ((writer_round io_fine ^^ n) st) \<and> js_channel (fst ((writer_round io_fine ^^ n) st)) = Some []"
proof (induction n arbitrary: st q)
  case (Suc n)
  obtain s fs where st: "st = (s, fs)" by fastforce
  obtain l q' where q: "q = l # q'" using Suc.prems(3) by (cases q) auto
  have "journal_inv jc p init es (writer_round io_fine st)" using writer_round_inv Suc.prems(1) st by simp
  moreover have "js_channel (fst (writer_round io_fine st)) = Some q'"
    using Suc.prems(1,2) st q by (auto simp: writer_round_def journal_inv_def io_fine_def Let_def)
  ultimately show ?case using Suc.IH [of "writer_round io_fine st" q'] Suc.prems(3) q by (simp add: funpow_swap1)
qed auto

lemma decode_journal:
  assumes "\<forall>e \<in> set es. journal_codec_ok jc e"
  shows "List.map_filter (jc_decode jc) (filter (\<lambda>l. trim l \<noteq> []) (ls @ map (\<lambda>e. the (jc_encode jc e)) es)) =
    List.map_filter (jc_decode jc) (filter (\<lambda>l. trim l \<noteq> []) ls) @ es"
proof -
  have "List.map_filter (jc_decode jc) (filter (\<lambda>l. trim l \<noteq> []) (map (\<lambda>e. the (jc_encode jc e)) es)) = es"
    using assms journal_codec_okD by (induction es) (auto simp: List.map_filter_simps)
  then show ?thesis by (simp add: List.map_filter_def)
qed


definition sample_event :: JournalEnvelope where
  "sample_event = envelope_now ''now'' Lifecycle"

definition one_event_codec :: JournalCodec where
  "one_event_codec = \<lparr>jc_encode = \<lambda>_. Some ''e'', jc_decode = \<lambda>_. Some sample_event\<rparr>"


section \<open>Where the bounds are bytes\<close>

text \<open>How many bytes a character of a JSON string takes as the library prints it.\<close>

definition json_char_len :: "char \<Rightarrow> int" where
  "json_char_len c =
     (let n = (of_char c :: nat)
      in if c = DQ \<or> c = BS \<or> n = 8 \<or> n = 9 \<or> n = 10 \<or> n = 12 \<or> n = 13 then 2
         else if n < 32 then 6 else if n < 128 then 1 else 2)"

definition json_str_len :: "string \<Rightarrow> int" where
  "json_str_len s = 2 + sum_list (map json_char_len s)"

text \<open>A final message within its bound of half a journal line can alone be longer than a line once its line breaks are escaped, and one of short
  non-ASCII words is marked as cut although nothing was.\<close>

lemma escaped_message_exceeds_line:
  "hook_extra (JObj [(''last_assistant_message'', JStr (replicate 131072 NL))]) ''last_assistant_message'' = Some (JStr (replicate 131072 NL)) \<and>
   JOURNAL_LINE_MAX_BYTES < json_str_len (replicate 131072 NL)"
proof -
  have "utf8_len (replicate n NL) = int n" "json_str_len (replicate n NL) = 2 + 2 * int n" for n
    by (simp_all add: utf8_len_def json_str_len_def json_char_len_def sum_list_replicate)
  then show ?thesis
    by (simp add: hook_extra_def get_str_def json_get_def json_as_str_def STOP_FINAL_MESSAGE_MAX_BYTES_def JOURNAL_LINE_MAX_BYTES_def)
qed

lemma short_text_marked_cut: "truncate_bytes (replicate 40 (CHR 0xE9)) 64 = replicate 40 (CHR 0xE9) @ ellipsis"
proof -
  have "utf8_len (replicate n (CHR 0xE9)) = 2 * int n" for n by (simp add: utf8_len_def sum_list_replicate)
  then show ?thesis by (simp add: truncate_bytes_def)
qed

end
