(* ===== verification/Exec_Commands.thy ===== *)
theory Exec_Commands
  imports Exec_Engine History_Store Journal_Store
begin

section \<open>The typed commands\<close>

text \<open>
  Models \<^verbatim>\<open>crates/orkia-shell/src/exec/commands\<close>, \<^verbatim>\<open>convert.rs\<close>, the registry of the seventeen pilots, and the texts of \<^verbatim>\<open>crates/orkia-builtin\<close> they
  print. The host is a record: directory listings, files, the printed form of doubles, dates and nested values, the JSON reader, the process
  environment. A stable sort stands for \<^verbatim>\<open>sort_by\<close>, which promises nothing more for a comparison that is no order. Characters beyond
  U+00FF in the texts are written as the bytes of their UTF-8 encoding.
\<close>

subsection \<open>What the shell shows\<close>

datatype AttentionKind = AK_AgentPrompt | AK_QueuedInput | AK_BlockingApproval | AK_ResourceConflict | AK_AgentMessage

definition attention_kind_str :: "AttentionKind \<Rightarrow> string" where
  "attention_kind_str k =
     (case k of AK_AgentPrompt \<Rightarrow> ''agent_prompt'' | AK_QueuedInput \<Rightarrow> ''queued_input'' | AK_BlockingApproval \<Rightarrow> ''blocking_approval''
      | AK_ResourceConflict \<Rightarrow> ''resource_conflict'' | AK_AgentMessage \<Rightarrow> ''agent_message'')"

datatype AttentionSeverity = AS_Fresh | AS_Muted | AS_Warning | AS_Overdue | AS_Blocking | AS_Conflict

definition attention_severity_str :: "AttentionSeverity \<Rightarrow> string" where
  "attention_severity_str s =
     (case s of AS_Fresh \<Rightarrow> ''fresh'' | AS_Muted \<Rightarrow> ''muted'' | AS_Warning \<Rightarrow> ''warning'' | AS_Overdue \<Rightarrow> ''overdue'' | AS_Blocking \<Rightarrow> ''blocking''
      | AS_Conflict \<Rightarrow> ''conflict'')"

datatype AttentionAction = AA_Pull | AA_Resolve | AA_Allow | AA_Deny | AA_Inspect | AA_Hold | AA_AbortAgent string | AA_ProceedAnyway

definition attention_action_str :: "AttentionAction \<Rightarrow> string" where
  "attention_action_str a =
     (case a of AA_Pull \<Rightarrow> ''pull'' | AA_Resolve \<Rightarrow> ''resolve'' | AA_Allow \<Rightarrow> ''allow'' | AA_Deny \<Rightarrow> ''deny'' | AA_Inspect \<Rightarrow> ''inspect'' | AA_Hold \<Rightarrow> ''hold''
      | AA_AbortAgent agent \<Rightarrow> ''abort-'' @ agent | AA_ProceedAnyway \<Rightarrow> ''proceed-anyway'')"

record AttentionRow =
  at_id :: "64 word"
  at_job_id :: "32 word option"
  at_agent :: string
  at_kind :: AttentionKind
  at_severity :: AttentionSeverity
  at_age :: string
  at_summary :: string
  at_actions :: "AttentionAction list"

datatype AttentionResolveEffect = AE_None | AE_HoldJob "32 word" | AE_ReleaseJob "32 word" | AE_StopJob "32 word" | AE_Approval "32 word" bool

record AttentionCommandResult =
  ar_rows :: "AttentionRow list"
  ar_message :: "string option"
  ar_effect :: AttentionResolveEffect

record AttentionControl =
  ac_pull :: AttentionCommandResult
  ac_resolve :: "64 word \<Rightarrow> string \<Rightarrow> AttentionCommandResult"

datatype CellStyle = CS_Plain | CS_Dim | CS_Good | CS_Warn | CS_Bad | CS_Accent

record StyledCell =
  sc_text :: string
  sc_style :: CellStyle

datatype BlockContent =
    B_Text string
  | B_AgentMessage string string
  | B_ToolCall string string string "64 word" string
  | B_Approval string string string
  | B_Attention "AttentionRow list" "string option"
  | B_SealRecord "64 word" string string string
  | B_TableRow "StyledCell list"
  | B_Notice CellStyle string
  | B_SystemInfo string
  | B_Error string

text \<open>Blocks as lines; the debug form of the kinds that no generator emits is the host's.\<close>

definition blocks_to_lines :: "(BlockContent \<Rightarrow> string) \<Rightarrow> BlockContent list \<Rightarrow> string list" where
  "blocks_to_lines debug blocks =
     map (\<lambda>b. case b of
            B_Text s \<Rightarrow> s
          | B_SystemInfo s \<Rightarrow> s
          | B_Error s \<Rightarrow> s
          | B_SealRecord n agent event hash_short \<Rightarrow> ''#'' @ show_nat (unat n) @ '' '' @ agent @ '' '' @ event @ '' '' @ hash_short
          | other \<Rightarrow> debug other) blocks"

definition blocks_to_value :: "(BlockContent \<Rightarrow> string) \<Rightarrow> BlockContent list \<Rightarrow> 'f Value" where
  "blocks_to_value debug blocks = V_List (map V_String (blocks_to_lines debug blocks))"

definition em_dash :: string where "em_dash = [CHR 0xE2, CHR 0x80, CHR 0x94]"

definition help_blocks :: "BlockContent list" where
  "help_blocks =
     [B_SystemInfo ('' ORKIA SHELL '' @ em_dash @ '' the process manager for the agent era''),
      B_SystemInfo '' AUGMENTED COMMANDS (Unix + agents)'',
      B_Text ''   ps                  processes and agent jobs'',
      B_Text ''   jobs                bash-style list of background jobs'',
      B_Text ''   kill <target>       send a signal to a job (accepts %N) or process'',
      B_Text ''   stop <target>       graceful stop of a job'',
      B_Text ''   fg <target>         foreground a job (accepts %N, %+, %-, %prefix)'',
      B_Text ''   bg <target>         background a job (accepts %N)'',
      B_Text ''   wait [target]       block until job(s) complete'',
      B_Text ''   history             command and agent history'',
      B_SystemInfo '' AGENTIC COMMANDS'',
      B_Text ''   run <cmd>           spawn a background job'',
      B_Text ''   attach <target>     foreground an agent job (@name, %N)'',
      B_Text ''   detach              detach from foreground (also Ctrl-Z)'',
      B_Text ''   tell <target> <msg> send a message to a running agent'',
      B_Text ''   approve / deny      handle agent approvals'',
      B_Text ''   attention           inspect prompt-detector state'',
      B_Text ''   orkia route         agent routing table'',
      B_Text ''   agent               manage agent definitions'',
      B_Text ''   connect / disconnect     backend connection'',
      B_SystemInfo '' OBSERVABILITY'',
      B_Text ''   journal             unified event journal (hooks/tells/lifecycle)'',
      B_Text ''   operator            monitor local/cross-session drift'',
      B_Text ''   operator ask <q>    grounded projection over reasoning/journal evidence'',
      B_Text ''   operator open <ref> resolve projection citations (--json supported)'',
      B_Text ''   audit               verify the Shell Audit Log chain'',
      B_SystemInfo '' WORKFLOW'',
      B_Text ''   rfc                 manage RFCs and delegate to agents'',
      B_Text ''   issue               manage issues'',
      B_Text ''   project             manage projects'',
      B_Text ''   brief / briefing    briefs and session reports'',
      B_SystemInfo '' TEAM'',
      B_Text ''   team ls             list teams in current workspace'',
      B_Text ''   team show <id>      team details and member list'',
      B_Text ''   team create <id>    create a new team (admin)'',
      B_Text ''   team rm <id>        delete a team (owner)'',
      B_Text ''   team cd <id>        set current team scope'',
      B_Text ''   team pwd            show current team'',
      B_Text ''   team refresh        re-bootstrap the local team cache'',
      B_Text ''   invite create <email>   invite a user (admin)'',
      B_Text ''   invite ls           list pending invites (admin)'',
      B_Text ''   invite revoke <n>   revoke a pending invite'',
      B_Text ''   invite accept <n>   accept an invite (auto-switches workspace)'',
      B_Text ''   members ls          list members (workspace or --team)'',
      B_Text ''   members add <id>    add a member (--role R [--team T])'',
      B_Text ''   members rm <id>     remove a member ([--team T])'',
      B_Text (''   members role <id>   change a member'' @ [SQ] @ ''s role''),
      B_Text ''   share project <p> <ws>   share a project to another workspace'',
      B_Text ''   share issue <i> <ws>     share an issue'',
      B_Text ''   share unshare ...        reverse a share'',
      B_Text ''   share ls            list shared projects/issues'',
      B_Text ''   leave               leave the current workspace'',
      B_SystemInfo '' SHELL'',
      B_Text ''   tui                 switch to TUI mode'',
      B_Text ''   config              shell configuration'',
      B_Text ''   setup               first-time setup'',
      B_Text ''   version             shell version'',
      B_Text ''   help                this help'',
      B_SystemInfo '' DELEGATION'',
      B_Text ''   @agent message      delegate directly to a named agent'',
      B_Text ''   @a cmd | @b cmd     pipeline between agents'',
      B_Text ''   natural language    auto-classified and routed'',
      B_SystemInfo '' PASSTHROUGH'',
      B_Text ''   !command            force system shell execution'',
      B_Text ''   any $PATH command   auto-detected and passed through'',
      B_SystemInfo ('' The '' @ [SQ] @ ''orkia'' @ [SQ] @ '' prefix forces the builtin; bare collidable names (ps, log, login, route) extend their system twins.'')]"

definition version_blocks :: "string \<Rightarrow> BlockContent list" where
  "version_blocks pkg_version = [B_SystemInfo (''orkia v'' @ pkg_version)]"

definition route_blocks :: "BlockContent list" where
  "route_blocks =
     [B_SystemInfo ('' ROUTING TABLE '' @ em_dash @ '' no learned rules yet''),
      B_Text '' route add     add a manual rule'',
      B_Text '' route suspend suspend a rule'',
      B_Text '' route reset   clear learned rules'']"

definition briefing_blocks :: "BlockContent list" where
  "briefing_blocks = [B_SystemInfo ''no sessions recorded yet'']"

subsection \<open>The context of a command\<close>

datatype AgentStatus = Agent_Idle | Agent_Working | Agent_Waiting | Agent_Error

record AgentInfo =
  ai_name :: string
  ai_archetype :: string
  ai_status :: AgentStatus
  ai_model :: string

record AuthView =
  av_whoami_lines :: "string list"
  av_plan_lines :: "string list"

datatype FileKind = FK_Dir | FK_Symlink | FK_File

record DirEntry =
  de_name :: string
  de_meta :: "(nat \<times> int option \<times> FileKind) option"

record 'f CommandHost =
  ho_io :: Io
  ho_fs :: fs
  ho_read_dir :: "path \<Rightarrow> (string, (string, DirEntry) result list) result"
  ho_env :: "string \<Rightarrow> string option"
  ho_pkg_version :: string
  ho_debug :: "BlockContent \<Rightarrow> string"
  ho_float_text :: "'f \<Rightarrow> string"
  ho_date_text :: "int \<Rightarrow> string"
  ho_nested_text :: "'f Value \<Rightarrow> string"
  ho_lossy :: "string \<Rightarrow> string"
  ho_json :: "string \<Rightarrow> (string, 'f Wire) result"
  ho_hhmm :: "string \<Rightarrow> string option"
  ho_history :: HistoryCodec
  ho_journal :: JournalCodec
  ho_clock :: JournalClock
  ho_reserve :: "nat \<Rightarrow> bool"

record 'f CommandCtx =
  cx_host :: "'f CommandHost"
  cx_cwd :: path
  cx_data_dir :: path
  cx_agents :: "AgentInfo list"
  cx_jobs :: "JobInfo list"
  cx_auth :: "AuthView option"
  cx_attention :: "AttentionRow list"
  cx_attention_control :: "AttentionControl option"
  cx_capabilities :: CapabilitySet

type_synonym 'f Pilot = "('f CommandCtx, 'f) Command"

subsection \<open>Values as text\<close>

definition scalar_to_string :: "'f CommandHost \<Rightarrow> 'f Value \<Rightarrow> string" where
  "scalar_to_string ho v =
     (case v of
        V_Nothing \<Rightarrow> []
      | V_Bool b \<Rightarrow> if b then ''true'' else ''false''
      | V_Int i \<Rightarrow> show_int i
      | V_Filesize i \<Rightarrow> show_int i
      | V_Duration i \<Rightarrow> show_int i
      | V_Float f \<Rightarrow> ho_float_text ho f
      | V_Date d \<Rightarrow> ho_date_text ho d
      | V_String s \<Rightarrow> s
      | V_Binary b \<Rightarrow> ho_lossy ho b
      | V_List _ \<Rightarrow> ho_nested_text ho v
      | V_Record _ \<Rightarrow> ho_nested_text ho v)"

definition replace_char :: "char \<Rightarrow> string \<Rightarrow> string \<Rightarrow> string" where
  "replace_char c r s = concat (map (\<lambda>d. if d = c then r else [d]) s)"

definition escape_tsv_cell :: "string \<Rightarrow> string" where
  "escape_tsv_cell s = replace_char NL [BS, CHR ''n''] (replace_char (CHR 0x09) [BS, CHR ''t''] (replace_char BS [BS, BS] s))"

fun value_to_lines :: "'f CommandHost \<Rightarrow> 'f Value \<Rightarrow> string" where
  "value_to_lines ho (V_Record m) = join [CHR 0x09] (map (\<lambda>(_, v). escape_tsv_cell (scalar_to_string ho v)) m) @ [NL]"
| "value_to_lines ho (V_List items) = concat (map (value_to_lines ho) items)"
| "value_to_lines ho v = scalar_to_string ho v @ [NL]"

definition value_to_bytes :: "'f CommandHost \<Rightarrow> 'f PipelineData \<Rightarrow> (ExecError, string) result list" where
  "value_to_bytes ho d =
     (case d of
        Pipe_Bytes stream \<Rightarrow> stream
      | Pipe_Empty \<Rightarrow> []
      | Pipe_Value v \<Rightarrow> [Ok (value_to_lines ho v)]
      | Pipe_List stream \<Rightarrow> map (\<lambda>item. case item of Inl e \<Rightarrow> Err e | Inr v \<Rightarrow> Ok (value_to_lines ho v)) stream)"

subsection \<open>Predicates\<close>

datatype CmpOp = Op_Eq | Op_Ne | Op_Gt | Op_Lt | Op_Ge | Op_Le

datatype 'f Predicate = P_Or "'f Predicate" "'f Predicate" | P_And "'f Predicate" "'f Predicate" | P_Cmp string CmpOp "'f Value"

datatype Lexeme = L_Word string | L_Op CmpOp | L_And | L_Or

definition is_op_char :: "char \<Rightarrow> bool" where
  "is_op_char c \<longleftrightarrow> c \<in> {CHR ''>'', CHR ''<'', CHR ''='', CHR ''!''}"

definition op_from :: "string \<Rightarrow> CmpOp option" where
  "op_from symbol =
     (if symbol = ''=='' \<or> symbol = ''='' then Some Op_Eq
      else if symbol = ''!='' then Some Op_Ne
      else if symbol = ''>='' then Some Op_Ge
      else if symbol = ''<='' then Some Op_Le
      else if symbol = ''>'' then Some Op_Gt
      else if symbol = ''<'' then Some Op_Lt
      else None)"

definition flush_op :: "string \<Rightarrow> (string, Lexeme) result" where
  "flush_op symbol = (case op_from symbol of Some cmp \<Rightarrow> Ok (L_Op cmp) | None \<Rightarrow> Err (''unknown operator `'' @ symbol @ ''`''))"

fun lex_token_loop :: "string \<Rightarrow> string \<Rightarrow> string \<Rightarrow> Lexeme list \<Rightarrow> (string, Lexeme list) result" where
  "lex_token_loop word symbol [] out =
     and_then (if symbol = [] then Ok out else and_then (flush_op symbol) (\<lambda>l. Ok (out @ [l]))) (\<lambda>out'.
       Ok (if word = [] then out' else out' @ [L_Word word]))"
| "lex_token_loop word symbol (c # cs) out =
     (if is_op_char c
      then lex_token_loop [] (symbol @ [c]) cs (if word = [] then out else out @ [L_Word word])
      else if symbol = [] then lex_token_loop (word @ [c]) [] cs out
      else case flush_op symbol of Inl e \<Rightarrow> Err e | Inr l \<Rightarrow> lex_token_loop (word @ [c]) [] cs (out @ [l]))"

definition lex_token :: "string \<Rightarrow> Lexeme list \<Rightarrow> (string, Lexeme list) result" where
  "lex_token token out = lex_token_loop [] [] token out"

fun lex_loop :: "string list \<Rightarrow> Lexeme list \<Rightarrow> (string, Lexeme list) result" where
  "lex_loop [] out = Ok out"
| "lex_loop (token # tokens) out =
     (if token = ''and'' then lex_loop tokens (out @ [L_And])
      else if token = ''or'' then lex_loop tokens (out @ [L_Or])
      else case lex_token token out of Inl e \<Rightarrow> Err e | Inr out' \<Rightarrow> lex_loop tokens out')"

definition lex :: "string list \<Rightarrow> (string, Lexeme list) result" where
  "lex tokens = lex_loop tokens []"

text \<open>The parser, on what is left of the lexemes.\<close>

definition parse_cmp :: "'f FloatOps \<Rightarrow> Lexeme list \<Rightarrow> (string, 'f Predicate \<times> Lexeme list) result" where
  "parse_cmp fo ls =
     (case ls of
        L_Word field # rest \<Rightarrow>
          (case rest of
             L_Op cmp # rest' \<Rightarrow>
               (case rest' of
                  L_Word w # rest'' \<Rightarrow> Ok (P_Cmp field cmp (infer_literal fo w), rest'')
                | _ \<Rightarrow> Err (''expected a value after `'' @ field @ ''`''))
           | _ \<Rightarrow> Err (''expected an operator after `'' @ field @ ''`''))
      | _ \<Rightarrow> Err ''expected a field name'')"

lemma parse_cmp_shorter: "parse_cmp fo ls = Ok (p, rest) \<Longrightarrow> length rest < length ls"
  by (auto simp: parse_cmp_def split: list.splits Lexeme.splits)

function parse_and_loop :: "'f FloatOps \<Rightarrow> 'f Predicate \<Rightarrow> Lexeme list \<Rightarrow> (string, 'f Predicate \<times> Lexeme list) result" where
  "parse_and_loop fo left ls =
     (case ls of
        L_And # rest \<Rightarrow>
          (case parse_cmp fo rest of
             Inl e \<Rightarrow> Err e
           | Inr (right, rest') \<Rightarrow> parse_and_loop fo (P_And left right) rest')
      | _ \<Rightarrow> Ok (left, ls))"
  by auto
termination
  by (relation "measure (\<lambda>(_, _, ls). length ls)") (auto dest: parse_cmp_shorter)

declare parse_and_loop.simps [simp del]

definition parse_and :: "'f FloatOps \<Rightarrow> Lexeme list \<Rightarrow> (string, 'f Predicate \<times> Lexeme list) result" where
  "parse_and fo ls = and_then (parse_cmp fo ls) (\<lambda>(left, rest). parse_and_loop fo left rest)"

lemma parse_and_loop_shorter: "parse_and_loop fo left ls = Ok (p, rest) \<Longrightarrow> length rest \<le> length ls"
proof (induction fo left ls arbitrary: p rest rule: parse_and_loop.induct)
  case (1 fo left ls)
  show ?case
  proof (cases "\<exists>rest'. ls = L_And # rest'")
    case True
    then obtain ms where ls: "ls = L_And # ms" by blast
    with 1(2) obtain r ms' where c: "parse_cmp fo ms = Ok (r, ms')" "parse_and_loop fo (P_And left r) ms' = Ok (p, rest)"
      by (subst (asm) parse_and_loop.simps) (auto split: sum.splits)
    show ?thesis using 1(1) [OF ls refl c(1) refl c(2)] parse_cmp_shorter [OF c(1)] ls by simp
  next
    case False
    then show ?thesis using 1(2) by (subst (asm) parse_and_loop.simps) (auto split: list.splits Lexeme.splits)
  qed
qed

lemma parse_and_shorter: "parse_and fo ls = Ok (p, rest) \<Longrightarrow> length rest < length ls"
  by (auto simp: parse_and_def and_then_Ok_iff dest!: parse_cmp_shorter parse_and_loop_shorter)

function parse_or_loop :: "'f FloatOps \<Rightarrow> 'f Predicate \<Rightarrow> Lexeme list \<Rightarrow> (string, 'f Predicate \<times> Lexeme list) result" where
  "parse_or_loop fo left ls =
     (case ls of
        L_Or # rest \<Rightarrow>
          (case parse_and fo rest of
             Inl e \<Rightarrow> Err e
           | Inr (right, rest') \<Rightarrow> parse_or_loop fo (P_Or left right) rest')
      | _ \<Rightarrow> Ok (left, ls))"
  by auto
termination
  by (relation "measure (\<lambda>(_, _, ls). length ls)") (auto dest: parse_and_shorter)

declare parse_or_loop.simps [simp del]

definition parse_or :: "'f FloatOps \<Rightarrow> Lexeme list \<Rightarrow> (string, 'f Predicate \<times> Lexeme list) result" where
  "parse_or fo ls = and_then (parse_and fo ls) (\<lambda>(left, rest). parse_or_loop fo left rest)"

definition predicate_parse :: "'f FloatOps \<Rightarrow> string list \<Rightarrow> (string, 'f Predicate) result" where
  "predicate_parse fo tokens =
     (if tokens = [] then Err ''empty predicate''
      else and_then (lex tokens) (\<lambda>lexemes.
             and_then (parse_or fo lexemes) (\<lambda>(predicate, rest).
               (if rest \<noteq> [] then Err ''trailing tokens in predicate'' else Ok predicate))))"

definition ordering_matches :: "CmpOp \<Rightarrow> Ord \<Rightarrow> bool" where
  "ordering_matches cmp ord =
     (case cmp of Op_Gt \<Rightarrow> ord = Ord_Greater | Op_Lt \<Rightarrow> ord = Ord_Less | Op_Ge \<Rightarrow> ord \<noteq> Ord_Less | Op_Le \<Rightarrow> ord \<noteq> Ord_Greater | _ \<Rightarrow> False)"

fun predicate_eval :: "'f FloatOps \<Rightarrow> 'f Predicate \<Rightarrow> 'f Value \<Rightarrow> bool" where
  "predicate_eval fo (P_Or a b) r = (predicate_eval fo a r \<or> predicate_eval fo b r)"
| "predicate_eval fo (P_And a b) r = (predicate_eval fo a r \<and> predicate_eval fo b r)"
| "predicate_eval fo (P_Cmp field cmp rhs) r =
     (case get_path field r of
        None \<Rightarrow> False
      | Some lhs \<Rightarrow>
         (case cmp of
            Op_Eq \<Rightarrow> value_eq (fo_eq fo) lhs rhs
          | Op_Ne \<Rightarrow> \<not> value_eq (fo_eq fo) lhs rhs
          | _ \<Rightarrow> (case compare fo lhs rhs of Some ord \<Rightarrow> ordering_matches cmp ord | None \<Rightarrow> False)))"

subsection \<open>Tables in, tables out\<close>

definition string_args :: "'f EvaluatedCall \<Rightarrow> string list" where
  "string_args call = List.map_filter (\<lambda>v. case v of V_String s \<Rightarrow> Some s | _ \<Rightarrow> None) (ec_positional call)"

definition where_cmd :: "'f FloatOps \<Rightarrow> 'f Pilot" where
  "where_cmd fo =
     \<lparr>cmd_signature = (signature_of ''where'' Ty_Table Ty_Table)
        \<lparr>sig_rest := Some (pos_arg ''predicate'' Ty_String ''filter expression, e.g. `size > 1mb and type == file`'')\<rparr>,
      cmd_run = \<lambda>ctx call input.
        (case predicate_parse fo (string_args call) of
           Inl message \<Rightarrow> Err (BadArgs ''where'' message)
         | Inr predicate \<Rightarrow>
            (case input of
               Pipe_List stream \<Rightarrow>
                 Ok (Pipe_List (filter (\<lambda>item. case item of Inl _ \<Rightarrow> True | Inr v \<Rightarrow> predicate_eval fo predicate v) stream))
             | _ \<Rightarrow> Ok Pipe_Empty))\<rparr>"

text \<open>The slots for all rows asked for are reserved first; a count whose slots cannot be reserved panics.\<close>

definition first_cmd :: "'f Pilot" where
  "first_cmd =
     \<lparr>cmd_signature = (signature_of ''first'' Ty_Table Ty_Table)
        \<lparr>sig_optional := [pos_arg ''count'' Ty_Int ''number of rows to take (default 1)'']\<rparr>,
      cmd_run = \<lambda>ctx call input.
        (let count = (case call_opt call 0 of Some (V_Int n) \<Rightarrow> if 0 \<le> n then nat n else 1 | _ \<Rightarrow> 1)
         in if \<not> ho_reserve (cx_host ctx) count then Err (Panicked ''capacity overflow'')
            else and_then (case input of Pipe_List upstream \<Rightarrow> drain (take count upstream) | _ \<Rightarrow> Ok []) (\<lambda>taken.
                   Ok (Pipe_List (map Ok taken))))\<rparr>"

fun compare_by_columns :: "'f FloatOps \<Rightarrow> 'f Value \<Rightarrow> 'f Value \<Rightarrow> string list \<Rightarrow> Ord" where
  "compare_by_columns fo a b [] = Ord_Equal"
| "compare_by_columns fo a b (column # columns) =
     (case (get_path column a, get_path column b) of
        (Some lhs, Some rhs) \<Rightarrow>
          (case compare fo lhs rhs of
             Some Ord_Less \<Rightarrow> Ord_Less
           | Some Ord_Greater \<Rightarrow> Ord_Greater
           | _ \<Rightarrow> compare_by_columns fo a b columns)
      | _ \<Rightarrow> compare_by_columns fo a b columns)"

definition ord_reverse :: "Ord \<Rightarrow> Ord" where
  "ord_reverse r = (case r of Ord_Less \<Rightarrow> Ord_Greater | Ord_Equal \<Rightarrow> Ord_Equal | Ord_Greater \<Rightarrow> Ord_Less)"

text \<open>A stable sort: an element goes before the first one that is not smaller.\<close>

fun insert_by :: "('a \<Rightarrow> 'a \<Rightarrow> Ord) \<Rightarrow> 'a \<Rightarrow> 'a list \<Rightarrow> 'a list" where
  "insert_by cmp x [] = [x]"
| "insert_by cmp x (y # ys) = (if cmp x y = Ord_Greater then y # insert_by cmp x ys else x # y # ys)"

definition stable_sort_by :: "('a \<Rightarrow> 'a \<Rightarrow> Ord) \<Rightarrow> 'a list \<Rightarrow> 'a list" where
  "stable_sort_by cmp xs = foldr (insert_by cmp) xs []"

definition row_order :: "'f FloatOps \<Rightarrow> string list \<Rightarrow> bool \<Rightarrow> 'f Value \<Rightarrow> 'f Value \<Rightarrow> Ord" where
  "row_order fo columns reverse a b =
     (let ordering = compare_by_columns fo a b columns in if reverse then ord_reverse ordering else ordering)"

definition sort_by_cmd :: "'f FloatOps \<Rightarrow> 'f Pilot" where
  "sort_by_cmd fo =
     \<lparr>cmd_signature = (signature_of ''sort-by'' Ty_Table Ty_Table)
        \<lparr>sig_required := [pos_arg ''column'' Ty_String ''column(s) to sort by''],
         sig_rest := Some (pos_arg ''more'' Ty_String ''additional columns''),
         sig_flags := [\<lparr>fl_long = ''reverse'', fl_short = Some (CHR ''r''), fl_takes_arg = None, fl_desc = ''descending order''\<rparr>]\<rparr>,
      cmd_run = \<lambda>ctx call input.
        and_then (into_value input) (\<lambda>v.
          (let rows = (case v of V_List items \<Rightarrow> items | other \<Rightarrow> [other])
           in Ok (Pipe_List (map Ok (stable_sort_by (row_order fo (string_args call) (has_flag call ''reverse'')) rows)))))\<rparr>"

subsection \<open>Bytes in\<close>

fun plain_json_to_value :: "'f FloatOps \<Rightarrow> 'f Wire \<Rightarrow> 'f Value" where
  "plain_json_to_value fo W_Null = V_Nothing"
| "plain_json_to_value fo (W_Bool b) = V_Bool b"
| "plain_json_to_value fo (W_Int i) = (if - (2 ^ 63) \<le> i \<and> i < 2 ^ 63 then V_Int i else V_Float (fo_of_int fo i))"
| "plain_json_to_value fo (W_Float f) = V_Float f"
| "plain_json_to_value fo (W_Str s) = V_String s"
| "plain_json_to_value fo (W_Arr items) = V_List (map (plain_json_to_value fo) items)"
| "plain_json_to_value fo (W_Obj m) = V_Record (map (\<lambda>(k, v). (k, plain_json_to_value fo v)) m)"

definition json_rows :: "'f FloatOps \<Rightarrow> 'f Wire \<Rightarrow> 'f Value list" where
  "json_rows fo parsed = (case parsed of W_Arr items \<Rightarrow> map (plain_json_to_value fo) items | other \<Rightarrow> [plain_json_to_value fo other])"

definition json_bytes :: "'f CommandHost \<Rightarrow> 'f Value \<Rightarrow> string" where
  "json_bytes ho v = (case v of V_Binary b \<Rightarrow> b | V_String s \<Rightarrow> s | V_Nothing \<Rightarrow> [] | other \<Rightarrow> scalar_to_string ho other)"

definition from_json_cmd :: "'f FloatOps \<Rightarrow> 'f Pilot" where
  "from_json_cmd fo =
     \<lparr>cmd_signature = (signature_of ''from'' Ty_ByteStream Ty_Table)
        \<lparr>sig_required := [pos_arg ''format'' Ty_String ''input format (only `json` in V1)'']\<rparr>,
      cmd_run = \<lambda>ctx call input.
        and_then (call_req call 0) (\<lambda>arg.
          (let format = (case arg of V_String s \<Rightarrow> s | _ \<Rightarrow> [])
           in if format \<noteq> ''json'' then Err (BadArgs ''from'' (''unsupported format `'' @ format @ ''` (only `json` is supported)''))
              else and_then (into_value input) (\<lambda>v.
                (case ho_json (cx_host ctx) (json_bytes (cx_host ctx) v) of
                   Inl e \<Rightarrow> Err (BadValue ''from json'' e)
                 | Inr parsed \<Rightarrow> Ok (Pipe_List (map Ok (json_rows fo parsed)))))))\<rparr>"

subsection \<open>Nothing in\<close>

definition cwd_join :: "path \<Rightarrow> string \<Rightarrow> path" where
  "cwd_join cwd p = (if prefix ''/'' p then path_comps p else path_join cwd p)"

definition ls_record :: "DirEntry \<Rightarrow> 'f Value" where
  "ls_record entry =
     (let (bytes, modified, kind) =
        (case de_meta entry of
           Some (n, m, k) \<Rightarrow>
             (V_Filesize (wrap_i64 (int n)), (case m of Some t \<Rightarrow> V_Date t | None \<Rightarrow> V_Nothing),
              V_String (case k of FK_Dir \<Rightarrow> ''dir'' | FK_Symlink \<Rightarrow> ''symlink'' | FK_File \<Rightarrow> ''file''))
         | None \<Rightarrow> (V_Nothing, V_Nothing, V_String ''?''))
      in V_Record [(''name'', V_String (de_name entry)), (''size'', bytes), (''modified'', modified), (''type'', kind)])"

text \<open>The walk ends at the first entry that cannot be read.\<close>

fun ls_items :: "(string, DirEntry) result list \<Rightarrow> (ExecError, 'f Value) result list" where
  "ls_items [] = []"
| "ls_items (Inr entry # es) = Ok (ls_record entry) # ls_items es"
| "ls_items (Inl e # es) = [Err (RuntimeE ''ls'' e)]"

definition ls_cmd :: "'f Pilot" where
  "ls_cmd =
     \<lparr>cmd_signature = (signature_of ''ls'' Ty_Nothing Ty_Table)
        \<lparr>sig_optional := [pos_arg ''path'' Ty_String ''directory to list (default: cwd)'']\<rparr>,
      cmd_run = \<lambda>ctx call input.
        (let p = (case call_opt call 0 of Some (V_String s) \<Rightarrow> cwd_join (cx_cwd ctx) s | _ \<Rightarrow> cx_cwd ctx)
         in case ho_read_dir (cx_host ctx) p of
              Inl e \<Rightarrow> Err (RuntimeE ''ls'' (path_string p @ '': '' @ e))
            | Inr entries \<Rightarrow> Ok (Pipe_List (ls_items entries)))\<rparr>"

definition status_label :: "AgentStatus \<Rightarrow> string" where
  "status_label s = (case s of Agent_Idle \<Rightarrow> ''idle'' | Agent_Working \<Rightarrow> ''working'' | Agent_Waiting \<Rightarrow> ''waiting'' | Agent_Error \<Rightarrow> ''error'')"

definition agent_record :: "AgentInfo \<Rightarrow> 'f Value" where
  "agent_record a =
     V_Record [(''name'', V_String (ai_name a)), (''archetype'', V_String (ai_archetype a)), (''status'', V_String (status_label (ai_status a))),
       (''model'', V_String (ai_model a))]"

definition ps_cmd :: "'f Pilot" where
  "ps_cmd =
     \<lparr>cmd_signature = signature_of ''ps'' Ty_Nothing Ty_Table,
      cmd_run = \<lambda>ctx call input. Ok (Pipe_List (map Ok (map agent_record (cx_agents ctx))))\<rparr>"

definition job_line :: "JobInfo \<Rightarrow> string \<Rightarrow> string" where
  "job_line job marker =
     (let state = (case ji_state job of JS_Running \<Rightarrow> ''Running'' | JS_Foreground \<Rightarrow> ''Running'' | JS_Stopped \<Rightarrow> ''Stopped'' | JS_Done _ \<Rightarrow> ''Done''
        | JS_Failed _ \<Rightarrow> ''Failed'')
      in ''  ['' @ show_id (ji_id job) @ '']'' @ marker @ '' '' @ pad_right 10 state @ '' '' @ ji_label job)"

definition is_shell_job :: "JobInfo \<Rightarrow> bool" where
  "is_shell_job j = (case ji_kind j of JK_Shell _ \<Rightarrow> True | _ \<Rightarrow> False)"

definition lines_value :: "string list \<Rightarrow> 'f PipelineData" where
  "lines_value ls = Pipe_Value (V_List (map V_String ls))"

definition jobs_cmd :: "'f Pilot" where
  "jobs_cmd =
     \<lparr>cmd_signature = signature_of ''jobs'' Ty_Nothing (Ty_List Ty_String),
      cmd_run = \<lambda>ctx call input.
        (let shell_jobs = filter is_shell_job (cx_jobs ctx);
             current = (if shell_jobs = [] then None else Some (ji_id (last shell_jobs)));
             prev = (if length shell_jobs < 2 then None else Some (ji_id (rev shell_jobs ! 1)))
         in Ok (lines_value (map (\<lambda>job.
              job_line job (if Some (ji_id job) = current then ''+'' else if Some (ji_id job) = prev then ''-'' else '' '')) shell_jobs)))\<rparr>"

definition log_cmd :: "'f Pilot" where
  "log_cmd =
     \<lparr>cmd_signature = (signature_of ''log'' Ty_Nothing Ty_String)
        \<lparr>sig_required := [pos_arg ''target'' Ty_String ''job id, %N, or @agent''],
         sig_flags := [\<lparr>fl_long = ''tail'', fl_short = Some (CHR ''n''), fl_takes_arg = Some Ty_Int, fl_desc = ''show only the last N lines''\<rparr>]\<rparr>,
      cmd_run = \<lambda>ctx call input.
        and_then (call_req call 0) (\<lambda>arg.
          (let target = (case arg of V_String s \<Rightarrow> s | other \<Rightarrow> scalar_to_string (cx_host ctx) other)
           in and_then
                (if prefix ''%'' target \<or> prefix ''@'' target
                 then (case resolve_job_target target (cx_jobs ctx) of
                         Some i \<Rightarrow> Ok i
                       | None \<Rightarrow> Err (BadArgs ''log'' (''no job matching '' @ [SQ] @ target @ [SQ])))
                 else (case parse_u32 target of
                         Some i \<Rightarrow> Ok i
                       | None \<Rightarrow> Err (BadArgs ''log'' (''invalid target '' @ [SQ] @ target @ [SQ])))) (\<lambda>id_num.
                (let p = path_join (path_join (path_join (cx_data_dir ctx) ''jobs'') (show_id id_num)) ''output.log''
                 in and_then (require_fs_read (cx_capabilities ctx) ''log'' p) (\<lambda>_.
                      (case (case io_err (ho_io (cx_host ctx)) ''log'' Read of
                               Some e \<Rightarrow> Err e
                             | None \<Rightarrow> (case ho_fs (cx_host ctx) p of Some c \<Rightarrow> Ok c | None \<Rightarrow> Err ''No such file or directory'')) of
                         Inl e \<Rightarrow>
                           Err (RuntimeE ''log'' (''no output log for job '' @ show_id id_num @ '' at '' @ path_string p @ '': '' @ e))
                       | Inr content \<Rightarrow>
                          (let ls = str_lines content;
                               start = (case get_flag call ''tail'' of Some (V_Int n) \<Rightarrow> if 0 \<le> n then length ls - nat n else 0 | _ \<Rightarrow> 0)
                           in Ok (Pipe_Value (V_String (join [NL] (drop start ls)))))))))))\<rparr>"

definition whoami_cmd :: "'f Pilot" where
  "whoami_cmd =
     \<lparr>cmd_signature = signature_of ''whoami'' Ty_Nothing (Ty_List Ty_String),
      cmd_run = \<lambda>ctx call input.
        (let username = (case ho_env (cx_host ctx) ''USER'' of
               Some u \<Rightarrow> u | None \<Rightarrow> (case ho_env (cx_host ctx) ''LOGNAME'' of Some u \<Rightarrow> u | None \<Rightarrow> ''unknown''))
         in Ok (lines_value (username # (case cx_auth ctx of Some a \<Rightarrow> av_whoami_lines a | None \<Rightarrow> []))))\<rparr>"

definition plan_cmd :: "'f Pilot" where
  "plan_cmd =
     \<lparr>cmd_signature = signature_of ''plan'' Ty_Nothing (Ty_List Ty_String),
      cmd_run = \<lambda>ctx call input. Ok (lines_value (case cx_auth ctx of Some a \<Rightarrow> av_plan_lines a | None \<Rightarrow> []))\<rparr>"

text \<open>The four commands that print a fixed text.\<close>

definition text_cmd :: "string \<Rightarrow> ('f CommandHost \<Rightarrow> BlockContent list) \<Rightarrow> 'f Pilot" where
  "text_cmd name blocks =
     \<lparr>cmd_signature = signature_of name Ty_Nothing (Ty_List Ty_String),
      cmd_run = \<lambda>ctx call input. Ok (Pipe_Value (blocks_to_value (ho_debug (cx_host ctx)) (blocks (cx_host ctx))))\<rparr>"

definition help_cmd :: "'f Pilot" where
  "help_cmd = text_cmd ''help'' (\<lambda>_. help_blocks)"

definition version_cmd :: "'f Pilot" where
  "version_cmd = text_cmd ''version'' (\<lambda>ho. version_blocks (ho_pkg_version ho))"

definition route_cmd :: "'f Pilot" where
  "route_cmd = text_cmd ''route'' (\<lambda>_. route_blocks)"

definition briefing_cmd :: "'f Pilot" where
  "briefing_cmd = text_cmd ''briefing'' (\<lambda>_. briefing_blocks)"

definition history_record :: "'f CommandHost \<Rightarrow> HistoryEntry \<Rightarrow> 'f Value" where
  "history_record ho e =
     V_Record [(''seq'', V_Int (sint (he_seq e))), (''time'', V_String (or_str (ho_hhmm ho (he_timestamp e)) ''--:--'')),
       (''type'', V_String (history_type_short (he_entry_type e))), (''command'', V_String (he_line e))]"

definition flag_of :: "string \<Rightarrow> char option \<Rightarrow> Type option \<Rightarrow> string \<Rightarrow> FlagSpec" where
  "flag_of long short takes desc = \<lparr>fl_long = long, fl_short = short, fl_takes_arg = takes, fl_desc = desc\<rparr>"

definition history_cmd :: "'f Pilot" where
  "history_cmd =
     \<lparr>cmd_signature = (signature_of ''history'' Ty_Nothing Ty_Table)
        \<lparr>sig_flags :=
           [flag_of ''limit'' (Some (CHR ''n'')) (Some Ty_Int) ''show only the last N entries (default 20)'',
            flag_of ''shell'' None None ''only shell commands'',
            flag_of ''agents'' None None ''only agent/intent/pipeline entries'',
            flag_of ''approvals'' None None ''only approval entries'',
            flag_of ''search'' None (Some Ty_String) ''substring filter on the command line'']\<rparr>,
      cmd_run = \<lambda>ctx call input.
        (let query = \<lparr>hq_limit = (case get_flag call ''limit'' of Some (V_Int n) \<Rightarrow> if 0 \<le> n then nat n else 20 | _ \<Rightarrow> 20),
               hq_only_shell = has_flag call ''shell'', hq_only_agents = has_flag call ''agents'', hq_only_approvals = has_flag call ''approvals'',
               hq_search = (case get_flag call ''search'' of Some (V_String s) \<Rightarrow> Some s | _ \<Rightarrow> None)\<rparr>;
             entries = load_entries (ho_io (cx_host ctx)) (ho_history (cx_host ctx)) (ho_fs (cx_host ctx)) (cx_data_dir ctx);
             rows = rev (take (hq_limit query) (filter (query_matches query) (rev entries)))
         in Ok (Pipe_Value (V_List (map (history_record (cx_host ctx)) rows))))\<rparr>"

definition envelope_record :: "JournalEnvelope \<Rightarrow> 'f Value" where
  "envelope_record e =
     V_Record [(''timestamp'', V_String (je_timestamp e)), (''type'', V_String (event_type_label (je_event_type e))),
       (''job'', case je_job_id e of Some n \<Rightarrow> V_Int (int (unat n)) | None \<Rightarrow> V_Nothing), (''agent'', V_String (or_str (je_agent e) ''-'')),
       (''summary'', V_String (event_summary e))]"

definition journal_cmd :: "'f Pilot" where
  "journal_cmd =
     \<lparr>cmd_signature = (signature_of ''journal'' Ty_Nothing Ty_Table)
        \<lparr>sig_rest := Some (pos_arg ''args'' Ty_String (''filters (--agent X, --job N, --type T, --event E, --last N, --since '' @ ellipsis @ '')''))\<rparr>,
      cmd_run = \<lambda>ctx call input.
        (let args = map (\<lambda>v. case v of V_String s \<Rightarrow> s | other \<Rightarrow> scalar_to_string (cx_host ctx) other) (ec_positional call)
         in case parse_journal_args (ho_clock (cx_host ctx)) args of
              Inl e \<Rightarrow> Err (BadArgs ''journal'' e)
            | Inr parsed \<Rightarrow>
                if pj_help parsed then Ok (lines_value [journal_help_text])
                else
                  let entries = journal_load_entries (ho_io (cx_host ctx)) (ho_journal (cx_host ctx)) (ho_fs (cx_host ctx)) (cx_data_dir ctx);
                      hits = last_matches (jf_last_n (pj_filter parsed)) (filter (filter_matches (ho_clock (cx_host ctx)) (pj_filter parsed)) entries)
                  in Ok (Pipe_Value (V_List (map envelope_record hits))))\<rparr>"

subsection \<open>Attention\<close>

definition attention_record :: "AttentionRow \<Rightarrow> 'f Value" where
  "attention_record att =
     V_Record [(''id'', V_String (''attn-'' @ show_nat (unat (at_id att)))),
       (''job'', case at_job_id att of Some n \<Rightarrow> V_Int (int (unat n)) | None \<Rightarrow> V_Nothing), (''agent'', V_String (at_agent att)),
       (''kind'', V_String (attention_kind_str (at_kind att))), (''severity'', V_String (attention_severity_str (at_severity att))),
       (''age'', V_String (at_age att)), (''summary'', V_String (at_summary att)),
       (''actions'', V_List (map (\<lambda>a. V_String (attention_action_str a)) (at_actions att)))]"

definition value_str :: "'f Value option \<Rightarrow> string option" where
  "value_str v = (case v of Some (V_String s) \<Rightarrow> Some s | _ \<Rightarrow> None)"

definition parse_attention_id :: "'f Value option \<Rightarrow> 64 word option" where
  "parse_attention_id v =
     Option.bind (value_str v) (\<lambda>raw. map_option of_nat (parse_usize (case strip_prefix ''attn-'' raw of Some r \<Rightarrow> r | None \<Rightarrow> raw)))"

definition effect_debug :: "AttentionResolveEffect \<Rightarrow> string" where
  "effect_debug e =
     (case e of
        AE_None \<Rightarrow> ''None''
      | AE_HoldJob n \<Rightarrow> ''HoldJob('' @ show_id n @ '')''
      | AE_ReleaseJob n \<Rightarrow> ''ReleaseJob('' @ show_id n @ '')''
      | AE_StopJob n \<Rightarrow> ''StopJob('' @ show_id n @ '')''
      | AE_Approval n b \<Rightarrow> ''Approval { job_id: '' @ show_id n @ '', approved: '' @ (if b then ''true'' else ''false'') @ '' }'')"

definition result_to_pipeline :: "AttentionCommandResult \<Rightarrow> 'f PipelineData" where
  "result_to_pipeline r =
     Pipe_Value (V_List ((case ar_message r of Some m \<Rightarrow> [V_String m] | None \<Rightarrow> []) @ map attention_record (ar_rows r) @
       (if ar_effect r = AE_None then [] else [V_String (''effect: '' @ effect_debug (ar_effect r))])))"

definition attention_cmd :: "'f Pilot" where
  "attention_cmd =
     \<lparr>cmd_signature = (signature_of ''attention'' Ty_Nothing Ty_Table)
        \<lparr>sig_optional :=
           [pos_arg ''sub'' Ty_String ''subcommand: list (default), pull, resolve, or help'', pos_arg ''id'' Ty_String ''attention id'',
            pos_arg ''action'' Ty_String ''resolution action'']\<rparr>,
      cmd_run = \<lambda>ctx call input.
        (let sub = or_str (value_str (call_opt call 0)) ''list''; usage = BadArgs ''attention'' ''usage: attention resolve <id> <action>'';
             unavailable = lines_value [''attention coordinator unavailable'']
         in if sub \<in> {''help'', ''--help'', ''-h''} then Ok (lines_value [''attention list | pull | resolve <id> <action>''])
            else if sub = ''list'' then Ok (Pipe_Value (V_List (map attention_record (cx_attention ctx))))
            else if sub = ''pull''
            then Ok (case cx_attention_control ctx of None \<Rightarrow> unavailable | Some control \<Rightarrow> result_to_pipeline (ac_pull control))
            else if sub = ''resolve''
            then (case parse_attention_id (call_opt call 1) of
                    None \<Rightarrow> Err usage
                  | Some i \<Rightarrow>
                     (case value_str (call_opt call 2) of
                        None \<Rightarrow> Err usage
                      | Some action \<Rightarrow>
                          Ok (case cx_attention_control ctx of None \<Rightarrow> unavailable | Some control \<Rightarrow> result_to_pipeline (ac_resolve control i action))))
            else Err (BadArgs ''attention'' (''unknown sub '' @ [SQ] @ sub @ [SQ] @ '' (try '' @ [SQ] @ ''attention list'' @ [SQ] @ '')'')))\<rparr>"

subsection \<open>The registry of the pilots\<close>

definition pilots :: "'f FloatOps \<Rightarrow> 'f Pilot list" where
  "pilots fo =
     [ls_cmd, where_cmd fo, first_cmd, sort_by_cmd fo, from_json_cmd fo, ps_cmd, help_cmd, version_cmd, route_cmd, briefing_cmd, log_cmd, whoami_cmd,
      plan_cmd, history_cmd, journal_cmd, jobs_cmd, attention_cmd]"

definition with_pilots :: "'f FloatOps \<Rightarrow> ('f CommandCtx, 'f) CommandRegistry" where
  "with_pilots fo = foldl (\<lambda>reg cmd. register cmd reg) [] (pilots fo)"

end
