(* ===== verification/Exec_Correct.thy ===== *)
theory Exec_Correct
  imports Exec_Commands "HOL-Library.Multiset"
begin

text \<open>
  Correctness of typed pipelines: the types hold along a plan (stated for any registry whose commands return what they declare, and interpreted
  on the pilots), a query returns what it says, and a record leaves the shell as one line of cells.
\<close>

section \<open>Types hold along a pipeline\<close>

definition conforms :: "Type \<Rightarrow> Type \<Rightarrow> bool" where
  "conforms declared got \<longleftrightarrow> (\<forall>slot. accepts slot declared \<longrightarrow> accepts slot got)"

fun is_stream :: "'f PipelineData \<Rightarrow> bool" where
  "is_stream (Pipe_List _) = True"
| "is_stream _ = False"

text \<open>In a plan, a command that needs a stream comes directly after one that gives a stream.\<close>

fun fed :: "string set \<Rightarrow> string set \<Rightarrow> bool \<Rightarrow> ParsedStage list \<Rightarrow> bool" where
  "fed streams needs b [] = True"
| "fed streams needs b (s # ss) = ((st_name s \<in> needs \<longrightarrow> b) \<and> fed streams needs (st_name s \<in> streams) ss)"

text \<open>The type a chain of stages promises for its output, read off the signatures.\<close>

fun chain_type :: "('c, 'f) CommandRegistry \<Rightarrow> ParsedStage list \<Rightarrow> Type \<Rightarrow> Type option" where
  "chain_type reg [] t = Some t"
| "chain_type reg (s # ss) t =
     (case reg_get reg (st_name s) of None \<Rightarrow> None | Some c \<Rightarrow> Option.bind (output_for (cmd_signature c) t) (chain_type reg ss))"

text \<open>What the engine relies on of the commands it runs: the data they return is of the type they declare.\<close>

locale typed_commands =
  fixes reg :: "('c, 'f) CommandRegistry"
    and streams :: "string set"
    and needs :: "string set"
  assumes run_typed:
      "reg_get reg n = Some c \<Longrightarrow> n \<in> needs \<longrightarrow> is_stream d \<Longrightarrow> cmd_run c ctx call d = Ok d' \<Longrightarrow>
       output_for (cmd_signature c) t = Some out \<Longrightarrow> conforms out (pipe_type d')"
    and run_streams:
      "reg_get reg n = Some c \<Longrightarrow> n \<in> needs \<longrightarrow> is_stream d \<Longrightarrow> cmd_run c ctx call d = Ok d' \<Longrightarrow> n \<in> streams \<Longrightarrow> is_stream d'"
begin

lemma output_for_conforms:
  assumes "output_for sig t = Some out" and "conforms t u"
  shows "output_for sig u \<noteq> None"
proof -
  have "\<exists>p \<in> set (sig_io_types sig). accepts (fst p) t"
    using assms(1) by (auto simp: output_for_def find_Some_iff case_prod_unfold)
  then have "\<exists>p \<in> set (sig_io_types sig). accepts (fst p) u" using assms(2) by (auto simp: conforms_def)
  then show ?thesis by (auto simp: output_for_def find_None_iff case_prod_unfold)
qed

lemma bound_runs_typed:
  "bind_stages fo reg stages t up = Ok bound \<Longrightarrow> conforms t (pipe_type d) \<Longrightarrow> fed streams needs b stages \<Longrightarrow> (b \<Longrightarrow> is_stream d) \<Longrightarrow>
   run_bound ctx bound d = (runs, r) \<Longrightarrow>
   list_all (\<lambda>(c, d). output_for (cmd_signature c) (pipe_type d) \<noteq> None) runs \<and>
   (\<forall>d'. r = Ok d' \<longrightarrow> (\<exists>t'. chain_type reg stages t = Some t' \<and> conforms t' (pipe_type d')))"
proof (induction stages arbitrary: t up bound d b runs)
  case (Cons s ss)
  obtain c out call rest where c: "reg_get reg (st_name s) = Some c" "output_for (cmd_signature c) t = Some out"
    and rest: "bind_stages fo reg ss out (st_name s) = Ok rest" and bound: "bound = (c, call) # rest"
    using Cons.prems(1) by (auto simp: Let_def and_then_Ok_iff split: option.splits)
  have ok: "output_for (cmd_signature c) (pipe_type d) \<noteq> None" by (rule output_for_conforms [OF c(2) Cons.prems(2)])
  have n: "st_name s \<in> needs \<longrightarrow> is_stream d" using Cons.prems(3,4) by auto
  show ?case
  proof (cases "cmd_run c ctx call d")
    case (Inl e)
    then show ?thesis using Cons.prems(5) ok bound by auto
  next
    case (Inr d')
    obtain runs' where r: "run_bound ctx rest d' = (runs', r)" "runs = (c, d) # runs'"
      using Cons.prems(5) bound Inr by (auto split: prod.splits)
    have "list_all (\<lambda>(c, d). output_for (cmd_signature c) (pipe_type d) \<noteq> None) runs' \<and>
      (\<forall>d'. r = Ok d' \<longrightarrow> (\<exists>t'. chain_type reg ss out = Some t' \<and> conforms t' (pipe_type d')))"
    proof (rule Cons.IH [OF rest])
      show "conforms out (pipe_type d')" by (rule run_typed [OF c(1) n Inr c(2)])
      show "fed streams needs (st_name s \<in> streams) ss" using Cons.prems(3) by simp
      show "is_stream d'" if "st_name s \<in> streams" by (rule run_streams [OF c(1) n Inr that])
      show "run_bound ctx rest d' = (runs', r)" by (rule r)
    qed
    then show ?thesis using r ok c by auto
  qed
qed auto

lemma plan_runs_typed:
  assumes "run_plan fo reg ctx stages input = (runs, r)" and "fed streams needs (is_stream (pi_data input)) stages"
  shows "list_all (\<lambda>(c, d). output_for (cmd_signature c) (pipe_type d) \<noteq> None) runs \<and>
    (\<forall>d'. r = Ok d' \<longrightarrow> (\<exists>t. chain_type reg stages (pipe_type (pi_data input)) = Some t \<and> conforms t (pipe_type d')))"
proof (cases "bind_stages fo reg stages (pipe_type (pi_data input)) (pi_label input)")
  case (Inl e)
  then show ?thesis using assms(1) by (auto simp: run_plan_def)
next
  case (Inr bound)
  have "run_bound ctx bound (pi_data input) = (runs, r)" using assms(1) Inr by (simp add: run_plan_def)
  from bound_runs_typed [OF Inr _ assms(2) _ this] show ?thesis by (simp add: conforms_def)
qed

end

subsection \<open>The pilots are typed\<close>

lemma register_all_get:
  "reg_get (foldl (\<lambda>reg cmd. register cmd reg) reg cs) n = Some c \<Longrightarrow>
   c \<in> set cs \<and> sig_name (cmd_signature c) = n \<or> reg_get reg n = Some c"
  by (induction cs arbitrary: reg) (fastforce simp: reg_get_def register_def split: if_splits)+

lemma with_pilots_get: "reg_get (with_pilots fo) n = Some c \<Longrightarrow> c \<in> set (pilots fo) \<and> sig_name (cmd_signature c) = n"
  using register_all_get [of "[]" "pilots fo" n c] by (simp add: with_pilots_def reg_get_def)

lemma accepts_list_any: "accepts slot t \<Longrightarrow> untable t = Ty_List s \<Longrightarrow> accepts slot (Ty_List Ty_Any)"
proof -
  assume a: "accepts slot t" "untable t = Ty_List s"
  have any: "accepts x Ty_Any" for x by (subst accepts.simps) simp
  have "untable (Ty_List Ty_Any) = Ty_List Ty_Any" by (simp add: untable_def)
  moreover have "slot = Ty_Any \<or> (\<exists>x. untable slot = Ty_List x)"
    using a by (subst (asm) accepts.simps) (cases slot; auto simp: untable_def split: if_splits)
  ultimately show ?thesis by (subst accepts.simps) (auto simp: any)
qed

lemma conforms_refl [simp]: "conforms t t"
  by (simp add: conforms_def)

lemma conforms_list: "untable t = Ty_List s \<Longrightarrow> conforms t (Ty_List Ty_Any)"
  by (auto simp: conforms_def intro: accepts_list_any)

lemma conforms_table [simp]: "conforms Ty_Table (if b then Ty_Table else Ty_List Ty_Any)"
  using conforms_list [of Ty_Table "Ty_Record []"] by (simp add: untable_def)

lemma conforms_lines [simp]: "conforms (Ty_List Ty_String) (type_of (V_List (map V_String ls)))"
  using conforms_list [of "Ty_List Ty_String" Ty_String]
  by (cases ls) (simp_all add: untable_def list_is_table_def is_record_def)

lemma output_for_single: "sig_io_types sig = [(i, out)] \<Longrightarrow> output_for sig t = Some o' \<Longrightarrow> o' = out"
  by (auto simp: output_for_def split: if_splits)

lemmas pilot_defs = ls_cmd_def where_cmd_def first_cmd_def sort_by_cmd_def from_json_cmd_def ps_cmd_def help_cmd_def version_cmd_def route_cmd_def
  briefing_cmd_def text_cmd_def log_cmd_def whoami_cmd_def plan_cmd_def history_cmd_def journal_cmd_def jobs_cmd_def attention_cmd_def
  signature_of_def

text \<open>Every pilot has one pair of types; what it returns is of the declared one, \<^verbatim>\<open>where\<close> provided it is given a stream.\<close>

lemma from_json_streams:
  assumes "cmd_run (from_json_cmd fo) ctx call d = Ok d'"
  shows "\<exists>s. d' = Pipe_List s"
proof -
  obtain v where "(case ho_json (cx_host ctx) (json_bytes (cx_host ctx) v) of
      Inl e \<Rightarrow> Err (BadValue ''from json'' e) | Inr parsed \<Rightarrow> Ok (Pipe_List (map Ok (json_rows fo parsed)))) = Ok d'"
    using assms by (auto simp: from_json_cmd_def and_then_Ok_iff Let_def simp del: sum.case split: if_splits)
  then show ?thesis by (auto split: sum.splits)
qed

lemma table_pilots_typed:
  assumes "c \<in> {ls_cmd, first_cmd, sort_by_cmd fo, from_json_cmd fo, ps_cmd}" and "cmd_run c ctx call d = Ok d'"
  shows "is_stream d'" and "pipe_type d' = Ty_Table"
proof -
  have "\<exists>s. d' = Pipe_List s"
    using assms(1)
  proof (elim insertE emptyE)
    assume "c = from_json_cmd fo"
    then show ?thesis using from_json_streams assms(2) by blast
  qed (use assms(2) in \<open>auto simp: ls_cmd_def first_cmd_def sort_by_cmd_def ps_cmd_def Let_def and_then_Ok_iff split: sum.split_asm if_split_asm\<close>)
  then show "is_stream d'" and "pipe_type d' = Ty_Table" by auto
qed

lemma where_typed:
  "cmd_run (where_cmd fo) ctx call d = Ok d' \<Longrightarrow> is_stream d \<Longrightarrow> is_stream d' \<and> pipe_type d' = Ty_Table"
  by (cases d) (auto simp: where_cmd_def split: sum.splits)

lemma blocks_lines: "Pipe_Value (blocks_to_value debug blocks) = lines_value (blocks_to_lines debug blocks)"
  by (simp add: blocks_to_value_def lines_value_def)

lemma lines_pilots_typed:
  assumes "c \<in> {help_cmd, version_cmd, route_cmd, briefing_cmd, whoami_cmd, plan_cmd, jobs_cmd}" and "cmd_run c ctx call d = Ok d'"
  shows "conforms (Ty_List Ty_String) (pipe_type d')"
proof -
  have "\<exists>ls. d' = lines_value ls"
    using assms(1)
    by (elim insertE emptyE; use assms(2) in \<open>auto simp: help_cmd_def version_cmd_def route_cmd_def briefing_cmd_def text_cmd_def whoami_cmd_def
      plan_cmd_def jobs_cmd_def blocks_lines Let_def\<close>)
  then show ?thesis by (auto simp: lines_value_def simp del: type_of.simps)
qed

lemma materialised_pilots_typed:
  assumes "c \<in> {history_cmd, journal_cmd, attention_cmd}" and "cmd_run c ctx call d = Ok d'"
  shows "conforms Ty_Table (pipe_type d')"
proof -
  have "\<exists>vs. d' = Pipe_Value (V_List vs)"
    using assms(1)
    by (elim insertE emptyE; use assms(2) in \<open>auto simp: history_cmd_def journal_cmd_def attention_cmd_def lines_value_def result_to_pipeline_def Let_def
      split: sum.split_asm option.split_asm if_split_asm\<close>)
  then show ?thesis by auto
qed

lemma log_typed: "cmd_run log_cmd ctx call d = Ok d' \<Longrightarrow> pipe_type d' = Ty_String"
  by (auto simp: log_cmd_def Let_def and_then_Ok_iff split: sum.splits option.splits)

lemma pilot_types:
  "c \<in> {ls_cmd, first_cmd, sort_by_cmd fo, from_json_cmd fo, ps_cmd, where_cmd fo, history_cmd, journal_cmd, attention_cmd} \<Longrightarrow>
     \<exists>i. sig_io_types (cmd_signature c) = [(i, Ty_Table)]"
  "c \<in> {help_cmd, version_cmd, route_cmd, briefing_cmd, whoami_cmd, plan_cmd, jobs_cmd} \<Longrightarrow> \<exists>i. sig_io_types (cmd_signature c) = [(i, Ty_List Ty_String)]"
  "\<exists>i. sig_io_types (cmd_signature log_cmd) = [(i, Ty_String)]"
  by (auto simp: pilot_defs)

lemma pilot_names:
  "sig_name (cmd_signature (ls_cmd)) = ''ls''"
  "sig_name (cmd_signature (where_cmd fo)) = ''where''"
  "sig_name (cmd_signature (first_cmd)) = ''first''"
  "sig_name (cmd_signature (sort_by_cmd fo)) = ''sort-by''"
  "sig_name (cmd_signature (from_json_cmd fo)) = ''from''"
  "sig_name (cmd_signature (ps_cmd)) = ''ps''"
  "sig_name (cmd_signature (help_cmd)) = ''help''"
  "sig_name (cmd_signature (version_cmd)) = ''version''"
  "sig_name (cmd_signature (route_cmd)) = ''route''"
  "sig_name (cmd_signature (briefing_cmd)) = ''briefing''"
  "sig_name (cmd_signature (log_cmd)) = ''log''"
  "sig_name (cmd_signature (whoami_cmd)) = ''whoami''"
  "sig_name (cmd_signature (plan_cmd)) = ''plan''"
  "sig_name (cmd_signature (history_cmd)) = ''history''"
  "sig_name (cmd_signature (journal_cmd)) = ''journal''"
  "sig_name (cmd_signature (jobs_cmd)) = ''jobs''"
  "sig_name (cmd_signature (attention_cmd)) = ''attention''"
  by (simp_all add: pilot_defs)

lemma accepts_refl: "accepts t t"
  by (induction t) (subst accepts.simps; simp add: untable_def split: if_splits Type.splits)+

lemma pilot_gets:
  "reg_get (with_pilots fo) ''ps'' = Some ps_cmd" "reg_get (with_pilots fo) ''where'' = Some (where_cmd fo)"
  "reg_get (with_pilots fo) ''sort-by'' = Some (sort_by_cmd fo)" "reg_get (with_pilots fo) ''first'' = Some first_cmd"
  by (simp_all add: with_pilots_def pilots_def register_def reg_get_def pilot_names)

interpretation pilot: typed_commands "with_pilots fo" "{''ls'', ''where'', ''first'', ''sort-by'', ''from'', ''ps''}" "{''where''}"
proof
  fix n c d ctx call d' t out
  assume "reg_get (with_pilots fo) n = Some c" and n: "n \<in> {''where''} \<longrightarrow> is_stream d" and r: "cmd_run c ctx call d = Ok d'"
  then have c: "c \<in> set (pilots fo)" "sig_name (cmd_signature c) = n" by (auto dest: with_pilots_get)
  have w: "is_stream d" if "c = where_cmd fo" using n c that by (simp add: pilot_names)
  show "conforms out (pipe_type d')" if "output_for (cmd_signature c) t = Some out"
  proof -
    consider "c \<in> {ls_cmd, first_cmd, sort_by_cmd fo, from_json_cmd fo, ps_cmd}" | "c = where_cmd fo"
      | "c \<in> {help_cmd, version_cmd, route_cmd, briefing_cmd, whoami_cmd, plan_cmd, jobs_cmd}"
      | "c \<in> {history_cmd, journal_cmd, attention_cmd}" | "c = log_cmd" using c(1) by (auto simp: pilots_def)
    then show ?thesis
    proof cases
      case 1
      then have "out = Ty_Table" using pilot_types(1) [of c fo] output_for_single [OF _ that] by blast
      with table_pilots_typed(2) [OF 1 r] show ?thesis by simp
    next
      case 2
      then have "out = Ty_Table" using pilot_types(1) [of c fo] output_for_single [OF _ that] by blast
      with where_typed [of fo ctx call d d'] 2 w r show ?thesis by simp
    next
      case 3
      then have "out = Ty_List Ty_String" using pilot_types(2) [of c] output_for_single [OF _ that] by blast
      with lines_pilots_typed [OF 3 r] show ?thesis by simp
    next
      case 4
      then have "out = Ty_Table" using pilot_types(1) [of c fo] output_for_single [OF _ that] by blast
      with materialised_pilots_typed [OF 4 r] show ?thesis by simp
    next
      case 5
      then have "out = Ty_String" using pilot_types(3) output_for_single [OF _ that] by blast
      with log_typed [of ctx call d d'] 5 r show ?thesis by simp
    qed
  qed
  show "is_stream d'" if "n \<in> {''ls'', ''where'', ''first'', ''sort-by'', ''from'', ''ps''}"
  proof -
    have "c \<in> {ls_cmd, first_cmd, sort_by_cmd fo, from_json_cmd fo, ps_cmd} \<or> c = where_cmd fo"
      using c that unfolding pilots_def by (auto simp: pilot_names)
    then show ?thesis using table_pilots_typed(1) [OF _ r] where_typed [of fo ctx call d d'] w r by blast
  qed
qed

text \<open>C16. Types hold along a pipeline: in every plan over the pilot commands in which a \<^verbatim>\<open>where\<close> comes directly after a command that streams its
table (listing, agents, another filter, a sort, a converter), each command that is run receives data of a type its signature
accepts, whatever the arguments, the host and the errors on the way; and if the plan succeeds, its data conforms to the type that the chain of signatures
promises for the type of the input: every slot that accepts the promised type accepts the data's. The check made before the first command runs is enough.
\<close>

theorem pipeline_types_hold:
  assumes "run_plan fo (with_pilots fo) ctx stages input = (runs, r)"
    and "fed {''ls'', ''where'', ''first'', ''sort-by'', ''from'', ''ps''} {''where''} (is_stream (pi_data input)) stages"
  shows "list_all (\<lambda>(c, d). output_for (cmd_signature c) (pipe_type d) \<noteq> None) runs \<and>
    (\<forall>d'. r = Ok d' \<longrightarrow> (\<exists>t. chain_type (with_pilots fo) stages (pipe_type (pi_data input)) = Some t \<and> conforms t (pipe_type d')))"
  using assms by (rule pilot.plan_runs_typed)

text \<open>For the instances: a host with nothing on it, and three agents.\<close>

definition bare_host :: "int CommandHost" where
  "bare_host =
     \<lparr>ho_io = io_fine, ho_fs = Map.empty, ho_read_dir = \<lambda>_. Err ''none'', ho_env = \<lambda>_. None, ho_pkg_version = [], ho_debug = \<lambda>_. [],
      ho_float_text = show_int, ho_date_text = show_int, ho_nested_text = \<lambda>_. [], ho_lossy = \<lambda>s. s, ho_json = \<lambda>_. Err ''none'',
      ho_hhmm = \<lambda>_. None, ho_history = \<lparr>hc_encode = \<lambda>_. None, hc_decode = \<lambda>_. None\<rparr>,
      ho_journal = \<lparr>jc_encode = \<lambda>_. None, jc_decode = \<lambda>_. None\<rparr>, ho_clock = \<lparr>jk_parse = \<lambda>_. None, jk_minus = \<lambda>n. n\<rparr>, ho_reserve = \<lambda>n. n < 2 ^ 32\<rparr>"

definition sample_agent :: "string \<Rightarrow> AgentStatus \<Rightarrow> AgentInfo" where
  "sample_agent name s = \<lparr>ai_name = name, ai_archetype = ''dev'', ai_status = s, ai_model = ''m''\<rparr>"

definition sample_ctx :: "int CommandCtx" where
  "sample_ctx =
     \<lparr>cx_host = bare_host, cx_cwd = [], cx_data_dir = [''d''],
      cx_agents = [sample_agent ''zed'' Agent_Working, sample_agent ''kim'' Agent_Idle, sample_agent ''abe'' Agent_Working], cx_jobs = [], cx_auth = None,
      cx_attention = [], cx_attention_control = None, cx_capabilities = cap_shell_default\<rparr>"

theorem pipeline_types_hold_witness:
  "\<exists>runs r. run_plan int_floats (with_pilots int_floats) sample_ctx
      [\<lparr>st_name = ''ps'', st_raw_args = []\<rparr>, \<lparr>st_name = ''where'', st_raw_args = [''status==working'']\<rparr>, \<lparr>st_name = ''first'', st_raw_args = []\<rparr>]
      \<lparr>pi_data = Pipe_Empty, pi_label = ''input''\<rparr> = (runs, r) \<and>
    list_all (\<lambda>(c, d). output_for (cmd_signature c) (pipe_type d) \<noteq> None) runs \<and> (\<forall>d'. r = Ok d' \<longrightarrow> conforms Ty_Table (pipe_type d'))"
proof -
  let ?stages = "[\<lparr>st_name = ''ps'', st_raw_args = []\<rparr>, \<lparr>st_name = ''where'', st_raw_args = [''status==working'']\<rparr>, \<lparr>st_name = ''first'', st_raw_args = []\<rparr>]"
  let ?input = "\<lparr>pi_data = Pipe_Empty, pi_label = ''input''\<rparr>"
  obtain runs r where r: "run_plan int_floats (with_pilots int_floats) sample_ctx ?stages ?input = (runs, r)" by fastforce
  moreover have "fed {''ls'', ''where'', ''first'', ''sort-by'', ''from'', ''ps''} {''where''} (is_stream (pi_data ?input)) ?stages" by simp
  moreover have "chain_type (with_pilots int_floats) ?stages (pipe_type (pi_data ?input)) = Some Ty_Table"
    by (simp add: pilot_gets output_for_def ps_cmd_def where_cmd_def first_cmd_def signature_of_def accepts_refl)
  ultimately show ?thesis using pipeline_types_hold [OF r] by fastforce
qed

section \<open>Sorting\<close>

lemma insert_by_mset: "mset (insert_by cmp x ys) = add_mset x (mset ys)"
  by (induction ys) auto

lemma stable_sort_mset: "mset (stable_sort_by cmp xs) = mset xs"
  by (induction xs) (simp_all add: stable_sort_by_def insert_by_mset)

text \<open>A comparison that orders the given elements.\<close>

definition orders :: "('a \<Rightarrow> 'a \<Rightarrow> Ord) \<Rightarrow> 'a set \<Rightarrow> bool" where
  "orders cmp A \<longleftrightarrow>
     (\<forall>x \<in> A. \<forall>y \<in> A. (cmp x y = Ord_Greater \<longrightarrow> cmp y x \<noteq> Ord_Greater) \<and>
       (\<forall>z \<in> A. cmp x y \<noteq> Ord_Greater \<longrightarrow> cmp y z \<noteq> Ord_Greater \<longrightarrow> cmp x z \<noteq> Ord_Greater))"

lemma ordersD:
  assumes "orders cmp A"
  shows "x \<in> A \<Longrightarrow> y \<in> A \<Longrightarrow> cmp x y = Ord_Greater \<Longrightarrow> cmp y x \<noteq> Ord_Greater"
    and "x \<in> A \<Longrightarrow> y \<in> A \<Longrightarrow> z \<in> A \<Longrightarrow> cmp x y \<noteq> Ord_Greater \<Longrightarrow> cmp y z \<noteq> Ord_Greater \<Longrightarrow> cmp x z \<noteq> Ord_Greater"
  using assms unfolding orders_def by blast+

lemma insert_by_set: "set (insert_by cmp x ys) = insert x (set ys)"
  by (induction ys) auto

lemma insert_by_sorted:
  assumes "orders cmp A" and "x \<in> A" and "set ys \<subseteq> A" and "sorted_wrt (\<lambda>a b. cmp a b \<noteq> Ord_Greater) ys"
  shows "sorted_wrt (\<lambda>a b. cmp a b \<noteq> Ord_Greater) (insert_by cmp x ys)"
  using assms(3,4)
proof (induction ys)
  case (Cons y ys)
  then have y: "y \<in> A" and ih: "sorted_wrt (\<lambda>a b. cmp a b \<noteq> Ord_Greater) (insert_by cmp x ys)" by simp_all
  show ?case
  proof (cases "cmp x y = Ord_Greater")
    case True
    then show ?thesis using ih Cons.prems(2) ordersD(1) [OF assms(1,2) y] by (simp add: insert_by_set)
  next
    case False
    have "cmp x z \<noteq> Ord_Greater" if "z \<in> set ys" for z
      using ordersD(2) [OF assms(1,2) y _ False, of z] Cons.prems that by auto
    then show ?thesis using False Cons.prems(2) by simp
  qed
qed simp

lemma stable_sort_set: "set (stable_sort_by cmp xs) = set xs"
  by (induction xs) (simp_all add: stable_sort_by_def insert_by_set)

lemma stable_sort_sorted: "orders cmp A \<Longrightarrow> set xs \<subseteq> A \<Longrightarrow> sorted_wrt (\<lambda>a b. cmp a b \<noteq> Ord_Greater) (stable_sort_by cmp xs)"
proof (induction xs)
  case (Cons x xs)
  then show ?case using insert_by_sorted [of cmp A x "stable_sort_by cmp xs"] stable_sort_set [of cmp xs] by (simp add: stable_sort_by_def)
qed (simp add: stable_sort_by_def)

text \<open>The rows that \<^verbatim>\<open>ps\<close> lists are ordered by any one column: it is there in all of them, as text, or in none.\<close>

lemma agent_column:
  obtains "\<And>a. get_path col (agent_record a) = None" | f where "\<And>a. get_path col (agent_record a) = Some (V_String (f a))"
proof -
  obtain s ss where ss: "split_on (CHR ''.'') col = s # ss" using split_on_neq_Nil [of "CHR ''.''" col] by (cases "split_on (CHR ''.'') col") auto
  consider "ss \<noteq> []" | "ss = []" "s = ''name''" | "ss = []" "s = ''archetype''" | "ss = []" "s = ''status''" | "ss = []" "s = ''model''"
    | "ss = []" "s \<notin> {''name'', ''archetype'', ''status'', ''model''}" by blast
  then show ?thesis
  proof cases
    case 1
    then have "get_path col (agent_record a) = None" for a
      by (cases ss) (auto simp: get_path_def ss agent_record_def as_record_def)
    then show ?thesis by (rule that(1))
  next
    case 2
    then show ?thesis by (intro that(2) [of ai_name]) (simp add: get_path_def ss agent_record_def as_record_def)
  next
    case 3
    then show ?thesis by (intro that(2) [of ai_archetype]) (simp add: get_path_def ss agent_record_def as_record_def)
  next
    case 4
    then show ?thesis by (intro that(2) [of "\<lambda>a. status_label (ai_status a)"]) (simp add: get_path_def ss agent_record_def as_record_def)
  next
    case 5
    then show ?thesis by (intro that(2) [of ai_model]) (simp add: get_path_def ss agent_record_def as_record_def)
  next
    case 6
    then have "get_path col (agent_record a) = None" for a by (simp add: get_path_def ss agent_record_def as_record_def)
    then show ?thesis by (rule that(1))
  qed
qed

lemma agent_rows_ordered:
  fixes fo :: "'f FloatOps"
  shows "orders (row_order fo [col] False) (agent_record ` A)"
proof (rule agent_column [of col])
  assume n: "\<And>a. get_path col (agent_record a :: 'f Value) = None"
  show ?thesis by (auto simp: orders_def row_order_def n)
next
  fix f assume f: "\<And>a. get_path col (agent_record a :: 'f Value) = Some (V_String (f a))"
  have "row_order fo [col] False (agent_record a) (agent_record b) = int_cmp (f a) (f b)" for a b
    by (simp add: row_order_def f compare_def int_cmp_def)
  then show ?thesis by (auto simp: orders_def int_cmp_def split: if_splits)
qed

section \<open>A query means what it says\<close>

lemma evaluate_rest:
  assumes "sig_flags sig = []" and "sig_required sig = []" and "sig_optional sig = []" and "sig_rest sig = Some a" and "pa_ty a = Ty_String"
  shows "evaluate_loop fo sig head ws vs named = Ok (vs @ map V_String ws, named)"
proof -
  have "flag_lookup sig w = None" for w using assms(1) by (auto simp: flag_lookup_def split: option.split list.split)
  then show ?thesis
    by (induction ws arbitrary: vs) (simp_all add: assms coerce_def positional_type_def Let_def)
qed

lemma string_args_strings [simp]: "List.map_filter (\<lambda>v. case v of V_String s \<Rightarrow> Some s | _ \<Rightarrow> None) (map V_String ws) = ws"
  by (induction ws) (simp_all add: List.map_filter_simps)

lemma evaluate_where: "Exec_Engine.evaluate fo (cmd_signature (where_cmd fo)) ''where'' ws = Ok \<lparr>ec_head = ''where'', ec_positional = map V_String ws, ec_named = []\<rparr>"
  by (simp add: Exec_Engine.evaluate_def evaluate_rest where_cmd_def signature_of_def pos_arg_def)

lemma evaluate_sort_by:
  "flag_lookup (cmd_signature (sort_by_cmd fo)) col = None \<Longrightarrow>
   Exec_Engine.evaluate fo (cmd_signature (sort_by_cmd fo)) ''sort-by'' [col] = Ok \<lparr>ec_head = ''sort-by'', ec_positional = [V_String col], ec_named = []\<rparr>"
  by (simp add: Exec_Engine.evaluate_def sort_by_cmd_def signature_of_def pos_arg_def coerce_def positional_type_def)

lemma parse_show_nat_i64: "int n < 2 ^ 63 \<Longrightarrow> parse_i64 (show_nat n) = Some (int n)"
proof -
  assume n: "int n < 2 ^ 63"
  have "is_digit c \<Longrightarrow> c \<noteq> CHR ''-'' \<and> c \<noteq> CHR ''+''" for c by (auto simp: is_digit_def)
  then obtain c cs where c: "show_nat n = c # cs" "c \<noteq> CHR ''-''" "c \<noteq> CHR ''+''"
    using show_nat_digits [of n] by (cases "show_nat n") auto
  have "list_all is_digit (c # cs)" "read_nat (c # cs) = n" using show_nat_digits [of n] c(1) by (metis, metis read_show_nat)
  then show ?thesis using c n by (simp add: parse_i64_def)
qed

lemma evaluate_first:
  assumes "int n < 2 ^ 63"
  shows "Exec_Engine.evaluate fo (cmd_signature first_cmd) ''first'' [show_nat n] = Ok \<lparr>ec_head = ''first'', ec_positional = [V_Int (int n)], ec_named = []\<rparr>"
proof -
  have "is_digit c \<Longrightarrow> c \<noteq> CHR ''-''" for c by (auto simp: is_digit_def)
  then obtain c cs where c: "show_nat n = c # cs" "c \<noteq> CHR ''-''" using show_nat_digits [of n] by (cases "show_nat n") auto
  then have "strip_prefix ''--'' (show_nat n) = None" "strip_prefix ''-'' (show_nat n) = None" by (simp_all add: strip_prefix_def)
  then show ?thesis
    using parse_show_nat_i64 [OF assms]
    by (simp add: Exec_Engine.evaluate_def first_cmd_def signature_of_def pos_arg_def coerce_def positional_type_def flag_lookup_def is_flag_shaped_def)
qed

lemma drain_map_Ok [simp]: "drain (map Ok xs) = Ok xs"
  by (induction xs) simp_all

text \<open>What the table commands do to a stream without errors.\<close>

lemma where_stream:
  "predicate_parse fo (string_args call) = Ok p \<Longrightarrow>
   cmd_run (where_cmd fo) ctx call (Pipe_List (map Ok rows)) = Ok (Pipe_List (map Ok (filter (predicate_eval fo p) rows)))"
  by (simp add: where_cmd_def filter_map comp_def)

lemma sort_by_stream:
  "cmd_run (sort_by_cmd fo) ctx call (Pipe_List (map Ok rows)) =
     Ok (Pipe_List (map Ok (stable_sort_by (row_order fo (string_args call) (has_flag call ''reverse'')) rows)))"
  by (simp add: sort_by_cmd_def)

lemma first_stream:
  "call_opt call 0 = Some (V_Int (int n)) \<Longrightarrow>
   cmd_run first_cmd ctx call (Pipe_List (map Ok rows)) =
     (if ho_reserve (cx_host ctx) n then Ok (Pipe_List (map Ok (take n rows))) else Err (Panicked ''capacity overflow''))"
  by (simp add: first_cmd_def take_map)

text \<open>C30. A query over the agents returns what it says: \<^verbatim>\<open>ps | where \<dots> | sort-by column | first n\<close> yields the first \<open>n\<close> of the rows that satisfy the
predicate, in the order of the column, and nothing else; the order is a sorted one, for every column, and equal rows keep their places. A count below \<open>2 ^ 63\<close> whose
slots cannot be reserved panics instead.
\<close>

theorem agent_query:
  assumes "predicate_parse fo ws = Ok p" and "flag_lookup (cmd_signature (sort_by_cmd fo)) col = None" and "int n < 2 ^ 63"
    and rows_def: "rows = stable_sort_by (row_order fo [col] False) (filter (predicate_eval fo p) (map agent_record (cx_agents ctx)))"
  shows "snd (run_plan fo (with_pilots fo) ctx
      [\<lparr>st_name = ''ps'', st_raw_args = []\<rparr>, \<lparr>st_name = ''where'', st_raw_args = ws\<rparr>, \<lparr>st_name = ''sort-by'', st_raw_args = [col]\<rparr>,
       \<lparr>st_name = ''first'', st_raw_args = [show_nat n]\<rparr>] \<lparr>pi_data = Pipe_Empty, pi_label = label\<rparr>) =
      (if ho_reserve (cx_host ctx) n then Ok (Pipe_List (map Ok (take n rows))) else Err (Panicked ''capacity overflow'')) \<and>
    mset rows = mset (filter (predicate_eval fo p) (map agent_record (cx_agents ctx))) \<and>
    sorted_wrt (\<lambda>a b. row_order fo [col] False a b \<noteq> Ord_Greater) (take n rows)"
proof -
  let ?kept = "filter (predicate_eval fo p) (map agent_record (cx_agents ctx))"
  let ?call = "\<lambda>h vs. \<lparr>ec_head = h, ec_positional = vs, ec_named = []\<rparr>"
  have ev: "Exec_Engine.evaluate fo (cmd_signature ps_cmd) ''ps'' [] = Ok (?call ''ps'' [])"
    by (simp add: Exec_Engine.evaluate_def ps_cmd_def signature_of_def)
  have tys: "output_for (cmd_signature ps_cmd) Ty_Nothing = Some Ty_Table" "output_for (cmd_signature (where_cmd fo)) Ty_Table = Some Ty_Table"
    "output_for (cmd_signature (sort_by_cmd fo)) Ty_Table = Some Ty_Table" "output_for (cmd_signature first_cmd) Ty_Table = Some Ty_Table"
    by (simp_all add: output_for_def ps_cmd_def where_cmd_def sort_by_cmd_def first_cmd_def signature_of_def accepts_refl)
  have runs: "cmd_run ps_cmd ctx (?call ''ps'' []) Pipe_Empty = Ok (Pipe_List (map Ok (map agent_record (cx_agents ctx))))"
    "cmd_run (where_cmd fo) ctx (?call ''where'' (map V_String ws)) (Pipe_List (map Ok (map agent_record (cx_agents ctx)))) =
       Ok (Pipe_List (map Ok ?kept))"
    "cmd_run (sort_by_cmd fo) ctx (?call ''sort-by'' [V_String col]) (Pipe_List (map Ok ?kept)) = Ok (Pipe_List (map Ok rows))"
    "cmd_run first_cmd ctx (?call ''first'' [V_Int (int n)]) (Pipe_List (map Ok rows)) =
       (if ho_reserve (cx_host ctx) n then Ok (Pipe_List (map Ok (take n rows))) else Err (Panicked ''capacity overflow''))"
    using assms(1) string_args_strings [of "[col]"] string_args_strings [of ws]
    by (simp_all add: ps_cmd_def where_stream sort_by_stream first_stream string_args_def has_flag_def call_opt_def rows_def
        del: map_map)
  have "snd (run_plan fo (with_pilots fo) ctx
      [\<lparr>st_name = ''ps'', st_raw_args = []\<rparr>, \<lparr>st_name = ''where'', st_raw_args = ws\<rparr>, \<lparr>st_name = ''sort-by'', st_raw_args = [col]\<rparr>,
       \<lparr>st_name = ''first'', st_raw_args = [show_nat n]\<rparr>] \<lparr>pi_data = Pipe_Empty, pi_label = label\<rparr>) =
      (if ho_reserve (cx_host ctx) n then Ok (Pipe_List (map Ok (take n rows))) else Err (Panicked ''capacity overflow''))"
    by (simp add: run_plan_def pilot_gets ev evaluate_where evaluate_sort_by [OF assms(2)] evaluate_first [OF assms(3)] tys runs [simplified])
  moreover have "sorted_wrt (\<lambda>a b. row_order fo [col] False a b \<noteq> Ord_Greater) rows"
    unfolding rows_def by (rule stable_sort_sorted [OF agent_rows_ordered [of fo col UNIV]]) auto
  moreover have "mset rows = mset ?kept" unfolding rows_def by (rule stable_sort_mset)
  ultimately show ?thesis by (intro conjI sorted_wrt_take)
qed

theorem agent_query_witness:
  "snd (run_plan int_floats (with_pilots int_floats) sample_ctx
      [\<lparr>st_name = ''ps'', st_raw_args = []\<rparr>, \<lparr>st_name = ''where'', st_raw_args = [''status==working'']\<rparr>,
       \<lparr>st_name = ''sort-by'', st_raw_args = [''name'']\<rparr>, \<lparr>st_name = ''first'', st_raw_args = [show_nat 1]\<rparr>]
      \<lparr>pi_data = Pipe_Empty, pi_label = ''input''\<rparr>) = Ok (Pipe_List [Ok (agent_record (sample_agent ''abe'' Agent_Working))])"
proof -
  let ?p = "P_Cmp ''status'' Op_Eq (V_String ''working'') :: int Predicate"
  let ?rows = "stable_sort_by (row_order int_floats [''name''] False) (filter (predicate_eval int_floats ?p) (map agent_record (cx_agents sample_ctx)))"
  have "predicate_parse int_floats [''status==working''] = Ok ?p"
    by (simp add: predicate_parse_def lex_def lex_token_def is_op_char_def flush_op_def op_from_def parse_or_def parse_and_def parse_cmp_def
        parse_and_loop.simps parse_or_loop.simps infer_literal_def parse_bool_def parse_filesize_def parse_duration_def split_number_unit_def is_digit_def
        parse_i64_def int_floats_def)
  moreover have "flag_lookup (cmd_signature (sort_by_cmd int_floats)) ''name'' = None"
    by (simp add: flag_lookup_def strip_prefix_def sort_by_cmd_def)
  moreover have "?rows = [agent_record (sample_agent ''abe'' Agent_Working), agent_record (sample_agent ''zed'' Agent_Working)]"
    by (simp add: sample_ctx_def sample_agent_def agent_record_def status_label_def get_path_def as_record_def stable_sort_by_def row_order_def compare_def
        int_cmp_def less_list_code less_char_def)
  moreover have "ho_reserve (cx_host sample_ctx) 1" by (simp add: sample_ctx_def bare_host_def)
  ultimately show ?thesis using agent_query [of int_floats "[''status==working'']" ?p "''name''" 1 ?rows sample_ctx "''input''"] by simp
qed

section \<open>Where a table is lost\<close>

text \<open>A table that a command returns as a value, not as a stream, is dropped by the filter, which passes on nothing at all, and by \<^verbatim>\<open>first\<close>.\<close>

lemma where_drops_value: "predicate_parse fo (string_args call) = Ok p \<Longrightarrow> cmd_run (where_cmd fo) ctx call (Pipe_Value v) = Ok Pipe_Empty"
  by (simp add: where_cmd_def)

lemma first_drops_value:
  "cmd_run first_cmd ctx call (Pipe_Value v) = Ok (Pipe_List []) \<or> cmd_run first_cmd ctx call (Pipe_Value v) = Err (Panicked ''capacity overflow'')"
  by (auto simp: first_cmd_def Let_def)

text \<open>Listing a directory asks for no permission to read it.\<close>

lemma ls_ignores_capabilities: "cmd_run ls_cmd (ctx\<lparr>cx_capabilities := cs\<rparr>) call d = cmd_run ls_cmd ctx call d"
  by (simp add: ls_cmd_def split: option.split Value.split)

section \<open>A record is one line of cells\<close>

text \<open>How a consumer reads a cell back.\<close>

fun tsv_unescape :: "string \<Rightarrow> string" where
  "tsv_unescape (c # d # s) =
     (if c = BS then (if d = CHR ''n'' then NL else if d = CHR ''t'' then CHR 0x09 else d) # tsv_unescape s else c # tsv_unescape (d # s))"
| "tsv_unescape s = s"

definition tsv_char :: "char \<Rightarrow> string" where
  "tsv_char c = (if c = BS then [BS, BS] else if c = CHR 0x09 then [BS, CHR ''t''] else if c = NL then [BS, CHR ''n''] else [c])"

lemma escape_tsv_concat: "escape_tsv_cell s = concat (map tsv_char s)"
  by (induction s) (simp_all add: escape_tsv_cell_def replace_char_def tsv_char_def)

lemma unescape_escape: "tsv_unescape (escape_tsv_cell s) = s"
proof -
  have plain: "tsv_unescape (c # t) = c # tsv_unescape t" if "c \<noteq> BS" for c t using that by (cases t) simp_all
  show ?thesis unfolding escape_tsv_concat by (induction s) (simp_all add: tsv_char_def plain)
qed

lemma escape_no_breaks: "NL \<notin> set (escape_tsv_cell s)" "CHR 0x09 \<notin> set (escape_tsv_cell s)"
  by (auto simp: escape_tsv_concat tsv_char_def)

lemma split_on_join: "cells \<noteq> [] \<Longrightarrow> \<forall>c \<in> set cells. d \<notin> set c \<Longrightarrow> split_on d (join [d] cells) = cells"
  by (induction "[d]" cells rule: join.induct) (simp_all add: split_on_no_sep split_on_append)

lemma join_no_break: "\<forall>c \<in> set cells. x \<notin> set c \<Longrightarrow> x \<notin> set sep \<Longrightarrow> x \<notin> set (join sep cells)"
  by (induction sep cells rule: join.induct) auto

text \<open>C40. A record handed to an external command is one line, and each of its columns one cell of it: the line has no other line break, splitting it at
tabs and undoing the escapes gives back exactly the text of every column, in order, whatever tabs, line breaks and backslashes the values hold.
\<close>

theorem tsv_record_roundtrip:
  assumes "m \<noteq> []"
  shows "\<exists>line. value_to_lines ho (V_Record m) = line @ [NL] \<and> NL \<notin> set line \<and>
    map tsv_unescape (split_on (CHR 0x09) line) = map (\<lambda>(_, v). scalar_to_string ho v) m"
proof (intro exI conjI)
  let ?cells = "map (\<lambda>(_, v). escape_tsv_cell (scalar_to_string ho v)) m"
  show "value_to_lines ho (V_Record m) = join [CHR 0x09] ?cells @ [NL]" by simp
  have c: "\<forall>c \<in> set ?cells. NL \<notin> set c" "\<forall>c \<in> set ?cells. CHR 0x09 \<notin> set c" using escape_no_breaks by auto
  show "NL \<notin> set (join [CHR 0x09] ?cells)" by (rule join_no_break [OF c(1)]) simp
  have "split_on (CHR 0x09) (join [CHR 0x09] ?cells) = ?cells" by (rule split_on_join [OF _ c(2)]) (simp add: assms)
  then show "map tsv_unescape (split_on (CHR 0x09) (join [CHR 0x09] ?cells)) = map (\<lambda>(_, v). scalar_to_string ho v) m"
    by (simp add: case_prod_unfold comp_def unescape_escape)
qed

theorem tsv_record_roundtrip_witness:
  "\<exists>line. value_to_lines bare_host (V_Record [(''name'', V_String [CHR ''a'', NL, BS]), (''size'', V_Int 3)]) = line @ [NL] \<and>
     map tsv_unescape (split_on (CHR 0x09) line) = [[CHR ''a'', NL, BS], scalar_to_string bare_host (V_Int 3)]"
  using tsv_record_roundtrip [of "[(''name'', V_String [CHR ''a'', NL, BS]), (''size'', V_Int 3)]" bare_host] by (auto simp: scalar_to_string_def)

end
