(* ===== verification/Exec_Display.thy ===== *)
theory Exec_Display
  imports Exec_Correct
begin

section \<open>Showing what a pipeline produced\<close>

text \<open>
  Models \<^verbatim>\<open>crates/orkia-shell/src/exec/display.rs\<close>, \<^verbatim>\<open>crates/orkia-shell/src/sink.rs\<close> and the two functions of
  \<^verbatim>\<open>crates/orkia-shell/src/repl/dispatch.rs\<close> that run a typed plan and hand on its result. The display loop waits for a row or a tick of the clock, whichever comes
  first: it is a step relation, and what is shown is stated for every order of rows and ticks. The external command is a parameter, and the
  embedded shell that captures the stages before the plan has been started.
\<close>

subsection \<open>Blocks\<close>

definition status_style :: "string \<Rightarrow> CellStyle" where
  "status_style status =
     (if status \<in> {''running'', ''working'', ''done'', ''active''} then CS_Good
      else if status \<in> {''waiting'', ''stopped'', ''paused''} then CS_Warn
      else if status \<in> {''error'', ''failed''} then CS_Bad
      else if status = ''idle'' then CS_Dim
      else CS_Plain)"

definition type_style :: "string \<Rightarrow> CellStyle" where
  "type_style kind =
     (if kind \<in> {''dir'', ''symlink''} then CS_Accent
      else if kind \<in> {''seal'', ''scope_change''} then CS_Accent
      else if kind = ''approval'' then CS_Warn
      else if kind \<in> {''hook'', ''lifecycle'', ''shell'', ''tell''} then CS_Dim
      else CS_Plain)"

text \<open>A literal of the source is the double it is read as.\<close>

definition at_least :: "'f FloatOps \<Rightarrow> 'f \<Rightarrow> string \<Rightarrow> bool" where
  "at_least fo score lit =
     (case fo_parse fo lit of Some t \<Rightarrow> fo_cmp fo score t \<in> {Some Ord_Equal, Some Ord_Greater} | None \<Rightarrow> False)"

definition trust_style :: "'f FloatOps \<Rightarrow> 'f \<Rightarrow> CellStyle" where
  "trust_style fo score = (if at_least fo score ''0.7'' then CS_Good else if at_least fo score ''0.5'' then CS_Warn else CS_Bad)"

definition cell_style :: "'f FloatOps \<Rightarrow> string \<Rightarrow> 'f Value \<Rightarrow> CellStyle" where
  "cell_style fo column v =
     (if column = ''status'' \<or> column = ''state'' then (case v of V_String s \<Rightarrow> status_style s | _ \<Rightarrow> CS_Plain)
      else if column = ''trust'' then (case v of V_Float t \<Rightarrow> trust_style fo t | V_Int t \<Rightarrow> trust_style fo (fo_of_int fo t) | _ \<Rightarrow> CS_Plain)
      else if column = ''type'' then (case v of V_String s \<Rightarrow> type_style s | _ \<Rightarrow> CS_Plain)
      else CS_Plain)"

definition cell_text_style :: "'f FloatOps \<Rightarrow> 'f CommandHost \<Rightarrow> 'f Value \<Rightarrow> string \<Rightarrow> string \<times> CellStyle" where
  "cell_text_style fo ho row column =
     (case Option.bind (as_record row) (\<lambda>m. map_of m column) of
        Some v \<Rightarrow> (scalar_to_string ho v, cell_style fo column v)
      | None \<Rightarrow> ([], CS_Plain))"

definition collect_columns :: "'f Value list \<Rightarrow> string list" where
  "collect_columns rows =
     foldl (\<lambda>cols row.
       (case as_record row of
          Some m \<Rightarrow> foldl (\<lambda>cs key. if key \<in> set cs then cs else cs @ [key]) cols (map fst m)
        | None \<Rightarrow> cols)) [] rows"

definition byte_len :: "string \<Rightarrow> nat" where
  "byte_len s = nat (utf8_len s)"

definition width_at :: "nat list \<Rightarrow> nat \<Rightarrow> nat" where
  "width_at widths i = (if i < length widths then widths ! i else 0)"

definition column_widths :: "string list \<Rightarrow> (string \<times> CellStyle) list list \<Rightarrow> nat list" where
  "column_widths columns cells =
     foldl (\<lambda>ws row. map (\<lambda>i. if i < length row then max (ws ! i) (byte_len (fst (row ! i))) else ws ! i) [0..<length ws]) (map byte_len columns) cells"

definition styled_row :: "nat list \<Rightarrow> (string \<times> CellStyle) list \<Rightarrow> StyledCell list" where
  "styled_row widths cells =
     map (\<lambda>(i, text, style). \<lparr>sc_text = pad_right (width_at widths i) text, sc_style = style\<rparr>) (zip [0..<length cells] cells)"

definition join_padded :: "nat list \<Rightarrow> string list \<Rightarrow> string" where
  "join_padded widths cells = join ''  '' (map (\<lambda>(i, cell). pad_right (width_at widths i) cell) (zip [0..<length cells] cells))"

definition table_blocks :: "'f FloatOps \<Rightarrow> 'f CommandHost \<Rightarrow> 'f Value list \<Rightarrow> BlockContent list" where
  "table_blocks fo ho rows =
     (let columns = collect_columns rows;
          cells = map (\<lambda>row. map (cell_text_style fo ho row) columns) rows;
          widths = column_widths columns cells
      in B_SystemInfo (join_padded widths columns) # map (\<lambda>row. B_TableRow (styled_row widths row)) cells)"

definition record_blocks :: "'f CommandHost \<Rightarrow> 'f Value \<Rightarrow> BlockContent list" where
  "record_blocks ho v =
     (case as_record v of Some m \<Rightarrow> map (\<lambda>(k, x). B_Text (k @ '': '' @ scalar_to_string ho x)) m | None \<Rightarrow> [])"

definition value_to_blocks :: "'f FloatOps \<Rightarrow> 'f CommandHost \<Rightarrow> 'f Value \<Rightarrow> BlockContent list" where
  "value_to_blocks fo ho v =
     (case v of
        V_Nothing \<Rightarrow> []
      | V_List items \<Rightarrow> if list_is_table items then table_blocks fo ho items else map (\<lambda>x. B_Text (scalar_to_string ho x)) items
      | V_Record _ \<Rightarrow> record_blocks ho v
      | scalar \<Rightarrow> [B_Text (scalar_to_string ho scalar)])"

subsection \<open>The display loop\<close>

definition DISPLAY_CHUNK_ROWS :: nat where "DISPLAY_CHUNK_ROWS = 256"

definition is_system_info :: "BlockContent \<Rightarrow> bool" where
  "is_system_info b = (case b of B_SystemInfo _ \<Rightarrow> True | _ \<Rightarrow> False)"

definition chunk_to_blocks :: "'f FloatOps \<Rightarrow> 'f CommandHost \<Rightarrow> 'f Value list \<Rightarrow> bool \<Rightarrow> BlockContent list" where
  "chunk_to_blocks fo ho rows include_header =
     (let blocks = value_to_blocks fo ho (V_List rows)
      in if \<not> include_header \<and> blocks \<noteq> [] \<and> is_system_info (hd blocks) then tl blocks else blocks)"

record 'f DisplayState =
  ds_stream :: "(ExecError, 'f Value) result list"
  ds_chunk :: "'f Value list"
  ds_header_emitted :: bool
  ds_shown :: "BlockContent list"
  ds_result :: "(ExecError, unit) result option"

definition flush_chunk :: "'f FloatOps \<Rightarrow> 'f CommandHost \<Rightarrow> 'f DisplayState \<Rightarrow> 'f DisplayState" where
  "flush_chunk fo ho s =
     (if ds_chunk s = [] then s
      else s\<lparr>ds_shown := ds_shown s @ chunk_to_blocks fo ho (ds_chunk s) (\<not> ds_header_emitted s), ds_header_emitted := True, ds_chunk := []\<rparr>)"

inductive display_step :: "'f FloatOps \<Rightarrow> 'f CommandHost \<Rightarrow> 'f DisplayState \<Rightarrow> 'f DisplayState \<Rightarrow> bool" for fo ho where
  item: "ds_result s = None \<Longrightarrow> ds_stream s = Ok v # rest \<Longrightarrow> s1 = s\<lparr>ds_stream := rest, ds_chunk := ds_chunk s @ [v]\<rparr> \<Longrightarrow>
    display_step fo ho s (if DISPLAY_CHUNK_ROWS \<le> length (ds_chunk s1) then flush_chunk fo ho s1 else s1)"
| failed: "ds_result s = None \<Longrightarrow> ds_stream s = Err e # rest \<Longrightarrow> display_step fo ho s (s\<lparr>ds_stream := rest, ds_result := Some (Err e)\<rparr>)"
| finished: "ds_result s = None \<Longrightarrow> ds_stream s = [] \<Longrightarrow> display_step fo ho s ((flush_chunk fo ho s)\<lparr>ds_result := Some (Ok ())\<rparr>)"
| tick: "ds_result s = None \<Longrightarrow> display_step fo ho s (flush_chunk fo ho s)"

inductive_cases display_stepE: "display_step fo ho s s'"

definition drive_start :: "(ExecError, 'f Value) result list \<Rightarrow> 'f DisplayState" where
  "drive_start stream = \<lparr>ds_stream = stream, ds_chunk = [], ds_header_emitted = False, ds_shown = [], ds_result = None\<rparr>"

subsection \<open>The external command\<close>

definition MAX_CAPTURED_BYTES :: nat where "MAX_CAPTURED_BYTES = 2 * 1024 * 1024"

text \<open>Writing stops silently when the command has gone; an error of the stream is reported.\<close>

fun pump_stdin :: "(nat \<Rightarrow> bool) \<Rightarrow> (ExecError, string) result list \<Rightarrow> string list \<times> ExecError option" where
  "pump_stdin gone [] = ([], None)"
| "pump_stdin gone (Inl e # chunks) = ([], Some e)"
| "pump_stdin gone (Inr buf # chunks) =
     (if gone 0 then ([], None)
      else (case pump_stdin (\<lambda>n. gone (Suc n)) chunks of (written, e) \<Rightarrow> (buf # written, e)))"

text \<open>What a pipe of the child delivers, read by read; reading goes on beyond the bound, keeping does not.\<close>

fun read_pipe_capped :: "string \<Rightarrow> (string, string) result list \<Rightarrow> (ExecError, string) result" where
  "read_pipe_capped buf [] = Ok buf"
| "read_pipe_capped buf (Inl e # reads) = Err (RuntimeE ''<external>'' e)"
| "read_pipe_capped buf (Inr chunk # reads) =
     (if chunk = [] then Ok buf
      else if length buf < MAX_CAPTURED_BYTES then read_pipe_capped (buf @ take (min (length chunk) (MAX_CAPTURED_BYTES - length buf)) chunk) reads
      else read_pipe_capped buf reads)"

record ExternalOutput =
  eo_stdout :: string
  eo_stderr :: string
  eo_exit_code :: int

record ExternalRun =
  er_gone :: "nat \<Rightarrow> bool"
  er_stdout :: "string list \<Rightarrow> (string, string) result list"
  er_stderr :: "string list \<Rightarrow> (string, string) result list"
  er_status :: "string list \<Rightarrow> (string, int option) result"

text \<open>The child, as a function of what it was given on standard input.\<close>

definition drive :: "'f CommandHost \<Rightarrow> (string \<Rightarrow> (string, ExternalRun) result) \<Rightarrow> string \<Rightarrow> 'f PipelineData \<Rightarrow> (ExecError, ExternalOutput) result" where
  "drive ho spawn command d =
     (case spawn command of
        Inl e \<Rightarrow> Err (RuntimeE command e)
      | Inr child \<Rightarrow>
         (case pump_stdin (er_gone child) (value_to_bytes ho d) of
            (written, stream_error) \<Rightarrow>
              (case er_status child written of
                 Inl e \<Rightarrow> Err (RuntimeE command e)
               | Inr status \<Rightarrow>
                  (case stream_error of
                     Some e \<Rightarrow> Err e
                   | None \<Rightarrow>
                      and_then (read_pipe_capped [] (er_stdout child written)) (\<lambda>out.
                        and_then (read_pipe_capped [] (er_stderr child written)) (\<lambda>err.
                          Ok \<lparr>eo_stdout = out, eo_stderr = err, eo_exit_code = (case status of Some c \<Rightarrow> c | None \<Rightarrow> - 1)\<rparr>))))))"

definition trim_end_char :: "char \<Rightarrow> string \<Rightarrow> string" where
  "trim_end_char c s = rev (dropWhile (\<lambda>d. d = c) (rev s))"

definition into_blocks :: "'f CommandHost \<Rightarrow> ExternalOutput \<Rightarrow> BlockContent list" where
  "into_blocks ho out =
     (let stdout = trim_end_char NL (ho_lossy ho (eo_stdout out))
      in (if stdout = [] then [] else [B_Text stdout]) @
         (if eo_exit_code out \<noteq> 0 \<and> eo_stderr out \<noteq> [] then [B_Error (trim_end (ho_lossy ho (eo_stderr out)))] else []))"

subsection \<open>Running a plan\<close>

fun type_debug :: "Type \<Rightarrow> string" and columns_debug :: "(string \<times> Type) list \<Rightarrow> string list" where
  "type_debug Ty_Any = ''Any''"
| "type_debug Ty_Nothing = ''Nothing''"
| "type_debug Ty_Bool = ''Bool''"
| "type_debug Ty_Int = ''Int''"
| "type_debug Ty_Float = ''Float''"
| "type_debug Ty_Filesize = ''Filesize''"
| "type_debug Ty_Duration = ''Duration''"
| "type_debug Ty_Date = ''Date''"
| "type_debug Ty_String = ''String''"
| "type_debug Ty_Binary = ''Binary''"
| "type_debug (Ty_List t) = ''List('' @ type_debug t @ '')''"
| "type_debug (Ty_Record cs) = ''Record(['' @ join '', '' (columns_debug cs) @ ''])''"
| "type_debug Ty_Table = ''Table''"
| "type_debug Ty_ByteStream = ''ByteStream''"
| "columns_debug [] = []"
| "columns_debug ((k, t) # cs) = (''('' @ [DQ] @ k @ [DQ] @ '', '' @ type_debug t @ '')'') # columns_debug cs"

definition ticked :: "string \<Rightarrow> string" where
  "ticked s = ''`'' @ s @ ''`''"

fun exec_error_text :: "ExecError \<Rightarrow> string" where
  "exec_error_text (TypeMismatch command expected got upstream) =
     ''type mismatch: '' @ ticked command @ '' expected '' @ type_debug expected @ '' but '' @ ticked upstream @ '' produced '' @ type_debug got"
| "exec_error_text (MissingArg command name) = ticked command @ '': missing required argument '' @ ticked name"
| "exec_error_text (UnknownFlagE command flag) = ticked command @ '': unknown flag '' @ ticked flag"
| "exec_error_text (BadArgs command message) = ticked command @ '': '' @ message"
| "exec_error_text (BadValue command message) = ticked command @ '': bad value: '' @ message"
| "exec_error_text (ConversionRefused source) =
     ''conversion refused: '' @ ticked source @ '' produced bytes; an explicit converter (e.g. '' @ ticked ''from json'' @ '') is required''"
| "exec_error_text (CapabilityDenied command capability detail) =
     ticked command @ '': capability denied: '' @ capability @ '' ('' @ detail @ '')''"
| "exec_error_text (RuntimeE command message) = ticked command @ '': '' @ message"
| "exec_error_text CancelledE = ''cancelled''"
| "exec_error_text (Panicked m) = m"

datatype ShellOutcome = SO_Noop | SO_UsageError string | SO_Error string | SO_BuiltinOutput "BlockContent list"

text \<open>Showing a result: \<open>loop\<close> is a run of the display loop on a stream, to its end.\<close>

definition emit_display_stream ::
  "'f FloatOps \<Rightarrow> 'f CommandHost \<Rightarrow> ((ExecError, 'f Value) result list \<Rightarrow> BlockContent list \<times> (ExecError, unit) result) \<Rightarrow> 'f PipelineData \<Rightarrow>
   BlockContent list \<times> (ExecError, unit) result" where
  "emit_display_stream fo ho loop d =
     (case d of
        Pipe_Empty \<Rightarrow> ([], Ok ())
      | Pipe_Value v \<Rightarrow> (value_to_blocks fo ho v, Ok ())
      | Pipe_Bytes stream \<Rightarrow>
         (case drain stream of
            Inl e \<Rightarrow> ([], Err e)
          | Inr chunks \<Rightarrow>
             (let text = trim_end_char NL (ho_lossy ho (concat chunks)) in (if text = [] then [] else [B_Text text], Ok ())))
      | Pipe_List stream \<Rightarrow> loop stream)"

definition dispatch_exec ::
  "'f FloatOps \<Rightarrow> ('f CommandCtx, 'f) CommandRegistry \<Rightarrow> 'f CommandCtx \<Rightarrow> (string \<Rightarrow> (string, string) result) \<Rightarrow> (string \<Rightarrow> (string, ExternalRun) result) \<Rightarrow>
   ((ExecError, 'f Value) result list \<Rightarrow> BlockContent list \<times> (ExecError, unit) result) \<Rightarrow> ExecPlan \<Rightarrow> BlockContent list \<times> ShellOutcome" where
  "dispatch_exec fo reg ctx capture spawn loop plan =
     (case (case pl_shell_prefix plan of
              Some lead \<Rightarrow> (case capture lead of Inl e \<Rightarrow> Err e | Inr out \<Rightarrow> Ok (Pipe_Bytes [Ok out], lead))
            | None \<Rightarrow> Ok (Pipe_Empty, ''input'')) of
        Inl e \<Rightarrow> ([], SO_Error (''shell stage failed: '' @ e))
      | Inr (d, label) \<Rightarrow>
         (case snd (run_plan fo reg ctx (pl_stages plan) \<lparr>pi_data = d, pi_label = label\<rparr>) of
            Inl e \<Rightarrow> ([], if exec_exit_code e = 2 then SO_UsageError (exec_error_text e) else SO_Error (exec_error_text e))
          | Inr result \<Rightarrow>
             (case pl_external_suffix plan of
                Some suf \<Rightarrow>
                  (case drive (cx_host ctx) spawn suf result of
                     Inl e \<Rightarrow> ([], SO_Error (exec_error_text e))
                   | Inr out \<Rightarrow> ([], SO_BuiltinOutput (into_blocks (cx_host ctx) out)))
              | None \<Rightarrow>
                  (case emit_display_stream fo (cx_host ctx) loop result of
                     (blocks, Inl e) \<Rightarrow> (blocks, SO_Error (exec_error_text e))
                   | (blocks, Inr _) \<Rightarrow> (blocks, SO_Noop)))))"

section \<open>Whatever the clock does\<close>

text \<open>The blocks of a sequence of chunks: the header is shown with the first one only.\<close>

definition chunks_shown :: "'f FloatOps \<Rightarrow> 'f CommandHost \<Rightarrow> 'f Value list list \<Rightarrow> BlockContent list" where
  "chunks_shown fo ho cs =
     (case cs of [] \<Rightarrow> [] | c # rest \<Rightarrow> chunk_to_blocks fo ho c True @ concat (map (\<lambda>d. chunk_to_blocks fo ho d False) rest))"

definition good_chunks :: "'f Value list list \<Rightarrow> bool" where
  "good_chunks cs \<longleftrightarrow> list_all (\<lambda>c. c \<noteq> [] \<and> length c \<le> DISPLAY_CHUNK_ROWS) cs"

definition display_inv :: "'f FloatOps \<Rightarrow> 'f CommandHost \<Rightarrow> (ExecError, 'f Value) result list \<Rightarrow> 'f DisplayState \<Rightarrow> bool" where
  "display_inv fo ho stream s \<longleftrightarrow>
     (\<exists>cs. good_chunks cs \<and> ds_shown s = chunks_shown fo ho cs \<and> ds_header_emitted s = (cs \<noteq> []) \<and> length (ds_chunk s) < DISPLAY_CHUNK_ROWS \<and>
       (case ds_result s of
          None \<Rightarrow> map Ok (concat cs @ ds_chunk s) @ ds_stream s = stream
        | Some (Inr _) \<Rightarrow> map Ok (concat cs) = stream
        | Some (Inl e) \<Rightarrow> (\<exists>rest. map Ok (concat cs @ ds_chunk s) @ Err e # rest = stream)))"

lemma chunks_shown_snoc: "chunks_shown fo ho (cs @ [c]) = chunks_shown fo ho cs @ chunk_to_blocks fo ho c (cs = [])"
  by (cases cs) (simp_all add: chunks_shown_def)

text \<open>A flush turns the rows that wait into one more chunk.\<close>

lemma flush_inv:
  assumes "good_chunks cs" and "ds_shown s = chunks_shown fo ho cs" and "ds_header_emitted s = (cs \<noteq> [])" and "length (ds_chunk s) \<le> DISPLAY_CHUNK_ROWS"
  obtains cs' where "good_chunks cs'" and "ds_shown (flush_chunk fo ho s) = chunks_shown fo ho cs'" and "ds_header_emitted (flush_chunk fo ho s) = (cs' \<noteq> [])"
    and "ds_chunk (flush_chunk fo ho s) = []" and "concat cs' = concat cs @ ds_chunk s"
    and "ds_stream (flush_chunk fo ho s) = ds_stream s" and "ds_result (flush_chunk fo ho s) = ds_result s"
proof (cases "ds_chunk s = []")
  case True
  then show ?thesis using that [of cs] assms by (simp add: flush_chunk_def)
next
  case False
  then show ?thesis using that [of "cs @ [ds_chunk s]"] assms by (simp add: flush_chunk_def chunks_shown_snoc good_chunks_def)
qed

lemma display_step_inv:
  assumes "display_step fo ho s s'" and "display_inv fo ho stream s"
  shows "display_inv fo ho stream s'"
proof -
  have rows: "0 < DISPLAY_CHUNK_ROWS" by (simp add: DISPLAY_CHUNK_ROWS_def)
  obtain cs where cs: "good_chunks cs" "ds_shown s = chunks_shown fo ho cs" "ds_header_emitted s = (cs \<noteq> [])"
    and short: "length (ds_chunk s) < DISPLAY_CHUNK_ROWS"
    and rest: "ds_result s = None \<longrightarrow> map Ok (concat cs @ ds_chunk s) @ ds_stream s = stream"
    using assms(2) unfolding display_inv_def by (elim exE conjE) (rule that; simp split: option.splits)
  from assms(1) show ?thesis
  proof cases
    case (item v rst s1)
    have s1: "ds_shown s1 = chunks_shown fo ho cs" "ds_header_emitted s1 = (cs \<noteq> [])" "length (ds_chunk s1) \<le> DISPLAY_CHUNK_ROWS"
      using item(4) cs short by simp_all
    have r: "map Ok (concat cs @ ds_chunk s1) @ rst = stream" using rest item by simp
    show ?thesis
    proof (cases "DISPLAY_CHUNK_ROWS \<le> length (ds_chunk s1)")
      case True
      obtain cs' where f: "good_chunks cs'" "ds_shown (flush_chunk fo ho s1) = chunks_shown fo ho cs'" "ds_header_emitted (flush_chunk fo ho s1) = (cs' \<noteq> [])"
        "ds_chunk (flush_chunk fo ho s1) = []" "concat cs' = concat cs @ ds_chunk s1"
        "ds_stream (flush_chunk fo ho s1) = ds_stream s1" "ds_result (flush_chunk fo ho s1) = ds_result s1"
        by (rule flush_inv [OF cs(1) s1])
      then show ?thesis using True r rows item unfolding display_inv_def by (intro exI [of _ cs']) simp
    next
      case False
      then show ?thesis using r s1 cs item unfolding display_inv_def by (intro exI [of _ cs]) simp
    qed
  next
    case (failed e rst)
    then show ?thesis using rest cs short unfolding display_inv_def by (intro exI [of _ cs]) auto
  next
    case finished
    obtain cs' where f: "good_chunks cs'" "ds_shown (flush_chunk fo ho s) = chunks_shown fo ho cs'" "ds_header_emitted (flush_chunk fo ho s) = (cs' \<noteq> [])"
      "ds_chunk (flush_chunk fo ho s) = []" "concat cs' = concat cs @ ds_chunk s"
      "ds_stream (flush_chunk fo ho s) = ds_stream s" "ds_result (flush_chunk fo ho s) = ds_result s"
      by (rule flush_inv [OF cs less_imp_le [OF short]])
    then show ?thesis using rest rows finished unfolding display_inv_def by (intro exI [of _ cs']) simp
  next
    case tick
    obtain cs' where f: "good_chunks cs'" "ds_shown (flush_chunk fo ho s) = chunks_shown fo ho cs'" "ds_header_emitted (flush_chunk fo ho s) = (cs' \<noteq> [])"
      "ds_chunk (flush_chunk fo ho s) = []" "concat cs' = concat cs @ ds_chunk s"
      "ds_stream (flush_chunk fo ho s) = ds_stream s" "ds_result (flush_chunk fo ho s) = ds_result s"
      by (rule flush_inv [OF cs less_imp_le [OF short]])
    then show ?thesis using rest rows tick unfolding display_inv_def by (intro exI [of _ cs']) simp
  qed
qed

lemma display_run_inv: "(display_step fo ho)\<^sup>*\<^sup>* (drive_start stream) s \<Longrightarrow> display_inv fo ho stream s"
proof (induction rule: rtranclp_induct)
  case base
  show ?case unfolding display_inv_def
    by (intro exI [of _ "[]"]) (simp add: drive_start_def good_chunks_def chunks_shown_def DISPLAY_CHUNK_ROWS_def)
qed (rule display_step_inv)

section \<open>Every row once\<close>

definition shows_cell :: "'f FloatOps \<Rightarrow> 'f CommandHost \<Rightarrow> 'f Value \<Rightarrow> string \<Rightarrow> StyledCell \<Rightarrow> bool" where
  "shows_cell fo ho row column cell \<longleftrightarrow>
     (\<exists>k. sc_text cell = fst (cell_text_style fo ho row column) @ replicate k (CHR '' '')) \<and> sc_style cell = snd (cell_text_style fo ho row column)"

definition shows_row :: "'f FloatOps \<Rightarrow> 'f CommandHost \<Rightarrow> string list \<Rightarrow> 'f Value \<Rightarrow> StyledCell list \<Rightarrow> bool" where
  "shows_row fo ho columns row cells = list_all2 (shows_cell fo ho row) columns cells"

text \<open>A header: the names of the columns in their order, each padded with blanks, two blanks between them.\<close>

definition shows_header :: "string list \<Rightarrow> string \<Rightarrow> bool" where
  "shows_header columns header \<longleftrightarrow>
     (\<exists>names. header = join ''  '' names \<and> list_all2 (\<lambda>c n. \<exists>k. n = c @ replicate k (CHR '' '')) columns names)"

definition has_columns :: "string list \<Rightarrow> 'f Value \<Rightarrow> bool" where
  "has_columns columns row \<longleftrightarrow> (case as_record row of Some m \<Rightarrow> map fst m = columns | None \<Rightarrow> False)"

lemma add_known_columns: "set keys \<subseteq> set cs \<Longrightarrow> foldl (\<lambda>cs key. if key \<in> set cs then cs else cs @ [key]) cs keys = cs"
  by (induction keys) auto

lemma add_new_columns: "distinct (cs @ keys) \<Longrightarrow> foldl (\<lambda>cs key. if key \<in> set cs then cs else cs @ [key]) cs keys = cs @ keys"
  by (induction keys arbitrary: cs) auto

lemma collect_same_columns:
  assumes "rows \<noteq> []" and "\<forall>row \<in> set rows. has_columns columns row" and "distinct columns"
  shows "collect_columns rows = columns"
proof -
  let ?f = "\<lambda>cols row. case as_record row of
      Some m \<Rightarrow> foldl (\<lambda>cs key. if key \<in> set cs then cs else cs @ [key]) cols (map fst m) | None \<Rightarrow> cols"
  have known: "has_columns columns row \<Longrightarrow> ?f columns row = columns" for row :: "'a Value"
    by (auto simp: has_columns_def add_known_columns split: option.splits)
  have "\<forall>row \<in> set rs. has_columns columns row \<Longrightarrow> foldl ?f columns rs = columns" for rs :: "'a Value list"
    by (induction rs) (simp_all add: known)
  moreover obtain r rs where "rows = r # rs" using assms(1) by (cases rows) auto
  moreover have "has_columns columns r \<Longrightarrow> ?f [] r = columns" for r :: "'a Value"
    using assms(3) add_new_columns [of "[]" columns] by (auto simp: has_columns_def split: option.splits)
  ultimately show ?thesis using assms(2) by (simp add: collect_columns_def)
qed

lemma styled_row_shows: "shows_row fo ho columns row (styled_row widths (map (cell_text_style fo ho row) columns))"
  by (auto simp: shows_row_def styled_row_def list_all2_conv_all_nth shows_cell_def pad_right_def split: prod.split)

lemma join_padded_shows: "shows_header columns (join_padded widths columns)"
  unfolding shows_header_def join_padded_def
  by (rule exI, rule conjI, rule refl) (auto simp: list_all2_conv_all_nth pad_right_def)

lemma has_columns_record: "has_columns columns row \<Longrightarrow> is_record row"
  by (cases row) (auto simp: has_columns_def as_record_def is_record_def)

lemma table_shows:
  assumes "rows \<noteq> []" and "\<forall>row \<in> set rows. has_columns columns row" and "distinct columns"
  obtains header trs where "value_to_blocks fo ho (V_List rows) = B_SystemInfo header # map B_TableRow trs" and "list_all2 (shows_row fo ho columns) rows trs"
    and "shows_header columns header"
proof -
  define widths where "widths = column_widths columns (map (\<lambda>row. map (cell_text_style fo ho row) columns) rows)"
  have "list_is_table rows" using assms(1,2) has_columns_record unfolding list_is_table_def by (auto simp: list_all_iff)
  then have "value_to_blocks fo ho (V_List rows) = B_SystemInfo (join_padded widths columns) #
      map B_TableRow (map (\<lambda>row. styled_row widths (map (cell_text_style fo ho row) columns)) rows)"
    using collect_same_columns [OF assms] by (simp add: value_to_blocks_def table_blocks_def Let_def widths_def)
  moreover have "list_all2 (shows_row fo ho columns) rows (map (\<lambda>row. styled_row widths (map (cell_text_style fo ho row) columns)) rows)"
    by (simp add: list.rel_map list_all2_same styled_row_shows)
  ultimately show ?thesis by (rule that) (rule join_padded_shows)
qed

lemma later_chunks_show:
  assumes "good_chunks cs" and "\<forall>row \<in> set (concat cs). has_columns columns row" and "distinct columns"
  shows "\<exists>trs. concat (map (\<lambda>d. chunk_to_blocks fo ho d False) cs) = map B_TableRow trs \<and> list_all2 (shows_row fo ho columns) (concat cs) trs"
  using assms(1,2)
proof (induction cs)
  case (Cons c cs)
  obtain trs where t: "concat (map (\<lambda>d. chunk_to_blocks fo ho d False) cs) = map B_TableRow trs" "list_all2 (shows_row fo ho columns) (concat cs) trs"
    using Cons by (auto simp: good_chunks_def)
  have "c \<noteq> []" "\<forall>row \<in> set c. has_columns columns row" using Cons.prems by (auto simp: good_chunks_def)
  then obtain header us where u: "value_to_blocks fo ho (V_List c) = B_SystemInfo header # map B_TableRow us" "list_all2 (shows_row fo ho columns) c us"
    using table_shows assms(3) by metis
  then show ?case using t
    by (intro exI [of _ "us @ trs"]) (simp add: chunk_to_blocks_def is_system_info_def list_all2_appendI)
qed simp

lemma chunks_show:
  assumes "good_chunks cs" and "cs \<noteq> []" and "\<forall>row \<in> set (concat cs). has_columns columns row" and "distinct columns"
  shows "\<exists>header trs. chunks_shown fo ho cs = B_SystemInfo header # map B_TableRow trs \<and> shows_header columns header \<and>
    list_all2 (shows_row fo ho columns) (concat cs) trs"
proof -
  obtain c ds where cs: "cs = c # ds" using assms(2) by (cases cs) auto
  have "c \<noteq> []" "\<forall>row \<in> set c. has_columns columns row" using assms(1,3) cs by (auto simp: good_chunks_def)
  then obtain header us where u: "value_to_blocks fo ho (V_List c) = B_SystemInfo header # map B_TableRow us" "list_all2 (shows_row fo ho columns) c us"
    "shows_header columns header" using table_shows assms(4) by metis
  obtain trs where t: "concat (map (\<lambda>d. chunk_to_blocks fo ho d False) ds) = map B_TableRow trs" "list_all2 (shows_row fo ho columns) (concat ds) trs"
    using later_chunks_show [of ds columns fo ho] assms cs by (auto simp: good_chunks_def)
  show ?thesis using u t cs
    by (intro exI [of _ header] exI [of _ "us @ trs"]) (simp add: chunks_shown_def chunk_to_blocks_def list_all2_appendI)
qed

text \<open>The loop can always go on to its end.\<close>

lemma display_progress: "ds_result s = None \<Longrightarrow> \<exists>s'. (display_step fo ho)\<^sup>*\<^sup>* s s' \<and> ds_result s' \<noteq> None"
proof (induction "ds_stream s" arbitrary: s)
  case Nil
  then show ?case using display_step.finished [of s fo ho] by (intro exI [of _ "(flush_chunk fo ho s)\<lparr>ds_result := Some (Ok ())\<rparr>"]) auto
next
  case (Cons x xs)
  show ?case
  proof (cases x)
    case (Inl e)
    then show ?thesis using display_step.failed [of s e xs fo ho] Cons(2,3) by (intro exI [of _ "s\<lparr>ds_stream := xs, ds_result := Some (Err e)\<rparr>"]) auto
  next
    case (Inr v)
    define s1 where "s1 = s\<lparr>ds_stream := xs, ds_chunk := ds_chunk s @ [v]\<rparr>"
    define s2 where "s2 = (if DISPLAY_CHUNK_ROWS \<le> length (ds_chunk s1) then flush_chunk fo ho s1 else s1)"
    have step: "display_step fo ho s s2" unfolding s2_def using display_step.item [OF Cons(3) _ s1_def] Cons(2) Inr by simp
    have "ds_stream s2 = xs" "ds_result s2 = None" using Cons(3) by (auto simp: s2_def s1_def flush_chunk_def)
    then obtain s' where "(display_step fo ho)\<^sup>*\<^sup>* s2 s'" "ds_result s' \<noteq> None" using Cons(1) [of s2] by auto
    then show ?thesis using converse_rtranclp_into_rtranclp [of "display_step fo ho", OF step] by blast
  qed
qed

text \<open>C34. A table on the screen is the table that was computed. The stream is one that yields at least one row and no error, and whose rows all have the same
distinct columns. However its rows and the ticks of the clock interleave, once the display loop has ended it has succeeded, the header, the names of
the columns in order, has been shown exactly once, before the rows, and after it come the rows of the stream, each once and in order, every cell holding the
text of its column padded with blanks in the style of its value. From every state on the way the loop can end. (A stream with an error drops the rows that
wait to be shown: see \<open>failed_stream_drops_rows\<close>.)
\<close>

theorem display_rows_once:
  assumes "rows \<noteq> []" and "\<forall>row \<in> set rows. has_columns columns row" and "distinct columns"
    and "(display_step fo ho)\<^sup>*\<^sup>* (drive_start (map Ok rows)) s"
  shows "(\<exists>s'. (display_step fo ho)\<^sup>*\<^sup>* s s' \<and> ds_result s' \<noteq> None) \<and>
    (ds_result s \<noteq> None \<longrightarrow>
       ds_result s = Some (Ok ()) \<and>
       (\<exists>header trs. ds_shown s = B_SystemInfo header # map B_TableRow trs \<and> shows_header columns header \<and>
         list_all2 (shows_row fo ho columns) rows trs))"
proof -
  have "ds_result s = Some (Ok ()) \<and> (\<exists>header trs. ds_shown s = B_SystemInfo header # map B_TableRow trs \<and> shows_header columns header \<and>
         list_all2 (shows_row fo ho columns) rows trs)"
    if r: "ds_result s = Some r" for r
  proof -
    let ?stream = "map Ok rows :: (ExecError, 'a Value) result list"
    from display_run_inv [OF assms(4)] obtain cs where cs: "good_chunks cs" "ds_shown s = chunks_shown fo ho cs"
      and c: "case r of Inr _ \<Rightarrow> map Ok (concat cs) = ?stream | Inl e \<Rightarrow> (\<exists>rest. map Ok (concat cs @ ds_chunk s) @ Err e # rest = ?stream)"
      unfolding display_inv_def r by (elim exE conjE) (rule that; simp)
    have no_err: "map Ok (xs :: 'a Value list) @ Err e # rest \<noteq> map Ok rows" for xs and e :: ExecError and rest
    proof
      assume "map Ok xs @ Err e # rest = map Ok rows"
      then have "Err e \<in> set (map Ok rows)" by (metis in_set_conv_decomp)
      then show False by auto
    qed
    obtain u where u: "r = Ok u" "map Ok (concat cs) = ?stream" using c no_err [of "concat cs @ ds_chunk s"] by (cases r) auto
    have rows: "concat cs = rows" using u(2) by (simp add: inj_map_eq_map)
    then have "cs \<noteq> []" using assms(1) by auto
    then show ?thesis using chunks_show [OF cs(1) _ _ assms(3), of fo ho] assms(2) rows cs(2) r u(1) by auto
  qed
  moreover have "\<exists>s'. (display_step fo ho)\<^sup>*\<^sup>* s s' \<and> ds_result s' \<noteq> None"
    using display_progress [of s fo ho] by (cases "ds_result s") auto
  ultimately show ?thesis by auto
qed

definition sample_table :: "int Value list" where
  "sample_table = [V_Record [(''name'', V_String ''ada''), (''status'', V_String ''idle'')], V_Record [(''name'', V_String ''bob''), (''status'', V_String ''error'')]]"

theorem display_rows_once_witness:
  "\<exists>s header trs. (display_step int_floats bare_host)\<^sup>*\<^sup>* (drive_start (map Ok sample_table)) s \<and> ds_result s = Some (Ok ()) \<and>
     ds_shown s = B_SystemInfo header # map B_TableRow trs \<and> shows_header [''name'', ''status''] header \<and>
     list_all2 (shows_row int_floats bare_host [''name'', ''status'']) sample_table trs"
proof -
  have t: "sample_table \<noteq> []" "\<forall>row \<in> set sample_table. has_columns [''name'', ''status''] row" "distinct [''name'', ''status'']"
    by (simp_all add: sample_table_def has_columns_def as_record_def)
  obtain s where s: "(display_step int_floats bare_host)\<^sup>*\<^sup>* (drive_start (map Ok sample_table)) s" "ds_result s \<noteq> None"
    using display_rows_once [OF t rtranclp.rtrancl_refl, of int_floats bare_host] by blast
  then show ?thesis using display_rows_once [OF t s(1)] by blast
qed

text \<open>An error of the stream ends the loop before what waits is shown.\<close>

lemma failed_stream_drops_rows:
  "(display_step fo ho)\<^sup>*\<^sup>* (drive_start [Ok v, Err e])
     \<lparr>ds_stream = [], ds_chunk = [v], ds_header_emitted = False, ds_shown = [], ds_result = Some (Err e)\<rparr>"
proof -
  let ?s = "\<lparr>ds_stream = [Err e], ds_chunk = [v], ds_header_emitted = False, ds_shown = [], ds_result = None\<rparr>"
  have "display_step fo ho (drive_start [Ok v, Err e]) ?s"
    using display_step.item [of "drive_start [Ok v, Err e]" v "[Err e]"] by (simp add: drive_start_def DISPLAY_CHUNK_ROWS_def)
  moreover have "display_step fo ho ?s (?s\<lparr>ds_stream := [], ds_result := Some (Err e)\<rparr>)" by (rule display_step.failed) simp_all
  ultimately show ?thesis by auto
qed

end
