(* ===== verification/Approvals.thy ===== *)
theory Approvals
  imports Exec_Commands
begin

section \<open>Approvals\<close>

text \<open>
  Models \<^verbatim>\<open>crates/orkia-shell/src/approval.rs\<close> and the approve and deny commands of \<^verbatim>\<open>crates/orkia-shell/src/repl/approval.rs\<close> and \<^verbatim>\<open>repl/journal.rs\<close>.
  The janitor thread is the other end of two queues: it takes one command at a time, reads the run directories and answers with the requests it found.
  What it does, what the user does and what agents do to their files interleave as the steps of a relation. JSON, the clock, the environment, the
  terminals of jobs and the RFC service are arguments.
\<close>

subsection \<open>Requests and the watcher\<close>

record ApprovalRequest =
  aq_action :: string
  aq_description :: "string option"
  aq_risk :: "string option"
  aq_files_changed :: "string list option"
  aq_metadata :: "Json option"

record ApprovalResponse =
  as_approved :: bool
  as_responded_at :: string
  as_responded_by :: string

datatype ApprovalSource = Source_File | Source_Hook

record PendingApproval =
  pa_job_id :: JobId
  pa_request :: ApprovalRequest
  pa_request_path :: path
  pa_response_path :: path
  pa_received_at :: string
  pa_source :: ApprovalSource

datatype JanitorCmd = Scan "JobId list" | Cleanup JobId

text \<open>The watcher with the janitor's side of the queues; without a janitor there is no queue of commands.\<close>

record ApprovalWatcher =
  aw_run_dir :: path
  aw_pending :: "PendingApproval list"
  aw_cmds :: "JanitorCmd list option"
  aw_discovered :: "PendingApproval list"
  aw_seen :: "JobId list"

record ApprovalHost =
  ah_io :: Io
  ah_now :: string
  ah_detached :: "string option"
  ah_decode :: "string \<Rightarrow> ApprovalRequest option"
  ah_encode :: "ApprovalResponse \<Rightarrow> (string, string) result"
  ah_kept :: "path \<Rightarrow> bool"

definition APPROVAL_REQUEST_MAX_BYTES :: int where "APPROVAL_REQUEST_MAX_BYTES = 64 * 1024"

definition job_dir_name :: "ApprovalHost \<Rightarrow> JobId \<Rightarrow> string" where
  "job_dir_name ah j = (case ah_detached ah of Some daemon \<Rightarrow> if daemon \<noteq> [] then daemon @ ''-'' @ show_id j else show_id j | None \<Rightarrow> show_id j)"

definition create_job_dir :: "ApprovalHost \<Rightarrow> ApprovalWatcher \<Rightarrow> JobId \<Rightarrow> path" where
  "create_job_dir ah w j = path_join (aw_run_dir w) (job_dir_name ah j)"

definition request_file :: "ApprovalHost \<Rightarrow> path \<Rightarrow> JobId \<Rightarrow> path" where
  "request_file ah run_dir j = path_join (path_join run_dir (job_dir_name ah j)) ''approval.request.json''"

definition response_file :: "ApprovalHost \<Rightarrow> path \<Rightarrow> JobId \<Rightarrow> path" where
  "response_file ah run_dir j = path_join (path_join run_dir (job_dir_name ah j)) ''approval.response.json''"

definition watcher_new :: "bool \<Rightarrow> path \<Rightarrow> ApprovalWatcher" where
  "watcher_new spawned data_dir =
     \<lparr>aw_run_dir = path_join data_dir ''run'', aw_pending = [], aw_cmds = (if spawned then Some [] else None), aw_discovered = [], aw_seen = []\<rparr>"

definition is_degraded :: "ApprovalWatcher \<Rightarrow> bool" where
  "is_degraded w = (aw_cmds w = None)"

definition has_pending :: "JobId \<Rightarrow> PendingApproval list \<Rightarrow> bool" where
  "has_pending j ps = list_ex (\<lambda>p. pa_job_id p = j) ps"

fun absorb_discovered :: "PendingApproval list \<Rightarrow> PendingApproval list \<Rightarrow> PendingApproval list \<times> PendingApproval list" where
  "absorb_discovered pending [] = (pending, [])"
| "absorb_discovered pending (p # ps) =
     (if has_pending (pa_job_id p) pending then absorb_discovered pending ps
      else (case absorb_discovered (pending @ [p]) ps of (pending', new) \<Rightarrow> (pending', p # new)))"

definition approvals_poll :: "JobId list \<Rightarrow> ApprovalWatcher \<Rightarrow> ApprovalWatcher \<times> PendingApproval list" where
  "approvals_poll active w =
     (case absorb_discovered (aw_pending w) (aw_discovered w) of (pending, new) \<Rightarrow>
        (w\<lparr>aw_pending := pending, aw_discovered := [],
           aw_cmds := (if active \<noteq> [] then map_option (\<lambda>q. q @ [Scan active]) (aw_cmds w) else aw_cmds w)\<rparr>, new))"

definition approvals_resolve ::
  "ApprovalHost \<Rightarrow> JobId \<Rightarrow> bool \<Rightarrow> ApprovalWatcher \<Rightarrow> fs \<Rightarrow> ApprovalWatcher \<times> fs \<times> (string, PendingApproval) result" where
  "approvals_resolve ah j approved w fs =
     (case List.extract (\<lambda>p. pa_job_id p = j) (aw_pending w) of
        None \<Rightarrow> (w, fs, Err ''no pending approval for this job'')
      | Some (before, p, after) \<Rightarrow>
         (let w' = w\<lparr>aw_pending := before @ after\<rparr>
          in if pa_source p = Source_File
             then (case ah_encode ah \<lparr>as_approved = approved, as_responded_at = ah_now ah, as_responded_by = ''user''\<rparr> of
                     Inl e \<Rightarrow> (w', fs, Err e)
                   | Inr json \<Rightarrow>
                      (case fs_fill (ah_io ah) ''resolve'' ''resolve'' (pa_response_path p) json fs of
                         (fs', Inl e) \<Rightarrow> (w', fs', Err (snd e))
                       | (fs', Inr _) \<Rightarrow> (w', fs', Ok p)))
             else (w', fs, Ok p)))"

definition push_from_hook :: "ApprovalHost \<Rightarrow> JobId \<Rightarrow> ApprovalRequest \<Rightarrow> ApprovalWatcher \<Rightarrow> ApprovalWatcher \<times> bool" where
  "push_from_hook ah j request w =
     (if has_pending j (aw_pending w) then (w, False)
      else (w\<lparr>aw_pending := aw_pending w @
             [\<lparr>pa_job_id = j, pa_request = request, pa_request_path = request_file ah (aw_run_dir w) j,
               pa_response_path = response_file ah (aw_run_dir w) j, pa_received_at = ah_now ah, pa_source = Source_Hook\<rparr>]\<rparr>, True))"

definition cleanup_job :: "JobId \<Rightarrow> ApprovalWatcher \<Rightarrow> ApprovalWatcher" where
  "cleanup_job j w =
     w\<lparr>aw_pending := filter (\<lambda>p. pa_job_id p \<noteq> j) (aw_pending w), aw_cmds := map_option (\<lambda>q. q @ [Cleanup j]) (aw_cmds w)\<rparr>"

subsection \<open>The janitor\<close>

text \<open>A file longer than the bound is an error, however it is cut.\<close>

definition read_bounded_string :: "ApprovalHost \<Rightarrow> path \<Rightarrow> int \<Rightarrow> fs \<Rightarrow> (string, string) result" where
  "read_bounded_string ah p cap fs =
     (case io_err (ah_io ah) ''approval'' Open of
        Some e \<Rightarrow> Err e
      | None \<Rightarrow>
         (case fs p of
            None \<Rightarrow> Err ''No such file or directory''
          | Some content \<Rightarrow>
             (case io_err (ah_io ah) ''approval'' Read of
                Some e \<Rightarrow> Err e
              | None \<Rightarrow> if cap < utf8_len content then Err (''approval.request.json exceeds '' @ show_int cap @ ''-byte cap'') else Ok content)))"

definition scan_job :: "ApprovalHost \<Rightarrow> path \<Rightarrow> fs \<Rightarrow> JobId \<Rightarrow> PendingApproval option" where
  "scan_job ah run_dir fs j =
     (if fs (response_file ah run_dir j) \<noteq> None \<or> fs (request_file ah run_dir j) = None then None
      else (case read_bounded_string ah (request_file ah run_dir j) APPROVAL_REQUEST_MAX_BYTES fs of
              Inl _ \<Rightarrow> None
            | Inr content \<Rightarrow>
               (case ah_decode ah content of
                  None \<Rightarrow> None
                | Some request \<Rightarrow>
                    Some \<lparr>pa_job_id = j, pa_request = request, pa_request_path = request_file ah run_dir j,
                      pa_response_path = response_file ah run_dir j, pa_received_at = ah_now ah, pa_source = Source_File\<rparr>)))"

fun scan_loop :: "ApprovalHost \<Rightarrow> path \<Rightarrow> fs \<Rightarrow> JobId list \<Rightarrow> JobId list \<Rightarrow> JobId list \<times> PendingApproval list" where
  "scan_loop ah run_dir fs [] seen = (seen, [])"
| "scan_loop ah run_dir fs (j # jobs) seen =
     (if j \<in> set seen then scan_loop ah run_dir fs jobs seen
      else (case scan_job ah run_dir fs j of
              None \<Rightarrow> scan_loop ah run_dir fs jobs seen
            | Some p \<Rightarrow> (case scan_loop ah run_dir fs jobs (j # seen) of (seen', found) \<Rightarrow> (seen', p # found))))"

definition scan_jobs :: "ApprovalHost \<Rightarrow> path \<Rightarrow> fs \<Rightarrow> JobId list \<Rightarrow> JobId list \<Rightarrow> JobId list \<times> PendingApproval list" where
  "scan_jobs ah run_dir fs jobs seen = scan_loop ah run_dir fs jobs (filter (\<lambda>i. i \<in> set jobs) seen)"

definition remove_dir_all :: "ApprovalHost \<Rightarrow> path \<Rightarrow> fs \<Rightarrow> fs" where
  "remove_dir_all ah dir fs =
     (\<lambda>p. if prefix dir p \<and> (io_err (ah_io ah) ''cleanup'' Remove = None \<or> \<not> ah_kept ah p) then None else fs p)"

text \<open>One round of the janitor's loop.\<close>

definition janitor_round :: "ApprovalHost \<Rightarrow> ApprovalWatcher \<Rightarrow> fs \<Rightarrow> ApprovalWatcher \<times> fs" where
  "janitor_round ah w fs =
     (case aw_cmds w of
        Some (Scan jobs # cmds) \<Rightarrow>
          (case scan_jobs ah (aw_run_dir w) fs jobs (aw_seen w) of (seen, found) \<Rightarrow>
             (w\<lparr>aw_cmds := Some cmds, aw_seen := seen, aw_discovered := aw_discovered w @ found\<rparr>, fs))
      | Some (Cleanup j # cmds) \<Rightarrow>
          (w\<lparr>aw_cmds := Some cmds, aw_seen := filter (\<lambda>i. i \<noteq> j) (aw_seen w)\<rparr>,
           remove_dir_all ah (path_join (aw_run_dir w) (job_dir_name ah j)) fs)
      | _ \<Rightarrow> (w, fs))"

subsection \<open>Approve and deny\<close>

text \<open>What a decision does outside the watcher.\<close>

datatype ApprovalFx =
    Fx_Audit JobId string string Json
  | Fx_Pty JobId string
  | Fx_Journal JournalEnvelope
  | Fx_Resolved JobId
  | Fx_PromptResolved JobId
  | Fx_Promote string string
  | Fx_Blocking JobId string string string

record ResolutionHost =
  rh_label :: "JobId \<Rightarrow> string"
  rh_waiting :: "JobId \<Rightarrow> bool"
  rh_write_pty :: "JobId \<Rightarrow> string \<Rightarrow> (string, unit) result"
  rh_has_project :: "string \<Rightarrow> bool"
  rh_promote :: "string \<Rightarrow> string \<Rightarrow> (string, string) result"

definition resolution_verb :: "bool \<Rightarrow> string" where
  "resolution_verb approved = (if approved then ''approved'' else ''denied'')"

definition resolution_envelope :: "string \<Rightarrow> JobId \<Rightarrow> string \<Rightarrow> bool \<Rightarrow> JournalEnvelope" where
  "resolution_envelope now j action approved =
     (envelope_now now Seal)\<lparr>je_job_id := Some j, je_event := Some ''approval.resolved'', je_action := Some action, je_source := Some ''orkia'',
       je_description := Some (resolution_verb approved)\<rparr>"

definition approval_audit :: "JobId \<Rightarrow> string \<Rightarrow> bool \<Rightarrow> Json" where
  "approval_audit j action approved = JObj [(''job_id'', JInt (int (unat j))), (''action'', JStr action), (''approved'', JBool approved)]"

definition check_mark :: string where "check_mark = [CHR 0xE2, CHR 0x9C, CHR 0x93]"

definition resolve_detector_pending ::
  "ApprovalHost \<Rightarrow> ResolutionHost \<Rightarrow> JobId \<Rightarrow> bool \<Rightarrow> ApprovalFx list \<times> (string, BlockContent list) result" where
  "resolve_detector_pending ah rh j approved =
     (let bytes = (if approved then [CHR 0x0D] else ''q'')
      in case rh_write_pty rh j bytes of
           Inl e \<Rightarrow> ([Fx_Pty j bytes], Err (''approve: pty write failed: '' @ e))
         | Inr _ \<Rightarrow>
             ([Fx_Pty j bytes, Fx_PromptResolved j, Fx_Audit j (rh_label rh j) ''approval'' (approval_audit j ''detector.prompt'' approved),
               Fx_Journal (resolution_envelope (ah_now ah) j ''detector.prompt'' approved)],
              Ok [B_SystemInfo (check_mark @ '' ['' @ show_id j @ ''] '' @ resolution_verb approved @ '' (detector prompt)'')]))"

definition promote_target :: "Json option \<Rightarrow> (string \<times> string) option" where
  "promote_target meta =
     Option.bind meta (\<lambda>m. Option.bind (Option.bind (json_get ''slug'' m) json_as_str) (\<lambda>slug.
       Option.bind (Option.bind (json_get ''project'' m) json_as_str) (\<lambda>project. Some (project, slug))))"

definition maybe_rfc_promote :: "ResolutionHost \<Rightarrow> bool \<Rightarrow> string \<Rightarrow> Json option \<Rightarrow> ApprovalFx list \<times> BlockContent option" where
  "maybe_rfc_promote rh approved action rfc_metadata =
     (if \<not> approved \<or> action \<noteq> ''rfc.promote'' then ([], None)
      else (case promote_target rfc_metadata of
              None \<Rightarrow> ([], None)
            | Some (project, slug) \<Rightarrow>
                if \<not> rh_has_project rh project then ([], None)
                else
                  ([Fx_Audit 0 [] ''rfc.approved'' (JObj [(''rfc_id'', JStr slug), (''project'', JStr project), (''operation'', JStr ''promote''),
                      (''approver'', JStr ''human'')]),
                    Fx_Promote project slug],
                   Some (case rh_promote rh project slug of
                      Inr state \<Rightarrow> B_SystemInfo (''rfc '' @ slug @ '' promoted: now '' @ state)
                    | Inl e \<Rightarrow> B_Error (''approve accepted but promote failed: '' @ e)))))"

definition emit_resolution ::
  "ApprovalHost \<Rightarrow> ResolutionHost \<Rightarrow> JobId \<Rightarrow> bool \<Rightarrow> string \<Rightarrow> Json option \<Rightarrow> PendingApproval \<Rightarrow> ApprovalFx list \<times> BlockContent list" where
  "emit_resolution ah rh j approved action rfc_metadata p =
     (case maybe_rfc_promote rh approved action rfc_metadata of (promoted, rfc_block) \<Rightarrow>
        ([Fx_Audit j (rh_label rh j) ''approval'' (approval_audit j action approved)] @
         (if pa_source p = Source_Hook then [Fx_Pty j (if approved then [CHR ''y'', NL] else [CHR ''n'', NL])] else []) @
         [Fx_Journal (resolution_envelope (ah_now ah) j action approved)] @ promoted,
         B_SystemInfo (check_mark @ '' ['' @ show_id j @ ''] '' @ resolution_verb approved @ middle_dot @ ''SEAL record created'') #
           (case rfc_block of Some b \<Rightarrow> [b] | None \<Rightarrow> [])))"

definition list_pending_blocks :: "PendingApproval list \<Rightarrow> BlockContent list" where
  "list_pending_blocks pending =
     [B_SystemInfo (show_nat (length pending) @ '' pending approval(s)'')] @
     map (\<lambda>p. B_Approval (''job:'' @ show_id (pa_job_id p)) (aq_action (pa_request p)) (or_str (aq_risk (pa_request p)) ''unknown'')) pending @
     [B_SystemInfo (''use '' @ [SQ] @ ''orkia approve <job_id>'' @ [SQ] @ '' or '' @ [SQ] @ ''orkia deny <job_id>'' @ [SQ] @ '' to respond'')]"

definition handle_resolution_empty ::
  "ApprovalHost \<Rightarrow> ResolutionHost \<Rightarrow> string list \<Rightarrow> bool \<Rightarrow> ApprovalFx list \<times> (string, BlockContent list) result" where
  "handle_resolution_empty ah rh args approved =
     (case (case args of a # _ \<Rightarrow> parse_u32 a | [] \<Rightarrow> None) of
        Some j \<Rightarrow> if rh_waiting rh j then resolve_detector_pending ah rh j approved else ([], Ok [B_SystemInfo ''no pending approvals''])
      | None \<Rightarrow> ([], Ok [B_SystemInfo ''no pending approvals'']))"

definition handle_resolution ::
  "ApprovalHost \<Rightarrow> ResolutionHost \<Rightarrow> string list \<Rightarrow> bool \<Rightarrow> ApprovalWatcher \<Rightarrow> fs \<Rightarrow>
   ApprovalWatcher \<times> fs \<times> ApprovalFx list \<times> (string, BlockContent list) result" where
  "handle_resolution ah rh args approved w fs =
     (if aw_pending w = [] then (w, fs, handle_resolution_empty ah rh args approved)
      else (case args of
              [] \<Rightarrow> (w, fs, [], Ok (list_pending_blocks (aw_pending w)))
            | target # _ \<Rightarrow>
               (case parse_u32 target of
                  None \<Rightarrow> (w, fs, [], Err (''invalid job id: '' @ target))
                | Some j \<Rightarrow>
                   (let entry = find (\<lambda>p. pa_job_id p = j) (aw_pending w);
                        action = (case entry of Some p \<Rightarrow> aq_action (pa_request p) | None \<Rightarrow> []);
                        rfc_metadata = Option.bind entry (\<lambda>p. Option.bind (aq_metadata (pa_request p)) (json_get ''rfc''))
                    in case approvals_resolve ah j approved w fs of
                         (w', fs', Inl e) \<Rightarrow> (w', fs', [], Err e)
                       | (w', fs', Inr p) \<Rightarrow>
                          (case emit_resolution ah rh j approved action rfc_metadata p of
                             (fx, blocks) \<Rightarrow> (w', fs', Fx_Resolved j # fx, Ok blocks))))))"

definition hook_request :: "JournalEnvelope \<Rightarrow> ApprovalRequest" where
  "hook_request env =
     \<lparr>aq_action = (case je_action env of Some a \<Rightarrow> a | None \<Rightarrow> or_str (je_tool env) ''request''), aq_description = je_description env, aq_risk = je_risk env,
      aq_files_changed = None, aq_metadata = None\<rparr>"

definition absorb_hook_approval :: "ApprovalHost \<Rightarrow> JournalEnvelope \<Rightarrow> ApprovalWatcher \<Rightarrow> ApprovalWatcher \<times> ApprovalFx list" where
  "absorb_hook_approval ah env w =
     (case je_job_id env of
        None \<Rightarrow> (w, [])
      | Some j \<Rightarrow>
         (case push_from_hook ah j (hook_request env) w of
            (w', True) \<Rightarrow>
              (w', [Fx_Blocking j (or_str (je_agent env) (''job:'' @ show_id j)) (aq_action (hook_request env)) (or_str (je_risk env) ''unknown'')])
          | (w', False) \<Rightarrow> (w', [])))"

definition render_approval_card :: "PendingApproval \<Rightarrow> BlockContent list" where
  "render_approval_card p =
     [B_Approval (''job:'' @ show_id (pa_job_id p)) (aq_action (pa_request p)) (or_str (aq_risk (pa_request p)) ''unknown'')] @
     (case aq_description (pa_request p) of Some desc \<Rightarrow> [B_SystemInfo (''  '' @ desc)] | None \<Rightarrow> []) @
     (case aq_files_changed (pa_request p) of Some files \<Rightarrow> map (\<lambda>f. B_Text (''  '' @ f)) files | None \<Rightarrow> [])"

definition poll_approvals :: "JobInfo list \<Rightarrow> ApprovalWatcher \<Rightarrow> ApprovalWatcher \<times> ApprovalFx list \<times> BlockContent list" where
  "poll_approvals jobs w =
     (let active = map ji_id (filter (\<lambda>j. ji_state j = JS_Running \<or> ji_state j = JS_Foreground) jobs)
      in case approvals_poll active w of (w', new) \<Rightarrow>
           (w',
            map (\<lambda>p. Fx_Blocking (pa_job_id p)
                   (case find (\<lambda>j. ji_id j = pa_job_id p) jobs of Some j \<Rightarrow> ji_label j | None \<Rightarrow> ''job:'' @ show_id (pa_job_id p))
                   (aq_action (pa_request p)) (or_str (aq_risk (pa_request p)) ''unknown'')) new,
            concat (map (\<lambda>p. render_approval_card p @
                     [B_SystemInfo (''  use '' @ [SQ] @ ''orkia approve '' @ show_id (pa_job_id p) @ [SQ] @ '' or '' @ [SQ] @ ''orkia deny '' @ show_id (pa_job_id p) @ [SQ] @
                        '' to respond'')]) new)))"

section \<open>A decision reaches the job it was made for\<close>

subsection \<open>Each job has its own files\<close>

lemma last_component:
  assumes "CHR ''/'' \<notin> set b" and "CHR ''.'' \<notin> set b" and "b \<noteq> []"
  shows "last (path_comps (a @ b)) = last (split_on (CHR ''/'') a) @ b" and "path_comps (a @ b) \<noteq> []"
proof -
  have "last (split_on (CHR ''/'') a) @ b \<noteq> ''.''" using assms(2,3) by (cases b rule: rev_cases) (auto simp: append_eq_Cons_conv)
  then have "path_comps (a @ b) = filter (\<lambda>c. c \<noteq> [] \<and> c \<noteq> ''.'') (butlast (split_on (CHR ''/'') a)) @ [last (split_on (CHR ''/'') a) @ b]"
    using assms(3) by (simp add: path_comps_def split_on_append_no_sep [OF assms(1)])
  then show "last (path_comps (a @ b)) = last (split_on (CHR ''/'') a) @ b" "path_comps (a @ b) \<noteq> []" by simp_all
qed

lemma show_id_component: "CHR ''/'' \<notin> set (show_id j)" "CHR ''.'' \<notin> set (show_id j)" "show_id j \<noteq> []"
  using show_nat_digits [of "unat j"] by (auto simp: show_id_def is_digit_def list_all_iff)

lemma job_dir_name_inject: "path_comps (job_dir_name ah i) = path_comps (job_dir_name ah j) \<Longrightarrow> i = j"
proof -
  assume eq: "path_comps (job_dir_name ah i) = path_comps (job_dir_name ah j)"
  have "\<exists>a. \<forall>j. job_dir_name ah j = a @ show_id j"
    by (cases "ah_detached ah") (auto simp: job_dir_name_def intro: exI [of _ "[]"])
  then obtain a where a: "\<And>j. job_dir_name ah j = a @ show_id j" by blast
  have "last (path_comps (a @ show_id i)) = last (path_comps (a @ show_id j))" using eq unfolding a by (rule arg_cong)
  then have "show_id i = show_id j" unfolding last_component(1) [OF show_id_component] by (rule same_append_eq [THEN iffD1])
  then show "i = j" by (simp add: show_id_def word_unat_eq_iff)
qed

lemma file_names: "path_comps ''approval.response.json'' = [''approval.response.json'']" "path_comps ''approval.request.json'' = [''approval.request.json'']"
  by code_simp+

lemma response_file_inject: "response_file ah run_dir i = response_file ah run_dir j \<longleftrightarrow> i = j"
  using job_dir_name_inject [of ah i j] by (auto simp: response_file_def path_join_def file_names)

lemma response_file_cong: "ah_detached ah = ah_detached ah' \<Longrightarrow> response_file ah run_dir j = response_file ah' run_dir j"
  by (simp add: response_file_def job_dir_name_def)

subsection \<open>The queue at any moment\<close>

inductive approval_step :: "string option \<Rightarrow> ApprovalWatcher \<times> fs \<Rightarrow> ApprovalWatcher \<times> fs \<Rightarrow> bool" for det where
  polled: "approval_step det (w, fs) (fst (approvals_poll active w), fs)"
| decided: "ah_detached ah = det \<Longrightarrow> handle_resolution ah rh args approved w fs = (w', fs', out) \<Longrightarrow> approval_step det (w, fs) (w', fs')"
| asked: "ah_detached ah = det \<Longrightarrow> approval_step det (w, fs) (fst (absorb_hook_approval ah env w), fs)"
| ended: "approval_step det (w, fs) (cleanup_job j w, fs)"
| swept: "ah_detached ah = det \<Longrightarrow> approval_step det (w, fs) (janitor_round ah w fs)"
| wrote: "approval_step det (w, fs) (w, fs')"

definition own_paths :: "string option \<Rightarrow> path \<Rightarrow> PendingApproval \<Rightarrow> bool" where
  "own_paths det run_dir p \<longleftrightarrow> (\<forall>ah. ah_detached ah = det \<longrightarrow> pa_response_path p = response_file ah run_dir (pa_job_id p))"

definition approvals_inv :: "string option \<Rightarrow> path \<Rightarrow> ApprovalWatcher \<Rightarrow> bool" where
  "approvals_inv det run_dir w \<longleftrightarrow> aw_run_dir w = run_dir \<and> distinct (map pa_job_id (aw_pending w)) \<and>
     (\<forall>p \<in> set (aw_pending w) \<union> set (aw_discovered w). own_paths det run_dir p)"

lemma has_pending_iff [simp]: "has_pending j ps \<longleftrightarrow> j \<in> pa_job_id ` set ps"
  by (auto simp: has_pending_def list_ex_iff)

lemma absorb_discovered_inv:
  "distinct (map pa_job_id pending) \<Longrightarrow> absorb_discovered pending found = (pending', new) \<Longrightarrow>
   distinct (map pa_job_id pending') \<and> set pending' \<subseteq> set pending \<union> set found"
proof (induction found arbitrary: pending pending' new)
  case (Cons p found)
  show ?case
  proof (cases "has_pending (pa_job_id p) pending")
    case True
    then show ?thesis using Cons.IH [OF Cons.prems(1)] Cons.prems(2) by auto
  next
    case False
    obtain q n where q: "absorb_discovered (pending @ [p]) found = (q, n)" by fastforce
    then show ?thesis using Cons.IH [of "pending @ [p]" q n] Cons.prems False by auto
  qed
qed simp

lemma scan_loop_found: "scan_loop ah run_dir fs jobs seen = (seen', found) \<Longrightarrow> p \<in> set found \<Longrightarrow> \<exists>j. scan_job ah run_dir fs j = Some p"
proof (induction jobs arbitrary: seen seen' found)
  case (Cons j jobs)
  then show ?case by (fastforce split: if_splits option.splits prod.splits)
qed simp

lemma scan_job_own: "scan_job ah run_dir fs j = Some p \<Longrightarrow> own_paths (ah_detached ah) run_dir p"
  by (auto simp: scan_job_def own_paths_def response_file_def job_dir_name_def split: if_splits option.splits sum.splits)

text \<open>What a decision does to the queue and to the files.\<close>

lemma resolve_none: "\<not> has_pending j (aw_pending w) \<Longrightarrow> approvals_resolve ah j approved w fs = (w, fs, Err ''no pending approval for this job'')"
proof -
  assume "\<not> has_pending j (aw_pending w)"
  then have "List.extract (\<lambda>p. pa_job_id p = j) (aw_pending w) = None" by (auto simp: extract_None_iff)
  then show ?thesis by (simp add: approvals_resolve_def)
qed

lemma resolve_some:
  assumes "distinct (map pa_job_id (aw_pending w))" and "p \<in> set (aw_pending w)"
  shows "approvals_resolve ah (pa_job_id p) approved w fs =
    (let w' = w\<lparr>aw_pending := filter (\<lambda>q. pa_job_id q \<noteq> pa_job_id p) (aw_pending w)\<rparr>
     in if pa_source p = Source_File
        then (case ah_encode ah \<lparr>as_approved = approved, as_responded_at = ah_now ah, as_responded_by = ''user''\<rparr> of
                Inl e \<Rightarrow> (w', fs, Err e)
              | Inr json \<Rightarrow>
                 (case fs_fill (ah_io ah) ''resolve'' ''resolve'' (pa_response_path p) json fs of
                    (fs', Inl e) \<Rightarrow> (w', fs', Err (snd e))
                  | (fs', Inr _) \<Rightarrow> (w', fs', Ok p)))
        else (w', fs, Ok p))"
proof -
  obtain before q after where x: "List.extract (\<lambda>q. pa_job_id q = pa_job_id p) (aw_pending w) = Some (before, q, after)"
    using assms(2) by (cases "List.extract (\<lambda>q. pa_job_id q = pa_job_id p) (aw_pending w)") (auto simp: extract_None_iff)
  then have q: "aw_pending w = before @ q # after" "pa_job_id q = pa_job_id p" by (auto simp: extract_Some_iff)
  have "q = p" using assms q by (auto simp: distinct_map inj_on_def)
  moreover have "pa_job_id p \<notin> pa_job_id ` set before" "pa_job_id p \<notin> pa_job_id ` set after" using assms(1) q by auto
  then have "\<forall>r \<in> set before \<union> set after. pa_job_id r \<noteq> pa_job_id p" by (metis UnE image_eqI)
  then have "before @ after = filter (\<lambda>r. pa_job_id r \<noteq> pa_job_id p) (aw_pending w)" using q by simp
  ultimately show ?thesis using x by (simp add: approvals_resolve_def)
qed

lemma resolve_inv: "approvals_resolve ah j approved w fs = (w', fs', r) \<Longrightarrow> approvals_inv det run_dir w \<Longrightarrow> approvals_inv det run_dir w'"
proof (cases "has_pending j (aw_pending w)")
  case False
  then show "approvals_resolve ah j approved w fs = (w', fs', r) \<Longrightarrow> approvals_inv det run_dir w \<Longrightarrow> approvals_inv det run_dir w'"
    by (simp add: resolve_none)
next
  case True
  assume r: "approvals_resolve ah j approved w fs = (w', fs', r)" and i: "approvals_inv det run_dir w"
  from True obtain p where p: "p \<in> set (aw_pending w)" "j = pa_job_id p" by auto
  have "w' = w\<lparr>aw_pending := filter (\<lambda>q. pa_job_id q \<noteq> pa_job_id p) (aw_pending w)\<rparr>"
    using r i resolve_some [OF _ p(1), of ah approved fs] p(2) by (auto simp: approvals_inv_def Let_def split: if_splits sum.splits prod.splits)
  then show "approvals_inv det run_dir w'" using i by (auto simp: approvals_inv_def distinct_map_filter)
qed

lemma handle_resolution_inv:
  "handle_resolution ah rh args approved w fs = (w', fs', out) \<Longrightarrow> approvals_inv det run_dir w \<Longrightarrow> approvals_inv det run_dir w'"
  by (auto simp: handle_resolution_def Let_def split: if_splits list.splits option.splits prod.splits sum.splits dest: resolve_inv)

lemma approval_step_inv: "approval_step det s s' \<Longrightarrow> approvals_inv det run_dir (fst s) \<Longrightarrow> approvals_inv det run_dir (fst s')"
proof (induction rule: approval_step.induct)
  case (polled w fs active)
  obtain q n where "absorb_discovered (aw_pending w) (aw_discovered w) = (q, n)" by fastforce
  then show ?case using polled absorb_discovered_inv [of "aw_pending w" "aw_discovered w" q n] by (auto simp: approvals_poll_def approvals_inv_def)
next
  case (decided ah rh args approved w fs w' fs' out)
  then show ?case using handle_resolution_inv by simp
next
  case (asked ah w fs env)
  then show ?case
    by (auto simp: absorb_hook_approval_def push_from_hook_def approvals_inv_def own_paths_def response_file_def job_dir_name_def split: option.split)
next
  case (ended w fs j)
  then show ?case by (auto simp: cleanup_job_def approvals_inv_def distinct_map_filter)
next
  case (swept ah w fs)
  have "approvals_inv det run_dir (fst (janitor_round ah w fs))"
    using swept scan_loop_found scan_job_own by (fastforce simp: janitor_round_def scan_jobs_def approvals_inv_def split: option.split list.split JanitorCmd.split prod.split)
  then show ?case by simp
qed simp

lemma approvals_reachable_inv:
  "(approval_step det)\<^sup>*\<^sup>* (watcher_new spawned data_dir, fs0) (w, fs) \<Longrightarrow> approvals_inv det (path_join data_dir ''run'') w"
proof -
  assume "(approval_step det)\<^sup>*\<^sup>* (watcher_new spawned data_dir, fs0) (w, fs)"
  then have "approvals_inv det (path_join data_dir ''run'') (fst (w, fs))"
    by (induction rule: rtranclp_induct) (simp add: watcher_new_def approvals_inv_def, rule approval_step_inv)
  then show ?thesis by simp
qed

definition is_pty :: "ApprovalFx \<Rightarrow> bool" where
  "is_pty x = (case x of Fx_Pty _ _ \<Rightarrow> True | _ \<Rightarrow> False)"

definition is_promote :: "ApprovalFx \<Rightarrow> bool" where
  "is_promote x = (case x of Fx_Promote _ _ \<Rightarrow> True | _ \<Rightarrow> False)"

lemma maybe_promote_fx:
  "maybe_rfc_promote rh approved action m = (fx, b) \<Longrightarrow> filter is_pty fx = [] \<and> (list_ex is_promote fx \<longrightarrow> approved \<and> action = ''rfc.promote'')"
  by (auto simp: maybe_rfc_promote_def is_pty_def is_promote_def split: if_splits option.splits prod.splits)

lemma emit_resolution_fx:
  assumes "emit_resolution ah rh j approved action m p = (fx, blocks)"
  shows "filter is_pty fx = (if pa_source p = Source_Hook then [Fx_Pty j (if approved then [CHR ''y'', NL] else [CHR ''n'', NL])] else []) \<and>
    Fx_Journal (resolution_envelope (ah_now ah) j action approved) \<in> set fx \<and> (list_ex is_promote fx \<longrightarrow> approved \<and> action = ''rfc.promote'')"
proof -
  obtain mx b where m: "maybe_rfc_promote rh approved action m = (mx, b)" by fastforce
  show ?thesis using assms maybe_promote_fx [OF m] m by (auto simp: emit_resolution_def is_pty_def is_promote_def)
qed

lemma find_pending: "distinct (map pa_job_id ps) \<Longrightarrow> p \<in> set ps \<Longrightarrow> find (\<lambda>q. pa_job_id q = pa_job_id p) ps = Some p"
  by (induction ps) auto

lemma handle_pending:
  assumes "distinct (map pa_job_id (aw_pending w))" and "p \<in> set (aw_pending w)"
  shows "handle_resolution ah rh [show_id (pa_job_id p)] approved w fs =
    (case approvals_resolve ah (pa_job_id p) approved w fs of
       (w', fs', Inl e) \<Rightarrow> (w', fs', [], Err e)
     | (w', fs', Inr q) \<Rightarrow>
        (case emit_resolution ah rh (pa_job_id p) approved (aq_action (pa_request p)) (Option.bind (aq_metadata (pa_request p)) (json_get ''rfc'')) q of
           (fx, blocks) \<Rightarrow> (w', fs', Fx_Resolved (pa_job_id p) # fx, Ok blocks)))"
proof -
  have "parse_u32 (show_id (pa_job_id p)) = Some (pa_job_id p)" by (rule parse_show_id)
  then show ?thesis using assms(2) by (auto simp: handle_resolution_def find_pending [OF assms] Let_def split: prod.split sum.split)
qed

text \<open>The three ways a decision can end.\<close>

lemma decision_cases:
  assumes "distinct (map pa_job_id (aw_pending w))" and "p \<in> set (aw_pending w)"
    and "handle_resolution ah rh [show_id (pa_job_id p)] approved w fs = (w', fs', fx, out)"
  obtains (hook) ex blocks where "pa_source p = Source_Hook" "fs' = fs" "fx = Fx_Resolved (pa_job_id p) # ex" "out = Ok blocks"
      "emit_resolution ah rh (pa_job_id p) approved (aq_action (pa_request p)) (Option.bind (aq_metadata (pa_request p)) (json_get ''rfc'')) p = (ex, blocks)"
      "w' = w\<lparr>aw_pending := filter (\<lambda>q. pa_job_id q \<noteq> pa_job_id p) (aw_pending w)\<rparr>"
    | (written) ex blocks json where "pa_source p = Source_File" "fs' = fs(pa_response_path p \<mapsto> json)" "fx = Fx_Resolved (pa_job_id p) # ex" "out = Ok blocks"
      "ah_encode ah \<lparr>as_approved = approved, as_responded_at = ah_now ah, as_responded_by = ''user''\<rparr> = Ok json"
      "emit_resolution ah rh (pa_job_id p) approved (aq_action (pa_request p)) (Option.bind (aq_metadata (pa_request p)) (json_get ''rfc'')) p = (ex, blocks)"
      "w' = w\<lparr>aw_pending := filter (\<lambda>q. pa_job_id q \<noteq> pa_job_id p) (aw_pending w)\<rparr>"
    | (failed) e where "pa_source p = Source_File" "\<forall>f. f \<noteq> pa_response_path p \<longrightarrow> fs' f = fs f" "fx = []" "out = Err e"
      "w' = w\<lparr>aw_pending := filter (\<lambda>q. pa_job_id q \<noteq> pa_job_id p) (aw_pending w)\<rparr>"
proof -
  note r = assms(3) [unfolded handle_pending [OF assms(1,2)] resolve_some [OF assms(1,2)]]
  obtain ex blocks where ex:
    "emit_resolution ah rh (pa_job_id p) approved (aq_action (pa_request p)) (Option.bind (aq_metadata (pa_request p)) (json_get ''rfc'')) p = (ex, blocks)"
    by fastforce
  show ?thesis
  proof (cases "pa_source p")
    case Source_Hook
    then show ?thesis using r ex by (intro hook [OF Source_Hook _ _ _ ex]) (auto simp: Let_def)
  next
    case Source_File
    show ?thesis
    proof (cases "ah_encode ah \<lparr>as_approved = approved, as_responded_at = ah_now ah, as_responded_by = ''user''\<rparr>")
      case (Inl e)
      then show ?thesis using r Source_File by (intro failed [of e]) (auto simp: Let_def)
    next
      case (Inr json)
      obtain f1 res where f: "fs_fill (ah_io ah) ''resolve'' ''resolve'' (pa_response_path p) json fs = (f1, res)" by fastforce
      show ?thesis
      proof (cases res)
        case (Inl e)
        have "\<forall>g. g \<noteq> pa_response_path p \<longrightarrow> f1 g = fs g"
          using fs_fill_frame [of _ "pa_response_path p" "ah_io ah" "''resolve''" "''resolve''" json fs] f by simp
        then show ?thesis using r Source_File Inr f Inl by (intro failed [of "snd e"]) (auto simp: Let_def)
      next
        case ok: (Inr u)
        have "f1 = fs(pa_response_path p \<mapsto> json)" using fs_fill_Ok [of "ah_io ah" "''resolve''" "''resolve''" "pa_response_path p" json fs u] f ok by simp
        then show ?thesis using r Source_File Inr f ok ex by (intro written [OF Source_File _ _ _ Inr ex]) (auto simp: Let_def)
      qed
    qed
  qed
qed

text \<open>C4. A decision reaches the job it was made for, and no other. At any moment that polls, hooks, ended jobs, sweeps of the janitor and writes by agents
have led to, there is at most one request per job; approving or denying a job takes its request, and only it, off the queue. For a request
made through a file the answer written is the user's, in that job's own response file, and no other file is touched; for one made
through a hook the keystroke sent is the user's, to that job's terminal, and no file is touched. An RFC is promoted only if the request was for that and was approved,
and a decision that did not succeed has no effect beyond the queue and that file.
\<close>

theorem decision_reaches_its_job:
  assumes "(approval_step det)\<^sup>*\<^sup>* (watcher_new spawned data_dir, fs0) (w, fs)" and "ah_detached ah = det" and "p \<in> set (aw_pending w)"
    and "handle_resolution ah rh [show_id (pa_job_id p)] approved w fs = (w', fs', fx, out)"
  defines "answer \<equiv> response_file ah (path_join data_dir ''run'') (pa_job_id p)"
  shows "(\<forall>q \<in> set (aw_pending w). pa_job_id q = pa_job_id p \<longrightarrow> q = p) \<and>
    aw_pending w' = filter (\<lambda>q. pa_job_id q \<noteq> pa_job_id p) (aw_pending w) \<and>
    (\<forall>f. f \<noteq> answer \<longrightarrow> fs' f = fs f) \<and> (\<forall>j. j \<noteq> pa_job_id p \<longrightarrow> fs' (response_file ah (path_join data_dir ''run'') j) = fs (response_file ah (path_join data_dir ''run'') j)) \<and>
    (pa_source p = Source_File \<longrightarrow> filter is_pty fx = [] \<and>
      (is_ok out \<longrightarrow> (\<exists>json. ah_encode ah \<lparr>as_approved = approved, as_responded_at = ah_now ah, as_responded_by = ''user''\<rparr> = Ok json \<and> fs' answer = Some json))) \<and>
    (pa_source p = Source_Hook \<longrightarrow> is_ok out \<and> fs' = fs \<and> filter is_pty fx = [Fx_Pty (pa_job_id p) (if approved then [CHR ''y'', NL] else [CHR ''n'', NL])]) \<and>
    (list_ex is_promote fx \<longrightarrow> approved \<and> aq_action (pa_request p) = ''rfc.promote'') \<and>
    (if is_ok out then Fx_Journal (resolution_envelope (ah_now ah) (pa_job_id p) (aq_action (pa_request p)) approved) \<in> set fx else fx = [])"
proof -
  let ?run = "path_join data_dir ''run''"
  from approvals_reachable_inv [OF assms(1)] have i: "aw_run_dir w = ?run" "distinct (map pa_job_id (aw_pending w))" "own_paths det ?run p"
    using assms(3) by (auto simp: approvals_inv_def)
  have a: "pa_response_path p = answer" using i(3) assms(2) by (simp add: own_paths_def answer_def)
  have one: "\<forall>q \<in> set (aw_pending w). pa_job_id q = pa_job_id p \<longrightarrow> q = p" using i(2) assms(3) by (auto simp: distinct_map inj_on_def)
  have others: "\<forall>j. j \<noteq> pa_job_id p \<longrightarrow> response_file ah ?run j \<noteq> answer" by (simp add: answer_def response_file_inject)
  from i(2) assms(3,4) show ?thesis
  proof (cases rule: decision_cases)
    case (hook ex blocks)
    then show ?thesis using one emit_resolution_fx [OF hook(5)] by (simp add: is_pty_def is_promote_def)
  next
    case (written ex blocks json)
    then show ?thesis using one emit_resolution_fx [OF written(6)] others a by (simp add: is_pty_def is_promote_def)
  next
    case (failed e)
    then show ?thesis using one others a by simp
  qed
qed

definition sample_approval_host :: ApprovalHost where
  "sample_approval_host =
     \<lparr>ah_io = io_fine, ah_now = ''now'', ah_detached = None,
      ah_decode = (\<lambda>s. Some \<lparr>aq_action = s, aq_description = None, aq_risk = None, aq_files_changed = None, aq_metadata = None\<rparr>),
      ah_encode = (\<lambda>r. Ok (if as_approved r then ''yes'' else ''no'')), ah_kept = (\<lambda>_. False)\<rparr>"

definition sample_resolution_host :: ResolutionHost where
  "sample_resolution_host =
     \<lparr>rh_label = (\<lambda>_. ''faye''), rh_waiting = (\<lambda>_. False), rh_write_pty = (\<lambda>_ _. Ok ()), rh_has_project = (\<lambda>_. False), rh_promote = (\<lambda>_ _. Err [])\<rparr>"

definition asking_fs :: fs where
  "asking_fs = [[''d'', ''run'', ''7'', ''approval.request.json''] \<mapsto> ''deploy'']"

text \<open>A request travels from the agent's file to the queue in one sweep.\<close>

definition asked_watcher :: ApprovalWatcher where
  "asked_watcher = fst (approvals_poll [] (fst (janitor_round sample_approval_host (fst (approvals_poll [7] (watcher_new True [''d'']))) asking_fs)))"

lemma asked_reachable: "(approval_step None)\<^sup>*\<^sup>* (watcher_new True [''d''], asking_fs) (asked_watcher, asking_fs)"
proof -
  let ?w1 = "fst (approvals_poll [7] (watcher_new True [''d'']))" and ?ah = sample_approval_host
  have 1: "approval_step None (watcher_new True [''d''], asking_fs) (?w1, asking_fs)" by (rule approval_step.polled)
  have "ah_detached ?ah = None" by (simp add: sample_approval_host_def)
  then have 2: "approval_step None (?w1, asking_fs) (janitor_round ?ah ?w1 asking_fs)" by (rule approval_step.swept)
  have "snd (janitor_round ?ah ?w1 asking_fs) = asking_fs"
    by (simp add: janitor_round_def approvals_poll_def watcher_new_def split: prod.split)
  then have 3: "approval_step None (janitor_round ?ah ?w1 asking_fs) (asked_watcher, asking_fs)"
    unfolding asked_watcher_def by (metis approval_step.polled prod.collapse)
  from 1 2 3 show ?thesis by (meson converse_rtranclp_into_rtranclp rtranclp.rtrancl_refl)
qed

theorem decision_reaches_its_job_witness:
  "\<exists>p w' fs' fx out. aw_pending asked_watcher = [p] \<and> aq_action (pa_request p) = ''deploy'' \<and>
     handle_resolution sample_approval_host sample_resolution_host [''7''] True asked_watcher asking_fs = (w', fs', fx, out) \<and>
     aw_pending w' = [] \<and> fs' [''d'', ''run'', ''7'', ''approval.response.json''] = Some ''yes'' \<and> filter is_pty fx = []"
proof -
  let ?ah = sample_approval_host and ?rh = sample_resolution_host
  define p where "p = \<lparr>pa_job_id = 7, pa_request = \<lparr>aq_action = ''deploy'', aq_description = None, aq_risk = None, aq_files_changed = None, aq_metadata = None\<rparr>,
    pa_request_path = [''d'', ''run'', ''7'', ''approval.request.json''], pa_response_path = [''d'', ''run'', ''7'', ''approval.response.json''],
    pa_received_at = ''now'', pa_source = Source_File\<rparr>"
  have p: "aw_pending asked_watcher = [p]" unfolding p_def by code_simp
  obtain w' fs' fx out where r: "handle_resolution ?ah ?rh [''7''] True asked_watcher asking_fs = (w', fs', fx, out)" by (metis prod.exhaust)
  have n: "show_id (pa_job_id p) = ''7''" unfolding p_def by code_simp
  have ok: "is_ok (snd (snd (snd (handle_resolution ?ah ?rh [''7''] True asked_watcher asking_fs))))" by code_simp
  have f: "response_file ?ah (path_join [''d''] ''run'') (pa_job_id p) = [''d'', ''run'', ''7'', ''approval.response.json'']" unfolding p_def by code_simp
  have "ah_detached ?ah = None" by (simp add: sample_approval_host_def)
  from decision_reaches_its_job [OF asked_reachable this, of p ?rh True w' fs' fx out] r p n ok f show ?thesis
    by (simp add: sample_approval_host_def p_def)
qed

subsection \<open>Requests that are lost\<close>

text \<open>While a job stays active the janitor does not look at its files again, whatever became of the request it found.\<close>

lemma scan_loop_seen: "scan_loop ah run_dir fs jobs seen = (seen', found) \<Longrightarrow> j \<in> set seen \<Longrightarrow> j \<in> set seen' \<and> j \<notin> pa_job_id ` set found"
proof (induction jobs arbitrary: seen seen' found)
  case (Cons i jobs)
  have own: "scan_job ah run_dir fs i = Some p \<Longrightarrow> pa_job_id p = i" for p
    by (auto simp: scan_job_def split: if_splits option.splits sum.splits)
  show ?case
  proof (cases "i \<in> set seen \<or> scan_job ah run_dir fs i = None")
    case True
    then have "scan_loop ah run_dir fs jobs seen = (seen', found)" using Cons.prems(1) by (cases "i \<in> set seen") simp_all
    then show ?thesis using Cons.IH Cons.prems(2) by blast
  next
    case False
    then obtain p where p: "scan_job ah run_dir fs i = Some p" "i \<notin> set seen" by auto
    obtain s f where sf: "scan_loop ah run_dir fs jobs (i # seen) = (s, f)" by fastforce
    have "i \<noteq> j" using p(2) Cons.prems(2) by auto
    then show ?thesis using Cons.IH [OF sf] Cons.prems p sf own [OF p(1)] by auto
  qed
qed simp

lemma second_request_unseen:
  assumes "j \<in> set jobs" and "j \<in> set seen"
  shows "j \<notin> pa_job_id ` set (snd (scan_jobs ah run_dir fs jobs seen)) \<and> j \<in> set (fst (scan_jobs ah run_dir fs jobs seen))"
proof -
  obtain s f where sf: "scan_jobs ah run_dir fs jobs seen = (s, f)" by fastforce
  then show ?thesis using scan_loop_seen [of ah run_dir fs jobs "filter (\<lambda>i. i \<in> set jobs) seen" s f j] assms by (simp add: scan_jobs_def)
qed

text \<open>An answer that cannot be written is off the queue all the same, and its job among those not looked at again.\<close>

lemma unwritten_answer_lost:
  "(case approvals_resolve (sample_approval_host\<lparr>ah_io := io_fine\<lparr>io_err := (\<lambda>t s. if t = ''resolve'' then Some ''disk full'' else None)\<rparr>\<rparr>) 7 True asked_watcher asking_fs of
      (w, fs, r) \<Rightarrow> r = Err ''disk full'' \<and> aw_pending w = [] \<and> aw_seen w = [7])"
  by code_simp

end
