(* ===== verification/Term_State.thy ===== *)
theory Term_State
  imports Orkia_Prelude
begin

section \<open>The pane's mode and the signals it follows\<close>

text \<open>
  Models \<^verbatim>\<open>crates/orkia-terminal-core/src/state.rs\<close> and \<^verbatim>\<open>prescan.rs\<close>. Instants are milliseconds and an argument of every
  operation that reads the clock; \<^verbatim>\<open>elapsed\<close> is the difference, never negative. Bytes are characters.
\<close>

subsection \<open>The state machine\<close>

definition DEBOUNCE :: nat where "DEBOUNCE = 100"

datatype InputMode = Cooked | Raw

datatype DisplayMode = BlockView | InlineFull | AltScreenFull

record PaneState =
  ps_input :: InputMode
  ps_display :: DisplayMode

definition DEFAULT :: PaneState where
  "DEFAULT = \<lparr>ps_input = Cooked, ps_display = BlockView\<rparr>"

datatype Manual = Manual_None | ForceRaw | ForceCooked

datatype Signal = AltEnter | AltExit | BracketedEnter | BracketedExit | CursorHide | CursorShow | AppCursorEnter | AppCursorExit

record StateMachine =
  sm_capturing :: bool
  sm_persistent :: bool
  sm_alt :: bool
  sm_bracketed :: bool
  sm_cursor_hidden :: bool
  sm_app_cursor :: bool
  sm_manual :: Manual
  sm_state :: PaneState
  sm_pending :: "(PaneState \<times> nat) option"
  sm_last_transition :: nat

definition sm_new :: "nat \<Rightarrow> StateMachine" where
  "sm_new now = \<lparr>sm_capturing = False, sm_persistent = False, sm_alt = False, sm_bracketed = False, sm_cursor_hidden = False, sm_app_cursor = False,
     sm_manual = Manual_None, sm_state = DEFAULT, sm_pending = None, sm_last_transition = now\<rparr>"

definition sm_new_persistent :: "nat \<Rightarrow> StateMachine" where
  "sm_new_persistent now = (sm_new now)\<lparr>sm_capturing := True, sm_persistent := True, sm_state := \<lparr>ps_input = Raw, ps_display = InlineFull\<rparr>\<rparr>"

definition sm_target :: "StateMachine \<Rightarrow> PaneState" where
  "sm_target sm =
     (case sm_manual sm of
        ForceCooked \<Rightarrow> DEFAULT
      | ForceRaw \<Rightarrow> \<lparr>ps_input = Raw, ps_display = InlineFull\<rparr>
      | Manual_None \<Rightarrow>
          if sm_persistent sm then \<lparr>ps_input = Raw, ps_display = if sm_alt sm then AltScreenFull else InlineFull\<rparr>
          else if \<not> sm_capturing sm then DEFAULT
          else if sm_alt sm then \<lparr>ps_input = Raw, ps_display = AltScreenFull\<rparr>
          else if sm_bracketed sm \<or> sm_cursor_hidden sm \<or> sm_app_cursor sm then \<lparr>ps_input = Raw, ps_display = InlineFull\<rparr>
          else DEFAULT)"

definition sm_apply :: "nat \<Rightarrow> PaneState \<Rightarrow> StateMachine \<Rightarrow> StateMachine" where
  "sm_apply now s sm = sm\<lparr>sm_state := s, sm_pending := None, sm_last_transition := now\<rparr>"

definition sm_recompute :: "nat \<Rightarrow> StateMachine \<Rightarrow> StateMachine" where
  "sm_recompute now sm =
     (let target = sm_target sm
      in if target = sm_state sm then sm\<lparr>sm_pending := None\<rparr>
         else if target = DEFAULT then sm_apply now target sm
         else if DEBOUNCE \<le> now - sm_last_transition sm then sm_apply now target sm
         else sm\<lparr>sm_pending := Some (target, now)\<rparr>)"

definition sm_tick :: "nat \<Rightarrow> StateMachine \<Rightarrow> StateMachine" where
  "sm_tick now sm =
     (case sm_pending sm of Some (p, at) \<Rightarrow> if DEBOUNCE \<le> now - at then sm_apply now p sm else sm | None \<Rightarrow> sm)"

definition sm_clear :: "StateMachine \<Rightarrow> StateMachine" where
  "sm_clear sm = sm\<lparr>sm_alt := False, sm_bracketed := False, sm_cursor_hidden := False, sm_app_cursor := False, sm_manual := Manual_None\<rparr>"

definition set_capturing :: "nat \<Rightarrow> bool \<Rightarrow> StateMachine \<Rightarrow> StateMachine" where
  "set_capturing now on sm =
     (if sm_persistent sm then sm
      else if sm_capturing sm = on then sm
      else let sm1 = sm\<lparr>sm_capturing := on\<rparr>
           in sm_recompute now (if \<not> on then sm_clear sm1 else sm1))"

definition notify_child_exited :: "nat \<Rightarrow> StateMachine \<Rightarrow> StateMachine" where
  "notify_child_exited now sm = sm_apply now DEFAULT (sm_clear (sm\<lparr>sm_capturing := False\<rparr>))"

definition toggle_manual :: "nat \<Rightarrow> StateMachine \<Rightarrow> StateMachine" where
  "toggle_manual now sm =
     (let sm1 = sm\<lparr>sm_manual := (case ps_input (sm_state sm) of Raw \<Rightarrow> ForceCooked | Cooked \<Rightarrow> ForceRaw)\<rparr>
      in sm_apply now (sm_target sm1) sm1)"

definition note_signal :: "Signal \<Rightarrow> StateMachine \<Rightarrow> StateMachine" where
  "note_signal sig sm =
     (case sig of
        AltEnter \<Rightarrow> sm\<lparr>sm_alt := True\<rparr> | AltExit \<Rightarrow> sm\<lparr>sm_alt := False\<rparr>
      | BracketedEnter \<Rightarrow> sm\<lparr>sm_bracketed := True\<rparr> | BracketedExit \<Rightarrow> sm\<lparr>sm_bracketed := False\<rparr>
      | CursorHide \<Rightarrow> sm\<lparr>sm_cursor_hidden := True\<rparr> | CursorShow \<Rightarrow> sm\<lparr>sm_cursor_hidden := False\<rparr>
      | AppCursorEnter \<Rightarrow> sm\<lparr>sm_app_cursor := True\<rparr> | AppCursorExit \<Rightarrow> sm\<lparr>sm_app_cursor := False\<rparr>)"

definition sm_observe :: "nat \<Rightarrow> Signal \<Rightarrow> StateMachine \<Rightarrow> StateMachine" where
  "sm_observe now sig sm = sm_recompute now (note_signal sig sm)"

subsection \<open>Scanning for signals\<close>

definition ESC :: char where "ESC = CHR 0x1B"

definition MAX_PENDING :: nat where "MAX_PENDING = 16"

datatype ParseResult = PM_Complete "Signal option" nat | PM_Incomplete | PM_NoMatch

definition mode_signal :: "nat \<Rightarrow> bool \<Rightarrow> Signal option" where
  "mode_signal n on =
     (if n = 1049 \<or> n = 1047 \<or> n = 47 then Some (if on then AltEnter else AltExit)
      else if n = 2004 then Some (if on then BracketedEnter else BracketedExit)
      else if n = 25 then Some (if on then CursorShow else CursorHide)
      else if n = 1 then Some (if on then AppCursorEnter else AppCursorExit)
      else None)"

text \<open>The argument starts with the escape; the digits are what follows the mark.\<close>

definition parse_private_mode :: "string \<Rightarrow> ParseResult" where
  "parse_private_mode b =
     (if length b < 2 then PM_Incomplete
      else if b ! 1 \<noteq> CHR ''['' then PM_NoMatch
      else if length b < 3 then PM_Incomplete
      else if b ! 2 \<noteq> CHR ''?'' then PM_NoMatch
      else let digits = takeWhile is_digit (drop 3 b); j = 3 + length digits
           in if j = length b then PM_Incomplete
              else if j = 3 then PM_NoMatch
              else if b ! j \<noteq> CHR ''h'' \<and> b ! j \<noteq> CHR ''l'' then PM_NoMatch
              else PM_Complete (case parse_u32 digits of Some n \<Rightarrow> mode_signal (unat n) (b ! j = CHR ''h'') | None \<Rightarrow> None) (Suc j))"

lemma parse_private_mode_consumed: "parse_private_mode b = PM_Complete s n \<Longrightarrow> 0 < n"
  by (auto simp: parse_private_mode_def Let_def split: if_splits)

text \<open>The scan from a position, on the rest of the buffer.\<close>

function scan_with_leftover :: "string \<Rightarrow> Signal list \<times> string" where
  "scan_with_leftover [] = ([], [])"
| "scan_with_leftover (b # bs) =
     (if b = ESC
      then (case parse_private_mode (b # bs) of
              PM_Complete s consumed \<Rightarrow>
                (case scan_with_leftover (drop consumed (b # bs)) of (out, leftover) \<Rightarrow> ((case s of Some sig \<Rightarrow> sig # out | None \<Rightarrow> out), leftover))
            | PM_Incomplete \<Rightarrow> if Suc (length bs) \<le> MAX_PENDING then ([], b # bs) else scan_with_leftover bs
            | PM_NoMatch \<Rightarrow> scan_with_leftover bs)
      else scan_with_leftover bs)"
  by pat_completeness auto
termination
  by (relation "measure length") (auto dest: parse_private_mode_consumed)

declare scan_with_leftover.simps(2) [simp del]

definition prescan :: "string \<Rightarrow> Signal list" where
  "prescan bytes = fst (scan_with_leftover bytes)"

text \<open>A scanner is what it carries from one read to the next.\<close>

definition scanner_scan :: "string \<Rightarrow> string \<Rightarrow> Signal list \<times> string" where
  "scanner_scan pending bytes = scan_with_leftover (pending @ bytes)"

section \<open>The mode settles on what the signals say\<close>

datatype PaneEvent = Ev_Capturing bool | Ev_Signal Signal | Ev_Toggle | Ev_Tick | Ev_Exited

definition pane_event :: "nat \<Rightarrow> PaneEvent \<Rightarrow> StateMachine \<Rightarrow> StateMachine" where
  "pane_event now e =
     (case e of Ev_Capturing on \<Rightarrow> set_capturing now on | Ev_Signal sig \<Rightarrow> sm_observe now sig | Ev_Toggle \<Rightarrow> toggle_manual now | Ev_Tick \<Rightarrow> sm_tick now
      | Ev_Exited \<Rightarrow> notify_child_exited now)"

definition pane_run :: "(nat \<times> PaneEvent) list \<Rightarrow> StateMachine \<Rightarrow> StateMachine" where
  "pane_run es sm = foldl (\<lambda>s (now, e). pane_event now e s) sm es"

text \<open>Either the mode is what the signals ask for, or it waits for a mode other than the default, since an instant before \<open>t\<close>.\<close>

definition settling :: "nat \<Rightarrow> StateMachine \<Rightarrow> bool" where
  "settling t sm \<longleftrightarrow>
     (case sm_pending sm of
        None \<Rightarrow> sm_state sm = sm_target sm
      | Some (p, at) \<Rightarrow> p = sm_target sm \<and> p \<noteq> DEFAULT \<and> at \<le> t)"

lemma settling_mono: "settling t sm \<Longrightarrow> t \<le> t' \<Longrightarrow> settling t' sm"
  by (auto simp: settling_def split: option.splits)

lemma target_apply [simp]: "sm_target (sm_apply now s sm) = sm_target sm" "sm_target (sm\<lparr>sm_pending := p\<rparr>) = sm_target sm"
  by (simp_all add: sm_target_def sm_apply_def)

lemma apply_target_settles: "p = sm_target sm \<Longrightarrow> settling t (sm_apply now p sm)"
  by (simp add: settling_def sm_target_def sm_apply_def)

lemma recompute_settles: "now \<le> t \<Longrightarrow> settling t (sm_recompute now sm)"
  by (simp add: sm_recompute_def Let_def apply_target_settles) (simp add: settling_def)

lemma persistent_ops [simp]:
  "sm_persistent (sm_apply now s sm) = sm_persistent sm" "sm_persistent (sm_clear sm) = sm_persistent sm"
  "sm_persistent (sm_recompute now sm) = sm_persistent sm" "sm_persistent (note_signal sig sm) = sm_persistent sm"
  by (simp_all add: sm_apply_def sm_clear_def sm_recompute_def note_signal_def Let_def split: Signal.split)

lemma pane_event_persistent [simp]: "sm_persistent (pane_event now e sm) = sm_persistent sm"
  by (auto simp: pane_event_def set_capturing_def sm_observe_def toggle_manual_def sm_tick_def notify_child_exited_def Let_def
      split: PaneEvent.split option.split prod.split)

lemma exited_settles: "\<not> sm_persistent sm \<Longrightarrow> settling t (notify_child_exited now sm)"
  by (simp add: notify_child_exited_def settling_def sm_apply_def sm_clear_def sm_target_def)

lemma pane_event_settles:
  assumes "settling t sm" and "now \<le> t" and "e = Ev_Exited \<longrightarrow> \<not> sm_persistent sm"
  shows "settling t (pane_event now e sm)"
proof (cases e)
  case (Ev_Capturing on)
  then show ?thesis using assms by (simp add: pane_event_def set_capturing_def Let_def recompute_settles)
next
  case (Ev_Signal sig)
  then show ?thesis using assms by (simp add: pane_event_def sm_observe_def recompute_settles)
next
  case Ev_Toggle
  then show ?thesis by (simp add: pane_event_def toggle_manual_def Let_def apply_target_settles)
next
  case Ev_Tick
  have "settling t (sm_tick now sm)"
    using assms(1) apply_target_settles [of "sm_target sm" sm t now] by (cases "sm_pending sm") (auto simp: sm_tick_def settling_def)
  then show ?thesis using Ev_Tick by (simp add: pane_event_def)
next
  case Ev_Exited
  then show ?thesis using assms exited_settles by (simp add: pane_event_def)
qed

lemma pane_run_snoc: "pane_run (es @ [(now, e)]) sm = pane_event now e (pane_run es sm)"
  by (simp add: pane_run_def)

lemma pane_run_persistent [simp]: "sm_persistent (pane_run es sm) = sm_persistent sm"
  by (induction es rule: rev_induct) (simp_all add: pane_run_def split: prod.split)

lemma pane_run_settles:
  assumes "settling t sm" and "\<forall>(now, e) \<in> set es. now \<le> t" and "sm_persistent sm \<longrightarrow> Ev_Exited \<notin> snd ` set es"
  shows "settling t (pane_run es sm)"
  using assms(2,3)
proof (induction es rule: rev_induct)
  case Nil
  then show ?case using assms(1) by (simp add: pane_run_def)
next
  case (snoc x es)
  obtain now e where x: "x = (now, e)" by (cases x)
  have "settling t (pane_run es sm)" using snoc by auto
  then show ?case unfolding x pane_run_snoc using snoc.prems x by (intro pane_event_settles) auto
qed

lemma new_settles: "settling t (sm_new t0)" "settling t (sm_new_persistent t0)"
  by (simp_all add: settling_def sm_new_def sm_new_persistent_def sm_target_def)

text \<open>An agent's screen is never folded into blocks.\<close>

lemma persistent_target: "sm_persistent sm \<Longrightarrow> sm_manual sm = Manual_None \<Longrightarrow> ps_display (sm_target sm) \<noteq> BlockView"
  by (simp add: sm_target_def)

lemma manual_ops [simp]:
  "sm_manual (sm_apply now s sm) = sm_manual sm" "sm_manual (sm_recompute now sm) = sm_manual sm" "sm_manual (note_signal sig sm) = sm_manual sm"
  by (simp_all add: sm_apply_def sm_recompute_def note_signal_def Let_def split: Signal.split)

definition full_screen :: "StateMachine \<Rightarrow> bool" where
  "full_screen sm \<longleftrightarrow> sm_persistent sm \<and> sm_manual sm = Manual_None \<and> ps_display (sm_state sm) \<noteq> BlockView \<and>
     (case sm_pending sm of Some (p, _) \<Rightarrow> ps_display p \<noteq> BlockView | None \<Rightarrow> True)"

lemma full_screen_apply: "full_screen sm \<Longrightarrow> ps_display p \<noteq> BlockView \<Longrightarrow> full_screen (sm_apply now p sm)"
  by (simp add: full_screen_def sm_apply_def)

lemma full_screen_event:
  assumes "full_screen sm" and "e \<noteq> Ev_Toggle" and "e \<noteq> Ev_Exited"
  shows "full_screen (pane_event now e sm)"
proof -
  have d: "ps_display DEFAULT = BlockView" by (simp add: DEFAULT_def)
  have recompute: "full_screen s \<Longrightarrow> full_screen (sm_recompute now s)" for s
    using persistent_target [of s] by (auto simp: sm_recompute_def Let_def d full_screen_def sm_apply_def)
  have note_sig: "full_screen (note_signal sig sm)" for sig
    using assms(1) by (simp add: full_screen_def note_signal_def split: Signal.split option.splits prod.splits)
  have "full_screen (sm_tick now sm)"
    using assms(1) by (auto simp: sm_tick_def full_screen_def sm_apply_def split: option.splits)
  then show ?thesis
    using assms recompute [OF note_sig] by (cases e) (auto simp: pane_event_def sm_observe_def set_capturing_def full_screen_def)
qed

lemma full_screen_run: "full_screen sm \<Longrightarrow> {Ev_Toggle, Ev_Exited} \<inter> snd ` set es = {} \<Longrightarrow> full_screen (pane_run es sm)"
proof (induction es rule: rev_induct)
  case (snoc x es)
  obtain now e where x: "x = (now, e)" by (cases x)
  show ?case unfolding x pane_run_snoc using snoc x by (intro full_screen_event) auto
qed (simp add: pane_run_def)

text \<open>The signals of the command that runs, if one does; what is switched on is what was switched last. The mode they ask for.\<close>

fun command_step :: "Signal list option \<Rightarrow> PaneEvent \<Rightarrow> Signal list option" where
  "command_step c (Ev_Capturing on) = (if on then (if c = None then Some [] else c) else None)"
| "command_step c (Ev_Signal sig) = map_option (\<lambda>ss. ss @ [sig]) c"
| "command_step c Ev_Exited = None"
| "command_step c e = c"

definition current_command :: "(nat \<times> PaneEvent) list \<Rightarrow> Signal list option" where
  "current_command es = foldl (\<lambda>c (now, e). command_step c e) None es"

definition switched_on :: "Signal \<Rightarrow> Signal \<Rightarrow> Signal list \<Rightarrow> bool" where
  "switched_on a b ss \<longleftrightarrow> (case rev (filter (\<lambda>s. s = a \<or> s = b) ss) of s # _ \<Rightarrow> s = a | [] \<Rightarrow> False)"

definition asked_mode :: "Signal list option \<Rightarrow> PaneState" where
  "asked_mode c =
     (case c of
        None \<Rightarrow> DEFAULT
      | Some ss \<Rightarrow>
          if switched_on AltEnter AltExit ss then \<lparr>ps_input = Raw, ps_display = AltScreenFull\<rparr>
          else if switched_on BracketedEnter BracketedExit ss \<or> switched_on CursorHide CursorShow ss \<or> switched_on AppCursorEnter AppCursorExit ss
          then \<lparr>ps_input = Raw, ps_display = InlineFull\<rparr>
          else DEFAULT)"

text \<open>Every signal comes while a command runs.\<close>

fun from_commands :: "Signal list option \<Rightarrow> (nat \<times> PaneEvent) list \<Rightarrow> bool" where
  "from_commands c [] = True"
| "from_commands c ((now, e) # es) = ((case e of Ev_Signal _ \<Rightarrow> c \<noteq> None | _ \<Rightarrow> True) \<and> from_commands (command_step c e) es)"

definition tracks :: "Signal list option \<Rightarrow> StateMachine \<Rightarrow> bool" where
  "tracks c sm \<longleftrightarrow> \<not> sm_persistent sm \<and> sm_manual sm = Manual_None \<and> sm_capturing sm = (c \<noteq> None) \<and>
     (let on = (\<lambda>a b. case c of None \<Rightarrow> False | Some ss \<Rightarrow> switched_on a b ss)
      in sm_alt sm = on AltEnter AltExit \<and> sm_bracketed sm = on BracketedEnter BracketedExit \<and> sm_cursor_hidden sm = on CursorHide CursorShow \<and>
         sm_app_cursor sm = on AppCursorEnter AppCursorExit)"

lemma tracks_target: "tracks c sm \<Longrightarrow> sm_target sm = asked_mode c"
  by (cases c) (simp_all add: tracks_def sm_target_def asked_mode_def)

lemma switched_on_snoc: "switched_on a b (ss @ [s]) = (if s = a then True else if s = b then False else switched_on a b ss)"
  by (simp add: switched_on_def)

lemma tracks_frame: "sm' = sm\<lparr>sm_state := s, sm_pending := p, sm_last_transition := t\<rparr> \<Longrightarrow> tracks c sm \<Longrightarrow> tracks c sm'"
  by (simp add: tracks_def)

lemma tracks_recompute: "tracks c sm \<Longrightarrow> tracks c (sm_recompute now sm)" "tracks c sm \<Longrightarrow> tracks c (sm_tick now sm)"
  by (simp_all add: tracks_def sm_recompute_def sm_tick_def sm_apply_def Let_def split: option.split prod.split)

lemma tracks_event:
  assumes "tracks c sm" and "e \<noteq> Ev_Toggle" and "case e of Ev_Signal _ \<Rightarrow> c \<noteq> None | _ \<Rightarrow> True"
  shows "tracks (command_step c e) (pane_event now e sm)"
proof (cases e)
  case (Ev_Capturing on)
  have "tracks (command_step c e) (if \<not> on then sm_clear (sm\<lparr>sm_capturing := on\<rparr>) else sm\<lparr>sm_capturing := on\<rparr>)" if "sm_capturing sm \<noteq> on"
    using assms(1) that Ev_Capturing by (cases c) (auto simp: tracks_def sm_clear_def switched_on_def Let_def)
  then show ?thesis using assms(1) Ev_Capturing tracks_recompute(1)
    by (cases "sm_capturing sm = on") (auto simp: pane_event_def set_capturing_def Let_def tracks_def)
next
  case (Ev_Signal sig)
  then obtain ss where "c = Some ss" using assms(3) by auto
  then have "tracks (command_step c e) (note_signal sig sm)"
    using assms(1) Ev_Signal by (cases sig) (simp_all add: tracks_def note_signal_def switched_on_snoc)
  then show ?thesis using Ev_Signal tracks_recompute(1) by (simp add: pane_event_def sm_observe_def)
next
  case Ev_Tick
  then show ?thesis using assms(1) tracks_recompute(2) by (simp add: pane_event_def)
next
  case Ev_Exited
  then show ?thesis using assms(1) by (simp add: pane_event_def notify_child_exited_def sm_apply_def sm_clear_def tracks_def)
qed (use assms(2) in simp)

lemma tracks_run:
  "tracks c sm \<Longrightarrow> Ev_Toggle \<notin> snd ` set es \<Longrightarrow> from_commands c es \<Longrightarrow> tracks (foldl (\<lambda>c (now, e). command_step c e) c es) (pane_run es sm)"
proof (induction es arbitrary: c sm)
  case (Cons x es)
  obtain now e where x: "x = (now, e)" by (cases x)
  have "tracks (command_step c e) (pane_event now e sm)" using Cons.prems x by (intro tracks_event) auto
  from Cons.IH [OF this] Cons.prems x show ?case by (simp add: pane_run_def)
qed (simp add: pane_run_def)

lemma run_settles:
  assumes "\<forall>(now, e) \<in> set es. now + DEBOUNCE \<le> t"
  shows "sm_state (sm_tick t (pane_run es (sm_new t0))) = sm_target (pane_run es (sm_new t0))"
proof -
  let ?sm = "pane_run es (sm_new t0)"
  have "\<not> sm_persistent (sm_new t0)" by (simp add: sm_new_def)
  then have i: "settling (t - DEBOUNCE) ?sm" using assms by (intro pane_run_settles new_settles) auto
  show ?thesis
  proof (cases "sm_pending ?sm")
    case None
    then show ?thesis using i by (simp add: sm_tick_def settling_def)
  next
    case (Some pa)
    then obtain p at where pa: "sm_pending ?sm = Some (p, at)" by (cases pa) auto
    from i pa have "p = sm_target ?sm" "at \<le> t - DEBOUNCE" by (auto simp: settling_def)
    moreover have "es \<noteq> []" using pa by (auto simp: pane_run_def sm_new_def)
    then have "DEBOUNCE \<le> t" using assms by (cases es) auto
    ultimately show ?thesis using pa by (simp add: sm_tick_def sm_apply_def)
  qed
qed

lemma prompt_is_default:
  assumes "\<not> sm_capturing (pane_run es (sm_new t0))" and "sm_manual (pane_run es (sm_new t0)) = Manual_None"
  shows "sm_state (pane_run es (sm_new t0)) = DEFAULT \<and> sm_pending (pane_run es (sm_new t0)) = None"
proof -
  let ?sm = "pane_run es (sm_new t0)" and ?u = "sum_list (map fst es)"
  have "\<forall>(now, e) \<in> set es. now \<le> ?u" by (force intro: member_le_sum_list)
  then have "settling ?u ?sm" by (intro pane_run_settles new_settles) (auto simp: sm_new_def)
  moreover have "sm_persistent ?sm = False" by (simp add: sm_new_def)
  ultimately show ?thesis using assms by (auto simp: settling_def sm_target_def split: option.splits)
qed

text \<open>C21. The pane's mode follows the program. A shell pane goes through any sequence of command boundaries, clock ticks and exits, and of mode signals that come
while a command runs, without a manual override. Then a tick a debounce interval after the last event leaves the mode that the signals of the running
command ask for, each in its last setting, and the default if none runs; and at every moment when no command runs the pane is in the default mode at once, with
nothing pending. The pane of an agent, as long as it is neither overridden nor exited, shows a full screen at every moment.
\<close>

theorem pane_mode_settles:
  "(Ev_Toggle \<notin> snd ` set es \<and> from_commands None es \<longrightarrow>
      ((\<forall>(now, e) \<in> set es. now + DEBOUNCE \<le> t) \<longrightarrow> sm_state (sm_tick t (pane_run es (sm_new t0))) = asked_mode (current_command es)) \<and>
      (current_command es = None \<longrightarrow> sm_state (pane_run es (sm_new t0)) = DEFAULT \<and> sm_pending (pane_run es (sm_new t0)) = None)) \<and>
   ({Ev_Toggle, Ev_Exited} \<inter> snd ` set es = {} \<longrightarrow> ps_display (sm_state (pane_run es (sm_new_persistent t0))) \<noteq> BlockView)"
proof (intro conjI impI)
  assume a: "Ev_Toggle \<notin> snd ` set es \<and> from_commands None es"
  have "tracks None (sm_new t0)" by (simp add: tracks_def sm_new_def)
  with a have t: "tracks (current_command es) (pane_run es (sm_new t0))" unfolding current_command_def by (intro tracks_run) auto
  show "sm_state (sm_tick t (pane_run es (sm_new t0))) = asked_mode (current_command es)" if "\<forall>(now, e) \<in> set es. now + DEBOUNCE \<le> t"
    using run_settles [OF that] tracks_target [OF t] by simp
  show "sm_state (pane_run es (sm_new t0)) = DEFAULT" "sm_pending (pane_run es (sm_new t0)) = None" if "current_command es = None"
    using prompt_is_default [of es t0] t that by (simp_all add: tracks_def)
next
  show "ps_display (sm_state (pane_run es (sm_new_persistent t0))) \<noteq> BlockView" if "{Ev_Toggle, Ev_Exited} \<inter> snd ` set es = {}"
    using full_screen_run [of "sm_new_persistent t0" es] that by (simp add: full_screen_def sm_new_persistent_def sm_new_def)
qed

text \<open>A signal seen at the prompt is kept, and honoured once a command starts.\<close>

lemma prompt_signal_kept:
  "sm_state (pane_run [(0, Ev_Signal AltEnter)] (sm_new 0)) = DEFAULT \<and>
   ps_display (sm_state (pane_run [(0, Ev_Signal AltEnter), (200, Ev_Capturing True)] (sm_new 0))) = AltScreenFull"
  by code_simp

text \<open>The claim's hypotheses at work: a full-screen program under a shell, with its mode entered while the previous transition is recent.\<close>

theorem pane_mode_settles_witness:
  "sm_state (sm_tick 140 (pane_run [(10, Ev_Capturing True), (40, Ev_Signal AltEnter)] (sm_new 0))) = \<lparr>ps_input = Raw, ps_display = AltScreenFull\<rparr> \<and>
   sm_state (pane_run [(10, Ev_Capturing True), (40, Ev_Signal AltEnter)] (sm_new 0)) = DEFAULT \<and>
   sm_state (pane_run [(10, Ev_Capturing True), (40, Ev_Signal AltEnter), (50, Ev_Capturing False)] (sm_new 0)) = DEFAULT \<and>
   ps_display (sm_state (pane_run [(10, Ev_Capturing False), (40, Ev_Signal AltEnter)] (sm_new_persistent 0))) \<noteq> BlockView"
proof -
  let ?run = "[(10, Ev_Capturing True), (40, Ev_Signal AltEnter)]" and ?stop = "[(10, Ev_Capturing True), (40, Ev_Signal AltEnter), (50, Ev_Capturing False)]"
  let ?agent = "[(10, Ev_Capturing False), (40, Ev_Signal AltEnter)]"
  have t: "asked_mode (current_command ?run) = \<lparr>ps_input = Raw, ps_display = AltScreenFull\<rparr>" by code_simp
  have m: "sm_state (pane_run ?run (sm_new 0)) = DEFAULT" by code_simp
  have "\<forall>(now, e) \<in> set ?run. now + DEBOUNCE \<le> 140" by (simp add: DEBOUNCE_def)
  then have "sm_state (sm_tick 140 (pane_run ?run (sm_new 0))) = \<lparr>ps_input = Raw, ps_display = AltScreenFull\<rparr>"
    using pane_mode_settles [of ?run 140 0] t by simp
  moreover have "sm_state (pane_run ?stop (sm_new 0)) = DEFAULT" using pane_mode_settles [of ?stop 0 0] by (simp add: current_command_def)
  moreover have "ps_display (sm_state (pane_run ?agent (sm_new_persistent 0))) \<noteq> BlockView" using pane_mode_settles [of ?agent 0 0] by simp
  ultimately show ?thesis using m by blast
qed

section \<open>Signals do not depend on how the bytes arrive\<close>

definition overlong :: "string \<Rightarrow> bool" where
  "overlong s \<longleftrightarrow> (\<exists>before digits after. s = before @ [ESC, CHR ''['', CHR ''?''] @ digits @ after \<and> list_all is_digit digits \<and> MAX_PENDING < 3 + length digits)"

lemma overlong_suffix: "overlong s \<Longrightarrow> overlong (r @ s)"
  unfolding overlong_def by (metis append.assoc)

lemma overlong_drop: "\<not> overlong s \<Longrightarrow> \<not> overlong (drop n s)"
  using overlong_suffix [of "drop n s" "take n s"] by auto

text \<open>What has been decided stays decided when more bytes follow.\<close>

lemma parse_decided:
  assumes "parse_private_mode b \<noteq> PM_Incomplete"
  shows "parse_private_mode (b @ c) = parse_private_mode b"
proof (cases "2 < length b \<and> b ! 1 = CHR ''['' \<and> b ! 2 = CHR ''?''")
  case True
  let ?d = "takeWhile is_digit (drop 3 b)"
  have len: "length ?d \<le> length b - 3" using length_takeWhile_le [of is_digit "drop 3 b"] by simp
  have "3 + length ?d \<noteq> length b" using assms True by (auto simp: parse_private_mode_def Let_def)
  then have lt: "length ?d < length (drop 3 b)" unfolding length_drop using len True by linarith
  then have "\<not> is_digit (drop 3 b ! length ?d)" by (rule nth_length_takeWhile)
  then have "takeWhile is_digit (drop 3 b @ c) = ?d" using nth_mem [OF lt] by (intro takeWhile_append1)
  then have d: "takeWhile is_digit (drop 3 (b @ c)) = ?d" using True by simp
  have j: "(b @ c) ! (3 + length ?d) = b ! (3 + length ?d)" using lt unfolding length_drop nth_append by (simp add: less_diff_conv add.commute)
  have "3 + length ?d < length b" using lt unfolding length_drop by linarith
  then show ?thesis using True unfolding parse_private_mode_def d Let_def j by (simp add: nth_append)
next
  case False
  then show ?thesis using assms by (auto simp: parse_private_mode_def nth_append Let_def split: if_splits)
qed

lemma incomplete_short: "parse_private_mode (ESC # bs) = PM_Incomplete \<Longrightarrow> \<not> overlong (ESC # bs @ c) \<Longrightarrow> Suc (length bs) \<le> MAX_PENDING"
proof (rule ccontr)
  assume inc: "parse_private_mode (ESC # bs) = PM_Incomplete" and no: "\<not> overlong (ESC # bs @ c)" and long: "\<not> Suc (length bs) \<le> MAX_PENDING"
  obtain x y ds where bs: "bs = x # y # ds" using long by (cases bs; cases "tl bs") (auto simp: MAX_PENDING_def)
  have p: "x = CHR ''['' \<and> y = CHR ''?'' \<and> length (takeWhile is_digit ds) = length ds"
    using inc by (auto simp: parse_private_mode_def bs Let_def split: if_splits)
  then have "takeWhile is_digit ds = ds" by (metis takeWhile_eq_take take_all order_refl)
  then have "list_all is_digit ds" by (simp add: list_all_iff takeWhile_eq_all_conv)
  moreover have "ESC # bs @ c = [] @ [ESC, CHR ''['', CHR ''?''] @ ds @ c" using p bs by simp
  moreover have "MAX_PENDING < 3 + length ds" using long bs by simp
  ultimately show False using no unfolding overlong_def by blast
qed

lemma scan_append:
  assumes "\<not> overlong (a @ b)"
  shows "scan_with_leftover (a @ b) =
    (case scan_with_leftover a of (out, l) \<Rightarrow> case scan_with_leftover (l @ b) of (out', l') \<Rightarrow> (out @ out', l'))"
  using assms
proof (induction a rule: scan_with_leftover.induct)
  case 1
  then show ?case by (simp split: prod.split)
next
  case (2 c cs)
  have no: "\<not> overlong (cs @ b)" using 2(5) overlong_suffix [of "cs @ b" "[c]"] by auto
  show ?case
  proof (cases "c = ESC")
    case False
    then show ?thesis using 2(4) no by (simp add: scan_with_leftover.simps(2))
  next
    case True
    show ?thesis
    proof (cases "parse_private_mode (c # cs)")
      case (PM_Complete s n)
      have p: "parse_private_mode (c # cs @ b) = PM_Complete s n" using parse_decided [of "c # cs" b] PM_Complete by simp
      have n: "n \<le> length (c # cs)"
        using PM_Complete length_takeWhile_le [of is_digit "drop 3 (c # cs)"] by (auto simp: parse_private_mode_def Let_def split: if_splits)
      then have d: "drop n (c # cs @ b) = drop n (c # cs) @ b" by (metis append_Cons drop_append diff_is_0_eq drop_0)
      have "\<not> overlong (drop n (c # cs) @ b)" using overlong_drop [of "c # cs @ b" n] 2(5) d by simp
      note ih = 2(1) [OF True PM_Complete this]
      show ?thesis using True PM_Complete p ih d [unfolded True] by (simp add: scan_with_leftover.simps(2) split: prod.splits option.split)
    next
      case PM_Incomplete
      then have "Suc (length cs) \<le> MAX_PENDING" using incomplete_short [of cs b] True 2(5) by simp
      then have "scan_with_leftover (c # cs) = ([], c # cs)" using True PM_Incomplete by (simp add: scan_with_leftover.simps(2))
      then show ?thesis by (simp split: prod.split)
    next
      case PM_NoMatch
      then have "parse_private_mode (c # cs @ b) = PM_NoMatch" using parse_decided [of "c # cs" b] by simp
      then show ?thesis using True PM_NoMatch 2(3) no by (simp add: scan_with_leftover.simps(2))
    qed
  qed
qed

lemma leftover_stable: "scan_with_leftover bs = (out, l) \<Longrightarrow> scan_with_leftover l = ([], l) \<and> (\<exists>r. bs = r @ l)"
proof (induction bs arbitrary: out l rule: scan_with_leftover.induct)
  case 1
  then show ?case by simp
next
  case (2 c cs)
  have rest: "scan_with_leftover l = ([], l) \<and> (\<exists>r. cs = r @ l) \<Longrightarrow> ?case" by (metis append_Cons)
  show ?case
  proof (cases "c = ESC")
    case False
    then show ?thesis using 2(4) 2(5) rest by (simp add: scan_with_leftover.simps(2))
  next
    case True
    show ?thesis
    proof (cases "parse_private_mode (c # cs)")
      case (PM_Complete s n)
      obtain o' l' where r: "scan_with_leftover (drop n (c # cs)) = (o', l')" by fastforce
      then have "l' = l" using 2(5) True PM_Complete by (simp add: scan_with_leftover.simps(2))
      then show ?thesis using 2(1) [OF True PM_Complete r] by (metis append.assoc append_take_drop_id)
    next
      case PM_Incomplete
      show ?thesis
      proof (cases "Suc (length cs) \<le> MAX_PENDING")
        case True
        then show ?thesis using 2(5) \<open>c = ESC\<close> PM_Incomplete by (auto simp: scan_with_leftover.simps(2))
      next
        case False
        then show ?thesis using 2(2) [OF \<open>c = ESC\<close> PM_Incomplete] 2(5) \<open>c = ESC\<close> PM_Incomplete rest by (simp add: scan_with_leftover.simps(2))
      qed
    next
      case PM_NoMatch
      then show ?thesis using 2(3) [OF True] 2(5) True rest by (simp add: scan_with_leftover.simps(2))
    qed
  qed
qed

fun scan_reads :: "string \<Rightarrow> string list \<Rightarrow> Signal list" where
  "scan_reads pending [] = []"
| "scan_reads pending (r # rs) = (case scanner_scan pending r of (out, pending') \<Rightarrow> out @ scan_reads pending' rs)"

lemma scan_reads_prescan:
  assumes "scan_with_leftover p = ([], p)" and "\<not> overlong (p @ concat rs)"
  shows "scan_reads p rs = prescan (p @ concat rs)"
  using assms
proof (induction rs arbitrary: p)
  case Nil
  then show ?case by (simp add: prescan_def)
next
  case (Cons r rs)
  obtain out l where s: "scan_with_leftover (p @ r) = (out, l)" by fastforce
  from leftover_stable [OF s] obtain q where l: "scan_with_leftover l = ([], l)" "p @ r = q @ l" by blast
  have all: "(p @ r) @ concat rs = p @ concat (r # rs)" by simp
  have no: "\<not> overlong (l @ concat rs)"
    using Cons.prems(2) overlong_suffix [of "l @ concat rs" q] l(2) by (metis all append.assoc)
  have "scan_with_leftover (p @ concat (r # rs)) = (case scan_with_leftover (l @ concat rs) of (out', l') \<Rightarrow> (out @ out', l'))"
    using scan_append [of "p @ r" "concat rs"] Cons.prems(2) s by simp
  then show ?case using Cons.IH [OF l(1) no] s by (simp add: scanner_scan_def prescan_def split: prod.split)
qed

text \<open>C32. Mode signals do not depend on how the terminal's bytes arrive: whatever reads a stream is cut into, even within an escape sequence, the scanner finds
the signals one pass over the whole stream finds, provided that no sequence runs on with more digits than the scanner carries.
\<close>

theorem signals_survive_splits:
  assumes "\<not> overlong (concat reads)"
  shows "scan_reads [] reads = prescan (concat reads)"
  using scan_reads_prescan [of "[]" reads] assms by simp

lemma short_not_overlong: "length s \<le> MAX_PENDING \<Longrightarrow> \<not> overlong s"
  by (auto simp: overlong_def)

theorem signals_survive_splits_witness:
  "scan_reads [] [[ESC, CHR ''[''], ''?10'', ''49h''] = [AltEnter]"
proof -
  have "\<not> overlong (concat [[ESC, CHR ''[''], ''?10'', ''49h''])" by (rule short_not_overlong) (simp add: MAX_PENDING_def)
  moreover have "prescan (concat [[ESC, CHR ''[''], ''?10'', ''49h'']) = [AltEnter]" by code_simp
  ultimately show ?thesis using signals_survive_splits by metis
qed

end
