(* ===== verification/Term_Blocks.thy ===== *)
theory Term_Blocks
  imports Term_State
begin

section \<open>Command blocks\<close>

text \<open>
  Models the parser of \<^verbatim>\<open>crates/orkia-terminal-core/src/blocks.rs\<close>: the bytes of the hidden shell are cut at its markers, prompts and echo are
  discarded and each command keeps its output and its exit code. A block's grid is the third-party emulator's; a block here holds the bytes the emulator was
  given, in order. The extractor and the renderer only read. Handles to a block are its position, for blocks are only ever added. The listeners record what
  they are called with. Decoding with replacement of invalid bytes is an argument; the clock is read once per call.
\<close>

subsection \<open>Blocks\<close>

datatype BlockStatus = BS_Running | BS_Done int

record Block =
  bl_cmd :: string
  bl_status :: BlockStatus
  bl_started :: nat
  bl_ended :: "nat option"
  bl_engine :: string

datatype Osc133Marker = PromptStart | PromptReady | OutputStart | OutputFinished "int option"

definition block_duration :: "Block \<Rightarrow> nat option" where
  "block_duration b = map_option (\<lambda>e. e - bl_started b) (bl_ended b)"

definition push_block :: "nat \<Rightarrow> string \<Rightarrow> Block list \<Rightarrow> Block list" where
  "push_block now cmd blocks = blocks @ [\<lparr>bl_cmd = cmd, bl_status = BS_Running, bl_started = now, bl_ended = None, bl_engine = []\<rparr>]"

definition current_block :: "Block list \<Rightarrow> nat option" where
  "current_block blocks = find (\<lambda>i. bl_status (blocks ! i) = BS_Running) (rev [0..<length blocks])"

definition current_or_last :: "Block list \<Rightarrow> nat option" where
  "current_or_last blocks =
     (case current_block blocks of Some i \<Rightarrow> Some i | None \<Rightarrow> if blocks = [] then None else Some (length blocks - 1))"

subsection \<open>The parser\<close>

record BlockParser =
  bp_blocks :: "Block list"
  bp_sm :: StateMachine
  bp_extract_dirty :: bool
  bp_capturing :: bool
  bp_esc_pending :: bool
  bp_in_osc :: bool
  bp_osc_esc :: bool
  bp_osc :: string
  bp_cur :: "nat option"
  bp_on_osc133 :: "Osc133Marker list option"
  bp_in_apc :: bool
  bp_apc_esc :: bool
  bp_apc :: string
  bp_on_apc :: "string list option"

definition parser_new :: "Block list \<Rightarrow> StateMachine \<Rightarrow> BlockParser" where
  "parser_new blocks sm =
     \<lparr>bp_blocks = blocks, bp_sm = sm, bp_extract_dirty = False, bp_capturing = False, bp_esc_pending = False, bp_in_osc = False, bp_osc_esc = False,
      bp_osc = [], bp_cur = None, bp_on_osc133 = None, bp_in_apc = False, bp_apc_esc = False, bp_apc = [], bp_on_apc = None\<rparr>"

definition set_osc133_listener :: "BlockParser \<Rightarrow> BlockParser" where
  "set_osc133_listener p = p\<lparr>bp_on_osc133 := Some []\<rparr>"

definition set_apc_listener :: "BlockParser \<Rightarrow> BlockParser" where
  "set_apc_listener p = p\<lparr>bp_on_apc := Some []\<rparr>"

definition push_command :: "nat \<Rightarrow> string \<Rightarrow> BlockParser \<Rightarrow> BlockParser" where
  "push_command now cmd p = p\<lparr>bp_blocks := push_block now cmd (bp_blocks p)\<rparr>"

definition ensure_target :: "BlockParser \<Rightarrow> BlockParser \<times> nat option" where
  "ensure_target p =
     (case bp_cur p of
        Some i \<Rightarrow> (p, Some i)
      | None \<Rightarrow> (let t = current_or_last (bp_blocks p) in (p\<lparr>bp_cur := t\<rparr>, t)))"

text \<open>\<^verbatim>\<open>str::parse::<i32>\<close>.\<close>

definition parse_i32 :: "string \<Rightarrow> int option" where
  "parse_i32 s = (case parse_i64 s of Some i \<Rightarrow> if - (2 ^ 31) \<le> i \<and> i < 2 ^ 31 then Some i else None | None \<Rightarrow> None)"

definition marker_exit_code :: "string \<Rightarrow> int option" where
  "marker_exit_code rest = (case split_on (CHR '';'') rest of _ # s # _ \<Rightarrow> parse_i32 (trim s) | _ \<Rightarrow> None)"

definition fire_marker :: "Osc133Marker \<Rightarrow> BlockParser \<Rightarrow> BlockParser" where
  "fire_marker m p = p\<lparr>bp_on_osc133 := map_option (\<lambda>ms. ms @ [m]) (bp_on_osc133 p)\<rparr>"

definition finish_current :: "nat \<Rightarrow> int \<Rightarrow> Block list \<Rightarrow> Block list" where
  "finish_current now code blocks =
     (case current_block blocks of
        Some i \<Rightarrow> blocks[i := (blocks ! i)\<lparr>bl_status := BS_Done code, bl_ended := Some now\<rparr>]
      | None \<Rightarrow> blocks)"

definition finish_osc :: "(string \<Rightarrow> string) \<Rightarrow> nat \<Rightarrow> BlockParser \<Rightarrow> BlockParser" where
  "finish_osc lossy now p =
     (let payload = lossy (bp_osc p); p1 = p\<lparr>bp_in_osc := False, bp_osc := []\<rparr>
      in case strip_prefix ''133;'' payload of
           None \<Rightarrow> p1
         | Some rest \<Rightarrow>
            (case rest of
               [] \<Rightarrow> p1
             | c # _ \<Rightarrow>
                if c = CHR ''A'' then fire_marker PromptStart p1
                else if c = CHR ''B'' then fire_marker PromptReady p1
                else if c = CHR ''C''
                then fire_marker OutputStart (p1\<lparr>bp_capturing := True, bp_cur := None, bp_sm := set_capturing now True (bp_sm p1)\<rparr>)
                else if c = CHR ''D''
                then let parsed = marker_exit_code rest
                     in fire_marker (OutputFinished parsed)
                          (p1\<lparr>bp_capturing := False, bp_sm := set_capturing now False (bp_sm p1),
                              bp_blocks := finish_current now (case parsed of Some n \<Rightarrow> n | None \<Rightarrow> 0) (bp_blocks p1),
                              bp_cur := None, bp_extract_dirty := True\<rparr>)
                else p1))"

definition finish_apc :: "BlockParser \<Rightarrow> BlockParser" where
  "finish_apc p =
     p\<lparr>bp_in_apc := False, bp_apc_esc := False, bp_apc := [], bp_on_apc := map_option (\<lambda>ps. ps @ [bp_apc p]) (bp_on_apc p)\<rparr>"

definition osc_byte :: "(string \<Rightarrow> string) \<Rightarrow> nat \<Rightarrow> char \<Rightarrow> BlockParser \<Rightarrow> BlockParser" where
  "osc_byte lossy now b p =
     (if b = CHR 0x07 then finish_osc lossy now p
      else if b = ESC then p\<lparr>bp_osc_esc := True\<rparr>
      else p\<lparr>bp_osc := bp_osc p @ [b]\<rparr>)"

definition feed_byte :: "(string \<Rightarrow> string) \<Rightarrow> nat \<Rightarrow> BlockParser \<times> string \<Rightarrow> char \<Rightarrow> BlockParser \<times> string" where
  "feed_byte lossy now po b =
     (case po of (p, out) \<Rightarrow>
        if bp_in_osc p
        then (if bp_osc_esc p
              then let p1 = p\<lparr>bp_osc_esc := False\<rparr> in (if b = BS then finish_osc lossy now p1 else osc_byte lossy now b p1, out)
              else (osc_byte lossy now b p, out))
        else if bp_in_apc p
        then (if bp_apc_esc p
              then let p1 = p\<lparr>bp_apc_esc := False\<rparr> in (if b = BS then finish_apc p1 else p1\<lparr>bp_in_apc := False, bp_apc := []\<rparr>, out)
              else if b = CHR 0x9C then (finish_apc p, out)
              else if b = ESC then (p\<lparr>bp_apc_esc := True\<rparr>, out)
              else (p\<lparr>bp_apc := bp_apc p @ [b]\<rparr>, out))
        else if bp_esc_pending p
        then let p1 = p\<lparr>bp_esc_pending := False\<rparr>
             in if b = CHR '']'' then (p1\<lparr>bp_in_osc := True, bp_osc := []\<rparr>, out)
                else if b = CHR ''_'' then (p1\<lparr>bp_in_apc := True, bp_apc := []\<rparr>, out)
                else if bp_capturing p1 then (p1, out @ [ESC, b])
                else (p1, out)
        else if b = ESC then (p\<lparr>bp_esc_pending := True\<rparr>, out)
        else if bp_capturing p then (p, out @ [b])
        else (p, out))"

definition engine_advance :: "string \<Rightarrow> Block \<Rightarrow> Block" where
  "engine_advance out b = b\<lparr>bl_engine := bl_engine b @ out\<rparr>"

definition feed :: "(string \<Rightarrow> string) \<Rightarrow> nat \<Rightarrow> BlockParser \<Rightarrow> string \<Rightarrow> BlockParser" where
  "feed lossy now p bytes =
     (case foldl (feed_byte lossy now) (p, []) bytes of (p1, out) \<Rightarrow>
        if out = [] then p1
        else (case ensure_target p1 of
                (p2, Some i) \<Rightarrow> p2\<lparr>bp_blocks := (bp_blocks p2)[i := engine_advance out (bp_blocks p2 ! i)], bp_extract_dirty := True\<rparr>
              | (p2, None) \<Rightarrow> p2))"

section \<open>Every command keeps its own output\<close>

subsection \<open>However the bytes arrive\<close>

lemma current_block_last:
  assumes "\<forall>b \<in> set ds. bl_status b \<noteq> BS_Running"
  shows "current_block (ds @ [b]) = (if bl_status b = BS_Running then Some (length ds) else None)"
proof -
  have "find (\<lambda>i. bl_status ((ds @ [b]) ! i) = BS_Running) (rev [0..<length ds]) = None"
    using assms by (auto simp: find_None_iff nth_append)
  then show ?thesis by (simp add: current_block_def)
qed

lemma finish_current_last:
  "\<forall>b \<in> set ds. bl_status b \<noteq> BS_Running \<Longrightarrow>
   finish_current now code (ds @ [b]) = ds @ [if bl_status b = BS_Running then b\<lparr>bl_status := BS_Done code, bl_ended := Some now\<rparr> else b]"
  by (simp add: finish_current_def current_block_last)

text \<open>Blocks that have ended, the last one apart, and a parser that has written nothing yet.\<close>

definition at_last :: "Block list \<Rightarrow> BlockParser \<Rightarrow> bool" where
  "at_last ds q \<longleftrightarrow> (\<forall>b \<in> set ds. bl_status b \<noteq> BS_Running) \<and> (\<exists>b. bp_blocks q = ds @ [b])"

text \<open>The same parser with output written to its last block, and other handles.\<close>

definition wrote :: "string \<Rightarrow> nat option \<Rightarrow> bool \<Rightarrow> BlockParser \<Rightarrow> BlockParser" where
  "wrote o0 c d q = q\<lparr>bp_blocks := butlast (bp_blocks q) @ [engine_advance o0 (last (bp_blocks q))], bp_cur := c, bp_extract_dirty := d\<rparr>"

definition fresh_cur :: "Block list \<Rightarrow> nat option \<Rightarrow> bool" where
  "fresh_cur ds c \<longleftrightarrow> c = None \<or> c = Some (length ds)"

lemma wrote_simps [simp]:
  "bp_in_osc (wrote o0 c d q) = bp_in_osc q" "bp_osc_esc (wrote o0 c d q) = bp_osc_esc q" "bp_osc (wrote o0 c d q) = bp_osc q"
  "bp_in_apc (wrote o0 c d q) = bp_in_apc q" "bp_apc_esc (wrote o0 c d q) = bp_apc_esc q" "bp_apc (wrote o0 c d q) = bp_apc q"
  "bp_esc_pending (wrote o0 c d q) = bp_esc_pending q" "bp_capturing (wrote o0 c d q) = bp_capturing q" "bp_cur (wrote o0 c d q) = c"
  by (simp_all add: wrote_def)

lemma wrote_updates:
  "(wrote o0 c d q)\<lparr>bp_osc_esc := x\<rparr> = wrote o0 c d (q\<lparr>bp_osc_esc := x\<rparr>)"
  "(wrote o0 c d q)\<lparr>bp_osc := y\<rparr> = wrote o0 c d (q\<lparr>bp_osc := y\<rparr>)"
  "(wrote o0 c d q)\<lparr>bp_apc_esc := x\<rparr> = wrote o0 c d (q\<lparr>bp_apc_esc := x\<rparr>)"
  "(wrote o0 c d q)\<lparr>bp_apc := y\<rparr> = wrote o0 c d (q\<lparr>bp_apc := y\<rparr>)"
  "(wrote o0 c d q)\<lparr>bp_in_apc := x, bp_apc := y\<rparr> = wrote o0 c d (q\<lparr>bp_in_apc := x, bp_apc := y\<rparr>)"
  "(wrote o0 c d q)\<lparr>bp_in_osc := x, bp_osc := y\<rparr> = wrote o0 c d (q\<lparr>bp_in_osc := x, bp_osc := y\<rparr>)"
  "(wrote o0 c d q)\<lparr>bp_esc_pending := x\<rparr> = wrote o0 c d (q\<lparr>bp_esc_pending := x\<rparr>)"
  "finish_apc (wrote o0 c d q) = wrote o0 c d (finish_apc q)"
  "fire_marker m (wrote o0 c d q) = wrote o0 c d (fire_marker m q)"
  by (simp_all add: wrote_def finish_apc_def fire_marker_def)

lemma finish_osc_wrote:
  assumes "at_last ds q"
  shows "\<exists>c' d'. finish_osc lossy now (wrote o0 c d q) = wrote o0 c' d' (finish_osc lossy now q) \<and>
    (c' = None \<or> c' = c \<and> bp_capturing (finish_osc lossy now q) = bp_capturing q)"
proof -
  define q1 where "q1 = q\<lparr>bp_in_osc := False, bp_osc := []\<rparr>"
  obtain b where b: "\<forall>b \<in> set ds. bl_status b \<noteq> BS_Running" "bp_blocks q = ds @ [b]" using assms by (auto simp: at_last_def)
  have w: "(wrote o0 c d q)\<lparr>bp_in_osc := False, bp_osc := []\<rparr> = wrote o0 c d q1" by (simp add: q1_def wrote_updates)
  have fin: "finish_current now code (bp_blocks (wrote o0 c d q1)) =
      (let bs = finish_current now code (bp_blocks q1) in butlast bs @ [engine_advance o0 (last bs)])" for code
    using b by (simp add: wrote_def q1_def finish_current_last engine_advance_def)
  have D: "(wrote o0 c d q1)\<lparr>bp_capturing := x, bp_sm := set_capturing now x (bp_sm (wrote o0 c d q1)),
        bp_blocks := finish_current now code (bp_blocks (wrote o0 c d q1)), bp_cur := None, bp_extract_dirty := True\<rparr> =
      wrote o0 None True (q1\<lparr>bp_capturing := x, bp_sm := set_capturing now x (bp_sm q1), bp_blocks := finish_current now code (bp_blocks q1),
        bp_cur := None, bp_extract_dirty := True\<rparr>)" for x code
    unfolding fin by (simp add: wrote_def Let_def)
  have C: "(wrote o0 c d q1)\<lparr>bp_capturing := x, bp_cur := None, bp_sm := set_capturing now x (bp_sm (wrote o0 c d q1))\<rparr> =
      wrote o0 None d (q1\<lparr>bp_capturing := x, bp_cur := None, bp_sm := set_capturing now x (bp_sm q1)\<rparr>)" for x
    by (simp add: wrote_def)
  have same: "bp_capturing q1 = bp_capturing q" by (simp add: q1_def)
  show ?thesis
    unfolding finish_osc_def w q1_def [symmetric] wrote_simps Let_def C D wrote_updates
    by (auto simp: same fire_marker_def split: option.split list.split)
qed

lemma finish_osc_at_last: "at_last ds q \<Longrightarrow> at_last ds (finish_osc lossy now q)"
  by (auto simp: at_last_def finish_osc_def fire_marker_def Let_def finish_current_last split: option.split list.split)

lemma feed_byte_at_last: "at_last ds q \<Longrightarrow> at_last ds (fst (feed_byte lossy now (q, out) b))"
  using finish_osc_at_last [of ds q lossy now] finish_osc_at_last [of ds "q\<lparr>bp_osc_esc := False\<rparr>" lossy now]
  by (auto simp: feed_byte_def osc_byte_def Let_def finish_apc_def at_last_def)

text \<open>One byte, with output already written and without: the same byte of output, the same parser otherwise.\<close>

lemma feed_byte_wrote:
  assumes "at_last ds q" and "bp_capturing q \<or> out \<noteq> [] \<longrightarrow> fresh_cur ds c"
  shows "\<exists>c' d' more. feed_byte lossy now (wrote o0 c d q, out) b = (wrote o0 c' d' (fst (feed_byte lossy now (q, acc) b)), out @ more) \<and>
    snd (feed_byte lossy now (q, acc) b) = acc @ more \<and>
    (bp_capturing (fst (feed_byte lossy now (q, acc) b)) \<or> out @ more \<noteq> [] \<longrightarrow> fresh_cur ds c')"
proof -
  have osc: "\<exists>c' d'. finish_osc lossy now (wrote o0 c d r) = wrote o0 c' d' (finish_osc lossy now r) \<and>
      (bp_capturing (finish_osc lossy now r) \<or> out \<noteq> [] \<longrightarrow> fresh_cur ds c')"
    if "at_last ds r" "bp_capturing r = bp_capturing q" for r
    using finish_osc_wrote [OF that(1), of lossy now o0 c d] assms(2) that(2) by (fastforce simp: fresh_cur_def)
  have byte: "\<exists>c' d'. osc_byte lossy now b (wrote o0 c d r) = wrote o0 c' d' (osc_byte lossy now b r) \<and>
      (bp_capturing (osc_byte lossy now b r) \<or> out \<noteq> [] \<longrightarrow> fresh_cur ds c')"
    if "at_last ds r" "bp_capturing r = bp_capturing q" for r
    using osc [OF that] assms(2) that(2) by (auto simp: osc_byte_def wrote_updates)
  have l: "at_last ds (q\<lparr>bp_osc_esc := False\<rparr>)" using assms(1) by (simp add: at_last_def)
  have keep: ?thesis
    if "feed_byte lossy now (wrote o0 c d q, out) b = (wrote o0 c d q', out @ more)" "feed_byte lossy now (q, acc) b = (q', acc @ more)"
      "bp_capturing q' = bp_capturing q" "more \<noteq> [] \<longrightarrow> bp_capturing q" for q' more
    using that assms(2) by (intro exI [of _ c] exI [of _ d] exI [of _ more]) auto
  have osc_step: ?thesis
    if "\<exists>c' d'. f (wrote o0 c d r) = wrote o0 c' d' (f r) \<and> (bp_capturing (f r) \<or> out \<noteq> [] \<longrightarrow> fresh_cur ds c')"
      "feed_byte lossy now (wrote o0 c d q, out) b = (f (wrote o0 c d r), out)" "feed_byte lossy now (q, acc) b = (f r, acc)" for f r
    using that by (metis append.right_neutral fst_conv snd_conv)
  show ?thesis
  proof (cases "bp_in_osc q")
    case True
    show ?thesis
    proof (cases "bp_osc_esc q")
      case esc: True
      show ?thesis
      proof (cases "b = BS")
        case True
        show ?thesis by (rule osc_step [OF osc [OF l]]) (use True esc \<open>bp_in_osc q\<close> in \<open>simp_all add: feed_byte_def Let_def wrote_updates\<close>)
      next
        case False
        show ?thesis by (rule osc_step [OF byte [OF l]]) (use False esc \<open>bp_in_osc q\<close> in \<open>simp_all add: feed_byte_def Let_def wrote_updates\<close>)
      qed
    next
      case False
      show ?thesis by (rule osc_step [OF byte [OF assms(1)]]) (use False \<open>bp_in_osc q\<close> in \<open>simp_all add: feed_byte_def\<close>)
    qed
  next
    case False
    define q' where "q' = fst (feed_byte lossy now (q, acc) b)"
    define more where "more = (if \<not> bp_in_apc q \<and> bp_capturing q \<and> bp_esc_pending q \<and> b \<noteq> CHR '']'' \<and> b \<noteq> CHR ''_'' then [ESC, b]
      else if \<not> bp_in_apc q \<and> bp_capturing q \<and> \<not> bp_esc_pending q \<and> b \<noteq> ESC then [b] else [])"
    show ?thesis
    proof (rule keep [of q' more])
      show "feed_byte lossy now (q, acc) b = (q', acc @ more)" using False by (simp add: q'_def more_def feed_byte_def Let_def)
      show "feed_byte lossy now (wrote o0 c d q, out) b = (wrote o0 c d q', out @ more)"
        using False by (simp add: q'_def more_def feed_byte_def Let_def wrote_updates)
      show "bp_capturing q' = bp_capturing q" using False by (simp add: q'_def feed_byte_def Let_def finish_apc_def)
      show "more \<noteq> [] \<longrightarrow> bp_capturing q" by (simp add: more_def)
    qed
  qed
qed

lemma feed_bytes_wrote:
  assumes "at_last ds q" and "bp_capturing q \<or> out \<noteq> [] \<longrightarrow> fresh_cur ds c"
  shows "\<exists>c' d' more. foldl (feed_byte lossy now) (wrote o0 c d q, out) bs = (wrote o0 c' d' (fst (foldl (feed_byte lossy now) (q, acc) bs)), out @ more) \<and>
    snd (foldl (feed_byte lossy now) (q, acc) bs) = acc @ more \<and> at_last ds (fst (foldl (feed_byte lossy now) (q, acc) bs)) \<and>
    (bp_capturing (fst (foldl (feed_byte lossy now) (q, acc) bs)) \<or> out @ more \<noteq> [] \<longrightarrow> fresh_cur ds c')"
  using assms
proof (induction bs arbitrary: q out c d acc)
  case Nil
  then show ?case by (intro exI [of _ c] exI [of _ d] exI [of _ "[]"]) auto
next
  case (Cons b bs)
  obtain q1 acc1 where q1: "feed_byte lossy now (q, acc) b = (q1, acc1)" by fastforce
  from feed_byte_wrote [OF Cons.prems, of lossy now o0 d b acc] q1 obtain c1 d1 m1 where
    1: "feed_byte lossy now (wrote o0 c d q, out) b = (wrote o0 c1 d1 q1, out @ m1)" "acc1 = acc @ m1"
      "bp_capturing q1 \<or> out @ m1 \<noteq> [] \<longrightarrow> fresh_cur ds c1" by auto
  have "at_last ds q1" using feed_byte_at_last [OF Cons.prems(1), of lossy now acc b] q1 by simp
  from Cons.IH [OF this 1(3), of d1 acc1] obtain c2 d2 m2 where
    2: "foldl (feed_byte lossy now) (wrote o0 c1 d1 q1, out @ m1) bs = (wrote o0 c2 d2 (fst (foldl (feed_byte lossy now) (q1, acc1) bs)), (out @ m1) @ m2)"
      "snd (foldl (feed_byte lossy now) (q1, acc1) bs) = acc1 @ m2" "at_last ds (fst (foldl (feed_byte lossy now) (q1, acc1) bs))"
      "bp_capturing (fst (foldl (feed_byte lossy now) (q1, acc1) bs)) \<or> (out @ m1) @ m2 \<noteq> [] \<longrightarrow> fresh_cur ds c2" by blast
  show ?case unfolding foldl_Cons q1 1(1) using 2 1(2) by (intro exI [of _ c2] exI [of _ d2] exI [of _ "m1 @ m2"]) auto
qed

lemma feed_wrote:
  assumes "at_last ds q" and "bp_capturing q \<longrightarrow> fresh_cur ds c"
  shows "\<exists>c' d' more. feed lossy now (wrote o0 c d q) bs = wrote (o0 @ more) c' d' (fst (foldl (feed_byte lossy now) (q, acc) bs)) \<and>
    snd (foldl (feed_byte lossy now) (q, acc) bs) = acc @ more \<and> at_last ds (fst (foldl (feed_byte lossy now) (q, acc) bs)) \<and>
    (bp_capturing (fst (foldl (feed_byte lossy now) (q, acc) bs)) \<longrightarrow> fresh_cur ds c')"
proof -
  define q' where "q' = fst (foldl (feed_byte lossy now) (q, acc) bs)"
  from feed_bytes_wrote [OF assms(1), of "[]" c lossy now o0 d bs acc] assms(2) obtain c' d' more where
    f: "foldl (feed_byte lossy now) (wrote o0 c d q, []) bs = (wrote o0 c' d' q', more)" "snd (foldl (feed_byte lossy now) (q, acc) bs) = acc @ more"
      "at_last ds q'" "bp_capturing q' \<or> more \<noteq> [] \<longrightarrow> fresh_cur ds c'" unfolding q'_def by auto
  obtain b where b: "\<forall>b \<in> set ds. bl_status b \<noteq> BS_Running" "bp_blocks q' = ds @ [b]" using f(3) by (auto simp: at_last_def)
  have last: "current_or_last (ds @ [engine_advance o0 b]) = Some (length ds)"
    using b(1) by (simp add: current_or_last_def current_block_last)
  show ?thesis
  proof (cases "more = []")
    case True
    then have "feed lossy now (wrote o0 c d q) bs = wrote (o0 @ more) c' d' q'" by (simp add: feed_def f(1))
    then show ?thesis using f unfolding q'_def by blast
  next
    case False
    then have "c' = None \<or> c' = Some (length ds)" using f(4) by (simp add: fresh_cur_def)
    then have "feed lossy now (wrote o0 c d q) bs = wrote (o0 @ more) (Some (length ds)) True q'"
      using False b last by (auto simp: feed_def f(1) ensure_target_def Let_def) (simp_all add: wrote_def engine_advance_def)
    then show ?thesis using f unfolding q'_def fresh_cur_def by blast
  qed
qed

text \<open>A parser fed in reads is the parser fed at once, and its last block has all the output.\<close>

lemma feed_reads:
  assumes "at_last ds q" and "bp_capturing q \<longrightarrow> fresh_cur ds c"
  shows "\<exists>c' d' more. foldl (feed lossy now) (wrote o0 c d q) reads = wrote (o0 @ more) c' d' (fst (foldl (feed_byte lossy now) (q, acc) (concat reads))) \<and>
    snd (foldl (feed_byte lossy now) (q, acc) (concat reads)) = acc @ more"
  using assms
proof (induction reads arbitrary: q c d o0 acc)
  case Nil
  then show ?case by (intro exI [of _ c] exI [of _ d] exI [of _ "[]"]) simp
next
  case (Cons r reads)
  obtain q1 acc1 where q1: "foldl (feed_byte lossy now) (q, acc) r = (q1, acc1)" by fastforce
  from feed_wrote [OF Cons.prems, of lossy now o0 d r acc] q1 obtain c1 d1 m1 where
    1: "feed lossy now (wrote o0 c d q) r = wrote (o0 @ m1) c1 d1 q1" "acc1 = acc @ m1" "at_last ds q1" "bp_capturing q1 \<longrightarrow> fresh_cur ds c1" by auto
  from Cons.IH [OF 1(3,4), of "o0 @ m1" d1 acc1] obtain c2 d2 m2 where
    2: "foldl (feed lossy now) (wrote (o0 @ m1) c1 d1 q1) reads = wrote ((o0 @ m1) @ m2) c2 d2 (fst (foldl (feed_byte lossy now) (q1, acc1) (concat reads)))"
      "snd (foldl (feed_byte lossy now) (q1, acc1) (concat reads)) = acc1 @ m2" by blast
  show ?case using 2 1 q1 by (intro exI [of _ c2] exI [of _ d2] exI [of _ "m1 @ m2"]) simp
qed

subsection \<open>A session of the shell\<close>

record Turn =
  tu_cmd :: string
  tu_echo :: string
  tu_output :: string
  tu_code :: int
  tu_prompt :: string

text \<open>Text with any escape sequences but those of the protocol, and none of them cut off.\<close>

fun plain_text :: "string \<Rightarrow> bool" where
  "plain_text [] = True"
| "plain_text [c] = (c \<noteq> ESC)"
| "plain_text (c # b # cs) = (if c = ESC then b \<noteq> CHR '']'' \<and> b \<noteq> CHR ''_'' \<and> plain_text cs else plain_text (b # cs))"

definition osc_mark :: "string \<Rightarrow> string" where
  "osc_mark m = [ESC, CHR '']''] @ ''133;'' @ m @ [CHR 0x07]"

text \<open>What the shell sends from the moment a command is entered to its next prompt.\<close>

definition turn_bytes :: "Turn \<Rightarrow> string" where
  "turn_bytes t = tu_echo t @ osc_mark ''C'' @ tu_output t @ osc_mark (''D;'' @ show_int (tu_code t)) @ osc_mark ''A'' @ tu_prompt t @ osc_mark ''B''"

definition turn_ok :: "Turn \<Rightarrow> bool" where
  "turn_ok t \<longleftrightarrow> plain_text (tu_echo t) \<and> plain_text (tu_output t) \<and> plain_text (tu_prompt t) \<and> - (2 ^ 31) \<le> tu_code t \<and> tu_code t < 2 ^ 31"

definition ascii_kept :: "(string \<Rightarrow> string) \<Rightarrow> bool" where
  "ascii_kept lossy \<longleftrightarrow> (\<forall>s. list_all (\<lambda>c. (of_char c :: nat) < 128) s \<longrightarrow> lossy s = s)"

definition ground :: "BlockParser \<Rightarrow> bool" where
  "ground q \<longleftrightarrow> \<not> bp_in_osc q \<and> \<not> bp_osc_esc q \<and> bp_osc q = [] \<and> \<not> bp_in_apc q \<and> \<not> bp_apc_esc q \<and> \<not> bp_esc_pending q"

lemma feed_plain:
  assumes "ground q" and "plain_text s"
  shows "foldl (feed_byte lossy now) (q, out) s = (q, if bp_capturing q then out @ s else out)"
  using assms(2)
proof (induction s arbitrary: out rule: plain_text.induct)
  case 1
  then show ?case by simp
next
  case (2 c)
  then show ?case using assms(1) by (simp add: feed_byte_def ground_def)
next
  case (3 c b cs)
  show ?case
  proof (cases "c = ESC")
    case True
    have "feed_byte lossy now (feed_byte lossy now (q, out) c) b = (q, if bp_capturing q then out @ [c, b] else out)"
      using assms(1) 3(3) True by (simp add: feed_byte_def ground_def)
    then show ?thesis using 3(1) [OF True] 3(3) True by simp
  next
    case False
    have "feed_byte lossy now (q, out) c = (q, if bp_capturing q then out @ [c] else out)"
      using assms(1) False by (simp add: feed_byte_def ground_def)
    then show ?thesis using 3(2) [OF False] 3(3) False by simp
  qed
qed

lemma feed_osc_text:
  "bp_in_osc q \<Longrightarrow> \<not> bp_osc_esc q \<Longrightarrow> list_all (\<lambda>c. c \<noteq> CHR 0x07 \<and> c \<noteq> ESC) s \<Longrightarrow>
   foldl (feed_byte lossy now) (q, out) s = (q\<lparr>bp_osc := bp_osc q @ s\<rparr>, out)"
  by (induction s arbitrary: q) (simp_all add: feed_byte_def osc_byte_def)

lemma feed_mark:
  assumes "ground q" and "list_all (\<lambda>c. c \<noteq> CHR 0x07 \<and> c \<noteq> ESC) m"
  shows "foldl (feed_byte lossy now) (q, out) (osc_mark m) = (finish_osc lossy now (q\<lparr>bp_in_osc := True, bp_osc := ''133;'' @ m\<rparr>), out)"
proof -
  let ?q = "q\<lparr>bp_in_osc := True, bp_osc := []\<rparr>"
  have 1: "feed_byte lossy now (feed_byte lossy now (q, out) ESC) (CHR '']'') = (?q, out)" using assms(1) by (simp add: feed_byte_def ground_def)
  have "list_all (\<lambda>c. c \<noteq> CHR 0x07 \<and> c \<noteq> ESC) (''133;'' @ m)" using assms(2) by (simp add: ESC_def)
  then have 2: "foldl (feed_byte lossy now) (?q, out) (''133;'' @ m) = (?q\<lparr>bp_osc := ''133;'' @ m\<rparr>, out)"
    using feed_osc_text [of ?q "''133;'' @ m" lossy now out] assms(1) by (simp add: ground_def)
  have 3: "feed_byte lossy now (q\<lparr>bp_in_osc := True, bp_osc := ''133;'' @ m\<rparr>, out) (CHR 0x07) =
      (finish_osc lossy now (q\<lparr>bp_in_osc := True, bp_osc := ''133;'' @ m\<rparr>), out)"
    using assms(1) by (simp add: feed_byte_def ground_def osc_byte_def)
  have "foldl (feed_byte lossy now) (q, out) (osc_mark m) =
      feed_byte lossy now (foldl (feed_byte lossy now) (feed_byte lossy now (feed_byte lossy now (q, out) ESC) (CHR '']'')) (''133;'' @ m)) (CHR 0x07)"
    by (simp add: osc_mark_def)
  then show ?thesis unfolding 1 2 using 3 by simp
qed

lemma ground_update: "ground q \<Longrightarrow> q\<lparr>bp_in_osc := False, bp_osc := []\<rparr> = q"
  by (cases q) (simp add: ground_def)

lemma parse_show_i32: "- (2 ^ 31) \<le> i \<Longrightarrow> i < 2 ^ 31 \<Longrightarrow> parse_i32 (show_int i) = Some i"
proof -
  assume i: "- (2 ^ 31) \<le> i" "i < 2 ^ 31"
  have d: "show_nat n \<noteq> []" "list_all is_digit (show_nat n)" for n using show_nat_digits by auto
  obtain c cs where n: "show_nat (nat i) = c # cs" using d by (cases "show_nat (nat i)") auto
  then have "is_digit c" using d(2) [of "nat i"] by simp
  then have "c \<noteq> CHR ''-''" "c \<noteq> CHR ''+''" by (auto simp: is_digit_def)
  moreover have "read_nat (c # cs) = nat i" using read_show_nat [of "nat i"] n by simp
  ultimately show ?thesis using i d(1) [of "nat (- i)"] d(2) [of "nat (- i)"] d(2) [of "nat i"] n
    by (simp add: parse_i32_def parse_i64_def show_int_def Let_def) arith
qed

lemma show_int_chars: "c \<in> set (show_int i) \<Longrightarrow> is_digit c \<or> c = CHR ''-''"
  using show_nat_digits [of "nat i"] show_nat_digits [of "nat (- i)"] by (auto simp: show_int_def list_all_iff split: if_splits)

lemma show_int_plain:
  "list_all (\<lambda>c. c \<noteq> CHR 0x07 \<and> c \<noteq> ESC \<and> (of_char c :: nat) < 128 \<and> c \<noteq> CHR '';'' \<and> \<not> is_whitespace c) (show_int i)"
  by (auto simp: list_all_iff ESC_def is_digit_def is_whitespace_def dest!: show_int_chars)

lemma trim_no_ws: "list_all (\<lambda>c. \<not> is_whitespace c) s \<Longrightarrow> trim s = s"
proof -
  have "list_all (\<lambda>c. \<not> is_whitespace c) r \<Longrightarrow> dropWhile is_whitespace r = r" for r by (cases r) auto
  then show "list_all (\<lambda>c. \<not> is_whitespace c) s \<Longrightarrow> trim s = s" by (simp add: trim_def trim_start_def trim_end_def list_all_rev)
qed

lemma marker_code:
  assumes "- (2 ^ 31) \<le> i" and "i < 2 ^ 31"
  shows "marker_exit_code (''D;'' @ show_int i) = Some i"
proof -
  have p: "CHR '';'' \<notin> set (show_int i)" using show_int_chars [of "CHR '';''" i] by (auto simp: is_digit_def)
  have t: "trim (show_int i) = show_int i" by (rule trim_no_ws) (use show_int_plain [of i] in \<open>simp add: list_all_iff\<close>)
  have "split_on (CHR '';'') (''D'' @ CHR '';'' # show_int i) = [''D'', show_int i]" unfolding split_on_append by (simp add: split_on_no_sep p)
  then show ?thesis using parse_show_i32 [OF assms] t by (simp add: marker_exit_code_def)
qed

lemma finish_marks:
  assumes "ascii_kept lossy" and "ground q"
  shows "finish_osc lossy now (q\<lparr>bp_in_osc := True, bp_osc := ''133;'' @ ''A''\<rparr>) = fire_marker PromptStart q"
    and "finish_osc lossy now (q\<lparr>bp_in_osc := True, bp_osc := ''133;'' @ ''B''\<rparr>) = fire_marker PromptReady q"
    and "finish_osc lossy now (q\<lparr>bp_in_osc := True, bp_osc := ''133;'' @ ''C''\<rparr>) =
      fire_marker OutputStart (q\<lparr>bp_capturing := True, bp_cur := None, bp_sm := set_capturing now True (bp_sm q)\<rparr>)"
    and "- (2 ^ 31) \<le> i \<Longrightarrow> i < 2 ^ 31 \<Longrightarrow> finish_osc lossy now (q\<lparr>bp_in_osc := True, bp_osc := ''133;'' @ ''D;'' @ show_int i\<rparr>) =
      fire_marker (OutputFinished (Some i)) (q\<lparr>bp_capturing := False, bp_sm := set_capturing now False (bp_sm q),
        bp_blocks := finish_current now i (bp_blocks q), bp_cur := None, bp_extract_dirty := True\<rparr>)"
proof -
  note u = ground_update [OF assms(2)]
  have k: "lossy ''133;A'' = ''133;A''" "lossy ''133;B'' = ''133;B''" "lossy ''133;C'' = ''133;C''"
    using assms(1) by (simp_all add: ascii_kept_def)
  have d: "lossy (''133;D;'' @ show_int i) = ''133;D;'' @ show_int i"
    using assms(1) show_int_plain [of i] by (auto simp: ascii_kept_def list_all_iff)
  show "finish_osc lossy now (q\<lparr>bp_in_osc := True, bp_osc := ''133;'' @ ''A''\<rparr>) = fire_marker PromptStart q"
    "finish_osc lossy now (q\<lparr>bp_in_osc := True, bp_osc := ''133;'' @ ''B''\<rparr>) = fire_marker PromptReady q"
    "finish_osc lossy now (q\<lparr>bp_in_osc := True, bp_osc := ''133;'' @ ''C''\<rparr>) =
      fire_marker OutputStart (q\<lparr>bp_capturing := True, bp_cur := None, bp_sm := set_capturing now True (bp_sm q)\<rparr>)"
    using u by (simp_all add: finish_osc_def k strip_prefix_def)
  assume "- (2 ^ 31) \<le> i" "i < 2 ^ 31"
  then show "finish_osc lossy now (q\<lparr>bp_in_osc := True, bp_osc := ''133;'' @ ''D;'' @ show_int i\<rparr>) =
      fire_marker (OutputFinished (Some i)) (q\<lparr>bp_capturing := False, bp_sm := set_capturing now False (bp_sm q),
        bp_blocks := finish_current now i (bp_blocks q), bp_cur := None, bp_extract_dirty := True\<rparr>)"
    using u marker_code [of i] d by (simp add: finish_osc_def strip_prefix_def)
qed

lemma feed_turn:
  assumes "ascii_kept lossy" and "turn_ok t" and "ground q" and "\<not> bp_capturing q" and "\<forall>b \<in> set ds. bl_status b \<noteq> BS_Running"
    and "bp_blocks q = ds @ [b]" and "bl_status b = BS_Running"
  shows "\<exists>q'. foldl (feed_byte lossy now) (q, []) (turn_bytes t) = (q', tu_output t) \<and> ground q' \<and> \<not> bp_capturing q' \<and>
    bp_blocks q' = ds @ [b\<lparr>bl_status := BS_Done (tu_code t), bl_ended := Some now\<rparr>] \<and>
    bp_on_osc133 q' = map_option (\<lambda>ms. ms @ [OutputStart, OutputFinished (Some (tu_code t)), PromptStart, PromptReady]) (bp_on_osc133 q)"
proof -
  let ?f = "foldl (feed_byte lossy now)"
  have t: "plain_text (tu_echo t)" "plain_text (tu_output t)" "plain_text (tu_prompt t)" "- (2 ^ 31) \<le> tu_code t" "tu_code t < 2 ^ 31"
    using assms(2) by (simp_all add: turn_ok_def)
  have g: "ground (fire_marker m p) = ground p" "bp_capturing (fire_marker m p) = bp_capturing p" for m p by (simp_all add: fire_marker_def ground_def)
  define q1 where "q1 = fire_marker OutputStart (q\<lparr>bp_capturing := True, bp_cur := None, bp_sm := set_capturing now True (bp_sm q)\<rparr>)"
  define q2 where "q2 = fire_marker (OutputFinished (Some (tu_code t))) (q1\<lparr>bp_capturing := False, bp_sm := set_capturing now False (bp_sm q1),
      bp_blocks := finish_current now (tu_code t) (bp_blocks q1), bp_cur := None, bp_extract_dirty := True\<rparr>)"
  define q3 where "q3 = fire_marker PromptReady (fire_marker PromptStart q2)"
  have g1: "ground q1" "bp_capturing q1" using assms(3) by (simp_all add: q1_def g) (simp add: ground_def)
  have g2: "ground q2" "\<not> bp_capturing q2" using g1(1) by (simp_all add: q2_def g) (simp add: ground_def)
  have m: "list_all (\<lambda>c. c \<noteq> CHR 0x07 \<and> c \<noteq> ESC) ''C''" "list_all (\<lambda>c. c \<noteq> CHR 0x07 \<and> c \<noteq> ESC) ''A''" "list_all (\<lambda>c. c \<noteq> CHR 0x07 \<and> c \<noteq> ESC) ''B''"
    by (simp_all add: ESC_def)
  have d: "list_all (\<lambda>c. c \<noteq> CHR 0x07 \<and> c \<noteq> ESC) (''D;'' @ show_int (tu_code t))"
    using show_int_plain [of "tu_code t"] by (simp add: ESC_def list_all_iff)
  have "?f (q, []) (tu_echo t) = (q, [])" using feed_plain [OF assms(3) t(1)] assms(4) by simp
  moreover have "?f (q, []) (osc_mark ''C'') = (q1, [])"
    using feed_mark [OF assms(3) m(1)] finish_marks(3) [OF assms(1,3)] by (simp add: q1_def)
  moreover have "?f (q1, []) (tu_output t) = (q1, tu_output t)" using feed_plain [OF g1(1) t(2)] g1(2) by simp
  moreover have "?f (q1, tu_output t) (osc_mark (''D;'' @ show_int (tu_code t))) = (q2, tu_output t)"
    using feed_mark [OF g1(1) d] finish_marks(4) [OF assms(1) g1(1) t(4,5)] by (simp add: q2_def)
  moreover have "?f (q2, tu_output t) (osc_mark ''A'') = (fire_marker PromptStart q2, tu_output t)"
    using feed_mark [OF g2(1) m(2)] finish_marks(1) [OF assms(1) g2(1)] by simp
  moreover have "?f (fire_marker PromptStart q2, tu_output t) (tu_prompt t) = (fire_marker PromptStart q2, tu_output t)"
    using feed_plain [of "fire_marker PromptStart q2"] g2 t(3) by (simp add: g)
  moreover have "?f (fire_marker PromptStart q2, tu_output t) (osc_mark ''B'') = (q3, tu_output t)"
    using feed_mark [of "fire_marker PromptStart q2", OF _ m(3)] finish_marks(2) [OF assms(1), of "fire_marker PromptStart q2"] g2 by (simp add: g q3_def)
  ultimately have "?f (q, []) (turn_bytes t) = (q3, tu_output t)" unfolding turn_bytes_def foldl_append by simp
  moreover have "ground q3 \<and> \<not> bp_capturing q3" using g2 by (simp add: q3_def g)
  moreover have "bp_blocks q3 = ds @ [b\<lparr>bl_status := BS_Done (tu_code t), bl_ended := Some now\<rparr>]"
    using assms(5,6,7) by (simp add: q3_def q2_def q1_def fire_marker_def finish_current_last)
  moreover have "bp_on_osc133 q3 = map_option (\<lambda>ms. ms @ [OutputStart, OutputFinished (Some (tu_code t)), PromptStart, PromptReady]) (bp_on_osc133 q)"
    by (cases "bp_on_osc133 q") (simp_all add: q3_def q2_def q1_def fire_marker_def)
  ultimately show ?thesis by blast
qed

text \<open>Each turn: the command is entered, then its bytes are read.\<close>

definition run_turn :: "(string \<Rightarrow> string) \<Rightarrow> BlockParser \<Rightarrow> nat \<times> Turn \<times> string list \<Rightarrow> BlockParser" where
  "run_turn lossy p x = (case x of (now, t, reads) \<Rightarrow> foldl (feed lossy now) (push_command now (tu_cmd t) p) reads)"

definition block_row :: "Block \<Rightarrow> string \<times> BlockStatus \<times> string" where
  "block_row b = (bl_cmd b, bl_status b, bl_engine b)"

definition between_turns :: "(string \<times> BlockStatus \<times> string) list \<Rightarrow> Osc133Marker list \<Rightarrow> BlockParser \<Rightarrow> bool" where
  "between_turns rows ms p \<longleftrightarrow> ground p \<and> \<not> bp_capturing p \<and> map block_row (bp_blocks p) = rows \<and>
     (\<forall>b \<in> set (bp_blocks p). bl_status b \<noteq> BS_Running) \<and> bp_on_osc133 p = Some ms"

lemma run_turn_step:
  assumes "ascii_kept lossy" and "between_turns rows ms p" and "turn_ok t" and "concat reads = turn_bytes t"
  shows "between_turns (rows @ [(tu_cmd t, BS_Done (tu_code t), tu_output t)])
    (ms @ [OutputStart, OutputFinished (Some (tu_code t)), PromptStart, PromptReady]) (run_turn lossy p (now, t, reads))"
proof -
  define b where "b = \<lparr>bl_cmd = tu_cmd t, bl_status = BS_Running, bl_started = now, bl_ended = None, bl_engine = []\<rparr>"
  define q where "q = push_command now (tu_cmd t) p"
  have q: "bp_blocks q = bp_blocks p @ [b]" "ground q" "\<not> bp_capturing q" "bp_on_osc133 q = Some ms" "\<forall>b \<in> set (bp_blocks p). bl_status b \<noteq> BS_Running"
    using assms(2) by (simp_all add: q_def push_command_def push_block_def b_def between_turns_def ground_def)
  have start: "wrote [] (bp_cur q) (bp_extract_dirty q) q = q"
    using q(1) by (simp add: wrote_def engine_advance_def b_def)
  from feed_turn [OF assms(1,3) q(2,3,5,1)] obtain q' where
    q': "foldl (feed_byte lossy now) (q, []) (turn_bytes t) = (q', tu_output t)" "ground q'" "\<not> bp_capturing q'"
      "bp_blocks q' = bp_blocks p @ [b\<lparr>bl_status := BS_Done (tu_code t), bl_ended := Some now\<rparr>]"
      "bp_on_osc133 q' = Some (ms @ [OutputStart, OutputFinished (Some (tu_code t)), PromptStart, PromptReady])"
    using q(4) by (auto simp: b_def)
  have "at_last (bp_blocks p) q" using q(1,5) by (simp add: at_last_def)
  from feed_reads [OF this, of "bp_cur q" lossy now "[]" "bp_extract_dirty q" reads "[]"] q(3) q'(1) obtain c d where
    "foldl (feed lossy now) q reads = wrote (tu_output t) c d q'" unfolding start assms(4) by auto
  then have "run_turn lossy p (now, t, reads) = wrote (tu_output t) c d q'" by (simp add: run_turn_def q_def)
  then show ?thesis using q' q(5) assms(2) by (simp add: between_turns_def wrote_def ground_def engine_advance_def block_row_def b_def)
qed

text \<open>C15. Every command keeps its own output and nothing else. In a session in which each command is entered and then the shell's bytes arrive (echo, the
output between its markers, the exit code, the next prompt, with any colour and cursor sequences among them), cut into reads in any way, even within a
marker: there is one block per command, with that command's output byte for byte and its exit code; prompts and echo are in none; and the
listener is told the markers in order.
\<close>

theorem session_segmented:
  assumes "ascii_kept lossy" and "\<forall>(now, t, reads) \<in> set session. turn_ok t \<and> concat reads = turn_bytes t"
  shows "map block_row (bp_blocks (foldl (run_turn lossy) (set_osc133_listener (parser_new [] sm)) session)) =
      map (\<lambda>(now, t, reads). (tu_cmd t, BS_Done (tu_code t), tu_output t)) session \<and>
    bp_on_osc133 (foldl (run_turn lossy) (set_osc133_listener (parser_new [] sm)) session) =
      Some (concat (map (\<lambda>(now, t, reads). [OutputStart, OutputFinished (Some (tu_code t)), PromptStart, PromptReady]) session))"
proof -
  have "between_turns (map (\<lambda>(now, t, reads). (tu_cmd t, BS_Done (tu_code t), tu_output t)) session)
      (concat (map (\<lambda>(now, t, reads). [OutputStart, OutputFinished (Some (tu_code t)), PromptStart, PromptReady]) session))
      (foldl (run_turn lossy) (set_osc133_listener (parser_new [] sm)) session)"
    using assms(2)
  proof (induction session rule: rev_induct)
    case Nil
    show ?case by (simp add: between_turns_def set_osc133_listener_def parser_new_def ground_def)
  next
    case (snoc x session)
    obtain now t reads where x: "x = (now, t, reads)" by (cases x) auto
    show ?case using run_turn_step [OF assms(1) snoc.IH, of t reads now] snoc.prems x by simp
  qed
  then show ?thesis by (simp add: between_turns_def)
qed

definition sample_turn :: Turn where
  "sample_turn = \<lparr>tu_cmd = ''ls'', tu_echo = ''ls'', tu_output = [ESC] @ ''[34mdoc'', tu_code = 2, tu_prompt = ''$ ''\<rparr>"

theorem session_segmented_witness:
  "map block_row (bp_blocks (foldl (run_turn id) (set_osc133_listener (parser_new [] (sm_new 0)))
     [(5, sample_turn, [take 4 (turn_bytes sample_turn), drop 4 (turn_bytes sample_turn)])])) = [(''ls'', BS_Done 2, [ESC] @ ''[34mdoc'')]"
proof -
  let ?s = "[(5, sample_turn, [take 4 (turn_bytes sample_turn), drop 4 (turn_bytes sample_turn)])]"
  have "ascii_kept id" by (simp add: ascii_kept_def)
  moreover have "turn_ok sample_turn" by code_simp
  then have "\<forall>(now, t, reads) \<in> set ?s. turn_ok t \<and> concat reads = turn_bytes t" by simp
  ultimately show ?thesis using session_segmented [of id ?s "sm_new 0"] by (simp add: sample_turn_def)
qed

text \<open>Commands entered ahead: the end of the first is recorded on the one entered last, and its output on the one that runs when the read ends.\<close>

lemma typed_ahead_swapped:
  "map block_row (bp_blocks (feed id 9 (push_command 1 ''second'' (push_command 0 ''first'' (parser_new [] (sm_new 0))))
     (osc_mark ''C'' @ ''output of the first'' @ osc_mark ''D;0''))) =
   [(''first'', BS_Running, ''output of the first''), (''second'', BS_Done 0, [])]"
  by code_simp

end
