(* ===== verification/Protocol.thy ===== *)
theory Protocol
  imports Complex_Main Term_Blocks Journal_Store Job_Target Rfc_Types
begin

section \<open>The event protocol\<close>

text \<open>
  Models \<^verbatim>\<open>crates/orkia-shell/src/protocol\<close>: what agents, their hooks, the shell's markers and the detector of prompts report is turned into one kind of
  event; a router drops an event when a more trusted source has just said the same, and a fan-out hands the rest to every consumer with the RFC of the
  job. Text on the wire is the list of its UTF-8 bytes. The JSON codec is an argument; confidences are rational numbers; each call reads the clocks once, the
  monotonic one in milliseconds.
\<close>

subsection \<open>Events\<close>

datatype PromptType = YesNo | MultipleChoice | Password | ShellPrompt | Continuation | AltScreenProgram | Generic

datatype EventSource = OrkiaProtocol | Osc133 | HookSource string | StateMachineSource | Internal

definition priority :: "EventSource \<Rightarrow> nat" where
  "priority s = (case s of Internal \<Rightarrow> 5 | OrkiaProtocol \<Rightarrow> 4 | Osc133 \<Rightarrow> 3 | HookSource _ \<Rightarrow> 2 | StateMachineSource \<Rightarrow> 1)"

datatype EventPayload =
    EP_SessionStart "string option"
  | EP_SessionEnd "int option"
  | EP_PromptStart
  | EP_PromptReady
  | EP_CommandStart string
  | EP_OutputStart
  | EP_OutputFinished "int option"
  | EP_ToolUse string "string option" "string option"
  | EP_ToolResult string "string option" "int option" "string option"
  | EP_PermissionRequest "string option" string "string option"
  | EP_PermissionResolved bool string
  | EP_Attention PromptType string
  | EP_AgentMessage string
  | EP_UserMessage string
  | EP_StateReport Json
  | EP_Request string Json
  | EP_Custom string Json

record OrkiaEvent =
  ev_source :: EventSource
  ev_event :: EventPayload
  ev_confidence :: rat
  ev_timestamp :: string
  ev_job_id :: JobId
  ev_agent_name :: string
  ev_rfc_id :: "RfcId option"

definition payload_tag :: "EventPayload \<Rightarrow> string" where
  "payload_tag p =
     (case p of
        EP_SessionStart _ \<Rightarrow> ''session_start''
      | EP_SessionEnd _ \<Rightarrow> ''session_end''
      | EP_PromptStart \<Rightarrow> ''prompt_start''
      | EP_PromptReady \<Rightarrow> ''prompt_ready''
      | EP_CommandStart _ \<Rightarrow> ''command_start''
      | EP_OutputStart \<Rightarrow> ''output_start''
      | EP_OutputFinished _ \<Rightarrow> ''output_finished''
      | EP_ToolUse _ _ _ \<Rightarrow> ''tool_use''
      | EP_ToolResult _ _ _ _ \<Rightarrow> ''tool_result''
      | EP_PermissionRequest _ _ _ \<Rightarrow> ''permission_request''
      | EP_PermissionResolved _ _ \<Rightarrow> ''permission_resolved''
      | EP_Attention _ _ \<Rightarrow> ''attention''
      | EP_AgentMessage _ \<Rightarrow> ''agent_message''
      | EP_UserMessage _ \<Rightarrow> ''user_message''
      | EP_StateReport _ \<Rightarrow> ''state_report''
      | EP_Request _ _ \<Rightarrow> ''request''
      | EP_Custom _ _ \<Rightarrow> ''custom'')"

subsection \<open>Frames in the byte stream\<close>

text \<open>\<^verbatim>\<open>std::str::from_utf8\<close>: the byte sequences it accepts.\<close>

definition in_range :: "nat \<Rightarrow> nat \<Rightarrow> char \<Rightarrow> bool" where
  "in_range lo hi c \<longleftrightarrow> lo \<le> of_char c \<and> of_char c \<le> hi"

text \<open>What may follow the first byte of a sequence of two, three or four: the range of the second byte and how many more come after it.\<close>

definition utf8_lead :: "char \<Rightarrow> (nat \<times> nat \<times> nat) option" where
  "utf8_lead b =
     (if in_range 0xC2 0xDF b then Some (0x80, 0xBF, 0)
      else if in_range 0xE0 0xE0 b then Some (0xA0, 0xBF, 1)
      else if in_range 0xED 0xED b then Some (0x80, 0x9F, 1)
      else if in_range 0xE1 0xEF b then Some (0x80, 0xBF, 1)
      else if in_range 0xF0 0xF0 b then Some (0x90, 0xBF, 2)
      else if in_range 0xF1 0xF3 b then Some (0x80, 0xBF, 2)
      else if in_range 0xF4 0xF4 b then Some (0x80, 0x8F, 2)
      else None)"

function utf8_valid :: "string \<Rightarrow> bool" where
  "utf8_valid [] = True"
| "utf8_valid (b # s) =
     (if in_range 0 0x7F b then utf8_valid s
      else case utf8_lead b of
             None \<Rightarrow> False
           | Some (lo, hi, n) \<Rightarrow>
              (case s of
                 [] \<Rightarrow> False
               | c # t \<Rightarrow> in_range lo hi c \<and> length (take n t) = n \<and> list_all (in_range 0x80 0xBF) (take n t) \<and> utf8_valid (drop n t)))"
  by pat_completeness auto
termination
  by (relation "measure length") auto

definition from_utf8 :: "string \<Rightarrow> string option" where
  "from_utf8 bytes = (if utf8_valid bytes then Some bytes else None)"

record PayloadCodec =
  pc_print :: "EventPayload \<Rightarrow> (string, string) result"
  pc_parse :: "string \<Rightarrow> EventPayload option"
  pc_envelope :: "JournalEnvelope \<Rightarrow> (string, Json) result"

definition parse_orkia_apc :: "PayloadCodec \<Rightarrow> string \<Rightarrow> EventPayload option" where
  "parse_orkia_apc pc payload =
     (case from_utf8 payload of
        None \<Rightarrow> None
      | Some txt \<Rightarrow> (case strip_prefix ''Orkia;'' txt of None \<Rightarrow> None | Some rest \<Rightarrow> pc_parse pc rest))"

definition apc_frame :: "string \<Rightarrow> string" where
  "apc_frame json = [ESC, CHR ''_''] @ ''Orkia;'' @ json @ [ESC, BS]"

text \<open>The bytes that reach the agent's terminal, and the result.\<close>

definition emit_orkia_apc :: "PayloadCodec \<Rightarrow> Io \<Rightarrow> EventPayload \<Rightarrow> string \<times> (string, nat) result" where
  "emit_orkia_apc pc io payload =
     (case pc_print pc payload of
        Inl e \<Rightarrow> ([], Err (''orkia APC: serialize: '' @ e))
      | Inr json \<Rightarrow>
         (case io_err io ''apc'' Write of
            Some e \<Rightarrow> (take (io_part io ''apc'') (apc_frame json), Err e)
          | None \<Rightarrow>
             (case io_err io ''apc'' Sync of
                Some e \<Rightarrow> (apc_frame json, Err e)
              | None \<Rightarrow> (apc_frame json, Ok (length json)))))"

definition parse_osc133 :: "string list \<Rightarrow> Osc133Marker option" where
  "parse_osc133 params =
     (case params of
        [] \<Rightarrow> None
      | [] # _ \<Rightarrow> None
      | (c # _) # others \<Rightarrow>
          if c = CHR ''A'' then Some PromptStart
          else if c = CHR ''B'' then Some PromptReady
          else if c = CHR ''C'' then Some OutputStart
          else if c = CHR ''D''
          then Some (OutputFinished
                 (case others of [] \<Rightarrow> None | p # _ \<Rightarrow> (case from_utf8 p of None \<Rightarrow> None | Some s \<Rightarrow> parse_i32 s)))
          else None)"

subsection \<open>Hooks and the detector\<close>

definition or_empty :: "string option \<Rightarrow> string" where
  "or_empty s = (case s of Some t \<Rightarrow> t | None \<Rightarrow> [])"

definition hook_payload :: "PayloadCodec \<Rightarrow> JournalEnvelope \<Rightarrow> string \<Rightarrow> EventPayload" where
  "hook_payload pc env name =
     (if name \<in> {''SessionStart'', ''SessionStarted''} then EP_SessionStart (je_model env)
      else if name = ''Stop'' then EP_SessionEnd (je_exit_code env)
      else if name = ''PreToolUse'' then EP_ToolUse (or_empty (je_tool env)) (je_target env) (je_description env)
      else if name = ''PostToolUse'' then EP_ToolResult (or_empty (je_tool env)) (je_target env) (je_exit_code env) (je_description env)
      else if name = ''PermissionRequest'' then EP_PermissionRequest (je_tool env) (or_empty (je_description env)) (je_risk env)
      else if name = ''UserPromptSubmit'' then EP_CommandStart (or_empty (je_prompt env))
      else if name = ''Notification'' then EP_AgentMessage (or_empty (je_message env))
      else EP_Custom name (case pc_envelope pc env of Inr j \<Rightarrow> j | Inl _ \<Rightarrow> JStr ''<unserializable envelope>''))"

definition convert_hook_with_rfc :: "PayloadCodec \<Rightarrow> string \<Rightarrow> JournalEnvelope \<Rightarrow> RfcId option \<Rightarrow> OrkiaEvent option" where
  "convert_hook_with_rfc pc now env rfc_id =
     (if je_event_type env \<noteq> Hook then None
      else case je_event env of
             None \<Rightarrow> None
           | Some name \<Rightarrow>
               Some \<lparr>ev_source = HookSource (or_empty (je_source env)), ev_event = hook_payload pc env name, ev_confidence = 1, ev_timestamp = now,
                     ev_job_id = (case je_job_id env of Some j \<Rightarrow> j | None \<Rightarrow> 0), ev_agent_name = or_empty (je_agent env), ev_rfc_id = rfc_id\<rparr>)"

definition convert_hook :: "PayloadCodec \<Rightarrow> string \<Rightarrow> JournalEnvelope \<Rightarrow> OrkiaEvent option" where
  "convert_hook pc now env = convert_hook_with_rfc pc now env None"

record JobAttention =
  ja_job_id :: JobId
  ja_agent_name :: string
  ja_confidence :: rat
  ja_prompt_type :: PromptType
  ja_last_line :: string
  ja_has_pending_body :: bool
  ja_pending_body_preview :: "string option"

datatype DetectorEvent =
    DE_Attention JobAttention
  | DE_Injected JobId string string
  | DE_Delivered JobId string string
  | DE_Closed JobId "int option"

definition from_attention :: "string \<Rightarrow> JobAttention \<Rightarrow> string \<Rightarrow> OrkiaEvent" where
  "from_attention now att agent_name =
     \<lparr>ev_source = StateMachineSource,
      ev_event = (if ja_prompt_type att = ShellPrompt then EP_PromptReady else EP_Attention (ja_prompt_type att) (ja_last_line att)),
      ev_confidence = ja_confidence att, ev_timestamp = now, ev_job_id = ja_job_id att,
      ev_agent_name = (if agent_name = [] then ja_agent_name att else agent_name), ev_rfc_id = None\<rparr>"

definition convert_detector_event :: "string \<Rightarrow> DetectorEvent \<Rightarrow> string \<Rightarrow> OrkiaEvent option" where
  "convert_detector_event now event agent_name =
     (case event of
        DE_Attention att \<Rightarrow> Some (from_attention now att agent_name)
      | DE_Injected _ _ _ \<Rightarrow> None
      | DE_Delivered job_id name body \<Rightarrow>
          Some \<lparr>ev_source = StateMachineSource, ev_event = EP_UserMessage body, ev_confidence = 1, ev_timestamp = now, ev_job_id = job_id,
                ev_agent_name = name, ev_rfc_id = None\<rparr>
      | DE_Closed _ _ \<Rightarrow> None)"

subsection \<open>The router\<close>

definition DEDUP_WINDOW :: nat where "DEDUP_WINDOW = 2000"

text \<open>The channel is the list of what has been sent on it; a channel whose receiver is gone takes nothing more.\<close>

record EventRouter =
  er_sent :: "OrkiaEvent list"
  er_open :: bool
  er_rx :: bool
  er_recent :: "((JobId \<times> string) \<times> (nat \<times> nat)) list"

definition new_with_rx :: EventRouter where
  "new_with_rx = \<lparr>er_sent = [], er_open = True, er_rx = False, er_recent = []\<rparr>"

definition router_new :: EventRouter where
  "router_new = new_with_rx\<lparr>er_rx := True\<rparr>"

definition take_rx :: "EventRouter \<Rightarrow> EventRouter \<times> bool" where
  "take_rx r = (r\<lparr>er_rx := False\<rparr>, er_rx r)"

definition tx_send :: "OrkiaEvent \<Rightarrow> EventRouter \<Rightarrow> EventRouter" where
  "tx_send e r = (if er_open r then r\<lparr>er_sent := er_sent r @ [e]\<rparr> else r)"

definition event_key :: "OrkiaEvent \<Rightarrow> JobId \<times> string" where
  "event_key e = (ev_job_id e, payload_tag (ev_event e))"

definition send_if_not_deduped :: "nat \<Rightarrow> OrkiaEvent \<Rightarrow> EventRouter \<Rightarrow> EventRouter" where
  "send_if_not_deduped t e r =
     (let key = event_key e; prio = priority (ev_source e);
          recent = filter (\<lambda>(_, _, seen). t - seen < DEDUP_WINDOW) (er_recent r);
          r1 = r\<lparr>er_recent := recent\<rparr>
      in case map_of recent key of
           Some (seen_prio, seen) \<Rightarrow>
             if t - seen < DEDUP_WINDOW \<and> seen_prio > prio then r1
             else tx_send e (r1\<lparr>er_recent := hm_insert key (prio, t) recent\<rparr>)
         | None \<Rightarrow> tx_send e (r1\<lparr>er_recent := hm_insert key (prio, t) recent\<rparr>))"

definition router_emit :: "nat \<Rightarrow> string \<Rightarrow> EventSource \<Rightarrow> JobId \<Rightarrow> string \<Rightarrow> EventPayload \<Rightarrow> rat \<Rightarrow> EventRouter \<Rightarrow> EventRouter" where
  "router_emit t now source job_id agent_name event confidence r =
     send_if_not_deduped t
       \<lparr>ev_source = source, ev_event = event, ev_confidence = confidence, ev_timestamp = now, ev_job_id = job_id, ev_agent_name = agent_name,
        ev_rfc_id = None\<rparr> r"

definition marker_payload :: "Osc133Marker \<Rightarrow> EventPayload" where
  "marker_payload m =
     (case m of PromptStart \<Rightarrow> EP_PromptStart | PromptReady \<Rightarrow> EP_PromptReady | OutputStart \<Rightarrow> EP_OutputStart | OutputFinished c \<Rightarrow> EP_OutputFinished c)"

definition on_osc133 :: "nat \<Rightarrow> string \<Rightarrow> JobId \<Rightarrow> string \<Rightarrow> Osc133Marker \<Rightarrow> EventRouter \<Rightarrow> EventRouter" where
  "on_osc133 t now job_id agent_name marker r = router_emit t now Osc133 job_id agent_name (marker_payload marker) 1 r"

definition on_hook_with_rfc :: "PayloadCodec \<Rightarrow> nat \<Rightarrow> string \<Rightarrow> JournalEnvelope \<Rightarrow> RfcId option \<Rightarrow> EventRouter \<Rightarrow> EventRouter \<times> bool" where
  "on_hook_with_rfc pc t now envelope rfc_id r =
     (case convert_hook_with_rfc pc now envelope rfc_id of
        Some e \<Rightarrow> (send_if_not_deduped t e r, True)
      | None \<Rightarrow> (r, False))"

definition on_hook :: "PayloadCodec \<Rightarrow> nat \<Rightarrow> string \<Rightarrow> JournalEnvelope \<Rightarrow> EventRouter \<Rightarrow> EventRouter \<times> bool" where
  "on_hook pc t now envelope r = on_hook_with_rfc pc t now envelope None r"

definition on_state_machine :: "nat \<Rightarrow> string \<Rightarrow> DetectorEvent \<Rightarrow> string \<Rightarrow> EventRouter \<Rightarrow> EventRouter \<times> bool" where
  "on_state_machine t now event agent_name r =
     (case convert_detector_event now event agent_name of
        Some e \<Rightarrow> (send_if_not_deduped t e r, True)
      | None \<Rightarrow> (r, False))"

definition on_orkia_protocol :: "nat \<Rightarrow> string \<Rightarrow> JobId \<Rightarrow> string \<Rightarrow> EventPayload \<Rightarrow> EventRouter \<Rightarrow> EventRouter" where
  "on_orkia_protocol t now job_id agent_name payload r = router_emit t now OrkiaProtocol job_id agent_name payload 1 r"

definition on_custom_with_rfc :: "string \<Rightarrow> JobId \<Rightarrow> string \<Rightarrow> string \<Rightarrow> Json \<Rightarrow> RfcId option \<Rightarrow> EventRouter \<Rightarrow> EventRouter" where
  "on_custom_with_rfc now job_id agent_name name data rfc_id r =
     tx_send \<lparr>ev_source = Internal, ev_event = EP_Custom name data, ev_confidence = 1, ev_timestamp = now, ev_job_id = job_id,
              ev_agent_name = agent_name, ev_rfc_id = rfc_id\<rparr> r"

definition on_custom :: "string \<Rightarrow> JobId \<Rightarrow> string \<Rightarrow> string \<Rightarrow> Json \<Rightarrow> EventRouter \<Rightarrow> EventRouter" where
  "on_custom now job_id agent_name name data r = on_custom_with_rfc now job_id agent_name name data None r"

text \<open>What the parser of an agent's output is told to do with a marker and with a frame.\<close>

definition on_marker_callback :: "nat \<Rightarrow> string \<Rightarrow> JobId \<Rightarrow> string \<Rightarrow> Osc133Marker \<Rightarrow> EventRouter \<Rightarrow> EventRouter" where
  "on_marker_callback t now job_id agent_name marker r = on_osc133 t now job_id agent_name marker r"

definition on_apc_callback :: "PayloadCodec \<Rightarrow> nat \<Rightarrow> string \<Rightarrow> JobId \<Rightarrow> string \<Rightarrow> string \<Rightarrow> EventRouter \<Rightarrow> EventRouter" where
  "on_apc_callback pc t now job_id agent_name payload r =
     (case parse_orkia_apc pc payload of
        Some event \<Rightarrow> on_orkia_protocol t now job_id agent_name event r
      | None \<Rightarrow> r)"

subsection \<open>The fan-out\<close>

record RfcRef =
  rr_rfc_id :: RfcId
  rr_section :: "SectionPath option"

record JobScope =
  jsc_project_id :: "string option"
  jsc_rfc_ref :: "RfcRef option"

definition no_scope :: JobScope where
  "no_scope = \<lparr>jsc_project_id = None, jsc_rfc_ref = None\<rparr>"

text \<open>\<open>None\<close> stands for a poisoned lock.\<close>

definition scope_for :: "(JobId \<times> JobScope) list option \<Rightarrow> JobId \<Rightarrow> JobScope" where
  "scope_for scopes job_id =
     (case scopes of
        Some m \<Rightarrow> (case map_of m job_id of Some s \<Rightarrow> s | None \<Rightarrow> no_scope)
      | None \<Rightarrow> no_scope)"

definition stamp_rfc :: "(JobId \<times> JobScope) list option \<Rightarrow> OrkiaEvent \<Rightarrow> OrkiaEvent" where
  "stamp_rfc scopes e =
     (if ev_rfc_id e = None then e\<lparr>ev_rfc_id := map_option rr_rfc_id (jsc_rfc_ref (scope_for scopes (ev_job_id e)))\<rparr> else e)"

text \<open>A consumer is the list of what it has received, or gone.\<close>

definition fanout_step :: "OrkiaEvent list option list \<Rightarrow> (JobId \<times> JobScope) list option \<times> OrkiaEvent \<Rightarrow> OrkiaEvent list option list" where
  "fanout_step outputs se = (case se of (scopes, e) \<Rightarrow> map (map_option (\<lambda>got. got @ [stamp_rfc scopes e])) outputs)"

definition spawn_fanout :: "OrkiaEvent list option list \<Rightarrow> ((JobId \<times> JobScope) list option \<times> OrkiaEvent) list \<Rightarrow> OrkiaEvent list option list" where
  "spawn_fanout outputs input = foldl fanout_step outputs input"

text \<open>Every consumer that is there gets every event once and in order, with the RFC of its job.\<close>

lemma fanout_delivers_all:
  "spawn_fanout outputs input = map (map_option (\<lambda>got. got @ map (\<lambda>(scopes, e). stamp_rfc scopes e) input)) outputs"
proof (induction input rule: rev_induct)
  case Nil
  then show ?case by (simp add: spawn_fanout_def option.map_ident map_idI)
next
  case (snoc se input)
  then show ?case by (cases se) (simp add: spawn_fanout_def fanout_step_def option.map_comp comp_def)
qed

section \<open>What the router delivers\<close>

text \<open>The five ways into the router, and the event each of them reports.\<close>

datatype RouterCall =
    RC_Osc133 JobId string Osc133Marker
  | RC_Hook JournalEnvelope "RfcId option"
  | RC_Detector DetectorEvent string
  | RC_Protocol JobId string EventPayload
  | RC_Custom JobId string string Json "RfcId option"

definition route_call :: "PayloadCodec \<Rightarrow> string \<Rightarrow> EventRouter \<Rightarrow> nat \<times> RouterCall \<Rightarrow> EventRouter" where
  "route_call pc now r tc =
     (case tc of (t, c) \<Rightarrow>
        case c of
          RC_Osc133 j a m \<Rightarrow> on_osc133 t now j a m r
        | RC_Hook env rfc \<Rightarrow> fst (on_hook_with_rfc pc t now env rfc r)
        | RC_Detector ev a \<Rightarrow> fst (on_state_machine t now ev a r)
        | RC_Protocol j a p \<Rightarrow> on_orkia_protocol t now j a p r
        | RC_Custom j a n d rfc \<Rightarrow> on_custom_with_rfc now j a n d rfc r)"

definition reported :: "PayloadCodec \<Rightarrow> string \<Rightarrow> RouterCall \<Rightarrow> OrkiaEvent option" where
  "reported pc now c =
     (case c of
        RC_Osc133 j a m \<Rightarrow>
          Some \<lparr>ev_source = Osc133, ev_event = marker_payload m, ev_confidence = 1, ev_timestamp = now, ev_job_id = j, ev_agent_name = a, ev_rfc_id = None\<rparr>
      | RC_Hook env rfc \<Rightarrow> convert_hook_with_rfc pc now env rfc
      | RC_Detector ev a \<Rightarrow> convert_detector_event now ev a
      | RC_Protocol j a p \<Rightarrow>
          Some \<lparr>ev_source = OrkiaProtocol, ev_event = p, ev_confidence = 1, ev_timestamp = now, ev_job_id = j, ev_agent_name = a, ev_rfc_id = None\<rparr>
      | RC_Custom j a n d rfc \<Rightarrow>
          Some \<lparr>ev_source = Internal, ev_event = EP_Custom n d, ev_confidence = 1, ev_timestamp = now, ev_job_id = j, ev_agent_name = a, ev_rfc_id = rfc\<rparr>)"

text \<open>The reference: look back at what has been delivered. An event from outside the shell is blocked when the latest delivered event from outside about
  the same job and of the same kind is less than two seconds old and from a more trusted source.\<close>

definition latest :: "JobId \<times> string \<Rightarrow> (nat \<times> OrkiaEvent) list \<Rightarrow> (nat \<times> OrkiaEvent) option" where
  "latest key out = find (\<lambda>(_, e). ev_source e \<noteq> Internal \<and> event_key e = key) (rev out)"

definition blocked :: "(nat \<times> OrkiaEvent) list \<Rightarrow> nat \<Rightarrow> OrkiaEvent \<Rightarrow> bool" where
  "blocked out t e \<longleftrightarrow> ev_source e \<noteq> Internal \<and>
     (case latest (event_key e) out of Some (t', e') \<Rightarrow> t - t' < DEDUP_WINDOW \<and> priority (ev_source e) < priority (ev_source e') | None \<Rightarrow> False)"

definition deliver :: "PayloadCodec \<Rightarrow> string \<Rightarrow> (nat \<times> OrkiaEvent) list \<Rightarrow> nat \<times> RouterCall \<Rightarrow> (nat \<times> OrkiaEvent) list" where
  "deliver pc now out tc =
     (case reported pc now (snd tc) of
        Some e \<Rightarrow> if blocked out (fst tc) e then out else out @ [(fst tc, e)]
      | None \<Rightarrow> out)"

lemma latest_snoc:
  "latest key (out @ [(t, e)]) = (if ev_source e \<noteq> Internal \<and> event_key e = key then Some (t, e) else latest key out)"
  by (simp add: latest_def)

text \<open>The window holds what the look-back needs, from the instant \<open>t\<close> on.\<close>

fun slot_ok :: "nat \<Rightarrow> (nat \<times> nat) option \<Rightarrow> (nat \<times> OrkiaEvent) option \<Rightarrow> bool" where
  "slot_ok t (Some (p, seen)) l = (\<exists>e. l = Some (seen, e) \<and> p = priority (ev_source e))"
| "slot_ok t None (Some (seen, e)) = (DEDUP_WINDOW \<le> t - seen)"
| "slot_ok t None None = True"

definition window_ok :: "nat \<Rightarrow> (nat \<times> OrkiaEvent) list \<Rightarrow> EventRouter \<Rightarrow> bool" where
  "window_ok t out r \<longleftrightarrow> er_open r \<and> er_sent r = map snd out \<and> distinct (map fst (er_recent r)) \<and>
     (\<forall>key. slot_ok t (map_of (er_recent r) key) (latest key out))"

lemma slot_later: "slot_ok t0 m l \<Longrightarrow> t0 \<le> t \<Longrightarrow> slot_ok t m l"
  by (cases "(t0, m, l)" rule: slot_ok.cases) auto

lemma window_later: "window_ok t0 out r \<Longrightarrow> t0 \<le> t \<Longrightarrow> window_ok t out r"
  unfolding window_ok_def using slot_later by blast

lemma map_of_filter_value:
  "distinct (map fst m) \<Longrightarrow> map_of (filter (\<lambda>(_, v). P v) m) k = (case map_of m k of Some v \<Rightarrow> if P v then Some v else None | None \<Rightarrow> None)"
proof (induction m)
  case (Cons a m)
  have "map_of m (fst a) = None" using Cons.prems by (simp add: map_of_eq_None_iff)
  then show ?case using Cons by (cases a) auto
qed simp

lemma slot_pruned:
  assumes "slot_ok t m l" and "m' = (case m of Some (p, seen) \<Rightarrow> if t - seen < DEDUP_WINDOW then Some (p, seen) else None | None \<Rightarrow> None)"
  shows "slot_ok t m' l \<and> (\<forall>p seen. m' = Some (p, seen) \<longrightarrow> t - seen < DEDUP_WINDOW)"
  using assms by (cases "(t, m, l)" rule: slot_ok.cases) auto

lemma slot_blocks:
  assumes "slot_ok t m l" and "\<forall>p seen. m = Some (p, seen) \<longrightarrow> t - seen < DEDUP_WINDOW"
  shows "(case l of Some (t', e') \<Rightarrow> t - t' < DEDUP_WINDOW \<and> q < priority (ev_source e') | None \<Rightarrow> False) \<longleftrightarrow>
    (case m of Some (p, seen) \<Rightarrow> t - seen < DEDUP_WINDOW \<and> q < p | None \<Rightarrow> False)"
  using assms by (cases "(t, m, l)" rule: slot_ok.cases) auto

lemma send_window:
  assumes "window_ok t0 out r" and "t0 \<le> t" and "ev_source e \<noteq> Internal"
  shows "window_ok t (if blocked out t e then out else out @ [(t, e)]) (send_if_not_deduped t e r)"
proof -
  define recent where "recent = filter (\<lambda>(_, _, seen). t - seen < DEDUP_WINDOW) (er_recent r)"
  have d: "distinct (map fst (er_recent r))" and o: "er_open r" "er_sent r = map snd out"
    and w: "slot_ok t (map_of (er_recent r) key) (latest key out)" for key
    using window_later [OF assms(1,2)] unfolding window_ok_def by blast+
  have "map_of recent key = (case map_of (er_recent r) key of Some (p, seen) \<Rightarrow> if t - seen < DEDUP_WINDOW then Some (p, seen) else None | None \<Rightarrow> None)" for key
    using map_of_filter_value [OF d, of "\<lambda>(_, seen). t - seen < DEDUP_WINDOW" key] unfolding recent_def by (auto split: option.splits prod.splits)
  from slot_pruned [OF w this] have w': "slot_ok t (map_of recent key) (latest key out)"
    and young: "\<forall>p seen. map_of recent key = Some (p, seen) \<longrightarrow> t - seen < DEDUP_WINDOW" for key by blast+
  have d': "distinct (map fst recent)" using d by (simp add: recent_def distinct_map_filter)
  have b: "blocked out t e \<longleftrightarrow> (case map_of recent (event_key e) of Some (p, seen) \<Rightarrow> t - seen < DEDUP_WINDOW \<and> priority (ev_source e) < p | None \<Rightarrow> False)"
    using slot_blocks [OF w' [of "event_key e"] young, of "priority (ev_source e)"] assms(3) by (simp add: blocked_def)
  have s: "send_if_not_deduped t e r = (if blocked out t e then r\<lparr>er_recent := recent\<rparr>
      else tx_send e (r\<lparr>er_recent := hm_insert (event_key e) (priority (ev_source e), t) recent\<rparr>))"
    unfolding b send_if_not_deduped_def Let_def recent_def [symmetric] by (auto split: option.splits)
  have "slot_ok t (map_of (hm_insert (event_key e) (priority (ev_source e), t) recent) key) (latest key (out @ [(t, e)]))" for key
    using w' [of key] assms(3) by (simp add: latest_snoc)
  then show ?thesis using o d' w' unfolding s window_ok_def by (simp add: tx_send_def)
qed

lemma reported_source: "reported pc now c = Some e \<Longrightarrow> ev_source e = Internal \<longleftrightarrow> (\<exists>j a n d rfc. c = RC_Custom j a n d rfc)"
  by (auto simp: reported_def convert_hook_with_rfc_def convert_detector_event_def from_attention_def split: RouterCall.splits if_splits option.splits DetectorEvent.splits)

lemma route_call_eq:
  "route_call pc now r (t, c) =
     (case reported pc now c of
        None \<Rightarrow> r
      | Some e \<Rightarrow> if ev_source e = Internal then tx_send e r else send_if_not_deduped t e r)"
  using reported_source [of pc now c]
  by (cases c) (auto simp: route_call_def reported_def on_osc133_def router_emit_def on_hook_with_rfc_def on_state_machine_def on_orkia_protocol_def on_custom_with_rfc_def
      split: option.splits)

lemma route_window:
  assumes "window_ok t0 out r" and "t0 \<le> t"
  shows "window_ok t (deliver pc now out (t, c)) (route_call pc now r (t, c))"
proof -
  note mono = window_later [OF assms]
  show ?thesis
  proof (cases "reported pc now c")
    case None
    then show ?thesis using mono by (simp add: route_call_eq deliver_def)
  next
    case (Some e)
    show ?thesis
    proof (cases "ev_source e = Internal")
      case True
      then have "deliver pc now out (t, c) = out @ [(t, e)]" using Some by (simp add: deliver_def blocked_def)
      then show ?thesis using mono True Some by (simp add: route_call_eq window_ok_def tx_send_def latest_snoc)
    next
      case False
      then show ?thesis using send_window [OF assms False] Some by (simp add: route_call_eq deliver_def split: if_splits)
    qed
  qed
qed

lemma route_calls_window:
  "window_ok t0 out r \<Longrightarrow> sorted (t0 # map fst calls) \<Longrightarrow>
   \<exists>t. window_ok t (foldl (deliver pc now) out calls) (foldl (route_call pc now) r calls)"
proof (induction calls arbitrary: t0 out r)
  case (Cons tc calls)
  obtain t c where tc: "tc = (t, c)" by fastforce
  have "window_ok t (deliver pc now out tc) (route_call pc now r tc)" using route_window [OF Cons.prems(1)] Cons.prems(2) tc by simp
  from Cons.IH [OF this] show ?case using Cons.prems(2) tc by simp
qed auto

text \<open>C17. The router delivers what a look back at the delivered events allows, whatever is reported in whatever order: an event is
  dropped exactly when the latest event from outside that was delivered for the same job and kind is less than two seconds old and from a more
  trusted source. Forgetting old entries changes nothing, jobs and kinds do not interfere, and what the shell itself reports is never dropped.\<close>

theorem router_looks_back:
  assumes "sorted (map fst calls)"
  shows "er_sent (foldl (route_call pc now) router_new calls) = map snd (foldl (deliver pc now) [] calls)"
proof -
  have "window_ok 0 [] router_new" by (simp add: window_ok_def router_new_def new_with_rx_def latest_def)
  from route_calls_window [OF this, of calls pc now] assms show ?thesis by (auto simp: window_ok_def)
qed


section \<open>Frames in the output of an agent\<close>

definition apc_safe :: "string \<Rightarrow> bool" where
  "apc_safe s \<longleftrightarrow> list_all (\<lambda>c. c \<noteq> ESC \<and> c \<noteq> CHR 0x9C) s"

lemma feed_apc_text:
  "bp_in_apc q \<Longrightarrow> \<not> bp_in_osc q \<Longrightarrow> \<not> bp_apc_esc q \<Longrightarrow> apc_safe s \<Longrightarrow>
   foldl (feed_byte lossy now) (q, out) s = (q\<lparr>bp_apc := bp_apc q @ s\<rparr>, out)"
  by (induction s arbitrary: q) (simp_all add: feed_byte_def apc_safe_def)

lemma feed_apc_start:
  assumes "ground q" and "apc_safe s"
  shows "foldl (feed_byte lossy now) (q, out) ([ESC, CHR ''_''] @ s) = (q\<lparr>bp_in_apc := True, bp_apc := s\<rparr>, out)"
proof -
  have "feed_byte lossy now (feed_byte lossy now (q, out) ESC) (CHR ''_'') = (q\<lparr>bp_in_apc := True, bp_apc := []\<rparr>, out)"
    using assms(1) by (simp add: feed_byte_def ground_def)
  then show ?thesis using feed_apc_text [OF _ _ _ assms(2), of "q\<lparr>bp_in_apc := True, bp_apc := []\<rparr>" lossy now out] assms(1) by (simp add: ground_def)
qed

text \<open>A frame read whole leaves the parser as it was but for the listener.\<close>

definition heard :: "string \<Rightarrow> BlockParser \<Rightarrow> BlockParser" where
  "heard payload q = q\<lparr>bp_apc := [], bp_on_apc := map_option (\<lambda>ps. ps @ [payload]) (bp_on_apc q)\<rparr>"

lemma feed_apc_end:
  assumes "ground q" and "e = [ESC, BS] \<or> e = [CHR 0x9C]"
  shows "foldl (feed_byte lossy now) (q\<lparr>bp_in_apc := True, bp_apc := s\<rparr>, out) e = (heard s q, out)"
  using assms by (cases q) (auto simp: feed_byte_def ground_def finish_apc_def heard_def ESC_def)

lemma feed_bytes_grow: "prefix out (snd (foldl (feed_byte lossy now) (q, out) bs))"
proof (induction bs rule: rev_induct)
  case (snoc b bs)
  obtain q1 out1 where "foldl (feed_byte lossy now) (q, out) bs = (q1, out1)" by fastforce
  moreover have "prefix out1 (snd (feed_byte lossy now (q1, out1) b))" by (simp add: feed_byte_def Let_def)
  ultimately show ?case using snoc prefix_order.trans by auto
qed simp

lemma feed_quiet:
  "snd (foldl (feed_byte lossy now) (q, []) (concat reads)) = [] \<Longrightarrow>
   foldl (feed lossy now) q reads = fst (foldl (feed_byte lossy now) (q, []) (concat reads))"
proof (induction reads arbitrary: q)
  case (Cons r reads)
  obtain q1 out1 where q1: "foldl (feed_byte lossy now) (q, []) r = (q1, out1)" by fastforce
  then have "out1 = []" using Cons.prems feed_bytes_grow [of out1 lossy now q1 "concat reads"] by simp
  then show ?case using Cons q1 by (simp add: feed_def)
qed simp

lemma apc_frame_heard:
  assumes "ground q" and "apc_safe json"
  shows "foldl (feed_byte lossy now) (q, out) (apc_frame json) = (heard (''Orkia;'' @ json) q, out)"
proof -
  have "apc_safe (''Orkia;'' @ json)" using assms(2) by (simp add: apc_safe_def ESC_def)
  from feed_apc_start [OF assms(1) this, of lossy now out] feed_apc_end [OF assms(1), of "[ESC, BS]" lossy now "''Orkia;'' @ json" out] show ?thesis
    unfolding apc_frame_def by (simp only: foldl_append append_assoc [symmetric] simp_thms)
qed

text \<open>C33. A payload written as a frame reaches the listener of the parser on the other side as exactly that event, however the bytes are cut into
  reads, provided that the JSON text parses back, is UTF-8, has no control bytes and not the byte \<open>0x9C\<close>. Nothing of it is shown, and the parser is left
  as it was.\<close>

theorem frame_delivers_event:
  assumes "ground p" and "bp_apc p = []" and "bp_on_apc p = Some got"
    and "pc_print pc payload = Ok json" and "pc_parse pc json = Some payload" and "utf8_valid json" and "apc_safe json"
    and "emit_orkia_apc pc io payload = (wire, Ok n)" and "concat reads = wire"
  shows "n = length json \<and> foldl (feed lossy now) p reads = p\<lparr>bp_on_apc := Some (got @ [''Orkia;'' @ json])\<rparr> \<and>
    parse_orkia_apc pc (''Orkia;'' @ json) = Some payload"
proof (intro conjI)
  have s: "concat reads = apc_frame json" "n = length json"
    using assms(4,8,9) by (auto simp: emit_orkia_apc_def split: option.splits)
  then show "n = length json" by simp
  have f: "foldl (feed_byte lossy now) (p, []) (concat reads) = (heard (''Orkia;'' @ json) p, [])"
    unfolding s(1) by (rule apc_frame_heard [OF assms(1,7)])
  then show "foldl (feed lossy now) p reads = p\<lparr>bp_on_apc := Some (got @ [''Orkia;'' @ json])\<rparr>"
    using feed_quiet [of lossy now p reads] assms(2,3) by (cases p) (simp add: heard_def)
  have "utf8_valid (''Orkia;'' @ json)" using assms(6) by (simp add: in_range_def)
  then show "parse_orkia_apc pc (''Orkia;'' @ json) = Some payload"
    using assms(5) by (simp add: parse_orkia_apc_def from_utf8_def strip_prefix_def)
qed

definition demo_payloads :: PayloadCodec where
  "demo_payloads = \<lparr>pc_print = \<lambda>_. Ok ''{type:PromptReady}'', pc_parse = \<lambda>_. Some EP_PromptReady, pc_envelope = \<lambda>_. Ok JNull\<rparr>"

theorem frame_delivers_event_witness:
  "foldl (feed id 0) (set_apc_listener (parser_new [] (sm_new 0))) [[ESC], ''_Orkia;{type:Prompt'', ''Ready}'' @ [ESC], [BS]] =
     (set_apc_listener (parser_new [] (sm_new 0)))\<lparr>bp_on_apc := Some [''Orkia;{type:PromptReady}'']\<rparr>"
  using frame_delivers_event [of "set_apc_listener (parser_new [] (sm_new 0))" "[]" demo_payloads EP_PromptReady "''{type:PromptReady}''" io_fine
      "apc_frame ''{type:PromptReady}''" "18" "[[ESC], ''_Orkia;{type:Prompt'', ''Ready}'' @ [ESC], [BS]]" id 0]
  by (simp add: ground_def set_apc_listener_def parser_new_def demo_payloads_def apc_safe_def ESC_def emit_orkia_apc_def io_fine_def apc_frame_def in_range_def)

text \<open>The byte \<open>0x9C\<close> ends a frame, and in UTF-8 it is the second byte of an accented capital: a frame that holds one is cut there, and
  what follows is taken for output of the command.\<close>

lemma frame_cut_short:
  assumes "ground p" and "apc_safe a" and "plain_text (b @ [ESC, BS])"
  shows "foldl (feed_byte lossy now) (p, out) (apc_frame (a @ CHR 0x9C # b)) =
    (heard (''Orkia;'' @ a) p, if bp_capturing p then out @ b @ [ESC, BS] else out)"
proof -
  have "apc_safe (''Orkia;'' @ a)" using assms(2) by (simp add: apc_safe_def ESC_def)
  note 1 = feed_apc_start [OF assms(1) this, of lossy now out] feed_apc_end [OF assms(1), of "[CHR 0x9C]" lossy now "''Orkia;'' @ a" out]
  have "ground (heard (''Orkia;'' @ a) p)" using assms(1) by (simp add: ground_def heard_def)
  from feed_plain [OF this assms(3), of lossy now out] 1
  have "foldl (feed_byte lossy now) (p, out) (([ESC, CHR ''_''] @ ''Orkia;'' @ a) @ [CHR 0x9C] @ (b @ [ESC, BS])) =
      (heard (''Orkia;'' @ a) p, if bp_capturing p then out @ b @ [ESC, BS] else out)"
    by (simp only: foldl_append simp_thms) (simp add: heard_def)
  then show ?thesis by (simp add: apc_frame_def)
qed

lemma utf8_truncated: "\<not> utf8_valid (s @ [CHR 0xC3])"
proof (induction s rule: length_induct)
  case (1 s)
  show ?case
  proof (cases s)
    case Nil
    then show ?thesis by (simp add: in_range_def utf8_lead_def)
  next
    case (Cons b t)
    have *: False if l: "utf8_lead b = Some (lo, hi, n)" and c: "t @ [CHR 0xC3] = c # u" "in_range lo hi c" "length (take n u) = n"
        "list_all (in_range 0x80 0xBF) (take n u)" "utf8_valid (drop n u)" for lo hi n c u
    proof -
      have "hi < 0xC3" using l by (auto simp: utf8_lead_def split: if_splits)
      then have "c \<noteq> CHR 0xC3" using c(2) by (auto simp: in_range_def)
      then obtain t' where t: "t = c # t'" "u = t' @ [CHR 0xC3]" using c(1) by (cases t) auto
      have "\<not> in_range 0x80 0xBF (CHR 0xC3)" by (simp add: in_range_def)
      then have "n \<le> length t'" using c(3,4) t(2) by (cases "n = Suc (length t')") (auto simp: not_le Suc_le_eq)
      then have "drop n u = drop n t' @ [CHR 0xC3]" "length (drop n t') < length s" using t Cons by simp_all
      then show False using 1 c(5) by metis
    qed
    have "\<not> utf8_valid (t @ [CHR 0xC3])" using 1 Cons by simp
    then show ?thesis using * unfolding Cons by (cases "t @ [CHR 0xC3]") (auto split: option.splits)
  qed
qed

lemma accented_frame_lost: "parse_orkia_apc pc (''Orkia;'' @ a @ [CHR 0xC3]) = None"
  using utf8_truncated [of "''Orkia;'' @ a"] by (simp add: parse_orkia_apc_def from_utf8_def)

text \<open>A source the agent itself writes to outranks its hooks: after any tool report in its output, the hook's report of another tool is dropped for two seconds.\<close>

lemma printed_tool_hides_hook:
  assumes "je_event_type env = Hook" and "je_event env = Some ''PreToolUse''" and "je_job_id env = Some j" and "t \<le> u" and "u < t + DEDUP_WINDOW"
  shows "er_sent (foldl (route_call pc now) router_new [(t, RC_Protocol j a (EP_ToolUse tool tgt s)), (u, RC_Hook env rfc)]) =
    [\<lparr>ev_source = OrkiaProtocol, ev_event = EP_ToolUse tool tgt s, ev_confidence = 1, ev_timestamp = now, ev_job_id = j, ev_agent_name = a, ev_rfc_id = None\<rparr>]"
  using assms
  by (simp add: router_new_def new_with_rx_def route_call_def on_orkia_protocol_def router_emit_def send_if_not_deduped_def Let_def tx_send_def hm_insert_def
      event_key_def payload_tag_def on_hook_with_rfc_def convert_hook_with_rfc_def hook_payload_def priority_def)

theorem router_looks_back_witness:
  "er_sent (foldl (route_call demo_payloads []) router_new
     [(0, RC_Osc133 1 ''faye'' PromptReady), (50, RC_Detector (DE_Attention \<lparr>ja_job_id = 1, ja_agent_name = ''faye'', ja_confidence = 7 / 10,
        ja_prompt_type = ShellPrompt, ja_last_line = [], ja_has_pending_body = False, ja_pending_body_preview = None\<rparr>) ''faye'')]) =
   [\<lparr>ev_source = Osc133, ev_event = EP_PromptReady, ev_confidence = 1, ev_timestamp = [], ev_job_id = 1, ev_agent_name = ''faye'', ev_rfc_id = None\<rparr>]"
  using router_looks_back [of "[(0, RC_Osc133 1 ''faye'' PromptReady), (50, RC_Detector (DE_Attention \<lparr>ja_job_id = 1, ja_agent_name = ''faye'', ja_confidence = 7 / 10,
        ja_prompt_type = ShellPrompt, ja_last_line = [], ja_has_pending_body = False, ja_pending_body_preview = None\<rparr>) ''faye'')]" demo_payloads "[]"]
  by (simp add: deliver_def reported_def blocked_def latest_def marker_payload_def convert_detector_event_def from_attention_def event_key_def priority_def
      DEDUP_WINDOW_def)

end
