(* ===== verification/Seal_Consumer.thy ===== *)
theory Seal_Consumer
  imports Protocol Seal_Chain
begin

section \<open>From events to chains\<close>

text \<open>
  Models \<^verbatim>\<open>crates/orkia-shell/src/seal/consumer/mod.rs\<close> with \<^verbatim>\<open>pending.rs\<close> and \<^verbatim>\<open>emit.rs\<close> beside it: one task owns the manager of the chains and turns every
  event of the unified stream into the records it stands for. Projects of jobs are a map the shell fills when it starts a job. What the host answers
  during an event, its clock included, is a \<open>ConsumerEnv\<close>; text is its UTF-8 bytes, as in the protocol.
\<close>

subsection \<open>Scheduled runs\<close>

record ScheduledContext =
  is_scheduled :: bool
  approval_required :: bool

definition sched_from_env :: "(string \<Rightarrow> string option) \<Rightarrow> ScheduledContext" where
  "sched_from_env env =
     \<lparr>is_scheduled = (env ''ORKIA_SCHEDULED'' = Some ''1''),
      approval_required = (env ''ORKIA_SCHEDULED_APPROVAL'' \<in> {Some ''required'', Some ''require''})\<rparr>"

record ConsumerEnv =
  ce_io :: Io
  ce_now :: string
  ce_cron :: "string option"
  ce_pretty :: "Json \<Rightarrow> (string, string) result"
  ce_line :: "Json \<Rightarrow> (string, string) result"

definition json_opt_int :: "int option \<Rightarrow> Json" where
  "json_opt_int i = (case i of Some n \<Rightarrow> JInt n | None \<Rightarrow> JNull)"

definition pending_path :: "path \<Rightarrow> JobId \<Rightarrow> path" where
  "pending_path data_dir job_id = data_dir @ [''pending'', show_nat (unat job_id) @ ''.json'']"

definition park_scheduled_result :: "ConsumerEnv \<Rightarrow> path \<Rightarrow> JobId \<Rightarrow> string \<Rightarrow> int option \<Rightarrow> fs \<Rightarrow> fs \<times> (string, path) result" where
  "park_scheduled_result env data_dir job_id agent exit_code fs =
     (case io_err (ce_io env) ''pending'' MkDir of
        Some e \<Rightarrow> (fs, Err e)
      | None \<Rightarrow>
         (case ce_pretty env
                 (JObj [(''agent'', JStr agent), (''cron_expression'', json_opt_str (ce_cron env)), (''exit_code'', json_opt_int exit_code),
                        (''job_id'', JInt (uint job_id)), (''origin'', JStr ''scheduled''), (''parked_at'', JStr (ce_now env))]) of
            Inl e \<Rightarrow> (fs, Err e)
          | Inr body \<Rightarrow>
             (case fs_fill (ce_io env) ''pending'' ''pending'' (pending_path data_dir job_id) body fs of
                (fs1, Inl (_, e)) \<Rightarrow> (fs1, Err e)
              | (fs1, Inr _) \<Rightarrow> (fs1, Ok (pending_path data_dir job_id)))))"

definition append_journal_event :: "ConsumerEnv \<Rightarrow> path \<Rightarrow> string \<Rightarrow> string \<Rightarrow> JobId \<Rightarrow> string \<Rightarrow> Json \<Rightarrow> fs \<Rightarrow> fs" where
  "append_journal_event env data_dir event_type event job_id agent extra fs =
     (let p = data_dir @ [''journal.jsonl'']; old = (case fs p of Some s \<Rightarrow> s | None \<Rightarrow> [])
      in if io_err (ce_io env) ''pending journal'' MkDir \<noteq> None then fs
         else case ce_line env
                     (JObj [(''agent'', JStr agent), (''event'', JStr event), (''extra'', extra), (''job_id'', JInt (uint job_id)),
                            (''origin'', JStr ''scheduled''), (''timestamp'', JStr (ce_now env)), (''type'', JStr event_type)]) of
                Inl _ \<Rightarrow> fs
              | Inr line \<Rightarrow>
                  if io_err (ce_io env) ''pending journal'' Open \<noteq> None then fs
                  else if io_err (ce_io env) ''pending journal'' Write \<noteq> None
                  then fs(p \<mapsto> old @ take (io_part (ce_io env) ''pending journal'') (line @ [NL]))
                  else fs(p \<mapsto> old @ line @ [NL]))"

subsection \<open>Routing one event\<close>

text \<open>The state of the task: the manager, the projects of the jobs, and the file system.\<close>

record Consumer =
  cn_manager :: SealManager
  cn_projects :: "(JobId \<times> string) list"
  cn_fs :: fs

definition on_chains :: "(SealManager \<Rightarrow> fs \<Rightarrow> fs \<times> SealManager \<times> 'a) \<Rightarrow> Consumer \<Rightarrow> Consumer \<times> 'a" where
  "on_chains f s = (case f (cn_manager s) (cn_fs s) of (fs, m, a) \<Rightarrow> (s\<lparr>cn_manager := m, cn_fs := fs\<rparr>, a))"

definition seal_job_now :: "SealCodec \<Rightarrow> ConsumerEnv \<Rightarrow> JobId \<Rightarrow> string \<Rightarrow> Json \<Rightarrow> RfcId option \<Rightarrow> Consumer \<Rightarrow> Consumer \<times> (SealError, unit) result" where
  "seal_job_now cx env job_id event_type detail rfc_id =
     on_chains (seal_job_with_rfc cx (ce_io env) (ce_now env) job_id event_type detail rfc_id)"

definition seal_project_now :: "SealCodec \<Rightarrow> ConsumerEnv \<Rightarrow> string \<Rightarrow> string \<Rightarrow> Json \<Rightarrow> RfcId option \<Rightarrow> Consumer \<Rightarrow> Consumer \<times> (SealError, unit) result" where
  "seal_project_now cx env project event_type detail rfc_id =
     on_chains (seal_project_with_rfc cx (ce_io env) (ce_now env) project event_type detail rfc_id)"

definition seal_workspace_now :: "SealCodec \<Rightarrow> ConsumerEnv \<Rightarrow> string \<Rightarrow> Json \<Rightarrow> RfcId option \<Rightarrow> Consumer \<Rightarrow> Consumer \<times> (SealError, unit) result" where
  "seal_workspace_now cx env event_type detail rfc_id =
     on_chains (seal_workspace_with_rfc cx (ce_io env) (ce_now env) event_type detail rfc_id)"

definition seal_project_for :: "SealCodec \<Rightarrow> ConsumerEnv \<Rightarrow> JobId \<Rightarrow> string \<Rightarrow> Json \<Rightarrow> RfcId option \<Rightarrow> Consumer \<Rightarrow> Consumer \<times> (SealError, unit) result" where
  "seal_project_for cx env job_id event_name data rfc_id s =
     (case (case Option.bind (json_get ''project'' data) json_as_str of Some p \<Rightarrow> Some p | None \<Rightarrow> map_of (cn_projects s) job_id) of
        Some project \<Rightarrow> seal_project_now cx env project event_name data rfc_id s
      | None \<Rightarrow> (s, Ok ()))"

text \<open>Closing a job: the terminal record, then the reference to its tip in the project's chain; the clean-up runs whatever failed.\<close>

definition close_steps :: "SealCodec \<Rightarrow> ConsumerEnv \<Rightarrow> JobId \<Rightarrow> string \<Rightarrow> int option \<Rightarrow> RfcId option \<Rightarrow> Consumer \<Rightarrow> Consumer \<times> (SealError, unit) result" where
  "close_steps cx env job_id agent_name exit_code rfc_id s =
     (let code = (case exit_code of Some c \<Rightarrow> c | None \<Rightarrow> 0); terminal = (if code = 0 then ''agent.complete'' else ''agent.failed'')
      in case seal_job_now cx env job_id terminal (JObj [(''exit_code'', json_opt_int exit_code)]) rfc_id s of
           (s1, Inl e) \<Rightarrow> (s1, Inl e)
         | (s1, Inr _) \<Rightarrow>
            (case close_job_chain job_id (cn_manager s1) of
               (m, None) \<Rightarrow> (s1\<lparr>cn_manager := m\<rparr>, Ok ())
             | (m, Some tip) \<Rightarrow>
                (case map_of (cn_projects s1) job_id of
                   None \<Rightarrow> (s1\<lparr>cn_manager := m\<rparr>, Ok ())
                 | Some project \<Rightarrow>
                     seal_project_now cx env project ''job.reference''
                       (JObj [(''agent'', JStr agent_name), (''job_chain_hash'', JStr tip), (''job_id'', JInt (uint job_id))]) rfc_id
                       (s1\<lparr>cn_manager := m\<rparr>))))"

definition scheduled_notice :: "ConsumerEnv \<Rightarrow> ScheduledContext \<Rightarrow> JobId \<Rightarrow> string \<Rightarrow> int option \<Rightarrow> Consumer \<Rightarrow> Consumer" where
  "scheduled_notice env sched job_id agent_name exit_code s =
     (let data_dir = mg_data_dir (cn_manager s)
      in if \<not> is_scheduled sched then s
         else if (case exit_code of Some c \<Rightarrow> c | None \<Rightarrow> 0) \<noteq> 0
         then s\<lparr>cn_fs := append_journal_event env data_dir ''lifecycle'' ''scheduled_failure'' job_id agent_name
                             (JObj [(''exit_code'', json_opt_int exit_code)]) (cn_fs s)\<rparr>
         else if approval_required sched
         then (case park_scheduled_result env data_dir job_id agent_name exit_code (cn_fs s) of
                 (fs1, Inr p) \<Rightarrow>
                   s\<lparr>cn_fs := append_journal_event env data_dir ''approval'' ''approval_pending'' job_id agent_name
                                (JObj [(''pending_path'', JStr (path_string p))]) fs1\<rparr>
               | (fs1, Inl _) \<Rightarrow> s\<lparr>cn_fs := fs1\<rparr>)
         else s)"

definition close_job_and_link ::
  "SealCodec \<Rightarrow> ConsumerEnv \<Rightarrow> ScheduledContext \<Rightarrow> JobId \<Rightarrow> string \<Rightarrow> int option \<Rightarrow> RfcId option \<Rightarrow> Consumer \<Rightarrow> Consumer \<times> (SealError, unit) result" where
  "close_job_and_link cx env sched job_id agent_name exit_code rfc_id s =
     (case close_steps cx env job_id agent_name exit_code rfc_id s of
        (s1, r) \<Rightarrow>
          (let s2 = s1\<lparr>cn_manager := evict_job_chain job_id (cn_manager s1), cn_projects := hm_remove job_id (cn_projects s1)\<rparr>
           in case r of
                Inl e \<Rightarrow> (s2, Inl e)
              | Inr _ \<Rightarrow> (scheduled_notice env sched job_id agent_name exit_code s2, Ok ())))"

definition short_sha :: "SealCodec \<Rightarrow> string \<Rightarrow> string" where
  "short_sha cx bytes = take 16 (sx_sha cx bytes)"

definition route_custom :: "SealCodec \<Rightarrow> ConsumerEnv \<Rightarrow> JobId \<Rightarrow> string \<Rightarrow> string \<Rightarrow> Json \<Rightarrow> RfcId option \<Rightarrow> Consumer \<Rightarrow> Consumer \<times> (SealError, unit) result" where
  "route_custom cx env job_id agent_name name data rfc_id s =
     (if name = ''agent.spawn''
      then (case create_job_chain cx (ce_io env) job_id agent_name (cn_manager s) (cn_fs s) of
              (fs, m) \<Rightarrow> seal_job_now cx env job_id ''agent.spawn'' data rfc_id (s\<lparr>cn_manager := m, cn_fs := fs\<rparr>))
      else if prefix ''rfc.'' name then seal_project_for cx env job_id name data rfc_id s
      else if prefix ''issue.'' name then seal_project_for cx env job_id name data rfc_id s
      else if prefix ''project.'' name then seal_project_for cx env job_id name data rfc_id s
      else if prefix ''workspace.'' name then seal_workspace_now cx env name data rfc_id s
      else if name = ''event.redacted'' then seal_workspace_now cx env name data rfc_id s
      else if prefix ''reasoning.'' name then seal_workspace_now cx env name data rfc_id s
      else seal_job_now cx env job_id name data rfc_id s)"

definition route :: "SealCodec \<Rightarrow> ScheduledContext \<Rightarrow> ConsumerEnv \<Rightarrow> OrkiaEvent \<Rightarrow> Consumer \<Rightarrow> Consumer \<times> (SealError, unit) result" where
  "route cx sched env event s =
     (let job_id = ev_job_id event; agent_name = ev_agent_name event; rfc_id = ev_rfc_id event
      in case ev_event event of
           EP_Custom name data \<Rightarrow> route_custom cx env job_id agent_name name data rfc_id s
         | EP_SessionStart model \<Rightarrow>
             seal_job_now cx env job_id ''hook.SessionStart'' (JObj [(''model'', json_opt_str model)]) rfc_id s
         | EP_SessionEnd exit_code \<Rightarrow> close_job_and_link cx env sched job_id agent_name exit_code rfc_id s
         | EP_ToolUse tool target input_summary \<Rightarrow>
             seal_job_now cx env job_id ''hook.PreToolUse''
               (JObj [(''input_summary'', json_opt_str input_summary), (''target'', json_opt_str target), (''tool'', JStr tool)]) rfc_id s
         | EP_ToolResult tool target exit_code output_summary \<Rightarrow>
             seal_job_now cx env job_id ''hook.PostToolUse''
               (JObj [(''exit_code'', json_opt_int exit_code), (''output_summary'', json_opt_str output_summary), (''target'', json_opt_str target),
                      (''tool'', JStr tool)]) rfc_id s
         | EP_PermissionRequest tool description risk \<Rightarrow>
             seal_job_now cx env job_id ''hook.PermissionRequest''
               (JObj [(''description'', JStr description), (''risk'', json_opt_str risk), (''tool'', json_opt_str tool)]) rfc_id s
         | EP_PermissionResolved approved resolved_by \<Rightarrow>
             seal_job_now cx env job_id ''approval'' (JObj [(''approved'', JBool approved), (''resolved_by'', JStr resolved_by)]) rfc_id s
         | EP_UserMessage txt \<Rightarrow>
             if ev_source event = StateMachineSource
             then seal_job_now cx env job_id ''prompt_injected''
                    (JObj [(''len'', JInt (int (length txt))), (''message_hash'', JStr (short_sha cx txt))]) rfc_id s
             else (s, Ok ())
         | EP_PromptStart \<Rightarrow> (s, Ok ())
         | EP_PromptReady \<Rightarrow> (s, Ok ())
         | EP_CommandStart _ \<Rightarrow> (s, Ok ())
         | EP_OutputStart \<Rightarrow> (s, Ok ())
         | EP_OutputFinished _ \<Rightarrow> (s, Ok ())
         | EP_Attention _ _ \<Rightarrow> (s, Ok ())
         | EP_AgentMessage _ \<Rightarrow> (s, Ok ())
         | EP_StateReport _ \<Rightarrow> (s, Ok ())
         | EP_Request _ _ \<Rightarrow> (s, Ok ()))"

text \<open>The loop of the task: an error is logged and the next event taken.\<close>

definition consume :: "SealCodec \<Rightarrow> ScheduledContext \<Rightarrow> Consumer \<Rightarrow> (ConsumerEnv \<times> OrkiaEvent) list \<Rightarrow> Consumer" where
  "consume cx sched s events = foldl (\<lambda>s (env, e). fst (route cx sched env e s)) s events"

subsection \<open>Scope changes\<close>

record ScopeChangeEvent =
  sce_kind :: string
  sce_project :: "string option"
  sce_artifact_id :: string
  sce_previous :: "Rfc_Types.Scope option"
  sce_current :: Rfc_Types.Scope
  sce_actor :: string

definition scope_detail :: "ScopeChangeEvent \<Rightarrow> (string \<times> Json) list" where
  "scope_detail e =
     [(''actor'', JStr (sce_actor e)), (''artifact_id'', JStr (sce_artifact_id e)), (''current'', JStr (scope_str (sce_current e))),
      (''kind'', JStr (sce_kind e)), (''previous'', json_opt_str (map_option scope_str (sce_previous e)))]"

definition scope_envelope :: "string \<Rightarrow> ScopeChangeEvent \<Rightarrow> JournalEnvelope" where
  "scope_envelope now e =
     (envelope_now now ScopeChange)
       \<lparr>je_source := Some ''scope'', je_event := Some (sce_kind e), je_target := sce_project e, je_extra := map_of (scope_detail e)\<rparr>"

definition emit_scope_event ::
  "SealCodec \<Rightarrow> JournalCodec \<Rightarrow> ConsumerEnv \<Rightarrow> ScopeChangeEvent \<Rightarrow> SealManager \<Rightarrow> JournalStore \<Rightarrow> fs \<Rightarrow>
   fs \<times> SealManager \<times> JournalStore \<times> (SealError, unit) result" where
  "emit_scope_event cx jc env event m journal fs =
     (case (case sce_project event of
              Some project \<Rightarrow> seal_project_with_rfc cx (ce_io env) (ce_now env) project (sce_kind event) (JObj (scope_detail event)) None m fs
            | None \<Rightarrow> seal_workspace_with_rfc cx (ce_io env) (ce_now env) (sce_kind event) (JObj (scope_detail event)) None m fs) of
        (fs1, m1, Inl e) \<Rightarrow> (fs1, m1, journal, Inl e)
      | (fs1, m1, Inr _) \<Rightarrow> (fs1, m1, journal_append jc (scope_envelope (ce_now env) event) journal, Ok ()))"

end
