(* ===== verification/Seal_Trail.thy ===== *)
theory Seal_Trail
  imports Seal_Consumer
begin

section \<open>The audit trail of a session\<close>

text \<open>
  What the consumer of the event stream guarantees: the chain of a job holds exactly what the events of the job stand for, whatever happens to
  other jobs, and what is not sealed.
\<close>

subsection \<open>What touches the chain of a job\<close>

lemma job_path_inj: "job_chain_path d a k = job_chain_path d a' k' \<Longrightarrow> k = k'"
proof -
  assume "job_chain_path d a k = job_chain_path d a' k'"
  then have "show_nat (unat k) = show_nat (unat k')" by (simp add: job_chain_path_def)
  then have "unat k = unat k'" by (metis read_show_nat)
  then show "k = k'" by (simp add: word_unat_eq_iff)
qed

lemma job_path_under: "\<exists>tl. job_chain_path d a j = d @ ''agents'' # tl"
proof -
  have "path_join d ''agents'' = d @ [''agents'']" by (simp add: path_join_plain)
  then show ?thesis by (auto simp: job_chain_path_def path_join_def)
qed

lemma job_path_else:
  "job_chain_path d a j \<noteq> d @ [''journal.jsonl'']" "job_chain_path d a j \<noteq> d @ ''pending'' # q" "job_chain_path d a j \<noteq> d @ ''workspace'' # q"
  using job_path_under [of d a j] by auto

text \<open>Every open chain is at the path of its key.\<close>

definition placed :: "SealManager \<Rightarrow> bool" where
  "placed m \<longleftrightarrow>
     (\<forall>k c. map_of (mg_job_chains m) k = Some c \<longrightarrow> (\<exists>a. sc_file_path c = job_chain_path (mg_data_dir m) a k)) \<and>
     (\<forall>n c. map_of (mg_project_chains m) n = Some c \<longrightarrow> sc_file_path c = project_chain_path (mg_data_dir m) n) \<and>
     (\<forall>c. mg_workspace_chain m = Some c \<longrightarrow> sc_file_path c = mg_data_dir m @ [''workspace'', ''seal.jsonl''])"

lemma placed_insert:
  "placed m \<Longrightarrow> sc_file_path c = job_chain_path (mg_data_dir m) a k \<Longrightarrow> placed (m\<lparr>mg_job_chains := hm_insert k c (mg_job_chains m)\<rparr>)"
  unfolding placed_def by (simp add: fun_upd_def) blast

text \<open>A step that leaves the chain of job \<open>j\<close>, at \<open>p\<close>, alone.\<close>

definition apart :: "JobId \<Rightarrow> path \<Rightarrow> SealManager \<times> fs \<Rightarrow> SealManager \<times> fs \<Rightarrow> bool" where
  "apart j p s s' \<longleftrightarrow>
     map_of (mg_job_chains (fst s')) j = map_of (mg_job_chains (fst s)) j \<and> (snd s p \<noteq> None \<longrightarrow> snd s' p = snd s p) \<and>
     placed (fst s') \<and> mg_data_dir (fst s') = mg_data_dir (fst s) \<and> mg_origin_tag (fst s') = mg_origin_tag (fst s)"

lemma apart_trans: "apart j p s s1 \<Longrightarrow> apart j p s1 s2 \<Longrightarrow> apart j p s s2"
  by (auto simp: apart_def)

lemma apart_refl: "placed (fst s) \<Longrightarrow> apart j p s s"
  by (simp add: apart_def)

lemma append_path: "chain_append cx io now ev d rfc c fs = (fs', c', r) \<Longrightarrow> sc_file_path c' = sc_file_path c"
  using chain_append_cases [of cx io now ev d rfc c fs fs' c' r] by auto

lemma load_path: "sc_file_path (load_or_quarantine cx io fs p) = p"
  by (auto simp: load_or_quarantine_def chain_load_def chain_of_def split: option.splits)

lemma seal_job_apart:
  assumes "placed m" and "k \<noteq> j" and "p = job_chain_path (mg_data_dir m) a j"
    and "seal_job_with_rfc cx io now k ev d rfc m fs = (fs', m', r)"
  shows "apart j p (m, fs) (m', fs')"
proof (cases "map_of (mg_job_chains m) k")
  case None
  then show ?thesis using assms by (simp add: seal_job_with_rfc_def apart_def)
next
  case (Some c)
  obtain fs1 c1 r1 where ap: "chain_append cx io now ev (tag_origin m d) rfc c fs = (fs1, c1, r1)" by (rule prod_cases3)
  obtain b where b: "sc_file_path c = job_chain_path (mg_data_dir m) b k" using assms(1) Some unfolding placed_def by blast
  then have "sc_file_path c \<noteq> p" using assms(2,3) job_path_inj by metis
  then have "fs1 p = fs p" using chain_append_frame [OF ap, of p] by metis
  then show ?thesis using assms Some ap b append_path [OF ap] placed_insert [OF assms(1), of c1 b k]
    by (auto simp: seal_job_with_rfc_def apart_def)
qed

lemma seal_project_apart:
  assumes "placed m" and "p = job_chain_path (mg_data_dir m) a j"
    and "seal_project_with_rfc cx io now n ev d rfc m fs = (fs', m', r)"
  shows "apart j p (m, fs) (m', fs')"
proof -
  define c where "c = (case map_of (mg_project_chains m) n of Some c \<Rightarrow> c | None \<Rightarrow> load_or_quarantine cx io fs (project_chain_path (mg_data_dir m) n))"
  obtain fs1 c1 r1 where ap: "chain_append cx io now ev (tag_origin m d) rfc c fs = (fs1, c1, r1)" by (rule prod_cases3)
  have b: "sc_file_path c = project_chain_path (mg_data_dir m) n" using assms(1) by (auto simp: placed_def c_def load_path split: option.splits)
  then have "fs1 p = fs p" using chain_append_frame [OF ap, of p] assms(2) job_path_not_project by metis
  moreover have "fs' = fs1" "m' = m\<lparr>mg_project_chains := hm_insert n c1 (mg_project_chains m)\<rparr>"
    using assms(3) ap unfolding seal_project_with_rfc_def c_def [symmetric] Let_def by simp_all
  ultimately show ?thesis using assms(1) b append_path [OF ap] by (auto simp: apart_def placed_def)
qed

lemma seal_workspace_apart:
  assumes "placed m" and "p = job_chain_path (mg_data_dir m) a j"
    and "seal_workspace_with_rfc cx io now ev d rfc m fs = (fs', m', r)"
  shows "apart j p (m, fs) (m', fs')"
proof -
  define c where "c = (case mg_workspace_chain m of Some c \<Rightarrow> c | None \<Rightarrow> load_or_quarantine cx io fs (mg_data_dir m @ [''workspace'', ''seal.jsonl'']))"
  obtain fs1 c1 r1 where ap: "chain_append cx io now ev (tag_origin m d) rfc c fs = (fs1, c1, r1)" by (rule prod_cases3)
  have b: "sc_file_path c = mg_data_dir m @ [''workspace'', ''seal.jsonl'']" using assms(1) by (auto simp: placed_def c_def load_path split: option.splits)
  then have "fs1 p = fs p" using chain_append_frame [OF ap, of p] assms(2) job_path_else(3) by metis
  moreover have "fs' = fs1" "m' = m\<lparr>mg_workspace_chain := Some c1\<rparr>"
    using assms(3) ap unfolding seal_workspace_with_rfc_def c_def [symmetric] Let_def by simp_all
  ultimately show ?thesis using assms(1) b append_path [OF ap] by (auto simp: apart_def placed_def)
qed

lemma archive_apart: "p \<noteq> q \<Longrightarrow> fs p \<noteq> None \<Longrightarrow> archive_stale_chain io q fs p = fs p"
  using archive_search_free [of fs q 1] by (auto simp: archive_stale_chain_def split: option.splits)

lemma create_apart:
  assumes "placed m" and "k \<noteq> j" and "p = job_chain_path (mg_data_dir m) a j"
    and "create_job_chain cx io k b m fs = (fs', m')"
  shows "apart j p (m, fs) (m', fs')"
proof -
  let ?q = "job_chain_path (mg_data_dir m) b k"
  have "?q \<noteq> p" using assms(2,3) job_path_inj by metis
  then have "fs p \<noteq> None \<longrightarrow> fs' p = fs p" using assms(4) archive_apart [of p ?q fs io] by (auto simp: create_job_chain_def Let_def)
  then show ?thesis using assms placed_insert [OF assms(1), of "load_or_quarantine cx io fs' ?q" b k]
    by (auto simp: load_path create_job_chain_def Let_def apart_def entry_or_insert_def split: if_splits)
qed

lemma close_apart: "placed m \<Longrightarrow> k \<noteq> j \<Longrightarrow> apart j p (m, fs) (fst (close_job_chain k m), fs)"
  by (auto simp: close_job_chain_def apart_def placed_def chain_close_def split: option.splits)

lemma evict_apart: "placed m \<Longrightarrow> k \<noteq> j \<Longrightarrow> apart j p (m, fs) (evict_job_chain k m, fs)"
  by (auto simp: evict_job_chain_def apart_def placed_def)

definition chains_of :: "Consumer \<Rightarrow> SealManager \<times> fs" where
  "chains_of s = (cn_manager s, cn_fs s)"

lemma notice_apart:
  assumes "placed (cn_manager s)" and "p = job_chain_path (mg_data_dir (cn_manager s)) a j"
  shows "apart j p (chains_of s) (chains_of (scheduled_notice env sched k b code s))"
proof -
  let ?d = "mg_data_dir (cn_manager s)"
  have n: "p \<noteq> ?d @ [''journal.jsonl'']" "p \<noteq> pending_path ?d k" using assms(2) job_path_else by (simp_all add: pending_path_def)
  then have 1: "append_journal_event env ?d t e k b x fs p = fs p" for t e x fs by (simp add: append_journal_event_def Let_def split: sum.splits)
  have 2: "fst (park_scheduled_result env ?d k b code fs) p = fs p" for fs
    using fs_fill_frame [OF n(2)] by (auto simp: park_scheduled_result_def split: option.splits sum.splits prod.splits) (metis fst_conv)+
  obtain fs1 r where 3: "park_scheduled_result env ?d k b code (cn_fs s) = (fs1, r)" by fastforce
  then have "fs1 p = cn_fs s p" using 2 [of "cn_fs s"] by simp
  then show ?thesis using assms(1) 1 3 by (auto simp: scheduled_notice_def apart_def chains_of_def Let_def split: sum.splits)
qed

subsection \<open>The audit trail of a job\<close>

text \<open>The record an event leaves on the chain of its job, if any.\<close>

definition custom_elsewhere :: "string \<Rightarrow> bool" where
  "custom_elsewhere name \<longleftrightarrow> name = ''event.redacted'' \<or> list_ex (\<lambda>p. prefix p name) [''rfc.'', ''issue.'', ''project.'', ''workspace.'', ''reasoning.'']"

definition terminal_name :: "int option \<Rightarrow> string" where
  "terminal_name code = (if code = None \<or> code = Some 0 then ''agent.complete'' else ''agent.failed'')"

lemma terminal_name_eq:
  "(if (case code of Some c \<Rightarrow> c | None \<Rightarrow> 0) = (0 :: int) then ''agent.complete'' else ''agent.failed'') = terminal_name code"
  "is_terminal_event (terminal_name code)"
  by (auto simp: terminal_name_def is_terminal_event_def split: option.splits)

definition job_entry :: "SealCodec \<Rightarrow> OrkiaEvent \<Rightarrow> (string \<times> Json) option" where
  "job_entry cx e =
     (case ev_event e of
        EP_Custom name data \<Rightarrow> if custom_elsewhere name then None else Some (name, data)
      | EP_SessionStart model \<Rightarrow> Some (''hook.SessionStart'', JObj [(''model'', json_opt_str model)])
      | EP_SessionEnd c \<Rightarrow> Some (terminal_name c, JObj [(''exit_code'', json_opt_int c)])
      | EP_ToolUse tool tgt s \<Rightarrow>
          Some (''hook.PreToolUse'', JObj [(''input_summary'', json_opt_str s), (''target'', json_opt_str tgt), (''tool'', JStr tool)])
      | EP_ToolResult tool tgt c s \<Rightarrow>
          Some (''hook.PostToolUse'',
                JObj [(''exit_code'', json_opt_int c), (''output_summary'', json_opt_str s), (''target'', json_opt_str tgt), (''tool'', JStr tool)])
      | EP_PermissionRequest tool d risk \<Rightarrow>
          Some (''hook.PermissionRequest'', JObj [(''description'', JStr d), (''risk'', json_opt_str risk), (''tool'', json_opt_str tool)])
      | EP_PermissionResolved ok by_whom \<Rightarrow> Some (''approval'', JObj [(''approved'', JBool ok), (''resolved_by'', JStr by_whom)])
      | EP_UserMessage txt \<Rightarrow>
          if ev_source e = StateMachineSource
          then Some (''prompt_injected'', JObj [(''len'', JInt (int (length txt))), (''message_hash'', JStr (short_sha cx txt))])
          else None
      | _ \<Rightarrow> None)"

definition record_content :: "SealRecord \<Rightarrow> string \<times> Json \<times> RfcId option" where
  "record_content r = (sr_event_type r, sr_detail r, sr_rfc_id r)"

definition codec_ok :: "SealCodec \<Rightarrow> bool" where
  "codec_ok cx \<longleftrightarrow> (\<forall>r. print_ok cx r \<and> (\<exists>line. sx_print cx r = Ok line))"

text \<open>The chain of job \<open>j\<close> is on disk at \<open>p\<close>, verifies, and holds \<open>rs\<close>; the manager has it open unless it is closed.\<close>

definition job_state :: "SealCodec \<Rightarrow> JobId \<Rightarrow> path \<Rightarrow> (string \<times> Json \<times> RfcId option) list \<Rightarrow> bool \<Rightarrow> SealManager \<times> fs \<Rightarrow> bool" where
  "job_state cx j p rs cl s \<longleftrightarrow>
     (\<exists>c. on_disk cx c (snd s) \<and> sc_file_path c = p \<and> fst (chain_verify cx c) \<and> map record_content (sc_records c) = rs \<and> sc_closed c = cl \<and>
        snd s p \<noteq> None \<and> (map_of (mg_job_chains (fst s)) j = Some c \<or> cl \<and> map_of (mg_job_chains (fst s)) j = None))"

lemma on_disk_cong: "fs' (sc_file_path c) = fs (sc_file_path c) \<Longrightarrow> on_disk cx c fs' \<longleftrightarrow> on_disk cx c fs"
  by (simp add: on_disk_def chain_load_fine)

lemma job_state_apart:
  assumes "apart j p s s'" and "job_state cx j p rs cl s"
  shows "job_state cx j p rs cl s'"
proof -
  obtain c where c: "on_disk cx c (snd s)" "sc_file_path c = p" "fst (chain_verify cx c)" "map record_content (sc_records c) = rs" "sc_closed c = cl"
      "snd s p \<noteq> None" "map_of (mg_job_chains (fst s)) j = Some c \<or> cl \<and> map_of (mg_job_chains (fst s)) j = None"
    using assms(2) unfolding job_state_def by blast
  have a: "map_of (mg_job_chains (fst s')) j = map_of (mg_job_chains (fst s)) j" "snd s' p = snd s p" using assms(1) c(6) by (simp_all add: apart_def)
  have "on_disk cx c (snd s')" using on_disk_cong [of "snd s'" c "snd s" cx] a(2) c(1,2) by simp
  then show ?thesis unfolding job_state_def using a c by (intro exI [of _ c]) simp
qed

text \<open>What stays fixed while the chain of the job grows.\<close>

definition same_home :: "SealManager \<Rightarrow> SealManager \<Rightarrow> bool" where
  "same_home m m' \<longleftrightarrow> placed m' \<and> mg_data_dir m' = mg_data_dir m \<and> mg_origin_tag m' = mg_origin_tag m"

lemma same_home_trans: "same_home m m1 \<Longrightarrow> same_home m1 m2 \<Longrightarrow> same_home m m2"
  by (simp add: same_home_def)

lemma apart_home: "apart j p (m, fs) (m', fs') \<Longrightarrow> same_home m m'"
  by (simp add: apart_def same_home_def)

lemma tag_home: "same_home m m' \<Longrightarrow> tag_origin m' d = tag_origin m d"
  by (simp add: tag_origin_def same_home_def)

lemma seal_job_open:
  assumes "placed m" and "codec_ok cx" and "on_disk cx c fs" and "sc_file_path c = job_chain_path (mg_data_dir m) a j" and "fst (chain_verify cx c)"
    and "\<not> sc_closed c" and "map_of (mg_job_chains m) j = Some c" and "seal_job_with_rfc cx io_fine now j ev d rfc m fs = (fs', m', r)"
  shows "job_state cx j (job_chain_path (mg_data_dir m) a j) (map record_content (sc_records c) @ [(ev, tag_origin m d, rfc)]) (is_terminal_event ev) (m', fs')"
    and "same_home m m'" and "r = Ok ()"
proof -
  let ?r = "next_record cx now c ev (tag_origin m d) rfc"
  obtain line where "sx_print cx ?r = Ok line" using assms(2) unfolding codec_ok_def by blast
  then obtain fs1 c1 where ap: "chain_append cx io_fine now ev (tag_origin m d) rfc c fs = (fs1, c1, Ok ?r)" and fs1: "fs1 (sc_file_path c) \<noteq> None"
    and c1: "sc_records c1 = sc_records c @ [?r]" "sc_closed c1 = is_terminal_event ev" "sc_file_path c1 = sc_file_path c"
    using assms(6) by (auto simp: chain_append_def Let_def io_fine_def)
  have "on_disk cx c1 fs1" using append_on_disk [OF assms(3) ap] assms(2) by (simp add: codec_ok_def)
  moreover have "fst (chain_verify cx c1)" using verify_append [of cx c now ev "tag_origin m d" rfc] assms(5) c1(1) by (simp add: chain_verify_def)
  moreover have "record_content ?r = (ev, tag_origin m d, rfc)" by (simp add: record_content_def next_record_def Let_def)
  moreover have m': "m' = m\<lparr>mg_job_chains := hm_insert j c1 (mg_job_chains m)\<rparr>" "fs' = fs1" and r: "r = Ok ()"
    using assms(8) ap assms(7) by (simp_all add: seal_job_with_rfc_def swallow_closed_def)
  ultimately show "job_state cx j (job_chain_path (mg_data_dir m) a j) (map record_content (sc_records c) @ [(ev, tag_origin m d, rfc)])
      (is_terminal_event ev) (m', fs')"
    unfolding job_state_def using assms(4) c1 fs1 by (intro exI [of _ c1]) simp
  show "same_home m m'" using placed_insert [OF assms(1), of c1 a j] assms(4) c1(3) by (simp add: m' same_home_def)
  show "r = Ok ()" by (fact r)
qed

lemma seal_job_live:
  assumes "placed m" and "codec_ok cx" and "job_state cx j (job_chain_path (mg_data_dir m) a j) rs False (m, fs)"
    and "seal_job_with_rfc cx io_fine now j ev d rfc m fs = (fs', m', r)"
  shows "job_state cx j (job_chain_path (mg_data_dir m) a j) (rs @ [(ev, tag_origin m d, rfc)]) (is_terminal_event ev) (m', fs')" "same_home m m'" "r = Ok ()"
proof -
  obtain c where c: "on_disk cx c fs" "sc_file_path c = job_chain_path (mg_data_dir m) a j" "fst (chain_verify cx c)" "map record_content (sc_records c) = rs"
      "\<not> sc_closed c" "map_of (mg_job_chains m) j = Some c"
    using assms(3) unfolding job_state_def by auto
  show "job_state cx j (job_chain_path (mg_data_dir m) a j) (rs @ [(ev, tag_origin m d, rfc)]) (is_terminal_event ev) (m', fs')" "same_home m m'" "r = Ok ()"
    using seal_job_open [OF assms(1,2) c(1,2,3,5,6) assms(4)] c(4) by simp_all
qed

lemma seal_job_ended:
  assumes "placed m" and "job_state cx j p rs True (m, fs)" and "p = job_chain_path (mg_data_dir m) a j"
    and "seal_job_with_rfc cx io now j ev d rfc m fs = (fs', m', r)"
  shows "apart j p (m, fs) (m', fs')" "r = Ok ()"
proof -
  obtain c where c: "sc_file_path c = p" "sc_closed c" "map_of (mg_job_chains m) j = Some c \<or> map_of (mg_job_chains m) j = None"
    using assms(2) unfolding job_state_def by auto
  then have "map_of (mg_job_chains m) j = None \<and> m' = m \<and> fs' = fs \<or>
      map_of (mg_job_chains m) j = Some c \<and> m' = m\<lparr>mg_job_chains := hm_insert j c (mg_job_chains m)\<rparr> \<and> fs' = fs" and "r = Ok ()"
    using assms(4) by (auto simp: seal_job_with_rfc_def chain_append_closed swallow_closed_def)
  then show "apart j p (m, fs) (m', fs')" "r = Ok ()" using assms(1,3) placed_insert [OF assms(1), of c a j] c(1) by (auto simp: apart_def)
qed

subsection \<open>Every event, whatever its job\<close>

text \<open>The chains after a step are apart from job \<open>j\<close>, seen from the consumer.\<close>

definition apart_from :: "JobId \<Rightarrow> string \<Rightarrow> Consumer \<Rightarrow> Consumer \<Rightarrow> bool" where
  "apart_from j a s s' \<longleftrightarrow> (placed (cn_manager s) \<longrightarrow> apart j (job_chain_path (mg_data_dir (cn_manager s)) a j) (chains_of s) (chains_of s'))"

lemma apart_from_trans: "apart_from j a s s1 \<Longrightarrow> apart_from j a s1 s2 \<Longrightarrow> apart_from j a s s2"
  unfolding apart_from_def using apart_trans by (fastforce simp: apart_def chains_of_def)

lemma apart_from_refl: "apart_from j a s s"
  by (simp add: apart_from_def apart_refl chains_of_def)

lemma apart_from_same: "cn_manager s' = cn_manager s \<Longrightarrow> cn_fs s' = cn_fs s \<Longrightarrow> apart_from j a s s'"
  using apart_from_refl [of j a s] by (simp add: apart_from_def chains_of_def)

lemma on_chains_apart:
  assumes "\<And>m fs fs' m' r. f m fs = (fs', m', r) \<Longrightarrow> placed m \<Longrightarrow> apart j (job_chain_path (mg_data_dir m) a j) (m, fs) (m', fs')"
  shows "apart_from j a s (fst (on_chains f s))"
  using assms by (auto simp: apart_from_def on_chains_def chains_of_def split: prod.splits)

lemma seal_job_now_apart: "k \<noteq> j \<Longrightarrow> apart_from j a s (fst (seal_job_now cx env k ev d rfc s))"
  unfolding seal_job_now_def by (rule on_chains_apart) (auto intro: seal_job_apart)

lemma seal_project_now_apart: "apart_from j a s (fst (seal_project_now cx env n ev d rfc s))"
  unfolding seal_project_now_def by (rule on_chains_apart) (auto intro: seal_project_apart)

lemma seal_workspace_now_apart: "apart_from j a s (fst (seal_workspace_now cx env ev d rfc s))"
  unfolding seal_workspace_now_def by (rule on_chains_apart) (auto intro: seal_workspace_apart)

lemma seal_project_for_apart: "apart_from j a s (fst (seal_project_for cx env k n d rfc s))"
  unfolding seal_project_for_def by (auto simp: seal_project_now_apart apart_from_refl split: option.splits)

lemma notice_apart_from: "apart_from j a s (scheduled_notice env sched k b code s)"
  by (simp add: apart_from_def notice_apart)

lemma close_from: "k \<noteq> j \<Longrightarrow> apart_from j a s (s\<lparr>cn_manager := fst (close_job_chain k (cn_manager s))\<rparr>)"
  by (simp add: apart_from_def chains_of_def close_apart)

lemma evict_from: "k \<noteq> j \<Longrightarrow> apart_from j a s (s\<lparr>cn_manager := evict_job_chain k (cn_manager s), cn_projects := q\<rparr>)"
  by (simp add: apart_from_def chains_of_def evict_apart)

lemma close_steps_apart: "k \<noteq> j \<Longrightarrow> apart_from j a s (fst (close_steps cx env k b code rfc s))"
proof -
  assume k: "k \<noteq> j"
  let ?d = "JObj [(''exit_code'', json_opt_int code)]" and ?t = "if (case code of Some c \<Rightarrow> c | None \<Rightarrow> 0) = 0 then ''agent.complete'' else ''agent.failed''"
  obtain s1 r where 1: "seal_job_now cx env k ?t ?d rfc s = (s1, r)" by fastforce
  obtain m tip where 2: "close_job_chain k (cn_manager s1) = (m, tip)" by fastforce
  have "apart_from j a s s1" using seal_job_now_apart [OF k, of a s cx env ?t ?d rfc] 1 by simp
  moreover have "apart_from j a s1 (s1\<lparr>cn_manager := m\<rparr>)" using close_from [OF k, of a s1] 2 by simp
  ultimately show ?thesis
    using 1 2 seal_project_now_apart [of j a "s1\<lparr>cn_manager := m\<rparr>"] apart_from_trans
    by (auto simp: close_steps_def Let_def split: sum.splits option.splits)
qed

lemma close_job_and_link_apart: "k \<noteq> j \<Longrightarrow> apart_from j a s (fst (close_job_and_link cx env sched k b code rfc s))"
proof -
  assume k: "k \<noteq> j"
  obtain s1 r where 1: "close_steps cx env k b code rfc s = (s1, r)" by fastforce
  let ?s2 = "s1\<lparr>cn_manager := evict_job_chain k (cn_manager s1), cn_projects := hm_remove k (cn_projects s1)\<rparr>"
  have "apart_from j a s ?s2" using close_steps_apart [OF k, of a s cx env b code rfc] 1 evict_from [OF k, of a s1] apart_from_trans by fastforce
  then show ?thesis
    using 1 notice_apart_from [of j a ?s2 env sched k b code] apart_from_trans by (auto simp: close_job_and_link_def Let_def split: sum.splits)
qed

lemma route_custom_apart: "k \<noteq> j \<or> custom_elsewhere name \<Longrightarrow> apart_from j a s (fst (route_custom cx env k b name d rfc s))"
proof (cases "name = ''agent.spawn''")
  case True
  assume "k \<noteq> j \<or> custom_elsewhere name"
  then have k: "k \<noteq> j" using True by (simp add: custom_elsewhere_def)
  obtain fs m where c: "create_job_chain cx (ce_io env) k b (cn_manager s) (cn_fs s) = (fs, m)" by fastforce
  then have "apart_from j a s (s\<lparr>cn_manager := m, cn_fs := fs\<rparr>)" using create_apart [OF _ k refl c] by (simp add: apart_from_def chains_of_def)
  then show ?thesis using True c seal_job_now_apart [OF k] apart_from_trans by (simp add: route_custom_def)
next
  case False
  assume "k \<noteq> j \<or> custom_elsewhere name"
  then show ?thesis using False
    by (auto simp: route_custom_def custom_elsewhere_def seal_project_for_apart seal_workspace_now_apart seal_job_now_apart)
qed

lemma route_other_job: "ev_job_id e \<noteq> j \<or> job_entry cx e = None \<Longrightarrow> apart_from j a s (fst (route cx sched env e s))"
  by (cases "ev_event e")
    (auto simp: route_def Let_def job_entry_def seal_job_now_apart close_job_and_link_apart route_custom_apart apart_from_refl split: if_splits)

subsection \<open>The events of the job itself\<close>

definition trail_at :: "SealCodec \<Rightarrow> JobId \<Rightarrow> string \<Rightarrow> SealManager \<Rightarrow> (string \<times> Json \<times> RfcId option) list \<Rightarrow> bool \<Rightarrow> Consumer \<Rightarrow> bool" where
  "trail_at cx j a m0 rs cl s \<longleftrightarrow> same_home m0 (cn_manager s) \<and> job_state cx j (job_chain_path (mg_data_dir m0) a j) rs cl (chains_of s)"

lemma trail_at_apart: "trail_at cx j a m0 rs cl s \<Longrightarrow> apart_from j a s s' \<Longrightarrow> trail_at cx j a m0 rs cl s'"
  using job_state_apart apart_home same_home_trans by (fastforce simp: trail_at_def apart_from_def same_home_def chains_of_def)

lemma trail_at_seal:
  assumes "codec_ok cx" and "trail_at cx j a m0 rs cl s" and "ce_io env = io_fine" and "seal_job_now cx env j ev d rfc s = (s', r)"
  shows "trail_at cx j a m0 (if cl then rs else rs @ [(ev, tag_origin m0 d, rfc)]) (cl \<or> is_terminal_event ev) s' \<and> r = Ok ()"
proof -
  have h: "same_home m0 (cn_manager s)" "placed (cn_manager s)" "mg_data_dir (cn_manager s) = mg_data_dir m0"
    and st: "job_state cx j (job_chain_path (mg_data_dir m0) a j) rs cl (cn_manager s, cn_fs s)"
    using assms(2) by (simp_all add: trail_at_def same_home_def chains_of_def)
  obtain fs' m' r' where f: "seal_job_with_rfc cx io_fine (ce_now env) j ev d rfc (cn_manager s) (cn_fs s) = (fs', m', r')" by (rule prod_cases3)
  then have s': "s' = s\<lparr>cn_manager := m', cn_fs := fs'\<rparr>" and r': "r' = r" using assms(3,4) by (simp_all add: seal_job_now_def on_chains_def)
  note f = f [unfolded r']
  show ?thesis
  proof (cases cl)
    case True
    have "job_state cx j (job_chain_path (mg_data_dir m0) a j) rs True (cn_manager s, cn_fs s)" using st True by simp
    note ended = seal_job_ended [OF h(2) this [folded h(3)] refl f, unfolded h(3)]
    have "trail_at cx j a m0 rs True s'" using trail_at_apart [OF assms(2), of s'] ended(1) True h(3) by (simp add: apart_from_def chains_of_def s')
    then show ?thesis using True ended(2) by simp
  next
    case False
    have "job_state cx j (job_chain_path (mg_data_dir m0) a j) rs False (cn_manager s, cn_fs s)" using st False by simp
    note live = seal_job_live [OF h(2) assms(1) this [folded h(3)] f]
    have "trail_at cx j a m0 (rs @ [(ev, tag_origin m0 d, rfc)]) (is_terminal_event ev) s'"
      using live(1) same_home_trans [OF h(1) live(2)] unfolding trail_at_def chains_of_def s' tag_home [OF h(1)] h(3) by simp
    then show ?thesis using False live(3) by simp
  qed
qed

lemma trail_at_close:
  assumes "trail_at cx j a m0 rs True s" and "close_job_chain j (cn_manager s) = (m, tip)"
  shows "trail_at cx j a m0 rs True (s\<lparr>cn_manager := m\<rparr>)"
proof -
  obtain c where c: "sc_file_path c = job_chain_path (mg_data_dir m0) a j" "sc_closed c"
      "map_of (mg_job_chains (cn_manager s)) j = Some c \<or> map_of (mg_job_chains (cn_manager s)) j = None"
    using assms(1) by (auto simp: trail_at_def job_state_def chains_of_def)
  have h: "placed (cn_manager s)" "mg_data_dir (cn_manager s) = mg_data_dir m0" using assms(1) by (simp_all add: trail_at_def same_home_def)
  have "chain_close c = c" using c(2) by (cases c) (simp add: chain_close_def)
  then have "m = cn_manager s \<or>
      map_of (mg_job_chains (cn_manager s)) j = Some c \<and> m = (cn_manager s)\<lparr>mg_job_chains := hm_insert j c (mg_job_chains (cn_manager s))\<rparr>"
    using assms(2) c(3) by (auto simp: close_job_chain_def)
  then have "apart_from j a s (s\<lparr>cn_manager := m\<rparr>)"
    using placed_insert [OF h(1), of c a j] c(1) h(2) apart_from_refl [of j a s] by (auto simp: apart_from_def chains_of_def apart_def)
  then show ?thesis by (rule trail_at_apart [OF assms(1)])
qed

lemma trail_at_evict:
  assumes "trail_at cx j a m0 rs True s"
  shows "trail_at cx j a m0 rs True (s\<lparr>cn_manager := evict_job_chain j (cn_manager s), cn_projects := q\<rparr>)"
  using assms by (auto simp: trail_at_def same_home_def job_state_def chains_of_def evict_job_chain_def placed_def)

lemma close_own:
  assumes "codec_ok cx" and "trail_at cx j a m0 rs cl s" and "ce_io env = io_fine"
  shows "trail_at cx j a m0 (if cl then rs else rs @ [(terminal_name code, tag_origin m0 (JObj [(''exit_code'', json_opt_int code)]), rfc)]) True (fst (close_job_and_link cx env sched j b code rfc s))"
    (is "trail_at _ _ _ _ ?rs _ _")
proof -
  let ?d = "JObj [(''exit_code'', json_opt_int code)]"
  obtain s1 r where 1: "seal_job_now cx env j (terminal_name code) ?d rfc s = (s1, r)" by fastforce
  have t1: "trail_at cx j a m0 ?rs True s1" and r: "r = Ok ()" using trail_at_seal [OF assms(1,2,3) 1] terminal_name_eq(2) by simp_all
  obtain m tip where 2: "close_job_chain j (cn_manager s1) = (m, tip)" by fastforce
  obtain s2 r2 where 3: "close_steps cx env j b code rfc s = (s2, r2)" by fastforce
  have "trail_at cx j a m0 ?rs True s2"
    using 3 1 2 r trail_at_close [OF t1 2] trail_at_apart [OF trail_at_close [OF t1 2] seal_project_now_apart]
    by (auto simp: close_steps_def Let_def terminal_name_eq split: option.splits) (metis fst_conv)+
  note t3 = trail_at_evict [OF this, of "hm_remove j (cn_projects s2)"]
  show ?thesis using 3 t3 trail_at_apart [OF t3 notice_apart_from]
    by (cases r2) (simp_all add: close_job_and_link_def Let_def split del: if_split)
qed

lemma route_own:
  assumes "codec_ok cx" and "trail_at cx j a m0 rs cl s" and "ce_io env = io_fine" and "ev_job_id e = j" and "job_entry cx e = Some (n, d)"
    and "n \<noteq> ''agent.spawn''"
  shows "trail_at cx j a m0 (if cl then rs else rs @ [(n, tag_origin m0 d, ev_rfc_id e)]) (cl \<or> is_terminal_event n) (fst (route cx sched env e s))"
proof -
  have seal: "trail_at cx j a m0 (if cl then rs else rs @ [(n, tag_origin m0 d, ev_rfc_id e)]) (cl \<or> is_terminal_event n)
      (fst (seal_job_now cx env j n d (ev_rfc_id e) s))"
    using trail_at_seal [OF assms(1,2,3)] by (metis prod.collapse)
  show ?thesis
  proof (cases "ev_event e")
    case (EP_SessionEnd c)
    then show ?thesis using close_own [OF assms(1,2,3)] assms(4,5) by (auto simp: route_def Let_def job_entry_def terminal_name_eq)
  next
    case (EP_Custom nm data)
    then show ?thesis using seal assms(4,5,6) by (auto simp: route_def Let_def job_entry_def route_custom_def custom_elsewhere_def split: if_splits)
  qed (use seal assms(4,5) in \<open>auto simp: route_def Let_def job_entry_def split: if_splits\<close>)
qed

subsection \<open>A session is sealed as it happened\<close>

text \<open>The records an audit of job \<open>j\<close> finds after these events: one for each that leaves one, in order, up to the first terminal one.\<close>

fun job_trail :: "SealCodec \<Rightarrow> SealManager \<Rightarrow> JobId \<Rightarrow> OrkiaEvent list \<Rightarrow> (string \<times> Json \<times> RfcId option) list" where
  "job_trail cx m j [] = []"
| "job_trail cx m j (e # es) =
     (case (if ev_job_id e = j then job_entry cx e else None) of
        None \<Rightarrow> job_trail cx m j es
      | Some (n, d) \<Rightarrow> (n, tag_origin m d, ev_rfc_id e) # (if is_terminal_event n then [] else job_trail cx m j es))"

definition ends_job :: "SealCodec \<Rightarrow> JobId \<Rightarrow> OrkiaEvent \<Rightarrow> bool" where
  "ends_job cx j e \<longleftrightarrow> ev_job_id e = j \<and> (case job_entry cx e of Some (n, _) \<Rightarrow> is_terminal_event n | None \<Rightarrow> False)"

definition spawns_job :: "JobId \<Rightarrow> OrkiaEvent \<Rightarrow> bool" where
  "spawns_job j e \<longleftrightarrow> ev_job_id e = j \<and> (case ev_event e of EP_Custom n _ \<Rightarrow> n = ''agent.spawn'' | _ \<Rightarrow> False)"

lemma spawn_entry: "job_entry cx e = Some (''agent.spawn'', d) \<Longrightarrow> ev_job_id e = j \<Longrightarrow> spawns_job j e"
  by (auto simp: job_entry_def spawns_job_def terminal_name_def split: EventPayload.splits if_splits)

lemma spawn_starts_trail:
  assumes "codec_ok cx" and "placed (cn_manager s)" and "map_of (mg_job_chains (cn_manager s)) j = None" and "ce_io env = io_fine"
    and "ev_event e = EP_Custom ''agent.spawn'' d" and "ev_job_id e = j" and "p = job_chain_path (mg_data_dir (cn_manager s)) (ev_agent_name e) j"
    and "cn_fs s p \<in> {None, Some []} \<or> archive_search (cn_fs s) p 1 \<noteq> None"
  shows "trail_at cx j (ev_agent_name e) (cn_manager s) [(''agent.spawn'', tag_origin (cn_manager s) d, ev_rfc_id e)] False (fst (route cx sched env e s))"
proof -
  let ?fs = "archive_stale_chain io_fine p (cn_fs s)" and ?m = "cn_manager s"
  have "?fs p \<in> {None, Some []}" using assms(8) by (auto simp: archive_stale_chain_def io_fine_def split: option.splits dest: archive_search_free)
  then have l: "load_or_quarantine cx io_fine ?fs p = chain_of p []" and od: "on_disk cx (chain_of p []) ?fs"
    by (auto simp: load_or_quarantine_def chain_load_fine on_disk_def load_records_def str_lines_Nil List.map_filter_def log_closed_def chain_of_def)
  let ?m1 = "?m\<lparr>mg_job_chains := hm_insert j (chain_of p []) (mg_job_chains ?m)\<rparr>"
  have m1: "create_job_chain cx io_fine j (ev_agent_name e) ?m (cn_fs s) = (?fs, ?m1)"
    using assms(3,7) l by (simp add: create_job_chain_def Let_def entry_or_insert_def)
  have p1: "placed ?m1" "same_home ?m ?m1" using placed_insert [OF assms(2), of "chain_of p []" "ev_agent_name e" j] assms(7)
    by (simp_all add: chain_of_def same_home_def)
  obtain fs2 m2 r where 2: "seal_job_with_rfc cx io_fine (ce_now env) j ''agent.spawn'' d (ev_rfc_id e) ?m1 ?fs = (fs2, m2, r)" by (rule prod_cases3)
  have c: "sc_file_path (chain_of p []) = job_chain_path (mg_data_dir ?m1) (ev_agent_name e) j" "fst (chain_verify cx (chain_of p []))" "\<not> sc_closed (chain_of p [])"
    "map_of (mg_job_chains ?m1) j = Some (chain_of p [])" using assms(7) by (simp_all add: chain_of_def chain_verify_def)
  note o = seal_job_open [OF p1(1) assms(1) od c 2]
  have "fst (route cx sched env e s) = s\<lparr>cn_manager := m2, cn_fs := fs2\<rparr>"
    using assms(4,5,6) m1 2 by (simp add: route_def Let_def route_custom_def seal_job_now_def on_chains_def)
  moreover have "tag_origin ?m1 d = tag_origin ?m d" using tag_home [OF p1(2)] .
  ultimately show ?thesis using o(1) same_home_trans [OF p1(2) o(2)]
    by (simp add: trail_at_def chains_of_def is_terminal_event_def) (simp add: chain_of_def)
qed

lemma consume_trail:
  assumes "codec_ok cx" and "trail_at cx j a m0 rs cl s"
    and "list_all (\<lambda>(env, e). ev_job_id e = j \<longrightarrow> ce_io env = io_fine \<and> \<not> spawns_job j e) steps"
  shows "trail_at cx j a m0 (if cl then rs else rs @ job_trail cx m0 j (map snd steps)) (cl \<or> list_ex (ends_job cx j) (map snd steps)) (consume cx sched s steps)"
  using assms(2,3)
proof (induction steps arbitrary: rs cl s)
  case Nil
  then show ?case by (cases cl) (simp_all add: consume_def)
next
  case (Cons st steps)
  obtain env e where st: "st = (env, e)" by fastforce
  let ?s = "fst (route cx sched env e s)"
  have c: "consume cx sched s (st # steps) = consume cx sched ?s steps" by (simp add: consume_def st)
  show ?case
  proof (cases "ev_job_id e = j \<and> job_entry cx e \<noteq> None")
    case True
    then obtain n d where n: "job_entry cx e = Some (n, d)" by auto
    have "n \<noteq> ''agent.spawn''" using spawn_entry [of cx e d j] n True Cons.prems(2) st by auto
    from route_own [OF assms(1) Cons.prems(1) _ _ n this, of env sched] True Cons.prems(2) st
    have "trail_at cx j a m0 (if cl then rs else rs @ [(n, tag_origin m0 d, ev_rfc_id e)]) (cl \<or> is_terminal_event n) ?s" by simp
    from Cons.IH [OF this] Cons.prems(2) show ?thesis unfolding c using n True st
      by (cases cl; cases "is_terminal_event n") (simp_all add: ends_job_def)
  next
    case False
    then have "apart_from j a s ?s" using route_other_job by blast
    note ih = Cons.IH [OF trail_at_apart [OF Cons.prems(1) this]]
    have "\<not> ends_job cx j e" "job_trail cx m0 j (e # map snd steps) = job_trail cx m0 j (map snd steps)" using False
      by (cases "job_entry cx e"; simp add: ends_job_def)+
    then show ?thesis unfolding c using ih Cons.prems(2) st by (cases cl) (simp_all del: job_trail.simps)
  qed
qed

text \<open>C13. A session is sealed as it happened. Take a job that is not open, the event that spawns it and any further events, of this and other
  jobs, projects and the workspace in any order, where the host may fail in every way for the others. Then the job's file reads back as a chain that verifies
  and holds one record for each event of the job that leaves one, in order, with its detail and its RFC, up to the first that ends the job,
  and the chain is closed exactly when one did. An older file of the same name has been moved away, or was empty.\<close>

theorem session_sealed:
  assumes "codec_ok cx" and "placed (cn_manager s)" and "map_of (mg_job_chains (cn_manager s)) j = None"
    and "ev_event e = EP_Custom ''agent.spawn'' d" and "ev_job_id e = j" and "ce_io env = io_fine"
    and "p = job_chain_path (mg_data_dir (cn_manager s)) (ev_agent_name e) j"
    and "cn_fs s p \<in> {None, Some []} \<or> archive_search (cn_fs s) p 1 \<noteq> None"
    and "list_all (\<lambda>(env, e). ev_job_id e = j \<longrightarrow> ce_io env = io_fine \<and> \<not> spawns_job j e) steps"
  shows "\<exists>c. chain_load cx io_fine (cn_fs (consume cx sched s ((env, e) # steps))) p = Ok c \<and> fst (chain_verify cx c) \<and>
    map record_content (sc_records c) = job_trail cx (cn_manager s) j (e # map snd steps) \<and> (sc_closed c \<longleftrightarrow> list_ex (ends_job cx j) (map snd steps))"
proof -
  let ?s = "fst (route cx sched env e s)"
  have "trail_at cx j (ev_agent_name e) (cn_manager s) [(''agent.spawn'', tag_origin (cn_manager s) d, ev_rfc_id e)] False ?s"
    using spawn_starts_trail [OF assms(1-3,6,4,5,7,8)] .
  from consume_trail [OF assms(1) this assms(9), of sched]
  obtain c where "on_disk cx c (cn_fs (consume cx sched ?s steps))" "sc_file_path c = p" "fst (chain_verify cx c)"
      "map record_content (sc_records c) = (''agent.spawn'', tag_origin (cn_manager s) d, ev_rfc_id e) # job_trail cx (cn_manager s) j (map snd steps)"
      "sc_closed c \<longleftrightarrow> list_ex (ends_job cx j) (map snd steps)"
    unfolding trail_at_def job_state_def chains_of_def assms(7) by auto
  moreover have "job_entry cx e = Some (''agent.spawn'', d)" using assms(4) by (simp add: job_entry_def custom_elsewhere_def)
  moreover have "consume cx sched s ((env, e) # steps) = consume cx sched ?s steps" by (simp add: consume_def)
  ultimately show ?thesis using assms(5) by (intro exI [of _ c]) (simp add: on_disk_def is_terminal_event_def)
qed

text \<open>For the instance: a codec that writes a record's number among all of them.\<close>

instance Json :: countable by countable_datatype

definition seal_fields :: "SealRecord \<Rightarrow> (64 word \<times> string \<times> string \<times> Json) \<times> string \<times> string \<times> string option" where
  "seal_fields r = ((sr_seq r, sr_timestamp r, sr_event_type r, sr_detail r), sr_hash r, sr_prev_hash r, sr_rfc_id r)"

definition seal_of :: "(64 word \<times> string \<times> string \<times> Json) \<times> string \<times> string \<times> string option \<Rightarrow> SealRecord" where
  "seal_of t =
     (case t of ((n, ts, ev, d), h, ph, rfc) \<Rightarrow>
        \<lparr>sr_seq = n, sr_timestamp = ts, sr_event_type = ev, sr_detail = d, sr_hash = h, sr_prev_hash = ph, sr_rfc_id = rfc\<rparr>)"

definition numbered_seals :: SealCodec where
  "numbered_seals =
     \<lparr>sx_sha = \<lambda>s. take 64 (s @ zero_hash), sx_value = \<lambda>_. ''{}'', sx_print = \<lambda>r. Ok (show_nat (to_nat (seal_fields r))),
      sx_parse = \<lambda>l. Some (seal_of (from_nat (read_nat l)))\<rparr>"

lemma numbered_seals_ok: "codec_ok numbered_seals"
proof -
  have "seal_of (seal_fields r) = r" for r by (simp add: seal_of_def seal_fields_def)
  then show ?thesis using show_nat_digits digits_are_lines by (auto simp: codec_ok_def print_ok_def numbered_seals_def)
qed

lemma placed_new: "placed (manager_new env d)"
  by (simp add: placed_def manager_new_def with_origin_def)

definition quiet_env :: ConsumerEnv where
  "quiet_env = \<lparr>ce_io = io_fine, ce_now = ''T'', ce_cron = None, ce_pretty = \<lambda>_. Err [], ce_line = \<lambda>_. Err []\<rparr>"

definition said :: "EventSource \<Rightarrow> EventPayload \<Rightarrow> OrkiaEvent" where
  "said src p = \<lparr>ev_source = src, ev_event = p, ev_confidence = 1, ev_timestamp = ''T'', ev_job_id = 1, ev_agent_name = ''faye'', ev_rfc_id = None\<rparr>"

theorem session_sealed_witness:
  "\<exists>c. chain_load numbered_seals io_fine (cn_fs (consume numbered_seals \<lparr>is_scheduled = False, approval_required = False\<rparr>
       \<lparr>cn_manager = manager_new (\<lambda>_. None) [''orkia''], cn_projects = [], cn_fs = \<lambda>_. None\<rparr>
       [(quiet_env, said Internal (EP_Custom ''agent.spawn'' JNull)), (quiet_env, said (HookSource ''claude'') (EP_PermissionResolved True ''user'')),
        (quiet_env, said (HookSource ''claude'') (EP_SessionEnd (Some 1)))]))
       (job_chain_path [''orkia''] ''faye'' 1) = Ok c \<and>
     map record_content (sc_records c) =
       [(''agent.spawn'', JNull, None), (''approval'', JObj [(''approved'', JBool True), (''resolved_by'', JStr ''user'')], None),
        (''agent.failed'', JObj [(''exit_code'', JInt 1)], None)] \<and> sc_closed c"
proof -
  let ?s = "\<lparr>cn_manager = manager_new (\<lambda>_. None) [''orkia''], cn_projects = [], cn_fs = \<lambda>_. None\<rparr>"
  let ?steps = "[(quiet_env, said (HookSource ''claude'') (EP_PermissionResolved True ''user'')), (quiet_env, said (HookSource ''claude'') (EP_SessionEnd (Some 1)))]"
  have "list_all (\<lambda>(env, e). ev_job_id e = 1 \<longrightarrow> ce_io env = io_fine \<and> \<not> spawns_job 1 e) ?steps"
    by (simp add: quiet_env_def said_def spawns_job_def)
  from session_sealed [OF numbered_seals_ok _ _ _ _ _ refl _ this, of ?s "said Internal (EP_Custom ''agent.spawn'' JNull)" JNull quiet_env
      "\<lparr>is_scheduled = False, approval_required = False\<rparr>"] placed_new [of "\<lambda>_. None" "[''orkia'']"]
  show ?thesis
    by (auto simp: manager_new_def with_origin_def said_def quiet_env_def job_entry_def custom_elsewhere_def is_terminal_event_def tag_origin_def ends_job_def
        terminal_name_def json_opt_int_def)
qed

text \<open>A provider's hook named Stop, which fires at the end of a turn, ends the trail: what the agent does in its later turns is not sealed, and its exit code
  is not either.\<close>

lemma stop_ends_trail:
  assumes "convert_hook pc now env = Some e" and "je_event env = Some ''Stop''" and "ev_job_id e = j"
  shows "job_trail cx m j (e # es) =
    [(terminal_name (je_exit_code env), tag_origin m (JObj [(''exit_code'', json_opt_int (je_exit_code env))]), None)]"
  using assms terminal_name_eq(2)
  by (auto simp: convert_hook_def convert_hook_with_rfc_def hook_payload_def job_entry_def split: if_splits)

subsection \<open>Scope changes\<close>

text \<open>A failed append publishes nothing; but a chain that could not be read counts as closed, and then the change is published though nothing was sealed.\<close>

lemma scope_event_outcomes:
  "emit_scope_event cx jc env ev m journal fs = (fs', m', journal', res) \<Longrightarrow>
   journal' = (if is_ok res then journal_append jc (scope_envelope (ce_now env) ev) journal else journal)"
  by (auto simp: emit_scope_event_def split: prod.splits sum.splits option.splits)

lemma unreadable_chain_publishes:
  assumes "sce_project ev = Some n" and "map_of (mg_project_chains m) n = None" and "io_err (ce_io env) ''seal_mkdir'' MkDir = None"
    and "io_err (ce_io env) ''seal_read'' Read = Some e"
  shows "\<exists>m'. emit_scope_event cx jc env ev m journal fs = (fs, m', journal_append jc (scope_envelope (ce_now env) ev) journal, Ok ())"
  using assms
  by (simp add: emit_scope_event_def seal_project_with_rfc_def load_or_quarantine_def chain_load_def chain_append_def swallow_closed_def)

end
