(* ===== verification/Cage_Profile.thy ===== *)
theory Cage_Profile
  imports Trust
begin

section \<open>The sandbox profile\<close>

text \<open>
  Models \<^verbatim>\<open>bins/orkia-cage/src/sbpl.rs\<close>, the launcher \<^verbatim>\<open>lib.rs\<close> beside it as far as it is shared or for macOS, and the provider names of
  \<^verbatim>\<open>crates/orkia-shell-types/src/provider.rs\<close>: the launcher turns a policy into the text of a sandbox profile and runs the agent under it. A
  \<^verbatim>\<open>PathBuf\<close> is the string it prints as. What the host says about its files and its environment is a \<open>CageHost\<close>; the TOML codec and the
  adjuster of trust are arguments; an error is the list of its messages, the outermost first.
\<close>

subsection \<open>The text of a profile\<close>

definition push_path :: "string \<Rightarrow> string \<Rightarrow> string" where
  "push_path base rel =
     (if prefix ''/'' rel \<or> base = [] then rel else if suffix ''/'' base then base @ rel else base @ ''/'' @ rel)"

record ProfileSpec =
  pf_log_tag :: string
  pf_workspace :: string
  pf_workspace_read :: bool
  pf_workspace_write :: bool
  pf_read_only :: "string list"
  pf_read_write :: "string list"
  pf_deny_write :: "string list"
  pf_deny_exec :: "string list"

definition escape_char :: "char \<Rightarrow> string" where
  "escape_char c = (if c = DQ then [BS, DQ] else if c = BS then [BS, BS] else [c])"

definition escape_sbpl :: "string \<Rightarrow> string" where
  "escape_sbpl s = [DQ] @ concat (map escape_char s) @ [DQ]"

definition mandatory_workspace_denies :: "string \<Rightarrow> string list" where
  "mandatory_workspace_denies ws = map (push_path ws) [''.git/hooks'', ''.git/config'', ''.env'', ''.mcp.json'']"

definition preamble_rules :: "string list" where
  "preamble_rules =
     [''(allow process-fork)'', ''(allow process-exec)'', ''(allow process-info* (target same-sandbox))'', ''(allow signal (target same-sandbox))'',
      ''(allow mach-priv-task-port (target same-sandbox))'', ''(allow sysctl-read)'', ''(allow ipc-posix-shm)'', ''(allow ipc-posix-sem)'',
      ''(allow user-preference-read)'', ''(allow network*)'', ''(allow system-socket)'']"

definition mach_names :: "string list" where
  "mach_names =
     [''com.apple.system.logger'', ''com.apple.system.notification_center'', ''com.apple.logd'', ''com.apple.lsd.mapdb'', ''com.apple.SecurityServer'',
      ''com.apple.CoreServices.coreservicesd'', ''com.apple.dnssd.service'', ''com.apple.coreservices.launchservicesd'']"

definition char_devices :: "string list" where
  "char_devices = [''/dev/null'', ''/dev/zero'', ''/dev/random'', ''/dev/urandom'', ''/dev/tty'']"

definition emit_preamble :: "ProfileSpec \<Rightarrow> string \<Rightarrow> string list" where
  "emit_preamble spec with_msg =
     [''(version 1)'', ''(deny default '' @ with_msg @ '')'', ''; orkia-cage SBPL '' @ [CHR 0xE2, CHR 0x80, CHR 0x94] @ '' tag '' @ pf_log_tag spec] @
     preamble_rules @ [''(allow mach-lookup''] @ map (\<lambda>name. ''  (global-name '' @ escape_sbpl name @ '')'') mach_names @ [''  )''] @
     map (\<lambda>dev. ''(allow file-read* file-write-data file-ioctl (literal '' @ escape_sbpl dev @ ''))'') char_devices @
     [''(allow file-read* file-write-data file-ioctl (regex #'' @ [DQ] @ ''^/dev/ttys[0-9]+$'' @ [DQ] @ ''))'',
      ''(allow file-read* file-write-data file-ioctl (subpath '' @ [DQ] @ ''/dev/fd'' @ [DQ] @ ''))'']"

definition RUNTIME_READ_ROOTS :: "string list" where
  "RUNTIME_READ_ROOTS = [''/usr/lib'', ''/usr/share'', ''/Library/Developer'', ''/opt/homebrew'', ''/usr/local'']"

definition allow_read :: "string \<Rightarrow> string" where
  "allow_read p = ''(allow file-read* (subpath '' @ escape_sbpl p @ ''))''"

definition allow_write :: "string \<Rightarrow> string" where
  "allow_write p = ''(allow file-write* (subpath '' @ escape_sbpl p @ ''))''"

definition emit_read_rules :: "ProfileSpec \<Rightarrow> string list" where
  "emit_read_rules spec =
     [''(allow file-read* (literal '' @ [DQ] @ ''/'' @ [DQ] @ ''))'', ''(allow file-read-metadata (vnode-type DIRECTORY))'',
      ''(allow file-read-metadata (vnode-type SYMLINK))''] @
     map allow_read RUNTIME_READ_ROOTS @
     [''(allow file-read* (literal '' @ [DQ] @ ''/var/db/xcode_select_link'' @ [DQ] @ ''))''] @
     map allow_read ((if pf_workspace_read spec then [pf_workspace spec] else []) @ pf_read_only spec)"

definition emit_write_rules :: "ProfileSpec \<Rightarrow> string \<Rightarrow> string list" where
  "emit_write_rules spec with_msg =
     (if pf_workspace_read spec \<and> pf_workspace_write spec then [allow_write (pf_workspace spec)] else []) @
     concat (map (\<lambda>rw. [allow_read rw, allow_write rw]) (pf_read_write spec)) @
     map (\<lambda>p. ''(deny file-write* (subpath '' @ escape_sbpl p @ '') '' @ with_msg @ '')'') (pf_deny_write spec) @
     map (\<lambda>b. ''(deny process-exec* (literal '' @ escape_sbpl b @ '') '' @ with_msg @ '')'') (pf_deny_exec spec)"

definition profile_lines :: "ProfileSpec \<Rightarrow> string list" where
  "profile_lines spec =
     (let with_msg = ''(with message '' @ escape_sbpl (pf_log_tag spec) @ '')''
      in emit_preamble spec with_msg @ emit_read_rules spec @ emit_write_rules spec with_msg)"

definition build_profile :: "ProfileSpec \<Rightarrow> string" where
  "build_profile spec = join [NL] (profile_lines spec)"

subsection \<open>From the policy to the profile\<close>

datatype ProviderId = P_Claude | P_Codex | P_Gemini | P_Kimi | P_Generic

definition provider_parse :: "string \<Rightarrow> ProviderId" where
  "provider_parse s =
     (let n = to_ascii_lowercase (trim s)
      in if n = ''claude'' then P_Claude else if n = ''codex'' then P_Codex else if n = ''gemini'' then P_Gemini
         else if n = ''kimi'' then P_Kimi else P_Generic)"

definition from_command :: "string \<Rightarrow> ProviderId" where
  "from_command command = provider_parse (rev (takeWhile (\<lambda>c. c \<noteq> CHR ''/'' \<and> c \<noteq> BS) (rev (trim command))))"

datatype LstatKind = FK_Link "string option" | FK_Dir | FK_Other

record CageHost =
  ch_vars :: "(string \<times> string) list"
  ch_cwd :: "(string, string) result"
  ch_canon :: "string \<Rightarrow> string option"
  ch_exists :: "string \<Rightarrow> bool"
  ch_is_file :: "string \<Rightarrow> bool"
  ch_lstat :: "string \<Rightarrow> LstatKind option"
  ch_uid :: nat
  ch_pid :: nat
  ch_exe :: "string option"

definition env_var :: "CageHost \<Rightarrow> string \<Rightarrow> string option" where
  "env_var h k = map_of (ch_vars h) k"

definition corpus_for_agent :: "string \<Rightarrow> string option \<Rightarrow> string list \<times> string list" where
  "corpus_for_agent program home =
     (case home of
        None \<Rightarrow> ([], [])
      | Some hm \<Rightarrow>
         (case from_command program of
            P_Claude \<Rightarrow>
              ([], map (push_path hm) [''.claude'', ''.claude.json'', ''.mcp.json'', ''.config/claude'', ''.local/state/claude'', ''.local/share/claude'',
                                      ''.cache/claude''])
          | P_Codex \<Rightarrow> ([], map (push_path hm) [''.codex'', ''.cache/codex''])
          | P_Gemini \<Rightarrow> ([], map (push_path hm) [''.gemini'', ''.cache/gemini''])
          | _ \<Rightarrow> ([], [])))"

definition resolve_workspace :: "CageHost \<Rightarrow> string \<Rightarrow> (string list, string) result" where
  "resolve_workspace h root =
     (case (if prefix ''/'' root then Ok root else map_err (\<lambda>e. [e]) (map_sum id (\<lambda>cwd. push_path cwd root) (ch_cwd h))) of
        Inl e \<Rightarrow> Err e
      | Inr p \<Rightarrow> Ok (case ch_canon h p of Some c \<Rightarrow> c | None \<Rightarrow> p))"

definition which :: "CageHost \<Rightarrow> string \<Rightarrow> string option" where
  "which h name =
     (if CHR ''/'' \<in> set name then (if ch_exists h name then Some name else None)
      else case env_var h ''PATH'' of
             None \<Rightarrow> None
           | Some path \<Rightarrow> find (ch_is_file h) (map (\<lambda>d. push_path d name) (split_on (CHR '':'') path)))"

fun derive_deny_exec :: "CageHost \<Rightarrow> Capability list \<Rightarrow> string list" where
  "derive_deny_exec h [] = []"
| "derive_deny_exec h (cap # cs) =
     (if cap_verdict cap \<noteq> Deny \<or> CHR ''.'' \<in> set (cap_name cap) then derive_deny_exec h cs
      else (case which h (cap_name cap) of
              None \<Rightarrow> derive_deny_exec h cs
            | Some p \<Rightarrow>
                (case ch_canon h p of Some c \<Rightarrow> if c \<noteq> p then [c] else [] | None \<Rightarrow> []) @ [p] @ derive_deny_exec h cs))"

definition log_tag :: "CageHost \<Rightarrow> string" where
  "log_tag h =
     (case env_var h ''ORKIA_JOB_ID'' of
        Some i \<Rightarrow> ''orkia-job-'' @ i
      | None \<Rightarrow> (case env_var h ''ORKIA_AGENT_NAME'' of Some n \<Rightarrow> ''orkia-agent-'' @ n | None \<Rightarrow> ''orkia-cage''))"

definition system_reads :: "string list" where
  "system_reads =
     [''/private/etc/hosts'', ''/private/etc/resolv.conf'', ''/private/etc/ssl'', ''/private/var/db/timezone'', ''/usr/lib'', ''/usr/share'', ''/System/Library'',
      ''/bin'', ''/sbin'', ''/usr/bin'', ''/usr/sbin'', ''/opt/homebrew/bin'', ''/opt/homebrew/sbin'', ''/usr/local/bin'']"

definition build_profile_spec :: "CageHost \<Rightarrow> string \<Rightarrow> Policy \<Rightarrow> (string list, ProfileSpec) result" where
  "build_profile_spec h program policy =
     (case resolve_workspace h (ws_root (Policy.workspace policy)) of
        Inl e \<Rightarrow> Err e
      | Inr ws \<Rightarrow>
         (let home = env_var h ''HOME'';
              (corpus_ro, corpus_rw) = corpus_for_agent program home;
              home_ro = (case home of
                           Some hm \<Rightarrow> map (push_path hm) [''Library/Keychains'', ''.gitconfig'', ''.config/git'', ''.local/bin'']
                         | None \<Rightarrow> []);
              home_rw = (case home of
                           Some hm \<Rightarrow>
                             map (push_path hm) [''.skills'', ''.agents'', ''Library/Caches''] @
                             [case env_var h ''ORKIA_SOCKET_PATH'' of Some s \<Rightarrow> s | None \<Rightarrow> push_path hm ''.orkia/run/orkia.sock'']
                         | None \<Rightarrow> []);
              tmp_rw = (case env_var h ''TMPDIR'' of Some t \<Rightarrow> [t] | None \<Rightarrow> []);
              claude_rw = (if from_command program = P_Claude
                           then [''/tmp/claude-'' @ show_nat (ch_uid h), ''/private/tmp/claude-'' @ show_nat (ch_uid h)] else []);
              home_denies = (case home of Some hm \<Rightarrow> map (push_path hm) [''.ssh'', ''.aws'', ''.config/gcloud'', ''.gnupg''] | None \<Rightarrow> [])
          in Ok \<lparr>pf_log_tag = log_tag h, pf_workspace = ws, pf_workspace_read = cc_read (Policy.caps policy),
                 pf_workspace_write = cc_write (Policy.caps policy), pf_read_only = corpus_ro @ system_reads @ home_ro,
                 pf_read_write = corpus_rw @ home_rw @ tmp_rw @ claude_rw,
                 pf_deny_write = mandatory_workspace_denies ws @ home_denies, pf_deny_exec = derive_deny_exec h (capabilities policy)\<rparr>))"

subsection \<open>The environment of the agent\<close>

definition ENV_EXACT :: "string list" where
  "ENV_EXACT =
     [''HOME'', ''PATH'', ''USER'', ''LOGNAME'', ''SHELL'', ''TMPDIR'', ''TERM'', ''COLORTERM'', ''TERM_PROGRAM'', ''TERM_PROGRAM_VERSION'', ''LANG'', ''TZ'',
      ''SSH_AUTH_SOCK'', ''NODE_EXTRA_CA_CERTS'', ''GIT_SSL_CAINFO'']"

definition ENV_PREFIX :: "string list" where
  "ENV_PREFIX = [''ORKIA_'', ''ANTHROPIC_'', ''CLAUDE_'', ''LC_'', ''GEMINI_'', ''OPENAI_'', ''CODEX_'']"

definition env_kept :: "string \<Rightarrow> bool" where
  "env_kept k \<longleftrightarrow> k \<in> set ENV_EXACT \<or> list_ex (\<lambda>p. prefix p k) ENV_PREFIX"

definition allowed_env :: "CageHost \<Rightarrow> (string \<times> string) list" where
  "allowed_env h = filter (\<lambda>(k, _). env_kept k) (ch_vars h)"

definition parent_of :: "string \<Rightarrow> string option" where
  "parent_of p =
     (if p = [] \<or> p = ''/'' then None
      else if CHR ''/'' \<in> set p then Some (let d = rev (tl (dropWhile (\<lambda>c. c \<noteq> CHR ''/'') (rev p))) in if d = [] then ''/'' else d)
      else Some [])"

definition orkia_sh_path :: "CageHost \<Rightarrow> string option" where
  "orkia_sh_path h =
     (case (case env_var h ''ORKIA_SH_BIN'' of Some p \<Rightarrow> if ch_is_file h p then Some p else None | None \<Rightarrow> None) of
        Some p \<Rightarrow> Some p
      | None \<Rightarrow>
         (case ch_exe h of
            None \<Rightarrow> None
          | Some exe \<Rightarrow>
             (case parent_of exe of
                None \<Rightarrow> None
              | Some d \<Rightarrow> (let s = push_path d ''orkia-sh'' in if ch_is_file h s then Some s else None))))"

definition apply_advisory_shell :: "CageHost \<Rightarrow> (string \<times> string) list \<Rightarrow> (string \<times> string) list" where
  "apply_advisory_shell h env =
     (case orkia_sh_path h of
        None \<Rightarrow> env
      | Some sh \<Rightarrow>
         (let env1 = hm_insert ''SHELL'' sh env
          in case parent_of sh of
               None \<Rightarrow> env1
             | Some d \<Rightarrow> hm_insert ''PATH'' (d @ '':'' @ (case env_var h ''PATH'' of Some p \<Rightarrow> p | None \<Rightarrow> [])) env1))"

subsection \<open>Launching\<close>

text \<open>What the launcher ends in: an error, a dump of the profile, or the program it becomes.\<close>

datatype CageEnd = CE_Error "string list" | CE_Dump string | CE_Exec string "string list" "(string \<times> string) list"

definition launch_macos :: "CageHost \<Rightarrow> string \<Rightarrow> string list \<Rightarrow> Policy \<Rightarrow> string \<Rightarrow> CageEnd" where
  "launch_macos h program agent_args policy policy_path =
     (case build_profile_spec h program policy of
        Inl e \<Rightarrow> CE_Error e
      | Inr spec \<Rightarrow>
         (let profile = build_profile spec
          in if env_var h ''ORKIA_CAGE_DEBUG_PROFILE'' \<noteq> None then CE_Dump profile
             else CE_Exec ''/usr/bin/sandbox-exec'' ([''-p'', profile, program] @ agent_args)
                    (hm_insert ''ORKIA_CAGE_POLICY'' policy_path (apply_advisory_shell h (allowed_env h)))))"

record CageCodec =
  cg_parse :: "string \<Rightarrow> (string, Policy) result"
  cg_print :: "Policy \<Rightarrow> (string, string) result"
  cg_unlocks :: "string \<Rightarrow> UnlockStore option"
  cg_pending :: "string \<Rightarrow> PendingStore option"
  cg_pending_print :: "PendingStore \<Rightarrow> (string, string) result"

definition split_agent :: "string list \<Rightarrow> (string list, string \<times> string list) result" where
  "split_agent agent =
     (case agent of
        program # rest \<Rightarrow> Ok (program, rest)
      | [] \<Rightarrow> Err [''no agent command '' @ [CHR 0xE2, CHR 0x80, CHR 0x94] @ '' expected: orkia-cage --policy <PATH> -- <program> [args...]''])"

text \<open>The file at a path, as the component lists of the file system know it.\<close>

definition cage_load_policy :: "CageCodec \<Rightarrow> CageHost \<Rightarrow> Io \<Rightarrow> fs \<Rightarrow> string \<Rightarrow> (string list, Policy) result" where
  "cage_load_policy cg h io fs p =
     (if \<not> ch_exists h p then Err [''policy file not found: '' @ p]
      else case (io_err io ''cage_policy'' Read, fs (path_comps p)) of
             (None, Some raw) \<Rightarrow> (case cg_parse cg raw of Inr pol \<Rightarrow> Ok pol | Inl e \<Rightarrow> Err [''parsing policy file '' @ p, e])
           | (Some e, _) \<Rightarrow> Err [''reading policy file '' @ p, e]
           | (None, None) \<Rightarrow> Err [''reading policy file '' @ p, ''No such file or directory''])"

definition home_file :: "CageHost \<Rightarrow> string \<Rightarrow> string" where
  "home_file h rel = push_path (case env_var h ''HOME'' of Some hm \<Rightarrow> hm | None \<Rightarrow> []) rel"

definition trust_scope :: "(path \<Rightarrow> bool) \<Rightarrow> CageHost \<Rightarrow> TrustScope" where
  "trust_scope is_root h =
     \<lparr>ts_agent = (case env_var h ''ORKIA_AGENT_NAME'' of Some a \<Rightarrow> a | None \<Rightarrow> []),
      ts_project = (case ch_cwd h of Inr cwd \<Rightarrow> resolve_project_id is_root (path_comps cwd) | Inl _ \<Rightarrow> None)\<rparr>"

definition effective_policy_path :: "CageCodec \<Rightarrow> CageHost \<Rightarrow> Io \<Rightarrow> fs \<Rightarrow> string \<Rightarrow> Policy \<Rightarrow> Policy \<Rightarrow> fs \<times> (string list, string) result" where
  "effective_policy_path cg h io fs canonical policy base =
     (if policy = base then (fs, Ok canonical)
      else
        (let run_dir = home_file h ''.orkia/run'';
             key = (case env_var h ''ORKIA_JOB_ID'' of Some i \<Rightarrow> i | None \<Rightarrow> show_nat (ch_pid h));
             p = push_path run_dir (''cage-policy.'' @ key @ ''.toml'')
         in case io_err io ''cage_run_dir'' MkDir of
              Some e \<Rightarrow> (fs, Err [''create ~/.orkia/run for promoted policy'', e])
            | None \<Rightarrow>
               (case cg_print cg policy of
                  Inl e \<Rightarrow> (fs, Err [''serialize promoted policy'', e])
                | Inr body \<Rightarrow>
                   (case fs_fill io ''cage_promoted'' ''cage_promoted'' (path_comps p) body fs of
                      (fs1, Inl (_, e)) \<Rightarrow> (fs1, Err [''write promoted policy '' @ p, e])
                    | (fs1, Inr _) \<Rightarrow> (fs1, Ok p)))))"

definition surface_eligibility ::
  "CageCodec \<Rightarrow> (Policy \<Rightarrow> TrustScope \<Rightarrow> UnlockStore \<Rightarrow> TrustKey list) \<Rightarrow> CageHost \<Rightarrow> Io \<Rightarrow> Policy \<Rightarrow> TrustScope \<Rightarrow> UnlockStore \<Rightarrow> fs \<Rightarrow> fs" where
  "surface_eligibility cg eligibility h io base sc unlocks fs =
     (case ts_project sc of
        None \<Rightarrow> fs
      | Some project \<Rightarrow>
         (let agent = trim (ts_agent sc); p = path_comps (home_file h ''.orkia/trust/pending.json'')
          in if agent = [] then fs
             else (case update_scope (pending_load (cg_pending cg) io fs p) agent project (eligibility base sc unlocks) of
                     (pending, True) \<Rightarrow> fst (pending_save (cg_pending_print cg) io fs p pending)
                   | (_, False) \<Rightarrow> fs)))"

text \<open>The launcher: everything up to the platform's way of running the agent. The project is put into its own environment first, for the shim to report.\<close>

definition with_project :: "(path \<Rightarrow> bool) \<Rightarrow> CageHost \<Rightarrow> CageHost" where
  "with_project is_root h =
     (case ts_project (trust_scope is_root h) of Some p \<Rightarrow> h\<lparr>ch_vars := hm_insert ''ORKIA_PROJECT_ID'' p (ch_vars h)\<rparr> | None \<Rightarrow> h)"

definition cage_run ::
  "CageCodec \<Rightarrow> TrustAdjuster \<Rightarrow> (Policy \<Rightarrow> TrustScope \<Rightarrow> UnlockStore \<Rightarrow> TrustKey list) \<Rightarrow> (path \<Rightarrow> bool) \<Rightarrow>
   (CageHost \<Rightarrow> string \<Rightarrow> string list \<Rightarrow> Policy \<Rightarrow> string \<Rightarrow> 'e) \<Rightarrow> CageHost \<Rightarrow> Io \<Rightarrow> string \<Rightarrow> string list \<Rightarrow> fs \<Rightarrow> fs \<times> (string list, 'e) result" where
  "cage_run cg adjust eligibility is_root launch h io policy_arg agent fs =
     (case split_agent agent of
        Inl e \<Rightarrow> (fs, Err e)
      | Inr (program, agent_args) \<Rightarrow>
         (case cage_load_policy cg h io fs policy_arg of
            Inl e \<Rightarrow> (fs, Err e)
          | Inr base \<Rightarrow>
             (let sc = trust_scope is_root h;
                  h1 = with_project is_root h;
                  unlocks = unlock_load (cg_unlocks cg) io fs (path_comps (home_file h1 ''.orkia/trust/unlocks.json''));
                  policy = apply_trust base sc adjust unlocks;
                  fs1 = surface_eligibility cg eligibility h1 io base sc unlocks fs;
                  canonical = (case ch_canon h1 policy_arg of Some c \<Rightarrow> c | None \<Rightarrow> policy_arg)
              in case effective_policy_path cg h1 io fs1 canonical policy base of
                   (fs2, Inl e) \<Rightarrow> (fs2, Err e)
                 | (fs2, Inr policy_path) \<Rightarrow> (fs2, Ok (launch h1 program agent_args policy policy_path)))))"

section \<open>What the profile says\<close>

text \<open>The reference for the text: how the profile language is read. Characters are grouped into tokens, where a semicolon starts a comment that ends with the
  line and a quoted string may hold escapes; tokens are grouped by parentheses.\<close>

datatype Tok = LP | RP | Atom string | Str string

datatype LexState = LX_Space | LX_Comment | LX_Atom string | LX_Str string | LX_Esc string

definition is_delim :: "char \<Rightarrow> bool" where
  "is_delim c \<longleftrightarrow> c \<in> {CHR '' '', NL, CHR 0x09, CHR 0x0D, CHR ''('', CHR '')'', DQ, CHR '';''}"

definition lex_space :: "Tok list \<Rightarrow> char \<Rightarrow> LexState \<times> Tok list" where
  "lex_space ts c =
     (if c \<in> {CHR '' '', NL, CHR 0x09, CHR 0x0D} then (LX_Space, ts)
      else if c = CHR '';'' then (LX_Comment, ts)
      else if c = CHR ''('' then (LX_Space, ts @ [LP])
      else if c = CHR '')'' then (LX_Space, ts @ [RP])
      else if c = DQ then (LX_Str [], ts)
      else (LX_Atom [c], ts))"

fun lex_step :: "LexState \<times> Tok list \<Rightarrow> char \<Rightarrow> LexState \<times> Tok list" where
  "lex_step (LX_Space, ts) c = lex_space ts c"
| "lex_step (LX_Comment, ts) c = (if c = NL then LX_Space else LX_Comment, ts)"
| "lex_step (LX_Atom a, ts) c = (if is_delim c then lex_space (ts @ [Atom a]) c else (LX_Atom (a @ [c]), ts))"
| "lex_step (LX_Str a, ts) c = (if c = DQ then (LX_Space, ts @ [Str a]) else if c = BS then (LX_Esc a, ts) else (LX_Str (a @ [c]), ts))"
| "lex_step (LX_Esc a, ts) c = (LX_Str (a @ [if c = CHR ''n'' then NL else if c = CHR ''t'' then CHR 0x09 else c]), ts)"

datatype Sx = SA string | SS string | SL "Sx list"

fun sx_step :: "Sx list list \<Rightarrow> Tok \<Rightarrow> Sx list list" where
  "sx_step (cur # up) (Atom a) = (cur @ [SA a]) # up"
| "sx_step (cur # up) (Str s) = (cur @ [SS s]) # up"
| "sx_step st LP = [] # st"
| "sx_step (cur # up1 # up) RP = (up1 @ [SL cur]) # up"
| "sx_step st t = st"

definition read_profile :: "string \<Rightarrow> Sx list option" where
  "read_profile s =
     (case foldl lex_step (LX_Space, []) (s @ [NL]) of
        (LX_Space, ts) \<Rightarrow> (case foldl sx_step [[]] ts of [rules] \<Rightarrow> Some rules | _ \<Rightarrow> None)
      | _ \<Rightarrow> None)"

text \<open>A line of text that reads as these expressions, whatever comes before it.\<close>

definition reads :: "string \<Rightarrow> Tok list \<Rightarrow> bool" where
  "reads s ts \<longleftrightarrow> (\<forall>acc. foldl lex_step (LX_Space, acc) (s @ [NL]) = (LX_Space, acc @ ts))"

lemma lex_escaped: "foldl lex_step (LX_Str a, ts) (concat (map escape_char s)) = (LX_Str (a @ s), ts)"
  by (induction s arbitrary: a) (simp_all add: escape_char_def)

lemma lex_escape_sbpl: "foldl lex_step (LX_Space, ts) (escape_sbpl s) = (LX_Space, ts @ [Str s])"
  by (simp add: escape_sbpl_def lex_escaped lex_space_def)

fun sx_tokens :: "Sx \<Rightarrow> Tok list" where
  "sx_tokens (SA a) = [Atom a]"
| "sx_tokens (SS s) = [Str s]"
| "sx_tokens (SL xs) = [LP] @ concat (map sx_tokens xs) @ [RP]"

lemma sx_tokens_read: "foldl sx_step (cur # up) (sx_tokens x) = (cur @ [x]) # up"
proof (induction x arbitrary: cur up)
  case (SL xs)
  have "foldl sx_step (t # up') (concat (map sx_tokens ys)) = (t @ ys) # up'" if "set ys \<subseteq> set xs" for ys t up'
    using that SL.IH by (induction ys arbitrary: t) auto
  from this [of xs "[]" "cur # up"] show ?case by simp
qed simp_all

lemma sxs_read: "foldl sx_step (cur # up) (concat (map sx_tokens xs)) = (cur @ xs) # up"
  by (induction xs arbitrary: cur) (simp_all add: sx_tokens_read)

lemma reads_lines: "list_all2 reads ls tss \<Longrightarrow> foldl lex_step (LX_Space, acc) (concat (map (\<lambda>l. l @ [NL]) ls)) = (LX_Space, acc @ concat tss)"
  by (induction ls tss arbitrary: acc rule: list_all2_induct) (simp_all add: reads_def)

lemma join_lines: "ls \<noteq> [] \<Longrightarrow> join [NL] ls @ [NL] = concat (map (\<lambda>l. l @ [NL]) ls)"
  by (induction ls rule: induct_list012) simp_all

lemma read_lines:
  assumes "ls \<noteq> []" and "list_all2 reads ls tss" and "concat tss = concat (map sx_tokens xs)"
  shows "read_profile (join [NL] ls) = Some xs"
  using reads_lines [OF assms(2), of "[]"] sxs_read [of "[]" "[]" xs] by (simp add: read_profile_def join_lines [OF assms(1)] assms(3))

text \<open>The rules the text stands for: deny by default, then what is allowed, then what is denied again.\<close>

definition sx_rule :: "string \<Rightarrow> string list \<Rightarrow> Sx list \<Rightarrow> Sx" where
  "sx_rule verb ops fs = SL (SA verb # map SA ops @ fs)"

definition sx_path :: "string \<Rightarrow> string \<Rightarrow> Sx" where
  "sx_path kind p = SL [SA kind, SS p]"

definition sx_message :: "ProfileSpec \<Rightarrow> Sx" where
  "sx_message spec = SL [SA ''with'', SA ''message'', SS (pf_log_tag spec)]"

definition device_ops :: "string list" where
  "device_ops = [''file-read*'', ''file-write-data'', ''file-ioctl'']"

definition plain_allows :: "Sx list" where
  "plain_allows =
     map (\<lambda>op. sx_rule ''allow'' [op] []) [''process-fork'', ''process-exec''] @
     map (\<lambda>op. sx_rule ''allow'' [op] [SL [SA ''target'', SA ''same-sandbox'']]) [''process-info*'', ''signal'', ''mach-priv-task-port''] @
     map (\<lambda>op. sx_rule ''allow'' [op] [])
       [''sysctl-read'', ''ipc-posix-shm'', ''ipc-posix-sem'', ''user-preference-read'', ''network*'', ''system-socket''] @
     [sx_rule ''allow'' [''mach-lookup''] (map (\<lambda>n. SL [SA ''global-name'', SS n]) mach_names)]"

definition device_allows :: "Sx list" where
  "device_allows =
     map (\<lambda>d. sx_rule ''allow'' device_ops [sx_path ''literal'' d]) char_devices @
     [sx_rule ''allow'' device_ops [SL [SA ''regex'', SA ''#'', SS ''^/dev/ttys[0-9]+$'']], sx_rule ''allow'' device_ops [sx_path ''subpath'' ''/dev/fd'']]"

definition sx_read :: "string \<Rightarrow> Sx" where "sx_read p = sx_rule ''allow'' [''file-read*''] [sx_path ''subpath'' p]"
definition sx_write :: "string \<Rightarrow> Sx" where "sx_write p = sx_rule ''allow'' [''file-write*''] [sx_path ''subpath'' p]"

definition file_allows :: "ProfileSpec \<Rightarrow> Sx list" where
  "file_allows spec =
     [sx_rule ''allow'' [''file-read*''] [sx_path ''literal'' ''/''],
      sx_rule ''allow'' [''file-read-metadata''] [SL [SA ''vnode-type'', SA ''DIRECTORY'']],
      sx_rule ''allow'' [''file-read-metadata''] [SL [SA ''vnode-type'', SA ''SYMLINK'']]] @
     map sx_read RUNTIME_READ_ROOTS @ [sx_rule ''allow'' [''file-read*''] [sx_path ''literal'' ''/var/db/xcode_select_link'']] @
     map sx_read ((if pf_workspace_read spec then [pf_workspace spec] else []) @ pf_read_only spec) @
     (if pf_workspace_read spec \<and> pf_workspace_write spec then [sx_write (pf_workspace spec)] else []) @
     concat (map (\<lambda>rw. [sx_read rw, sx_write rw]) (pf_read_write spec))"

definition denies_of :: "ProfileSpec \<Rightarrow> Sx list" where
  "denies_of spec =
     map (\<lambda>p. sx_rule ''deny'' [''file-write*''] [sx_path ''subpath'' p, sx_message spec]) (pf_deny_write spec) @
     map (\<lambda>b. sx_rule ''deny'' [''process-exec*''] [sx_path ''literal'' b, sx_message spec]) (pf_deny_exec spec)"

definition profile_rules :: "ProfileSpec \<Rightarrow> Sx list" where
  "profile_rules spec =
     [SL [SA ''version'', SA ''1''], sx_rule ''deny'' [''default''] [sx_message spec]] @ plain_allows @ device_allows @ file_allows spec @ denies_of spec"

definition lexes :: "string \<Rightarrow> Tok list \<Rightarrow> bool" where
  "lexes s ts \<longleftrightarrow> (\<forall>acc. foldl lex_step (LX_Space, acc) s = (LX_Space, acc @ ts))"

lemma lexes_append: "lexes a ta \<Longrightarrow> lexes b tb \<Longrightarrow> lexes (a @ b) (ta @ tb)"
  by (simp add: lexes_def)

lemma reads_lexes: "reads s ts \<longleftrightarrow> lexes (s @ [NL]) ts"
  by (simp add: reads_def lexes_def)

lemma lexes_escape: "lexes (escape_sbpl s) [Str s]"
  by (simp add: lexes_def lex_escape_sbpl)

lemma reads_around:
  assumes "lexes a ta" and "lexes (b @ [NL]) tb"
  shows "reads (a @ escape_sbpl s @ b) (ta @ [Str s] @ tb)"
  using lexes_append [OF assms(1) lexes_append [OF lexes_escape assms(2)]] by (simp add: reads_lexes)

lemma reads_around2:
  assumes "lexes a ta" and "lexes b tb" and "lexes (c @ [NL]) tc"
  shows "reads (a @ escape_sbpl s @ b @ escape_sbpl t @ c) (ta @ [Str s] @ tb @ [Str t] @ tc)"
  using lexes_append [OF assms(1) lexes_append [OF lexes_escape lexes_append [OF assms(2) lexes_append [OF lexes_escape assms(3)]]]] by (simp add: reads_lexes)

lemmas lex_simps = lexes_def lex_space_def is_delim_def

lemma reads_comment: "NL \<notin> set s \<Longrightarrow> reads (CHR '';'' # s) []"
proof -
  have "foldl lex_step (LX_Comment, acc) s = (LX_Comment, acc)" if "NL \<notin> set s" for acc using that by (induction s) auto
  then show "NL \<notin> set s \<Longrightarrow> reads (CHR '';'' # s) []" by (simp add: reads_def lex_space_def)
qed

lemma reads_path_rule:
  "reads (allow_read p) (sx_tokens (sx_read p))" "reads (allow_write p) (sx_tokens (sx_write p))"
  "reads (''(allow file-read* file-write-data file-ioctl (literal '' @ escape_sbpl p @ ''))'') (sx_tokens (sx_rule ''allow'' device_ops [sx_path ''literal'' p]))"
  "reads (''  (global-name '' @ escape_sbpl p @ '')'') (sx_tokens (SL [SA ''global-name'', SS p]))"
proof -
  have e: "lexes (''))'' @ [NL]) [RP, RP]" "lexes ('')'' @ [NL]) [RP]" by (simp_all add: lex_simps)
  have "lexes ''(allow file-read* (subpath '' [LP, Atom ''allow'', Atom ''file-read*'', LP, Atom ''subpath'']" by (simp add: lex_simps)
  from reads_around [OF this e(1)] show "reads (allow_read p) (sx_tokens (sx_read p))" by (simp add: allow_read_def sx_read_def sx_rule_def sx_path_def)
  have "lexes ''(allow file-write* (subpath '' [LP, Atom ''allow'', Atom ''file-write*'', LP, Atom ''subpath'']" by (simp add: lex_simps)
  from reads_around [OF this e(1)] show "reads (allow_write p) (sx_tokens (sx_write p))" by (simp add: allow_write_def sx_write_def sx_rule_def sx_path_def)
  have "lexes ''(allow file-read* file-write-data file-ioctl (literal ''
      [LP, Atom ''allow'', Atom ''file-read*'', Atom ''file-write-data'', Atom ''file-ioctl'', LP, Atom ''literal'']" by (simp add: lex_simps)
  from reads_around [OF this e(1)]
  show "reads (''(allow file-read* file-write-data file-ioctl (literal '' @ escape_sbpl p @ ''))'') (sx_tokens (sx_rule ''allow'' device_ops [sx_path ''literal'' p]))"
    by (simp add: sx_rule_def sx_path_def device_ops_def)
  have "lexes ''  (global-name '' [LP, Atom ''global-name'']" by (simp add: lex_simps)
  from reads_around [OF this e(2)] show "reads (''  (global-name '' @ escape_sbpl p @ '')'') (sx_tokens (SL [SA ''global-name'', SS p]))" by simp
qed

lemma reads_deny_rule:
  assumes "m = ''(with message '' @ escape_sbpl (pf_log_tag spec) @ '')''"
  shows "reads (''(deny file-write* (subpath '' @ escape_sbpl p @ '') '' @ m @ '')'') (sx_tokens (sx_rule ''deny'' [''file-write*''] [sx_path ''subpath'' p, sx_message spec]))"
    "reads (''(deny process-exec* (literal '' @ escape_sbpl p @ '') '' @ m @ '')'') (sx_tokens (sx_rule ''deny'' [''process-exec*''] [sx_path ''literal'' p, sx_message spec]))"
    "reads (''(deny default '' @ m @ '')'') (sx_tokens (sx_rule ''deny'' [''default''] [sx_message spec]))"
proof -
  have e: "lexes (''))'' @ [NL]) [RP, RP]" and w: "lexes '') (with message '' [RP, LP, Atom ''with'', Atom ''message'']" by (simp_all add: lex_simps)
  have "lexes ''(deny file-write* (subpath '' [LP, Atom ''deny'', Atom ''file-write*'', LP, Atom ''subpath'']" by (simp add: lex_simps)
  from reads_around2 [OF this w e, of p "pf_log_tag spec"]
  show "reads (''(deny file-write* (subpath '' @ escape_sbpl p @ '') '' @ m @ '')'') (sx_tokens (sx_rule ''deny'' [''file-write*''] [sx_path ''subpath'' p, sx_message spec]))"
    by (simp add: assms sx_rule_def sx_path_def sx_message_def)
  have "lexes ''(deny process-exec* (literal '' [LP, Atom ''deny'', Atom ''process-exec*'', LP, Atom ''literal'']" by (simp add: lex_simps)
  from reads_around2 [OF this w e, of p "pf_log_tag spec"]
  show "reads (''(deny process-exec* (literal '' @ escape_sbpl p @ '') '' @ m @ '')'') (sx_tokens (sx_rule ''deny'' [''process-exec*''] [sx_path ''literal'' p, sx_message spec]))"
    by (simp add: assms sx_rule_def sx_path_def sx_message_def)
  have "lexes ''(deny default (with message '' [LP, Atom ''deny'', Atom ''default'', LP, Atom ''with'', Atom ''message'']" by (simp add: lex_simps)
  from reads_around [OF this e, of "pf_log_tag spec"]
  show "reads (''(deny default '' @ m @ '')'') (sx_tokens (sx_rule ''deny'' [''default''] [sx_message spec]))"
    by (simp add: assms sx_rule_def sx_message_def)
qed

text \<open>Lines that read as these expressions.\<close>

definition text_reads :: "string list \<Rightarrow> Sx list \<Rightarrow> bool" where
  "text_reads ls xs \<longleftrightarrow> (\<exists>tss. list_all2 reads ls tss \<and> concat tss = concat (map sx_tokens xs))"

lemma text_reads_append: "text_reads a xa \<Longrightarrow> text_reads b xb \<Longrightarrow> text_reads (a @ b) (xa @ xb)"
  unfolding text_reads_def by (metis concat_append list_all2_appendI map_append)

lemma text_reads_one: "reads l (sx_tokens x) \<Longrightarrow> text_reads [l] [x]" "reads l [] \<Longrightarrow> text_reads [l] []"
  unfolding text_reads_def by (rule exI [of _ "[sx_tokens x]"], simp) (rule exI [of _ "[[]]"], simp)

lemma text_reads_Cons: "reads l (sx_tokens x) \<Longrightarrow> text_reads ls xs \<Longrightarrow> text_reads (l # ls) (x # xs)"
  using text_reads_append [OF text_reads_one(1)] by fastforce

lemma text_reads_Nil: "text_reads [] []"
  by (simp add: text_reads_def)

lemma text_reads_map: "(\<And>p. reads (f p) (sx_tokens (g p))) \<Longrightarrow> text_reads (map f ps) (map g ps)"
  by (induction ps) (simp_all add: text_reads_Nil text_reads_Cons)

lemma text_reads_pairs:
  "(\<And>p. reads (f p) (sx_tokens (g p))) \<Longrightarrow> (\<And>p. reads (f' p) (sx_tokens (g' p))) \<Longrightarrow>
   text_reads (concat (map (\<lambda>p. [f p, f' p]) ps)) (concat (map (\<lambda>p. [g p, g' p]) ps))"
  by (induction ps) (simp_all add: text_reads_Nil text_reads_Cons)

lemma text_reads_group:
  assumes "reads a ([LP] @ ta)" and "text_reads ls xs" and "reads z [RP]" and "ta = concat (map sx_tokens ya)"
  shows "text_reads ([a] @ ls @ [z]) [SL (ya @ xs)]"
proof -
  obtain tss where "list_all2 reads ls tss" "concat tss = concat (map sx_tokens xs)" using assms(2) by (auto simp: text_reads_def)
  then have "list_all2 reads ([a] @ ls @ [z]) ([[LP] @ ta] @ tss @ [[RP]])" "concat ([[LP] @ ta] @ tss @ [[RP]]) = concat (map sx_tokens [SL (ya @ xs)])"
    using assms by (simp_all add: list_all2_appendI)
  then show ?thesis unfolding text_reads_def by blast
qed

lemma text_reads_preamble: "text_reads preamble_rules (butlast plain_allows)"
  unfolding preamble_rules_def plain_allows_def
  by (simp add: sx_rule_def) (intro text_reads_Cons text_reads_Nil; simp add: reads_lexes lex_simps)

lemma text_reads_mach:
  "text_reads ([''(allow mach-lookup''] @ map (\<lambda>name. ''  (global-name '' @ escape_sbpl name @ '')'') mach_names @ [''  )'']) [last plain_allows]"
proof -
  have "reads ''(allow mach-lookup'' ([LP] @ [Atom ''allow'', Atom ''mach-lookup''])" "reads ''  )'' [RP]" by (simp_all add: reads_lexes lex_simps)
  from text_reads_group [OF this(1) text_reads_map [of _ "\<lambda>n. SL [SA ''global-name'', SS n]" mach_names, OF reads_path_rule(4)] this(2), of "[SA ''allow'', SA ''mach-lookup'']"]
  show ?thesis by (simp add: plain_allows_def sx_rule_def)
qed

lemma text_reads_devices:
  "text_reads (map (\<lambda>dev. ''(allow file-read* file-write-data file-ioctl (literal '' @ escape_sbpl dev @ ''))'') char_devices @
     [''(allow file-read* file-write-data file-ioctl (regex #'' @ [DQ] @ ''^/dev/ttys[0-9]+$'' @ [DQ] @ ''))'',
      ''(allow file-read* file-write-data file-ioctl (subpath '' @ [DQ] @ ''/dev/fd'' @ [DQ] @ ''))'']) device_allows"
  unfolding device_allows_def
  by (intro text_reads_append text_reads_map text_reads_Cons text_reads_Nil reads_path_rule(3))
    (simp_all add: reads_lexes lex_simps sx_rule_def sx_path_def device_ops_def)

lemma text_reads_files:
  "text_reads (emit_read_rules spec @ (if pf_workspace_read spec \<and> pf_workspace_write spec then [allow_write (pf_workspace spec)] else []) @
     concat (map (\<lambda>rw. [allow_read rw, allow_write rw]) (pf_read_write spec))) (file_allows spec)"
proof -
  have lit: "reads (''(allow file-read* (literal '' @ [DQ] @ ''/'' @ [DQ] @ ''))'') (sx_tokens (sx_rule ''allow'' [''file-read*''] [sx_path ''literal'' ''/'']))"
    "reads ''(allow file-read-metadata (vnode-type DIRECTORY))'' (sx_tokens (sx_rule ''allow'' [''file-read-metadata''] [SL [SA ''vnode-type'', SA ''DIRECTORY'']]))"
    "reads ''(allow file-read-metadata (vnode-type SYMLINK))'' (sx_tokens (sx_rule ''allow'' [''file-read-metadata''] [SL [SA ''vnode-type'', SA ''SYMLINK'']]))"
    "reads (''(allow file-read* (literal '' @ [DQ] @ ''/var/db/xcode_select_link'' @ [DQ] @ ''))'')
       (sx_tokens (sx_rule ''allow'' [''file-read*''] [sx_path ''literal'' ''/var/db/xcode_select_link'']))"
    by (simp_all add: reads_lexes lex_simps sx_rule_def sx_path_def)
  have w: "text_reads (if pf_workspace_read spec \<and> pf_workspace_write spec then [allow_write (pf_workspace spec)] else [])
      (if pf_workspace_read spec \<and> pf_workspace_write spec then [sx_write (pf_workspace spec)] else [])"
    by (simp add: text_reads_one(1) reads_path_rule(2) text_reads_Nil)
  show ?thesis unfolding emit_read_rules_def file_allows_def append_assoc
    by (intro text_reads_append text_reads_Cons text_reads_map text_reads_pairs text_reads_Nil w lit reads_path_rule)
qed

lemma profile_text:
  assumes "NL \<notin> set (pf_log_tag spec)"
  shows "read_profile (build_profile spec) = Some (profile_rules spec)"
proof -
  define m where "m = ''(with message '' @ escape_sbpl (pf_log_tag spec) @ '')''"
  have c: "reads (''; orkia-cage SBPL '' @ [CHR 0xE2, CHR 0x80, CHR 0x94] @ '' tag '' @ pf_log_tag spec) []"
    using reads_comment [of "'' orkia-cage SBPL '' @ [CHR 0xE2, CHR 0x80, CHR 0x94] @ '' tag '' @ pf_log_tag spec"] assms by simp
  have v: "reads ''(version 1)'' (sx_tokens (SL [SA ''version'', SA ''1'']))" by (simp add: reads_lexes lex_simps)
  have h: "text_reads [''(version 1)'', ''(deny default '' @ m @ '')'', ''; orkia-cage SBPL '' @ [CHR 0xE2, CHR 0x80, CHR 0x94] @ '' tag '' @ pf_log_tag spec]
      [SL [SA ''version'', SA ''1''], sx_rule ''deny'' [''default''] [sx_message spec]]"
    by (intro text_reads_Cons v reads_deny_rule(3) m_def text_reads_one(2) c)
  have d: "text_reads (map (\<lambda>p. ''(deny file-write* (subpath '' @ escape_sbpl p @ '') '' @ m @ '')'') (pf_deny_write spec) @
      map (\<lambda>b. ''(deny process-exec* (literal '' @ escape_sbpl b @ '') '' @ m @ '')'') (pf_deny_exec spec)) (denies_of spec)"
    unfolding denies_of_def by (intro text_reads_append text_reads_map reads_deny_rule m_def)
  have p: "plain_allows = butlast plain_allows @ [last plain_allows]" by (simp add: plain_allows_def)
  have "text_reads (profile_lines spec) (profile_rules spec)"
    using text_reads_append [OF h text_reads_append [OF text_reads_preamble text_reads_append [OF text_reads_mach text_reads_append [OF text_reads_devices
      text_reads_append [OF text_reads_files [of spec] d]]]]]
    unfolding profile_lines_def profile_rules_def emit_preamble_def emit_write_rules_def Let_def m_def [symmetric]
    by (subst p) (simp only: append_assoc append.simps)
  moreover have "profile_lines spec \<noteq> []" by (simp add: profile_lines_def emit_preamble_def Let_def)
  ultimately show ?thesis unfolding build_profile_def text_reads_def using read_lines by blast
qed

text \<open>How rules decide: of the rules that apply to an access the last one counts, and without any the access is denied. A rule applies when one of its operations
  covers the access's and, if it has filters, one of them holds; \<open>with\<close> adds a message and no condition.\<close>

record Access =
  ac_op :: string
  ac_path :: string
  ac_below :: "string \<Rightarrow> bool"
  ac_vnode :: string
  ac_tty :: bool

fun filter_holds :: "Access \<Rightarrow> Sx \<Rightarrow> bool" where
  "filter_holds a (SL [SA k, SS s]) = (if k = ''literal'' then ac_path a = s else k = ''subpath'' \<and> ac_below a s)"
| "filter_holds a (SL [SA k, SA t]) = (k = ''vnode-type'' \<and> ac_vnode a = t)"
| "filter_holds a (SL [SA k, SA t, SS s]) = (k = ''regex'' \<and> ac_tty a)"
| "filter_holds a x = False"

fun op_covers :: "string \<Rightarrow> Sx \<Rightarrow> bool" where
  "op_covers op (SA pat) = (pat = ''default'' \<or> (if pat \<noteq> [] \<and> last pat = CHR ''*'' then prefix (butlast pat) op else pat = op))"
| "op_covers op x = False"

fun is_filter :: "Sx \<Rightarrow> bool" where
  "is_filter (SL (SA k # xs)) = (k \<noteq> ''with'')"
| "is_filter x = False"

fun applies :: "Access \<Rightarrow> Sx \<Rightarrow> bool" where
  "applies a (SL (SA v # xs)) =
     (v \<in> {''allow'', ''deny''} \<and> list_ex (op_covers (ac_op a)) xs \<and> (filter is_filter xs = [] \<or> list_ex (filter_holds a) (filter is_filter xs)))"
| "applies a x = False"

fun is_allow :: "Sx \<Rightarrow> bool" where
  "is_allow (SL (SA v # xs)) = (v = ''allow'')"
| "is_allow x = False"

definition permitted :: "Sx list \<Rightarrow> Access \<Rightarrow> bool" where
  "permitted rules a = foldl (\<lambda>ok r. if applies a r then is_allow r else ok) False rules"

lemma allow_block: "list_all is_allow rs \<Longrightarrow> foldl (\<lambda>ok r. if applies a r then is_allow r else ok) v rs = (v \<or> list_ex (applies a) rs)"
  by (induction rs arbitrary: v) auto

lemma deny_block:
  "list_all (\<lambda>r. \<not> is_allow r) rs \<Longrightarrow> foldl (\<lambda>ok r. if applies a r then is_allow r else ok) v rs = (v \<and> \<not> list_ex (applies a) rs)"
  by (induction rs arbitrary: v) auto

lemma list_ex_concat_map: "list_ex P (concat (map f xs)) \<longleftrightarrow> list_ex (\<lambda>x. list_ex P (f x)) xs"
  by (induction xs) simp_all

lemma list_ex_map_comp: "list_ex P (map f xs) \<longleftrightarrow> list_ex (\<lambda>x. P (f x)) xs"
  by (induction xs) simp_all

lemma list_ex_const [simp]: "list_ex (\<lambda>_. b) xs \<longleftrightarrow> b \<and> xs \<noteq> []" "list_ex (\<lambda>x. P x \<or> Q x) xs \<longleftrightarrow> list_ex P xs \<or> list_ex Q xs"
  by (induction xs) auto

lemma list_ex_eq [simp]: "list_ex ((=) x) xs \<longleftrightarrow> x \<in> set xs"
  by (induction xs) auto

lemma permitted_rules:
  "permitted (profile_rules spec) a \<longleftrightarrow>
     list_ex (applies a) (plain_allows @ device_allows @ file_allows spec) \<and> \<not> list_ex (applies a) (denies_of spec)"
proof -
  have "list_all is_allow (plain_allows @ device_allows @ file_allows spec)"
    by (auto simp: plain_allows_def device_allows_def file_allows_def sx_read_def sx_write_def sx_rule_def list_all_iff)
  moreover have "list_all (\<lambda>r. \<not> is_allow r) (denies_of spec)" by (auto simp: denies_of_def sx_rule_def list_all_iff)
  moreover have "foldl (\<lambda>ok r. if applies a r then is_allow r else ok) False [SL [SA ''version'', SA ''1''], sx_rule ''deny'' [''default''] [sx_message spec]] = False"
    by (simp add: sx_rule_def)
  ultimately show ?thesis unfolding permitted_def profile_rules_def
    using allow_block [of "plain_allows @ device_allows @ file_allows spec" a False] deny_block [of "denies_of spec" a]
    by (simp only: foldl_append append_assoc) simp
qed

definition on_device :: "Access \<Rightarrow> bool" where
  "on_device a \<longleftrightarrow> ac_path a \<in> set char_devices \<or> ac_tty a \<or> ac_below a ''/dev/fd''"

lemmas rule_simps = sx_rule_def sx_path_def sx_message_def device_ops_def sx_read_def sx_write_def list_ex_map_comp list_ex_concat_map

lemma write_allows:
  assumes "prefix ''file-write'' (ac_op a)"
  shows "list_ex (applies a) plain_allows = False"
    and "list_ex (applies a) device_allows \<longleftrightarrow> ac_op a = ''file-write-data'' \<and> on_device a"
    and "list_ex (applies a) (file_allows spec) \<longleftrightarrow>
      pf_workspace_read spec \<and> pf_workspace_write spec \<and> ac_below a (pf_workspace spec) \<or> list_ex (ac_below a) (pf_read_write spec)"
    and "list_ex (applies a) (denies_of spec) \<longleftrightarrow> list_ex (ac_below a) (pf_deny_write spec)"
proof -
  obtain r where r: "ac_op a = ''file-write'' @ r" using assms by (auto elim: prefixE)
  show "list_ex (applies a) plain_allows = False" by (simp add: plain_allows_def rule_simps r list_ex_iff)
  show "list_ex (applies a) device_allows \<longleftrightarrow> ac_op a = ''file-write-data'' \<and> on_device a"
    by (auto simp: device_allows_def rule_simps r on_device_def list_ex_iff)
  show "list_ex (applies a) (file_allows spec) \<longleftrightarrow>
      pf_workspace_read spec \<and> pf_workspace_write spec \<and> ac_below a (pf_workspace spec) \<or> list_ex (ac_below a) (pf_read_write spec)"
    by (cases "pf_workspace_read spec"; cases "pf_workspace_write spec") (simp_all add: file_allows_def rule_simps r RUNTIME_READ_ROOTS_def)
  show "list_ex (applies a) (denies_of spec) \<longleftrightarrow> list_ex (ac_below a) (pf_deny_write spec)"
    by (simp add: denies_of_def rule_simps r)
qed

lemma read_allows:
  assumes "ac_op a = ''file-read-data''"
  shows "list_ex (applies a) (plain_allows @ device_allows @ file_allows spec) \<longleftrightarrow>
      on_device a \<or> ac_path a \<in> {''/'', ''/var/db/xcode_select_link''} \<or>
      list_ex (ac_below a) (RUNTIME_READ_ROOTS @ pf_read_only spec @ pf_read_write spec) \<or>
      pf_workspace_read spec \<and> ac_below a (pf_workspace spec)"
    and "\<not> list_ex (applies a) (denies_of spec)"
proof -
  have "list_ex (applies a) plain_allows = False" by (simp add: plain_allows_def rule_simps assms list_ex_iff)
  moreover have "list_ex (applies a) device_allows \<longleftrightarrow> on_device a"
    by (auto simp: device_allows_def rule_simps assms on_device_def list_ex_iff)
  moreover have "list_ex (applies a) (file_allows spec) \<longleftrightarrow>
      ac_path a \<in> {''/'', ''/var/db/xcode_select_link''} \<or> list_ex (ac_below a) (RUNTIME_READ_ROOTS @ pf_read_only spec @ pf_read_write spec) \<or>
      pf_workspace_read spec \<and> ac_below a (pf_workspace spec)"
    by (cases "pf_workspace_read spec"; cases "pf_workspace_write spec") (simp_all add: file_allows_def rule_simps assms, blast+)
  ultimately show "list_ex (applies a) (plain_allows @ device_allows @ file_allows spec) \<longleftrightarrow>
      on_device a \<or> ac_path a \<in> {''/'', ''/var/db/xcode_select_link''} \<or>
      list_ex (ac_below a) (RUNTIME_READ_ROOTS @ pf_read_only spec @ pf_read_write spec) \<or>
      pf_workspace_read spec \<and> ac_below a (pf_workspace spec)"
    unfolding list_ex_append by blast
  show "\<not> list_ex (applies a) (denies_of spec)" by (simp add: denies_of_def rule_simps assms)
qed

lemma exec_allows:
  assumes "ac_op a = ''process-exec''"
  shows "list_ex (applies a) (plain_allows @ device_allows @ file_allows spec)" and "list_ex (applies a) (denies_of spec) \<longleftrightarrow> ac_path a \<in> set (pf_deny_exec spec)"
  by (simp add: plain_allows_def rule_simps assms) (simp add: denies_of_def rule_simps assms)

text \<open>What is relied on of the sandbox: it reads the text of a profile by the rules above and decides an access by the rules it read. Whether a path lies below a
  directory, and whether it matches the pattern of the terminals, is the sandbox's to say.\<close>

definition reads_profiles :: "(string \<Rightarrow> Access \<Rightarrow> bool) \<Rightarrow> bool" where
  "reads_profiles sandbox \<longleftrightarrow> (\<forall>txt rules a. read_profile txt = Some rules \<longrightarrow> sandbox txt a = permitted rules a)"

text \<open>The text of a profile confines the agent, whatever characters its paths contain. The agent may write below the workspace, if it may both read
  and write there, and below the listed state directories, but never below a protected path; to devices it may write data. It may read the devices, the
  system's runtime, the listed paths, and the workspace if it may read there. It may execute every binary but those denied by name. The tag must not
  hold a line break, and the sandbox must read profiles as the language says.\<close>

lemma profile_confines:
  assumes "reads_profiles sandbox" and "NL \<notin> set (pf_log_tag spec)"
  shows "(prefix ''file-write'' (ac_op a) \<longrightarrow>
       (sandbox (build_profile spec) a \<longleftrightarrow> \<not> list_ex (ac_below a) (pf_deny_write spec) \<and>
          (ac_op a = ''file-write-data'' \<and> on_device a \<or> list_ex (ac_below a) (pf_read_write spec) \<or>
           pf_workspace_read spec \<and> pf_workspace_write spec \<and> ac_below a (pf_workspace spec)))) \<and>
     (ac_op a = ''file-read-data'' \<longrightarrow>
       (sandbox (build_profile spec) a \<longleftrightarrow> on_device a \<or> ac_path a \<in> {''/'', ''/var/db/xcode_select_link''} \<or>
          list_ex (ac_below a) (RUNTIME_READ_ROOTS @ pf_read_only spec @ pf_read_write spec) \<or>
          pf_workspace_read spec \<and> ac_below a (pf_workspace spec))) \<and>
     (ac_op a = ''process-exec'' \<longrightarrow> (sandbox (build_profile spec) a \<longleftrightarrow> ac_path a \<notin> set (pf_deny_exec spec)))"
proof -
  have "sandbox (build_profile spec) a = permitted (profile_rules spec) a"
    using assms(1) profile_text [OF assms(2)] by (simp add: reads_profiles_def)
  then show ?thesis unfolding permitted_rules
    using write_allows [of a] read_allows [of a spec] exec_allows [of a spec] by (simp only: list_ex_append) blast
qed

end
