(* ===== verification/Cage_Rootfs.thy ===== *)
theory Cage_Rootfs
  imports Cage_Profile "HOL-Library.List_Lexorder" "HOL-Library.Char_ord"
begin

section \<open>The minimal root file system\<close>

text \<open>
  Models \<^verbatim>\<open>bins/orkia-cage/src/toolset.rs\<close>, \<^verbatim>\<open>linux_sb.rs\<close> and the Linux parts of \<^verbatim>\<open>lib.rs\<close>: on Linux the launcher enters new
  namespaces, builds a root file system that holds only what is listed, makes it the root, and becomes the agent. The system calls it makes are kept in a
  list, the trace; which of them fail, and what exists after them, is up to a \<open>LxKernel\<close>. Resolving a host path does not depend on the calls.
\<close>

subsection \<open>The tools of the cage\<close>

record ToolBind =
  tb_link :: string
  tb_real :: string

definition BASE_TOOLS :: "string list" where
  "BASE_TOOLS =
     [''sh'', ''bash'', ''dash'', ''env'', ''printenv'', ''ls'', ''cat'', ''cp'', ''mv'', ''rm'', ''mkdir'', ''rmdir'', ''ln'', ''chmod'', ''chown'', ''chgrp'',
      ''touch'', ''pwd'', ''echo'', ''printf'', ''sed'', ''grep'', ''egrep'', ''fgrep'', ''awk'', ''gawk'', ''cut'', ''tr'', ''head'', ''tail'', ''sort'', ''uniq'',
      ''wc'', ''find'', ''xargs'', ''which'', ''basename'', ''dirname'', ''readlink'', ''realpath'', ''stat'', ''date'', ''sleep'', ''true'', ''false'', ''test'',
      ''expr'', ''tee'', ''diff'', ''cmp'', ''less'', ''more'', ''tar'', ''gzip'', ''gunzip'', ''zcat'', ''bzip2'', ''xz'', ''file'', ''id'', ''whoami'',
      ''groups'', ''uname'', ''hostname'', ''ps'', ''kill'', ''md5sum'', ''sha256sum'', ''base64'', ''seq'', ''tac'', ''nl'', ''paste'', ''comm'', ''split'',
      ''du'', ''df'', ''mktemp'', ''tty'', ''stty'']"

definition AGENT_COMMON :: "string list" where
  "AGENT_COMMON = [''git'', ''rg'', ''node'', ''python3'', ''jq'']"

definition BIN_SEARCH :: "string list" where
  "BIN_SEARCH = [''/usr/bin'', ''/usr/local/bin'', ''/usr/sbin'', ''/usr/local/sbin'', ''/bin'', ''/sbin'']"

definition capability_binary :: "string \<Rightarrow> string" where
  "capability_binary name = takeWhile (\<lambda>c. c \<noteq> CHR ''.'') name"

text \<open>A \<^verbatim>\<open>BTreeSet\<close> of names is read in their order.\<close>

definition tool_names :: "string list \<Rightarrow> string list \<Rightarrow> string list" where
  "tool_names names extra = sort (remdups (BASE_TOOLS @ AGENT_COMMON @ map capability_binary names @ filter (\<lambda>s. s \<noteq> []) extra))"

definition extra_tools :: "CageHost \<Rightarrow> string list" where
  "extra_tools h =
     filter (\<lambda>s. s \<noteq> []) (map trim
       (concat (map (split_on (CHR '','')) (split_on (CHR '':'') (case env_var h ''ORKIA_CAGE_EXTRA_TOOLS'' of Some v \<Rightarrow> v | None \<Rightarrow> [])))))"

definition tool_at :: "CageHost \<Rightarrow> string \<Rightarrow> ToolBind" where
  "tool_at h link = \<lparr>tb_link = link, tb_real = (case ch_canon h link of Some c \<Rightarrow> c | None \<Rightarrow> link)\<rparr>"

definition resolve_tool :: "CageHost \<Rightarrow> string \<Rightarrow> ToolBind option" where
  "resolve_tool h name = map_option (tool_at h) (find (ch_exists h) (map (\<lambda>d. push_path d name) BIN_SEARCH))"

definition resolve_program :: "CageHost \<Rightarrow> string \<Rightarrow> string option \<Rightarrow> ToolBind option" where
  "resolve_program h program home =
     (if CHR ''/'' \<in> set program then (if ch_exists h program then Some (tool_at h program) else None)
      else case resolve_tool h program of
             Some tb \<Rightarrow> Some tb
           | None \<Rightarrow>
               (case home of
                  None \<Rightarrow> None
                | Some hm \<Rightarrow>
                    (let link = push_path (push_path hm ''.local/bin'') program
                     in if ch_exists h link then Some (tool_at h link) else None)))"

definition resolve_tools :: "CageHost \<Rightarrow> string \<Rightarrow> Policy \<Rightarrow> string option \<Rightarrow> ToolBind list" where
  "resolve_tools h program policy home =
     (let tools = List.map_filter (resolve_tool h) (tool_names (map cap_name (capabilities policy)) (extra_tools h))
      in case resolve_program h program home of
           Some prog \<Rightarrow> if list_ex (\<lambda>t. tb_link t = tb_link prog) tools then tools else tools @ [prog]
         | None \<Rightarrow> tools)"

record Layout =
  ly_coarse_ro :: "string list"
  ly_bin_dirs :: "string list"
  ly_symlinks :: "(string \<times> string) list"

text \<open>The bucket of real directories and the list of links, as they grow.\<close>

definition classify :: "CageHost \<Rightarrow> string \<Rightarrow> string list \<times> (string \<times> string) list \<Rightarrow> string list \<times> (string \<times> string) list" where
  "classify h p b =
     (case ch_lstat h p of
        Some (FK_Link (Some target)) \<Rightarrow> (fst b, snd b @ [(p, target)])
      | Some FK_Dir \<Rightarrow> (fst b @ [p], snd b)
      | _ \<Rightarrow> b)"

definition system_layout :: "CageHost \<Rightarrow> Layout" where
  "system_layout h =
     (let (bins, links) = fold (classify h) [''/usr/bin'', ''/usr/sbin'', ''/usr/local/bin'', ''/usr/local/sbin'', ''/bin'', ''/sbin''] ([], []);
          (libs, links') = fold (classify h)
            [''/usr/lib'', ''/usr/lib64'', ''/usr/lib32'', ''/usr/libx32'', ''/usr/libexec'', ''/usr/share'', ''/usr/local/lib'', ''/usr/local/share'', ''/lib'',
             ''/lib64'', ''/lib32'', ''/libx32'', ''/etc'', ''/opt''] ([], links)
      in \<lparr>ly_coarse_ro = libs, ly_bin_dirs = bins, ly_symlinks = links'\<rparr>)"

subsection \<open>System calls\<close>

datatype Sys =
    S_Unshare
  | S_WriteMap string string
  | S_Fork
  | S_Private
  | S_MkDirs string
  | S_Create string
  | S_Symlink string string
  | S_Tmpfs string bool string
  | S_Proc string
  | S_Bind string string
  | S_RemountRo string bool
  | S_Write string string
  | S_Pivot string string
  | S_Chdir string
  | S_Detach string
  | S_RmDir string
  | S_DieWithParent
  | S_NoNewPrivs
  | S_Exec string "string list" "(string \<times> string) list"

type_synonym trace = "Sys list"
type_synonym 'a lx = "trace \<Rightarrow> trace \<times> (string list, 'a) result"

record LxKernel =
  lk_err :: "trace \<Rightarrow> Sys \<Rightarrow> string option"
  lk_exists :: "trace \<Rightarrow> string \<Rightarrow> bool"
  lk_is_dir :: "string \<Rightarrow> bool"
  lk_canon :: "string \<Rightarrow> string option"
  lk_pid :: nat
  lk_uid :: nat
  lk_gid :: nat

definition lx_return :: "'a \<Rightarrow> 'a lx" where
  "lx_return a l = (l, Ok a)"

definition lx_bind :: "'a lx \<Rightarrow> ('a \<Rightarrow> 'b lx) \<Rightarrow> 'b lx" where
  "lx_bind m f l = (case m l of (l1, Inl e) \<Rightarrow> (l1, Inl e) | (l1, Inr a) \<Rightarrow> f a l1)"

abbreviation lx_then :: "unit lx \<Rightarrow> 'b lx \<Rightarrow> 'b lx" where
  "lx_then m n \<equiv> lx_bind m (\<lambda>_. n)"

definition lx_context :: "string \<Rightarrow> 'a lx \<Rightarrow> 'a lx" where
  "lx_context c m l = (case m l of (l1, Inl e) \<Rightarrow> (l1, Inl (c # e)) | (l1, Inr a) \<Rightarrow> (l1, Inr a))"

definition lx_when :: "bool \<Rightarrow> unit lx \<Rightarrow> unit lx" where
  "lx_when b m = (if b then m else lx_return ())"

fun lx_each :: "('a \<Rightarrow> unit lx) \<Rightarrow> 'a list \<Rightarrow> unit lx" where
  "lx_each f [] = lx_return ()"
| "lx_each f (x # xs) = lx_then (f x) (lx_each f xs)"

text \<open>A call that may fail, and a call whose failure is ignored.\<close>

definition sys :: "LxKernel \<Rightarrow> Sys \<Rightarrow> unit lx" where
  "sys k s l = (case lk_err k l s of None \<Rightarrow> (l @ [s], Ok ()) | Some e \<Rightarrow> (l, Err [e]))"

definition sys_ok :: "LxKernel \<Rightarrow> Sys \<Rightarrow> unit lx" where
  "sys_ok k s l = (fst (sys k s l), Ok ())"

subsection \<open>Building the root\<close>

record RootfsSpec =
  rs_workspace :: string
  rs_workspace_read :: bool
  rs_workspace_write :: bool
  rs_ro_binds :: "string list"
  rs_bin_dirs :: "string list"
  rs_bin_symlinks :: "(string \<times> string) list"
  rs_tools :: "ToolBind list"
  rs_rw_binds :: "string list"
  rs_deny_write :: "string list"
  rs_deny_read :: "string list"
  rs_allow_unconfined :: bool
  rs_shim :: "string option"
  rs_real_shell :: string
  rs_shadow_shells :: "string list"
  rs_policy_toml :: string

definition SHIM_DIR :: string where "SHIM_DIR = ''/.orkia-sh''"
definition IN_CAGE_POLICY :: string where "IN_CAGE_POLICY = ''/.orkia-sh/policy.toml''"
definition IN_CAGE_REAL_SH :: string where "IN_CAGE_REAL_SH = ''/.orkia-sh/real-sh''"

definition path_under :: "string \<Rightarrow> string \<Rightarrow> bool" where
  "path_under d p \<longleftrightarrow> prefix (path_comps d) (path_comps p)"

text \<open>The path below the new root that a host path is bound at.\<close>

definition rootfs_target :: "string \<Rightarrow> string \<Rightarrow> string" where
  "rootfs_target newroot src = push_path newroot (dropWhile (\<lambda>c. c = CHR ''/'') src)"

definition mk_parent :: "LxKernel \<Rightarrow> string \<Rightarrow> unit lx" where
  "mk_parent k target = (case parent_of target of Some d \<Rightarrow> sys_ok k (S_MkDirs d) | None \<Rightarrow> lx_return ())"

definition bind_msg :: "string \<Rightarrow> string \<Rightarrow> string" where
  "bind_msg src target = ''bind '' @ src @ '' -> '' @ target"

definition bind_file_ro :: "LxKernel \<Rightarrow> string \<Rightarrow> string \<Rightarrow> unit lx" where
  "bind_file_ro k src target =
     lx_then (lx_context (bind_msg src target) (sys k (S_Bind src target)))
       (lx_context (''ro-remount '' @ target) (sys k (S_RemountRo target False)))"

definition bind_into :: "LxKernel \<Rightarrow> string \<Rightarrow> string \<Rightarrow> bool \<Rightarrow> unit lx" where
  "bind_into k newroot src ro =
     (let target = rootfs_target newroot src
      in lx_then (if lk_is_dir k src then sys_ok k (S_MkDirs target) else lx_then (mk_parent k target) (sys_ok k (S_Create target)))
           (if ro then bind_file_ro k src target else lx_context (bind_msg src target) (sys k (S_Bind src target))))"

definition DEV_NODES :: "string list" where
  "DEV_NODES =
     [''/dev/null'', ''/dev/zero'', ''/dev/full'', ''/dev/random'', ''/dev/urandom'', ''/dev/tty'', ''/dev/ptmx'', ''/dev/pts'', ''/dev/shm'']"

definition ignore_err :: "unit lx \<Rightarrow> unit lx" where
  "ignore_err m l = (fst (m l), Ok ())"

definition mount_fresh_proc :: "LxKernel \<Rightarrow> string \<Rightarrow> unit lx" where
  "mount_fresh_proc k newroot =
     (let target = rootfs_target newroot ''/proc''
      in lx_then (sys_ok k (S_MkDirs target))
           (\<lambda>l. case sys k (S_Proc target) l of
                  (l1, Inr _) \<Rightarrow> (l1, Ok ())
                | (l1, Inl _) \<Rightarrow> lx_context ''bind /proc fallback'' (bind_into k newroot ''/proc'' False) l1))"

definition NETWORK_FILES :: "string list" where
  "NETWORK_FILES = [''/etc/resolv.conf'', ''/etc/hosts'', ''/etc/nsswitch.conf'']"

definition plan_network_bind :: "string \<Rightarrow> string list \<Rightarrow> string option" where
  "plan_network_bind canon ro_binds = (if list_ex (\<lambda>b. path_under b canon) ro_binds then None else Some canon)"

definition bind_network_file_ro :: "LxKernel \<Rightarrow> string \<Rightarrow> string \<Rightarrow> unit lx" where
  "bind_network_file_ro k newroot src =
     (let target = rootfs_target newroot src
      in lx_then (mk_parent k target) (lx_then (sys_ok k (S_Create target))
           (lx_then (lx_context (bind_msg src target) (sys k (S_Bind src target)))
              (lx_context (''ro-remount '' @ target) (sys k (S_RemountRo target True))))))"

definition bind_network_files :: "LxKernel \<Rightarrow> string \<Rightarrow> string list \<Rightarrow> unit lx" where
  "bind_network_files k newroot ro_binds =
     lx_each (\<lambda>f. case lk_canon k f of
                    None \<Rightarrow> lx_return ()
                  | Some canon \<Rightarrow>
                      (case plan_network_bind canon ro_binds of
                         None \<Rightarrow> lx_return ()
                       | Some file \<Rightarrow> lx_context (''bind network file '' @ file) (bind_network_file_ro k newroot file))) NETWORK_FILES"

definition bind_tool_ro :: "LxKernel \<Rightarrow> string \<Rightarrow> ToolBind \<Rightarrow> unit lx" where
  "bind_tool_ro k newroot t l =
     (if \<not> lk_exists k l (tb_real t) then (l, Ok ())
      else (let target = rootfs_target newroot (tb_link t)
            in lx_then (mk_parent k target) (lx_then (sys_ok k (S_Create target)) (bind_file_ro k (tb_real t) target)) l))"

definition install_tools :: "LxKernel \<Rightarrow> string \<Rightarrow> RootfsSpec \<Rightarrow> unit lx" where
  "install_tools k newroot spec =
     lx_then (lx_each (\<lambda>(link, target). let lp = rootfs_target newroot link in lx_then (mk_parent k lp) (sys_ok k (S_Symlink target lp))) (rs_bin_symlinks spec))
       (lx_then (lx_each (\<lambda>dir. sys_ok k (S_MkDirs (rootfs_target newroot dir))) (rs_bin_dirs spec))
          (lx_each (\<lambda>t. lx_context (''bind tool '' @ tb_link t) (bind_tool_ro k newroot t)) (rs_tools spec)))"

datatype DenyMode = WriteDeny | ReadDeny

datatype MaskKind = RoSelf | DevNull | EmptyDir

definition plan_mask :: "string \<Rightarrow> string \<Rightarrow> bool \<Rightarrow> DenyMode \<Rightarrow> MaskKind option" where
  "plan_mask real ws is_dir mode =
     (if \<not> path_under ws real then None
      else Some (case mode of WriteDeny \<Rightarrow> RoSelf | ReadDeny \<Rightarrow> if is_dir then EmptyDir else DevNull))"

definition bind_devnull :: "LxKernel \<Rightarrow> string \<Rightarrow> unit lx" where
  "bind_devnull k target = lx_context (''read-deny /dev/null over '' @ target) (sys k (S_Bind ''/dev/null'' target))"

definition mask_empty_dir :: "LxKernel \<Rightarrow> string \<Rightarrow> unit lx" where
  "mask_empty_dir k target = lx_context (''read-deny tmpfs over '' @ target) (sys k (S_Tmpfs target True ''mode=0500''))"

definition mask_in_workspace :: "LxKernel \<Rightarrow> string \<Rightarrow> string \<Rightarrow> string \<Rightarrow> DenyMode \<Rightarrow> unit lx" where
  "mask_in_workspace k newroot ws p mode =
     (case lk_canon k p of
        None \<Rightarrow> lx_return ()
      | Some real \<Rightarrow>
         (let target = rootfs_target newroot real
          in case plan_mask real ws (lk_is_dir k real) mode of
               None \<Rightarrow> lx_return ()
             | Some RoSelf \<Rightarrow> if lk_is_dir k real then bind_into k newroot real True else bind_file_ro k real target
             | Some DevNull \<Rightarrow> bind_devnull k target
             | Some EmptyDir \<Rightarrow> mask_empty_dir k target))"

definition install_shim :: "LxKernel \<Rightarrow> string \<Rightarrow> string \<Rightarrow> string \<Rightarrow> string list \<Rightarrow> unit lx" where
  "install_shim k newroot shim real_shell shadow_shells =
     (let real_dst = rootfs_target newroot IN_CAGE_REAL_SH
      in lx_then (lx_context ''create shim dir'' (sys k (S_MkDirs (rootfs_target newroot SHIM_DIR))))
           (lx_then (sys_ok k (S_Create real_dst))
              (lx_then (lx_context (''preserve real shell '' @ real_shell) (bind_file_ro k real_shell real_dst))
                 (lx_each (\<lambda>sh l. let tgt = rootfs_target newroot sh
                     in if lk_exists k l tgt then lx_context (''shadow shell '' @ sh) (bind_file_ro k shim tgt) l else (l, Ok ())) shadow_shells))))"

definition write_in_cage_policy :: "LxKernel \<Rightarrow> string \<Rightarrow> string \<Rightarrow> unit lx" where
  "write_in_cage_policy k newroot policy_toml =
     (let dst = rootfs_target newroot IN_CAGE_POLICY
      in lx_then (mk_parent k dst) (lx_context ''write in-cage policy'' (sys k (S_Write dst policy_toml))))"

definition new_root :: "LxKernel \<Rightarrow> string" where
  "new_root k = ''/tmp/.orkia-cage-'' @ show_nat (lk_pid k)"

text \<open>The steps of building the root, in the order the code takes them.\<close>

definition root_base :: "LxKernel \<Rightarrow> RootfsSpec \<Rightarrow> unit lx" where
  "root_base k spec =
     (let newroot = new_root k
      in lx_then (lx_context ''create newroot dir'' (sys k (S_MkDirs newroot)))
           (lx_then (lx_context (''mount tmpfs at '' @ newroot) (sys k (S_Tmpfs newroot False ''mode=0755'')))
              (lx_then (lx_each (\<lambda>dev. ignore_err (bind_into k newroot dev False)) DEV_NODES)
                 (mount_fresh_proc k newroot))))"

definition root_binds :: "LxKernel \<Rightarrow> RootfsSpec \<Rightarrow> unit lx" where
  "root_binds k spec =
     (let newroot = new_root k
      in lx_then (lx_each (\<lambda>src l. lx_when (lk_exists k l src) (lx_context (''ro-bind '' @ src) (bind_into k newroot src True)) l) (rs_ro_binds spec))
           (lx_then (bind_network_files k newroot (rs_ro_binds spec))
              (lx_then (install_tools k newroot spec)
                 (lx_then (lx_when (rs_workspace_read spec)
                      (lx_context (''bind workspace '' @ rs_workspace spec) (bind_into k newroot (rs_workspace spec) (\<not> rs_workspace_write spec))))
                    (lx_each (\<lambda>src l. lx_when (lk_exists k l src) (lx_context (''rw-bind '' @ src) (bind_into k newroot src False)) l) (rs_rw_binds spec))))))"

definition root_masks :: "LxKernel \<Rightarrow> RootfsSpec \<Rightarrow> unit lx" where
  "root_masks k spec =
     (let newroot = new_root k
      in lx_when (rs_workspace_read spec)
           (lx_then (lx_each (\<lambda>p. lx_context (''write-deny '' @ p) (mask_in_workspace k newroot (rs_workspace spec) p WriteDeny)) (rs_deny_write spec))
              (lx_each (\<lambda>p. lx_context (''read-deny '' @ p) (mask_in_workspace k newroot (rs_workspace spec) p ReadDeny)) (rs_deny_read spec))))"

definition root_shim :: "LxKernel \<Rightarrow> RootfsSpec \<Rightarrow> unit lx" where
  "root_shim k spec =
     (case rs_shim spec of
        None \<Rightarrow> lx_return ()
      | Some shim \<Rightarrow>
          lx_then (install_shim k (new_root k) shim (rs_real_shell spec) (rs_shadow_shells spec)) (write_in_cage_policy k (new_root k) (rs_policy_toml spec)))"

definition build_rootfs :: "LxKernel \<Rightarrow> RootfsSpec \<Rightarrow> string lx" where
  "build_rootfs k spec =
     lx_then (root_base k spec) (lx_then (root_binds k spec) (lx_then (root_masks k spec) (lx_then (root_shim k spec) (lx_return (new_root k)))))"

subsection \<open>Entering it\<close>

definition pivot_into :: "LxKernel \<Rightarrow> string \<Rightarrow> unit lx" where
  "pivot_into k newroot =
     (let oldroot = push_path newroot ''.oldroot''
      in lx_then (lx_context ''create .oldroot'' (sys k (S_MkDirs oldroot)))
           (lx_then (lx_context ''pivot_root'' (sys k (S_Pivot newroot oldroot)))
              (lx_then (lx_context ''chdir / after pivot'' (sys k (S_Chdir ''/'')))
                 (lx_then (lx_context ''detach old root'' (sys k (S_Detach ''/.oldroot'')))
                    (sys_ok k (S_RmDir ''/.oldroot''))))))"

text \<open>Becoming the agent: the call that succeeds is the last one of the process.\<close>

definition bare_exec :: "LxKernel \<Rightarrow> string \<Rightarrow> string list \<Rightarrow> (string \<times> string) list \<Rightarrow> unit lx" where
  "bare_exec k program args env =
     lx_then (sys_ok k S_DieWithParent) (lx_then (sys_ok k S_NoNewPrivs)
       (\<lambda>l. case sys k (S_Exec program args env) l of
              (l1, Inl e) \<Rightarrow> (l1, Err [''failed to exec agent `'' @ program @ ''`: '' @ concat e])
            | (l1, Inr _) \<Rightarrow> (l1, Ok ())))"

definition child_enter_and_exec :: "LxKernel \<Rightarrow> RootfsSpec \<Rightarrow> string \<Rightarrow> string list \<Rightarrow> (string \<times> string) list \<Rightarrow> unit lx" where
  "child_enter_and_exec k spec program args env =
     lx_then (lx_context ''mount / private'' (sys k S_Private))
       (lx_bind (build_rootfs k spec) (\<lambda>newroot.
          lx_then (pivot_into k newroot)
            (lx_then (if rs_workspace_read spec then lx_context (''chdir workspace '' @ rs_workspace spec) (sys k (S_Chdir (rs_workspace spec)))
                      else lx_context ''chdir / (workspace read disabled)'' (sys k (S_Chdir ''/'')))
               (bare_exec k program args env))))"

definition id_map :: "nat \<Rightarrow> string" where
  "id_map u = show_nat u @ '' '' @ show_nat u @ '' 1''"

definition write_map :: "LxKernel \<Rightarrow> string \<Rightarrow> string \<Rightarrow> unit lx" where
  "write_map k p c = lx_context (''write '' @ p) (sys k (S_WriteMap p c))"

text \<open>The result is the child's; the parent stays behind as the supervisor.\<close>

definition enter_and_exec :: "LxKernel \<Rightarrow> RootfsSpec \<Rightarrow> string \<Rightarrow> string list \<Rightarrow> (string \<times> string) list \<Rightarrow> unit lx" where
  "enter_and_exec k spec program args env l =
     (case sys k S_Unshare l of
        (l1, Inl e) \<Rightarrow>
          if rs_allow_unconfined spec then bare_exec k program args env l1
          else (l1, Err [''unprivileged user namespace unavailable ('' @ concat e @ ''). On Ubuntu 24.04+ this is AppArmor: `sudo sysctl -w kernel.apparmor_restrict_unprivileged_userns=0` (dev) or ship an AppArmor profile for orkia-cage (prod). Set [cage].allow_unconfined to run without isolation (NOT recommended).''])
      | (l1, Inr _) \<Rightarrow>
          lx_then (lx_context ''setgroups deny'' (write_map k ''/proc/self/setgroups'' ''deny''))
            (lx_then (lx_context ''uid_map'' (write_map k ''/proc/self/uid_map'' (id_map (lk_uid k))))
               (lx_then (lx_context ''gid_map'' (write_map k ''/proc/self/gid_map'' (id_map (lk_gid k))))
                  (lx_then (lx_context ''fork into PID namespace'' (sys k S_Fork))
                     (child_enter_and_exec k spec program args env)))) l1)"

subsection \<open>The supervisor\<close>

datatype LxSignal = SIGINT | SIGTERM | SIGQUIT | SIGHUP | SIGWINCH | SIGCHLD

datatype ChildWait = W_Exited int | W_Signaled int | W_Other

datatype SupEffect = SE_Forward LxSignal | SE_Exit int | SE_Fail "string list"

text \<open>One round for each signal received, with what waiting for the child would then say.\<close>

fun cage_supervise :: "(LxSignal \<times> (string, ChildWait) result) list \<Rightarrow> SupEffect list" where
  "cage_supervise [] = []"
| "cage_supervise ((sg, w) # rest) =
     (if sg = SIGCHLD
      then (case w of
              Inl e \<Rightarrow> [SE_Fail [''waitpid child'', e]]
            | Inr (W_Exited code) \<Rightarrow> [SE_Exit code]
            | Inr (W_Signaled s) \<Rightarrow> [SE_Exit (128 + s)]
            | Inr W_Other \<Rightarrow> cage_supervise rest)
      else SE_Forward sg # cage_supervise rest)"

subsection \<open>From the policy to the root\<close>

definition real_shell_path :: "CageHost \<Rightarrow> string" where
  "real_shell_path h = (case find (ch_exists h) [''/bin/bash'', ''/usr/bin/bash'', ''/bin/sh'', ''/usr/bin/sh''] of Some p \<Rightarrow> p | None \<Rightarrow> ''/bin/bash'')"

definition shadow_shell_paths :: "string list" where
  "shadow_shell_paths = [''/bin/sh'', ''/bin/bash'', ''/bin/dash'', ''/usr/bin/sh'', ''/usr/bin/bash'', ''/usr/bin/dash'']"

definition build_rootfs_spec :: "CageCodec \<Rightarrow> LxKernel \<Rightarrow> CageHost \<Rightarrow> string \<Rightarrow> Policy \<Rightarrow> RootfsSpec lx" where
  "build_rootfs_spec cg k h program policy l =
     (case resolve_workspace h (ws_root (Policy.workspace policy)) of
        Inl e \<Rightarrow> (l, Err e)
      | Inr ws \<Rightarrow>
         (let home = env_var h ''HOME'';
              layout = system_layout h;
              tools = resolve_tools h program policy home;
              corpus_rw = snd (corpus_for_agent program home);
              run_dir = map_option (\<lambda>hm. push_path hm ''.orkia/run'') home;
              l1 = (case run_dir of Some d \<Rightarrow> fst (sys_ok k (S_MkDirs d) l) | None \<Rightarrow> l)
          in case cg_print cg policy of
               Inl e \<Rightarrow> (l1, Err [''serialize policy for in-cage shim'', e])
             | Inr toml \<Rightarrow>
                (l1, Ok \<lparr>rs_workspace = ws, rs_workspace_read = cc_read (Policy.caps policy), rs_workspace_write = cc_write (Policy.caps policy),
                         rs_ro_binds = ly_coarse_ro layout, rs_bin_dirs = ly_bin_dirs layout, rs_bin_symlinks = ly_symlinks layout, rs_tools = tools,
                         rs_rw_binds = corpus_rw @ (case run_dir of Some d \<Rightarrow> [d] | None \<Rightarrow> []),
                         rs_deny_write = map (push_path ws) [''.git/config'', ''.git/hooks'', ''.mcp.json''], rs_deny_read = map (push_path ws) [''.env''],
                         rs_allow_unconfined = (env_var h ''ORKIA_CAGE_ALLOW_UNCONFINED'' \<noteq> None), rs_shim = orkia_sh_path h,
                         rs_real_shell = real_shell_path h, rs_shadow_shells = shadow_shell_paths, rs_policy_toml = toml\<rparr>)))"

definition linux_agent_env :: "CageHost \<Rightarrow> bool \<Rightarrow> (string \<times> string) list" where
  "linux_agent_env h mediated =
     allowed_env h @ (if mediated then [(''ORKIA_CAGE_POLICY'', IN_CAGE_POLICY), (''ORKIA_SH_REAL'', IN_CAGE_REAL_SH)] else [])"

definition launch_linux :: "CageCodec \<Rightarrow> LxKernel \<Rightarrow> CageHost \<Rightarrow> string \<Rightarrow> string list \<Rightarrow> Policy \<Rightarrow> unit lx" where
  "launch_linux cg k h program agent_args policy =
     lx_bind (build_rootfs_spec cg k h program policy)
       (\<lambda>spec. enter_and_exec k spec program agent_args (linux_agent_env h (rs_shim spec \<noteq> None)))"

end
