(* ===== verification/Cage_Confined.thy ===== *)
theory Cage_Confined
  imports Cage_Rootfs
begin

text \<open>
  What the launcher of the cage guarantees: the system calls that build the root file system expose only what the policy grants (\<open>confining\<close>), no program
  runs unless every step succeeded, and on both platforms the agent runs only behind the sandbox that the policy in the file asks for.
\<close>

section \<open>What the root file system exposes\<close>

text \<open>What a computation adds to the trace: when it succeeds, or however it ends.\<close>

definition lx_adds :: "bool \<Rightarrow> 'a lx \<Rightarrow> (trace \<Rightarrow> bool) \<Rightarrow> bool" where
  "lx_adds always m P \<longleftrightarrow> (\<forall>l l' r. m l = (l', r) \<longrightarrow> (always \<or> (\<exists>a. r = Ok a)) \<longrightarrow> (\<exists>new. l' = l @ new \<and> P new))"

lemma lx_addsI: "(\<And>l l' r. m l = (l', r) \<Longrightarrow> always \<or> (\<exists>a. r = Ok a) \<Longrightarrow> \<exists>new. l' = l @ new \<and> P new) \<Longrightarrow> lx_adds always m P"
  unfolding lx_adds_def by blast

lemma lx_adds_point: "(\<And>l. \<exists>m'. m l = m' l \<and> lx_adds always m' P) \<Longrightarrow> lx_adds always m P"
  unfolding lx_adds_def by (metis)

lemma lx_adds_mono: "lx_adds always m P \<Longrightarrow> (\<And>new. P new \<Longrightarrow> Q new) \<Longrightarrow> lx_adds always m Q"
  unfolding lx_adds_def by blast

lemma lx_adds_success: "lx_adds True m P \<Longrightarrow> lx_adds always m P"
  unfolding lx_adds_def by blast

lemma lx_adds_context [simp]: "lx_adds always (lx_context c m) P \<longleftrightarrow> lx_adds always m P"
proof
  assume "lx_adds always (lx_context c m) P"
  then show "lx_adds always m P" unfolding lx_adds_def lx_context_def by (auto split: prod.splits sum.splits) (metis sum.exhaust)+
next
  assume "lx_adds always m P"
  then show "lx_adds always (lx_context c m) P" unfolding lx_adds_def lx_context_def by (auto split: prod.splits sum.splits)
qed

lemma lx_adds_seq: "lx_adds always m P \<Longrightarrow> (\<And>a. lx_adds always (f a) Q) \<Longrightarrow> (\<And>a. P a \<Longrightarrow> R a) \<Longrightarrow> (\<And>a b. P a \<Longrightarrow> Q b \<Longrightarrow> R (a @ b)) \<Longrightarrow> lx_adds always (lx_bind m f) R"
proof (rule lx_addsI)
  fix l l' r
  assume m: "lx_adds always m P" and f: "\<And>a. lx_adds always (f a) Q" and R: "\<And>a. P a \<Longrightarrow> R a" "\<And>a b. P a \<Longrightarrow> Q b \<Longrightarrow> R (a @ b)"
    and e: "lx_bind m f l = (l', r)" and o: "always \<or> (\<exists>a. r = Ok a)"
  obtain l1 r1 where 1: "m l = (l1, r1)" by force
  show "\<exists>new. l' = l @ new \<and> R new"
  proof (cases r1)
    case (Inl x)
    then have "always" "l' = l1" using e o by (auto simp: lx_bind_def 1)
    then show ?thesis using m 1 R(1) unfolding lx_adds_def by metis
  next
    case (Inr a)
    then have 2: "f a l1 = (l', r)" using e by (simp add: lx_bind_def 1)
    obtain n1 where "l1 = l @ n1" "P n1" using m 1 Inr unfolding lx_adds_def by blast
    moreover obtain n2 where "l' = l1 @ n2" "Q n2" using f [of a] 2 o unfolding lx_adds_def by blast
    ultimately show ?thesis using R(2) by auto
  qed
qed

text \<open>Whatever comes first, then the rest; for computations that only add.\<close>

lemma lx_adds_after: "lx_adds False m P \<Longrightarrow> (\<And>a. lx_adds False (f a) Q) \<Longrightarrow> lx_adds False (lx_bind m f) (\<lambda>new. \<exists>u w. new = u @ w \<and> Q w)"
proof (rule lx_addsI)
  fix l l' r
  assume m: "lx_adds False m P" and f: "\<And>a. lx_adds False (f a) Q" and e: "lx_bind m f l = (l', r)" and "False \<or> (\<exists>a. r = Ok a)"
  then obtain a l1 b where "m l = (l1, Ok b)" "f b l1 = (l', Ok a)" by (auto simp: lx_bind_def split: prod.splits sum.splits)
  moreover from this m f [of b] obtain u w where "l1 = l @ u" "l' = l1 @ w" "Q w" unfolding lx_adds_def by blast
  ultimately show "\<exists>new. l' = l @ new \<and> (\<exists>u w. new = u @ w \<and> Q w)" by auto
qed

locale trace_law =
  fixes P :: "trace \<Rightarrow> bool"
  assumes none: "P []"
    and both: "P a \<Longrightarrow> P b \<Longrightarrow> P (a @ b)"
begin

lemma returns: "lx_adds always (lx_return a) P"
  by (auto simp: lx_adds_def lx_return_def none)

lemma binds: "lx_adds always m P \<Longrightarrow> (\<And>a. lx_adds always (f a) P) \<Longrightarrow> lx_adds always (lx_bind m f) P"
  by (rule lx_adds_seq [where P = P and Q = P]) (auto intro: both)

lemma whens: "(b \<Longrightarrow> lx_adds always m P) \<Longrightarrow> lx_adds always (lx_when b m) P"
  by (simp add: lx_when_def returns)

lemma guards: "lx_adds always m P \<Longrightarrow> lx_adds always (\<lambda>l. lx_when (c l) m l) P"
  unfolding lx_adds_def lx_when_def lx_return_def using none by auto

lemma chooses: "lx_adds always m P \<Longrightarrow> lx_adds always (\<lambda>l. if c l then m l else (l, Ok ())) P"
  "lx_adds always m P \<Longrightarrow> lx_adds always (\<lambda>l. if c l then (l, Ok ()) else m l) P"
  unfolding lx_adds_def using none by auto

lemma eachs: "(\<And>x. x \<in> set xs \<Longrightarrow> lx_adds always (f x) P) \<Longrightarrow> lx_adds always (lx_each f xs) P"
  by (induction xs) (auto intro: returns binds)

lemma calls: "P [s] \<Longrightarrow> lx_adds always (sys k s) P"
  by (auto simp: lx_adds_def sys_def none split: option.splits)

lemma calls_ok: "P [s] \<Longrightarrow> lx_adds always (sys_ok k s) P"
  by (auto simp: lx_adds_def sys_ok_def sys_def none split: option.splits)

lemma ignores: "lx_adds True m P \<Longrightarrow> lx_adds always (ignore_err m) P"
  unfolding lx_adds_def ignore_err_def by (auto, metis prod.collapse)

lemma parents: "(\<And>d. P [S_MkDirs d]) \<Longrightarrow> lx_adds always (mk_parent k target) P"
  by (auto simp: mk_parent_def intro: calls_ok returns split: option.split)

text \<open>A step that is among those taken, with what was added after it.\<close>

lemma each_reaches:
  assumes "\<And>y. y \<in> set xs \<Longrightarrow> lx_adds False (f y) P" and "x \<in> set xs" and "lx_adds False (f x) R"
  shows "lx_adds False (lx_each f xs) (\<lambda>new. \<exists>u w v. new = u @ w @ v \<and> R w \<and> P v)"
  using assms
proof (induction xs)
  case (Cons y ys)
  show ?case
  proof (cases "y = x")
    case True
    have "lx_adds False (lx_each f ys) P" using Cons.prems(1) by (intro eachs) simp
    with True Cons.prems(3) show ?thesis by (auto intro!: lx_adds_seq [where P = R and Q = P]) (metis append_Nil append_Nil2 none, metis append_Nil)
  next
    case False
    then have ih: "lx_adds False (lx_each f ys) (\<lambda>new. \<exists>u w v. new = u @ w @ v \<and> R w \<and> P v)" using Cons by simp
    show ?thesis unfolding lx_each.simps
    proof (rule lx_addsI)
      fix l l' r assume e: "lx_bind (f y) (\<lambda>_. lx_each f ys) l = (l', r)" and "False \<or> (\<exists>a. r = Ok a)"
      then obtain a where r: "r = Ok a" by blast
      with e obtain l1 b where 1: "f y l = (l1, Ok b)" and 2: "lx_each f ys l1 = (l', Ok a)" by (auto simp: lx_bind_def split: prod.splits sum.splits)
      from 1 Cons.prems(1) [of y] obtain n1 where "l1 = l @ n1" unfolding lx_adds_def by fastforce
      moreover from 2 ih obtain u w v where "l' = l1 @ u @ w @ v" "R w" "P v" unfolding lx_adds_def by blast
      ultimately show "\<exists>new. l' = l @ new \<and> (\<exists>u w v. new = u @ w @ v \<and> R w \<and> P v)" by (metis append_assoc)
    qed
  qed
qed simp

end

text \<open>The sources of binds that are not made read-only at once.\<close>

definition remounted :: "string \<Rightarrow> trace \<Rightarrow> bool" where
  "remounted t l = (case l of S_RemountRo t' _ # _ \<Rightarrow> t' = t | _ \<Rightarrow> False)"

fun writable_binds :: "trace \<Rightarrow> string list" where
  "writable_binds [] = []"
| "writable_binds (x # l) = (case x of S_Bind s t \<Rightarrow> if remounted t l then [] else [s] | _ \<Rightarrow> []) @ writable_binds l"

lemma remounted_simps [simp]: "remounted t [] = False" "remounted t (S_RemountRo t' b # l) = (t' = t)"
  by (simp_all add: remounted_def)

lemma remounted_append [simp]: "a \<noteq> [] \<Longrightarrow> remounted t (a @ b) = remounted t a"
  by (cases a) (simp_all add: remounted_def split: Sys.split)

lemma writable_binds_append: "set (writable_binds (a @ b)) \<subseteq> set (writable_binds a) \<union> set (writable_binds b)"
proof (induction a)
  case (Cons x a)
  then show ?case by (cases "a = []") (auto split: Sys.splits if_splits)
qed simp

text \<open>Calls that bind only what may be exposed, leave only what may be written writable, and neither change the root nor run a program.\<close>

definition call_within :: "string set \<Rightarrow> Sys \<Rightarrow> bool" where
  "call_within E s = (case s of S_Bind src _ \<Rightarrow> src \<in> E | S_Pivot _ _ \<Rightarrow> False | S_Exec _ _ _ \<Rightarrow> False | S_Private \<Rightarrow> False | S_Detach _ \<Rightarrow> False | _ \<Rightarrow> True)"

definition within :: "string set \<Rightarrow> string set \<Rightarrow> trace \<Rightarrow> bool" where
  "within E W l \<longleftrightarrow> list_all (call_within E) l \<and> set (writable_binds l) \<subseteq> W"

interpretation inside: trace_law "within E W" for E W
proof
  fix a b assume "within E W a" and "within E W b"
  then show "within E W (a @ b)" using writable_binds_append [of a b] by (auto simp: within_def)
qed (simp add: within_def)

lemma within_call: "within E W [s] \<longleftrightarrow> call_within E s \<and> (\<forall>src t. s = S_Bind src t \<longrightarrow> src \<in> W)"
  by (cases s) (simp_all add: within_def call_within_def)

lemma call_within_mono: "call_within E s \<Longrightarrow> E \<subseteq> E' \<Longrightarrow> call_within E' s"
  by (cases s) (auto simp: call_within_def)

lemma within_mono: "within E W l \<Longrightarrow> E \<subseteq> E' \<Longrightarrow> W \<subseteq> W' \<Longrightarrow> within E' W' l"
  unfolding within_def using call_within_mono by (auto simp: list_all_iff)

text \<open>The steps of the builder.\<close>

lemma bind_file_ro_adds:
  assumes "src \<in> E"
  shows "lx_adds False (bind_file_ro k src target) (\<lambda>new. new = [S_Bind src target, S_RemountRo target False])"
  unfolding bind_file_ro_def
  by (auto simp: lx_adds_def lx_bind_def lx_context_def sys_def split: option.splits prod.splits sum.splits)

lemma bind_file_ro_within: "src \<in> E \<Longrightarrow> lx_adds False (bind_file_ro k src target) (within E W)"
  by (rule lx_adds_mono [OF bind_file_ro_adds]) (auto simp: within_def call_within_def)

lemma quiet_within: "lx_adds always (sys_ok k (S_MkDirs d)) (within E W)" "lx_adds always (sys_ok k (S_Create d)) (within E W)"
  "lx_adds always (sys_ok k (S_Symlink d d')) (within E W)" "lx_adds always (mk_parent k d) (within E W)"
  "lx_adds always (sys k (S_MkDirs d)) (within E W)" "lx_adds always (sys k (S_Write d d')) (within E W)" "lx_adds always (sys k (S_Tmpfs d b d')) (within E W)"
  "lx_adds always (sys k (S_Proc d)) (within E W)"
  by (rule inside.calls inside.calls_ok inside.parents; simp add: within_call call_within_def)+

lemma bind_rw_within: "src \<in> E \<Longrightarrow> src \<in> W \<Longrightarrow> lx_adds always (bind_into k newroot src False) (within E W)"
  unfolding bind_into_def Let_def
  by (auto intro!: inside.binds quiet_within inside.calls simp: within_call call_within_def)

lemma bind_ro_within: "src \<in> E \<Longrightarrow> lx_adds False (bind_into k newroot src True) (within E W)"
  unfolding bind_into_def Let_def by (auto intro!: inside.binds quiet_within bind_file_ro_within)


text \<open>What may be seen inside the root, and what of it may be written.\<close>

definition writable_in :: "RootfsSpec \<Rightarrow> string set" where
  "writable_in spec =
     set DEV_NODES \<union> {''/proc''} \<union> set (rs_rw_binds spec) \<union> (if rs_workspace_read spec \<and> rs_workspace_write spec then {rs_workspace spec} else {})"

definition visible_in :: "LxKernel \<Rightarrow> RootfsSpec \<Rightarrow> string set" where
  "visible_in k spec =
     writable_in spec \<union> set (rs_ro_binds spec) \<union> {c. \<exists>f \<in> set NETWORK_FILES. lk_canon k f = Some c} \<union> tb_real ` set (rs_tools spec) \<union>
     (if rs_workspace_read spec then {rs_workspace spec} \<union> {c. path_under (rs_workspace spec) c \<and> (\<exists>p \<in> set (rs_deny_write spec). lk_canon k p = Some c)}
      else {}) \<union>
     (case rs_shim spec of Some shim \<Rightarrow> {shim, rs_real_shell spec} | None \<Rightarrow> {})"

lemma proc_within: "''/proc'' \<in> E \<Longrightarrow> ''/proc'' \<in> W \<Longrightarrow> lx_adds False (mount_fresh_proc k newroot) (within E W)"
  unfolding mount_fresh_proc_def Let_def
proof (rule inside.binds [OF quiet_within(1)], rule lx_addsI)
  fix l l' r assume p: "''/proc'' \<in> E" "''/proc'' \<in> W"
    and e: "(case sys k (S_Proc (rootfs_target newroot ''/proc'')) l of
        (l1, Inl x) \<Rightarrow> lx_context ''bind /proc fallback'' (bind_into k newroot ''/proc'' False) l1 | (l1, Inr y) \<Rightarrow> (l1, Ok ())) = (l', r)"
      and ok: "False \<or> (\<exists>a. r = Ok a)"
  have b: "lx_adds False (lx_context ''bind /proc fallback'' (bind_into k newroot ''/proc'' False)) (within E W)" using bind_rw_within p by simp
  show "\<exists>new. l' = l @ new \<and> within E W new"
  proof (cases "lk_err k l (S_Proc (rootfs_target newroot ''/proc''))")
    case None
    then have "l' = l @ [S_Proc (rootfs_target newroot ''/proc'')]" using e by (simp add: sys_def)
    then show ?thesis by (simp add: within_call call_within_def)
  next
    case (Some x)
    then have "lx_context ''bind /proc fallback'' (bind_into k newroot ''/proc'' False) l = (l', r)" using e by (simp add: sys_def)
    then show ?thesis using b ok unfolding lx_adds_def by blast
  qed
qed

lemma base_within: "lx_adds False (root_base k spec) (within (visible_in k spec) (writable_in spec))"
  unfolding root_base_def Let_def
  by (intro inside.binds inside.eachs inside.ignores)
    (simp_all add: quiet_within bind_rw_within proc_within visible_in_def writable_in_def)

lemma tool_within: "tb_real t \<in> E \<Longrightarrow> lx_adds False (bind_tool_ro k newroot t) (within E W)"
  unfolding bind_tool_ro_def [abs_def] Let_def
  by (intro inside.chooses inside.binds quiet_within bind_file_ro_within)

lemma network_within:
  "(\<And>f c. f \<in> set NETWORK_FILES \<Longrightarrow> lk_canon k f = Some c \<Longrightarrow> c \<in> E) \<Longrightarrow> lx_adds False (bind_network_files k newroot ro) (within E W)"
proof -
  have "lx_adds False (bind_network_file_ro k newroot src) (within E W)" if "src \<in> E" for src
  proof -
    have t: "lx_adds False (lx_then (lx_context (bind_msg src t) (sys k (S_Bind src t))) (lx_context (''ro-remount '' @ t) (sys k (S_RemountRo t True)))) (within E W)" for t
      using that by (auto simp: lx_adds_def lx_bind_def lx_context_def sys_def within_def call_within_def split: option.splits prod.splits sum.splits)
    show ?thesis unfolding bind_network_file_ro_def Let_def by (rule inside.binds [OF quiet_within(4) inside.binds [OF quiet_within(2) t]])
  qed
  then show "(\<And>f c. f \<in> set NETWORK_FILES \<Longrightarrow> lk_canon k f = Some c \<Longrightarrow> c \<in> E) \<Longrightarrow> ?thesis"
    unfolding bind_network_files_def plan_network_bind_def
    by (intro inside.eachs) (auto split: option.split intro: inside.returns)
qed

lemma binds_within: "lx_adds False (root_binds k spec) (within (visible_in k spec) (writable_in spec))"
proof -
  let ?P = "within (visible_in k spec) (writable_in spec)"
  have ws: "lx_adds False (bind_into k (new_root k) (rs_workspace spec) (\<not> rs_workspace_write spec)) ?P" if "rs_workspace_read spec"
    using that bind_rw_within [of "rs_workspace spec"] bind_ro_within [of "rs_workspace spec"] by (cases "rs_workspace_write spec") (simp_all add: visible_in_def writable_in_def)
  have tools: "lx_adds False (install_tools k (new_root k) spec) ?P"
    unfolding install_tools_def Let_def
    by (intro inside.binds inside.eachs) (auto simp: visible_in_def split: prod.split intro!: inside.binds quiet_within tool_within)
  have "lx_adds False (bind_network_files k (new_root k) (rs_ro_binds spec)) ?P" by (rule network_within) (auto simp: visible_in_def)
  then show ?thesis unfolding root_binds_def Let_def using ws tools
    by (intro inside.binds inside.eachs inside.guards inside.whens) (auto intro!: bind_ro_within bind_rw_within simp: visible_in_def writable_in_def)
qed


text \<open>The masks: a protected path that exists in the workspace is bound over itself read-only, or hidden, after everything that is writable.\<close>

definition masked_ro :: "LxKernel \<Rightarrow> string \<Rightarrow> trace \<Rightarrow> bool" where
  "masked_ro k real l \<longleftrightarrow>
     (\<exists>u v. l = u @ [S_Bind real (rootfs_target (new_root k) real), S_RemountRo (rootfs_target (new_root k) real) False] @ v \<and> set (writable_binds v) \<subseteq> {''/dev/null''})"

definition hidden_by :: "LxKernel \<Rightarrow> string \<Rightarrow> trace \<Rightarrow> bool" where
  "hidden_by k real l \<longleftrightarrow>
     (\<exists>u v x. l = u @ [x] @ v \<and> x \<in> {S_Bind ''/dev/null'' (rootfs_target (new_root k) real), S_Tmpfs (rootfs_target (new_root k) real) True ''mode=0500''} \<and>
        set (writable_binds v) \<subseteq> {''/dev/null''})"

lemma mask_within:
  assumes "\<And>real. lk_canon k p = Some real \<Longrightarrow> path_under ws real \<Longrightarrow> mode = WriteDeny \<Longrightarrow> real \<in> E" and "''/dev/null'' \<in> E"
  shows "lx_adds False (mask_in_workspace k newroot ws p mode) (within E {''/dev/null''})"
proof (cases "lk_canon k p")
  case None
  then show ?thesis by (simp add: mask_in_workspace_def inside.returns)
next
  case (Some real)
  have "lx_adds False (bind_devnull k t) (within E {''/dev/null''})" "lx_adds False (mask_empty_dir k t) (within E {''/dev/null''})" for t
    using assms(2) by (simp_all add: bind_devnull_def mask_empty_dir_def quiet_within inside.calls within_call call_within_def)
  moreover have "lx_adds False (bind_into k newroot real True) (within E {''/dev/null''})" "lx_adds False (bind_file_ro k real t) (within E {''/dev/null''})"
    if "path_under ws real" "mode = WriteDeny" for t
    using that assms(1) [OF Some] bind_ro_within bind_file_ro_within by auto
  ultimately show ?thesis using Some
    by (cases mode) (auto simp: mask_in_workspace_def plan_mask_def Let_def inside.returns)
qed

lemma mask_write_adds:
  assumes "lk_canon k p = Some real" and "path_under ws real"
  shows "lx_adds False (mask_in_workspace k (new_root k) ws p WriteDeny)
    (\<lambda>new. \<exists>w. new = w @ [S_Bind real (rootfs_target (new_root k) real), S_RemountRo (rootfs_target (new_root k) real) False])"
proof -
  let ?t = "rootfs_target (new_root k) real"
  have f: "lx_adds False (bind_file_ro k real ?t) (\<lambda>new. new = [S_Bind real ?t, S_RemountRo ?t False])" by (rule bind_file_ro_adds) (rule UNIV_I)
  have q: "lx_adds False (if lk_is_dir k real then sys_ok k (S_MkDirs ?t) else lx_then (mk_parent k ?t) (sys_ok k (S_Create ?t))) (within UNIV UNIV)"
    by (auto intro!: inside.binds quiet_within)
  have "lx_adds False (bind_into k (new_root k) real True) (\<lambda>new. \<exists>w. new = w @ [S_Bind real ?t, S_RemountRo ?t False])"
    unfolding bind_into_def Let_def if_True by (rule lx_adds_mono [OF lx_adds_after [OF q f]]) auto
  then show ?thesis using assms f by (auto simp: mask_in_workspace_def plan_mask_def Let_def elim: lx_adds_mono)
qed

lemma call_adds: "lx_adds False (sys k s) (\<lambda>new. new = [s])"
  by (auto simp: lx_adds_def sys_def split: option.splits)

lemma mask_read_adds:
  assumes "lk_canon k p = Some real" and "path_under ws real"
  shows "lx_adds False (mask_in_workspace k (new_root k) ws p ReadDeny)
    (\<lambda>new. \<exists>x. new = [x] \<and> x \<in> {S_Bind ''/dev/null'' (rootfs_target (new_root k) real), S_Tmpfs (rootfs_target (new_root k) real) True ''mode=0500''})"
  using assms by (auto simp: mask_in_workspace_def plan_mask_def Let_def bind_devnull_def mask_empty_dir_def intro: lx_adds_mono [OF call_adds])

abbreviation null_only :: "trace \<Rightarrow> bool" where
  "null_only \<equiv> within UNIV {''/dev/null''}"

lemma masks_within: "lx_adds False (root_masks k spec) (within (visible_in k spec) {''/dev/null''})"
  unfolding root_masks_def Let_def
  by (intro inside.whens inside.binds inside.eachs) (auto intro!: mask_within simp: visible_in_def writable_in_def DEV_NODES_def)

lemma shim_within: "lx_adds False (root_shim k spec) (within (visible_in k spec) {})"
proof (cases "rs_shim spec")
  case (Some shim)
  have "shim \<in> visible_in k spec" "rs_real_shell spec \<in> visible_in k spec" using Some by (simp_all add: visible_in_def)
  then show ?thesis using Some
    unfolding root_shim_def install_shim_def write_in_cage_policy_def Let_def
    by (auto intro!: inside.binds inside.eachs inside.chooses quiet_within bind_file_ro_within)
qed (simp add: root_shim_def inside.returns)

lemma each_mask:
  assumes "p \<in> set ps" and "lx_adds False (mask_in_workspace k (new_root k) ws p mode) R"
  shows "lx_adds False (lx_each (\<lambda>p. lx_context (c p) (mask_in_workspace k (new_root k) ws p mode)) ps) (\<lambda>new. \<exists>u w v. new = u @ w @ v \<and> R w \<and> null_only v)"
  using assms by (intro inside.each_reaches) (auto intro: mask_within)

lemma masks_reach:
  assumes "rs_workspace_read spec" and "lk_canon k p = Some real" and "path_under (rs_workspace spec) real"
  shows "p \<in> set (rs_deny_write spec) \<Longrightarrow> lx_adds False (root_masks k spec) (masked_ro k real)"
    and "p \<in> set (rs_deny_read spec) \<Longrightarrow> lx_adds False (root_masks k spec) (hidden_by k real)"
proof -
  let ?each = "\<lambda>c ps mode. lx_each (\<lambda>p. lx_context (c p) (mask_in_workspace k (new_root k) (rs_workspace spec) p mode)) ps"
  have tail: "lx_adds False (?each c ps mode) null_only" for c :: "string \<Rightarrow> string" and ps mode by (intro inside.eachs) (auto intro: mask_within)
  have null: "set (writable_binds v) \<subseteq> {''/dev/null''}" if "null_only v" for v using that by (simp add: within_def)
  show "lx_adds False (root_masks k spec) (masked_ro k real)" if "p \<in> set (rs_deny_write spec)"
  proof -
    note w = each_mask [OF that mask_write_adds [OF assms(2,3)], of "(@) ''write-deny ''"]
    show ?thesis unfolding root_masks_def Let_def lx_when_def if_P [OF assms(1)]
    proof (rule lx_adds_seq [OF w tail], goal_cases)
      case (1 a)
      then show ?case unfolding masked_ro_def using null by (metis append.assoc)
    next
      case (2 a b)
      then obtain u w v where a: "a = u @ (w @ [S_Bind real (rootfs_target (new_root k) real), S_RemountRo (rootfs_target (new_root k) real) False]) @ v" "null_only v" by blast
      have "null_only (v @ b)" by (rule inside.both [OF a(2) 2(2)])
      then show ?case unfolding masked_ro_def using a(1) null by (intro exI [of _ "u @ w"] exI [of _ "v @ b"]) simp
    qed
  qed
  show "lx_adds False (root_masks k spec) (hidden_by k real)" if "p \<in> set (rs_deny_read spec)"
  proof -
    note w = each_mask [OF that mask_read_adds [OF assms(2,3)], of "(@) ''read-deny ''"]
    have t: "lx_adds False (?each ((@) ''write-deny '') (rs_deny_write spec) WriteDeny) null_only" by (rule tail)
    show ?thesis unfolding root_masks_def Let_def lx_when_def if_P [OF assms(1)]
    proof (rule lx_adds_mono [OF lx_adds_after [OF t w]], goal_cases)
      case (1 new)
      then obtain a u x v where n: "new = a @ u @ [x] @ v" "null_only v"
        "x \<in> {S_Bind ''/dev/null'' (rootfs_target (new_root k) real), S_Tmpfs (rootfs_target (new_root k) real) True ''mode=0500''}" by blast
      then show ?case unfolding hidden_by_def using null [OF n(2)] by (intro exI [of _ "a @ u"] exI [of _ v] exI [of _ x]) simp
    qed
  qed
qed


lemma lx_then_ok: "lx_bind m f l = (l', Ok b) \<longleftrightarrow> (\<exists>l1 a. m l = (l1, Ok a) \<and> f a l1 = (l', Ok b))"
  by (auto simp: lx_bind_def split: prod.splits sum.splits)

lemma lx_addsD: "lx_adds False m P \<Longrightarrow> m l = (l', Ok a) \<Longrightarrow> \<exists>new. l' = l @ new \<and> P new"
  unfolding lx_adds_def by blast

text \<open>What is true of the root once it is built.\<close>

definition confining :: "LxKernel \<Rightarrow> RootfsSpec \<Rightarrow> trace \<Rightarrow> bool" where
  "confining k spec l \<longleftrightarrow> within (visible_in k spec) (writable_in spec) l \<and>
     (\<forall>p real. rs_workspace_read spec \<and> lk_canon k p = Some real \<and> path_under (rs_workspace spec) real \<longrightarrow>
        (p \<in> set (rs_deny_write spec) \<longrightarrow> masked_ro k real l) \<and> (p \<in> set (rs_deny_read spec) \<longrightarrow> hidden_by k real l))"

lemma build_confines:
  assumes "build_rootfs k spec l = (l', Ok n)"
  shows "n = new_root k \<and> (\<exists>new. l' = l @ new \<and> confining k spec new)"
proof -
  obtain l1 l2 l3 where steps: "root_base k spec l = (l1, Ok ())" "root_binds k spec l1 = (l2, Ok ())" "root_masks k spec l2 = (l3, Ok ())"
    "root_shim k spec l3 = (l', Ok ())" and n: "n = new_root k"
    using assms by (auto simp: build_rootfs_def lx_then_ok lx_return_def)
  obtain a where a: "l1 = l @ a" "within (visible_in k spec) (writable_in spec) a" using lx_addsD [OF base_within steps(1)] by blast
  obtain b where b: "l2 = l1 @ b" "within (visible_in k spec) (writable_in spec) b" using lx_addsD [OF binds_within steps(2)] by blast
  obtain m where m: "l3 = l2 @ m" "within (visible_in k spec) {''/dev/null''} m" using lx_addsD [OF masks_within steps(3)] by blast
  obtain s where s: "l' = l3 @ s" "within (visible_in k spec) {} s" using lx_addsD [OF shim_within steps(4)] by blast
  have dn: "''/dev/null'' \<in> writable_in spec" by (simp add: writable_in_def DEV_NODES_def)
  have "within (visible_in k spec) (writable_in spec) (a @ b @ m @ s)"
    using a(2) b(2) within_mono [OF m(2)] within_mono [OF s(2)] dn by (intro inside.both) auto
  moreover have "masked_ro k real (a @ b @ m @ s)" if r: "rs_workspace_read spec" "lk_canon k p = Some real" "path_under (rs_workspace spec) real"
    and "p \<in> set (rs_deny_write spec)" for p real
  proof -
    have "masked_ro k real m" using lx_addsD [OF masks_reach(1) [OF r that(4)] steps(3)] m(1) by simp
    then obtain u v where "m = u @ [S_Bind real (rootfs_target (new_root k) real), S_RemountRo (rootfs_target (new_root k) real) False] @ v"
      "set (writable_binds v) \<subseteq> {''/dev/null''}" unfolding masked_ro_def by blast
    then show ?thesis unfolding masked_ro_def using s(2) writable_binds_append [of v s]
      by (intro exI [of _ "a @ b @ u"] exI [of _ "v @ s"]) (auto simp: within_def)
  qed
  moreover have "hidden_by k real (a @ b @ m @ s)" if r: "rs_workspace_read spec" "lk_canon k p = Some real" "path_under (rs_workspace spec) real"
    and "p \<in> set (rs_deny_read spec)" for p real
  proof -
    have "hidden_by k real m" using lx_addsD [OF masks_reach(2) [OF r that(4)] steps(3)] m(1) by simp
    then obtain u v x where "m = u @ [x] @ v" "set (writable_binds v) \<subseteq> {''/dev/null''}"
      "x \<in> {S_Bind ''/dev/null'' (rootfs_target (new_root k) real), S_Tmpfs (rootfs_target (new_root k) real) True ''mode=0500''}" unfolding hidden_by_def by blast
    then show ?thesis unfolding hidden_by_def using s(2) writable_binds_append [of v s]
      by (intro exI [of _ "a @ b @ u"] exI [of _ "v @ s"] exI [of _ x]) (auto simp: within_def)
  qed
  ultimately show ?thesis using n a(1) b(1) m(1) s(1) unfolding confining_def by (auto intro!: exI [of _ "a @ b @ m @ s"])
qed

text \<open>No program is run before the end, and none at all when a step fails.\<close>

definition no_exec :: "trace \<Rightarrow> bool" where
  "no_exec l \<longleftrightarrow> list_all (\<lambda>s. case s of S_Exec _ _ _ \<Rightarrow> False | _ \<Rightarrow> True) l"

interpretation quiet: trace_law no_exec
  by unfold_locales (simp_all add: no_exec_def)

lemma build_quiet: "lx_adds True (build_rootfs k spec) no_exec"
proof -
  have call: "lx_adds b (sys k s) no_exec" "lx_adds b (sys_ok k s) no_exec" if "case s of S_Exec _ _ _ \<Rightarrow> False | _ \<Rightarrow> True" for s b
    using that by (auto intro: quiet.calls quiet.calls_ok simp: no_exec_def)
  have par: "lx_adds b (mk_parent k t) no_exec" for t b by (rule quiet.parents) (simp add: no_exec_def)
  have ro: "lx_adds b (bind_file_ro k src t) no_exec" for src t b unfolding bind_file_ro_def by (intro quiet.binds) (simp_all add: call)
  have into: "lx_adds b (bind_into k nr src r) no_exec" for nr src r b
    unfolding bind_into_def Let_def by (intro quiet.binds) (auto simp: call par ro intro: quiet.binds)
  have proc: "lx_adds True (mount_fresh_proc k nr) no_exec" for nr
  proof -
    have "lx_adds True (\<lambda>l. case sys k (S_Proc t) l of (l1, Inr _) \<Rightarrow> (l1, Ok ()) | (l1, Inl _) \<Rightarrow> lx_context c (bind_into k nr p False) l1) no_exec" for t c p
      using into [of True nr p False] by (auto simp: lx_adds_def sys_def lx_context_def no_exec_def split: option.splits prod.splits sum.splits)
    then show ?thesis unfolding mount_fresh_proc_def Let_def by (intro quiet.binds) (simp_all add: call)
  qed
  have net: "lx_adds True (bind_network_files k nr ros) no_exec" for nr ros
    unfolding bind_network_files_def bind_network_file_ro_def Let_def
    by (intro quiet.eachs) (auto split: option.split intro!: quiet.binds quiet.returns simp: call par)
  have tools: "lx_adds True (install_tools k nr spec) no_exec" for nr
    unfolding install_tools_def bind_tool_ro_def [abs_def] Let_def
    by (intro quiet.binds quiet.eachs) (auto split: prod.split intro!: quiet.binds quiet.chooses simp: call par ro)
  have mask: "lx_adds True (mask_in_workspace k nr ws p mode) no_exec" for nr ws p mode
    unfolding mask_in_workspace_def Let_def
    by (auto split: option.split MaskKind.split intro: quiet.returns simp: into ro bind_devnull_def mask_empty_dir_def call)
  have shim: "lx_adds True (root_shim k spec) no_exec"
    unfolding root_shim_def install_shim_def write_in_cage_policy_def Let_def
    by (auto split: option.split intro!: quiet.binds quiet.returns quiet.eachs quiet.chooses simp: call par ro)
  show ?thesis
    unfolding build_rootfs_def root_base_def root_binds_def root_masks_def Let_def
    by (intro quiet.binds quiet.eachs quiet.whens quiet.guards quiet.ignores quiet.returns) (simp_all add: call into proc net tools mask shim)
qed


definition clean_failure :: "'a lx \<Rightarrow> bool" where
  "clean_failure m \<longleftrightarrow> (\<forall>l l' e. m l = (l', Err e) \<longrightarrow> no_exec l \<longrightarrow> no_exec l')"

lemma clean_quiet: "lx_adds True m no_exec \<Longrightarrow> clean_failure m"
  unfolding lx_adds_def clean_failure_def using quiet.both by blast

lemma clean_bind:
  assumes "lx_adds True m no_exec" and "\<And>a. clean_failure (f a)"
  shows "clean_failure (lx_bind m f)"
  unfolding clean_failure_def
proof (intro allI impI)
  fix l l' e assume e: "lx_bind m f l = (l', Err e)" and q: "no_exec l"
  obtain l1 r where 1: "m l = (l1, r)" by force
  then have "no_exec l1" using assms(1) quiet.both [OF q] unfolding lx_adds_def by blast
  then show "no_exec l'" using e 1 assms(2) by (cases r) (auto simp: lx_bind_def clean_failure_def)
qed

lemma call_quiet: "case s of S_Exec _ _ _ \<Rightarrow> False | _ \<Rightarrow> True \<Longrightarrow> lx_adds b (sys k s) no_exec"
  "case s of S_Exec _ _ _ \<Rightarrow> False | _ \<Rightarrow> True \<Longrightarrow> lx_adds b (sys_ok k s) no_exec"
  by (auto intro: quiet.calls quiet.calls_ok simp: no_exec_def)

lemma exec_clean: "clean_failure (bare_exec k program args env)"
proof -
  have "clean_failure (\<lambda>l. case sys k (S_Exec program args env) l of
      (l1, Inl e) \<Rightarrow> (l1, Err (msg e)) | (l1, Inr _) \<Rightarrow> (l1, Ok ()))" for msg :: "string list \<Rightarrow> string list"
    by (auto simp: clean_failure_def sys_def split: option.splits)
  then show ?thesis unfolding bare_exec_def by (intro clean_bind) (simp_all add: call_quiet del: append_Cons)
qed

lemma pivot_quiet: "lx_adds True (pivot_into k nr) no_exec"
  unfolding pivot_into_def Let_def by (intro quiet.binds) (simp_all add: call_quiet)

lemma child_clean: "clean_failure (child_enter_and_exec k spec program args env)"
  unfolding child_enter_and_exec_def by (intro clean_bind) (simp_all add: call_quiet build_quiet pivot_quiet exec_clean)

lemma enter_clean: "enter_and_exec k spec program args env l = (l', Err e) \<Longrightarrow> no_exec l \<Longrightarrow> no_exec l'"
proof -
  assume e: "enter_and_exec k spec program args env l = (l', Err e)" and q: "no_exec l"
  let ?rest = "lx_then (lx_context ''setgroups deny'' (write_map k ''/proc/self/setgroups'' ''deny''))
            (lx_then (lx_context ''uid_map'' (write_map k ''/proc/self/uid_map'' (id_map (lk_uid k))))
               (lx_then (lx_context ''gid_map'' (write_map k ''/proc/self/gid_map'' (id_map (lk_gid k))))
                  (lx_then (lx_context ''fork into PID namespace'' (sys k S_Fork))
                     (child_enter_and_exec k spec program args env))))"
  have c: "clean_failure ?rest" unfolding write_map_def by (intro clean_bind) (simp_all add: call_quiet child_clean)
  show "no_exec l'"
  proof (cases "lk_err k l S_Unshare")
    case None
    then have "?rest (l @ [S_Unshare]) = (l', Err e)" using e by (simp add: enter_and_exec_def sys_def)
    moreover have "no_exec (l @ [S_Unshare])" using q by (simp add: no_exec_def)
    ultimately show ?thesis using c unfolding clean_failure_def by blast
  next
    case (Some x)
    then show ?thesis using e q exec_clean [of k program args env] unfolding clean_failure_def
      by (auto simp: enter_and_exec_def sys_def split: if_splits)
  qed
qed

text \<open>A run that ends in the agent.\<close>

lemma sys_okD: "sys k s l = (l', Ok a) \<Longrightarrow> l' = l @ [s]" "sys_ok k s l = (l', r) \<Longrightarrow> l' = l \<or> l' = l @ [s]"
  by (auto simp: sys_def sys_ok_def split: option.splits)

lemma context_okD: "lx_context c m l = (l', Ok a) \<Longrightarrow> m l = (l', Ok a)"
  by (auto simp: lx_context_def split: prod.splits sum.splits)

lemma bare_exec_ok:
  assumes "bare_exec k program args env l = (l', Ok a)"
  shows "\<exists>c \<in> {[], [S_DieWithParent], [S_NoNewPrivs], [S_DieWithParent, S_NoNewPrivs]}. l' = l @ c @ [S_Exec program args env]"
proof -
  obtain l1 l2 a1 a2 where s: "sys_ok k S_DieWithParent l = (l1, Ok a1)" "sys_ok k S_NoNewPrivs l1 = (l2, Ok a2)"
    and x: "(case sys k (S_Exec program args env) l2 of
        (l3, Inl e) \<Rightarrow> (l3, Err [''failed to exec agent `'' @ program @ ''`: '' @ concat e]) | (l3, Inr _) \<Rightarrow> (l3, Ok ())) = (l', Ok a)"
    using assms unfolding bare_exec_def lx_then_ok by blast
  have "l' = l2 @ [S_Exec program args env]" using x by (cases "lk_err k l2 (S_Exec program args env)") (simp_all add: sys_def)
  then show ?thesis using sys_okD(2) [OF s(1)] sys_okD(2) [OF s(2)] by auto
qed

definition entered :: "LxKernel \<Rightarrow> trace \<Rightarrow> bool" where
  "entered k c \<longleftrightarrow> S_Pivot (new_root k) (push_path (new_root k) ''.oldroot'') \<in> set c \<and> S_Detach ''/.oldroot'' \<in> set c \<and>
     list_all (\<lambda>s. case s of S_Bind _ _ \<Rightarrow> False | S_Exec _ _ _ \<Rightarrow> False | _ \<Rightarrow> True) c"

lemma child_ok:
  assumes "child_enter_and_exec k spec program args env l = (l', Ok a)"
  shows "\<exists>b c. l' = l @ [S_Private] @ b @ c @ [S_Exec program args env] \<and> confining k spec b \<and> entered k c"
proof -
  obtain l1 l2 l3 l4 where s: "sys k S_Private l = (l1, Ok ())" "build_rootfs k spec l1 = (l2, Ok (new_root k))" "pivot_into k (new_root k) l2 = (l3, Ok ())"
    and d: "sys k (S_Chdir (if rs_workspace_read spec then rs_workspace spec else ''/'')) l3 = (l4, Ok ())" and x: "bare_exec k program args env l4 = (l', Ok a)"
  proof -
    obtain l1 l2 l3 l4 n a1 a3 a4 where s: "lx_context ''mount / private'' (sys k S_Private) l = (l1, Ok a1)" "build_rootfs k spec l1 = (l2, Ok n)"
      "pivot_into k n l2 = (l3, Ok a3)"
      "(if rs_workspace_read spec then lx_context (''chdir workspace '' @ rs_workspace spec) (sys k (S_Chdir (rs_workspace spec)))
        else lx_context ''chdir / (workspace read disabled)'' (sys k (S_Chdir ''/''))) l3 = (l4, Ok a4)" "bare_exec k program args env l4 = (l', Ok a)"
      using assms unfolding child_enter_and_exec_def lx_then_ok by blast
    have "n = new_root k" using build_confines [OF s(2)] by blast
    then show thesis using that context_okD [OF s(1)] s(2,3,5) s(4) by (cases "rs_workspace_read spec") (auto dest: context_okD simp del: append_Cons)
  qed
  obtain b where b: "l2 = l1 @ b" "confining k spec b" using build_confines [OF s(2)] by blast
  obtain p where p: "l3 = l2 @ p" "entered k p"
  proof -
    let ?o = "push_path (new_root k) ''.oldroot''"
    have "l3 = l2 @ [S_MkDirs ?o, S_Pivot (new_root k) ?o, S_Chdir ''/'', S_Detach ''/.oldroot''] \<or>
        l3 = l2 @ [S_MkDirs ?o, S_Pivot (new_root k) ?o, S_Chdir ''/'', S_Detach ''/.oldroot'', S_RmDir ''/.oldroot'']"
      using s(3) by (auto simp: pivot_into_def Let_def lx_then_ok dest!: context_okD sys_okD)
    then show thesis using that by (auto simp: entered_def)
  qed
  obtain c where c: "c \<in> {[], [S_DieWithParent], [S_NoNewPrivs], [S_DieWithParent, S_NoNewPrivs]}" "l' = l4 @ c @ [S_Exec program args env]"
    using bare_exec_ok [OF x] by blast
  let ?c = "p @ [S_Chdir (if rs_workspace_read spec then rs_workspace spec else ''/'')] @ c"
  have "l' = l @ [S_Private] @ b @ ?c @ [S_Exec program args env]" using sys_okD(1) [OF s(1)] sys_okD(1) [OF d] b(1) p(1) c(2) by simp
  moreover have "entered k ?c" using p(2) c(1) by (auto simp: entered_def)
  ultimately show ?thesis using b(2) by blast
qed

lemma enter_ok:
  assumes "enter_and_exec k spec program args env l = (l', Ok a)"
  shows "rs_allow_unconfined spec \<and> lk_err k l S_Unshare \<noteq> None \<and>
      (\<exists>c. l' = l @ c @ [S_Exec program args env] \<and> no_exec c) \<or>
    (\<exists>b c. l' = l @ [S_Unshare, S_WriteMap ''/proc/self/setgroups'' ''deny'', S_WriteMap ''/proc/self/uid_map'' (id_map (lk_uid k)),
        S_WriteMap ''/proc/self/gid_map'' (id_map (lk_gid k)), S_Fork, S_Private] @ b @ c @ [S_Exec program args env] \<and> confining k spec b \<and> entered k c)"
proof (cases "lk_err k l S_Unshare")
  case (Some x)
  then have "rs_allow_unconfined spec" "bare_exec k program args env l = (l', Ok a)" using assms by (auto simp: enter_and_exec_def sys_def split: if_splits)
  then show ?thesis using Some bare_exec_ok [of k program args env l l' a] by (auto simp: no_exec_def)
next
  case None
  obtain l5 where "child_enter_and_exec k spec program args env l5 = (l', Ok a)"
    "l5 = l @ [S_Unshare, S_WriteMap ''/proc/self/setgroups'' ''deny'', S_WriteMap ''/proc/self/uid_map'' (id_map (lk_uid k)),
        S_WriteMap ''/proc/self/gid_map'' (id_map (lk_gid k)), S_Fork]"
    using assms None by (auto simp: enter_and_exec_def sys_def [of k S_Unshare] lx_then_ok write_map_def dest!: context_okD sys_okD(1))
  then show ?thesis using child_ok [of k spec program args env l5 l' a] by auto
qed

section \<open>The launcher as a whole\<close>

lemma env_var_project: "k \<noteq> ''ORKIA_PROJECT_ID'' \<Longrightarrow> env_var (with_project is_root h) k = env_var h k"
proof -
  have "map_of (filter (\<lambda>p. fst p \<noteq> key) m) k = map_of m k" if "k \<noteq> key" for key and m :: "(string \<times> string) list"
    using that by (induction m) auto
  then show "k \<noteq> ''ORKIA_PROJECT_ID'' \<Longrightarrow> ?thesis" by (simp add: with_project_def env_var_def hm_insert_def split: option.split)
qed

lemma host_project [simp]:
  "ch_canon (with_project is_root h) = ch_canon h" "ch_is_file (with_project is_root h) = ch_is_file h" "ch_exists (with_project is_root h) = ch_exists h"
  "ch_cwd (with_project is_root h) = ch_cwd h" "ch_lstat (with_project is_root h) = ch_lstat h"
  by (simp_all add: with_project_def split: option.split)

lemma resolve_project: "resolve_workspace (with_project is_root h) root = resolve_workspace h root"
  by (simp only: resolve_workspace_def host_project)

text \<open>What reaches the platform: the command as given, and a policy that trust has only eased.\<close>

lemma cage_run_launches:
  assumes "cage_run cg adjust eligibility is_root launch h io policy_arg agent fs = (fs', Ok x)"
  obtains program rest base unlocks policy_path where "agent = program # rest" and "cage_load_policy cg h io fs policy_arg = Ok base"
    and "x = launch (with_project is_root h) program rest (apply_trust base (trust_scope is_root h) adjust unlocks) policy_path"
  using assms by (auto simp: cage_run_def split_agent_def Let_def split: list.splits sum.splits prod.splits)

text \<open>Easing a rule does not unblock a binary: the profile is that of the policy in the file.\<close>

lemma deny_exec_eased:
  "list_all2 (\<lambda>c c'. c' = c \<or> promoted sc adjust unlocks c c') cs cs' \<Longrightarrow> derive_deny_exec h cs' = derive_deny_exec h cs"
  by (induction rule: list_all2_induct) (auto simp: promoted_def split: option.split)

lemma profile_of_base: "build_profile_spec h program (apply_trust base sc adjust unlocks) = build_profile_spec h program base"
proof -
  have "derive_deny_exec h (capabilities (apply_trust base sc adjust unlocks)) = derive_deny_exec h (capabilities base)"
    by (rule deny_exec_eased [OF apply_trust_pointwise])
  then show ?thesis by (simp only: build_profile_spec_def apply_trust_frame)
qed

lemma build_profile_spec_Ok:
  assumes "build_profile_spec h program policy = Ok spec"
  shows "pf_log_tag spec = log_tag h" and "pf_workspace_read spec = cc_read (Policy.caps policy)" and "pf_workspace_write spec = cc_write (Policy.caps policy)"
    and "resolve_workspace h (ws_root (Policy.workspace policy)) = Ok (pf_workspace spec)" and "pf_deny_exec spec = derive_deny_exec h (capabilities policy)"
    and "set (mandatory_workspace_denies (pf_workspace spec)) \<subseteq> set (pf_deny_write spec)"
  using assms by (auto simp: build_profile_spec_def Let_def split: sum.splits prod.splits)

lemma kept_env: "list_all (\<lambda>(k, v). env_kept k) (hm_insert ''ORKIA_CAGE_POLICY'' p (apply_advisory_shell h (allowed_env h)))"
proof -
  have i: "list_all (\<lambda>(k, v). env_kept k) m \<Longrightarrow> env_kept k \<Longrightarrow> list_all (\<lambda>(k, v). env_kept k) (hm_insert k v m)" for k v m
    by (auto simp: hm_insert_def list_all_iff)
  have "env_kept ''ORKIA_CAGE_POLICY''" "env_kept ''SHELL''" "env_kept ''PATH''" by (simp_all add: env_kept_def ENV_EXACT_def ENV_PREFIX_def)
  moreover have "list_all (\<lambda>(k, v). env_kept k) (allowed_env h)" by (auto simp: allowed_env_def list_all_iff)
  ultimately show ?thesis by (auto simp: apply_advisory_shell_def Let_def intro!: i split: option.split)
qed



lemma build_rootfs_spec_Ok:
  assumes "build_rootfs_spec cg k h program policy l = (l0, Ok spec)"
  shows "no_exec l \<Longrightarrow> no_exec l0" and "rs_workspace_read spec = cc_read (Policy.caps policy)" and "rs_workspace_write spec = cc_write (Policy.caps policy)"
    and "resolve_workspace h (ws_root (Policy.workspace policy)) = Ok (rs_workspace spec)"
    and "rs_deny_write spec = map (push_path (rs_workspace spec)) [''.git/config'', ''.git/hooks'', ''.mcp.json'']"
    and "rs_deny_read spec = map (push_path (rs_workspace spec)) [''.env'']"
    and "rs_rw_binds spec = snd (corpus_for_agent program (env_var h ''HOME'')) @
      (case env_var h ''HOME'' of Some hm \<Rightarrow> [push_path hm ''.orkia/run''] | None \<Rightarrow> [])"
    and "rs_allow_unconfined spec \<longleftrightarrow> env_var h ''ORKIA_CAGE_ALLOW_UNCONFINED'' \<noteq> None" and "rs_shim spec = orkia_sh_path h"
    and "rs_ro_binds spec = ly_coarse_ro (system_layout h)" and "rs_tools spec = resolve_tools h program policy (env_var h ''HOME'')"
proof -
  let ?l = "case env_var h ''HOME'' of Some hm \<Rightarrow> fst (sys_ok k (S_MkDirs (push_path hm ''.orkia/run'')) l) | None \<Rightarrow> l"
  have n: "no_exec l \<Longrightarrow> no_exec ?l" by (auto simp: sys_ok_def sys_def no_exec_def split: option.split)
  have "l0 = ?l" using assms by (auto simp: build_rootfs_spec_def Let_def split: sum.splits option.splits)
  then show "no_exec l \<Longrightarrow> no_exec l0" using n by simp
qed (use assms in \<open>auto simp: build_rootfs_spec_def Let_def split: sum.splits option.splits\<close>)

text \<open>The tools are those of the policy in the file: easing a rule keeps its name.\<close>

lemma tools_of_base: "resolve_tools h program (apply_trust base sc adjust unlocks) home = resolve_tools h program base home"
proof -
  have "list_all2 (\<lambda>c c'. c' = c \<or> promoted sc adjust unlocks c c') cs cs' \<Longrightarrow> map cap_name cs' = map cap_name cs" for cs cs'
    by (induction rule: list_all2_induct) (auto simp: promoted_def)
  from this [OF apply_trust_pointwise] show ?thesis by (simp add: resolve_tools_def)
qed

lemma layout_project: "system_layout (with_project is_root h) = system_layout h"
proof -
  have "classify (with_project is_root h) = classify h" by (intro ext) (simp add: classify_def)
  then show ?thesis by (simp add: system_layout_def)
qed



text \<open>For the instances: a host with a policy file and little else, a policy that grants the workspace and denies a binary, and a kernel on which every call succeeds.\<close>

definition demo_sandbox :: "string \<Rightarrow> Access \<Rightarrow> bool" where
  "demo_sandbox txt a = (case read_profile txt of Some rules \<Rightarrow> permitted rules a | None \<Rightarrow> False)"

definition demo_access :: "string \<Rightarrow> string \<Rightarrow> Access" where
  "demo_access op p = \<lparr>ac_op = op, ac_path = p, ac_below = (\<lambda>d. p = d \<or> prefix (d @ ''/'') p), ac_vnode = ''REGULAR-FILE'', ac_tty = False\<rparr>"

definition demo_host :: CageHost where
  "demo_host =
     \<lparr>ch_vars = [(''ORKIA_JOB_ID'', ''7''), (''PATH'', ''/usr/bin''), (''SECRET'', ''s'')], ch_cwd = Ok ''/w'', ch_canon = \<lambda>_. None,
      ch_exists = (\<lambda>p. p = ''/p.toml''), ch_is_file = (\<lambda>p. p = ''/usr/bin/docker''), ch_lstat = (\<lambda>_. None), ch_uid = 501, ch_pid = 9, ch_exe = None\<rparr>"

definition demo_policy :: Policy where
  "demo_policy =
     \<lparr>default_verdict_of = Ask, caps = \<lparr>cc_read = True, cc_write = True, cc_exec = True\<rparr>, workspace = \<lparr>ws_root = ''/w''\<rparr>,
      capabilities = [\<lparr>cap_name = ''docker'', cap_matches = [''docker*''], cap_verdict = Deny, cap_sensitivity = Sensitive\<rparr>]\<rparr>"

definition demo_cage_codec :: CageCodec where
  "demo_cage_codec = \<lparr>cg_parse = \<lambda>_. Ok demo_policy, cg_print = \<lambda>_. Ok ''t'', cg_unlocks = \<lambda>_. None, cg_pending = \<lambda>_. None, cg_pending_print = \<lambda>_. Err ''none''\<rparr>"

definition demo_kernel :: LxKernel where
  "demo_kernel =
     \<lparr>lk_err = \<lambda>_ _. None, lk_exists = (\<lambda>_ _. False), lk_is_dir = (\<lambda>p. p = ''/w''), lk_canon = (\<lambda>p. if p = ''/w/.env'' then Some p else None),
      lk_pid = 9, lk_uid = 501, lk_gid = 20\<rparr>"

definition demo_cage :: "(CageHost \<Rightarrow> string \<Rightarrow> string list \<Rightarrow> Policy \<Rightarrow> string \<Rightarrow> 'e) \<Rightarrow> fs \<times> (string list, 'e) result" where
  "demo_cage launch = cage_run demo_cage_codec noop_adjust (\<lambda>_ _ _. []) (\<lambda>_. False) launch demo_host io_fine ''/p.toml'' [''claude''] [[''p.toml''] \<mapsto> ''x'']"

lemma demo_scope: "trust_scope (\<lambda>_. False) demo_host = \<lparr>ts_agent = [], ts_project = None\<rparr>"
proof -
  have "path_comps ''/w'' = [''w'']" by code_simp
  moreover have "resolve_project_id (\<lambda>_. False) [''w''] = None" by (simp add: resolve_project_id.simps path_parent_def)
  ultimately show ?thesis by (simp add: trust_scope_def demo_host_def env_var_def)
qed

lemma demo_project: "with_project (\<lambda>_. False) demo_host = demo_host"
  by (simp add: with_project_def demo_scope)

lemma demo_loads: "cage_load_policy demo_cage_codec demo_host io_fine [[''p.toml''] \<mapsto> ''x''] ''/p.toml'' = Ok demo_policy"
proof -
  have "path_comps ''/p.toml'' = [''p.toml'']" by code_simp
  then show ?thesis by (simp add: cage_load_policy_def demo_cage_codec_def demo_host_def io_fine_def)
qed

lemma demo_cage_launches: "demo_cage launch = ([[''p.toml''] \<mapsto> ''x''], Ok (launch demo_host ''claude'' [] demo_policy ''/p.toml''))"
proof -
  have "apply_trust demo_policy (trust_scope (\<lambda>_. False) demo_host) noop_adjust u = demo_policy" for u by (simp add: apply_trust_def trusted_def demo_scope)
  moreover have "ch_canon demo_host = (\<lambda>_. None)" by (simp add: demo_host_def)
  ultimately show ?thesis
    by (simp add: demo_cage_def cage_run_def split_agent_def Let_def surface_eligibility_def effective_policy_path_def demo_scope demo_project demo_loads)
qed

lemma demo_linux_runs: "\<exists>l env. launch_linux demo_cage_codec demo_kernel demo_host ''claude'' [] demo_policy [] = (l, Ok ()) \<and> S_Exec ''claude'' [] env \<in> set l"
proof -
  let ?run = "launch_linux demo_cage_codec demo_kernel demo_host ''claude'' [] demo_policy []"
  have "snd ?run = Ok () \<and> list_ex (\<lambda>s. case s of S_Exec p a _ \<Rightarrow> p = ''claude'' \<and> a = [] | _ \<Rightarrow> False) (fst ?run)" by code_simp
  then obtain s where r: "snd ?run = Ok ()" and s: "s \<in> set (fst ?run)" "case s of S_Exec p a _ \<Rightarrow> p = ''claude'' \<and> a = [] | _ \<Rightarrow> False"
    unfolding list_ex_iff by blast
  from s(2) obtain env where "s = S_Exec ''claude'' [] env" by (cases s) simp_all
  then show ?thesis using r s(1) by (metis prod.collapse)
qed

lemma demo_profile:
  "\<exists>spec. build_profile_spec demo_host ''claude'' demo_policy = Ok spec \<and> pf_deny_write spec = mandatory_workspace_denies ''/w'' \<and> pf_workspace spec = ''/w'' \<and>
     pf_read_write spec = [''/tmp/claude-501'', ''/private/tmp/claude-501'']"
proof -
  have "from_command ''claude'' = P_Claude" "show_nat 501 = ''501''" by code_simp+
  moreover have "resolve_workspace demo_host ''/w'' = Ok ''/w''" by (simp add: resolve_workspace_def demo_host_def)
  ultimately show ?thesis by (simp add: build_profile_spec_def demo_policy_def env_var_def corpus_for_agent_def) (simp add: demo_host_def)
qed



section \<open>The tag in the comment\<close>

text \<open>A line break in the tag ends the comment that names it, and what follows is read as rules.\<close>

lemma tag_injects_rule:
  "\<exists>rules. read_profile (build_profile \<lparr>pf_log_tag = ''t'' @ [NL] @ ''(allow file-write*)'', pf_workspace = ''/w'', pf_workspace_read = True, pf_workspace_write = False,
       pf_read_only = [], pf_read_write = [], pf_deny_write = [], pf_deny_exec = []\<rparr>) = Some rules \<and> SL [SA ''allow'', SA ''file-write*''] \<in> set rules"
proof -
  let ?spec = "\<lparr>pf_log_tag = ''t'' @ [NL] @ ''(allow file-write*)'', pf_workspace = ''/w'', pf_workspace_read = True, pf_workspace_write = False,
       pf_read_only = [], pf_read_write = [], pf_deny_write = [], pf_deny_exec = []\<rparr>"
  have "case read_profile (build_profile ?spec) of Some rules \<Rightarrow> SL [SA ''allow'', SA ''file-write*''] \<in> set rules | None \<Rightarrow> False" by code_simp
  then show ?thesis by (simp split: option.splits)
qed

end
