(* ===== verification/Spec2Isabelle.thy ===== *)
theory Spec2Isabelle
  imports Cage_Policy Trust Cage_Shim Rfc_Service Dispatch_Ends Forge_Viewer Exec_Display Approvals Seal_Trail Cage_Confined
begin

text \<open>
  Orkia is a shell in which vendor coding agents run as supervised jobs. This development models the
  parts of it that decide what an agent may do, that keep the record of what it did, and that take the user's lines from the prompt to the screen.

  \<^bold>\<open>The program's parts and how they interact.\<close> A policy says which command lines an agent may run
  (\<^verbatim>\<open>crates/orkia-shell-types/src/policy.rs\<close>). Before an agent is spawned, trust that the user has
  granted turns some of its asking rules into allowing ones (\<^verbatim>\<open>trust.rs\<close> beside it). The
  launcher \<^verbatim>\<open>bins/orkia-cage\<close> runs the agent inside a sandbox made from the policy. The
  resulting policy is handed to the shim \<^verbatim>\<open>bins/orkia-sh\<close>, which stands in for the agent's shell: it
  recovers the command the agent wrapped, decides on it, sends a record of the decision to the journal and only
  then runs the real shell. The shell appends such records to hash-linked chains
  (\<^verbatim>\<open>crates/orkia-shell/src/seal\<close>), one for each job, project and workspace, that can be verified later. Work
  is planned in RFC documents with a lifecycle (\<^verbatim>\<open>crates/orkia-rfc-core\<close>), edited by one
  writer at a time (\<^verbatim>\<open>crates/orkia-rfc-lock\<close>) through a service that checks every call
  (\<^verbatim>\<open>crates/orkia-rfc-state\<close>). An RFC with a dispatch block is carried out by a fleet of agents
  (\<^verbatim>\<open>crates/orkia-dispatch-proxy\<close>): one actor per run starts the tasks that a separate kernel releases, folds their
  responses into issue files beside the RFC, lets acceptance oracles judge them, seals outputs and verdicts into a chain
  of its own and plans further rounds. Small applications that agents build run in a viewer (\<^verbatim>\<open>bins/orkia-forge-viewer\<close>) that lets
  the page do what its manifest permits and records what it did in a signed chain. At the prompt, a line is either a pipeline of typed commands
  (\<^verbatim>\<open>crates/orkia-shell/src/exec\<close>), a builtin or something for the system's shell; what was typed goes to the history, what agents and the shell
  report to the journal, and requests of agents for approval to a queue the user answers. The output of the hidden shell is cut into blocks, one per
  command, by the markers it sends (\<^verbatim>\<open>crates/orkia-terminal-core\<close>). Markers, frames in an agent's output, hooks of its provider and the detector of
  prompts all become events of one stream (\<^verbatim>\<open>crates/orkia-shell/src/protocol\<close>), from which one task writes the chains.

  \<^bold>\<open>The theories.\<close>

  \<^item> \<^verbatim>\<open>Orkia_Prelude\<close>: results with an error and a value, hash maps as association lists with
    distinct keys, JSON values, and the string functions of Rust's standard library that the sources
    use: trimming, splitting, lines, decimal numerals, shell quoting.

  \<^item> \<^verbatim>\<open>Host_Fs\<close>: paths, a file system as a map from paths to contents, and the host's answers to
    every call (\<open>Io\<close>). The durable write by temporary file and rename, which several stores use, is defined and
    analysed here once.

  \<^item> \<^verbatim>\<open>Cage_Policy\<close> (\<^verbatim>\<open>policy.rs\<close>): splitting a command line into its simple commands
    (\<open>split_segments\<close>), words (\<open>shell_split\<close>), canonical forms (\<open>canonicalize\<close>), glob
    matching and the decision (\<open>evaluate_match\<close>). The lemmas show that the most restrictive segment
    decides (locale \<open>worst_first\<close>), that a denied segment denies the line, that quoting round-trips, and
    how chaining and git's global options are treated.

  \<^item> \<^verbatim>\<open>Trust\<close> (\<^verbatim>\<open>trust.rs\<close>): project identities, the store of unlocks (locale
    \<open>grant_store\<close>), pending proposals and \<open>apply_trust\<close>. The lemmas show that trust changes Ask into
    Allow and nothing else, and that revoking takes effect.

  \<^item> \<^verbatim>\<open>Cage_Shim\<close> (\<^verbatim>\<open>orkia-sh\<close>: \<^verbatim>\<open>main.rs\<close>, \<^verbatim>\<open>decide.rs\<close>, \<^verbatim>\<open>emit.rs\<close>, \<^verbatim>\<open>hook.rs\<close>,
    \<^verbatim>\<open>supervise.rs\<close>): both entry modes as functions from the host's answers to the list of effects. The
    lemmas show that nothing runs without an allowing decision on record.

  \<^item> \<^verbatim>\<open>Cage_Profile\<close> (\<^verbatim>\<open>orkia-cage\<close>: \<^verbatim>\<open>sbpl.rs\<close>, \<^verbatim>\<open>lib.rs\<close>), \<^verbatim>\<open>Cage_Rootfs\<close> (\<^verbatim>\<open>toolset.rs\<close>, \<^verbatim>\<open>linux_sb.rs\<close>) and
    \<^verbatim>\<open>Cage_Confined\<close>: the text of the macOS profile with a reader of that language as its reference, and on Linux the system calls that build and
    enter a minimal root (locale \<open>trace_law\<close> for what a step may add to them). The lemmas show that the agent runs only behind the sandbox the policy asks for.

  \<^item> \<^verbatim>\<open>Rfc_Types\<close>, \<^verbatim>\<open>Rfc_Store\<close>, \<^verbatim>\<open>Rfc_Lock\<close>, \<^verbatim>\<open>Rfc_Service\<close>: the RFC data and its
    lifecycle as a step relation, the file store with its decision log, the lease table (locale
    \<open>lease_table\<close>) and the service's operations with their events. The lemmas show the lifecycle's edges,
    crash safety of saving and reopening, mutual exclusion of writers, refusal of lost updates, and that
    failed calls leave no trace.

  \<^item> \<^verbatim>\<open>Seal_Chain\<close> (\<^verbatim>\<open>seal/chain.rs\<close>, \<^verbatim>\<open>manager.rs\<close>, \<^verbatim>\<open>migrate.rs\<close>, and the verdict rows of
    \<^verbatim>\<open>audit_verify.rs\<close>): chains, the manager and deep verification (locales \<open>chain_links\<close> and \<open>chain_check\<close>). The lemmas
    show that appending keeps a chain valid and readable, that a tip pins the content, that a
    terminal record seals, and what deep verification reports.

  \<^item> \<^verbatim>\<open>Dispatch_Issues\<close> (\<^verbatim>\<open>issues.rs\<close>, \<^verbatim>\<open>compose.rs\<close>, \<^verbatim>\<open>spawn.rs\<close>), \<^verbatim>\<open>Dispatch_Seal\<close> (\<^verbatim>\<open>seal.rs\<close>)
    and \<^verbatim>\<open>Dispatch_Run\<close> (\<^verbatim>\<open>run.rs\<close>, \<^verbatim>\<open>oracle.rs\<close>, \<^verbatim>\<open>lib.rs\<close>): the issue files, the chain of a run (a second
    instance of \<open>chain_check\<close>) and the driver. The driver's operations are actions on a state that holds the file system and
    the list of all effects so far (\<open>DEffect\<close>), composed by \<open>dbind\<close>; the kernel, the spawner, the daemon and the
    oracles answer as arbitrary functions of that list (\<open>DEnv\<close>). \<^verbatim>\<open>Dispatch_Effects\<close> holds the calculus of effects,
    \<^verbatim>\<open>Dispatch_Correct\<close> the guarantees (no report without a verdict, seals before reports, bounded retries and
    rounds, closing on errors), \<^verbatim>\<open>Dispatch_Ends\<close> termination and that no response is lost.

  \<^item> \<^verbatim>\<open>Forge_Permissions\<close>, \<^verbatim>\<open>Forge_Seal\<close>, \<^verbatim>\<open>Forge_Viewer\<close>: the permission checks with fetching and notifications, the signed chain
    (a further instance of \<open>chain_links\<close>) and the viewer with its commands, its asset server, start and end. The lemmas show that only listed hosts are
    contacted, redirects included, that what the page does is within its manifest, that what is served stays within the application's files, and that
    the chain holds exactly the audited calls of a session.

  \<^item> \<^verbatim>\<open>Builtin_Table\<close> (\<^verbatim>\<open>builtin_table.rs\<close>), \<^verbatim>\<open>Job_Target\<close> (\<^verbatim>\<open>job.rs\<close>, \<^verbatim>\<open>builtin_resolve.rs\<close>), \<^verbatim>\<open>Exec_Value\<close>
    (\<^verbatim>\<open>crates/orkia-value\<close> and the data of \<^verbatim>\<open>crates/orkia-shell-types/src/exec\<close>): the table of builtins with its suggestions, the addresses of jobs, and
    values, types, literals, capabilities, signatures. The lemmas show that the suggestions' distance is the least number of edits, and that job
    identifiers and values at the plugin boundary round-trip.

  \<^item> \<^verbatim>\<open>Exec_Engine\<close> (\<^verbatim>\<open>tokenize.rs\<close>, \<^verbatim>\<open>parse.rs\<close>, \<^verbatim>\<open>eval.rs\<close>, \<^verbatim>\<open>registry.rs\<close>, \<^verbatim>\<open>engine.rs\<close>), \<^verbatim>\<open>Exec_Commands\<close> (the seventeen
    commands, the predicate language, \<^verbatim>\<open>convert.rs\<close>), \<^verbatim>\<open>Exec_Correct\<close>, \<^verbatim>\<open>Exec_Display\<close> (\<^verbatim>\<open>display.rs\<close>, \<^verbatim>\<open>sink.rs\<close>, \<open>dispatch_exec\<close>): typed
    pipelines from the line to the screen. The contract of a registry whose commands return what they declare is the locale \<open>typed_commands\<close>, interpreted
    on the pilots. The lemmas show that quoted words survive, which lines are typed pipelines, that types hold along a plan, what a query returns,
    that a record is one line for an external command, and that the display loop, a step relation over rows and clock ticks, shows every row once.

  \<^item> \<^verbatim>\<open>History_Store\<close> (\<^verbatim>\<open>history\<close>) and \<^verbatim>\<open>Journal_Store\<close> (\<^verbatim>\<open>journal\<close>, and notifications and normalisation of
    \<^verbatim>\<open>crates/orkia-journal-hub\<close>): the history with its file and the import from other shells, the journal with its writer queue. The lemmas show that
    the history's file mirrors it, that no event is lost on its way to disk, and which verdicts of the cage are shown.

  \<^item> \<^verbatim>\<open>Approvals\<close> (\<^verbatim>\<open>approval.rs\<close>, \<^verbatim>\<open>repl/approval.rs\<close>): the queue of requests, its janitor and the commands approve and deny. The lemmas show, for
    every interleaving of user, janitor and agents, that a decision reaches the job it was made for and no other.

  \<^item> \<^verbatim>\<open>Term_State\<close> (\<^verbatim>\<open>state.rs\<close>, \<^verbatim>\<open>prescan.rs\<close>) and \<^verbatim>\<open>Term_Blocks\<close> (\<^verbatim>\<open>blocks.rs\<close>): the mode of a pane, the scanner for mode signals
    and the parser of command blocks. The lemmas show that the mode settles on what the signals ask for, and that neither signals nor the output of a command
    depend on how the bytes are cut into reads.

  \<^item> \<^verbatim>\<open>Protocol\<close> (\<^verbatim>\<open>protocol\<close>), \<^verbatim>\<open>Seal_Consumer\<close> (\<^verbatim>\<open>seal/consumer\<close>, \<^verbatim>\<open>pending.rs\<close>, \<^verbatim>\<open>emit.rs\<close>) and \<^verbatim>\<open>Seal_Trail\<close>: the
    events and their sources, frames and markers, the router with its window, the fan-out, and the task that seals. The lemmas show that a frame arrives as the
    event it was written from, that the router drops exactly what a look back at the delivered events forbids, and that a session is sealed as it happened,
    whatever fails for other jobs; and where the record has gaps: after a turn's end, behind an agent's own frames, on a chain that cannot be read.

  This theory holds what spans several of them.

  \<^bold>\<open>Conventions.\<close> A Rust \<^verbatim>\<open>Result\<close> is a sum, the error on the left. Structs are records whose
  fields carry a prefix, enums are datatypes. Machine integers are words where wrapping or truncation matters
  (sequence numbers, job identifiers, exit codes) and integers with written-out bounds where a parser or a
  JSON number limits them. Characters range over U+0000 to U+00FF; the sources' string operations act on
  characters, and no definition depends on the byte length of a longer encoding except where a theory says
  so. Time is an argument. Code outside the repository is an argument too: TOML, JSON and SHA-256 are fields of a
  codec record, with what is relied on (a printed value parses back on one line) as named hypotheses that
  the witnesses discharge for a concrete codec; the trust scorer is an arbitrary function. Host calls that can
  fail are answered by an \<open>Io\<close> or \<open>Host\<close> value, so a theorem that quantifies over it covers every
  pattern of failures.

  \<^bold>\<open>Bounds.\<close> No definition uses fuel. The driver's loop over a wave (\<open>process_wave\<close>) is a partial function, as a
  kernel could keep it busy for ever; it is proved to return for every kernel that releases tasks of a finite plan at most once in a
  round, by the rounds left and then the tasks queued or not yet released. Loops that are not structural have a measure: the length of the text still
  to scan, the distance to the file-system root, the numbers left below the largest 32-bit value when an archive name
  is searched.

  \<^bold>\<open>Not modelled.\<close> The terminal emulator, pseudo-terminals and drawing; processes beyond their start, signals and
  exit; sockets, and threads other than the journal's writer, the approval janitor and the display loop, whose queues and interleavings are explicit (the RFC
  service is used under one mutex, a chain by one owner); what the operating system does with a sandbox profile or a mount, beyond what the theorems assume of it; log output; the interactive loop that reads lines and
  calls the parts above; detection of prompts on an agent's terminal by timing; network clients, the separate kernel daemon, plugins and the
  database, of which the repository holds only the calling side.
\<close>

section \<open>From the granted trust to the command that runs\<close>

lemma apply_trust_id:
  assumes "trusted sc = None \<or>
    (\<forall>c \<in> set (capabilities base). cap_sensitivity c = Sensitive) \<and> (\<forall>key. \<not> unlock_has unlocks key)"
  shows "apply_trust base sc adjust unlocks = base"
  using assms
proof
  assume "trusted sc = None"
  then show ?thesis by (simp add: apply_trust_def)
next
  assume a: "(\<forall>c \<in> set (capabilities base). cap_sensitivity c = Sensitive) \<and> (\<forall>key. \<not> unlock_has unlocks key)"
  have "list_all2 (\<lambda>c c'. c' = c) (capabilities base) (capabilities (apply_trust base sc adjust unlocks))"
    by (rule list.rel_mono_strong [OF apply_trust_pointwise]) (use a in \<open>auto simp: promoted_def\<close>)
  then have "capabilities (apply_trust base sc adjust unlocks) = capabilities base"
    by (simp add: list_all2_conv_all_nth list_eq_iff_nth_eq)
  then show ?thesis by (intro Policy.equality) simp_all
qed

lemma run_not_denied:
  assumes "evaluate_match (apply_trust base sc adjust unlocks) cmd = PD_Allow cap rule"
    and "d \<in> set (segment_decisions base cmd)"
  shows "tier d \<noteq> 2"
proof -
  have "tier (evaluate_match base cmd) \<noteq> 2"
    using evaluate_match_eased [of base sc adjust unlocks cmd] assms(1) by simp
  moreover have "tier (evaluate_match base cmd) \<le> 2" using tier_simps(3) [of "evaluate_match base cmd"] .
  ultimately show ?thesis
    using evaluate_match_worst(2) [of base cmd d] assms(2) by (cases "segment_decisions base cmd") auto
qed

text \<open>C1. From end to end: when an agent runs in a cage under the project's policy adjusted by trust and its command
  reaches the real shell, then an allowing decision on the recovered command was recorded first, the project's
  own policy leaves the exec class open and denies no simple command of the line, and it
  allows the line by itself unless trust could promote: that takes a named agent in a resolved project and
  either a benign rule or a human unlock.\<close>

theorem caged_run_respects_project_policy:
  assumes "load_policy h = Ok (apply_trust base sc adjust unlocks)"
    and "list_ex is_run (fst (mediate h args raw))"
  shows "\<exists>cmd cap rule es. extract_command raw = Command cmd \<and> cc_exec (Policy.caps base) \<and>
    fst (mediate h args raw) = Recorded (stamp_routing h (build_envelope (h_now h) cmd Allow cap rule))
      # RunShell (real_shell h) args True # es \<and>
    (\<forall>d \<in> set (segment_decisions base cmd). tier d \<noteq> 2) \<and>
    (trusted sc = None \<or>
     (\<forall>c \<in> set (capabilities base). cap_sensitivity c = Sensitive) \<and> (\<forall>key. \<not> unlock_has unlocks key)
     \<longrightarrow> evaluate_match base cmd = PD_Allow cap rule)"
proof -
  let ?pol = "apply_trust base sc adjust unlocks"
  obtain cmd cap rule es where d: "decide h raw = D_Allow cmd cap rule"
    and es: "fst (mediate h args raw) = Recorded (stamp_routing h (build_envelope (h_now h) cmd Allow cap rule))
      # RunShell (real_shell h) args True # es"
    using mediate_runs [OF assms(2)] by blast
  have p: "extract_command raw = Command cmd" "cc_exec (Policy.caps base)" "evaluate_match ?pol cmd = PD_Allow cap rule"
    using d assms(1) by (simp_all add: decide_Allow)
  then have "evaluate_match base cmd = PD_Allow cap rule" if "trusted sc = None \<or>
      (\<forall>c \<in> set (capabilities base). cap_sensitivity c = Sensitive) \<and> (\<forall>key. \<not> unlock_has unlocks key)"
    using apply_trust_id [OF that] by simp
  with p es run_not_denied [OF p(3)] show ?thesis by blast
qed

theorem caged_run_respects_project_policy_witness:
  "\<exists>cmd cap rule es. extract_command ''echo hi'' = Command cmd \<and> cc_exec (Policy.caps sample_policy) \<and>
    fst (mediate sample_host [''-c'', ''echo hi''] ''echo hi'') =
      Recorded (stamp_routing sample_host (build_envelope (h_now sample_host) cmd Allow cap rule))
      # RunShell (real_shell sample_host) [''-c'', ''echo hi''] True # es"
proof -
  have "trusted \<lparr>ts_agent = [], ts_project = None\<rparr> = None" by code_simp
  then have "load_policy sample_host =
      Ok (apply_trust sample_policy \<lparr>ts_agent = [], ts_project = None\<rparr> noop_adjust unlock_empty)"
    by (simp add: load_policy_def sample_host_def apply_trust_def)
  moreover have "list_ex is_run (fst (mediate sample_host [''-c'', ''echo hi''] ''echo hi''))" by code_simp
  ultimately show ?thesis
    using caged_run_respects_project_policy [of sample_host sample_policy] by blast
qed

end
